(* ===== verification/Prelude.thy ===== *)
theory Prelude
  imports Main "HOL-Library.Word" "HOL-Library.Monad_Syntax"
begin

text \<open>
  Shared material of the development: the names of the machine types, Rust's panicking slice
  expressions, two's-complement wrap-around for signed counters kept as \<open>int\<close>, little-endian
  byte strings, decimal printing, and the named collections that the component theories extend.

  Conventions used everywhere:
  \<^item> a Rust panic (slice out of range, arithmetic underflow caught in debug builds) is \<open>None\<close>;
  \<^item> a \<open>Result\<close> is a sum, \<open>Inl\<close> the error and \<open>Inr\<close> the value;
  \<^item> \<open>usize\<close> is \<open>nat\<close>: a \<open>Vec\<close> never holds more than \<open>isize::MAX\<close> bytes, so the sums of
    lengths in the modelled code stay below \<open>2 ^ 64\<close>.
\<close>

unbundle bit_operations_syntax

named_theorems slice_simps \<open>evaluation of slice expressions\<close>
named_theorems wf_intros \<open>preservation of the component invariants\<close>
named_theorems model_defs \<open>definitions unfolded when a concrete input is evaluated\<close>

type_synonym u8 = "8 word"
type_synonym u16 = "16 word"
type_synonym u32 = "32 word"
type_synonym u64 = "64 word"
type_synonym f32 = "32 word" \<comment> \<open>IEEE bit patterns\<close>
type_synonym f64 = "64 word"
type_synonym bytes = "u8 list"

section \<open>Slices\<close>

text \<open>\<open>&xs[a..b]\<close>: panics when \<open>a > b\<close> or \<open>b > xs.len()\<close>.\<close>

definition slice :: "'a list \<Rightarrow> nat \<Rightarrow> nat \<Rightarrow> 'a list option" where
  "slice xs a b = (if a \<le> b \<and> b \<le> length xs then Some (take (b - a) (drop a xs)) else None)"

text \<open>\<open>xs[a..a + ys.len()].copy_from_slice(ys)\<close>: panics when the target range is out of range.\<close>

definition copy_into :: "'a list \<Rightarrow> nat \<Rightarrow> 'a list \<Rightarrow> 'a list option" where
  "copy_into xs a ys =
     (if a + length ys \<le> length xs then Some (take a xs @ ys @ drop (a + length ys) xs) else None)"

text \<open>\<open>a - b\<close> on \<open>usize\<close>: underflow is a panic.\<close>

definition usize_sub :: "nat \<Rightarrow> nat \<Rightarrow> nat option" where
  "usize_sub a b = (if b \<le> a then Some (a - b) else None)"

lemma slice_in_range [slice_simps]:
  "a \<le> b \<Longrightarrow> b \<le> length xs \<Longrightarrow> slice xs a b = Some (take (b - a) (drop a xs))"
  by (simp add: slice_def)

lemma slice_Some_iff:
  "slice xs a b = Some ys \<longleftrightarrow> a \<le> b \<and> b \<le> length xs \<and> ys = take (b - a) (drop a xs)"
  by (auto simp: slice_def)

lemma copy_into_in_range [slice_simps]:
  "a + length ys \<le> length xs \<Longrightarrow>
     copy_into xs a ys = Some (take a xs @ ys @ drop (a + length ys) xs)"
  by (simp add: copy_into_def)

lemma copy_into_Some_length: "copy_into xs a ys = Some zs \<Longrightarrow> length zs = length xs"
  by (auto simp: copy_into_def split: if_splits)

lemma usize_sub_in_range [slice_simps]: "b \<le> a \<Longrightarrow> usize_sub a b = Some (a - b)"
  by (simp add: usize_sub_def)

text \<open>Reads below an index are not affected by a write above it.\<close>

lemma take_drop_prefix:
  "k \<le> l - p \<Longrightarrow> take k (drop p (take l xs)) = take k (drop p xs)"
  by (simp add: drop_take)

lemma window_append:
  "p \<le> l \<Longrightarrow> l \<le> length xs \<Longrightarrow>
    take (l + length d - p) (drop p (take l xs @ d @ ys)) = take (l - p) (drop p xs) @ d"
  by (simp add: drop_take)

section \<open>Signed counters\<close>

text \<open>
  \<open>i32\<close> and \<open>i64\<close> values are kept as \<open>int\<close>; an addition that can leave the range is written with
  the wrap-around of the release profile (no overflow checks), \<open>swrap w\<close>.
\<close>

definition swrap :: "nat \<Rightarrow> int \<Rightarrow> int" where
  "swrap w x = (x + 2 ^ (w - 1)) mod 2 ^ w - 2 ^ (w - 1)"

definition in_srange :: "nat \<Rightarrow> int \<Rightarrow> bool" where
  "in_srange w x \<longleftrightarrow> - (2 ^ (w - 1)) \<le> x \<and> x < 2 ^ (w - 1)"

lemma swrap_id:
  assumes "0 < w" and "in_srange w x"
  shows "swrap w x = x"
proof -
  have "(2::int) ^ w = 2 * 2 ^ (w - 1)"
    using assms(1) by (cases w) auto
  with assms(2) have "0 \<le> x + 2 ^ (w - 1)" and "x + 2 ^ (w - 1) < 2 ^ w"
    by (auto simp: in_srange_def)
  then show ?thesis by (simp add: swrap_def)
qed

lemma swrap_in_range:
  assumes "0 < w"
  shows "in_srange w (swrap w x)"
proof -
  have two: "(2::int) ^ w = 2 * 2 ^ (w - 1)"
    using assms by (cases w) auto
  have "0 \<le> (x + 2 ^ (w - 1)) mod 2 ^ w" and "(x + 2 ^ (w - 1)) mod 2 ^ w < 2 ^ w"
    by simp_all
  then show ?thesis by (auto simp: swrap_def in_srange_def two)
qed

section \<open>Little-endian byte strings\<close>

text \<open>\<open>to_le_bytes\<close> and \<open>from_le_bytes\<close> for any word type, one byte at a time.\<close>

fun le_bytes :: "nat \<Rightarrow> 'a::len word \<Rightarrow> bytes" where
  "le_bytes 0 w = []"
| "le_bytes (Suc n) w = ucast w # le_bytes n (drop_bit 8 w)"

fun le_word :: "bytes \<Rightarrow> 'a::len word" where
  "le_word [] = 0"
| "le_word (b # bs) = ucast b OR push_bit 8 (le_word bs)"

definition u32_to_le_bytes :: "u32 \<Rightarrow> bytes" where
  "u32_to_le_bytes w = le_bytes 4 w"

definition u32_from_le_bytes :: "bytes \<Rightarrow> u32" where
  "u32_from_le_bytes bs = le_word bs"

lemma length_le_bytes [simp]: "length (le_bytes n w) = n"
  by (induction n arbitrary: w) auto

lemma le_word_le_bytes: "le_word (le_bytes n (w :: 'a::len word)) = take_bit (8 * n) w"
proof (induction n arbitrary: w)
  case 0
  then show ?case by simp
next
  case (Suc n)
  have "ucast (ucast w :: u8) OR push_bit 8 (take_bit (8 * n) (drop_bit 8 w)) = take_bit (8 * Suc n) w"
    by (rule bit_word_eqI) (auto simp: bit_simps)
  with Suc show ?case by simp
qed

lemma le_bytes_le_word:
  "8 * length bs \<le> LENGTH('a) \<Longrightarrow> le_bytes (length bs) (le_word bs :: 'a::len word) = bs"
proof (induction bs)
  case Nil
  then show ?case by simp
next
  case (Cons b bs)
  have long: "8 \<le> LENGTH('a)" using Cons.prems by simp
  have 1: "ucast (ucast b OR push_bit 8 (le_word bs) :: 'a word) = b"
    by (rule bit_word_eqI) (use long in \<open>auto simp: bit_simps\<close>)
  have hi: "bit (le_word bs :: 'a word) i \<Longrightarrow> i < 8 * length bs" for i
  proof (induction bs arbitrary: i)
    case Nil
    then show ?case by simp
  next
    case (Cons c cs)
    then show ?case
      by (cases "i < 8") (auto simp: bit_simps dest: Cons.IH [of "i - 8"] bit_imp_le_length)
  qed
  have 2: "drop_bit 8 (ucast b OR push_bit 8 (le_word bs) :: 'a word) = le_word bs"
    by (rule bit_word_eqI) (use Cons.prems in \<open>auto simp: bit_simps dest: hi bit_imp_le_length\<close>)
  have "le_bytes (length bs) (drop_bit 8 (ucast b OR push_bit 8 (le_word bs) :: 'a word)) = bs"
    unfolding 2 using Cons by simp
  with 1 show ?case by simp
qed

lemma u32_le_roundtrip [simp]: "u32_from_le_bytes (u32_to_le_bytes w) = w"
  by (simp add: u32_from_le_bytes_def u32_to_le_bytes_def le_word_le_bytes take_bit_word_eq_self)

lemma u32_le_roundtrip_bytes: "length bs = 4 \<Longrightarrow> u32_to_le_bytes (u32_from_le_bytes bs) = bs"
  using le_bytes_le_word [of bs, where 'a = 32]
  by (simp add: u32_from_le_bytes_def u32_to_le_bytes_def)

lemma length_u32_to_le_bytes [simp]: "length (u32_to_le_bytes w) = 4"
  by (simp add: u32_to_le_bytes_def)

section \<open>Decimal printing\<close>

text \<open>The \<open>{}\<close> format of an unsigned integer.\<close>

fun dec :: "nat \<Rightarrow> string" where
  "dec n = (if n < 10 then [char_of (48 + n)] else dec (n div 10) @ [char_of (48 + n mod 10)])"

declare dec.simps [simp del]

text \<open>The reader used to state that printing is injective.\<close>

definition undec :: "string \<Rightarrow> nat" where
  "undec s = foldl (\<lambda>acc c. 10 * acc + (of_char c - 48)) 0 s"

lemma undec_snoc: "undec (s @ [c]) = 10 * undec s + (of_char c - 48)"
  by (simp add: undec_def)

lemma of_char_digit: "d < 10 \<Longrightarrow> (of_char (char_of (48 + d :: nat)) :: nat) - 48 = d"
  by simp

lemma undec_dec [simp]: "undec (dec n) = n"
proof (induction n rule: dec.induct)
  case (1 n)
  show ?case
  proof (cases "n < 10")
    case True
    then show ?thesis by (subst dec.simps) (simp add: undec_def)
  next
    case False
    with "1.IH" have "undec (dec (n div 10)) = n div 10" by simp
    with False show ?thesis by (subst dec.simps) (simp add: undec_snoc)
  qed
qed

lemma dec_inject [simp]: "dec m = dec n \<longleftrightarrow> m = n"
  by (metis undec_dec)

text \<open>Every printed character is a digit, so no separator occurs inside a number.\<close>

definition is_digit :: "char \<Rightarrow> bool" where
  "is_digit c \<longleftrightarrow> 48 \<le> (of_char c :: nat) \<and> (of_char c :: nat) \<le> 57"

lemma dec_digits: "c \<in> set (dec n) \<Longrightarrow> is_digit c"
proof (induction n rule: dec.induct)
  case (1 n)
  show ?case
  proof (cases "n < 10")
    case True
    with "1.prems" have "c = char_of (48 + n)" by (subst (asm) dec.simps) simp
    with True show ?thesis by (simp add: is_digit_def)
  next
    case False
    with "1.prems" have "c \<in> set (dec (n div 10)) \<or> c = char_of (48 + n mod 10)"
      by (subst (asm) dec.simps) auto
    with "1.IH" False show ?thesis by (auto simp: is_digit_def)
  qed
qed

lemma dec_nonempty [simp]: "dec n \<noteq> []"
  by (subst dec.simps) simp

section \<open>Collecting fallible results\<close>

text \<open>\<open>iter().map(f).collect::<Option<Vec<_>>>()\<close>: \<open>None\<close> as soon as one element is \<open>None\<close>.\<close>

fun collect_option :: "'a option list \<Rightarrow> 'a list option" where
  "collect_option [] = Some []"
| "collect_option (None # _) = None"
| "collect_option (Some x # xs) = map_option ((#) x) (collect_option xs)"

lemma collect_option_map_Some [simp]: "collect_option (map (\<lambda>x. Some (f x)) xs) = Some (map f xs)"
  by (induction xs) auto

lemma collect_option_Some_iff: "collect_option xs = Some ys \<longleftrightarrow> xs = map Some ys"
proof (induction xs arbitrary: ys)
  case Nil
  then show ?case by auto
next
  case (Cons x xs)
  then show ?case by (cases x; cases ys) auto
qed

text \<open>The \<open>?\<close> operator on results, and \<open>collect::<Result<Vec<_>, _>>()\<close>.\<close>

definition ebind :: "'e + 'a \<Rightarrow> ('a \<Rightarrow> 'e + 'b) \<Rightarrow> 'e + 'b" where
  "ebind r f = (case r of Inl e \<Rightarrow> Inl e | Inr x \<Rightarrow> f x)"

lemma ebind_simps [simp]: "ebind (Inl e) f = Inl e" "ebind (Inr x) f = f x"
  by (simp_all add: ebind_def)

lemma ebind_Inr_iff: "ebind r f = Inr y \<longleftrightarrow> (\<exists>x. r = Inr x \<and> f x = Inr y)"
  by (cases r) auto

fun collect_result :: "('e + 'a) list \<Rightarrow> 'e + 'a list" where
  "collect_result [] = Inr []"
| "collect_result (Inl e # _) = Inl e"
| "collect_result (Inr x # rs) = ebind (collect_result rs) (\<lambda>xs. Inr (x # xs))"

lemma collect_result_map:
  "\<forall>x \<in> set xs. f (g x) = Inr x \<Longrightarrow> collect_result (map (\<lambda>x. f (g x)) xs) = Inr xs"
  by (induction xs) auto

section \<open>Sorted maps\<close>

text \<open>A \<open>BTreeMap\<close> as its entries in key order.\<close>

fun map_insert :: "'k::linorder \<Rightarrow> 'v \<Rightarrow> ('k \<times> 'v) list \<Rightarrow> ('k \<times> 'v) list" where
  "map_insert k v [] = [(k, v)]"
| "map_insert k v ((k', v') # m) =
     (if k < k' then (k, v) # (k', v') # m
      else if k = k' then (k, v) # m
      else (k', v') # map_insert k v m)"

definition map_remove :: "'k \<Rightarrow> ('k \<times> 'v) list \<Rightarrow> ('k \<times> 'v) list" where
  "map_remove k m = [e \<leftarrow> m. fst e \<noteq> k]"

definition sorted_map :: "('k::linorder \<times> 'v) list \<Rightarrow> bool" where
  "sorted_map m \<longleftrightarrow> sorted (map fst m) \<and> distinct (map fst m)"

lemma map_of_map_insert [simp]: "map_of (map_insert k v m) = (map_of m)(k \<mapsto> v)"
  by (induction m) auto

lemma map_of_map_remove [simp]: "map_of (map_remove k m) = (map_of m)(k := None)"
  by (induction m) (auto simp: map_remove_def)

lemma set_map_insert: "fst ` set (map_insert k v m) = insert k (fst ` set m)"
proof (induction m)
  case (Cons e m)
  then show ?case by (cases e) auto
qed simp

lemma sorted_map_insert [wf_intros]: "sorted_map m \<Longrightarrow> sorted_map (map_insert k v m)"
proof (induction m)
  case Nil
  then show ?case by (simp add: sorted_map_def)
next
  case (Cons e m)
  obtain k' v' where e: "e = (k', v')" by (cases e)
  from Cons have tl: "sorted_map m" and hd: "\<forall>x \<in> fst ` set m. k' < x"
    by (auto simp: sorted_map_def e order_less_le)
  with Cons.IH have IH: "sorted_map (map_insert k v m)" by simp
  consider "k < k'" | "k = k'" | "k' < k" by fastforce
  then show ?case
  proof cases
    case 3
    then have "\<forall>x \<in> fst ` set (map_insert k v m). k' < x" using hd by (simp add: set_map_insert)
    with IH 3 show ?thesis by (force simp: sorted_map_def e)
  qed (use tl hd in \<open>force simp: sorted_map_def e\<close>)+
qed

lemma sorted_map_remove [wf_intros]: "sorted_map m \<Longrightarrow> sorted_map (map_remove k m)"
  by (induction m) (auto simp: sorted_map_def map_remove_def)

text \<open>Inserting a list with distinct keys one by one sorts it.\<close>

lemma map_insert_above:
  "\<forall>x \<in> fst ` set m. x < k \<Longrightarrow> map_insert k v m = m @ [(k, v)]"
proof (induction m)
  case (Cons e m)
  then show ?case by (cases e) (auto simp: order_less_le)
qed simp

lemma fold_map_insert_sorted:
  assumes "sorted_map (m @ xs)"
  shows "fold (\<lambda>(k, v) m. map_insert k v m) xs m = m @ xs"
  using assms
proof (induction xs arbitrary: m)
  case (Cons e xs)
  obtain k v where e: "e = (k, v)" by (cases e)
  have "\<forall>x \<in> fst ` set m. x < k"
    using Cons.prems by (force simp: sorted_map_def e sorted_append order_less_le)
  then have "map_insert k v m = m @ [(k, v)]" by (rule map_insert_above)
  with Cons show ?case by (simp add: e)
qed simp

lemma sort_key_sorted_map: "sorted_map m \<Longrightarrow> sort_key fst m = m"
  by (simp add: sorted_map_def sort_key_id_if_sorted)

lemma sorted_map_fold:
  "sorted_map m \<Longrightarrow> sorted_map (fold (\<lambda>(k, v) m. map_insert k (f v) m) xs m)"
  by (induction xs arbitrary: m) (auto intro: wf_intros)

lemma sorted_map_Nil [simp]: "sorted_map []"
  by (simp add: sorted_map_def)

lemma sorted_map_Cons: "sorted_map (e # m) \<longleftrightarrow> (\<forall>x \<in> set m. fst e < fst x) \<and> sorted_map m"
proof
  assume m: "sorted_map (e # m)"
  then have "fst e \<notin> fst ` set m" and "\<forall>x \<in> set m. fst e \<le> fst x"
    by (simp_all add: sorted_map_def)
  then have "\<forall>x \<in> set m. fst e < fst x" by (metis image_eqI order_le_less)
  with m show "(\<forall>x \<in> set m. fst e < fst x) \<and> sorted_map m" by (simp add: sorted_map_def)
next
  assume "(\<forall>x \<in> set m. fst e < fst x) \<and> sorted_map m"
  then show "sorted_map (e # m)" by (auto simp: sorted_map_def order_less_le)
qed

lemma sorted_map_appendD: "sorted_map (xs @ ys) \<Longrightarrow> sorted_map xs \<and> sorted_map ys"
  by (simp add: sorted_map_def sorted_append)

lemma map_of_None_below: "\<forall>x \<in> set m. k < fst x \<Longrightarrow> map_of m (k :: 'k::linorder) = None"
  by (auto simp: map_of_eq_None_iff)

lemma map_of_None_above: "\<forall>x \<in> set m. fst x < k \<Longrightarrow> map_of m (k :: 'k::linorder) = None"
  by (auto simp: map_of_eq_None_iff)

section \<open>Invariants of step relations\<close>

text \<open>
  The contract of a component with a state: the start states satisfy the invariant and every step keeps
  it. What a client gets is that every reachable state satisfies it.
\<close>

locale invariant_system =
  fixes start :: "'s \<Rightarrow> bool" and step :: "'s \<Rightarrow> 's \<Rightarrow> bool" and inv :: "'s \<Rightarrow> bool"
  assumes start_inv: "start s \<Longrightarrow> inv s"
    and step_inv: "inv s \<Longrightarrow> step s s' \<Longrightarrow> inv s'"
begin

lemma steps_inv:
  assumes "step\<^sup>*\<^sup>* s s'" and "inv s"
  shows "inv s'"
  using assms by (induction rule: rtranclp_induct) (auto intro: step_inv)

lemma reachable_inv:
  assumes "start s" and "step\<^sup>*\<^sup>* s s'"
  shows "inv s'"
  using steps_inv [OF assms(2)] start_inv [OF assms(1)] .

end

end
