(* ===== verification/Opcode.thy ===== *)
theory Opcode
  imports Prelude
begin

text \<open>
  The packet opcodes of the FCast wire protocol (\<open>Opcode\<close> and \<open>TryFrom<u8>\<close> in
  crates/fcast-protocol/src/lib.rs), the packet header of the receiver (\<open>Header\<close> in
  crates/receiver-core/src/fcast.rs) and the functions that write one framed packet to the
  connection: the receiver's, the sender SDK's (sdk/sender/fcast-sender-sdk/src/fcast.rs) and
  the test client's (tools/fast/src/engine.rs). A writer is modelled by the bytes it hands to
  the stream, in order.
\<close>

section \<open>Opcodes\<close>

datatype opcode =
    Op_None | Op_Play | Op_Pause | Op_Resume | Op_Stop | Op_Seek | Op_PlaybackUpdate
  | Op_VolumeUpdate | Op_SetVolume | Op_PlaybackError | Op_SetSpeed | Op_Version | Op_Ping
  | Op_Pong | Op_Initial | Op_PlayUpdate | Op_SetPlaylistItem | Op_SubscribeEvent
  | Op_UnsubscribeEvent | Op_Event | Op_Flatbuf | Op_Resource

datatype try_from_byte_error = UnknownOpcode u8

text \<open>\<open>opcode as u8\<close>: the discriminants of the enum.\<close>

fun opcode_as_u8 :: "opcode \<Rightarrow> u8" where
  "opcode_as_u8 Op_None = 0"
| "opcode_as_u8 Op_Play = 1"
| "opcode_as_u8 Op_Pause = 2"
| "opcode_as_u8 Op_Resume = 3"
| "opcode_as_u8 Op_Stop = 4"
| "opcode_as_u8 Op_Seek = 5"
| "opcode_as_u8 Op_PlaybackUpdate = 6"
| "opcode_as_u8 Op_VolumeUpdate = 7"
| "opcode_as_u8 Op_SetVolume = 8"
| "opcode_as_u8 Op_PlaybackError = 9"
| "opcode_as_u8 Op_SetSpeed = 10"
| "opcode_as_u8 Op_Version = 11"
| "opcode_as_u8 Op_Ping = 12"
| "opcode_as_u8 Op_Pong = 13"
| "opcode_as_u8 Op_Initial = 14"
| "opcode_as_u8 Op_PlayUpdate = 15"
| "opcode_as_u8 Op_SetPlaylistItem = 16"
| "opcode_as_u8 Op_SubscribeEvent = 17"
| "opcode_as_u8 Op_UnsubscribeEvent = 18"
| "opcode_as_u8 Op_Event = 19"
| "opcode_as_u8 Op_Flatbuf = 20"
| "opcode_as_u8 Op_Resource = 21"

definition opcode_try_from :: "u8 \<Rightarrow> try_from_byte_error + opcode" where
  "opcode_try_from value =
     (if value = 0 then Inr Op_None
      else if value = 1 then Inr Op_Play
      else if value = 2 then Inr Op_Pause
      else if value = 3 then Inr Op_Resume
      else if value = 4 then Inr Op_Stop
      else if value = 5 then Inr Op_Seek
      else if value = 6 then Inr Op_PlaybackUpdate
      else if value = 7 then Inr Op_VolumeUpdate
      else if value = 8 then Inr Op_SetVolume
      else if value = 9 then Inr Op_PlaybackError
      else if value = 10 then Inr Op_SetSpeed
      else if value = 11 then Inr Op_Version
      else if value = 12 then Inr Op_Ping
      else if value = 13 then Inr Op_Pong
      else if value = 14 then Inr Op_Initial
      else if value = 15 then Inr Op_PlayUpdate
      else if value = 16 then Inr Op_SetPlaylistItem
      else if value = 17 then Inr Op_SubscribeEvent
      else if value = 18 then Inr Op_UnsubscribeEvent
      else if value = 19 then Inr Op_Event
      else if value = 20 then Inr Op_Flatbuf
      else if value = 21 then Inr Op_Resource
      else Inl (UnknownOpcode value))"

lemma opcode_try_from_as_u8 [simp]: "opcode_try_from (opcode_as_u8 op) = Inr op"
  by (cases op) (simp_all add: opcode_try_from_def)

lemma opcode_try_from_Inr: "opcode_try_from v = Inr op \<Longrightarrow> opcode_as_u8 op = v"
  by (auto simp: opcode_try_from_def split: if_splits)

lemma u8_upto_21: "unat (v :: u8) \<le> 21 \<Longrightarrow> v \<in> of_nat ` {0..<22}"
  by (rule image_eqI [where x = "unat v"]) auto

lemma opcode_try_from_Inl: "opcode_try_from v = Inl e \<longleftrightarrow> e = UnknownOpcode v \<and> 21 < unat v"
proof (cases "unat v \<le> 21")
  case True
  then have "v \<in> of_nat ` set [0..<22]" using u8_upto_21 [of v] by simp
  then have "\<exists>op. opcode_try_from v = Inr op"
    by (auto simp: upt_rec opcode_try_from_def)
  with True show ?thesis by auto
next
  case False
  then show ?thesis by (auto simp: opcode_try_from_def unat_arith_simps)
qed

lemma opcode_as_u8_le: "unat (opcode_as_u8 op) \<le> 21"
  by (cases op) simp_all

section \<open>The packet header\<close>

definition HEADER_LENGTH :: nat where
  "HEADER_LENGTH = 5"

record header =
  h_size :: u32
  h_opcode :: opcode

definition header_new :: "opcode \<Rightarrow> u32 \<Rightarrow> header" where
  "header_new op sz = \<lparr>h_size = sz + 1, h_opcode = op\<rparr>"

definition header_encode :: "header \<Rightarrow> bytes" where
  "header_encode h =
     (let size_slice = u32_to_le_bytes (h_size h)
      in [size_slice ! 0, size_slice ! 1, size_slice ! 2, size_slice ! 3, opcode_as_u8 (h_opcode h)])"

lemma four_nths: "length xs = 4 \<Longrightarrow> [xs ! 0, xs ! 1, xs ! 2, xs ! 3] = xs"
  by (auto simp: numeral_eq_Suc length_Suc_conv)

lemma header_encode_append:
  "header_encode h = u32_to_le_bytes (h_size h) @ [opcode_as_u8 (h_opcode h)]"
  using four_nths [of "u32_to_le_bytes (h_size h)"]
  by (simp add: header_encode_def Let_def)

lemma length_header_encode: "length (header_encode h) = HEADER_LENGTH"
  by (simp add: header_encode_append HEADER_LENGTH_def)

section \<open>Packet writers\<close>

text \<open>The receiver: \<open>write_simple\<close>, \<open>send_bin_msg\<close>. \<open>len() as u32\<close> truncates.\<close>

definition receiver_write_simple :: "opcode \<Rightarrow> bytes" where
  "receiver_write_simple op = header_encode (header_new op 0)"

definition receiver_send_bin_msg :: "opcode \<Rightarrow> bytes \<Rightarrow> bytes" where
  "receiver_send_bin_msg op msg = header_encode (header_new op (of_nat (length msg))) @ msg"

text \<open>The sender SDK: \<open>send_empty\<close>, \<open>send_bytes\<close>.\<close>

definition sdk_send_empty :: "opcode \<Rightarrow> bytes" where
  "sdk_send_empty op = u32_to_le_bytes 1 @ [opcode_as_u8 op]"

definition sdk_send_bytes :: "opcode \<Rightarrow> bytes \<Rightarrow> bytes" where
  "sdk_send_bytes op body =
     (let sz = 1 + length body
      in u32_to_le_bytes (of_nat sz) @ [opcode_as_u8 op] @ body)"

text \<open>The test client: \<open>Connection::write_raw\<close> and \<open>Connection::write\<close>.\<close>

definition conn_write_raw :: "u8 \<Rightarrow> bytes option \<Rightarrow> bytes" where
  "conn_write_raw opcode body =
     (let body_len = (case body of None \<Rightarrow> 0 | Some b \<Rightarrow> length b);
          sz = body_len + 1;
          head = u32_to_le_bytes (of_nat sz) @ [opcode]
      in head @ (case body of None \<Rightarrow> [] | Some b \<Rightarrow> b))"

definition conn_write :: "opcode \<Rightarrow> bytes option \<Rightarrow> bytes" where
  "conn_write op body =
     (let body_len = (case body of None \<Rightarrow> 0 | Some b \<Rightarrow> length b);
          sz = body_len + 1;
          head = u32_to_le_bytes (of_nat sz) @ [opcode_as_u8 op]
      in head @ (case body of None \<Rightarrow> [] | Some b \<Rightarrow> b))"

text \<open>The wire frame every writer produces: the length prefix and the packet, opcode first.\<close>

definition frame :: "bytes \<Rightarrow> bytes" where
  "frame packet = u32_to_le_bytes (of_nat (length packet)) @ packet"

lemma length_frame [simp]: "length (frame p) = 4 + length p"
  by (simp add: frame_def)

lemma writers_frame:
  "receiver_write_simple op = frame [opcode_as_u8 op]"
  "receiver_send_bin_msg op body = frame (opcode_as_u8 op # body)"
  "sdk_send_empty op = frame [opcode_as_u8 op]"
  "sdk_send_bytes op body = frame (opcode_as_u8 op # body)"
  "conn_write_raw v (Some body) = frame (v # body)"
  "conn_write_raw v None = frame [v]"
  "conn_write op (Some body) = frame (opcode_as_u8 op # body)"
  "conn_write op None = frame [opcode_as_u8 op]"
  by (simp_all add: receiver_write_simple_def receiver_send_bin_msg_def sdk_send_empty_def
      sdk_send_bytes_def conn_write_raw_def conn_write_def frame_def header_encode_append
      header_new_def Let_def add.commute)

end
