(* ===== verification/Packet_Reader.thy ===== *)
theory Packet_Reader
  imports Opcode
begin

text \<open>
  \<open>PacketReader\<close> of crates/fcast-protocol/src/lib.rs: the reassembly buffer every FCast
  connection reads through. The record has the struct's fields; each method takes the reader
  and returns the new one. A Rust panic is \<open>None\<close>. The abstraction is the byte string still
  to be parsed (\<open>pending\<close>) and the specification of \<open>get_packet\<close> is \<open>parse_frame\<close> on it.
\<close>

section \<open>State\<close>

datatype reader_state =
    MissingLength
  | MissingBody nat
  | ShouldClear nat

datatype read_result =
    NeedData
  | Read bytes
  | PacketTooLarge nat

datatype push_data_error = BufferTooBig

record packet_reader =
  buffer :: bytes
  rstate :: reader_state
  pos :: nat
  len :: nat
  max_packet_size :: nat

abbreviation LEN_SIZE :: nat where
  "LEN_SIZE \<equiv> 4"

section \<open>Operations\<close>

definition reader_new :: "nat \<Rightarrow> nat \<Rightarrow> packet_reader" where
  "reader_new maxp padding =
     \<lparr>buffer = replicate (4 + maxp + padding) 0, rstate = MissingLength, pos = 0, len = 0,
      max_packet_size = maxp\<rparr>"

definition buffered :: "packet_reader \<Rightarrow> nat option" where
  "buffered r = usize_sub (len r) (pos r)"

definition discard_consumed :: "packet_reader \<Rightarrow> packet_reader" where
  "discard_consumed r =
     (case rstate r of
        ShouldClear body_length \<Rightarrow> r\<lparr>pos := pos r + (4 + body_length), rstate := MissingLength\<rparr>
      | _ \<Rightarrow> r)"

text \<open>\<open>copy_within(pos..len, 0)\<close> moves the unconsumed bytes to the front.\<close>

definition compact :: "packet_reader \<Rightarrow> packet_reader option" where
  "compact r0 =
     (let r = discard_consumed r0
      in if pos r = 0 then Some r
         else do {
           tail \<leftarrow> slice (buffer r) (pos r) (len r);
           buf \<leftarrow> copy_into (buffer r) 0 tail;
           l \<leftarrow> usize_sub (len r) (pos r);
           Some (r\<lparr>buffer := buf, len := l, pos := 0\<rparr>)
         })"

function next_state :: "packet_reader \<Rightarrow> (read_result \<times> packet_reader) option" where
  "next_state r =
     (case rstate r of
        MissingLength \<Rightarrow> do {
          avail \<leftarrow> buffered r;
          (if LEN_SIZE \<le> avail then do {
             prefix \<leftarrow> slice (buffer r) (pos r) (pos r + LEN_SIZE);
             let n = unat (u32_from_le_bytes prefix);
             (if max_packet_size r < n then Some (PacketTooLarge n, r)
              else next_state (r\<lparr>rstate := MissingBody n\<rparr>))
           }
           else Some (NeedData, r))
        }
      | MissingBody n \<Rightarrow> do {
          avail \<leftarrow> buffered r;
          (if n \<le> avail - LEN_SIZE then do {
             let r' = r\<lparr>rstate := ShouldClear n\<rparr>;
             let start = pos r + LEN_SIZE;
             body \<leftarrow> slice (buffer r') start (start + n);
             Some (Read body, r')
           }
           else Some (NeedData, r))
        }
      | ShouldClear _ \<Rightarrow> next_state (discard_consumed r))"
  by pat_completeness auto
termination
  by (relation "measure (\<lambda>r. case rstate r of MissingBody _ \<Rightarrow> 0 | MissingLength \<Rightarrow> 1 | ShouldClear _ \<Rightarrow> 2)")
     (auto simp: discard_consumed_def split: reader_state.splits)

declare next_state.simps [simp del]

definition push_data ::
    "packet_reader \<Rightarrow> bytes \<Rightarrow> ((push_data_error + unit) \<times> packet_reader) option" where
  "push_data r0 data =
     do {
       r \<leftarrow> (if length (buffer r0) < len r0 + length data then compact r0 else Some r0);
       (if length (buffer r) < len r + length data then Some (Inl BufferTooBig, r)
        else do {
          buf \<leftarrow> copy_into (buffer r) (len r) data;
          Some (Inr (), r\<lparr>buffer := buf, len := len r + length data\<rparr>)
        })
     }"

text \<open>
  \<open>spare_capacity_mut\<close> lends the tail of the buffer to the caller; the borrow is the slice
  returned here, and what the caller writes into it is \<open>fill_spare\<close>.
\<close>

definition spare_capacity_mut :: "packet_reader \<Rightarrow> (bytes \<times> packet_reader) option" where
  "spare_capacity_mut r0 =
     do {
       r \<leftarrow> compact r0;
       spare \<leftarrow> slice (buffer r) (len r) (length (buffer r));
       Some (spare, r)
     }"

definition fill_spare :: "packet_reader \<Rightarrow> bytes \<Rightarrow> packet_reader option" where
  "fill_spare r data = map_option (\<lambda>buf. r\<lparr>buffer := buf\<rparr>) (copy_into (buffer r) (len r) data)"

text \<open>\<open>commit\<close> of the release profile: the bound is only asserted in debug builds.\<close>

definition commit :: "packet_reader \<Rightarrow> nat \<Rightarrow> packet_reader" where
  "commit r n = r\<lparr>len := len r + n\<rparr>"

definition get_packet :: "packet_reader \<Rightarrow> (read_result \<times> packet_reader) option" where
  "get_packet r = next_state r"

definition drain_unparsed :: "packet_reader \<Rightarrow> (bytes \<times> packet_reader) option" where
  "drain_unparsed r0 =
     (let r = discard_consumed r0
      in do {
        data \<leftarrow> slice (buffer r) (pos r) (len r);
        Some (data, r\<lparr>pos := 0, len := 0, rstate := MissingLength\<rparr>)
      })"

section \<open>Abstraction and invariant\<close>

definition pending :: "packet_reader \<Rightarrow> bytes" where
  "pending r0 = (let r = discard_consumed r0 in take (len r - pos r) (drop (pos r) (buffer r)))"

definition capacity :: "packet_reader \<Rightarrow> nat" where
  "capacity r = length (buffer r)"

definition reader_wf :: "packet_reader \<Rightarrow> bool" where
  "reader_wf r \<longleftrightarrow>
     LEN_SIZE + max_packet_size r \<le> length (buffer r) \<and>
     pos r \<le> len r \<and> len r \<le> length (buffer r) \<and>
     (case rstate r of
        MissingLength \<Rightarrow> True
      | MissingBody n \<Rightarrow>
          n \<le> max_packet_size r \<and> LEN_SIZE \<le> len r - pos r \<and>
          unat (u32_from_le_bytes (take LEN_SIZE (drop (pos r) (buffer r)))) = n
      | ShouldClear n \<Rightarrow> pos r + LEN_SIZE + n \<le> len r)"

text \<open>The frame parser on plain byte strings that the reader implements.\<close>

definition parse_frame :: "nat \<Rightarrow> bytes \<Rightarrow> read_result \<times> bytes" where
  "parse_frame maxp d =
     (if length d < LEN_SIZE then (NeedData, d)
      else let n = unat (u32_from_le_bytes (take LEN_SIZE d))
           in if maxp < n then (PacketTooLarge n, d)
              else if length d < LEN_SIZE + n then (NeedData, d)
              else (Read (take n (drop LEN_SIZE d)), drop (LEN_SIZE + n) d))"

definition same_limits :: "packet_reader \<Rightarrow> packet_reader \<Rightarrow> bool" where
  "same_limits r r' \<longleftrightarrow> capacity r' = capacity r \<and> max_packet_size r' = max_packet_size r"

lemma same_limits_refl [simp]: "same_limits r r"
  by (simp add: same_limits_def)

lemma reader_new_wf [wf_intros]: "reader_wf (reader_new maxp padding)"
  by (simp add: reader_wf_def reader_new_def)

lemma pending_reader_new [simp]: "pending (reader_new maxp padding) = []"
  by (simp add: pending_def reader_new_def discard_consumed_def)

lemma length_pending:
  "reader_wf r \<Longrightarrow> length (pending r) = len (discard_consumed r) - pos (discard_consumed r)"
  by (auto simp: pending_def reader_wf_def discard_consumed_def Let_def split: reader_state.splits)

lemma discard_consumed_wf [wf_intros]: "reader_wf r \<Longrightarrow> reader_wf (discard_consumed r)"
  by (auto simp: reader_wf_def discard_consumed_def split: reader_state.splits)

lemma pending_discard_consumed [simp]: "pending (discard_consumed r) = pending r"
  by (auto simp: pending_def discard_consumed_def split: reader_state.splits)

lemma discard_consumed_idem [simp]:
  "discard_consumed (discard_consumed r) = discard_consumed r"
  by (auto simp: discard_consumed_def split: reader_state.splits)

lemma discard_consumed_fields [simp]:
  "buffer (discard_consumed r) = buffer r"
  "len (discard_consumed r) = len r"
  "max_packet_size (discard_consumed r) = max_packet_size r"
  by (auto simp: discard_consumed_def split: reader_state.splits)

lemma rstate_discard_consumed: "rstate (discard_consumed r) \<noteq> ShouldClear n"
  by (auto simp: discard_consumed_def split: reader_state.splits)

section \<open>Compaction, refills, draining\<close>

lemma compact_spec:
  assumes "reader_wf r"
  shows "\<exists>r'. compact r = Some r' \<and> reader_wf r' \<and> pos r' = 0 \<and> len r' = length (pending r) \<and>
    pending r' = pending r \<and> same_limits r r' \<and> rstate r' = rstate (discard_consumed r)"
proof -
  define q where "q = discard_consumed r"
  have wf: "reader_wf q" using assms by (simp add: q_def discard_consumed_wf)
  have ns: "rstate q \<noteq> ShouldClear n" for n by (simp add: q_def rstate_discard_consumed)
  have dq: "discard_consumed q = q" by (simp add: q_def)
  have pend: "pending r = take (len q - pos q) (drop (pos q) (buffer q))"
    by (simp add: pending_def q_def Let_def)
  have lim: "same_limits r q" by (simp add: same_limits_def capacity_def q_def)
  show ?thesis
  proof (cases "pos q = 0")
    case True
    with wf have "compact r = Some q" and "len q = length (pending r)"
      by (auto simp: compact_def Let_def pend reader_wf_def simp flip: q_def)
    with wf lim True show ?thesis by (auto simp: q_def)
  next
    case False
    let ?t = "take (len q - pos q) (drop (pos q) (buffer q))"
    let ?r' = "q\<lparr>buffer := ?t @ drop (len q - pos q) (buffer q), len := len q - pos q, pos := 0\<rparr>"
    from wf have b: "pos q \<le> len q" "len q \<le> length (buffer q)" by (auto simp: reader_wf_def)
    then have lt: "length ?t = len q - pos q" by simp
    have "compact r = Some ?r'"
      using False b lt by (simp add: compact_def Let_def slice_simps flip: q_def)
    moreover have "reader_wf ?r'"
      using wf b ns lt by (auto simp: reader_wf_def split: reader_state.splits)
    moreover have "pending ?r' = pending r"
      using b ns lt unfolding pend
      by (auto simp: pending_def discard_consumed_def Let_def split: reader_state.splits)
    moreover have "same_limits r ?r'"
      using lim lt b by (auto simp: same_limits_def capacity_def)
    moreover have "len ?r' = length (pending r)" unfolding pend using b by simp
    ultimately show ?thesis by (auto simp: q_def)
  qed
qed

text \<open>Writing \<open>d\<close> at the end of the valid data, the step shared by both refill paths.\<close>

definition appended :: "packet_reader \<Rightarrow> bytes \<Rightarrow> packet_reader" where
  "appended q d = q\<lparr>buffer := take (len q) (buffer q) @ d @ drop (len q + length d) (buffer q),
     len := len q + length d\<rparr>"

lemma appended_spec:
  assumes q: "reader_wf q" and fits: "len q + length d \<le> length (buffer q)"
  shows "copy_into (buffer q) (len q) d = Some (buffer (appended q d))"
    and "reader_wf (appended q d)"
    and "same_limits q (appended q d)"
    and "pending (appended q d) = pending q @ d"
proof -
  have b: "pos q \<le> len q" "len q \<le> length (buffer q)" using q by (simp_all add: reader_wf_def)
  show "copy_into (buffer q) (len q) d = Some (buffer (appended q d))"
    using fits by (simp add: slice_simps appended_def)
  show "same_limits q (appended q d)"
    using fits by (auto simp: same_limits_def capacity_def appended_def)
  show "reader_wf (appended q d)"
    using q fits
    by (auto simp: reader_wf_def appended_def take_drop_prefix split: reader_state.splits)
  show "pending (appended q d) = pending q @ d"
  proof (cases "rstate q")
    case (ShouldClear n)
    with q have "pos q + (4 + n) \<le> len q" by (simp add: reader_wf_def)
    then show ?thesis
      using ShouldClear b(2) window_append [of "pos q + (4 + n)" "len q" "buffer q" d]
      by (simp add: pending_def discard_consumed_def Let_def appended_def)
  qed (use b window_append [of "pos q" "len q" "buffer q" d] in
    \<open>simp_all add: pending_def discard_consumed_def Let_def appended_def\<close>)
qed

lemma push_data_spec:
  assumes wf: "reader_wf r"
  shows "\<exists>res r'. push_data r d = Some (res, r') \<and> reader_wf r' \<and> same_limits r r' \<and>
    (if length (pending r) + length d \<le> capacity r
     then res = Inr () \<and> pending r' = pending r @ d
     else res = Inl BufferTooBig \<and> pending r' = pending r)"
proof -
  show ?thesis
  proof (cases "length (buffer r) < len r + length d")
    case False
    have "length (pending r) \<le> len r"
      using wf by (simp add: length_pending)
    with False have "length (pending r) + length d \<le> capacity r" by (simp add: capacity_def)
    moreover have "push_data r d = Some (Inr (), appended r d)"
      using False appended_spec(1) [OF wf, of d] by (simp add: push_data_def) (simp add: appended_def)
    ultimately show ?thesis using False appended_spec [OF wf, of d] by simp
  next
    case True
    obtain q where q: "compact r = Some q" "reader_wf q" "len q = length (pending r)"
      "pending q = pending r" "same_limits r q"
      using compact_spec [OF wf] by auto
    have cap: "length (buffer q) = capacity r" using q(5) by (simp add: same_limits_def capacity_def)
    show ?thesis
    proof (cases "length (pending r) + length d \<le> capacity r")
      case False
      with True q cap have "push_data r d = Some (Inl BufferTooBig, q)"
        by (simp add: push_data_def)
      with False q show ?thesis by simp
    next
      case fits: True
      with q(3) cap have room: "len q + length d \<le> length (buffer q)" by simp
      have "push_data r d = Some (Inr (), appended q d)"
        using True room q cap appended_spec(1) [OF q(2) room]
        by (simp add: push_data_def) (simp add: appended_def)
      with appended_spec [OF q(2) room] fits q show ?thesis by (auto simp: same_limits_def)
    qed
  qed
qed

text \<open>The zero-copy refill: borrow the spare tail, write into it, commit what was written.\<close>

definition refill :: "packet_reader \<Rightarrow> bytes \<Rightarrow> packet_reader option" where
  "refill r data =
     do {
       (spare, r1) \<leftarrow> spare_capacity_mut r;
       r2 \<leftarrow> fill_spare r1 data;
       Some (commit r2 (length data))
     }"

lemma spare_capacity_spec:
  assumes wf: "reader_wf r"
  shows "\<exists>spare r'. spare_capacity_mut r = Some (spare, r') \<and> reader_wf r' \<and> same_limits r r' \<and>
    pending r' = pending r \<and> pos r' = 0 \<and> len r' = length (pending r) \<and>
    length spare = capacity r - length (pending r)"
proof -
  obtain q where q: "compact r = Some q" "reader_wf q" "pos q = 0" "len q = length (pending r)"
      "pending q = pending r" "same_limits r q"
    using compact_spec [OF wf] by auto
  from q have "len q \<le> length (buffer q)" by (simp add: reader_wf_def)
  with q show ?thesis
    by (auto simp: spare_capacity_mut_def slice_simps same_limits_def capacity_def)
qed

lemma refill_spec:
  assumes wf: "reader_wf r" and fits: "length (pending r) + length d \<le> capacity r"
  shows "\<exists>r'. refill r d = Some r' \<and> reader_wf r' \<and> same_limits r r' \<and> pending r' = pending r @ d"
proof -
  obtain spare q where q: "spare_capacity_mut r = Some (spare, q)" "reader_wf q" "same_limits r q"
      "pending q = pending r" "pos q = 0" "len q = length (pending r)"
    using spare_capacity_spec [OF wf] by auto
  have room: "len q + length d \<le> length (buffer q)"
    using fits q by (simp add: same_limits_def capacity_def)
  with q have "refill r d = Some (appended q d)"
    using appended_spec(1) [OF q(2) room]
    by (simp add: refill_def fill_spare_def commit_def) (simp add: appended_def)
  with appended_spec [OF q(2) room] q show ?thesis by (auto simp: same_limits_def)
qed

lemma drain_unparsed_spec:
  assumes wf: "reader_wf r"
  shows "\<exists>r'. drain_unparsed r = Some (pending r, r') \<and> reader_wf r' \<and> same_limits r r' \<and>
    pending r' = [] \<and> rstate r' = MissingLength"
proof -
  define q where "q = discard_consumed r"
  have q: "reader_wf q" "rstate q \<noteq> ShouldClear n" "same_limits r q" for n
    using wf by (simp_all add: q_def discard_consumed_wf rstate_discard_consumed same_limits_def capacity_def)
  let ?r' = "q\<lparr>pos := 0, len := 0, rstate := MissingLength\<rparr>"
  from q have "pos q \<le> len q" and "len q \<le> length (buffer q)" by (simp_all add: reader_wf_def)
  then have "drain_unparsed r = Some (pending r, ?r')"
    by (simp add: drain_unparsed_def pending_def Let_def slice_simps flip: q_def)
  moreover have "reader_wf ?r'" and "same_limits r ?r'"
    using q by (simp_all add: reader_wf_def same_limits_def capacity_def)
  moreover have "pending ?r' = []" by (simp add: pending_def discard_consumed_def)
  ultimately show ?thesis by simp
qed

section \<open>Extracting packets\<close>

lemma next_state_missing_body:
  assumes wf: "reader_wf r" and st: "rstate r = MissingBody n"
  shows "\<exists>r'. next_state r = Some (fst (parse_frame (max_packet_size r) (pending r)), r') \<and>
    reader_wf r' \<and> same_limits r r' \<and> pending r' = snd (parse_frame (max_packet_size r) (pending r))"
proof -
  let ?d = "take (len r - pos r) (drop (pos r) (buffer r))"
  have pend: "pending r = ?d" using st by (simp add: pending_def discard_consumed_def)
  from wf st have b: "pos r \<le> len r" "len r \<le> length (buffer r)" "n \<le> max_packet_size r"
      "4 \<le> len r - pos r" "unat (u32_from_le_bytes (take 4 (drop (pos r) (buffer r)))) = n"
    by (simp_all add: reader_wf_def)
  then have pf: "parse_frame (max_packet_size r) (pending r) =
      (if len r - pos r < 4 + n then (NeedData, ?d) else (Read (take n (drop 4 ?d)), drop (4 + n) ?d))"
    by (auto simp: pend parse_frame_def Let_def min_def)
  show ?thesis
  proof (cases "n \<le> len r - pos r - 4")
    case True
    let ?r' = "r\<lparr>rstate := ShouldClear n\<rparr>"
    have "next_state r = Some (Read (take n (drop (pos r + 4) (buffer r))), ?r')"
      using True st b by (simp add: next_state.simps [of r] buffered_def slice_simps Let_def)
    moreover have "take n (drop 4 ?d) = take n (drop (pos r + 4) (buffer r))"
      using True b by (simp add: drop_take add.commute min_def)
    moreover have "reader_wf ?r'" using True wf st b by (simp add: reader_wf_def)
    moreover have "pending ?r' = drop (4 + n) ?d"
      using True b by (simp add: pending_def discard_consumed_def Let_def drop_take ac_simps)
    moreover have "same_limits r ?r'" by (simp add: same_limits_def capacity_def)
    ultimately show ?thesis using True b by (simp add: pf)
  next
    case False
    then have "next_state r = Some (NeedData, r)"
      using st b by (simp add: next_state.simps [of r] buffered_def slice_simps)
    with False b wf show ?thesis unfolding pf by (auto simp: pend)
  qed
qed

lemma next_state_missing_length:
  assumes wf: "reader_wf r" and st: "rstate r = MissingLength"
  shows "\<exists>r'. next_state r = Some (fst (parse_frame (max_packet_size r) (pending r)), r') \<and>
    reader_wf r' \<and> same_limits r r' \<and> pending r' = snd (parse_frame (max_packet_size r) (pending r))"
proof -
  let ?d = "take (len r - pos r) (drop (pos r) (buffer r))"
  let ?n = "unat (u32_from_le_bytes (take 4 (drop (pos r) (buffer r))))"
  have pend: "pending r = ?d" using st by (simp add: pending_def discard_consumed_def)
  from wf st have b: "pos r \<le> len r" "len r \<le> length (buffer r)" by (simp_all add: reader_wf_def)
  consider (short) "len r - pos r < 4"
    | (large) "4 \<le> len r - pos r" "max_packet_size r < ?n"
    | (body) "4 \<le> len r - pos r" "?n \<le> max_packet_size r" by linarith
  then show ?thesis
  proof cases
    case short
    then have "next_state r = Some (NeedData, r)"
      using st b by (simp add: next_state.simps [of r] buffered_def slice_simps)
    with short b wf show ?thesis by (simp add: parse_frame_def pend)
  next
    case large
    then have "next_state r = Some (PacketTooLarge ?n, r)"
      using st b by (simp add: next_state.simps [of r] buffered_def slice_simps Let_def)
    with large b wf show ?thesis by (auto simp: parse_frame_def pend min_def Let_def)
  next
    case body
    let ?r' = "r\<lparr>rstate := MissingBody ?n\<rparr>"
    have "next_state r = next_state ?r'"
      using body st b by (subst next_state.simps) (simp add: buffered_def slice_simps Let_def)
    moreover have "reader_wf ?r'" using wf b body by (simp add: reader_wf_def)
    moreover have "pending ?r' = pending r" unfolding pend by (simp add: pending_def discard_consumed_def)
    moreover have "same_limits ?r' q \<Longrightarrow> same_limits r q" for q
      by (simp add: same_limits_def capacity_def)
    ultimately show ?thesis using next_state_missing_body [of ?r' ?n] by auto
  qed
qed

text \<open>\<open>get_packet\<close> never panics on a well-formed reader and is \<open>parse_frame\<close> on the pending bytes.\<close>

lemma get_packet_spec:
  assumes wf: "reader_wf r"
  shows "\<exists>r'. get_packet r = Some (fst (parse_frame (max_packet_size r) (pending r)), r') \<and>
    reader_wf r' \<and> same_limits r r' \<and> pending r' = snd (parse_frame (max_packet_size r) (pending r))"
proof (cases "rstate r")
  case MissingLength
  with wf show ?thesis using next_state_missing_length by (simp add: get_packet_def)
next
  case (MissingBody n)
  with wf show ?thesis using next_state_missing_body by (simp add: get_packet_def)
next
  case (ShouldClear n)
  let ?q = "discard_consumed r"
  have "rstate ?q = MissingLength" using ShouldClear by (simp add: discard_consumed_def)
  moreover have "reader_wf ?q" using wf by (rule discard_consumed_wf)
  moreover have "get_packet r = next_state ?q"
    using ShouldClear by (simp add: get_packet_def next_state.simps [of r])
  moreover have "same_limits ?q r' \<Longrightarrow> same_limits r r'" for r'
    by (simp add: same_limits_def capacity_def)
  ultimately show ?thesis using next_state_missing_length [of ?q] by auto
qed

end
