(* ===== verification/Framing.thy ===== *)
theory Framing
  imports Packet_Reader
begin

text \<open>
  The contract between a connection and its packet reader. A client refills the reader with
  whatever the transport delivered and then extracts packets until more data is needed; both
  loops of the repository have this shape (\<open>Connection::recv\<close> of tools/fast/src/engine.rs with
  \<open>push_data\<close>, the receiver's session loop with \<open>spare_capacity_mut\<close> and \<open>commit\<close>). The locale
  \<open>framed_reader\<close> states what the client relies on; its lemmas say that the packets extracted
  depend on the byte stream alone and not on how the transport cut it into reads. It is
  interpreted on both refill paths of \<open>PacketReader\<close>.
\<close>

section \<open>The stream parser\<close>

lemma parse_frame_Read_shorter:
  "parse_frame m d = (Read p, d') \<Longrightarrow> length d' + 4 \<le> length d"
  by (auto simp: parse_frame_def Let_def split: if_splits)

lemma parse_frame_NeedData:
  "parse_frame m d = (NeedData, d') \<Longrightarrow> d' = d \<and> length d < 4 + m"
  by (auto simp: parse_frame_def Let_def split: if_splits)

function parse_all :: "nat \<Rightarrow> bytes \<Rightarrow> bytes list \<times> nat option \<times> bytes" where
  "parse_all m d =
     (case parse_frame m d of
        (NeedData, d') \<Rightarrow> ([], None, d')
      | (PacketTooLarge n, d') \<Rightarrow> ([], Some n, d')
      | (Read p, d') \<Rightarrow> (case parse_all m d' of (ps, e, rest) \<Rightarrow> (p # ps, e, rest)))"
  by pat_completeness auto
termination
  by (relation "measure (\<lambda>(m, d). length d)") (auto dest!: parse_frame_Read_shorter [OF sym])

declare parse_all.simps [simp del]

lemma parse_frame_append:
  "parse_frame m a = (Read p, a') \<Longrightarrow> parse_frame m (a @ b) = (Read p, a' @ b)"
  "parse_frame m a = (PacketTooLarge n, a') \<Longrightarrow> parse_frame m (a @ b) = (PacketTooLarge n, a' @ b)"
  by (auto simp: parse_frame_def Let_def split: if_splits)

lemma parse_all_append:
  "parse_all m a = (ps, e, rest) \<Longrightarrow>
   parse_all m (a @ b) =
     (case e of
        Some n \<Rightarrow> (ps, Some n, rest @ b)
      | None \<Rightarrow> (case parse_all m (rest @ b) of (qs, e', rest') \<Rightarrow> (ps @ qs, e', rest')))"
proof (induction m a arbitrary: ps e rest rule: parse_all.induct)
  case (1 m a)
  obtain r a' where pf: "parse_frame m a = (r, a')" by fastforce
  show ?case
  proof (cases r)
    case NeedData
    with pf "1.prems" parse_frame_NeedData [of m a a'] show ?thesis
      by (auto simp: parse_all.simps [of m a])
  next
    case (PacketTooLarge n)
    with pf "1.prems" parse_frame_append(2) [of m a n a' b] show ?thesis
      by (auto simp: parse_all.simps [of m a] parse_all.simps [of m "a @ b"])
  next
    case (Read p)
    obtain qs where q: "parse_all m a' = (qs, e, rest)" "ps = p # qs"
      using pf Read "1.prems" by (auto simp: parse_all.simps [of m a] split: prod.splits)
    have "parse_all m (a' @ b) =
       (case e of
        Some n \<Rightarrow> (qs, Some n, rest @ b)
      | None \<Rightarrow> (case parse_all m (rest @ b) of (qs', e', rest') \<Rightarrow> (qs @ qs', e', rest')))"
      using "1.IH" [OF pf [symmetric] Read q(1)] .
    with pf Read q parse_frame_append(1) [of m a p a' b] show ?thesis
      by (auto simp: parse_all.simps [of m "a @ b"] split: option.splits prod.splits)
  qed
qed

text \<open>A frame that fits the limit is parsed back to its packet.\<close>

definition packet_ok :: "nat \<Rightarrow> bytes \<Rightarrow> bool" where
  "packet_ok m p \<longleftrightarrow> length p \<le> m \<and> length p < 2 ^ 32"

lemma parse_frame_frame:
  assumes "packet_ok m p"
  shows "parse_frame m (frame p @ d) = (Read p, d)"
proof -
  have "unat (u32_from_le_bytes (u32_to_le_bytes (of_nat (length p)))) = length p"
    using assms by (simp add: packet_ok_def unat_of_nat take_bit_nat_eq_self)
  with assms show ?thesis
    by (simp add: parse_frame_def frame_def packet_ok_def Let_def)
qed

lemma parse_all_frames:
  "\<forall>p \<in> set ps. packet_ok m p \<Longrightarrow>
   parse_all m (concat (map frame ps) @ d) =
     (case parse_all m d of (qs, e, rest) \<Rightarrow> (ps @ qs, e, rest))"
proof (induction ps)
  case Nil
  then show ?case by (auto split: prod.splits)
next
  case (Cons p ps)
  then show ?case
    by (subst parse_all.simps) (auto simp: parse_frame_frame split: prod.splits)
qed

lemma parse_all_Nil [simp]: "parse_all m [] = ([], None, [])"
  by (simp add: parse_all.simps parse_frame_def)

lemma parse_all_NeedData: "fst (parse_frame m d) = NeedData \<Longrightarrow> parse_all m d = ([], None, d)"
  using parse_frame_NeedData [of m d "snd (parse_frame m d)"]
  by (cases "parse_frame m d") (simp add: parse_all.simps [of m d])

lemma parse_all_rest_NeedData:
  "parse_all m d = (ps, None, rest) \<Longrightarrow> parse_frame m rest = (NeedData, rest)"
proof (induction m d arbitrary: ps rest rule: parse_all.induct)
  case (1 m d)
  obtain r d' where pf: "parse_frame m d = (r, d')" by fastforce
  show ?case
  proof (cases r)
    case NeedData
    with pf "1.prems" parse_frame_NeedData [of m d d'] show ?thesis
      by (auto simp: parse_all.simps [of m d])
  next
    case (PacketTooLarge n)
    with pf "1.prems" show ?thesis by (auto simp: parse_all.simps [of m d])
  next
    case (Read p)
    with pf "1.prems" obtain qs where "parse_all m d' = (qs, None, rest)"
      by (auto simp: parse_all.simps [of m d] split: prod.splits)
    with "1.IH" [OF pf [symmetric] Read] show ?thesis by simp
  qed
qed

section \<open>The client loops\<close>

text \<open>
  The inner loop: \<open>get_packet\<close> until \<open>NeedData\<close>, or until \<open>PacketTooLarge\<close>, which ends the
  connection. \<open>None\<close> is a panic of the reader or fuel that ran out.
\<close>

fun drain :: "('r \<Rightarrow> (read_result \<times> 'r) option) \<Rightarrow> nat \<Rightarrow> 'r \<Rightarrow> (bytes list \<times> nat option \<times> 'r) option"
where
  "drain pull 0 r = None"
| "drain pull (Suc fuel) r =
     (case pull r of
        None \<Rightarrow> None
      | Some (NeedData, r') \<Rightarrow> Some ([], None, r')
      | Some (PacketTooLarge n, r') \<Rightarrow> Some ([], Some n, r')
      | Some (Read p, r') \<Rightarrow>
          (case drain pull fuel r' of
             None \<Rightarrow> None
           | Some (ps, e, r'') \<Rightarrow> Some (p # ps, e, r'')))"

text \<open>The outer loop over the reads the transport delivers.\<close>

fun read_loop :: "('r \<Rightarrow> bytes \<Rightarrow> 'r option) \<Rightarrow> ('r \<Rightarrow> (read_result \<times> 'r) option) \<Rightarrow> nat \<Rightarrow>
    'r \<Rightarrow> bytes list \<Rightarrow> (bytes list \<times> nat option \<times> 'r) option" where
  "read_loop feed pull fuel r [] = Some ([], None, r)"
| "read_loop feed pull fuel r (c # cs) =
     (case feed r c of
        None \<Rightarrow> None
      | Some r1 \<Rightarrow>
          (case drain pull fuel r1 of
             None \<Rightarrow> None
           | Some (ps, Some n, r2) \<Rightarrow> Some (ps, Some n, r2)
           | Some (ps, None, r2) \<Rightarrow>
               (case read_loop feed pull fuel r2 cs of
                  None \<Rightarrow> None
                | Some (qs, e, r3) \<Rightarrow> Some (ps @ qs, e, r3))))"

text \<open>
  What the transport may do to the stream: a read returns as many bytes as the slice it is given can
  hold, and that slice is the whole tail of the buffer behind the unparsed bytes
  (\<open>spare_capacity_mut\<close>). \<open>reads_fit\<close> says this of a list of reads: each is at most what the buffer of
  \<open>cap\<close> bytes has left beside the part of a frame that the reads before it left behind. A read of at
  most \<open>padding + 1\<close> bytes always fits, but most of the time much more does.
\<close>

fun reads_fit :: "nat \<Rightarrow> nat \<Rightarrow> bytes \<Rightarrow> bytes list \<Rightarrow> bool" where
  "reads_fit m cap d [] \<longleftrightarrow> True"
| "reads_fit m cap d (c # cs) \<longleftrightarrow>
     length d + length c \<le> cap \<and> reads_fit m cap (snd (snd (parse_all m (d @ c)))) cs"

lemma reads_fit_bounded:
  assumes "parse_frame m d = (NeedData, d)" and "\<forall>c \<in> set cs. length c \<le> k" and "3 + m + k \<le> cap"
    and "\<exists>ps rest. parse_all m (d @ concat cs) = (ps, None, rest)"
  shows "reads_fit m cap d cs"
  using assms
proof (induction cs arbitrary: d)
  case (Cons c cs)
  obtain ps e rest where pa: "parse_all m (d @ c) = (ps, e, rest)" by (metis prod_cases3)
  have e: "e = None"
    using Cons.prems(4) parse_all_append [OF pa, of "concat cs"] by (cases e) auto
  then have "\<exists>ps rest'. parse_all m (rest @ concat cs) = (ps, None, rest')"
    using Cons.prems(4) parse_all_append [OF pa, of "concat cs"] by (auto split: prod.splits)
  moreover have "parse_frame m rest = (NeedData, rest)" using parse_all_rest_NeedData pa e by simp
  ultimately have "reads_fit m cap rest cs" using Cons.IH Cons.prems(2,3) by simp
  moreover have "length d + length c \<le> cap"
    using parse_frame_NeedData [OF Cons.prems(1)] Cons.prems(2,3) by fastforce
  ultimately show ?case by (simp add: pa)
qed simp

lemma reads_fit_frames_bounded:
  assumes "\<forall>p \<in> set ps. packet_ok m p" and "concat cs = concat (map frame ps)"
    and "\<forall>c \<in> set cs. length c \<le> k" and "3 + m + k \<le> cap"
  shows "reads_fit m cap [] cs"
  using reads_fit_bounded [of m "[]" cs k cap] parse_all_frames [OF assms(1), of "[]"] assms
  by (simp add: parse_frame_def)

section \<open>The contract\<close>

locale framed_reader =
  fixes feed :: "'r \<Rightarrow> bytes \<Rightarrow> 'r option"
    and pull :: "'r \<Rightarrow> (read_result \<times> 'r) option"
    and content :: "'r \<Rightarrow> bytes"
    and invar :: "'r \<Rightarrow> bool"
    and room :: "'r \<Rightarrow> nat"
    and limit :: "'r \<Rightarrow> nat"
  assumes feed_ok: "invar r \<Longrightarrow> length (content r) + length d \<le> room r \<Longrightarrow>
      \<exists>r'. feed r d = Some r' \<and> invar r' \<and> content r' = content r @ d \<and>
        room r' = room r \<and> limit r' = limit r"
    and pull_ok: "invar r \<Longrightarrow>
      \<exists>r'. pull r = Some (fst (parse_frame (limit r) (content r)), r') \<and> invar r' \<and>
        content r' = snd (parse_frame (limit r) (content r)) \<and> room r' = room r \<and> limit r' = limit r"
    and room_limit: "invar r \<Longrightarrow> 4 + limit r \<le> room r"
begin

lemma drain_parse_all:
  "invar r \<Longrightarrow> parse_all (limit r) (content r) = (ps, e, rest) \<Longrightarrow> length (content r) div 4 < fuel \<Longrightarrow>
   \<exists>r'. drain pull fuel r = Some (ps, e, r') \<and> invar r' \<and> content r' = rest \<and>
     room r' = room r \<and> limit r' = limit r"
proof (induction fuel arbitrary: r ps)
  case 0
  then show ?case by simp
next
  case (Suc fuel)
  obtain res d' where pf: "parse_frame (limit r) (content r) = (res, d')" by fastforce
  with pull_ok [OF Suc.prems(1)] obtain r1 where r1: "pull r = Some (res, r1)" "invar r1"
      "content r1 = d'" "room r1 = room r" "limit r1 = limit r" by auto
  show ?case
  proof (cases res)
    case (Read p)
    with pf Suc.prems(2) obtain qs where q: "parse_all (limit r) d' = (qs, e, rest)" "ps = p # qs"
      by (auto simp: parse_all.simps [of "limit r" "content r"] split: prod.splits)
    have "length d' + 4 \<le> length (content r)" using pf Read by (auto dest: parse_frame_Read_shorter)
    with Suc.prems(3) have "length d' div 4 < fuel" by linarith
    with Suc.IH [of r1 qs] r1 q obtain r' where "drain pull fuel r1 = Some (qs, e, r')" "invar r'"
        "content r' = rest" "room r' = room r" "limit r' = limit r" by auto
    with r1 Read q show ?thesis by auto
  qed (use r1 pf Suc.prems(2) in \<open>auto simp: parse_all.simps [of "limit r" "content r"]\<close>)
qed

lemma read_loop_parse_all:
  assumes "invar r" and "parse_frame (limit r) (content r) = (NeedData, content r)"
    and "reads_fit (limit r) (room r) (content r) cs" and "room r div 4 < fuel"
    and "parse_all (limit r) (content r @ concat cs) = (ps, e, rest)"
  shows "\<exists>r'. read_loop feed pull fuel r cs = Some (ps, e, r') \<and> invar r' \<and>
    (e = None \<longrightarrow> content r' = rest)"
  using assms
proof (induction cs arbitrary: r ps)
  case Nil
  then have "ps = [] \<and> e = None \<and> rest = content r"
    using parse_all_NeedData [of "limit r" "content r"] by simp
  with Nil show ?case by simp
next
  case (Cons c cs)
  have fits: "length (content r) + length c \<le> room r"
    using Cons.prems(3) by simp
  obtain r1 where r1: "feed r c = Some r1" "invar r1" "content r1 = content r @ c"
      "room r1 = room r" "limit r1 = limit r"
    using feed_ok [OF Cons.prems(1) fits] by auto
  obtain qs e1 rest1 where pa: "parse_all (limit r) (content r @ c) = (qs, e1, rest1)"
    by (cases "parse_all (limit r) (content r @ c)") auto
  have "length (content r @ c) div 4 < fuel" using fits Cons.prems(4) by (simp add: div_le_mono le_less_trans)
  with drain_parse_all [of r1] r1 pa obtain r2 where
    r2: "drain pull fuel r1 = Some (qs, e1, r2)" "invar r2" "content r2 = rest1"
      "room r2 = room r" "limit r2 = limit r" by auto
  have whole: "parse_all (limit r) (content r @ concat (c # cs)) =
     (case e1 of
        Some n \<Rightarrow> (qs, Some n, rest1 @ concat cs)
      | None \<Rightarrow> (case parse_all (limit r) (rest1 @ concat cs) of (qs', e', rest') \<Rightarrow> (qs @ qs', e', rest')))"
    using parse_all_append [OF pa, of "concat cs"] by simp
  show ?case
  proof (cases e1)
    case (Some n)
    with whole r1 r2 Cons.prems(5) show ?thesis by auto
  next
    case None
    obtain qs' rest' where pb: "parse_all (limit r) (rest1 @ concat cs) = (qs', e, rest)"
        "ps = qs @ qs'"
      using whole None Cons.prems(5) by (auto split: prod.splits)
    have "parse_frame (limit r2) (content r2) = (NeedData, content r2)"
      using parse_all_rest_NeedData pa None r2 by simp
    moreover have "reads_fit (limit r2) (room r2) (content r2) cs"
      using Cons.prems(3) pa r1 r2 by simp
    ultimately obtain r' where
      "read_loop feed pull fuel r2 cs = Some (qs', e, r')" "invar r'" "e = None \<longrightarrow> content r' = rest"
      using Cons.IH [of r2 qs'] r1 r2 pb Cons.prems(4) by auto
    with r1 r2 None pb show ?thesis by auto
  qed
qed

lemma read_loop_frames:
  assumes "invar r" and "content r = []"
    and "\<forall>p \<in> set ps. packet_ok (limit r) p" and "concat cs = concat (map frame ps)"
    and "reads_fit (limit r) (room r) [] cs" and "room r div 4 < fuel"
  shows "\<exists>r'. read_loop feed pull fuel r cs = Some (ps, None, r') \<and> invar r' \<and> content r' = []"
proof -
  have "parse_all (limit r) (content r @ concat cs) = (ps, None, [])"
    using parse_all_frames [OF assms(3), of "[]"] by (simp only: assms(2,4) append_Nil append_Nil2 parse_all_Nil prod.case)
  moreover have "parse_frame (limit r) (content r) = (NeedData, content r)"
    using assms(2) by (simp add: parse_frame_def)
  ultimately show ?thesis
    using read_loop_parse_all [of r cs fuel ps None "[]"] assms(1,2,5,6) by simp
qed

end

section \<open>Both refill paths of the packet reader\<close>

definition push_feed :: "packet_reader \<Rightarrow> bytes \<Rightarrow> packet_reader option" where
  "push_feed r d = (case push_data r d of Some (Inr _, r') \<Rightarrow> Some r' | _ \<Rightarrow> None)"

lemma push_feed_spec:
  assumes "reader_wf r" and "length (pending r) + length d \<le> capacity r"
  shows "\<exists>r'. push_feed r d = Some r' \<and> reader_wf r' \<and> pending r' = pending r @ d \<and> same_limits r r'"
proof -
  obtain res r' where "push_data r d = Some (res, r')" "reader_wf r'" "same_limits r r'"
    "res = Inr ()" "pending r' = pending r @ d"
    using push_data_spec [OF assms(1), of d] assms(2) by (elim exE) simp
  then show ?thesis by (simp add: push_feed_def)
qed

interpretation push: framed_reader push_feed get_packet pending reader_wf capacity max_packet_size
proof (unfold_locales, goal_cases)
  case (1 r d)
  then show ?case
    using push_feed_spec [of r d] unfolding same_limits_def by blast
next
  case (2 r)
  then show ?case using get_packet_spec [of r] unfolding same_limits_def by blast
next
  case (3 r)
  then show ?case by (simp add: reader_wf_def capacity_def)
qed

interpretation zerocopy: framed_reader refill get_packet pending reader_wf capacity max_packet_size
proof (unfold_locales, goal_cases)
  case (1 r d)
  then show ?case using refill_spec [of r d] unfolding same_limits_def by blast
next
  case (2 r)
  then show ?case using get_packet_spec [of r] unfolding same_limits_def by blast
next
  case (3 r)
  then show ?case by (simp add: reader_wf_def capacity_def)
qed

text \<open>Both loops from a fresh reader.\<close>

lemma new_reader_frames:
  assumes "\<forall>p \<in> set ps. packet_ok m p" and "concat cs = concat (map frame ps)"
    and "reads_fit m (4 + m + padding) [] cs"
  shows "(\<exists>r. read_loop refill get_packet (4 + m + padding) (reader_new m padding) cs = Some (ps, None, r) \<and>
      pending r = []) \<and>
    (\<exists>r. read_loop push_feed get_packet (4 + m + padding) (reader_new m padding) cs = Some (ps, None, r) \<and>
      pending r = [])"
proof -
  let ?r = "reader_new m padding"
  have f: "capacity ?r = 4 + m + padding" "max_packet_size ?r = m"
    by (simp_all add: capacity_def reader_new_def)
  have h: "reader_wf ?r" "pending ?r = []" "\<forall>p \<in> set ps. packet_ok (max_packet_size ?r) p"
    "reads_fit (max_packet_size ?r) (capacity ?r) [] cs"
    "capacity ?r div 4 < 4 + m + padding"
    using assms by (auto simp: f reader_new_wf)
  show ?thesis
    using zerocopy.read_loop_frames [OF h(1,2,3) assms(2) h(4,5)]
      push.read_loop_frames [OF h(1,2,3) assms(2) h(4,5)] by blast
qed

text \<open>
  What one read may return: no more than the slice that \<open>spare_capacity_mut\<close> lends, which is all of the
  buffer behind the unparsed bytes.
\<close>

definition read_fits :: "packet_reader \<Rightarrow> bytes \<Rightarrow> bool" where
  "read_fits r chunk \<longleftrightarrow> length (pending r) + length chunk \<le> capacity r"

lemma read_fits_spare:
  assumes "reader_wf r" and "spare_capacity_mut r = Some (spare, r')"
  shows "read_fits r chunk \<longleftrightarrow> length chunk \<le> length spare"
proof -
  have "length (pending r) \<le> capacity r" by (simp add: pending_def capacity_def Let_def)
  with spare_capacity_spec [OF assms(1)] assms(2) show ?thesis by (auto simp: read_fits_def)
qed

lemma reads_fit_Cons:
  "reads_fit m (capacity r) (pending r) (c # cs) \<longleftrightarrow>
     read_fits r c \<and> reads_fit m (capacity r) (snd (snd (parse_all m (pending r @ c)))) cs"
  by (simp add: read_fits_def)

section \<open>Properties of the packet reader\<close>

text \<open>
  C1: the packets a receiver extracts are the packets that were framed, in order, whatever the
  segmentation of the byte stream: for any cut of the frames into reads, each of them at most the spare
  tail of the buffer at that moment (which is what the loops lend to a read, between \<open>padding + 1\<close> and
  the whole \<open>4 + m + padding\<close> bytes), both the zero-copy loop (\<open>spare_capacity_mut\<close>, \<open>commit\<close>,
  \<open>get_packet\<close>) and the \<open>push_data\<close> loop run without a panic and yield exactly the packets, and nothing
  is left over.
\<close>

theorem reader_reassembles:
  assumes "\<forall>p \<in> set ps. packet_ok m p" and "concat cs = concat (map frame ps)"
    and "reads_fit m (4 + m + padding) [] cs"
  shows "(\<exists>r. read_loop refill get_packet (4 + m + padding) (reader_new m padding) cs = Some (ps, None, r) \<and>
      pending r = []) \<and>
    (\<exists>r. read_loop push_feed get_packet (4 + m + padding) (reader_new m padding) cs = Some (ps, None, r) \<and>
      pending r = [])"
  using new_reader_frames [OF assms] .

theorem reader_reassembles_witness:
  "\<exists>r. read_loop refill get_packet 14 (reader_new 8 2)
       [[2, 0, 0, 0, 7, 8, 3, 0, 0, 0, 1, 2], [3, 0, 0], [0, 0]] =
     Some ([[7, 8], [1, 2, 3], []], None, r) \<and> pending r = []"
proof -
  have f: "frame [7, 8] = [2, 0, 0, 0, 7, 8]" "frame [1, 2, 3] = [3, 0, 0, 0, 1, 2, 3]"
    "frame [] = [0, 0, 0, 0]" by code_simp+
  have "reads_fit 8 (4 + 8 + 2) [] [[2, 0, 0, 0, 7, 8, 3, 0, 0, 0, 1, 2], [3, 0, 0], [0, 0]]"
    by code_simp
  then show ?thesis
    using reader_reassembles [of "[[7, 8], [1, 2, 3], []]" 8
        "[[2, 0, 0, 0, 7, 8, 3, 0, 0, 0, 1, 2], [3, 0, 0], [0, 0]]" 2]
    by (simp add: f packet_ok_def)
qed

text \<open>
  Refinement: on a well-formed reader \<open>get_packet\<close> never panics, and its result and its effect
  on the unconsumed bytes are those of the frame parser; it leaves the buffer's size and the
  limit alone and the reader well-formed.
\<close>

theorem get_packet_refines_parser:
  assumes "reader_wf r"
  shows "\<exists>res r'. get_packet r = Some (res, r') \<and>
    (res, pending r') = parse_frame (max_packet_size r) (pending r) \<and> reader_wf r' \<and>
    capacity r' = capacity r \<and> max_packet_size r' = max_packet_size r"
  using get_packet_spec [OF assms] by (auto simp: same_limits_def)

theorem get_packet_refines_parser_witness:
  "\<exists>res r'. get_packet (reader_new 3 0) = Some (res, r') \<and> (res, pending r') = parse_frame 3 []"
  using get_packet_refines_parser [OF reader_new_wf [of 3 0]]
  by (auto simp: reader_new_def pending_def discard_consumed_def Let_def)

text \<open>
  The spare slice is never empty before a read: after \<open>get_packet\<close> answered \<open>NeedData\<close>, the
  slice lent by \<open>spare_capacity_mut\<close> has room for at least one byte even without padding, so a
  read of zero bytes always means end of stream; the unconsumed bytes survive the compaction.
\<close>

theorem spare_never_empty:
  assumes "reader_wf r" and "get_packet r = Some (NeedData, r1)"
  shows "\<exists>spare r2. spare_capacity_mut r1 = Some (spare, r2) \<and>
    capacity r - (3 + max_packet_size r) \<le> length spare \<and> 0 < length spare \<and>
    pending r2 = pending r"
proof -
  obtain r1' where g: "get_packet r = Some (fst (parse_frame (max_packet_size r) (pending r)), r1')"
      "reader_wf r1'" "same_limits r r1'" "pending r1' = snd (parse_frame (max_packet_size r) (pending r))"
    using get_packet_spec [OF assms(1)] by blast
  with assms(2) have r1: "r1' = r1" "fst (parse_frame (max_packet_size r) (pending r)) = NeedData" by auto
  then have d: "pending r1 = pending r" "length (pending r) < 4 + max_packet_size r"
    using parse_frame_NeedData [of "max_packet_size r" "pending r" "pending r1"] g(4)
    by (metis prod.collapse)+
  obtain spare r2 where s: "spare_capacity_mut r1 = Some (spare, r2)" "pending r2 = pending r1"
      "length spare = capacity r1 - length (pending r1)"
    using spare_capacity_spec [of r1] g(2) r1 by blast
  have "4 + max_packet_size r \<le> capacity r" using assms(1) by (simp add: reader_wf_def capacity_def)
  with s d g(3) r1 show ?thesis by (auto simp: same_limits_def)
qed

theorem spare_never_empty_witness:
  "\<exists>spare r2. spare_capacity_mut (reader_new 3 0) = Some (spare, r2) \<and> 0 < length spare"
proof -
  have "get_packet (reader_new 3 0) = Some (NeedData, reader_new 3 0)"
    by (simp add: get_packet_def next_state.simps buffered_def usize_sub_def reader_new_def)
  from spare_never_empty [OF reader_new_wf this] show ?thesis by blast
qed

end
