(* ===== verification/Companion.thy ===== *)
theory Companion
  imports Packet_Reader
begin

text \<open>
  The companion side channel of crates/fcast-protocol/src/companion.rs: the binary codec of
  resource responses, the resource URL and the request-id generator.
\<close>

section \<open>Resource responses\<close>

datatype parse_error =
    MissingData
  | InvalidEnumVariant u8

datatype get_resource_result =
    NotFound
  | Success bytes

record resource_response =
  rr_request_id :: u32
  rr_part :: u8
  rr_total_parts :: u8
  rr_result :: get_resource_result

definition success_tag :: u8 where
  "success_tag = 1"

definition get_resource_result_parse :: "bytes \<Rightarrow> parse_error + get_resource_result" where
  "get_resource_result_parse buf =
     (case buf of
        [] \<Rightarrow> Inl MissingData
      | v # rest \<Rightarrow>
          if v = 0 then Inr NotFound
          else if v = 1 then Inr (Success rest)
          else Inl (InvalidEnumVariant v))"

fun get_resource_result_serialize :: "get_resource_result \<Rightarrow> bytes" where
  "get_resource_result_serialize NotFound = [0]"
| "get_resource_result_serialize (Success buf) = concat [[success_tag], buf]"

definition max_overhead :: nat where
  "max_overhead = 4 + 1 * 3"

definition resource_response_parse :: "bytes \<Rightarrow> parse_error + resource_response" where
  "resource_response_parse buf =
     (if length buf < max_overhead then Inl MissingData
      else
        let request_id = u32_from_le_bytes [buf ! 0, buf ! 1, buf ! 2, buf ! 3];
            part = buf ! 4;
            total_parts = buf ! 5
        in case get_resource_result_parse (drop 6 buf) of
             Inl e \<Rightarrow> Inl e
           | Inr res \<Rightarrow>
               Inr \<lparr>rr_request_id = request_id, rr_part = part, rr_total_parts = total_parts, rr_result = res\<rparr>)"

definition resource_response_serialize :: "resource_response \<Rightarrow> bytes" where
  "resource_response_serialize r =
     concat [u32_to_le_bytes (rr_request_id r), [rr_part r], [rr_total_parts r],
             get_resource_result_serialize (rr_result r)]"

definition header_success :: "u32 \<Rightarrow> u8 \<Rightarrow> u8 \<Rightarrow> bytes" where
  "header_success request_id part total_parts =
     (let i = u32_to_le_bytes request_id
      in [i ! 0, i ! 1, i ! 2, i ! 3, part, total_parts, success_tag])"

definition MAX_PACKET_SIZE :: nat where
  "MAX_PACKET_SIZE = 512 * 1024"

definition OPCODE_SIZE :: nat where
  "OPCODE_SIZE = 1"

definition MAX_RESOURCE_READ_SIZE :: nat where
  "MAX_RESOURCE_READ_SIZE = MAX_PACKET_SIZE - max_overhead - OPCODE_SIZE"

lemma get_resource_result_roundtrip [simp]:
  "get_resource_result_parse (get_resource_result_serialize g) = Inr g"
  by (cases g) (auto simp: get_resource_result_parse_def success_tag_def)

lemma resource_response_serialize_append:
  "resource_response_serialize r =
     u32_to_le_bytes (rr_request_id r) @ rr_part r # rr_total_parts r # get_resource_result_serialize (rr_result r)"
  by (simp add: resource_response_serialize_def)

lemma resource_response_parse_serialize [simp]:
  "resource_response_parse (resource_response_serialize r) = Inr r"
proof -
  obtain a b c d where abcd: "u32_to_le_bytes (rr_request_id r) = [a, b, c, d]"
    using four_nths [of "u32_to_le_bytes (rr_request_id r)"] by (metis length_u32_to_le_bytes)
  then have "u32_from_le_bytes [a, b, c, d] = rr_request_id r" by (simp flip: abcd)
  with abcd show ?thesis
    using get_resource_result_roundtrip [of "rr_result r"]
    by (cases "rr_result r")
       (simp_all add: resource_response_parse_def resource_response_serialize_append max_overhead_def)
qed

text \<open>
  A resource response survives the wire: \<open>parse\<close> of \<open>serialize\<close> is the response.
\<close>

theorem resource_response_roundtrip:
  "resource_response_parse (resource_response_serialize r) = Inr r"
  by simp

text \<open>
  The parser is total and accepts exactly the serialised responses, apart from the bytes
  after a \<open>NotFound\<close> tag, which it ignores: whatever it accepts re-serialises to the input, or
  to the first seven bytes of it when the result is \<open>NotFound\<close>. Short input and unknown tags
  are the two errors.
\<close>

theorem resource_response_parse_sound:
  "case resource_response_parse buf of
     Inr r \<Rightarrow> resource_response_serialize r =
       (case rr_result r of NotFound \<Rightarrow> take 7 buf | Success _ \<Rightarrow> buf)
   | Inl MissingData \<Rightarrow> length buf < 7
   | Inl (InvalidEnumVariant v) \<Rightarrow> 7 \<le> length buf \<and> v = buf ! 6 \<and> v \<noteq> 0 \<and> v \<noteq> 1"
proof (cases "length buf < 7")
  case True
  then show ?thesis by (simp add: resource_response_parse_def max_overhead_def)
next
  case False
  then obtain a b c d p t v rest where buf: "buf = a # b # c # d # p # t # v # rest"
    by (auto simp: not_less numeral_eq_Suc Suc_le_length_iff)
  have "u32_to_le_bytes (u32_from_le_bytes [a, b, c, d]) = [a, b, c, d]"
    by (rule u32_le_roundtrip_bytes) simp
  then show ?thesis
    by (auto simp: buf resource_response_parse_def get_resource_result_parse_def max_overhead_def
        resource_response_serialize_append success_tag_def)
qed

lemma header_success_serialize:
  "header_success i p t @ d =
     resource_response_serialize \<lparr>rr_request_id = i, rr_part = p, rr_total_parts = t, rr_result = Success d\<rparr>"
  using four_nths [of "u32_to_le_bytes i"]
  by (simp add: header_success_def resource_response_serialize_append Let_def)

section \<open>Resource URLs\<close>

definition create_url :: "u16 \<Rightarrow> u32 \<Rightarrow> string" where
  "create_url provider_id resource_id =
     concat [''fcomp://'', dec (unat provider_id), ''.fcast/'', dec (unat resource_id)]"

lemma digits_before_separator:
  assumes "xs @ c # ys = xs' @ c # ys'" and "\<forall>x \<in> set xs. is_digit x" and "\<forall>x \<in> set xs'. is_digit x"
    and "\<not> is_digit c"
  shows "xs = xs' \<and> ys = ys'"
  using assms
proof (induction xs arbitrary: xs')
  case Nil
  then show ?case by (cases xs') auto
next
  case (Cons x xs)
  then show ?case by (cases xs') auto
qed

text \<open>
  Distinct resources have distinct URLs: the provider and resource ids can be read back.
\<close>

theorem create_url_inject:
  "create_url p r = create_url p' r' \<longleftrightarrow> p = p' \<and> r = r'"
proof
  assume "create_url p r = create_url p' r'"
  then have "dec (unat p) @ CHR ''.'' # (''fcast/'' @ dec (unat r)) =
      dec (unat p') @ CHR ''.'' # (''fcast/'' @ dec (unat r'))"
    by (simp add: create_url_def)
  then have "dec (unat p) = dec (unat p') \<and> ''fcast/'' @ dec (unat r) = ''fcast/'' @ dec (unat r')"
    by (rule digits_before_separator) (auto intro: dec_digits, simp add: is_digit_def)
  then show "p = p' \<and> r = r'" by (simp add: word_unat_eq_iff)
qed simp

section \<open>Request ids\<close>

text \<open>\<open>RequestIdGenerator(u32)\<close>; both operations wrap in the release profile.\<close>

definition request_id_next :: "u32 \<Rightarrow> u32 \<times> u32" where
  "request_id_next g = (let g' = g + 1 in (g' - 1, g'))"

fun request_ids :: "nat \<Rightarrow> u32 \<Rightarrow> u32 list" where
  "request_ids 0 g = []"
| "request_ids (Suc n) g = (case request_id_next g of (i, g') \<Rightarrow> i # request_ids n g')"

lemma request_ids_eq: "request_ids n g = map (\<lambda>k. g + of_nat k) [0..<n]"
proof (induction n arbitrary: g)
  case 0
  then show ?case by simp
next
  case (Suc n)
  have "map (\<lambda>k. g + of_nat k) [0..<Suc n] = g # map (\<lambda>k. g + 1 + of_nat k) [0..<n]"
    by (simp add: map_upt_Suc ac_simps del: upt_Suc)
  with Suc show ?case by (simp add: request_id_next_def Let_def del: upt_Suc)
qed

text \<open>
  The generator never repeats an id among any \<open>2 ^ 32\<close> consecutive requests, whatever the
  counter it starts from; the bound is exact, the next request reuses the first id.
\<close>

theorem request_ids_distinct:
  "distinct (request_ids n g) \<longleftrightarrow> n \<le> 2 ^ 32"
proof
  assume "n \<le> 2 ^ 32"
  then have "inj_on (\<lambda>k. g + of_nat k) {0..<n}"
    by (auto simp: inj_on_def of_nat_eq_iff word_of_nat_eq_iff take_bit_nat_eq_self)
  then show "distinct (request_ids n g)" by (simp add: request_ids_eq distinct_map)
next
  assume d: "distinct (request_ids n g)"
  have "length (request_ids n g) = n" by (simp add: request_ids_eq)
  with d have "n = card (set (request_ids n g))" by (simp add: distinct_card)
  also have "\<dots> \<le> card (UNIV :: u32 set)" by (rule card_mono) auto
  finally show "n \<le> 2 ^ 32" by (simp add: card_word)
qed

end
