(* ===== verification/Fast_Connection.thy ===== *)
theory Fast_Connection
  imports Framing Companion
begin

text \<open>
  \<open>Connection\<close> of tools/fast/src/engine.rs: one end of an FCast connection over the packet
  reader. The socket is the list of reads it will deliver, an empty read being the end of the
  stream; TLS and logging do not touch the framing. The writers are in theory Opcode.
\<close>

record fast_packet =
  fp_opcode :: opcode
  fp_body :: "bytes option"

datatype conn_error =
    Closed
  | Overrun
  | Oversized nat
  | BadOpcode u8

record connection =
  c_reader :: packet_reader
  c_parsed :: "fast_packet list"

definition READ_BUF :: nat where
  "READ_BUF = 16 * 1024"

definition connection_new :: connection where
  "connection_new = \<lparr>c_reader = reader_new MAX_PACKET_SIZE READ_BUF, c_parsed = []\<rparr>"

text \<open>
  The inner loop of \<open>recv\<close>: the queue grows packet by packet, an empty packet is skipped, an
  oversized one or an unknown opcode leaves the loop with an error. \<open>None\<close> is a panic, or fuel
  that ran out.
\<close>

fun parse_loop :: "nat \<Rightarrow> packet_reader \<Rightarrow> fast_packet list \<Rightarrow>
    ((conn_error + unit) \<times> packet_reader \<times> fast_packet list) option" where
  "parse_loop 0 r q = None"
| "parse_loop (Suc fuel) r q =
     (case get_packet r of
        None \<Rightarrow> None
      | Some (NeedData, r') \<Rightarrow> Some (Inr (), r', q)
      | Some (PacketTooLarge n, r') \<Rightarrow> Some (Inl (Oversized n), r', q)
      | Some (Read [], r') \<Rightarrow> parse_loop fuel r' q
      | Some (Read (op # body), r') \<Rightarrow>
          (case opcode_try_from op of
             Inl (UnknownOpcode v) \<Rightarrow> Some (Inl (BadOpcode v), r', q)
           | Inr opc \<Rightarrow>
               parse_loop fuel r'
                 (q @ [\<lparr>fp_opcode = opc, fp_body = (if body \<noteq> [] then Some body else None)\<rparr>])))"

text \<open>
  \<open>recv\<close>: the first queued packet, or one more read. The fuel of the inner loop covers a full
  buffer. The result also carries the reads left in the socket; \<open>Inr None\<close> is a receiver still
  waiting when the modelled reads end.
\<close>

definition LOOP_FUEL :: nat where
  "LOOP_FUEL = MAX_PACKET_SIZE + READ_BUF"

fun recv :: "connection \<Rightarrow> bytes list \<Rightarrow>
    ((conn_error + fast_packet option) \<times> connection \<times> bytes list) option" where
  "recv c reads =
     (case c_parsed c of
        p # ps \<Rightarrow> Some (Inr (Some p), c\<lparr>c_parsed := ps\<rparr>, reads)
      | [] \<Rightarrow>
          (case reads of
             [] \<Rightarrow> Some (Inr None, c, [])
           | d # ds \<Rightarrow>
               if d = [] then Some (Inl Closed, c, ds)
               else (case push_data (c_reader c) d of
                  None \<Rightarrow> None
                | Some (Inl BufferTooBig, r) \<Rightarrow> Some (Inl Overrun, c\<lparr>c_reader := r\<rparr>, ds)
                | Some (Inr _, r) \<Rightarrow>
                    (case parse_loop LOOP_FUEL r [] of
                       None \<Rightarrow> None
                     | Some (Inl e, r', q) \<Rightarrow> Some (Inl e, c\<lparr>c_reader := r', c_parsed := q\<rparr>, ds)
                     | Some (Inr _, r', q) \<Rightarrow> recv (c\<lparr>c_reader := r', c_parsed := q\<rparr>) ds))))"

declare recv.simps [simp del]

fun recv_many :: "nat \<Rightarrow> connection \<Rightarrow> bytes list \<Rightarrow> (fast_packet list \<times> connection \<times> bytes list) option"
where
  "recv_many 0 c reads = Some ([], c, reads)"
| "recv_many (Suc n) c reads =
     (case recv c reads of
        Some (Inr (Some p), c', reads') \<Rightarrow>
          (case recv_many n c' reads' of
             None \<Rightarrow> None
           | Some (ps, c'', reads'') \<Rightarrow> Some (p # ps, c'', reads''))
      | _ \<Rightarrow> None)"

section \<open>What the parsed bodies mean\<close>

fun decode_all :: "bytes list \<Rightarrow> conn_error + fast_packet list" where
  "decode_all [] = Inr []"
| "decode_all ([] # ps) = decode_all ps"
| "decode_all ((op # body) # ps) =
     (case opcode_try_from op of
        Inl (UnknownOpcode v) \<Rightarrow> Inl (BadOpcode v)
      | Inr opc \<Rightarrow>
          (case decode_all ps of
             Inl e \<Rightarrow> Inl e
           | Inr qs \<Rightarrow> Inr (\<lparr>fp_opcode = opc, fp_body = (if body \<noteq> [] then Some body else None)\<rparr> # qs)))"

lemma decode_all_append:
  "decode_all (xs @ ys) = Inr qs \<Longrightarrow>
   \<exists>q1 q2. decode_all xs = Inr q1 \<and> decode_all ys = Inr q2 \<and> qs = q1 @ q2"
  by (induction xs arbitrary: qs rule: decode_all.induct)
     (fastforce split: sum.splits try_from_byte_error.splits)+

lemma parse_loop_drain:
  "drain get_packet fuel r = Some (ps, None, r') \<Longrightarrow> decode_all ps = Inr qs \<Longrightarrow>
   parse_loop fuel r q = Some (Inr (), r', q @ qs)"
proof (induction fuel arbitrary: r ps qs q)
  case 0
  then show ?case by simp
next
  case (Suc fuel)
  then obtain res r1 where g: "get_packet r = Some (res, r1)"
    by (auto split: option.splits)
  show ?case
  proof (cases res)
    case (Read p)
    with Suc.prems g obtain ps' where d: "drain get_packet fuel r1 = Some (ps', None, r')" "ps = p # ps'"
      by (auto split: option.splits)
    show ?thesis
    proof (cases p)
      case Nil
      with d Suc.prems(2) have "decode_all ps' = Inr qs" by simp
      with Suc.IH [OF d(1)] Nil Read g show ?thesis by simp
    next
      case (Cons op body)
      with d Suc.prems(2) obtain opc qs' where "opcode_try_from op = Inr opc" "decode_all ps' = Inr qs'"
        "qs = \<lparr>fp_opcode = opc, fp_body = (if body \<noteq> [] then Some body else None)\<rparr> # qs'"
        by (auto split: sum.splits try_from_byte_error.splits)
      with Suc.IH [OF d(1)] Cons Read g show ?thesis by simp
    qed
  qed (use Suc.prems g in auto)
qed

definition conn_ok :: "connection \<Rightarrow> bool" where
  "conn_ok c \<longleftrightarrow> reader_wf (c_reader c) \<and> capacity (c_reader c) = 4 + MAX_PACKET_SIZE + READ_BUF \<and>
     max_packet_size (c_reader c) = MAX_PACKET_SIZE \<and>
     parse_frame MAX_PACKET_SIZE (pending (c_reader c)) = (NeedData, pending (c_reader c))"

definition reads_ok :: "bytes list \<Rightarrow> bool" where
  "reads_ok reads \<longleftrightarrow> (\<forall>d \<in> set reads. d \<noteq> [] \<and> length d \<le> READ_BUF)"

text \<open>\<open>outlook c reads qs\<close>: the packets still to be received are \<open>qs\<close>.\<close>

definition outlook :: "connection \<Rightarrow> bytes list \<Rightarrow> fast_packet list \<Rightarrow> bool" where
  "outlook c reads qs \<longleftrightarrow>
     (\<exists>ps rest q. parse_all MAX_PACKET_SIZE (pending (c_reader c) @ concat reads) = (ps, None, rest) \<and>
        decode_all ps = Inr q \<and> qs = c_parsed c @ q)"

lemma connection_new_ok: "conn_ok connection_new"
  by (simp add: conn_ok_def connection_new_def reader_new_wf capacity_def parse_frame_def)
     (simp add: reader_new_def)

lemma recv_step:
  assumes c: "conn_ok c" and "d \<noteq> []" and len: "length d \<le> READ_BUF" and nil: "c_parsed c = []"
    and o: "outlook c (d # ds) qs"
  shows "\<exists>r' q. (\<forall>c'. c' = c\<lparr>c_reader := r', c_parsed := q\<rparr> \<longrightarrow>
    recv c (d # ds) = recv c' ds \<and> conn_ok c' \<and> outlook c' ds qs)"
proof -
  let ?r = "c_reader c"
  let ?M = MAX_PACKET_SIZE
  have fits: "length (pending ?r) + length d \<le> capacity ?r"
    using c len parse_frame_NeedData [of ?M "pending ?r" "pending ?r"] by (simp add: conn_ok_def)
  obtain res r1 where p1: "push_data ?r d = Some (res, r1)" "reader_wf r1" "same_limits ?r r1"
      "res = Inr ()" "pending r1 = pending ?r @ d"
    using push_data_spec [of ?r d] c fits by (auto simp: conn_ok_def)
  obtain ps rest q where all: "parse_all ?M (pending ?r @ concat (d # ds)) = (ps, None, rest)"
      "decode_all ps = Inr q" "qs = q"
    using o nil by (auto simp: outlook_def)
  obtain ps1 e1 rest1 where a1: "parse_all ?M (pending ?r @ d) = (ps1, e1, rest1)"
    by (cases "parse_all ?M (pending ?r @ d)") auto
  have whole: "parse_all ?M (pending ?r @ concat (d # ds)) =
     (case e1 of Some n \<Rightarrow> (ps1, Some n, rest1 @ concat ds)
      | None \<Rightarrow> (case parse_all ?M (rest1 @ concat ds) of (qs, e', rest') \<Rightarrow> (ps1 @ qs, e', rest')))"
    using parse_all_append [OF a1, of "concat ds"] by simp
  with all obtain ps2 where e1: "e1 = None" and a2: "parse_all ?M (rest1 @ concat ds) = (ps2, None, rest)"
      and ps: "ps = ps1 @ ps2"
    by (cases e1) (auto split: prod.splits)
  obtain q1 q2 where q: "decode_all ps1 = Inr q1" "decode_all ps2 = Inr q2" "q = q1 @ q2"
    using all(2) ps decode_all_append by blast
  have "length (pending r1) div 4 < LOOP_FUEL"
    using fits p1(5) c by (simp add: conn_ok_def LOOP_FUEL_def READ_BUF_def MAX_PACKET_SIZE_def)
  moreover have "parse_all (max_packet_size r1) (pending r1) = (ps1, None, rest1)"
    using a1 e1 p1 c by (simp add: conn_ok_def same_limits_def)
  ultimately obtain r2 where r2: "drain get_packet LOOP_FUEL r1 = Some (ps1, None, r2)" "reader_wf r2"
      "pending r2 = rest1" "capacity r2 = capacity r1" "max_packet_size r2 = max_packet_size r1"
    using push.drain_parse_all [OF p1(2)] by blast
  let ?c' = "c\<lparr>c_reader := r2, c_parsed := q1\<rparr>"
  have pl: "parse_loop LOOP_FUEL r1 [] = Some (Inr (), r2, q1)"
    using parse_loop_drain [OF r2(1) q(1), of "[]"] by simp
  have "recv c (d # ds) = recv ?c' ds"
    using nil \<open>d \<noteq> []\<close> p1 by (subst recv.simps) (simp add: pl)
  moreover have "conn_ok ?c'"
    using r2 p1 c parse_all_rest_NeedData [of ?M "pending r1" ps1 rest1] a1 e1
    by (simp add: conn_ok_def same_limits_def)
  moreover have "outlook ?c' ds qs"
    using a2 q all(3) r2 by (simp add: outlook_def)
  ultimately show ?thesis by blast
qed

lemma recv_next:
  assumes "conn_ok c" and "reads_ok reads" and "outlook c reads (p # qs)"
  shows "\<exists>c' reads'. recv c reads = Some (Inr (Some p), c', reads') \<and> conn_ok c' \<and>
    reads_ok reads' \<and> outlook c' reads' qs"
  using assms
proof (induction reads arbitrary: c)
  case Nil
  then have "parse_all MAX_PACKET_SIZE (pending (c_reader c)) = ([], None, pending (c_reader c))"
    by (simp add: conn_ok_def parse_all_NeedData)
  with Nil have "c_parsed c = p # qs" by (auto simp: outlook_def)
  with Nil show ?case
    by (subst recv.simps) (auto simp: outlook_def conn_ok_def parse_all_NeedData)
next
  case (Cons d ds)
  show ?case
  proof (cases "c_parsed c")
    case Nil
    with Cons.prems obtain r' q where s: "recv c (d # ds) = recv (c\<lparr>c_reader := r', c_parsed := q\<rparr>) ds"
        "conn_ok (c\<lparr>c_reader := r', c_parsed := q\<rparr>)"
        "outlook (c\<lparr>c_reader := r', c_parsed := q\<rparr>) ds (p # qs)"
      using recv_step [of c d ds "p # qs"] by (auto simp: reads_ok_def)
    with Cons.IH [OF s(2) _ s(3)] Cons.prems(2) show ?thesis by (simp add: reads_ok_def)
  next
    case (Cons p' ps')
    with Cons.prems show ?thesis
      by (subst recv.simps) (auto simp: outlook_def conn_ok_def)
  qed
qed

lemma recv_many_outlook:
  "conn_ok c \<Longrightarrow> reads_ok reads \<Longrightarrow> outlook c reads qs \<Longrightarrow>
   \<exists>c' reads'. recv_many (length qs) c reads = Some (qs, c', reads')"
proof (induction qs arbitrary: c reads)
  case Nil
  then show ?case by simp
next
  case (Cons p qs)
  then obtain c' reads' where "recv c reads = Some (Inr (Some p), c', reads')" "conn_ok c'"
    "reads_ok reads'" "outlook c' reads' qs" using recv_next by blast
  with Cons.IH [of c' reads'] show ?case by auto
qed

section \<open>Write, then receive\<close>

definition conn_message_ok :: "opcode \<times> bytes option \<Rightarrow> bool" where
  "conn_message_ok m \<longleftrightarrow> (case snd m of None \<Rightarrow> True | Some b \<Rightarrow> length b < MAX_PACKET_SIZE)"

definition received :: "opcode \<times> bytes option \<Rightarrow> fast_packet" where
  "received m = \<lparr>fp_opcode = fst m, fp_body = (if snd m = Some [] then None else snd m)\<rparr>"

definition message_body :: "opcode \<times> bytes option \<Rightarrow> bytes" where
  "message_body m = opcode_as_u8 (fst m) # (case snd m of None \<Rightarrow> [] | Some b \<Rightarrow> b)"

lemma conn_write_frame: "conn_write (fst m) (snd m) = frame (message_body m)"
  by (cases "snd m") (simp_all add: writers_frame message_body_def)

lemma decode_all_messages: "decode_all (map message_body ms) = Inr (map received ms)"
  by (induction ms) (auto simp: message_body_def received_def split: option.splits)

text \<open>
  Whatever packets one side writes, the other side's \<open>recv\<close> returns the same packets in the
  same order, for every way the transport cuts the byte stream into non-empty reads of at most
  the read buffer's size; an empty body arrives as no body. The only condition on a packet is
  that opcode and body fit the packet limit.
\<close>

theorem write_recv_roundtrip:
  assumes "\<forall>m \<in> set ms. conn_message_ok m" and "reads_ok reads"
    and "concat reads = concat (map (\<lambda>m. conn_write (fst m) (snd m)) ms)"
  shows "\<exists>c' reads'. recv_many (length ms) connection_new reads = Some (map received ms, c', reads')"
proof -
  have "\<forall>p \<in> set (map message_body ms). packet_ok MAX_PACKET_SIZE p"
    using assms(1)
    by (auto simp: packet_ok_def message_body_def conn_message_ok_def MAX_PACKET_SIZE_def split: option.splits)
  then have "parse_all MAX_PACKET_SIZE (concat reads) = (map message_body ms, None, [])"
    using parse_all_frames [of "map message_body ms" MAX_PACKET_SIZE "[]"]
    by (simp add: assms(3) conn_write_frame comp_def)
  then have "outlook connection_new reads (map received ms)"
    by (auto simp: outlook_def connection_new_def decode_all_messages)
  then show ?thesis
    using recv_many_outlook [OF connection_new_ok assms(2)] by fastforce
qed

theorem write_recv_roundtrip_witness:
  "\<exists>c' reads'. recv_many 2 connection_new [[1, 0, 0], [0, 12, 3, 0, 0, 0, 20], [7, 9]] =
     Some ([\<lparr>fp_opcode = Op_Ping, fp_body = None\<rparr>, \<lparr>fp_opcode = Op_Flatbuf, fp_body = Some [7, 9]\<rparr>],
           c', reads')"
proof -
  let ?ms = "[(Op_Ping, None), (Op_Flatbuf, Some [7, 9])] :: (opcode \<times> bytes option) list"
  let ?reads = "[[1, 0, 0], [0, 12, 3, 0, 0, 0, 20], [7, 9]] :: bytes list"
  have "conn_write Op_Ping None = [1, 0, 0, 0, 12]" by code_simp
  moreover have "conn_write Op_Flatbuf (Some [7, 9]) = [3, 0, 0, 0, 20, 7, 9]" by code_simp
  ultimately have "concat ?reads = concat (map (\<lambda>m. conn_write (fst m) (snd m)) ?ms)" by simp
  moreover have "\<forall>m \<in> set ?ms. conn_message_ok m" and "reads_ok ?reads"
    by (simp_all add: conn_message_ok_def reads_ok_def MAX_PACKET_SIZE_def READ_BUF_def)
  ultimately have "\<exists>c' reads'. recv_many (length ?ms) connection_new ?reads = Some (map received ?ms, c', reads')"
    by (intro write_recv_roundtrip)
  then show ?thesis by (simp add: received_def numeral_2_eq_2)
qed

end
