(* ===== verification/Net_Stream.thy ===== *)
theory Net_Stream
  imports Framing
begin

text \<open>
  The network streams of crates/fcast-protocol/src/receiver.rs and sender.rs: a connection is
  plain TCP until the version exchange and TLS afterwards. \<open>PrefixedRead\<close> replays the bytes
  that were read past the plaintext packet. The TCP and TLS streams of tokio and rustls are
  parameters: a type of streams and the functions that read, write and connect.
\<close>

section \<open>Replaying a prefix\<close>

datatype 'e poll =
    Pending
  | Ready_Ok bytes
  | Ready_Err 'e

record 's prefixed_read =
  pr_prefix :: bytes
  pr_pos :: nat
  pr_inner :: 's

definition prefixed_read_new :: "bytes \<Rightarrow> 's \<Rightarrow> 's prefixed_read" where
  "prefixed_read_new prefix inner = \<lparr>pr_prefix = prefix, pr_pos = 0, pr_inner = inner\<rparr>"

text \<open>
  \<open>poll_read\<close> with \<open>cap\<close> bytes of room in the caller's buffer; the result carries the bytes put
  into it. \<open>inner_poll\<close> is the inner stream's \<open>poll_read\<close>.
\<close>

definition prefixed_poll_read ::
    "('s \<Rightarrow> nat \<Rightarrow> 'e poll \<times> 's) \<Rightarrow> 's prefixed_read \<Rightarrow> nat \<Rightarrow> 'e poll \<times> 's prefixed_read" where
  "prefixed_poll_read inner_poll this cap =
     (if pr_pos this < length (pr_prefix this) then
        let remaining = drop (pr_pos this) (pr_prefix this);
            n = min (length remaining) cap
        in (Ready_Ok (take n remaining), this\<lparr>pr_pos := pr_pos this + n\<rparr>)
      else
        (case inner_poll (pr_inner this) cap of
           (res, inner') \<Rightarrow> (res, this\<lparr>pr_inner := inner'\<rparr>)))"

definition prefixed_poll_write ::
    "('s \<Rightarrow> bytes \<Rightarrow> 'r \<times> 's) \<Rightarrow> 's prefixed_read \<Rightarrow> bytes \<Rightarrow> 'r \<times> 's prefixed_read" where
  "prefixed_poll_write inner_write this buf =
     (case inner_write (pr_inner this) buf of (res, inner') \<Rightarrow> (res, this\<lparr>pr_inner := inner'\<rparr>))"

definition prefixed_poll_flush ::
    "('s \<Rightarrow> 'r \<times> 's) \<Rightarrow> 's prefixed_read \<Rightarrow> 'r \<times> 's prefixed_read" where
  "prefixed_poll_flush inner_flush this =
     (case inner_flush (pr_inner this) of (res, inner') \<Rightarrow> (res, this\<lparr>pr_inner := inner'\<rparr>))"

text \<open>A reader that polls with given buffer sizes, and the bytes it collects.\<close>

fun poll_all :: "('s \<Rightarrow> nat \<Rightarrow> 'e poll \<times> 's) \<Rightarrow> 's \<Rightarrow> nat list \<Rightarrow> 'e poll list \<times> 's" where
  "poll_all poll s [] = ([], s)"
| "poll_all poll s (cap # caps) =
     (case poll s cap of (res, s') \<Rightarrow>
        case poll_all poll s' caps of (rs, s'') \<Rightarrow> (res # rs, s''))"

fun poll_bytes :: "'e poll \<Rightarrow> bytes" where
  "poll_bytes Pending = []"
| "poll_bytes (Ready_Ok bs) = bs"
| "poll_bytes (Ready_Err e) = []"

definition collected :: "'e poll list \<Rightarrow> bytes" where
  "collected rs = concat (map poll_bytes rs)"

lemma collected_simps [simp]:
  "collected [] = []" "collected (r # rs) = poll_bytes r @ collected rs"
  by (simp_all add: collected_def)

text \<open>
  What a reader of a prefixed stream collects: a prefix of the replayed bytes, or all of them
  followed by what the inner stream delivers to the polls made after the prefix ran out.
\<close>

fun polls_left :: "nat \<Rightarrow> nat list \<Rightarrow> nat list" where
  "polls_left n [] = []"
| "polls_left n (cap # caps) = (if n = 0 then cap # caps else polls_left (n - min n cap) caps)"

fun prefix_taken :: "nat \<Rightarrow> nat list \<Rightarrow> nat" where
  "prefix_taken n [] = 0"
| "prefix_taken n (cap # caps) = (if n = 0 then 0 else min n cap + prefix_taken (n - min n cap) caps)"

lemma polls_left_0 [simp]: "polls_left 0 caps = caps"
  by (cases caps) auto

lemma prefix_taken_0 [simp]: "prefix_taken 0 caps = 0"
  by (cases caps) auto

text \<open>With enough polls of non-empty buffers everything is replayed first.\<close>

lemma prefix_taken_le: "prefix_taken n caps \<le> n"
proof (induction n caps rule: prefix_taken.induct)
  case (2 n cap caps)
  then show ?case by (cases "n = 0") (auto simp: min_def)
qed simp

lemma prefix_taken_all: "n \<le> length caps \<Longrightarrow> \<forall>c \<in> set caps. 0 < c \<Longrightarrow> prefix_taken n caps = n"
proof (induction n caps rule: prefix_taken.induct)
  case (2 n cap caps)
  then show ?case by (cases "n = 0") (auto simp: min_def)
qed simp

lemma poll_all_inner:
  assumes "pr_pos this = length (pr_prefix this)"
  shows "poll_all (prefixed_poll_read inner_poll) this caps =
    (case poll_all inner_poll (pr_inner this) caps of (rs, s') \<Rightarrow> (rs, this\<lparr>pr_inner := s'\<rparr>))"
  using assms
proof (induction caps arbitrary: this)
  case Nil
  then show ?case by simp
next
  case (Cons cap caps)
  obtain r s' where "inner_poll (pr_inner this) cap = (r, s')" by fastforce
  with Cons.prems Cons.IH [of "this\<lparr>pr_inner := s'\<rparr>"] show ?case
    by (auto simp: prefixed_poll_read_def split: prod.splits)
qed

lemma poll_all_prefixed:
  "pr_pos this \<le> length (pr_prefix this) \<Longrightarrow>
   n = length (pr_prefix this) - pr_pos this \<Longrightarrow>
   collected (fst (poll_all (prefixed_poll_read inner_poll) this caps)) =
     take (prefix_taken n caps) (drop (pr_pos this) (pr_prefix this)) @
     collected (fst (poll_all inner_poll (pr_inner this) (polls_left n caps)))"
proof (induction n caps arbitrary: this rule: prefix_taken.induct)
  case (1 n)
  then show ?case by simp
next
  case (2 n cap caps)
  show ?case
  proof (cases "n = 0")
    case True
    with 2 have "pr_pos this = length (pr_prefix this)" by simp
    from poll_all_inner [OF this, of inner_poll "cap # caps"] True show ?thesis
      by (simp del: poll_all.simps split: prod.splits)
  next
    case False
    let ?m = "min n cap"
    let ?this' = "this\<lparr>pr_pos := pr_pos this + ?m\<rparr>"
    have p: "prefixed_poll_read inner_poll this cap =
        (Ready_Ok (take ?m (drop (pr_pos this) (pr_prefix this))), ?this')"
      using False 2(3) by (simp add: prefixed_poll_read_def Let_def)
    have "collected (fst (poll_all (prefixed_poll_read inner_poll) ?this' caps)) =
       take (prefix_taken (n - ?m) caps) (drop (pr_pos this + ?m) (pr_prefix this)) @
       collected (fst (poll_all inner_poll (pr_inner this) (polls_left (n - ?m) caps)))"
      using "2.IH" [OF False, of ?this'] 2(2,3) by simp
    moreover have "take (?m + k) (drop (pr_pos this) (pr_prefix this)) =
        take ?m (drop (pr_pos this) (pr_prefix this)) @ take k (drop (pr_pos this + ?m) (pr_prefix this))" for k
      by (subst take_add) (simp add: add.commute)
    ultimately show ?thesis using p False by (auto split: prod.splits)
  qed
qed

lemma replay:
  fixes inner_poll :: "'s \<Rightarrow> nat \<Rightarrow> 'e poll \<times> 's"
  assumes "length prefix \<le> length caps" and "\<forall>c \<in> set caps. 0 < c"
  shows "collected (fst (poll_all (prefixed_poll_read inner_poll) (prefixed_read_new prefix s) caps)) =
    prefix @ collected (fst (poll_all inner_poll s (polls_left (length prefix) caps)))"
proof -
  let ?pr = "prefixed_read_new prefix s"
  have f: "pr_pos ?pr = 0" "pr_prefix ?pr = prefix" "pr_inner ?pr = s"
    by (simp_all add: prefixed_read_new_def)
  have "collected (fst (poll_all (prefixed_poll_read inner_poll) ?pr caps)) =
     take (prefix_taken (length prefix) caps) (drop (pr_pos ?pr) (pr_prefix ?pr)) @
     collected (fst (poll_all inner_poll (pr_inner ?pr) (polls_left (length prefix) caps)))"
    by (rule poll_all_prefixed) (simp_all add: f)
  then show ?thesis unfolding f prefix_taken_all [OF assms] by simp
qed

section \<open>The connection stream\<close>

text \<open>
  \<open>NetworkStream\<close> of both sides. The write half is a \<open>BufWriter\<close>, kept as the bytes it has
  buffered. \<open>NS_None\<close> is the placeholder \<open>mem::take\<close> leaves behind; reading or writing it is
  \<open>unreachable!()\<close>, a panic.
\<close>

datatype ('tcp, 'tls) net_stream =
    NS_None
  | NS_Tcp 'tcp bytes
  | NS_Tls 'tls bytes

datatype ('e, 't) handshake =
    Timed_Out
  | Failed 'e
  | Established 't

datatype 'e upgrade_error =
    TlsUpgradeTimedOut
  | IoError 'e

definition ns_read ::
    "('tcp \<Rightarrow> nat \<Rightarrow> ('e + bytes) \<times> 'tcp) \<Rightarrow> ('tls \<Rightarrow> nat \<Rightarrow> ('e + bytes) \<times> 'tls) \<Rightarrow>
     ('tcp, 'tls) net_stream \<Rightarrow> nat \<Rightarrow> (('e + bytes) \<times> ('tcp, 'tls) net_stream) option" where
  "ns_read tcp_read tls_read s cap =
     (case s of
        NS_Tcp t tx \<Rightarrow> (case tcp_read t cap of (r, t') \<Rightarrow> Some (r, NS_Tcp t' tx))
      | NS_Tls t tx \<Rightarrow> (case tls_read t cap of (r, t') \<Rightarrow> Some (r, NS_Tls t' tx))
      | NS_None \<Rightarrow> None)"

text \<open>
  \<open>write_all\<close> goes into the \<open>BufWriter\<close>, here with room for everything; \<open>flush\<close> hands the
  buffered bytes to the socket and is a no-op on the placeholder.
\<close>

definition ns_write_all ::
    "('tcp, 'tls) net_stream \<Rightarrow> bytes \<Rightarrow> ('tcp, 'tls) net_stream option" where
  "ns_write_all s buf =
     (case s of
        NS_Tcp t tx \<Rightarrow> Some (NS_Tcp t (tx @ buf))
      | NS_Tls t tx \<Rightarrow> Some (NS_Tls t (tx @ buf))
      | NS_None \<Rightarrow> None)"

definition ns_flush ::
    "('tcp \<Rightarrow> bytes \<Rightarrow> ('e + unit) \<times> 'tcp) \<Rightarrow> ('tls \<Rightarrow> bytes \<Rightarrow> ('e + unit) \<times> 'tls) \<Rightarrow>
     ('tcp, 'tls) net_stream \<Rightarrow> ('e + unit) \<times> ('tcp, 'tls) net_stream" where
  "ns_flush tcp_send tls_send s =
     (case s of
        NS_Tcp t tx \<Rightarrow>
          (case tcp_send t tx of (Inl e, t') \<Rightarrow> (Inl e, NS_Tcp t' tx) | (Inr _, t') \<Rightarrow> (Inr (), NS_Tcp t' []))
      | NS_Tls t tx \<Rightarrow>
          (case tls_send t tx of (Inl e, t') \<Rightarrow> (Inl e, NS_Tls t' tx) | (Inr _, t') \<Rightarrow> (Inr (), NS_Tls t' []))
      | NS_None \<Rightarrow> (Inr (), NS_None))"

text \<open>
  The receiver's \<open>upgrade_with_prefix\<close>: \<open>accept\<close> is the TLS acceptor under the timeout. An error
  leaves through \<open>?\<close> after \<open>mem::take\<close>, so the stream stays the placeholder.
\<close>

definition receiver_upgrade_with_prefix ::
    "('tcp prefixed_read \<Rightarrow> ('e, 'tls) handshake) \<Rightarrow> bytes \<Rightarrow> ('tcp, 'tls) net_stream \<Rightarrow>
     ('e upgrade_error + unit) \<times> ('tcp, 'tls) net_stream" where
  "receiver_upgrade_with_prefix accept prefix s =
     (case s of
        NS_Tcp t tx \<Rightarrow>
          (case accept (prefixed_read_new prefix t) of
             Timed_Out \<Rightarrow> (Inl TlsUpgradeTimedOut, NS_None)
           | Failed e \<Rightarrow> (Inl (IoError e), NS_None)
           | Established tls \<Rightarrow> (Inr (), NS_Tls tls []))
      | _ \<Rightarrow> (Inr (), s))"

definition receiver_upgrade ::
    "('tcp prefixed_read \<Rightarrow> ('e, 'tls) handshake) \<Rightarrow> ('tcp, 'tls) net_stream \<Rightarrow>
     ('e upgrade_error + unit) \<times> ('tcp, 'tls) net_stream" where
  "receiver_upgrade accept s = receiver_upgrade_with_prefix accept [] s"

definition sender_upgrade ::
    "('name \<Rightarrow> 'tcp \<Rightarrow> ('e, 'tls) handshake) \<Rightarrow> 'name \<Rightarrow> ('tcp, 'tls) net_stream \<Rightarrow>
     ('e upgrade_error + unit) \<times> ('tcp, 'tls) net_stream" where
  "sender_upgrade connect server_name s =
     (case s of
        NS_Tcp t tx \<Rightarrow>
          (case connect server_name t of
             Timed_Out \<Rightarrow> (Inl TlsUpgradeTimedOut, NS_None)
           | Failed e \<Rightarrow> (Inl (IoError e), NS_None)
           | Established tls \<Rightarrow> (Inr (), NS_Tls tls []))
      | _ \<Rightarrow> (Inr (), s))"

section \<open>Certificate pinning\<close>

record cert_verifier =
  cv_fingerprint :: bytes
  cv_skip_fp_check :: bool

definition cert_verifier_new :: "bytes \<Rightarrow> cert_verifier" where
  "cert_verifier_new fp = \<lparr>cv_fingerprint = fp, cv_skip_fp_check = False\<rparr>"

definition cert_verifier_new_no_fingerprint_check :: cert_verifier where
  "cert_verifier_new_no_fingerprint_check = \<lparr>cv_fingerprint = [], cv_skip_fp_check = True\<rparr>"

datatype 'e tls_error =
    FingerprintMismatch bytes bytes
  | CertParseError 'e

text \<open>
  \<open>spki\<close> parses a DER certificate and gives the raw subject public key (x509_parser), \<open>sha256\<close>
  is the digest of the sha2 crate.
\<close>

definition verify_server_cert ::
    "('cert \<Rightarrow> 'e + bytes) \<Rightarrow> (bytes \<Rightarrow> bytes) \<Rightarrow> cert_verifier \<Rightarrow> 'cert \<Rightarrow> 'e tls_error + unit" where
  "verify_server_cert spki sha256 v end_entity =
     (if cv_skip_fp_check v then Inr ()
      else case spki end_entity of
        Inr raw \<Rightarrow>
          let fingerprint = sha256 raw
          in if fingerprint = cv_fingerprint v then Inr ()
             else Inl (FingerprintMismatch fingerprint (cv_fingerprint v))
      | Inl e \<Rightarrow> Inl (CertParseError e))"

section \<open>Properties\<close>

text \<open>
  The TLS layer above a receiver sees the replayed prefix first and in order, then the
  socket: what any sequence of polls collects is a prefix of the replayed bytes, and once the
  prefix is exhausted all of it followed by exactly what the socket delivers to the remaining
  polls.
\<close>

theorem prefixed_read_replays:
  fixes inner_poll :: "'s \<Rightarrow> nat \<Rightarrow> 'e poll \<times> 's"
  assumes "length prefix \<le> length caps" and "\<forall>c \<in> set caps. 0 < c"
  shows "collected (fst (poll_all (prefixed_poll_read inner_poll) (prefixed_read_new prefix s) caps)) =
    prefix @ collected (fst (poll_all inner_poll s (polls_left (length prefix) caps)))"
  by (rule replay [OF assms])

theorem prefixed_read_replays_witness:
  "collected (fst (poll_all (prefixed_poll_read (\<lambda>s cap. (Ready_Ok (take cap s) :: unit poll, drop cap s)))
      (prefixed_read_new [22, 3, 1] [7, 8, 9]) [2, 4, 2, 5])) = ([22, 3, 1] @ [7, 8, 9] :: bytes)"
  using prefixed_read_replays [of "[22, 3, 1]" "[2, 4, 2, 5]"
      "\<lambda>s cap. (Ready_Ok (take cap s) :: unit poll, drop cap s)" "[7, 8, 9]"]
  by simp

text \<open>
  A TLS upgrade never leaves a plaintext stream behind: starting from TCP, either it
  succeeds and the stream is the established TLS session with nothing buffered, or it reports
  the error and every later read and write panics instead of going out in the clear; an
  upgrade of a stream that is not plain TCP changes nothing.
\<close>

theorem upgrade_no_plaintext_left:
  fixes accept :: "'tcp prefixed_read \<Rightarrow> ('e, 'tls) handshake"
    and tcp_read :: "'tcp \<Rightarrow> nat \<Rightarrow> ('e2 + bytes) \<times> 'tcp"
  shows "case receiver_upgrade_with_prefix accept prefix s of (res, s') \<Rightarrow>
    (case s of
       NS_Tcp t tx \<Rightarrow>
         (case accept (prefixed_read_new prefix t) of
            Established tls \<Rightarrow> res = Inr () \<and> s' = NS_Tls tls []
          | _ \<Rightarrow> isl res \<and> ns_read tcp_read tls_read s' cap = None \<and> ns_write_all s' buf = None)
     | _ \<Rightarrow> res = Inr () \<and> s' = s)"
  by (auto simp: receiver_upgrade_with_prefix_def ns_read_def ns_write_all_def
      split: net_stream.splits handshake.splits)

text \<open>
  With pinning enabled the sender accepts a server certificate exactly when the digest of
  its public key is the advertised fingerprint; a verifier that skips the check accepts all.
\<close>

theorem verify_server_cert_pins:
  "(verify_server_cert spki sha256 (cert_verifier_new fp) cert = Inr () \<longleftrightarrow>
      (\<exists>raw. spki cert = Inr raw \<and> sha256 raw = fp)) \<and>
   verify_server_cert spki sha256 cert_verifier_new_no_fingerprint_check cert = Inr ()"
  by (auto simp: verify_server_cert_def cert_verifier_new_def
      cert_verifier_new_no_fingerprint_check_def Let_def split: sum.splits)

end
