(* ===== verification/Floats.thy ===== *)
theory Floats
  imports Prelude
begin

text \<open>
  Double-precision floats as their IEEE bit patterns: comparison (both zeros are equal, a NaN compares
  with nothing), clamping, and the exact value as a multiple of the smallest double.
\<close>

definition f64_is_finite :: "f64 \<Rightarrow> bool" where
  "f64_is_finite x \<longleftrightarrow> drop_bit 52 x AND 2047 \<noteq> 2047"

definition f64_is_nan :: "f64 \<Rightarrow> bool" where
  "f64_is_nan x \<longleftrightarrow> 0x7FF0000000000000 < x AND 0x7FFFFFFFFFFFFFFF"

definition f64_rank :: "f64 \<Rightarrow> int" where
  "f64_rank x =
     (if bit x 63 then - uint (x AND 0x7FFFFFFFFFFFFFFF) else uint (x AND 0x7FFFFFFFFFFFFFFF))"

definition f64_eq :: "f64 \<Rightarrow> f64 \<Rightarrow> bool" where
  "f64_eq x y \<longleftrightarrow> \<not> f64_is_nan x \<and> \<not> f64_is_nan y \<and> f64_rank x = f64_rank y"

definition f64_less :: "f64 \<Rightarrow> f64 \<Rightarrow> bool" where
  "f64_less x y \<longleftrightarrow> \<not> f64_is_nan x \<and> \<not> f64_is_nan y \<and> f64_rank x < f64_rank y"

definition f64_clamp :: "f64 \<Rightarrow> f64 \<Rightarrow> f64 \<Rightarrow> f64" where
  "f64_clamp lo hi x = (let y = (if f64_less x lo then lo else x) in if f64_less hi y then hi else y)"

text \<open>The value of a finite double in units of \<open>2 ^ -1074\<close>.\<close>

definition f64_units :: "f64 \<Rightarrow> int" where
  "f64_units x =
     (let e = unat (drop_bit 52 x AND 0x7FF);
          m = uint (x AND 0xFFFFFFFFFFFFF);
          v = (if e = 0 then m else (2 ^ 52 + m) * 2 ^ (e - 1))
      in if bit x 63 then - v else v)"

fun bit_len :: "nat \<Rightarrow> nat" where
  "bit_len n = (if n = 0 then 0 else Suc (bit_len (n div 2)))"

declare bit_len.simps [simp del]

text \<open>\<open>f32 as f64\<close>, which is exact.\<close>

definition f64_of_f32 :: "f32 \<Rightarrow> f64" where
  "f64_of_f32 x =
     (let s = (if bit x 31 then 2 ^ 63 else 0);
          e = uint (drop_bit 23 x AND 0xFF);
          m = uint (x AND 0x7FFFFF)
      in word_of_int (s +
           (if e = 0xFF then 0x7FF * 2 ^ 52 + m * 2 ^ 29
            else if e \<noteq> 0 then (e + 896) * 2 ^ 52 + m * 2 ^ 29
            else if m = 0 then 0
            else let k = bit_len (nat m)
                 in (int k + 873) * 2 ^ 52 + (m - 2 ^ (k - 1)) * 2 ^ (53 - k))))"

end
