(* ===== verification/Json.thy ===== *)
theory Json
  imports Floats "HOL-Library.Char_ord" "HOL-Library.List_Lexorder"
begin

text \<open>
  JSON values as serde_json's \<open>Value\<close> has them, and the contract of a serde codec. An object is a
  \<open>BTreeMap\<close>, here its entries in key order; strings compare bytewise. What the derive macros
  generate for a struct is written out with \<open>obj\<close> (serialising, fields that are \<open>None\<close> skipped),
  \<open>struct_fields\<close>, \<open>req\<close> and \<open>opt\<close> (deserialising). Printing and parsing of the JSON text is
  serde_json's own and not part of the repository.
\<close>

section \<open>Values\<close>

datatype json =
    JNull
  | JBool bool
  | JPosInt u64
  | JNegInt int
  | JFloat f64
  | JStr string
  | JArr "json list"
  | JObj "(string \<times> json) list"

text \<open>
  Errors of a deserialiser: the two kinds the hand-written code raises, and \<open>Derived\<close> for any
  error of derived code, whose text is not modelled.
\<close>

datatype de_error =
    MissingField string
  | Custom string
  | Derived

fun as_u64 :: "json \<Rightarrow> u64 option" where
  "as_u64 (JPosInt n) = Some n"
| "as_u64 _ = None"

fun as_str :: "json \<Rightarrow> string option" where
  "as_str (JStr s) = Some s"
| "as_str _ = None"

fun as_bool :: "json \<Rightarrow> bool option" where
  "as_bool (JBool b) = Some b"
| "as_bool _ = None"

fun as_array :: "json \<Rightarrow> json list option" where
  "as_array (JArr xs) = Some xs"
| "as_array _ = None"

text \<open>\<open>Option::ok_or\<close>.\<close>

definition ok_or :: "'a option \<Rightarrow> 'e \<Rightarrow> 'e + 'a" where
  "ok_or x e = (case x of None \<Rightarrow> Inl e | Some v \<Rightarrow> Inr v)"

lemma ok_or_simps [simp]: "ok_or None e = Inl e" "ok_or (Some x) e = Inr x"
  by (simp_all add: ok_or_def)

lemma ok_or_Inr_iff: "ok_or x e = Inr y \<longleftrightarrow> x = Some y"
  by (cases x) auto

lemma as_u64_Some_iff: "as_u64 v = Some n \<longleftrightarrow> v = JPosInt n"
  by (cases v) auto

lemma as_str_Some_iff: "as_str v = Some s \<longleftrightarrow> v = JStr s"
  by (cases v) auto

lemma as_array_Some_iff: "as_array v = Some xs \<longleftrightarrow> v = JArr xs"
  by (cases v) auto

lemma map_as_str_Some_iff: "map as_str xs = map Some ss \<longleftrightarrow> xs = map JStr ss"
proof (induction xs arbitrary: ss)
  case (Cons x xs)
  then show ?case by (cases ss) (auto simp: as_str_Some_iff)
qed auto

section \<open>Derived structs\<close>

text \<open>
  Serialising a struct inserts its fields into a fresh map; a skipped field is \<open>None\<close> in the list.
\<close>

fun obj_entries :: "(string \<times> json option) list \<Rightarrow> (string \<times> json) list" where
  "obj_entries [] = []"
| "obj_entries ((k, None) # fs) = obj_entries fs"
| "obj_entries ((k, Some v) # fs) = map_insert k v (obj_entries fs)"

definition put_field :: "string \<Rightarrow> json option \<Rightarrow> (string \<times> json) list \<Rightarrow> (string \<times> json) list" where
  "put_field k v m = (case v of None \<Rightarrow> m | Some x \<Rightarrow> map_insert k x m)"

lemma obj_entries_Cons: "obj_entries ((k, v) # fs) = put_field k v (obj_entries fs)"
  by (cases v) (simp_all add: put_field_def)

lemma put_field_None [simp]: "put_field k None m = m"
  by (simp add: put_field_def)

definition obj :: "(string \<times> json option) list \<Rightarrow> json" where
  "obj fs = JObj (obj_entries fs)"

text \<open>
  Deserialising looks fields up by name; serde also accepts an array with one element per field.
\<close>

definition struct_fields :: "string list \<Rightarrow> json \<Rightarrow> de_error + (string \<Rightarrow> json option)" where
  "struct_fields names v =
     (case v of
        JObj m \<Rightarrow> Inr (map_of m)
      | JArr xs \<Rightarrow> if length xs = length names then Inr (map_of (zip names xs)) else Inl Derived
      | _ \<Rightarrow> Inl Derived)"

definition req :: "(string \<Rightarrow> json option) \<Rightarrow> string \<Rightarrow> (json \<Rightarrow> de_error + 'a) \<Rightarrow> de_error + 'a" where
  "req look k de = (case look k of None \<Rightarrow> Inl Derived | Some v \<Rightarrow> de v)"

definition opt_de :: "(json \<Rightarrow> de_error + 'a) \<Rightarrow> json option \<Rightarrow> de_error + 'a option" where
  "opt_de de v =
     (case v of
        None \<Rightarrow> Inr None
      | Some JNull \<Rightarrow> Inr None
      | Some j \<Rightarrow> ebind (de j) (\<lambda>x. Inr (Some x)))"

definition opt :: "(string \<Rightarrow> json option) \<Rightarrow> string \<Rightarrow> (json \<Rightarrow> de_error + 'a) \<Rightarrow> de_error + 'a option" where
  "opt look k de = opt_de de (look k)"

text \<open>An \<open>Option\<close> field that is not skipped is written as \<open>null\<close> when absent.\<close>

definition null_ser :: "('a \<Rightarrow> json) \<Rightarrow> 'a option \<Rightarrow> json" where
  "null_ser ser v = (case v of None \<Rightarrow> JNull | Some x \<Rightarrow> ser x)"

lemma map_of_obj_entries:
  "distinct (map fst fs) \<Longrightarrow> map_of (obj_entries fs) k = (case map_of fs k of None \<Rightarrow> None | Some x \<Rightarrow> x)"
proof (induction fs rule: obj_entries.induct)
  case (2 k' fs)
  then have "k' \<notin> dom (map_of fs)" by (auto simp: dom_map_of_conv_image_fst)
  then have "map_of fs k' = None" by auto
  with 2 show ?case by (auto split: option.splits)
qed auto

lemma struct_fields_obj:
  "distinct (map fst fs) \<Longrightarrow>
   struct_fields names (obj fs) = Inr (\<lambda>k. case map_of fs k of None \<Rightarrow> None | Some x \<Rightarrow> x)"
  by (auto simp: struct_fields_def obj_def map_of_obj_entries)

lemma obj_not_null [simp]: "obj fs \<noteq> JNull"
  by (simp add: obj_def)

lemma req_Some [simp]: "look k = Some v \<Longrightarrow> req look k de = de v"
  by (simp add: req_def)

section \<open>The contract of a codec\<close>

text \<open>
  \<open>ok\<close> is the set of values the codec carries without loss; such a value is never \<open>null\<close> on the
  wire, so a field of type \<open>Option\<close> comes back as \<open>Some\<close>.
\<close>

locale json_codec =
  fixes ser :: "'a \<Rightarrow> json"
    and de :: "json \<Rightarrow> de_error + 'a"
    and ok :: "'a \<Rightarrow> bool"
  assumes roundtrip: "ok x \<Longrightarrow> de (ser x) = Inr x"
    and not_null: "ok x \<Longrightarrow> ser x \<noteq> JNull"
begin

lemma opt_roundtrip:
  "\<forall>x \<in> set_option v. ok x \<Longrightarrow> opt_de de (map_option ser v) = Inr v"
proof (cases v)
  case (Some a)
  assume "\<forall>x \<in> set_option v. ok x"
  with Some have "de (ser a) = Inr a" and "ser a \<noteq> JNull"
    by (simp_all add: roundtrip not_null)
  with Some show ?thesis by (cases "ser a") (simp_all add: opt_de_def)
qed (simp add: opt_de_def)

lemma null_roundtrip:
  "\<forall>x \<in> set_option v. ok x \<Longrightarrow> opt_de de (Some (null_ser ser v)) = Inr v"
  using opt_roundtrip [of v] by (cases v) (simp_all add: null_ser_def opt_de_def)

lemma list_roundtrip:
  "\<forall>x \<in> set xs. ok x \<Longrightarrow> collect_result (map (\<lambda>x. de (ser x)) xs) = Inr xs"
  by (rule collect_result_map) (simp add: roundtrip)

lemma ser_inject: "ok x \<Longrightarrow> ok y \<Longrightarrow> ser x = ser y \<Longrightarrow> x = y"
  using roundtrip by (metis sum.inject(2))

end

named_theorems codec_simps \<open>round trips of the field codecs\<close>

section \<open>Field codecs\<close>

definition str_de :: "json \<Rightarrow> de_error + string" where
  "str_de v = ok_or (as_str v) Derived"

definition bool_de :: "json \<Rightarrow> de_error + bool" where
  "bool_de v = ok_or (as_bool v) Derived"

definition u64_de :: "json \<Rightarrow> de_error + u64" where
  "u64_de v = ok_or (as_u64 v) Derived"

text \<open>
  A float that is not finite has no JSON form and becomes \<open>null\<close>. Reading takes any number;
  \<open>cast\<close> is serde's conversion of an integer to \<open>f64\<close>.
\<close>

definition f64_ser :: "f64 \<Rightarrow> json" where
  "f64_ser x = (if f64_is_finite x then JFloat x else JNull)"

definition f64_de :: "(int \<Rightarrow> f64) \<Rightarrow> json \<Rightarrow> de_error + f64" where
  "f64_de cast v =
     (case v of
        JFloat x \<Rightarrow> Inr x
      | JPosInt n \<Rightarrow> Inr (cast (uint n))
      | JNegInt i \<Rightarrow> Inr (cast i)
      | _ \<Rightarrow> Inl Derived)"

text \<open>An instance of the parameter \<open>cast\<close> for examples, exact for 0 only.\<close>

definition sample_cast :: "int \<Rightarrow> f64" where
  "sample_cast i = word_of_int i"

text \<open>Integers of a fixed width: \<open>u16\<close> and \<open>i32\<close>, the latter as \<open>int\<close>.\<close>

definition u16_ser :: "u16 \<Rightarrow> json" where
  "u16_ser n = JPosInt (ucast n)"

definition u16_de :: "json \<Rightarrow> de_error + u16" where
  "u16_de v = (case v of JPosInt n \<Rightarrow> if unat n < 2 ^ 16 then Inr (ucast n) else Inl Derived | _ \<Rightarrow> Inl Derived)"

definition i32_ser :: "int \<Rightarrow> json" where
  "i32_ser i = (if i < 0 then JNegInt i else JPosInt (word_of_int i))"

definition i32_de :: "json \<Rightarrow> de_error + int" where
  "i32_de v =
     (case v of
        JPosInt n \<Rightarrow> if uint n < 2 ^ 31 then Inr (uint n) else Inl Derived
      | JNegInt i \<Rightarrow> if - (2 ^ 31) \<le> i then Inr i else Inl Derived
      | _ \<Rightarrow> Inl Derived)"

text \<open>\<open>HashMap<String, String>\<close>, kept as its entries in key order.\<close>

definition str_map_ser :: "(string \<times> string) list \<Rightarrow> json" where
  "str_map_ser m = JObj (map (\<lambda>(k, v). (k, JStr v)) m)"

definition str_map_de :: "json \<Rightarrow> de_error + (string \<times> string) list" where
  "str_map_de v =
     (case v of
        JObj m \<Rightarrow> collect_result (map (\<lambda>(k, v). ebind (str_de v) (\<lambda>s. Inr (k, s))) m)
      | _ \<Rightarrow> Inl Derived)"

definition vec_ser :: "('a \<Rightarrow> json) \<Rightarrow> 'a list \<Rightarrow> json" where
  "vec_ser ser xs = JArr (map ser xs)"

definition vec_de :: "(json \<Rightarrow> de_error + 'a) \<Rightarrow> json \<Rightarrow> de_error + 'a list" where
  "vec_de de v = (case v of JArr xs \<Rightarrow> collect_result (map de xs) | _ \<Rightarrow> Inl Derived)"

interpretation str: json_codec JStr str_de "\<lambda>_. True"
  by unfold_locales (simp_all add: str_de_def)

interpretation bool: json_codec JBool bool_de "\<lambda>_. True"
  by unfold_locales (simp_all add: bool_de_def)

interpretation u64: json_codec JPosInt u64_de "\<lambda>_. True"
  by unfold_locales (simp_all add: u64_de_def)

interpretation f64: json_codec f64_ser "f64_de cast" f64_is_finite for cast
  by unfold_locales (simp_all add: f64_ser_def f64_de_def)

lemma u16_fits: "unat (ucast (n :: u16) :: u64) < 2 ^ 16"
proof -
  have "unat n < 2 ^ 16" using unsigned_less [of n, where 'a = nat] by simp
  then show ?thesis by (simp add: unsigned_ucast_eq take_bit_nat_eq_self)
qed

lemma u16_widen: "ucast (ucast (n :: u16) :: u64) = n"
  by (rule bit_word_eqI) (auto simp: bit_simps dest: bit_imp_le_length)

interpretation u16: json_codec u16_ser u16_de "\<lambda>_. True"
  by unfold_locales (use u16_fits in \<open>simp_all add: u16_ser_def u16_de_def u16_widen\<close>)

interpretation i32: json_codec i32_ser i32_de "in_srange 32"
  by unfold_locales
     (auto simp: i32_ser_def i32_de_def in_srange_def uint_word_of_int take_bit_int_eq_self)

interpretation str_map: json_codec str_map_ser str_map_de sorted_map
proof (unfold_locales, goal_cases)
  case (1 m)
  have "collect_result (map (\<lambda>e. ebind (str_de (JStr (snd e))) (\<lambda>s. Inr (fst e, s))) m) =
      (Inr m :: de_error + (string \<times> string) list)"
    by (induction m) (simp_all add: str_de_def)
  then show ?case by (simp add: str_map_ser_def str_map_de_def comp_def case_prod_unfold)
qed (simp add: str_map_ser_def)

lemma vec_roundtrip:
  assumes "json_codec ser de ok" and "\<forall>x \<in> set xs. ok x"
  shows "vec_de de (vec_ser ser xs) = Inr xs"
  using json_codec.list_roundtrip [OF assms] by (simp add: vec_de_def vec_ser_def comp_def)

declare str.roundtrip [codec_simps] bool.roundtrip [codec_simps] u64.roundtrip [codec_simps]
  f64.roundtrip [codec_simps] u16.roundtrip [codec_simps] i32.roundtrip [codec_simps]
  str_map.roundtrip [codec_simps]

declare str.opt_roundtrip [codec_simps] bool.opt_roundtrip [codec_simps] u64.opt_roundtrip [codec_simps]
  f64.opt_roundtrip [codec_simps] str_map.opt_roundtrip [codec_simps]
  str_map.null_roundtrip [codec_simps]

declare vec_roundtrip [OF str.json_codec_axioms, codec_simps]

lemmas struct_simps = struct_fields_obj opt_def

end
