(* ===== verification/Legacy_Messages.thy ===== *)
theory Legacy_Messages
  imports Json
begin

text \<open>
  The JSON bodies shared by all versions of the protocol (\<open>fcast-protocol/src/lib.rs\<close>) and those of
  versions 1 and 2 (\<open>v1.rs\<close>, \<open>v2.rs\<close>). Each struct is a record; \<open>_ser\<close> and \<open>_de\<close> are what the
  derive macros generate, \<open>_ok\<close> the values JSON can carry (no infinite or NaN floats), and every
  struct interprets the codec contract. \<open>cast\<close> is serde's integer to float conversion.
\<close>

section \<open>Playback state\<close>

datatype wire_playback_state = Idle | Playing | Paused

fun wire_playback_state_as_u8 :: "wire_playback_state \<Rightarrow> u64" where
  "wire_playback_state_as_u8 Idle = 0"
| "wire_playback_state_as_u8 Playing = 1"
| "wire_playback_state_as_u8 Paused = 2"

definition wire_playback_state_ser :: "wire_playback_state \<Rightarrow> json" where
  "wire_playback_state_ser s = JPosInt (wire_playback_state_as_u8 s)"

definition wire_playback_state_de :: "json \<Rightarrow> de_error + wire_playback_state" where
  "wire_playback_state_de v =
     (case v of
        JPosInt n \<Rightarrow>
          if n = 0 then Inr Idle else if n = 1 then Inr Playing else if n = 2 then Inr Paused
          else Inl Derived
      | _ \<Rightarrow> Inl Derived)"

interpretation wire_state: json_codec wire_playback_state_ser wire_playback_state_de "\<lambda>_. True"
proof (unfold_locales, goal_cases)
  case (1 s)
  show ?case by (cases s) (simp_all add: wire_playback_state_ser_def wire_playback_state_de_def)
qed (simp add: wire_playback_state_ser_def)

declare wire_state.roundtrip [codec_simps]

section \<open>Messages of every version\<close>

record playback_error_message =
  pe_message :: string

definition playback_error_message_ser :: "playback_error_message \<Rightarrow> json" where
  "playback_error_message_ser m = obj
     [(''message'', Some (JStr (pe_message m)))]"

definition playback_error_message_de :: "json \<Rightarrow> de_error + playback_error_message" where
  "playback_error_message_de v =
     ebind (struct_fields [''message''] v) (\<lambda>look.
     ebind (req look ''message'' str_de) (\<lambda>message.
     Inr \<lparr> pe_message = message \<rparr>))"

interpretation playback_error: json_codec playback_error_message_ser playback_error_message_de "\<lambda>_. True"
  by unfold_locales (simp_all add: playback_error_message_ser_def playback_error_message_de_def struct_simps codec_simps)

declare playback_error.roundtrip [codec_simps] playback_error.opt_roundtrip [codec_simps]

record version_message =
  vm_version :: u64

definition version_message_ser :: "version_message \<Rightarrow> json" where
  "version_message_ser m = obj
     [(''version'', Some (JPosInt (vm_version m)))]"

definition version_message_de :: "json \<Rightarrow> de_error + version_message" where
  "version_message_de v =
     ebind (struct_fields [''version''] v) (\<lambda>look.
     ebind (req look ''version'' u64_de) (\<lambda>version.
     Inr \<lparr> vm_version = version \<rparr>))"

interpretation version_msg: json_codec version_message_ser version_message_de "\<lambda>_. True"
  by unfold_locales (simp_all add: version_message_ser_def version_message_de_def struct_simps codec_simps)

declare version_msg.roundtrip [codec_simps] version_msg.opt_roundtrip [codec_simps]

record set_speed_message =
  ss_speed :: f64

definition set_speed_message_ser :: "set_speed_message \<Rightarrow> json" where
  "set_speed_message_ser m = obj
     [(''speed'', Some (f64_ser (ss_speed m)))]"

definition set_speed_message_de :: "(int \<Rightarrow> f64) \<Rightarrow> json \<Rightarrow> de_error + set_speed_message" where
  "set_speed_message_de cast v =
     ebind (struct_fields [''speed''] v) (\<lambda>look.
     ebind (req look ''speed'' (f64_de cast)) (\<lambda>speed.
     Inr \<lparr> ss_speed = speed \<rparr>))"

definition set_speed_message_ok :: "set_speed_message \<Rightarrow> bool" where
  "set_speed_message_ok m \<longleftrightarrow>
     f64_is_finite (ss_speed m)"

interpretation set_speed: json_codec set_speed_message_ser "set_speed_message_de cast" set_speed_message_ok for cast
  by unfold_locales (simp_all add: set_speed_message_ser_def set_speed_message_de_def set_speed_message_ok_def struct_simps codec_simps)

declare set_speed.roundtrip [codec_simps] set_speed.opt_roundtrip [codec_simps]

record set_volume_message =
  sv_volume :: f64

definition set_volume_message_ser :: "set_volume_message \<Rightarrow> json" where
  "set_volume_message_ser m = obj
     [(''volume'', Some (f64_ser (sv_volume m)))]"

definition set_volume_message_de :: "(int \<Rightarrow> f64) \<Rightarrow> json \<Rightarrow> de_error + set_volume_message" where
  "set_volume_message_de cast v =
     ebind (struct_fields [''volume''] v) (\<lambda>look.
     ebind (req look ''volume'' (f64_de cast)) (\<lambda>volume.
     Inr \<lparr> sv_volume = volume \<rparr>))"

definition set_volume_message_ok :: "set_volume_message \<Rightarrow> bool" where
  "set_volume_message_ok m \<longleftrightarrow>
     f64_is_finite (sv_volume m)"

interpretation set_volume: json_codec set_volume_message_ser "set_volume_message_de cast" set_volume_message_ok for cast
  by unfold_locales (simp_all add: set_volume_message_ser_def set_volume_message_de_def set_volume_message_ok_def struct_simps codec_simps)

declare set_volume.roundtrip [codec_simps] set_volume.opt_roundtrip [codec_simps]

record seek_message =
  sk_time :: f64

definition seek_message_ser :: "seek_message \<Rightarrow> json" where
  "seek_message_ser m = obj
     [(''time'', Some (f64_ser (sk_time m)))]"

definition seek_message_de :: "(int \<Rightarrow> f64) \<Rightarrow> json \<Rightarrow> de_error + seek_message" where
  "seek_message_de cast v =
     ebind (struct_fields [''time''] v) (\<lambda>look.
     ebind (req look ''time'' (f64_de cast)) (\<lambda>time.
     Inr \<lparr> sk_time = time \<rparr>))"

definition seek_message_ok :: "seek_message \<Rightarrow> bool" where
  "seek_message_ok m \<longleftrightarrow>
     f64_is_finite (sk_time m)"

interpretation seek_msg: json_codec seek_message_ser "seek_message_de cast" seek_message_ok for cast
  by unfold_locales (simp_all add: seek_message_ser_def seek_message_de_def seek_message_ok_def struct_simps codec_simps)

declare seek_msg.roundtrip [codec_simps] seek_msg.opt_roundtrip [codec_simps]

record fcast_service =
  svc_port :: u16
  svc_kind :: int

definition fcast_service_ser :: "fcast_service \<Rightarrow> json" where
  "fcast_service_ser m = obj
     [(''port'', Some (u16_ser (svc_port m))),
      (''type'', Some (i32_ser (svc_kind m)))]"

definition fcast_service_de :: "json \<Rightarrow> de_error + fcast_service" where
  "fcast_service_de v =
     ebind (struct_fields [''port'', ''type''] v) (\<lambda>look.
     ebind (req look ''port'' u16_de) (\<lambda>port.
     ebind (req look ''type'' i32_de) (\<lambda>kind.
     Inr \<lparr> svc_port = port, svc_kind = kind \<rparr>)))"

definition fcast_service_ok :: "fcast_service \<Rightarrow> bool" where
  "fcast_service_ok m \<longleftrightarrow>
     in_srange 32 (svc_kind m)"

interpretation service: json_codec fcast_service_ser fcast_service_de fcast_service_ok
  by unfold_locales (simp_all add: fcast_service_ser_def fcast_service_de_def fcast_service_ok_def struct_simps codec_simps)

declare service.roundtrip [codec_simps] service.opt_roundtrip [codec_simps]
  vec_roundtrip [OF service.json_codec_axioms, codec_simps]

text \<open>
  \<open>FCastNetworkConfig\<close>; its absent \<open>txt\<close> is not skipped but written as \<open>null\<close>.
\<close>

record network_config =
  nc_name :: string
  nc_addresses :: "string list"
  nc_services :: "fcast_service list"
  nc_txt :: "((string \<times> string) list) option"

definition network_config_ser :: "network_config \<Rightarrow> json" where
  "network_config_ser m = obj
     [(''name'', Some (JStr (nc_name m))),
      (''addresses'', Some (vec_ser JStr (nc_addresses m))),
      (''services'', Some (vec_ser fcast_service_ser (nc_services m))),
      (''txt'', Some (null_ser str_map_ser (nc_txt m)))]"

definition network_config_de :: "json \<Rightarrow> de_error + network_config" where
  "network_config_de v =
     ebind (struct_fields [''name'', ''addresses'', ''services'', ''txt''] v) (\<lambda>look.
     ebind (req look ''name'' str_de) (\<lambda>name.
     ebind (req look ''addresses'' (vec_de str_de)) (\<lambda>addresses.
     ebind (req look ''services'' (vec_de fcast_service_de)) (\<lambda>services.
     ebind (opt look ''txt'' str_map_de) (\<lambda>txt.
     Inr \<lparr> nc_name = name, nc_addresses = addresses, nc_services = services, nc_txt = txt \<rparr>)))))"

definition network_config_ok :: "network_config \<Rightarrow> bool" where
  "network_config_ok m \<longleftrightarrow>
     (\<forall>x \<in> set (nc_services m). fcast_service_ok x) \<and>
     (\<forall>x \<in> set_option (nc_txt m). sorted_map x)"

interpretation network_config: json_codec network_config_ser network_config_de network_config_ok
  by unfold_locales (simp_all add: network_config_ser_def network_config_de_def network_config_ok_def struct_simps codec_simps)

declare network_config.roundtrip [codec_simps] network_config.opt_roundtrip [codec_simps]

section \<open>Version 1\<close>

record v1_play_message =
  p1_container :: string
  p1_url :: "string option"
  p1_content :: "string option"
  p1_time :: "f64 option"

definition v1_play_message_ser :: "v1_play_message \<Rightarrow> json" where
  "v1_play_message_ser m = obj
     [(''container'', Some (JStr (p1_container m))),
      (''url'', map_option JStr (p1_url m)),
      (''content'', map_option JStr (p1_content m)),
      (''time'', map_option f64_ser (p1_time m))]"

definition v1_play_message_de :: "(int \<Rightarrow> f64) \<Rightarrow> json \<Rightarrow> de_error + v1_play_message" where
  "v1_play_message_de cast v =
     ebind (struct_fields [''container'', ''url'', ''content'', ''time''] v) (\<lambda>look.
     ebind (req look ''container'' str_de) (\<lambda>container.
     ebind (opt look ''url'' str_de) (\<lambda>url.
     ebind (opt look ''content'' str_de) (\<lambda>content.
     ebind (opt look ''time'' (f64_de cast)) (\<lambda>time.
     Inr \<lparr> p1_container = container, p1_url = url, p1_content = content, p1_time = time \<rparr>)))))"

definition v1_play_message_ok :: "v1_play_message \<Rightarrow> bool" where
  "v1_play_message_ok m \<longleftrightarrow>
     (\<forall>x \<in> set_option (p1_time m). f64_is_finite x)"

interpretation v1_play: json_codec v1_play_message_ser "v1_play_message_de cast" v1_play_message_ok for cast
  by unfold_locales (simp_all add: v1_play_message_ser_def v1_play_message_de_def v1_play_message_ok_def struct_simps codec_simps)

declare v1_play.roundtrip [codec_simps] v1_play.opt_roundtrip [codec_simps]

record v1_playback_update =
  pu1_time :: f64
  pu1_state :: wire_playback_state

definition v1_playback_update_ser :: "v1_playback_update \<Rightarrow> json" where
  "v1_playback_update_ser m = obj
     [(''time'', Some (f64_ser (pu1_time m))),
      (''state'', Some (wire_playback_state_ser (pu1_state m)))]"

definition v1_playback_update_de :: "(int \<Rightarrow> f64) \<Rightarrow> json \<Rightarrow> de_error + v1_playback_update" where
  "v1_playback_update_de cast v =
     ebind (struct_fields [''time'', ''state''] v) (\<lambda>look.
     ebind (req look ''time'' (f64_de cast)) (\<lambda>time.
     ebind (req look ''state'' wire_playback_state_de) (\<lambda>state.
     Inr \<lparr> pu1_time = time, pu1_state = state \<rparr>)))"

definition v1_playback_update_ok :: "v1_playback_update \<Rightarrow> bool" where
  "v1_playback_update_ok m \<longleftrightarrow>
     f64_is_finite (pu1_time m)"

interpretation v1_update: json_codec v1_playback_update_ser "v1_playback_update_de cast" v1_playback_update_ok for cast
  by unfold_locales (simp_all add: v1_playback_update_ser_def v1_playback_update_de_def v1_playback_update_ok_def struct_simps codec_simps)

declare v1_update.roundtrip [codec_simps] v1_update.opt_roundtrip [codec_simps]

record v1_volume_update =
  vu1_volume :: f64

definition v1_volume_update_ser :: "v1_volume_update \<Rightarrow> json" where
  "v1_volume_update_ser m = obj
     [(''volume'', Some (f64_ser (vu1_volume m)))]"

definition v1_volume_update_de :: "(int \<Rightarrow> f64) \<Rightarrow> json \<Rightarrow> de_error + v1_volume_update" where
  "v1_volume_update_de cast v =
     ebind (struct_fields [''volume''] v) (\<lambda>look.
     ebind (req look ''volume'' (f64_de cast)) (\<lambda>volume.
     Inr \<lparr> vu1_volume = volume \<rparr>))"

definition v1_volume_update_ok :: "v1_volume_update \<Rightarrow> bool" where
  "v1_volume_update_ok m \<longleftrightarrow>
     f64_is_finite (vu1_volume m)"

interpretation v1_volume: json_codec v1_volume_update_ser "v1_volume_update_de cast" v1_volume_update_ok for cast
  by unfold_locales (simp_all add: v1_volume_update_ser_def v1_volume_update_de_def v1_volume_update_ok_def struct_simps codec_simps)

declare v1_volume.roundtrip [codec_simps] v1_volume.opt_roundtrip [codec_simps]

section \<open>Version 2\<close>

record v2_play_message =
  p2_container :: string
  p2_url :: "string option"
  p2_content :: "string option"
  p2_time :: "f64 option"
  p2_speed :: "f64 option"
  p2_headers :: "((string \<times> string) list) option"

definition v2_play_message_ser :: "v2_play_message \<Rightarrow> json" where
  "v2_play_message_ser m = obj
     [(''container'', Some (JStr (p2_container m))),
      (''url'', map_option JStr (p2_url m)),
      (''content'', map_option JStr (p2_content m)),
      (''time'', map_option f64_ser (p2_time m)),
      (''speed'', map_option f64_ser (p2_speed m)),
      (''headers'', map_option str_map_ser (p2_headers m))]"

definition v2_play_message_de :: "(int \<Rightarrow> f64) \<Rightarrow> json \<Rightarrow> de_error + v2_play_message" where
  "v2_play_message_de cast v =
     ebind (struct_fields [''container'', ''url'', ''content'', ''time'', ''speed'', ''headers''] v) (\<lambda>look.
     ebind (req look ''container'' str_de) (\<lambda>container.
     ebind (opt look ''url'' str_de) (\<lambda>url.
     ebind (opt look ''content'' str_de) (\<lambda>content.
     ebind (opt look ''time'' (f64_de cast)) (\<lambda>time.
     ebind (opt look ''speed'' (f64_de cast)) (\<lambda>speed.
     ebind (opt look ''headers'' str_map_de) (\<lambda>headers.
     Inr \<lparr> p2_container = container, p2_url = url, p2_content = content, p2_time = time,
         p2_speed = speed, p2_headers = headers \<rparr>)))))))"

definition v2_play_message_ok :: "v2_play_message \<Rightarrow> bool" where
  "v2_play_message_ok m \<longleftrightarrow>
     (\<forall>x \<in> set_option (p2_time m). f64_is_finite x) \<and>
     (\<forall>x \<in> set_option (p2_speed m). f64_is_finite x) \<and>
     (\<forall>x \<in> set_option (p2_headers m). sorted_map x)"

interpretation v2_play: json_codec v2_play_message_ser "v2_play_message_de cast" v2_play_message_ok for cast
  by unfold_locales (simp_all add: v2_play_message_ser_def v2_play_message_de_def v2_play_message_ok_def struct_simps codec_simps)

declare v2_play.roundtrip [codec_simps] v2_play.opt_roundtrip [codec_simps]

record v2_playback_update =
  pu2_generation_time :: u64
  pu2_time :: f64
  pu2_duration :: f64
  pu2_speed :: f64
  pu2_state :: wire_playback_state

definition v2_playback_update_ser :: "v2_playback_update \<Rightarrow> json" where
  "v2_playback_update_ser m = obj
     [(''generationTime'', Some (JPosInt (pu2_generation_time m))),
      (''time'', Some (f64_ser (pu2_time m))),
      (''duration'', Some (f64_ser (pu2_duration m))),
      (''speed'', Some (f64_ser (pu2_speed m))),
      (''state'', Some (wire_playback_state_ser (pu2_state m)))]"

definition v2_playback_update_de :: "(int \<Rightarrow> f64) \<Rightarrow> json \<Rightarrow> de_error + v2_playback_update" where
  "v2_playback_update_de cast v =
     ebind (struct_fields [''generationTime'', ''time'', ''duration'', ''speed'', ''state''] v) (\<lambda>look.
     ebind (req look ''generationTime'' u64_de) (\<lambda>generation_time.
     ebind (req look ''time'' (f64_de cast)) (\<lambda>time.
     ebind (req look ''duration'' (f64_de cast)) (\<lambda>duration.
     ebind (req look ''speed'' (f64_de cast)) (\<lambda>speed.
     ebind (req look ''state'' wire_playback_state_de) (\<lambda>state.
     Inr \<lparr> pu2_generation_time = generation_time, pu2_time = time,
         pu2_duration = duration, pu2_speed = speed, pu2_state = state \<rparr>))))))"

definition v2_playback_update_ok :: "v2_playback_update \<Rightarrow> bool" where
  "v2_playback_update_ok m \<longleftrightarrow>
     f64_is_finite (pu2_time m) \<and>
     f64_is_finite (pu2_duration m) \<and>
     f64_is_finite (pu2_speed m)"

interpretation v2_update: json_codec v2_playback_update_ser "v2_playback_update_de cast" v2_playback_update_ok for cast
  by unfold_locales (simp_all add: v2_playback_update_ser_def v2_playback_update_de_def v2_playback_update_ok_def struct_simps codec_simps)

declare v2_update.roundtrip [codec_simps] v2_update.opt_roundtrip [codec_simps]

record v2_volume_update =
  vu2_generation_time :: u64
  vu2_volume :: f64

definition v2_volume_update_ser :: "v2_volume_update \<Rightarrow> json" where
  "v2_volume_update_ser m = obj
     [(''generationTime'', Some (JPosInt (vu2_generation_time m))),
      (''volume'', Some (f64_ser (vu2_volume m)))]"

definition v2_volume_update_de :: "(int \<Rightarrow> f64) \<Rightarrow> json \<Rightarrow> de_error + v2_volume_update" where
  "v2_volume_update_de cast v =
     ebind (struct_fields [''generationTime'', ''volume''] v) (\<lambda>look.
     ebind (req look ''generationTime'' u64_de) (\<lambda>generation_time.
     ebind (req look ''volume'' (f64_de cast)) (\<lambda>volume.
     Inr \<lparr> vu2_generation_time = generation_time, vu2_volume = volume \<rparr>)))"

definition v2_volume_update_ok :: "v2_volume_update \<Rightarrow> bool" where
  "v2_volume_update_ok m \<longleftrightarrow>
     f64_is_finite (vu2_volume m)"

interpretation v2_volume: json_codec v2_volume_update_ser "v2_volume_update_de cast" v2_volume_update_ok for cast
  by unfold_locales (simp_all add: v2_volume_update_ser_def v2_volume_update_de_def v2_volume_update_ok_def struct_simps codec_simps)

declare v2_volume.roundtrip [codec_simps] v2_volume.opt_roundtrip [codec_simps]

section \<open>Connection URLs\<close>

text \<open>
  \<open>parse_url\<close> and \<open>to_url\<close>. Base64 and the JSON text are third-party code and parameters: \<open>encode\<close>
  and \<open>decode\<close> (URL-safe alphabet), \<open>print\<close> and \<open>parse\<close> (\<open>serde_json\<close> between text and value).
\<close>

definition strip_prefix :: "string \<Rightarrow> string \<Rightarrow> string option" where
  "strip_prefix p s = (if take (length p) s = p then Some (drop (length p) s) else None)"

definition url_prefix :: string where
  "url_prefix = ''fcast://r/''"

definition to_url :: "(json \<Rightarrow> bytes) \<Rightarrow> (bytes \<Rightarrow> string) \<Rightarrow> network_config \<Rightarrow> string" where
  "to_url print encode c = url_prefix @ encode (print (network_config_ser c))"

definition parse_url ::
  "(bytes \<Rightarrow> json option) \<Rightarrow> (string \<Rightarrow> bytes option) \<Rightarrow> string \<Rightarrow> network_config option" where
  "parse_url parse decode url =
     (case strip_prefix url_prefix url of
        None \<Rightarrow> None
      | Some info \<Rightarrow>
          (case decode info of
             None \<Rightarrow> None
           | Some text \<Rightarrow>
               (case parse text of
                  None \<Rightarrow> None
                | Some v \<Rightarrow> (case network_config_de v of Inl _ \<Rightarrow> None | Inr c \<Rightarrow> Some c))))"

lemma byte_as_char [simp]: "word_of_nat (unat (b :: u8) mod 256) = b"
  using unsigned_less [of b, where 'a = nat] by simp

lemma strip_prefix_append [simp]: "strip_prefix p (p @ s) = Some s"
  by (simp add: strip_prefix_def)

lemma strip_prefix_Some_iff: "strip_prefix p s = Some r \<longleftrightarrow> s = p @ r"
  by (auto simp: strip_prefix_def) (metis append_take_drop_id)

text \<open>
  A sender that scans the URL printed for a network configuration gets that configuration
  back, and no URL without the \<open>fcast://r/\<close> prefix is accepted. The two hypotheses say that base64
  decodes what it encoded and that \<open>serde_json\<close> reads back the text of the configuration's value.
\<close>

theorem network_config_url_roundtrip:
  assumes "network_config_ok c"
    and "\<forall>bs. decode (encode bs) = Some bs"
    and "parse (print (network_config_ser c)) = Some (network_config_ser c)"
  shows "parse_url parse decode (to_url print encode c) = Some c \<and>
     (\<forall>url. parse_url parse decode url \<noteq> None \<longrightarrow> take 10 url = ''fcast://r/'')"
  using assms network_config.roundtrip [OF assms(1)]
  by (auto simp: parse_url_def to_url_def strip_prefix_Some_iff url_prefix_def split: option.splits)

definition sample_config :: network_config where
  "sample_config = \<lparr> nc_name = ''tv'', nc_addresses = [''10.0.0.2''],
     nc_services = [\<lparr> svc_port = 46899, svc_kind = 0 \<rparr>], nc_txt = None \<rparr>"

lemma network_config_url_roundtrip_witness:
  "parse_url (\<lambda>_. Some (network_config_ser sample_config))
      (\<lambda>s. Some (map (\<lambda>c. word_of_nat (of_char c)) s))
      (to_url (\<lambda>_. [1, 2]) (map (\<lambda>b. char_of (unat b))) sample_config) = Some sample_config"
proof -
  have ok: "network_config_ok sample_config"
    by (simp add: sample_config_def network_config_ok_def fcast_service_ok_def in_srange_def)
  have b64: "\<forall>bs :: bytes. Some (map (\<lambda>c. word_of_nat (of_char c)) (map (\<lambda>b. char_of (unat b)) bs)) = Some bs"
    by (simp add: comp_def)
  from network_config_url_roundtrip [OF ok b64, where parse = "\<lambda>_. Some (network_config_ser sample_config)"
      and print = "\<lambda>_. [1, 2]"] show ?thesis by simp
qed

end
