(* ===== verification/V3_Messages.thy ===== *)
theory V3_Messages
  imports Legacy_Messages
begin

text \<open>
  The JSON bodies of protocol version 3 (\<open>fcast-protocol/src/v3.rs\<close>). The hand-written codecs of
  \<open>MetadataObject\<close>, \<open>EventSubscribeObject\<close> and \<open>EventObject\<close> are translated line by line, errors
  included; the derived ones follow the scheme of \<open>Legacy_Messages\<close>.
\<close>

section \<open>Reading a tagged object\<close>

text \<open>
  The three hand-written deserialisers start the same way: the value must be an object, its
  \<open>type\<close> is removed and must be an unsigned integer, the rest is kept.
\<close>

definition take_type :: "json \<Rightarrow> de_error + u64 \<times> (string \<times> json) list" where
  "take_type v =
     (case v of
        JObj m \<Rightarrow>
          ebind (ok_or (map_of m ''type'') (MissingField ''type'')) (\<lambda>t.
          ebind (ok_or (as_u64 t) (Custom ''`type` is not an integer'')) (\<lambda>n.
          Inr (n, map_remove ''type'' m)))
      | _ \<Rightarrow> Inl Derived)"

text \<open>\<open>get_from_map!\<close>.\<close>

definition get_from_map :: "(string \<times> json) list \<Rightarrow> string \<Rightarrow> de_error + json" where
  "get_from_map m k = ok_or (map_of m k) (MissingField k)"

definition unknown_type :: "string \<Rightarrow> u64 \<Rightarrow> de_error" where
  "unknown_type what n = Custom (''Unknown '' @ what @ '' type '' @ dec (unat n))"

lemma take_type_Inr:
  "take_type v = Inr (n, rest) \<longleftrightarrow>
   (\<exists>m. v = JObj m \<and> map_of m ''type'' = Some (JPosInt n) \<and> rest = map_remove ''type'' m)"
  by (auto simp: take_type_def ok_or_def ebind_def split: json.splits option.splits elim: as_u64.elims)

lemma take_type_obj [simp]:
  "map_of m ''type'' = Some (JPosInt n) \<Longrightarrow> take_type (JObj m) = Inr (n, map_remove ''type'' m)"
  by (simp add: take_type_def)

section \<open>Metadata\<close>

datatype metadata_object =
  Generic (md_title: "string option") (md_thumbnail_url: "string option") (md_custom: "json option")

fun metadata_object_ser :: "metadata_object \<Rightarrow> json" where
  "metadata_object_ser (Generic title thumbnail_url custom) =
     (let m = map_insert ''type'' (JPosInt 0) [];
          m = map_insert ''title'' (case title of Some t \<Rightarrow> JStr t | None \<Rightarrow> JNull) m;
          m = map_insert ''thumbnailUrl'' (case thumbnail_url of Some t \<Rightarrow> JStr t | None \<Rightarrow> JNull) m;
          m = (case custom of Some c \<Rightarrow> map_insert ''custom'' c m | None \<Rightarrow> m)
      in JObj m)"

definition opt_string_field :: "(string \<times> json) list \<Rightarrow> string \<Rightarrow> string \<Rightarrow> de_error + string option" where
  "opt_string_field m k msg =
     (case map_of m k of
        None \<Rightarrow> Inr None
      | Some JNull \<Rightarrow> Inr None
      | Some t \<Rightarrow> ebind (ok_or (as_str t) (Custom msg)) (\<lambda>s. Inr (Some s)))"

definition metadata_object_de :: "json \<Rightarrow> de_error + metadata_object" where
  "metadata_object_de v =
     ebind (take_type v) (\<lambda>(ty, rest).
     if ty = 0 then
       ebind (opt_string_field rest ''title'' ''`title` is not a string'') (\<lambda>title.
       ebind (opt_string_field rest ''thumbnailUrl'' ''`thumbnailUrl` is not a string'') (\<lambda>thumbnail_url.
       Inr (Generic title thumbnail_url (map_of rest ''custom''))))
     else Inl (unknown_type ''metadata'' ty))"

interpretation metadata: json_codec metadata_object_ser metadata_object_de "\<lambda>_. True"
proof (unfold_locales, goal_cases)
  case (1 x)
  show ?case
    by (cases x) (auto simp: metadata_object_de_def opt_string_field_def Let_def split: option.splits)
next
  case (2 x)
  show ?case by (cases x) (simp add: Let_def)
qed

declare metadata.roundtrip [codec_simps] metadata.opt_roundtrip [codec_simps]

section \<open>Media\<close>

datatype content_type = Playlist

definition content_type_ser :: "content_type \<Rightarrow> json" where
  "content_type_ser c = JPosInt 0"

definition content_type_de :: "json \<Rightarrow> de_error + content_type" where
  "content_type_de v = (case v of JPosInt n \<Rightarrow> if n = 0 then Inr Playlist else Inl Derived | _ \<Rightarrow> Inl Derived)"

interpretation content_type: json_codec content_type_ser content_type_de "\<lambda>_. True"
proof (unfold_locales, goal_cases)
  case (1 c)
  show ?case by (cases c) (simp add: content_type_ser_def content_type_de_def)
qed (simp add: content_type_ser_def)

declare content_type.roundtrip [codec_simps]

record play_message =
  pm_container :: string
  pm_url :: "string option"
  pm_content :: "string option"
  pm_time :: "f64 option"
  pm_volume :: "f64 option"
  pm_speed :: "f64 option"
  pm_headers :: "((string \<times> string) list) option"
  pm_metadata :: "metadata_object option"

definition play_message_ser :: "play_message \<Rightarrow> json" where
  "play_message_ser m = obj
     [(''container'', Some (JStr (pm_container m))),
      (''url'', map_option JStr (pm_url m)),
      (''content'', map_option JStr (pm_content m)),
      (''time'', map_option f64_ser (pm_time m)),
      (''volume'', map_option f64_ser (pm_volume m)),
      (''speed'', map_option f64_ser (pm_speed m)),
      (''headers'', map_option str_map_ser (pm_headers m)),
      (''metadata'', map_option metadata_object_ser (pm_metadata m))]"

definition play_message_de :: "(int \<Rightarrow> f64) \<Rightarrow> json \<Rightarrow> de_error + play_message" where
  "play_message_de cast v =
     ebind (struct_fields [''container'', ''url'', ''content'', ''time'', ''volume'', ''speed'',
         ''headers'', ''metadata''] v) (\<lambda>look.
     ebind (req look ''container'' str_de) (\<lambda>container.
     ebind (opt look ''url'' str_de) (\<lambda>url.
     ebind (opt look ''content'' str_de) (\<lambda>content.
     ebind (opt look ''time'' (f64_de cast)) (\<lambda>time.
     ebind (opt look ''volume'' (f64_de cast)) (\<lambda>volume.
     ebind (opt look ''speed'' (f64_de cast)) (\<lambda>speed.
     ebind (opt look ''headers'' str_map_de) (\<lambda>headers.
     ebind (opt look ''metadata'' metadata_object_de) (\<lambda>metadata.
     Inr \<lparr> pm_container = container, pm_url = url, pm_content = content, pm_time = time,
         pm_volume = volume, pm_speed = speed, pm_headers = headers,
         pm_metadata = metadata \<rparr>)))))))))"

definition play_message_ok :: "play_message \<Rightarrow> bool" where
  "play_message_ok m \<longleftrightarrow>
     (\<forall>x \<in> set_option (pm_time m). f64_is_finite x) \<and>
     (\<forall>x \<in> set_option (pm_volume m). f64_is_finite x) \<and>
     (\<forall>x \<in> set_option (pm_speed m). f64_is_finite x) \<and>
     (\<forall>x \<in> set_option (pm_headers m). sorted_map x)"

interpretation play: json_codec play_message_ser "play_message_de cast" play_message_ok for cast
  by unfold_locales (simp_all add: play_message_ser_def play_message_de_def play_message_ok_def struct_simps codec_simps)

declare play.roundtrip [codec_simps] play.opt_roundtrip [codec_simps]

record media_item =
  mi_container :: string
  mi_url :: "string option"
  mi_content :: "string option"
  mi_time :: "f64 option"
  mi_volume :: "f64 option"
  mi_speed :: "f64 option"
  mi_cache :: "bool option"
  mi_show_duration :: "f64 option"
  mi_headers :: "((string \<times> string) list) option"
  mi_metadata :: "metadata_object option"

definition media_item_ser :: "media_item \<Rightarrow> json" where
  "media_item_ser m = obj
     [(''container'', Some (JStr (mi_container m))),
      (''url'', map_option JStr (mi_url m)),
      (''content'', map_option JStr (mi_content m)),
      (''time'', map_option f64_ser (mi_time m)),
      (''volume'', map_option f64_ser (mi_volume m)),
      (''speed'', map_option f64_ser (mi_speed m)),
      (''cache'', map_option JBool (mi_cache m)),
      (''showDuration'', map_option f64_ser (mi_show_duration m)),
      (''headers'', map_option str_map_ser (mi_headers m)),
      (''metadata'', map_option metadata_object_ser (mi_metadata m))]"

definition media_item_de :: "(int \<Rightarrow> f64) \<Rightarrow> json \<Rightarrow> de_error + media_item" where
  "media_item_de cast v =
     ebind (struct_fields [''container'', ''url'', ''content'', ''time'', ''volume'', ''speed'',
         ''cache'', ''showDuration'', ''headers'', ''metadata''] v) (\<lambda>look.
     ebind (req look ''container'' str_de) (\<lambda>container.
     ebind (opt look ''url'' str_de) (\<lambda>url.
     ebind (opt look ''content'' str_de) (\<lambda>content.
     ebind (opt look ''time'' (f64_de cast)) (\<lambda>time.
     ebind (opt look ''volume'' (f64_de cast)) (\<lambda>volume.
     ebind (opt look ''speed'' (f64_de cast)) (\<lambda>speed.
     ebind (opt look ''cache'' bool_de) (\<lambda>cache.
     ebind (opt look ''showDuration'' (f64_de cast)) (\<lambda>show_duration.
     ebind (opt look ''headers'' str_map_de) (\<lambda>headers.
     ebind (opt look ''metadata'' metadata_object_de) (\<lambda>metadata.
     Inr \<lparr> mi_container = container, mi_url = url, mi_content = content, mi_time = time,
         mi_volume = volume, mi_speed = speed, mi_cache = cache,
         mi_show_duration = show_duration, mi_headers = headers, mi_metadata = metadata \<rparr>)))))))))))"

definition media_item_ok :: "media_item \<Rightarrow> bool" where
  "media_item_ok m \<longleftrightarrow>
     (\<forall>x \<in> set_option (mi_time m). f64_is_finite x) \<and>
     (\<forall>x \<in> set_option (mi_volume m). f64_is_finite x) \<and>
     (\<forall>x \<in> set_option (mi_speed m). f64_is_finite x) \<and>
     (\<forall>x \<in> set_option (mi_show_duration m). f64_is_finite x) \<and>
     (\<forall>x \<in> set_option (mi_headers m). sorted_map x)"

interpretation media_item: json_codec media_item_ser "media_item_de cast" media_item_ok for cast
  by unfold_locales (simp_all add: media_item_ser_def media_item_de_def media_item_ok_def struct_simps codec_simps)

declare media_item.roundtrip [codec_simps] media_item.opt_roundtrip [codec_simps]
  vec_roundtrip [OF media_item.json_codec_axioms, codec_simps]

text \<open>\<open>impl From<PlayMessage> for MediaItem\<close>.\<close>

definition media_item_from :: "play_message \<Rightarrow> media_item" where
  "media_item_from msg =
     \<lparr> mi_container = pm_container msg, mi_url = pm_url msg, mi_content = pm_content msg,
       mi_time = pm_time msg, mi_volume = pm_volume msg, mi_speed = pm_speed msg,
       mi_cache = None, mi_show_duration = None,
       mi_headers = pm_headers msg, mi_metadata = pm_metadata msg \<rparr>"

record playlist_content =
  pl_variant :: content_type
  pl_items :: "media_item list"
  pl_offset :: "u64 option"
  pl_volume :: "f64 option"
  pl_speed :: "f64 option"
  pl_forward_cache :: "u64 option"
  pl_backward_cache :: "u64 option"
  pl_metadata :: "metadata_object option"

definition playlist_content_ser :: "playlist_content \<Rightarrow> json" where
  "playlist_content_ser m = obj
     [(''contentType'', Some (content_type_ser (pl_variant m))),
      (''items'', Some (vec_ser media_item_ser (pl_items m))),
      (''offset'', map_option JPosInt (pl_offset m)),
      (''volume'', map_option f64_ser (pl_volume m)),
      (''speed'', map_option f64_ser (pl_speed m)),
      (''forwardCache'', map_option JPosInt (pl_forward_cache m)),
      (''backwardCache'', map_option JPosInt (pl_backward_cache m)),
      (''metadata'', map_option metadata_object_ser (pl_metadata m))]"

definition playlist_content_de :: "(int \<Rightarrow> f64) \<Rightarrow> json \<Rightarrow> de_error + playlist_content" where
  "playlist_content_de cast v =
     ebind (struct_fields [''contentType'', ''items'', ''offset'', ''volume'', ''speed'',
         ''forwardCache'', ''backwardCache'', ''metadata''] v) (\<lambda>look.
     ebind (req look ''contentType'' content_type_de) (\<lambda>variant.
     ebind (req look ''items'' (vec_de (media_item_de cast))) (\<lambda>items.
     ebind (opt look ''offset'' u64_de) (\<lambda>offset.
     ebind (opt look ''volume'' (f64_de cast)) (\<lambda>volume.
     ebind (opt look ''speed'' (f64_de cast)) (\<lambda>speed.
     ebind (opt look ''forwardCache'' u64_de) (\<lambda>forward_cache.
     ebind (opt look ''backwardCache'' u64_de) (\<lambda>backward_cache.
     ebind (opt look ''metadata'' metadata_object_de) (\<lambda>metadata.
     Inr \<lparr> pl_variant = variant, pl_items = items, pl_offset = offset, pl_volume = volume,
         pl_speed = speed, pl_forward_cache = forward_cache,
         pl_backward_cache = backward_cache, pl_metadata = metadata \<rparr>)))))))))"

definition playlist_content_ok :: "playlist_content \<Rightarrow> bool" where
  "playlist_content_ok m \<longleftrightarrow>
     (\<forall>x \<in> set (pl_items m). media_item_ok x) \<and>
     (\<forall>x \<in> set_option (pl_volume m). f64_is_finite x) \<and>
     (\<forall>x \<in> set_option (pl_speed m). f64_is_finite x)"

interpretation playlist: json_codec playlist_content_ser "playlist_content_de cast" playlist_content_ok for cast
  by unfold_locales (simp_all add: playlist_content_ser_def playlist_content_de_def playlist_content_ok_def struct_simps codec_simps)

declare playlist.roundtrip [codec_simps] playlist.opt_roundtrip [codec_simps]

section \<open>Updates, handshake, capabilities\<close>

record playback_update =
  pu_generation_time :: u64
  pu_state :: wire_playback_state
  pu_time :: "f64 option"
  pu_duration :: "f64 option"
  pu_speed :: "f64 option"
  pu_item_index :: "u64 option"

definition playback_update_ser :: "playback_update \<Rightarrow> json" where
  "playback_update_ser m = obj
     [(''generationTime'', Some (JPosInt (pu_generation_time m))),
      (''state'', Some (wire_playback_state_ser (pu_state m))),
      (''time'', map_option f64_ser (pu_time m)),
      (''duration'', map_option f64_ser (pu_duration m)),
      (''speed'', map_option f64_ser (pu_speed m)),
      (''itemIndex'', map_option JPosInt (pu_item_index m))]"

definition playback_update_de :: "(int \<Rightarrow> f64) \<Rightarrow> json \<Rightarrow> de_error + playback_update" where
  "playback_update_de cast v =
     ebind (struct_fields [''generationTime'', ''state'', ''time'', ''duration'', ''speed'',
         ''itemIndex''] v) (\<lambda>look.
     ebind (req look ''generationTime'' u64_de) (\<lambda>generation_time.
     ebind (req look ''state'' wire_playback_state_de) (\<lambda>state.
     ebind (opt look ''time'' (f64_de cast)) (\<lambda>time.
     ebind (opt look ''duration'' (f64_de cast)) (\<lambda>duration.
     ebind (opt look ''speed'' (f64_de cast)) (\<lambda>speed.
     ebind (opt look ''itemIndex'' u64_de) (\<lambda>item_index.
     Inr \<lparr> pu_generation_time = generation_time, pu_state = state, pu_time = time,
         pu_duration = duration, pu_speed = speed, pu_item_index = item_index \<rparr>)))))))"

definition playback_update_ok :: "playback_update \<Rightarrow> bool" where
  "playback_update_ok m \<longleftrightarrow>
     (\<forall>x \<in> set_option (pu_time m). f64_is_finite x) \<and>
     (\<forall>x \<in> set_option (pu_duration m). f64_is_finite x) \<and>
     (\<forall>x \<in> set_option (pu_speed m). f64_is_finite x)"

interpretation playback_update: json_codec playback_update_ser "playback_update_de cast" playback_update_ok for cast
  by unfold_locales (simp_all add: playback_update_ser_def playback_update_de_def playback_update_ok_def struct_simps codec_simps)

declare playback_update.roundtrip [codec_simps] playback_update.opt_roundtrip [codec_simps]

record initial_sender =
  isn_display_name :: "string option"
  isn_app_name :: "string option"
  isn_app_version :: "string option"

definition initial_sender_ser :: "initial_sender \<Rightarrow> json" where
  "initial_sender_ser m = obj
     [(''displayName'', map_option JStr (isn_display_name m)),
      (''appName'', map_option JStr (isn_app_name m)),
      (''appVersion'', map_option JStr (isn_app_version m))]"

definition initial_sender_de :: "json \<Rightarrow> de_error + initial_sender" where
  "initial_sender_de v =
     ebind (struct_fields [''displayName'', ''appName'', ''appVersion''] v) (\<lambda>look.
     ebind (opt look ''displayName'' str_de) (\<lambda>display_name.
     ebind (opt look ''appName'' str_de) (\<lambda>app_name.
     ebind (opt look ''appVersion'' str_de) (\<lambda>app_version.
     Inr \<lparr> isn_display_name = display_name, isn_app_name = app_name,
         isn_app_version = app_version \<rparr>))))"

interpretation initial_sender: json_codec initial_sender_ser initial_sender_de "\<lambda>_. True"
  by unfold_locales (simp_all add: initial_sender_ser_def initial_sender_de_def struct_simps codec_simps)

declare initial_sender.roundtrip [codec_simps] initial_sender.opt_roundtrip [codec_simps]

record livestream_capabilities =
  lc_whep :: "bool option"

definition livestream_capabilities_ser :: "livestream_capabilities \<Rightarrow> json" where
  "livestream_capabilities_ser m = obj
     [(''whep'', map_option JBool (lc_whep m))]"

definition livestream_capabilities_de :: "json \<Rightarrow> de_error + livestream_capabilities" where
  "livestream_capabilities_de v =
     ebind (struct_fields [''whep''] v) (\<lambda>look.
     ebind (opt look ''whep'' bool_de) (\<lambda>whep.
     Inr \<lparr> lc_whep = whep \<rparr>))"

interpretation livestream: json_codec livestream_capabilities_ser livestream_capabilities_de "\<lambda>_. True"
  by unfold_locales (simp_all add: livestream_capabilities_ser_def livestream_capabilities_de_def struct_simps codec_simps)

declare livestream.roundtrip [codec_simps] livestream.opt_roundtrip [codec_simps]

record av_capabilities =
  av_livestream :: "livestream_capabilities option"

definition av_capabilities_ser :: "av_capabilities \<Rightarrow> json" where
  "av_capabilities_ser m = obj
     [(''livestream'', map_option livestream_capabilities_ser (av_livestream m))]"

definition av_capabilities_de :: "json \<Rightarrow> de_error + av_capabilities" where
  "av_capabilities_de v =
     ebind (struct_fields [''livestream''] v) (\<lambda>look.
     ebind (opt look ''livestream'' livestream_capabilities_de) (\<lambda>livestream.
     Inr \<lparr> av_livestream = livestream \<rparr>))"

interpretation av_caps: json_codec av_capabilities_ser av_capabilities_de "\<lambda>_. True"
  by unfold_locales (simp_all add: av_capabilities_ser_def av_capabilities_de_def struct_simps codec_simps)

declare av_caps.roundtrip [codec_simps] av_caps.opt_roundtrip [codec_simps]

record receiver_capabilities =
  rc_av :: "av_capabilities option"

definition receiver_capabilities_ser :: "receiver_capabilities \<Rightarrow> json" where
  "receiver_capabilities_ser m = obj
     [(''av'', map_option av_capabilities_ser (rc_av m))]"

definition receiver_capabilities_de :: "json \<Rightarrow> de_error + receiver_capabilities" where
  "receiver_capabilities_de v =
     ebind (struct_fields [''av''] v) (\<lambda>look.
     ebind (opt look ''av'' av_capabilities_de) (\<lambda>av.
     Inr \<lparr> rc_av = av \<rparr>))"

interpretation receiver_caps: json_codec receiver_capabilities_ser receiver_capabilities_de "\<lambda>_. True"
  by unfold_locales (simp_all add: receiver_capabilities_ser_def receiver_capabilities_de_def struct_simps codec_simps)

declare receiver_caps.roundtrip [codec_simps] receiver_caps.opt_roundtrip [codec_simps]

record initial_receiver =
  ir_display_name :: "string option"
  ir_app_name :: "string option"
  ir_app_version :: "string option"
  ir_play_data :: "play_message option"
  ir_experimental_capabilities :: "receiver_capabilities option"

definition initial_receiver_ser :: "initial_receiver \<Rightarrow> json" where
  "initial_receiver_ser m = obj
     [(''displayName'', map_option JStr (ir_display_name m)),
      (''appName'', map_option JStr (ir_app_name m)),
      (''appVersion'', map_option JStr (ir_app_version m)),
      (''playData'', map_option play_message_ser (ir_play_data m)),
      (''experimentalCapabilities'', map_option receiver_capabilities_ser (ir_experimental_capabilities m))]"

definition initial_receiver_de :: "(int \<Rightarrow> f64) \<Rightarrow> json \<Rightarrow> de_error + initial_receiver" where
  "initial_receiver_de cast v =
     ebind (struct_fields [''displayName'', ''appName'', ''appVersion'', ''playData'',
         ''experimentalCapabilities''] v) (\<lambda>look.
     ebind (opt look ''displayName'' str_de) (\<lambda>display_name.
     ebind (opt look ''appName'' str_de) (\<lambda>app_name.
     ebind (opt look ''appVersion'' str_de) (\<lambda>app_version.
     ebind (opt look ''playData'' (play_message_de cast)) (\<lambda>play_data.
     ebind (opt look ''experimentalCapabilities'' receiver_capabilities_de) (\<lambda>experimental_capabilities.
     Inr \<lparr> ir_display_name = display_name, ir_app_name = app_name,
         ir_app_version = app_version, ir_play_data = play_data,
         ir_experimental_capabilities = experimental_capabilities \<rparr>))))))"

definition initial_receiver_ok :: "initial_receiver \<Rightarrow> bool" where
  "initial_receiver_ok m \<longleftrightarrow>
     (\<forall>x \<in> set_option (ir_play_data m). play_message_ok x)"

interpretation initial_receiver: json_codec initial_receiver_ser "initial_receiver_de cast" initial_receiver_ok for cast
  by unfold_locales (simp_all add: initial_receiver_ser_def initial_receiver_de_def initial_receiver_ok_def struct_simps codec_simps)

declare initial_receiver.roundtrip [codec_simps] initial_receiver.opt_roundtrip [codec_simps]

record play_update =
  pud_generation_time :: "u64 option"
  pud_play_data :: "play_message option"

definition play_update_ser :: "play_update \<Rightarrow> json" where
  "play_update_ser m = obj
     [(''generationTime'', map_option JPosInt (pud_generation_time m)),
      (''playData'', map_option play_message_ser (pud_play_data m))]"

definition play_update_de :: "(int \<Rightarrow> f64) \<Rightarrow> json \<Rightarrow> de_error + play_update" where
  "play_update_de cast v =
     ebind (struct_fields [''generationTime'', ''playData''] v) (\<lambda>look.
     ebind (opt look ''generationTime'' u64_de) (\<lambda>generation_time.
     ebind (opt look ''playData'' (play_message_de cast)) (\<lambda>play_data.
     Inr \<lparr> pud_generation_time = generation_time, pud_play_data = play_data \<rparr>)))"

definition play_update_ok :: "play_update \<Rightarrow> bool" where
  "play_update_ok m \<longleftrightarrow>
     (\<forall>x \<in> set_option (pud_play_data m). play_message_ok x)"

interpretation play_update: json_codec play_update_ser "play_update_de cast" play_update_ok for cast
  by unfold_locales (simp_all add: play_update_ser_def play_update_de_def play_update_ok_def struct_simps codec_simps)

declare play_update.roundtrip [codec_simps] play_update.opt_roundtrip [codec_simps]

record set_playlist_item =
  spi_item_index :: u64

definition set_playlist_item_ser :: "set_playlist_item \<Rightarrow> json" where
  "set_playlist_item_ser m = obj
     [(''itemIndex'', Some (JPosInt (spi_item_index m)))]"

definition set_playlist_item_de :: "json \<Rightarrow> de_error + set_playlist_item" where
  "set_playlist_item_de v =
     ebind (struct_fields [''itemIndex''] v) (\<lambda>look.
     ebind (req look ''itemIndex'' u64_de) (\<lambda>item_index.
     Inr \<lparr> spi_item_index = item_index \<rparr>))"

interpretation set_item: json_codec set_playlist_item_ser set_playlist_item_de "\<lambda>_. True"
  by unfold_locales (simp_all add: set_playlist_item_ser_def set_playlist_item_de_def struct_simps codec_simps)

declare set_item.roundtrip [codec_simps] set_item.opt_roundtrip [codec_simps]

section \<open>Event subscriptions\<close>

datatype key_names = ArrowLeft | ArrowRight | ArrowUp | ArrowDown | Enter

fun key_name :: "key_names \<Rightarrow> string" where
  "key_name ArrowLeft = ''ArrowLeft''"
| "key_name ArrowRight = ''ArrowRight''"
| "key_name ArrowUp = ''ArrowUp''"
| "key_name ArrowDown = ''ArrowDown''"
| "key_name Enter = ''Enter''"

definition key_names_all :: "string list" where
  "key_names_all = map key_name [ArrowLeft, ArrowRight, ArrowUp, ArrowDown, Enter]"

datatype event_subscribe =
    SubMediaItemStart
  | SubMediaItemEnd
  | SubMediaItemChanged
  | SubKeyDown "string list"
  | SubKeyUp "string list"

fun event_subscribe_type :: "event_subscribe \<Rightarrow> u64" where
  "event_subscribe_type SubMediaItemStart = 0"
| "event_subscribe_type SubMediaItemEnd = 1"
| "event_subscribe_type SubMediaItemChanged = 2"
| "event_subscribe_type (SubKeyDown keys) = 3"
| "event_subscribe_type (SubKeyUp keys) = 4"

definition event_subscribe_keys :: "event_subscribe \<Rightarrow> string list option" where
  "event_subscribe_keys e =
     (case e of SubKeyDown keys \<Rightarrow> Some keys | SubKeyUp keys \<Rightarrow> Some keys | _ \<Rightarrow> None)"

definition event_subscribe_ser :: "event_subscribe \<Rightarrow> json" where
  "event_subscribe_ser e =
     (let m = map_insert ''type'' (JPosInt (event_subscribe_type e)) [];
          m = (case event_subscribe_keys e of
                 Some keys \<Rightarrow> map_insert ''keys'' (JArr (map JStr keys)) m
               | None \<Rightarrow> m)
      in JObj m)"

definition event_subscribe_de :: "json \<Rightarrow> de_error + event_subscribe" where
  "event_subscribe_de v =
     ebind (take_type v) (\<lambda>(ty, rest).
     if ty = 0 then Inr SubMediaItemStart
     else if ty = 1 then Inr SubMediaItemEnd
     else if ty = 2 then Inr SubMediaItemChanged
     else if ty = 3 \<or> ty = 4 then
       ebind (get_from_map rest ''keys'') (\<lambda>ks.
       ebind (ok_or (as_array ks) (Custom ''`type` is not an array'')) (\<lambda>xs.
       ebind (ok_or (collect_option (map as_str xs)) (Custom ''`type` is not an array of strings'')) (\<lambda>keys.
       if ty = 3 then Inr (SubKeyDown keys) else Inr (SubKeyUp keys))))
     else Inl (unknown_type ''event'' ty))"

interpretation event_subscribe: json_codec event_subscribe_ser event_subscribe_de "\<lambda>_. True"
proof (unfold_locales, goal_cases)
  case (1 e)
  show ?case
    by (cases e)
       (simp_all add: event_subscribe_ser_def event_subscribe_de_def event_subscribe_keys_def
         Let_def get_from_map_def comp_def)
qed (simp add: event_subscribe_ser_def Let_def)

declare event_subscribe.roundtrip [codec_simps]

record subscribe_event =
  se_event :: event_subscribe

definition subscribe_event_ser :: "subscribe_event \<Rightarrow> json" where
  "subscribe_event_ser m = obj
     [(''event'', Some (event_subscribe_ser (se_event m)))]"

definition subscribe_event_de :: "json \<Rightarrow> de_error + subscribe_event" where
  "subscribe_event_de v =
     ebind (struct_fields [''event''] v) (\<lambda>look.
     ebind (req look ''event'' event_subscribe_de) (\<lambda>event.
     Inr \<lparr> se_event = event \<rparr>))"

interpretation subscribe: json_codec subscribe_event_ser subscribe_event_de "\<lambda>_. True"
  by unfold_locales (simp_all add: subscribe_event_ser_def subscribe_event_de_def struct_simps codec_simps)

declare subscribe.roundtrip [codec_simps] subscribe.opt_roundtrip [codec_simps]

record unsubscribe_event =
  ue_event :: event_subscribe

definition unsubscribe_event_ser :: "unsubscribe_event \<Rightarrow> json" where
  "unsubscribe_event_ser m = obj
     [(''event'', Some (event_subscribe_ser (ue_event m)))]"

definition unsubscribe_event_de :: "json \<Rightarrow> de_error + unsubscribe_event" where
  "unsubscribe_event_de v =
     ebind (struct_fields [''event''] v) (\<lambda>look.
     ebind (req look ''event'' event_subscribe_de) (\<lambda>event.
     Inr \<lparr> ue_event = event \<rparr>))"

interpretation unsubscribe: json_codec unsubscribe_event_ser unsubscribe_event_de "\<lambda>_. True"
  by unfold_locales (simp_all add: unsubscribe_event_ser_def unsubscribe_event_de_def struct_simps codec_simps)

declare unsubscribe.roundtrip [codec_simps] unsubscribe.opt_roundtrip [codec_simps]

section \<open>Events\<close>

datatype event_type = MediaItemStart | MediaItemEnd | MediaItemChange | KeyDown | KeyUp

fun event_type_as_u8 :: "event_type \<Rightarrow> u64" where
  "event_type_as_u8 MediaItemStart = 0"
| "event_type_as_u8 MediaItemEnd = 1"
| "event_type_as_u8 MediaItemChange = 2"
| "event_type_as_u8 KeyDown = 3"
| "event_type_as_u8 KeyUp = 4"

datatype event_object =
    EvMediaItem event_type media_item
  | EvKey event_type string bool bool

fun event_object_ser :: "event_object \<Rightarrow> json" where
  "event_object_ser (EvMediaItem variant item) =
     (let m = map_insert ''type'' (JPosInt (event_type_as_u8 variant)) [];
          m = map_insert ''item'' (media_item_ser item) m
      in JObj m)"
| "event_object_ser (EvKey variant key repeat handled) =
     (let m = map_insert ''type'' (JPosInt (event_type_as_u8 variant)) [];
          m = map_insert ''key'' (JStr key) m;
          m = map_insert ''repeat'' (JBool repeat) m;
          m = map_insert ''handled'' (JBool handled) m
      in JObj m)"

text \<open>\<open>map_err(de::Error::custom)\<close> keeps the inner message, which is not modelled for derived code.\<close>

definition event_object_de :: "(int \<Rightarrow> f64) \<Rightarrow> json \<Rightarrow> de_error + event_object" where
  "event_object_de cast v =
     ebind (take_type v) (\<lambda>(ty, rest).
     if ty = 0 \<or> ty = 1 \<or> ty = 2 then
       let variant = (if ty = 0 then MediaItemStart
                      else if ty = 1 then MediaItemEnd else MediaItemChange) in
       ebind (get_from_map rest ''item'') (\<lambda>item.
       ebind (media_item_de cast item) (\<lambda>item. Inr (EvMediaItem variant item)))
     else if ty = 3 \<or> ty = 4 then
       let variant = (if ty = 3 then KeyDown else KeyUp) in
       ebind (get_from_map rest ''key'') (\<lambda>k.
       ebind (ok_or (as_str k) (Custom ''`key` is not a string'')) (\<lambda>key.
       ebind (get_from_map rest ''repeat'') (\<lambda>r.
       ebind (ok_or (as_bool r) (Custom ''`repeat` is not a bool'')) (\<lambda>repeat.
       ebind (get_from_map rest ''handled'') (\<lambda>h.
       ebind (ok_or (as_bool h) (Custom ''`handled` is not a bool'')) (\<lambda>handled.
       Inr (EvKey variant key repeat handled)))))))
     else Inl (unknown_type ''event'' ty))"

text \<open>The two halves of \<open>EventObject\<close> each admit only some event types; the Rust type does not say so.\<close>

fun event_object_matched :: "event_object \<Rightarrow> bool" where
  "event_object_matched (EvMediaItem variant item) \<longleftrightarrow> variant \<in> {MediaItemStart, MediaItemEnd, MediaItemChange}"
| "event_object_matched (EvKey variant key repeat handled) \<longleftrightarrow> variant \<in> {KeyDown, KeyUp}"

fun event_object_item_ok :: "event_object \<Rightarrow> bool" where
  "event_object_item_ok (EvMediaItem variant item) \<longleftrightarrow> media_item_ok item"
| "event_object_item_ok (EvKey variant key repeat handled) \<longleftrightarrow> True"

definition event_object_ok :: "event_object \<Rightarrow> bool" where
  "event_object_ok e \<longleftrightarrow> event_object_matched e \<and> event_object_item_ok e"

interpretation event_object: json_codec event_object_ser "event_object_de cast" event_object_ok for cast
proof (unfold_locales, goal_cases)
  case (1 e)
  then show ?case
    by (cases e)
       (auto simp: event_object_ok_def event_object_de_def Let_def get_from_map_def codec_simps)
next
  case (2 e)
  show ?case by (cases e) (simp_all add: Let_def)
qed

declare event_object.roundtrip [codec_simps]

record event_message =
  em_generation_time :: u64
  em_event :: event_object

definition event_message_ser :: "event_message \<Rightarrow> json" where
  "event_message_ser m = obj
     [(''generationTime'', Some (JPosInt (em_generation_time m))),
      (''event'', Some (event_object_ser (em_event m)))]"

definition event_message_de :: "(int \<Rightarrow> f64) \<Rightarrow> json \<Rightarrow> de_error + event_message" where
  "event_message_de cast v =
     ebind (struct_fields [''generationTime'', ''event''] v) (\<lambda>look.
     ebind (req look ''generationTime'' u64_de) (\<lambda>generation_time.
     ebind (req look ''event'' (event_object_de cast)) (\<lambda>event.
     Inr \<lparr> em_generation_time = generation_time, em_event = event \<rparr>)))"

definition event_message_ok :: "event_message \<Rightarrow> bool" where
  "event_message_ok m \<longleftrightarrow>
     event_object_ok (em_event m)"

interpretation event_msg: json_codec event_message_ser "event_message_de cast" event_message_ok for cast
  by unfold_locales (simp_all add: event_message_ser_def event_message_de_def event_message_ok_def struct_simps codec_simps)

declare event_msg.roundtrip [codec_simps] event_msg.opt_roundtrip [codec_simps]

section \<open>Properties\<close>

text \<open>
  A playlist survives serialisation: every item with its URL, headers, metadata, cache and
  timing fields, and every playlist field comes back, when its floats are finite.
\<close>

theorem playlist_roundtrip:
  assumes "playlist_content_ok p"
  shows "playlist_content_de cast (playlist_content_ser p) = Inr p"
  by (rule playlist.roundtrip [OF assms])

definition sample_item :: media_item where
  "sample_item =
     \<lparr> mi_container = ''video/mp4'', mi_url = Some ''http://a/b'', mi_content = None, mi_time = Some 0,
       mi_volume = None, mi_speed = Some 0x3FF0000000000000, mi_cache = Some True,
       mi_show_duration = None, mi_headers = Some [(''A'', ''1''), (''B'', ''2'')],
       mi_metadata = Some (Generic (Some ''t'') None (Some JNull)) \<rparr>"

lemma sample_item_ok: "media_item_ok sample_item"
  by (simp add: media_item_ok_def sample_item_def f64_is_finite_def sorted_map_def)

definition sample_playlist :: playlist_content where
  "sample_playlist =
     \<lparr> pl_variant = Playlist, pl_items = [sample_item, sample_item], pl_offset = Some 1,
       pl_volume = Some 0, pl_speed = None, pl_forward_cache = Some 2, pl_backward_cache = None,
       pl_metadata = None \<rparr>"

lemma playlist_roundtrip_witness:
  "playlist_content_de sample_cast (playlist_content_ser sample_playlist) = Inr sample_playlist"
proof -
  have "playlist_content_ok sample_playlist"
    using sample_item_ok by (simp add: playlist_content_ok_def sample_playlist_def f64_is_finite_def)
  then show ?thesis by (rule playlist_roundtrip)
qed

text \<open>
  An event survives serialisation exactly when its event type belongs to its half of the
  enum. The Rust type admits the other combinations; a peer rejects them with a missing field.
\<close>

theorem event_object_roundtrip_iff:
  assumes "event_object_item_ok e"
  shows "event_object_de cast (event_object_ser e) =
      (if event_object_matched e then Inr e
       else Inl (MissingField (case e of EvMediaItem _ _ \<Rightarrow> ''key'' | EvKey _ _ _ _ \<Rightarrow> ''item'')))"
proof (cases "event_object_matched e")
  case True
  with assms show ?thesis by (simp add: event_object.roundtrip event_object_ok_def)
next
  case False
  then show ?thesis
  proof (cases e)
    case (EvMediaItem t i)
    with False show ?thesis
      by (cases t) (simp_all add: event_object_de_def Let_def get_from_map_def)
  next
    case (EvKey t k r h)
    with False show ?thesis
      by (cases t) (simp_all add: event_object_de_def Let_def get_from_map_def)
  qed
qed

lemma event_object_roundtrip_iff_witness:
  "event_object_de sample_cast (event_object_ser (EvMediaItem MediaItemEnd sample_item)) =
     Inr (EvMediaItem MediaItemEnd sample_item) \<and>
   event_object_de sample_cast (event_object_ser (EvMediaItem KeyUp sample_item)) =
     Inl (MissingField ''key'')"
  using event_object_roundtrip_iff [of "EvMediaItem MediaItemEnd sample_item" sample_cast]
    event_object_roundtrip_iff [of "EvMediaItem KeyUp sample_item" sample_cast]
  by (simp add: sample_item_ok)

text \<open>
  Which values are accepted as an event subscription, and as which one: an object whose
  \<open>type\<close> is the subscription's number and, for the key events, whose \<open>keys\<close> is an array of exactly
  those strings. Other fields are ignored; nothing else is accepted.
\<close>

theorem event_subscribe_accepts_iff:
  "event_subscribe_de v = Inr e \<longleftrightarrow>
   (\<exists>m. v = JObj m \<and> map_of m ''type'' = Some (JPosInt (event_subscribe_type e)) \<and>
        (case event_subscribe_keys e of
           None \<Rightarrow> True
         | Some keys \<Rightarrow> map_of m ''keys'' = Some (JArr (map JStr keys))))"
proof
  assume "event_subscribe_de v = Inr e"
  then show "\<exists>m. v = JObj m \<and> map_of m ''type'' = Some (JPosInt (event_subscribe_type e)) \<and>
      (case event_subscribe_keys e of None \<Rightarrow> True
       | Some keys \<Rightarrow> map_of m ''keys'' = Some (JArr (map JStr keys)))"
    by (auto simp: event_subscribe_de_def ebind_Inr_iff take_type_Inr get_from_map_def
        ok_or_Inr_iff as_array_Some_iff collect_option_Some_iff map_as_str_Some_iff
        event_subscribe_keys_def split: if_splits)
next
  assume "\<exists>m. v = JObj m \<and> map_of m ''type'' = Some (JPosInt (event_subscribe_type e)) \<and>
      (case event_subscribe_keys e of None \<Rightarrow> True
       | Some keys \<Rightarrow> map_of m ''keys'' = Some (JArr (map JStr keys)))"
  then show "event_subscribe_de v = Inr e"
    by (cases e) (auto simp: event_subscribe_de_def event_subscribe_keys_def get_from_map_def comp_def)
qed

text \<open>
  A play message of version 3 is understood by peers of versions 1 and 2: their deserialisers
  accept its JSON and see exactly the fields they know.
\<close>

theorem play_message_downgrades:
  assumes "play_message_ok m"
  shows "v2_play_message_de cast (play_message_ser m) =
      Inr \<lparr> p2_container = pm_container m, p2_url = pm_url m, p2_content = pm_content m,
            p2_time = pm_time m, p2_speed = pm_speed m, p2_headers = pm_headers m \<rparr> \<and>
    v1_play_message_de cast (play_message_ser m) =
      Inr \<lparr> p1_container = pm_container m, p1_url = pm_url m, p1_content = pm_content m,
            p1_time = pm_time m \<rparr>"
  using assms
  by (simp add: v2_play_message_de_def v1_play_message_de_def play_message_ser_def
      play_message_ok_def struct_simps codec_simps)

definition sample_play :: play_message where
  "sample_play =
     \<lparr> pm_container = ''video/mp4'', pm_url = Some ''http://a/b'', pm_content = None,
       pm_time = Some 0, pm_volume = Some 0, pm_speed = None,
       pm_headers = Some [(''A'', ''1'')], pm_metadata = None \<rparr>"

lemma play_message_downgrades_witness:
  "v1_play_message_de sample_cast (play_message_ser sample_play) =
     Inr \<lparr> p1_container = ''video/mp4'', p1_url = Some ''http://a/b'', p1_content = None,
           p1_time = Some 0 \<rparr>"
proof -
  have "play_message_ok sample_play"
    by (simp add: play_message_ok_def sample_play_def f64_is_finite_def sorted_map_def)
  from play_message_downgrades [OF this, of sample_cast] show ?thesis
    by (simp add: sample_play_def)
qed

text \<open>
  Conversely the play messages of versions 1 and 2 are read by a version 3 peer, the fields
  they lack being absent.
\<close>

theorem play_message_upgrades:
  assumes "v2_play_message_ok m" and "v1_play_message_ok n"
  shows "play_message_de cast (v2_play_message_ser m) =
      Inr \<lparr> pm_container = p2_container m, pm_url = p2_url m, pm_content = p2_content m,
            pm_time = p2_time m, pm_volume = None, pm_speed = p2_speed m,
            pm_headers = p2_headers m, pm_metadata = None \<rparr> \<and>
    play_message_de cast (v1_play_message_ser n) =
      Inr \<lparr> pm_container = p1_container n, pm_url = p1_url n, pm_content = p1_content n,
            pm_time = p1_time n, pm_volume = None, pm_speed = None,
            pm_headers = None, pm_metadata = None \<rparr>"
  using assms
  by (simp add: play_message_de_def v2_play_message_ser_def v2_play_message_ok_def
      v1_play_message_ser_def v1_play_message_ok_def struct_simps opt_de_def [of _ None] codec_simps)

lemma play_message_upgrades_witness:
  "play_message_de sample_cast (v2_play_message_ser
      \<lparr> p2_container = ''a'', p2_url = None, p2_content = Some ''c'', p2_time = Some 0,
        p2_speed = None, p2_headers = Some [] \<rparr>) =
     Inr \<lparr> pm_container = ''a'', pm_url = None, pm_content = Some ''c'', pm_time = Some 0,
           pm_volume = None, pm_speed = None, pm_headers = Some [], pm_metadata = None \<rparr>"
proof -
  have "v2_play_message_ok \<lparr> p2_container = ''a'', p2_url = None, p2_content = Some ''c'',
      p2_time = Some 0, p2_speed = None, p2_headers = Some [] \<rparr>"
    by (simp add: v2_play_message_ok_def f64_is_finite_def sorted_map_def)
  moreover have "v1_play_message_ok \<lparr> p1_container = ''a'', p1_url = Some ''u'', p1_content = None,
      p1_time = Some 1 \<rparr>"
    by (simp add: v1_play_message_ok_def f64_is_finite_def)
  ultimately show ?thesis using play_message_upgrades [of _ _ sample_cast] by simp
qed

text \<open>
  The media item made from a play message has the same JSON as the message, so converting
  loses nothing of it and invents nothing.
\<close>

theorem media_item_from_same_json:
  "media_item_ser (media_item_from m) = play_message_ser m"
  by (simp add: media_item_ser_def media_item_from_def play_message_ser_def obj_def obj_entries_Cons)


end
