(* ===== verification/V4_Builder.thy ===== *)
theory V4_Builder
  imports Json "HOL-Library.Multiset"
begin

text \<open>
  Protocol version 4 (\<open>fcast-protocol/src/v4.rs\<close>): the \<open>MessageBuilder\<close>. The flatbuffer tables of the
  schema are values here (\<open>flat_\<close> types, one field per table field); an offset into the buffer under
  construction is the table it points to, so building a message is building its value. The byte
  layout is the flatbuffers library's. Schema fields marked required are plain, the others options;
  a union is a datatype with one constructor per member, an extra one for an unset or unknown tag.
  A \<open>HashMap\<close> is its entries in iteration order, keys distinct, the order otherwise arbitrary.
\<close>

section \<open>Flat tables\<close>

text \<open>
  \<open>GenericMetaValue\<close>: the inner option of each member is the table behind the tag, which the reader
  treats as possibly absent; \<open>FmString\<close> and \<open>FmList\<close> tables have an optional field of their own.
  A \<open>WrappedGenericMetaValue\<close> is the union it wraps.
\<close>

datatype flat_meta =
    FmNone
  | FmString "string option option"
  | FmFloat "f64 option"
  | FmInt "u64 option"
  | FmList "flat_meta list option option"
  | FmKVPair "(string \<times> flat_meta) option"

type_synonym flat_kv = "string \<times> flat_meta"

record flat_chapter =
  fch_start :: "u64 option"
  fch_length :: "u64 option"
  fch_title :: string
  fch_skip_label :: "string option"

datatype flat_metadata =
    FMetadataNone
  | FVideo "flat_chapter list option"
  | FAudio "string option" "string option" "flat_chapter list option"

record flat_media_item =
  fmi_container :: string
  fmi_source_url :: string
  fmi_start_time :: "u64 option"
  fmi_volume :: "f32 option"
  fmi_speed :: "f32 option"
  fmi_headers :: "(string \<times> string) list option"
  fmi_title :: "string option"
  fmi_thumbnail_url :: "string option"
  fmi_metadata :: flat_metadata
  fmi_extra_metadata :: "flat_kv list option"

record flat_queue_item =
  fqi_media_item :: flat_media_item
  fqi_playback_duration :: "u64 option"

record flat_queue =
  fq_items :: "flat_queue_item list"
  fq_start_index :: "u8 option"
  fq_autoplay :: bool

datatype flat_source = FSingle flat_media_item | FQueue flat_queue | FSourceOther

datatype flat_position = FIndex u8 | FFront | FBack | FPositionOther

datatype flat_track_meta =
    FTrackMetaNone
  | FVideoTrack "(u32 \<times> u32) option"
  | FAudioTrack
  | FSubtitleTrack

record flat_track =
  ft_id :: u32
  ft_title :: "string option"
  ft_iso_639 :: string
  ft_metadata :: flat_track_meta

record flat_device_info =
  fdi_display_name :: "string option"
  fdi_app_name :: "string option"
  fdi_app_version :: "string option"

record flat_media_capabilities =
  fmc_protocols :: "string list option"
  fmc_containers :: "string list option"
  fmc_video_formats :: "string list option"
  fmc_audio_formats :: "string list option"
  fmc_subtitle_formats :: "string list option"
  fmc_hdr_formats :: "string list option"
  fmc_image_formats :: "string list option"
  fmc_external_subtitles :: bool
  fmc_mirroring :: bool

record flat_receiver_capabilities =
  frc_media :: "flat_media_capabilities option"
  frc_display :: "(u32 \<times> u32) option option"
  frc_audio :: "f32 option"

datatype flat_playback_state = FIdle | FBuffering | FPlaying | FPaused | FEnded | FStateOther u8

datatype flat_track_type = FTypeVideo | FTypeAudio | FTypeSubtitle | FTypeOther u8

datatype flat_error_kind =
    InvalidOpcode | ResourceNotFound | SeekOutOfRange | VolumeOutOfRange | RateOutOfRange
  | UnsupportedFormat | MalformedBody | InvalidState | QueuePositionOutOfRange
  | QueueRemovePlayingItem | QueueFull | InvalidPayloadType | Internal

datatype flat_resource_size = FSizeUnknown | FSizeKnown u64

datatype flat_message =
    MLoad flat_source
  | MProgressChanged "u64 option" "u64 option"
  | MVolumeChanged f32
  | MPlaybackStateChanged flat_playback_state
  | MSpeedChanged f32
  | MSenderIntroduction flat_device_info
  | MReceiverIntroduction flat_device_info "flat_receiver_capabilities option"
  | MStopPlayback
  | MStartMirroringSession u16
  | MMirroringSessionDescription u16 string
  | MQueueInsert flat_queue_item flat_position
  | MQueueRemove flat_position
  | MTracksAvailable "flat_track list option"
  | MChangeTrack "u32 option" flat_track_type
  | MQueueItemSelected flat_position
  | MAddSubtitleSource string bool "string option" "unit option"
  | MSetProgressUpdateInterval "u64 option"
  | MCompanionHelloRequest
  | MCompanionHelloResponse u16
  | MCompanionResourceInfoRequest u32 u32
  | MCompanionResourceInfoResponse u32 string flat_resource_size
  | MCompanionResourceRequest u32 u32 "(u64 \<times> u64) option"
  | MError flat_error_kind "u32 option"
  | MOther

text \<open>The root table.\<close>

datatype flat_packet = Packet (payload: flat_message)

section \<open>The builder's own types\<close>

datatype meta_value =
    MetaString string
  | MetaFloat f64
  | MetaInt u64
  | MetaList "meta_value list"
  | MetaKvPair string meta_value

type_synonym extra_map = "(string \<times> meta_value) list"

datatype metadata = Video "string option" | Audio "string option" "string option"

record media_item4 =
  m4_container :: string
  m4_source_url :: string
  m4_start_time :: "f64 option"
  m4_volume :: "f32 option"
  m4_speed :: "f32 option"
  m4_headers :: "(string \<times> string) list option"
  m4_title :: "string option"
  m4_thumbnail_url :: "string option"
  m4_metadata :: "metadata option"
  m4_extra_metadata :: "extra_map option"

record device_info =
  di_display_name :: "string option"
  di_app_name :: "string option"
  di_app_version :: "string option"

datatype media_track_metadata = TrackVideo | TrackAudio | TrackSubtitle

record media_track =
  mt_id :: u32
  mt_title :: "string option"
  mt_iso_639 :: string
  mt_metadata :: "media_track_metadata option"

datatype queue_pos = QIndex u8 | QFront | QBack

section \<open>Generic metadata\<close>

text \<open>\<open>build_meta_value\<close> and \<open>build_meta_kv\<close>.\<close>

primrec build_meta_value :: "meta_value \<Rightarrow> flat_meta" where
  "build_meta_value (MetaString s) = FmString (Some (Some s))"
| "build_meta_value (MetaFloat f) = FmFloat (Some f)"
| "build_meta_value (MetaInt i) = FmInt (Some i)"
| "build_meta_value (MetaList items) = FmList (Some (Some (map build_meta_value items)))"
| "build_meta_value (MetaKvPair key v) = FmKVPair (Some (key, build_meta_value v))"

definition build_meta_kv :: "string \<Rightarrow> meta_value \<Rightarrow> flat_kv" where
  "build_meta_kv key v = (key, build_meta_value v)"

text \<open>\<open>build_extra_metadata\<close>: the entries are sorted by key first.\<close>

definition build_extra_metadata :: "extra_map \<Rightarrow> flat_kv list" where
  "build_extra_metadata extra = map (\<lambda>(k, v). build_meta_kv k v) (sort_key fst extra)"

text \<open>\<open>read_meta_union!\<close>, with \<open>read_meta_list\<close> and \<open>read_meta_kv_value\<close> inlined.\<close>

fun read_meta_union :: "flat_meta \<Rightarrow> meta_value" where
  "read_meta_union (FmString v) =
     MetaString (case v of Some (Some s) \<Rightarrow> s | _ \<Rightarrow> [])"
| "read_meta_union (FmFloat v) = MetaFloat (case v of Some f \<Rightarrow> f | None \<Rightarrow> 0)"
| "read_meta_union (FmInt v) = MetaInt (case v of Some i \<Rightarrow> i | None \<Rightarrow> 0)"
| "read_meta_union (FmList (Some (Some items))) = MetaList (map read_meta_union items)"
| "read_meta_union (FmList _) = MetaList []"
| "read_meta_union (FmKVPair (Some (key, v))) = MetaKvPair key (read_meta_union v)"
| "read_meta_union (FmKVPair None) = MetaList []"
| "read_meta_union FmNone = MetaList []"

text \<open>
  \<open>read_extra_metadata\<close> inserts the entries one by one into a map; the map is kept in key order,
  its only reader sorting it anyway.
\<close>

definition read_extra_metadata :: "flat_media_item \<Rightarrow> extra_map option" where
  "read_extra_metadata item =
     map_option (\<lambda>kvs. fold (\<lambda>(k, v) m. map_insert k (read_meta_union v) m) kvs [])
       (fmi_extra_metadata item)"

section \<open>Durations\<close>

text \<open>
  \<open>Duration::from_secs_f64\<close> on the bits of a double, in nanoseconds: it panics on negative, infinite
  and NaN inputs and when the seconds do not fit \<open>u64\<close>, and rounds to the nearest nanosecond, ties to
  even. A double is \<open>mant * 2 ^ (ex - 1075)\<close>.
\<close>

definition div_half_even :: "int \<Rightarrow> int \<Rightarrow> int" where
  "div_half_even a b =
     (let q = a div b; r = a mod b in
      if 2 * r < b then q else if b < 2 * r then q + 1 else if even q then q else q + 1)"

definition duration_from_secs_f64 :: "f64 \<Rightarrow> int option" where
  "duration_from_secs_f64 x =
     (let ef = uint (drop_bit 52 x AND 0x7FF);
          frac = uint (x AND 0xFFFFFFFFFFFFF);
          mant = (if ef = 0 then frac else frac + 2 ^ 52);
          ex = (if ef = 0 then 1 else ef);
          nanos = (if 1075 \<le> ex then mant * 10 ^ 9 * 2 ^ nat (ex - 1075)
                   else div_half_even (mant * 10 ^ 9) (2 ^ nat (1075 - ex)))
      in if ef = 0x7FF then None
         else if bit x 63 \<and> mant \<noteq> 0 then None
         else if nanos div 10 ^ 9 < 2 ^ 64 then Some nanos else None)"

text \<open>\<open>as_micros() as u64\<close>.\<close>

definition as_micros :: "int \<Rightarrow> u64" where
  "as_micros nanos = word_of_int (nanos div 1000)"

section \<open>Media items and queues\<close>

text \<open>\<open>construct_media_item\<close>; \<open>None\<close> is the panic of an invalid start time.\<close>

definition construct_metadata :: "metadata option \<Rightarrow> flat_metadata" where
  "construct_metadata m =
     (case m of
        Some (Video subtitle_url) \<Rightarrow> FVideo None
      | Some (Audio artist album) \<Rightarrow> FAudio artist album None
      | None \<Rightarrow> FMetadataNone)"

definition filter_nonempty :: "'a list option \<Rightarrow> 'a list option" where
  "filter_nonempty m = (case m of Some [] \<Rightarrow> None | _ \<Rightarrow> m)"

definition construct_start_time :: "f64 option \<Rightarrow> u64 option option" where
  "construct_start_time s =
     (case s of
        None \<Rightarrow> Some None
      | Some x \<Rightarrow> map_option (\<lambda>d. Some (as_micros d)) (duration_from_secs_f64 x))"

definition construct_media_item :: "media_item4 \<Rightarrow> flat_media_item option" where
  "construct_media_item item =
     map_option (\<lambda>start_time.
       \<lparr> fmi_container = m4_container item, fmi_source_url = m4_source_url item,
         fmi_start_time = start_time, fmi_volume = m4_volume item, fmi_speed = m4_speed item,
         fmi_headers = m4_headers item, fmi_title = m4_title item,
         fmi_thumbnail_url = m4_thumbnail_url item,
         fmi_metadata = construct_metadata (m4_metadata item),
         fmi_extra_metadata =
           map_option build_extra_metadata (filter_nonempty (m4_extra_metadata item)) \<rparr>)
       (construct_start_time (m4_start_time item))"

definition create_and_finish_envelope :: "flat_message \<Rightarrow> flat_packet" where
  "create_and_finish_envelope msg = Packet msg"

definition load_single :: "media_item4 \<Rightarrow> flat_packet option" where
  "load_single item =
     map_option (\<lambda>it. create_and_finish_envelope (MLoad (FSingle it))) (construct_media_item item)"

definition load_queue :: "media_item4 list \<Rightarrow> u8 option \<Rightarrow> flat_packet option" where
  "load_queue items start_index =
     map_option (\<lambda>its.
       create_and_finish_envelope (MLoad (FQueue
         \<lparr> fq_items = map (\<lambda>it. \<lparr> fqi_media_item = it, fqi_playback_duration = None \<rparr>) its,
           fq_start_index = start_index, fq_autoplay = False \<rparr>)))
       (collect_option (map construct_media_item items))"

fun queue_position :: "queue_pos \<Rightarrow> flat_position" where
  "queue_position (QIndex index) = FIndex index"
| "queue_position QFront = FFront"
| "queue_position QBack = FBack"

definition queue_remove :: "queue_pos \<Rightarrow> flat_packet" where
  "queue_remove position = create_and_finish_envelope (MQueueRemove (queue_position position))"

definition queue_insert :: "media_item4 \<Rightarrow> queue_pos \<Rightarrow> flat_packet option" where
  "queue_insert item position =
     map_option (\<lambda>it. create_and_finish_envelope
         (MQueueInsert \<lparr> fqi_media_item = it, fqi_playback_duration = None \<rparr> (queue_position position)))
       (construct_media_item item)"

definition queue_select :: "queue_pos \<Rightarrow> flat_packet" where
  "queue_select position = create_and_finish_envelope (MQueueItemSelected (queue_position position))"

section \<open>Relayed copies\<close>

text \<open>
  What a receiver broadcasts to its other senders: \<open>strip_flat_media_item\<close>, \<open>from_play_stripped\<close>,
  \<open>from_queue_insert_stripped\<close>.
\<close>

definition strip_flat_media_item :: "flat_media_item \<Rightarrow> flat_media_item" where
  "strip_flat_media_item item =
     \<lparr> fmi_container = fmi_container item, fmi_source_url = fmi_source_url item,
       fmi_start_time = fmi_start_time item, fmi_volume = fmi_volume item,
       fmi_speed = fmi_speed item, fmi_headers = None, fmi_title = fmi_title item,
       fmi_thumbnail_url = fmi_thumbnail_url item, fmi_metadata = FMetadataNone,
       fmi_extra_metadata =
         map_option build_extra_metadata (filter_nonempty (read_extra_metadata item)) \<rparr>"

definition strip_queue_item :: "flat_queue_item \<Rightarrow> flat_queue_item" where
  "strip_queue_item q =
     \<lparr> fqi_media_item = strip_flat_media_item (fqi_media_item q),
       fqi_playback_duration = fqi_playback_duration q \<rparr>"

definition from_play_stripped :: "flat_source \<Rightarrow> flat_packet option" where
  "from_play_stripped source =
     (case source of
        FSingle item \<Rightarrow>
          Some (create_and_finish_envelope (MLoad (FSingle (strip_flat_media_item item))))
      | FQueue msg \<Rightarrow>
          Some (create_and_finish_envelope (MLoad (FQueue
            \<lparr> fq_items = map strip_queue_item (fq_items msg),
              fq_start_index = fq_start_index msg, fq_autoplay = fq_autoplay msg \<rparr>)))
      | FSourceOther \<Rightarrow> None)"

definition from_queue_insert_stripped :: "flat_queue_item \<Rightarrow> flat_position \<Rightarrow> flat_packet option" where
  "from_queue_insert_stripped item position =
     map_option (\<lambda>pos.
       create_and_finish_envelope (MQueueInsert (strip_queue_item item) (queue_position pos)))
       (case position of
          FIndex index \<Rightarrow> Some (QIndex index)
        | FFront \<Rightarrow> Some QFront
        | FBack \<Rightarrow> Some QBack
        | FPositionOther \<Rightarrow> None)"

section \<open>The other messages\<close>

definition progress_changed_raw :: "u64 option \<Rightarrow> u64 option \<Rightarrow> flat_packet" where
  "progress_changed_raw position duration = create_and_finish_envelope (MProgressChanged position duration)"

definition progress_changed :: "u64 \<Rightarrow> u64 \<Rightarrow> flat_packet" where
  "progress_changed position duration = progress_changed_raw (Some position) (Some duration)"

definition set_progress_update_interval_raw :: "u64 option \<Rightarrow> flat_packet" where
  "set_progress_update_interval_raw interval =
     create_and_finish_envelope (MSetProgressUpdateInterval interval)"

definition set_progress_update_interval :: "u64 \<Rightarrow> flat_packet" where
  "set_progress_update_interval interval = set_progress_update_interval_raw (Some interval)"

definition volume_changed :: "f32 \<Rightarrow> flat_packet" where
  "volume_changed volume = create_and_finish_envelope (MVolumeChanged volume)"

definition speed_changed :: "f32 \<Rightarrow> flat_packet" where
  "speed_changed speed = create_and_finish_envelope (MSpeedChanged speed)"

definition playback_state_changed :: "flat_playback_state \<Rightarrow> flat_packet" where
  "playback_state_changed state = create_and_finish_envelope (MPlaybackStateChanged state)"

definition change_track :: "u32 option \<Rightarrow> flat_track_type \<Rightarrow> flat_packet" where
  "change_track id' typ = create_and_finish_envelope (MChangeTrack id' typ)"

definition add_subtitle_source :: "string \<Rightarrow> bool \<Rightarrow> string option \<Rightarrow> flat_packet" where
  "add_subtitle_source url select name =
     create_and_finish_envelope (MAddSubtitleSource url select name None)"

definition companion_hello_request :: flat_packet where
  "companion_hello_request = create_and_finish_envelope MCompanionHelloRequest"

definition companion_hello_response :: "u16 \<Rightarrow> flat_packet" where
  "companion_hello_response provider_id =
     create_and_finish_envelope (MCompanionHelloResponse provider_id)"

definition companion_resource_info_request :: "u32 \<Rightarrow> u32 \<Rightarrow> flat_packet" where
  "companion_resource_info_request request_id resource_id =
     create_and_finish_envelope (MCompanionResourceInfoRequest request_id resource_id)"

definition companion_resource_info_response :: "u32 \<Rightarrow> string \<Rightarrow> u64 option \<Rightarrow> flat_packet" where
  "companion_resource_info_response request_id content_type sz =
     create_and_finish_envelope (MCompanionResourceInfoResponse request_id content_type
       (case sz of Some n \<Rightarrow> FSizeKnown n | None \<Rightarrow> FSizeUnknown))"

definition companion_resource_request :: "u32 \<Rightarrow> u32 \<Rightarrow> (u64 \<times> u64) option \<Rightarrow> flat_packet" where
  "companion_resource_request request_id resource_id read_head =
     create_and_finish_envelope (MCompanionResourceRequest request_id resource_id read_head)"

definition create_device_info :: "device_info \<Rightarrow> flat_device_info" where
  "create_device_info d =
     \<lparr> fdi_display_name = di_display_name d, fdi_app_name = di_app_name d,
       fdi_app_version = di_app_version d \<rparr>"

definition sender_introduction :: "device_info \<Rightarrow> flat_packet" where
  "sender_introduction d = create_and_finish_envelope (MSenderIntroduction (create_device_info d))"

definition start_mirroring_session :: "u16 \<Rightarrow> flat_packet" where
  "start_mirroring_session session_id = create_and_finish_envelope (MStartMirroringSession session_id)"

definition mirroring_session_description :: "u16 \<Rightarrow> string \<Rightarrow> flat_packet" where
  "mirroring_session_description session_id sdp =
     create_and_finish_envelope (MMirroringSessionDescription session_id sdp)"

definition stop_playback :: flat_packet where
  "stop_playback = create_and_finish_envelope MStopPlayback"

definition create_track :: "media_track \<Rightarrow> flat_track" where
  "create_track t =
     \<lparr> ft_id = mt_id t, ft_title = mt_title t, ft_iso_639 = mt_iso_639 t,
       ft_metadata =
         (case mt_metadata t of
            Some TrackVideo \<Rightarrow> FVideoTrack None
          | Some TrackAudio \<Rightarrow> FAudioTrack
          | Some TrackSubtitle \<Rightarrow> FSubtitleTrack
          | None \<Rightarrow> FTrackMetaNone) \<rparr>"

definition tracks_available :: "media_track list \<Rightarrow> flat_packet" where
  "tracks_available tracks = create_and_finish_envelope (MTracksAvailable (Some (map create_track tracks)))"

definition receiver_introduction ::
  "device_info \<Rightarrow> string list \<Rightarrow> string list \<Rightarrow> string list \<Rightarrow> string list \<Rightarrow> string list \<Rightarrow>
   string list \<Rightarrow> string list \<Rightarrow> bool \<Rightarrow> bool \<Rightarrow> f32 \<Rightarrow> flat_packet" where
  "receiver_introduction d protocols containers videos audios subtitles hdrs images
       supports_external_subtitles supports_mirroring volume_step_interval =
     create_and_finish_envelope (MReceiverIntroduction (create_device_info d)
       (Some \<lparr> frc_media = Some
                 \<lparr> fmc_protocols = Some protocols, fmc_containers = Some containers,
                   fmc_video_formats = Some videos, fmc_audio_formats = Some audios,
                   fmc_subtitle_formats = Some subtitles, fmc_hdr_formats = Some hdrs,
                   fmc_image_formats = Some images,
                   fmc_external_subtitles = supports_external_subtitles,
                   fmc_mirroring = supports_mirroring \<rparr>,
               frc_display = Some None,
               frc_audio = Some volume_step_interval \<rparr>))"

definition error_msg :: "u32 option \<Rightarrow> flat_error_kind \<Rightarrow> flat_packet" where
  "error_msg packet_num kind = create_and_finish_envelope (MError kind packet_num)"

section \<open>Lemmas\<close>

lemma read_build_meta_value [simp]: "read_meta_union (build_meta_value v) = v"
  by (induction v) (simp_all add: map_idI)

lemma sort_key_perm:
  fixes xs ys :: "('k::linorder \<times> 'v) list"
  assumes "mset xs = mset ys" and "distinct (map fst xs)"
  shows "sort_key fst xs = sort_key fst ys"
proof (rule properties_for_sort_key)
  show "mset (sort_key fst ys) = mset xs" using assms(1) by simp
  show "sorted (map fst (sort_key fst ys))" by simp
  fix k
  assume k: "k \<in> set (sort_key fst ys)"
  have d: "distinct (map fst ys)"
    using assms by (metis mset_eq_imp_distinct_iff mset_map)
  have one: "filter (\<lambda>x. fst k = fst x) zs = [k]"
    if "distinct (map fst zs)" and "k \<in> set zs" for zs
    using that
  proof (induction zs)
    case (Cons z zs)
    then show ?case by (auto simp: filter_empty_conv image_iff)
  qed simp
  have "set (sort_key fst ys) = set xs" using assms(1) by (metis mset_eq_setD set_sort)
  moreover have "distinct (map fst (sort_key fst ys))"
    using d by (metis mset_eq_imp_distinct_iff mset_map mset_sort)
  ultimately show "filter (\<lambda>x. fst k = fst x) (sort_key fst ys) = filter (\<lambda>x. fst k = fst x) xs"
    using one [of xs] one [of "sort_key fst ys"] assms(2) k by simp
qed

text \<open>Reading a built map gives it back.\<close>

lemma extra_normal:
  "sorted_map m \<Longrightarrow>
   fold (\<lambda>(k, v) m. map_insert k (read_meta_union v) m) (build_extra_metadata m) [] = m"
proof -
  assume m: "sorted_map m"
  have "fold (\<lambda>(k, v) m. map_insert k (read_meta_union v) m)
      (map (\<lambda>(k, v). build_meta_kv k v) m) a = fold (\<lambda>(k, v) m. map_insert k v m) m a" for a
    by (induction m arbitrary: a) (auto simp: build_meta_kv_def)
  with fold_map_insert_sorted [of "[]" m] m show ?thesis
    by (simp add: build_extra_metadata_def sort_key_sorted_map)
qed

section \<open>Properties\<close>

text \<open>
  Generic metadata survives the wire: the reader inverts the builder on the whole map, nested
  lists and pairs included, and an absent or empty map reads back as absent.
\<close>

theorem extra_metadata_roundtrip:
  assumes "construct_media_item item = Some it"
    and "\<forall>m \<in> set_option (m4_extra_metadata item). sorted_map m"
  shows "read_extra_metadata it = filter_nonempty (m4_extra_metadata item)"
proof -
  from assms(1) have it: "fmi_extra_metadata it =
      map_option build_extra_metadata (filter_nonempty (m4_extra_metadata item))"
    by (auto simp: construct_media_item_def)
  show ?thesis
  proof (cases "filter_nonempty (m4_extra_metadata item)")
    case None
    with it show ?thesis by (simp add: read_extra_metadata_def)
  next
    case (Some m)
    with assms(2) have "sorted_map m"
      by (auto simp: filter_nonempty_def split: option.splits list.splits)
    with it Some extra_normal [of m] show ?thesis by (simp add: read_extra_metadata_def)
  qed
qed

definition sample_item4 :: media_item4 where
  "sample_item4 =
     \<lparr> m4_container = ''video/mp4'', m4_source_url = ''http://a/b'',
       m4_start_time = Some 0x3FF8000000000000, m4_volume = Some 0, m4_speed = None,
       m4_headers = Some [(''Cookie'', ''x'')], m4_title = Some ''t'', m4_thumbnail_url = None,
       m4_metadata = Some (Audio (Some ''a'') None),
       m4_extra_metadata = Some [(''k'', MetaList [MetaInt 1, MetaKvPair ''x'' (MetaString ''y'')])] \<rparr>"

definition sample_flat_item :: flat_media_item where
  "sample_flat_item = the (construct_media_item sample_item4)"

lemma sample_flat_item: "construct_media_item sample_item4 = Some sample_flat_item"
proof -
  have "construct_media_item sample_item4 \<noteq> None" by code_simp
  then show ?thesis by (simp add: sample_flat_item_def)
qed

lemma extra_metadata_roundtrip_witness:
  "read_extra_metadata sample_flat_item =
     Some [(''k'', MetaList [MetaInt 1, MetaKvPair ''x'' (MetaString ''y'')])]"
  using extra_metadata_roundtrip [OF sample_flat_item]
  by (simp add: sample_item4_def sorted_map_def filter_nonempty_def)

text \<open>
  The wire form of an extra-metadata map does not depend on the iteration order of the hash
  map it came from.
\<close>

theorem build_extra_metadata_deterministic:
  assumes "mset xs = mset ys" and "distinct (map fst xs)"
  shows "build_extra_metadata xs = build_extra_metadata ys"
  using sort_key_perm [OF assms] by (simp add: build_extra_metadata_def)

lemma build_extra_metadata_deterministic_witness:
  "build_extra_metadata [(''b'', MetaInt 1), (''a'', MetaFloat 2)] =
   build_extra_metadata [(''a'', MetaFloat 2), (''b'', MetaInt 1)]"
  by (rule build_extra_metadata_deterministic) simp_all

fun source_items :: "flat_source \<Rightarrow> flat_queue_item list" where
  "source_items (FSingle item) = [\<lparr> fqi_media_item = item, fqi_playback_duration = None \<rparr>]"
| "source_items (FQueue q) = fq_items q"
| "source_items FSourceOther = []"

fun source_queue :: "flat_source \<Rightarrow> (u8 option \<times> bool) option" where
  "source_queue (FQueue q) = Some (fq_start_index q, fq_autoplay q)"
| "source_queue _ = None"

definition public_part :: "flat_queue_item \<Rightarrow> flat_queue_item" where
  "public_part q = q \<lparr> fqi_media_item := (fqi_media_item q)
     \<lparr> fmi_headers := None, fmi_metadata := FMetadataNone, fmi_extra_metadata := None \<rparr> \<rparr>"

text \<open>
  A relayed load carries no request header and no typed metadata, whatever was loaded, and
  everything a viewer needs: the same items in the same order with the same addresses, times,
  volumes and titles, the same start index and autoplay flag. It fails only on an unknown source.
\<close>

theorem from_play_stripped_spec:
  "(case from_play_stripped source of
      None \<Rightarrow> source = FSourceOther
    | Some p \<Rightarrow>
        (\<exists>source'. p = Packet (MLoad source') \<and>
           source_queue source' = source_queue source \<and>
           map public_part (source_items source') = map public_part (source_items source) \<and>
           list_all (\<lambda>q. fmi_headers (fqi_media_item q) = None \<and>
             fmi_metadata (fqi_media_item q) = FMetadataNone) (source_items source')))"
  by (cases source)
     (auto simp: from_play_stripped_def create_and_finish_envelope_def strip_queue_item_def
       strip_flat_media_item_def public_part_def list_all_iff comp_def)

text \<open>
  Relaying a relayed item changes nothing more: the extra metadata of a stripped item is
  already in the order, and has the values, that stripping gives.
\<close>

theorem strip_idempotent:
  "strip_flat_media_item (strip_flat_media_item item) = strip_flat_media_item item"
proof (cases "filter_nonempty (read_extra_metadata item)")
  case None
  then show ?thesis
    by (simp add: strip_flat_media_item_def read_extra_metadata_def filter_nonempty_def)
next
  case (Some m)
  then have ne: "m \<noteq> []" and m: "read_extra_metadata item = Some m"
    by (auto simp: filter_nonempty_def split: option.splits list.splits)
  then have "sorted_map m"
    by (auto simp: read_extra_metadata_def intro: sorted_map_fold)
  from extra_normal [OF this] ne Some show ?thesis
    by (cases m) (simp_all add: strip_flat_media_item_def read_extra_metadata_def filter_nonempty_def)
qed

end
