(* ===== verification/Session_State.thy ===== *)
theory Session_State
  imports Companion V3_Messages V4_Builder
begin

text \<open>
  The protocol state of one sender's session in the receiver (\<open>State\<close> of
  crates/receiver-core/src/fcast.rs): the version negotiated by the first packet, the heartbeat, the
  event subscriptions, and \<open>advance\<close>, which turns an event into the action the driver performs. The
  record has the struct's fields. Counters are \<open>u32\<close> and wrap as in the release profile.

  Parameters, in the record \<open>library\<close>: the JSON text parser of serde_json and its integer to float
  conversion, the printer, \<open>ClockTime::try_from_seconds_f64\<close> and \<open>useconds\<close> of GStreamer, the flatbuffers verifier
  \<open>root_as_packet\<close> and encoder, and the language's \<open>f64 as f32\<close>.
\<close>

section \<open>Strings from bytes\<close>

text \<open>
  \<open>str::from_utf8\<close>: the bytes unchanged when they are well-formed UTF-8. \<open>utf8_tail\<close> is the number of
  bytes that follow a first byte, if those are the right ones.
\<close>

definition utf8_cont :: "u8 \<Rightarrow> bool" where
  "utf8_cont b \<longleftrightarrow> 0x80 \<le> b \<and> b \<le> 0xBF"

definition utf8_tail :: "u8 \<Rightarrow> bytes \<Rightarrow> nat option" where
  "utf8_tail a s =
     (if a \<le> 0x7F then Some 0
      else if 0xC2 \<le> a \<and> a \<le> 0xDF then
        (case s of b # _ \<Rightarrow> if utf8_cont b then Some 1 else None | _ \<Rightarrow> None)
      else if 0xE0 \<le> a \<and> a \<le> 0xEF then
        (case s of b # c # _ \<Rightarrow>
           if (if a = 0xE0 then 0xA0 \<le> b \<and> b \<le> 0xBF
               else if a = 0xED then 0x80 \<le> b \<and> b \<le> 0x9F else utf8_cont b) \<and> utf8_cont c
           then Some 2 else None
         | _ \<Rightarrow> None)
      else if 0xF0 \<le> a \<and> a \<le> 0xF4 then
        (case s of b # c # d # _ \<Rightarrow>
           if (if a = 0xF0 then 0x90 \<le> b \<and> b \<le> 0xBF
               else if a = 0xF4 then 0x80 \<le> b \<and> b \<le> 0x8F else utf8_cont b)
              \<and> utf8_cont c \<and> utf8_cont d
           then Some 3 else None
         | _ \<Rightarrow> None)
      else None)"

fun utf8_ok :: "bytes \<Rightarrow> bool" where
  "utf8_ok [] = True"
| "utf8_ok (a # s) = (case utf8_tail a s of None \<Rightarrow> False | Some k \<Rightarrow> utf8_ok (drop k s))"

definition str_from_utf8 :: "bytes \<Rightarrow> string option" where
  "str_from_utf8 bs = (if utf8_ok bs then Some (map (\<lambda>b. char_of (unat b)) bs) else None)"

lemma utf8_ok_ascii: "\<forall>b \<in> set bs. b \<le> 0x7F \<Longrightarrow> utf8_ok bs"
  by (induction bs) (auto simp: utf8_tail_def)

section \<open>Messages and operations\<close>

record library =
  lib_json :: "string \<Rightarrow> json option"
  lib_cast :: "int \<Rightarrow> f64"
  lib_f32 :: "f64 \<Rightarrow> f32"
  lib_clock :: "f64 \<Rightarrow> u64 option"
  lib_root_as_packet :: "bytes \<Rightarrow> flat_packet option"
  lib_print :: "json \<Rightarrow> string"
  lib_flat :: "flat_packet \<Rightarrow> bytes"
  lib_useconds :: "u64 \<Rightarrow> u64"

datatype session_version =
    V1 | V2 | V3
  | V4 (companion_provider_id: "u16 option") (mirroring_session_id: "u16 option")

datatype translatable_message =
    PlaybackUpdate playback_update
  | VolumeUpdate v2_volume_update

text \<open>A constructed message is the packet built; a clock time is its nanoseconds.\<close>

type_synonym clock_time = u64
type_synonym sender_id = u32

datatype v4_message =
    ProgressUpdated clock_time clock_time
  | VolumeChanged f32
  | PlaybackStateChanged flat_playback_state
  | PlaybackRateChanged f32
  | CompanionHello u16
  | CompanionGetResourceInfo u32 u32
  | V4Play sender_id flat_packet
  | RelayToOtherSenders sender_id flat_packet
  | TracksAvailable flat_packet
  | TracksSelected "flat_packet list"

datatype to_sender_message =
    RtsError playback_error_message
  | LegacyTranslatable opcode translatable_message
  | PlayUpdate play_update
  | Event event_message
  | RtsV4 v4_message

datatype state_error =
    BodyIsNotUtf8
  | InvalidJson
  | IllegalVersion u64
  | IllegalOpcode opcode
  | MissingBody
  | InvalidBody
  | InvalidFlatbuffer
  | InvalidUnionType

record chromecast_load_item =
  cl_container :: string
  cl_url :: string
  cl_time :: "f64 option"
  cl_speed :: "f64 option"

datatype wrapped_play_message =
    LegacyPlay play_message
  | FlatPlay flat_source
  | ChromecastPlay chromecast_load_item

text \<open>The channels that \<open>StartMirroringSession\<close> carries have no values before they are used.\<close>

datatype operation =
    Pause | Resume | Stop
  | PlayNew wrapped_play_message
  | SeekTo clock_time
  | SetSpeed f32
  | SetPlaylistItem set_playlist_item
  | SetVolume f32
  | OpStartMirroringSession
  | SetPlaybackState flat_playback_state
  | ChangeTrack "u32 option" flat_track_type
  | AddSubtitleSource string bool "string option"
  | SelectQueueItem queue_pos
  | RemoveQueueItem queue_pos
  | InsertQueueItem flat_queue_item flat_position
  | ResumeOrPause
  | SetProgressUpdateInterval u64

datatype companion_response =
    ResourceInfo u32 string flat_resource_size
  | ResourceResponse resource_response

datatype action =
    A_None | A_Ping | A_Pong | EndSession
  | Op operation
  | SendInitial
  | Forward "session_version option" to_sender_message
  | UpgradeToTls
  | RespondCompanionHello
  | Companion companion_response
  | StartMirroringSession u16
  | GotOffer string
  | SendAnswer u16 string
  | A_InvalidOpcode opcode
  | A_Error flat_error_kind

datatype driver_event =
    Tick
  | PacketEv opcode "bytes option"
  | ToSender to_sender_message
  | InternalMirroringAnswer string

text \<open>\<open>round_progress_interval\<close>, in microseconds; the multiplication and the sum are on \<open>u64\<close>.\<close>

definition STEP_MICROS :: u64 where
  "STEP_MICROS = 100000"

definition round_progress_interval :: "u64 \<Rightarrow> u64" where
  "round_progress_interval micros =
     (let steps = max ((micros + STEP_MICROS div 2) div STEP_MICROS) 1 in steps * STEP_MICROS)"

section \<open>The state\<close>

datatype state_variant = WaitingForVersion | Active session_version | UninitV4

fun variant_version :: "state_variant \<Rightarrow> session_version option" where
  "variant_version (Active version) = Some version"
| "variant_version _ = None"

text \<open>
  The two \<open>bitflags\<close> types, as their bits. \<open>insert\<close>, \<open>remove\<close>, \<open>contains\<close> and \<open>is_empty\<close> are what the
  macro defines.
\<close>

type_synonym flags = u8

definition flags_insert :: "flags \<Rightarrow> flags \<Rightarrow> flags" where
  "flags_insert fs f = fs OR f"

definition flags_remove :: "flags \<Rightarrow> flags \<Rightarrow> flags" where
  "flags_remove fs f = fs AND NOT f"

definition flags_contain :: "flags \<Rightarrow> flags \<Rightarrow> bool" where
  "flags_contain fs f \<longleftrightarrow> fs AND f = f"

definition Flag_Start :: flags where "Flag_Start = 1"
definition Flag_End :: flags where "Flag_End = push_bit 1 1"
definition Flag_Changed :: flags where "Flag_Changed = push_bit 2 1"

definition key_flag :: "string \<Rightarrow> flags" where
  "key_flag name =
     (if name = ''ArrowLeft'' then 1
      else if name = ''ArrowRight'' then push_bit 1 1
      else if name = ''ArrowUp'' then push_bit 2 1
      else if name = ''ArrowDown'' then push_bit 3 1
      else if name = ''Enter'' then push_bit 4 1
      else 0)"

definition key_flags :: "string list \<Rightarrow> flags" where
  "key_flags names = fold (\<lambda>name fs. flags_insert fs (key_flag name)) names 0"

record state =
  st_time :: u32
  st_last_packet_received :: u32
  st_waiting_for_pong :: bool
  st_variant :: state_variant
  st_media_item_events :: flags
  st_key_name_events_down :: flags
  st_key_name_events_up :: flags

definition state_new :: state where
  "state_new = \<lparr> st_time = 0, st_last_packet_received = 0, st_waiting_for_pong = False,
     st_variant = WaitingForVersion, st_media_item_events = 0, st_key_name_events_down = 0,
     st_key_name_events_up = 0 \<rparr>"

section \<open>Packets of versions 1 to 3\<close>

text \<open>\<open>err_json!\<close>: the body parsed as the given type; \<open>err_body!\<close> before it.\<close>

definition err_json :: "library \<Rightarrow> (json \<Rightarrow> de_error + 'a) \<Rightarrow> string \<Rightarrow> state_error + 'a" where
  "err_json lib de body =
     (case lib_json lib body of
        None \<Rightarrow> Inl InvalidJson
      | Some v \<Rightarrow> (case de v of Inl _ \<Rightarrow> Inl InvalidJson | Inr x \<Rightarrow> Inr x))"

definition err_body :: "'b option \<Rightarrow> state_error + 'b" where
  "err_body body = ok_or body MissingBody"

text \<open>
  \<open>handle_packet_common\<close>. The outer option says whether the opcode is one of the common ones. Its
  macro \<open>option_err_body!\<close> ends in \<open>ok()?\<close>, so a missing body makes the function return \<open>None\<close>, as an
  unknown opcode does, and not the error it builds.
\<close>

definition common_json ::
    "library \<Rightarrow> (json \<Rightarrow> de_error + 'a) \<Rightarrow> string option \<Rightarrow> ('a \<Rightarrow> action) \<Rightarrow> (state_error + action) option"
where
  "common_json lib de body act =
     (case body of
        None \<Rightarrow> None
      | Some b \<Rightarrow> Some (ebind (err_json lib de b) (\<lambda>msg. Inr (act msg))))"

definition handle_packet_common ::
    "library \<Rightarrow> opcode \<Rightarrow> string option \<Rightarrow> (state_error + action) option" where
  "handle_packet_common lib opc body =
     (case opc of
        Op_None \<Rightarrow> Some (Inr A_None)
      | Op_Play \<Rightarrow>
          common_json lib (play_message_de (lib_cast lib)) body (\<lambda>msg. Op (PlayNew (LegacyPlay msg)))
      | Op_Pause \<Rightarrow> Some (Inr (Op Pause))
      | Op_Resume \<Rightarrow> Some (Inr (Op Resume))
      | Op_Stop \<Rightarrow> Some (Inr (Op Stop))
      | Op_Seek \<Rightarrow>
          common_json lib (seek_message_de (lib_cast lib)) body
            (\<lambda>msg. case lib_clock lib (sk_time msg) of Some t \<Rightarrow> Op (SeekTo t) | None \<Rightarrow> A_None)
      | Op_SetVolume \<Rightarrow>
          common_json lib (set_volume_message_de (lib_cast lib)) body
            (\<lambda>msg. Op (SetVolume (lib_f32 lib (sv_volume msg))))
      | Op_PlaybackUpdate \<Rightarrow> Some (Inr A_None)
      | Op_VolumeUpdate \<Rightarrow> Some (Inr A_None)
      | Op_PlayUpdate \<Rightarrow> Some (Inr A_None)
      | Op_PlaybackError \<Rightarrow> Some (Inr A_None)
      | _ \<Rightarrow> None)"

definition handle_packet_v1 :: "library \<Rightarrow> opcode \<Rightarrow> string option \<Rightarrow> state_error + action" where
  "handle_packet_v1 lib opc body =
     (case handle_packet_common lib opc body of
        Some res \<Rightarrow> res
      | None \<Rightarrow> Inl (IllegalOpcode opc))"

definition handle_packet_v2 :: "library \<Rightarrow> opcode \<Rightarrow> string option \<Rightarrow> state_error + action" where
  "handle_packet_v2 lib opc body =
     (case handle_packet_common lib opc body of
        Some res \<Rightarrow> res
      | None \<Rightarrow>
          (case opc of
             Op_Ping \<Rightarrow> Inr A_Pong
           | Op_Pong \<Rightarrow> Inr A_None
           | Op_SetSpeed \<Rightarrow>
               ebind (err_body body) (\<lambda>b.
               ebind (err_json lib (set_speed_message_de (lib_cast lib)) b) (\<lambda>msg.
               Inr (Op (SetSpeed (lib_f32 lib (ss_speed msg))))))
           | _ \<Rightarrow> Inl (IllegalOpcode opc)))"

text \<open>The two \<open>match msg.event\<close> blocks of \<open>handle_packet_v3\<close>.\<close>

definition subscribe :: "event_subscribe \<Rightarrow> state \<Rightarrow> state" where
  "subscribe ev st =
     (case ev of
        SubMediaItemStart \<Rightarrow> st\<lparr>st_media_item_events := flags_insert (st_media_item_events st) Flag_Start\<rparr>
      | SubMediaItemEnd \<Rightarrow> st\<lparr>st_media_item_events := flags_insert (st_media_item_events st) Flag_End\<rparr>
      | SubMediaItemChanged \<Rightarrow>
          st\<lparr>st_media_item_events := flags_insert (st_media_item_events st) Flag_Changed\<rparr>
      | SubKeyDown keys \<Rightarrow>
          st\<lparr>st_key_name_events_down := flags_insert (st_key_name_events_down st) (key_flags keys)\<rparr>
      | SubKeyUp keys \<Rightarrow>
          st\<lparr>st_key_name_events_up := flags_insert (st_key_name_events_up st) (key_flags keys)\<rparr>)"

definition unsubscribe :: "event_subscribe \<Rightarrow> state \<Rightarrow> state" where
  "unsubscribe ev st =
     (case ev of
        SubMediaItemStart \<Rightarrow> st\<lparr>st_media_item_events := flags_remove (st_media_item_events st) Flag_Start\<rparr>
      | SubMediaItemEnd \<Rightarrow> st\<lparr>st_media_item_events := flags_remove (st_media_item_events st) Flag_End\<rparr>
      | SubMediaItemChanged \<Rightarrow>
          st\<lparr>st_media_item_events := flags_remove (st_media_item_events st) Flag_Changed\<rparr>
      | SubKeyDown keys \<Rightarrow>
          st\<lparr>st_key_name_events_down := flags_remove (st_key_name_events_down st) (key_flags keys)\<rparr>
      | SubKeyUp keys \<Rightarrow>
          st\<lparr>st_key_name_events_up := flags_remove (st_key_name_events_up st) (key_flags keys)\<rparr>)"

definition is_illegal_opcode :: "state_error + action \<Rightarrow> bool" where
  "is_illegal_opcode r \<longleftrightarrow> (case r of Inl (IllegalOpcode _) \<Rightarrow> True | _ \<Rightarrow> False)"

definition handle_packet_v3 ::
    "library \<Rightarrow> opcode \<Rightarrow> string option \<Rightarrow> state \<Rightarrow> (state_error + action) \<times> state" where
  "handle_packet_v3 lib opc body st =
     (case handle_packet_common lib opc body of
        Some res \<Rightarrow> (res, st)
      | None \<Rightarrow>
          let v2_res = handle_packet_v2 lib opc body
          in if \<not> is_illegal_opcode v2_res then (v2_res, st)
             else
               case opc of
                 Op_Initial \<Rightarrow>
                   (ebind (ebind (err_body body) (err_json lib initial_sender_de)) (\<lambda>_. Inr A_None), st)
               | Op_SetPlaylistItem \<Rightarrow>
                   (ebind (ebind (err_body body) (err_json lib set_playlist_item_de))
                      (\<lambda>msg. Inr (Op (SetPlaylistItem msg))), st)
               | Op_SubscribeEvent \<Rightarrow>
                   (case ebind (err_body body) (err_json lib subscribe_event_de) of
                      Inl e \<Rightarrow> (Inl e, st)
                    | Inr msg \<Rightarrow> (Inr A_None, subscribe (se_event msg) st))
               | Op_UnsubscribeEvent \<Rightarrow>
                   (case ebind (err_body body) (err_json lib unsubscribe_event_de) of
                      Inl e \<Rightarrow> (Inl e, st)
                    | Inr msg \<Rightarrow> (Inr A_None, unsubscribe (ue_event msg) st))
               | _ \<Rightarrow> (Inl (IllegalOpcode opc), st))"

text \<open>The first packet: an old control packet means version 1, otherwise a \<open>Version\<close> must come.\<close>

definition handle_packet_uninit ::
    "library \<Rightarrow> opcode \<Rightarrow> string option \<Rightarrow> state \<Rightarrow> (state_error + action) \<times> state" where
  "handle_packet_uninit lib opc body st =
     (if opc \<in> {Op_None, Op_Play, Op_Pause, Op_Resume, Op_Stop, Op_Seek, Op_SetVolume}
      then (handle_packet_v1 lib opc body, st\<lparr>st_variant := Active V1\<rparr>)
      else if opc = Op_Version then
        (case ebind (err_body body) (err_json lib version_message_de) of
           Inl e \<Rightarrow> (Inl e, st)
         | Inr msg \<Rightarrow>
             if vm_version msg = 0 then (Inl (IllegalVersion (vm_version msg)), st)
             else if vm_version msg = 1 then (Inr A_None, st\<lparr>st_variant := Active V1\<rparr>)
             else if vm_version msg = 2 then (Inr A_None, st\<lparr>st_variant := Active V2\<rparr>)
             else if vm_version msg = 3 then (Inr SendInitial, st\<lparr>st_variant := Active V3\<rparr>)
             else (Inr UpgradeToTls, st\<lparr>st_variant := UninitV4\<rparr>))
      else (Inl (IllegalOpcode opc), st))"

section \<open>Packets of version 4\<close>

text \<open>
  \<open>get_queue_position!\<close>. A \<open>payload_as_x\<close> or \<open>position_as_x\<close> accessor of the generated code answers
  exactly when the union's tag is \<open>x\<close>, so on the decoded value the tag and the member are one match.
\<close>

definition get_queue_position :: "flat_position \<Rightarrow> state_error + queue_pos" where
  "get_queue_position p =
     (case p of
        FBack \<Rightarrow> Inr QBack
      | FFront \<Rightarrow> Inr QFront
      | FIndex i \<Rightarrow> Inr (QIndex i)
      | FPositionOther \<Rightarrow> Inl InvalidBody)"

definition set_mirroring_session :: "u16 \<Rightarrow> state_variant \<Rightarrow> state_variant option" where
  "set_mirroring_session sid v =
     (case v of Active (V4 p _) \<Rightarrow> Some (Active (V4 p (Some sid))) | _ \<Rightarrow> None)"

definition handle_flat_packet_v4 ::
    "library \<Rightarrow> bytes \<Rightarrow> state \<Rightarrow> (state_error + action) \<times> state" where
  "handle_flat_packet_v4 lib body st =
     (case lib_root_as_packet lib body of
        None \<Rightarrow> (Inl InvalidFlatbuffer, st)
      | Some packet \<Rightarrow>
          (case payload packet of
             MProgressChanged position dur \<Rightarrow>
               (case position of
                  Some micros \<Rightarrow>
                    if uint micros * 1000 < 2 ^ 64 then (Inr (Op (SeekTo (micros * 1000))), st)
                    else (Inr (A_Error MalformedBody), st)
                | None \<Rightarrow> (Inr (A_Error MalformedBody), st))
           | MVolumeChanged volume \<Rightarrow> (Inr (Op (SetVolume volume)), st)
           | MPlaybackStateChanged s \<Rightarrow> (Inr (Op (SetPlaybackState s)), st)
           | MSpeedChanged speed \<Rightarrow> (Inr (Op (SetSpeed speed)), st)
           | MSenderIntroduction info \<Rightarrow> (Inr A_None, st)
           | MLoad source \<Rightarrow> (Inr (Op (PlayNew (FlatPlay source))), st)
           | MStartMirroringSession sid \<Rightarrow>
               (case set_mirroring_session sid (st_variant st) of
                  None \<Rightarrow> (Inl (IllegalOpcode Op_Flatbuf), st)
                | Some v \<Rightarrow> (Inr (StartMirroringSession sid), st\<lparr>st_variant := v\<rparr>))
           | MMirroringSessionDescription sid sdp \<Rightarrow>
               (case st_variant st of
                  Active (V4 _ mid) \<Rightarrow>
                    (Inr (if mid = Some sid then GotOffer sdp else A_Error InvalidState), st)
                | _ \<Rightarrow> (Inl (IllegalOpcode Op_Flatbuf), st))
           | MStopPlayback \<Rightarrow> (Inr (Op Stop), st)
           | MCompanionHelloRequest \<Rightarrow> (Inr RespondCompanionHello, st)
           | MCompanionResourceInfoResponse rid content_type sz \<Rightarrow>
               (Inr (Companion (ResourceInfo rid content_type sz)), st)
           | MChangeTrack tid typ \<Rightarrow> (Inr (Op (ChangeTrack tid typ)), st)
           | MAddSubtitleSource url select name _ \<Rightarrow>
               (Inr (if url = [] then A_Error MalformedBody else Op (AddSubtitleSource url select name)), st)
           | MQueueItemSelected position \<Rightarrow>
               (ebind (get_queue_position position) (\<lambda>p. Inr (Op (SelectQueueItem p))), st)
           | MQueueInsert item position \<Rightarrow> (Inr (Op (InsertQueueItem item position)), st)
           | MQueueRemove position \<Rightarrow>
               (ebind (get_queue_position position) (\<lambda>p. Inr (Op (RemoveQueueItem p))), st)
           | MSetProgressUpdateInterval interval \<Rightarrow>
               (Inr (case interval of
                  Some micros \<Rightarrow> Op (SetProgressUpdateInterval (round_progress_interval micros))
                | None \<Rightarrow> A_Error MalformedBody), st)
           | _ \<Rightarrow> (Inr (A_Error InvalidPayloadType), st)))"

definition handle_resource_packet :: "bytes option \<Rightarrow> state_error + resource_response" where
  "handle_resource_packet body =
     (case body of
        None \<Rightarrow> Inl MissingBody
      | Some b \<Rightarrow> (case resource_response_parse b of Inl _ \<Rightarrow> Inl InvalidBody | Inr r \<Rightarrow> Inr r))"

definition handle_packet_v4 ::
    "library \<Rightarrow> opcode \<Rightarrow> bytes option \<Rightarrow> state \<Rightarrow> (state_error + action) \<times> state" where
  "handle_packet_v4 lib opc body st =
     (case opc of
        Op_Flatbuf \<Rightarrow>
          (case ok_or body MissingBody of
             Inl e \<Rightarrow> (Inl e, st)
           | Inr b \<Rightarrow> handle_flat_packet_v4 lib b st)
      | Op_Ping \<Rightarrow> (Inr A_Pong, st)
      | Op_Pong \<Rightarrow> (Inr A_None, st)
      | Op_Resource \<Rightarrow>
          (ebind (handle_resource_packet body) (\<lambda>resp. Inr (Companion (ResourceResponse resp))), st)
      | _ \<Rightarrow> (Inr (A_InvalidOpcode opc), st))"

definition tls_success :: "state \<Rightarrow> state" where
  "tls_success st = st\<lparr>st_variant := Active (V4 None None)\<rparr>"

section \<open>advance\<close>

definition TICKS_BEFORE_PING :: u32 where
  "TICKS_BEFORE_PING = 3"

definition tick :: "state \<Rightarrow> action \<times> state" where
  "tick st0 =
     (let st = st0\<lparr>st_time := st_time st0 + 1\<rparr>;
          diff = st_time st - st_last_packet_received st
      in if TICKS_BEFORE_PING \<le> diff then
           if st_waiting_for_pong st \<and> TICKS_BEFORE_PING * 2 \<le> diff then (EndSession, st)
           else if \<not> st_waiting_for_pong st then (A_Ping, st\<lparr>st_waiting_for_pong := True\<rparr>)
           else (A_None, st)
         else (A_None, st))"

text \<open>\<open>stringify!\<close>: for versions 1 to 3 the body must be UTF-8.\<close>

definition with_str ::
    "bytes option \<Rightarrow> state \<Rightarrow> (string option \<Rightarrow> (state_error + action) \<times> state) \<Rightarrow> (state_error + action) \<times> state"
where
  "with_str body st k =
     (case body of
        None \<Rightarrow> k None
      | Some bs \<Rightarrow> (case str_from_utf8 bs of None \<Rightarrow> (Inl BodyIsNotUtf8, st) | Some s \<Rightarrow> k (Some s)))"

definition packet_event ::
    "library \<Rightarrow> opcode \<Rightarrow> bytes option \<Rightarrow> state \<Rightarrow> (state_error + action) \<times> state" where
  "packet_event lib opc body st0 =
     (let st = st0\<lparr>st_last_packet_received := st_time st0, st_waiting_for_pong := False\<rparr>
      in case st_variant st of
           WaitingForVersion \<Rightarrow> with_str body st (\<lambda>b. handle_packet_uninit lib opc b st)
         | Active V1 \<Rightarrow> with_str body st (\<lambda>b. (handle_packet_v1 lib opc b, st))
         | Active V2 \<Rightarrow> with_str body st (\<lambda>b. (handle_packet_v2 lib opc b, st))
         | Active V3 \<Rightarrow> with_str body st (\<lambda>b. handle_packet_v3 lib opc b st)
         | Active (V4 _ _) \<Rightarrow> handle_packet_v4 lib opc body st
         | UninitV4 \<Rightarrow> (Inr (A_InvalidOpcode opc), st))"

definition to_sender :: "state \<Rightarrow> to_sender_message \<Rightarrow> action" where
  "to_sender st msg =
     (let forward_if = (\<lambda>b. if b then Forward (variant_version (st_variant st)) msg else A_None);
          legacy = (case st_variant st of
              Active (V4 _ _) \<Rightarrow> A_None
            | Active _ \<Rightarrow> Forward (variant_version (st_variant st)) msg
            | _ \<Rightarrow> A_None)
      in case msg of
           RtsError _ \<Rightarrow> legacy
         | LegacyTranslatable _ _ \<Rightarrow> legacy
         | Event m \<Rightarrow>
             (case em_event m of
                EvMediaItem variant _ \<Rightarrow>
                  (case variant of
                     MediaItemStart \<Rightarrow> forward_if (flags_contain (st_media_item_events st) Flag_Start)
                   | MediaItemEnd \<Rightarrow> forward_if (flags_contain (st_media_item_events st) Flag_End)
                   | MediaItemChange \<Rightarrow> forward_if (flags_contain (st_media_item_events st) Flag_Changed)
                   | _ \<Rightarrow> A_None)
              | EvKey variant key _ _ \<Rightarrow>
                  let flag = key_flag key
                  in if flag = 0 then A_None
                     else (case variant of
                         KeyDown \<Rightarrow> forward_if (flags_contain (st_key_name_events_down st) flag)
                       | KeyUp \<Rightarrow> forward_if (flags_contain (st_key_name_events_up st) flag)
                       | _ \<Rightarrow> A_None))
         | PlayUpdate _ \<Rightarrow> if st_variant st = Active V3 then Forward None msg else A_None
         | RtsV4 _ \<Rightarrow>
             (case st_variant st of Active (V4 _ _) \<Rightarrow> Forward None msg | _ \<Rightarrow> A_None))"

definition mirroring_answer :: "state \<Rightarrow> string \<Rightarrow> action" where
  "mirroring_answer st sdp =
     (case st_variant st of Active (V4 _ (Some sid)) \<Rightarrow> SendAnswer sid sdp | _ \<Rightarrow> A_None)"

definition advance :: "library \<Rightarrow> driver_event \<Rightarrow> state \<Rightarrow> (state_error + action) \<times> state" where
  "advance lib event st =
     (case event of
        Tick \<Rightarrow> (case tick st of (a, st') \<Rightarrow> (Inr a, st'))
      | PacketEv opc body \<Rightarrow> packet_event lib opc body st
      | ToSender msg \<Rightarrow> (Inr (to_sender st msg), st)
      | InternalMirroringAnswer sdp \<Rightarrow> (Inr (mirroring_answer st sdp), st))"

end
