(* ===== verification/Session_Output.thy ===== *)
theory Session_Output
  imports Session_State
begin

text \<open>
  What the receiver writes to a sender (crates/receiver-core/src/fcast.rs): the \<open>Packet\<close> enum of the old
  protocol with its encoder and decoder, the messages translated down to the sender's version, and the
  messages of version 4. A message on the stream is its bytes.
\<close>

section \<open>Packets of the old protocol\<close>

datatype old_packet =
    PkNone
  | PkPlay v2_play_message
  | PkPause | PkResume | PkStop
  | PkSeek seek_message
  | PkPlaybackUpdate v2_playback_update
  | PkVolumeUpdate v2_volume_update
  | PkSetVolume set_volume_message
  | PkPlaybackError playback_error_message
  | PkSetSpeed set_speed_message
  | PkVersion version_message
  | PkPing | PkPong
  | PkInitial initial_receiver

fun packet_opcode :: "old_packet \<Rightarrow> opcode" where
  "packet_opcode PkNone = Op_None"
| "packet_opcode (PkPlay _) = Op_Play"
| "packet_opcode PkPause = Op_Pause"
| "packet_opcode PkResume = Op_Resume"
| "packet_opcode PkStop = Op_Stop"
| "packet_opcode (PkSeek _) = Op_Seek"
| "packet_opcode (PkPlaybackUpdate _) = Op_PlaybackUpdate"
| "packet_opcode (PkVolumeUpdate _) = Op_VolumeUpdate"
| "packet_opcode (PkSetVolume _) = Op_SetVolume"
| "packet_opcode (PkPlaybackError _) = Op_PlaybackError"
| "packet_opcode (PkSetSpeed _) = Op_SetSpeed"
| "packet_opcode (PkVersion _) = Op_Version"
| "packet_opcode PkPing = Op_Ping"
| "packet_opcode PkPong = Op_Pong"
| "packet_opcode (PkInitial _) = Op_Initial"

datatype packet_decode_error = BadJson | UnsupportedOpcode opcode

definition decode_json ::
    "library \<Rightarrow> (json \<Rightarrow> de_error + 'a) \<Rightarrow> ('a \<Rightarrow> old_packet) \<Rightarrow> string \<Rightarrow> packet_decode_error + old_packet"
where
  "decode_json lib de con body =
     (case lib_json lib body of
        None \<Rightarrow> Inl BadJson
      | Some v \<Rightarrow> (case de v of Inl _ \<Rightarrow> Inl BadJson | Inr x \<Rightarrow> Inr (con x)))"

definition packet_decode :: "library \<Rightarrow> header \<Rightarrow> string \<Rightarrow> packet_decode_error + old_packet" where
  "packet_decode lib h body =
     (case h_opcode h of
        Op_None \<Rightarrow> Inr PkNone
      | Op_Play \<Rightarrow> decode_json lib (v2_play_message_de (lib_cast lib)) PkPlay body
      | Op_Pause \<Rightarrow> Inr PkPause
      | Op_Resume \<Rightarrow> Inr PkResume
      | Op_Stop \<Rightarrow> Inr PkStop
      | Op_Seek \<Rightarrow> decode_json lib (seek_message_de (lib_cast lib)) PkSeek body
      | Op_PlaybackUpdate \<Rightarrow> decode_json lib (v2_playback_update_de (lib_cast lib)) PkPlaybackUpdate body
      | Op_VolumeUpdate \<Rightarrow> decode_json lib (v2_volume_update_de (lib_cast lib)) PkVolumeUpdate body
      | Op_SetVolume \<Rightarrow> decode_json lib (set_volume_message_de (lib_cast lib)) PkSetVolume body
      | Op_PlaybackError \<Rightarrow> decode_json lib playback_error_message_de PkPlaybackError body
      | Op_SetSpeed \<Rightarrow> decode_json lib (set_speed_message_de (lib_cast lib)) PkSetSpeed body
      | Op_Version \<Rightarrow> decode_json lib version_message_de PkVersion body
      | Op_Ping \<Rightarrow> Inr PkPing
      | Op_Pong \<Rightarrow> Inr PkPong
      | op \<Rightarrow> Inl (UnsupportedOpcode op))"

fun packet_json :: "old_packet \<Rightarrow> json option" where
  "packet_json (PkPlay m) = Some (v2_play_message_ser m)"
| "packet_json (PkSeek m) = Some (seek_message_ser m)"
| "packet_json (PkPlaybackUpdate m) = Some (v2_playback_update_ser m)"
| "packet_json (PkVolumeUpdate m) = Some (v2_volume_update_ser m)"
| "packet_json (PkSetVolume m) = Some (set_volume_message_ser m)"
| "packet_json (PkPlaybackError m) = Some (playback_error_message_ser m)"
| "packet_json (PkSetSpeed m) = Some (set_speed_message_ser m)"
| "packet_json (PkVersion m) = Some (version_message_ser m)"
| "packet_json (PkInitial m) = Some (initial_receiver_ser m)"
| "packet_json _ = None"

definition string_bytes :: "string \<Rightarrow> bytes" where
  "string_bytes s = map of_char s"

definition json_bytes :: "library \<Rightarrow> json \<Rightarrow> bytes" where
  "json_bytes lib v = string_bytes (lib_print lib v)"

text \<open>\<open>encode\<close>; the \<open>assert!\<close> on the body's length is the \<open>None\<close>.\<close>

definition packet_encode :: "library \<Rightarrow> old_packet \<Rightarrow> bytes option" where
  "packet_encode lib p =
     (let body = (case packet_json p of Some v \<Rightarrow> json_bytes lib v | None \<Rightarrow> [])
      in if length body < 32 * 1000
         then Some (header_encode (header_new (packet_opcode p) (of_nat (length body))) @ body)
         else None)"

section \<open>Translation to older versions\<close>

definition translate_and_serialize :: "library \<Rightarrow> session_version \<Rightarrow> translatable_message \<Rightarrow> bytes option" where
  "translate_and_serialize lib v m =
     (case m of
        PlaybackUpdate msg \<Rightarrow>
          (case v of
             V1 \<Rightarrow> do {
               time \<leftarrow> pu_time msg;
               Some (json_bytes lib (v1_playback_update_ser \<lparr>pu1_time = time, pu1_state = pu_state msg\<rparr>))
             }
           | V2 \<Rightarrow> do {
               time \<leftarrow> pu_time msg;
               duration \<leftarrow> pu_duration msg;
               speed \<leftarrow> pu_speed msg;
               Some (json_bytes lib (v2_playback_update_ser
                 \<lparr>pu2_generation_time = pu_generation_time msg, pu2_time = time, pu2_duration = duration,
                  pu2_speed = speed, pu2_state = pu_state msg\<rparr>))
             }
           | V3 \<Rightarrow> Some (json_bytes lib (playback_update_ser msg))
           | V4 _ _ \<Rightarrow> None)
      | VolumeUpdate msg \<Rightarrow>
          (case v of
             V1 \<Rightarrow> Some (json_bytes lib (v1_volume_update_ser \<lparr>vu1_volume = vu2_volume msg\<rparr>))
           | V2 \<Rightarrow> Some (json_bytes lib (v2_volume_update_ser msg))
           | V3 \<Rightarrow> Some (json_bytes lib (v2_volume_update_ser msg))
           | V4 _ _ \<Rightarrow> None))"

section \<open>Messages\<close>

definition send_msg :: "library \<Rightarrow> opcode \<Rightarrow> json \<Rightarrow> bytes" where
  "send_msg lib op v =
     (let body = json_bytes lib v in header_encode (header_new op (of_nat (length body))) @ body)"

definition send_flat :: "library \<Rightarrow> flat_packet \<Rightarrow> bytes" where
  "send_flat lib p = receiver_send_bin_msg Op_Flatbuf (lib_flat lib p)"

text \<open>\<open>send_v4_message\<close> of the session with the given id: the messages written, in order.\<close>

definition send_v4_message :: "library \<Rightarrow> sender_id \<Rightarrow> v4_message \<Rightarrow> bytes list" where
  "send_v4_message lib me m =
     (case m of
        ProgressUpdated p d \<Rightarrow>
          [send_flat lib (progress_changed (lib_useconds lib p) (lib_useconds lib d))]
      | VolumeChanged vol \<Rightarrow> [send_flat lib (volume_changed vol)]
      | PlaybackStateChanged s \<Rightarrow> [send_flat lib (playback_state_changed s)]
      | PlaybackRateChanged rate \<Rightarrow> [send_flat lib (speed_changed rate)]
      | CompanionHello pid \<Rightarrow> [send_flat lib (companion_hello_response pid)]
      | CompanionGetResourceInfo request_id resource_id \<Rightarrow>
          [send_flat lib (companion_resource_info_request request_id resource_id)]
      | V4Play initiator msg \<Rightarrow> if initiator \<noteq> me then [send_flat lib msg] else []
      | RelayToOtherSenders initiator msg \<Rightarrow> if initiator \<noteq> me then [send_flat lib msg] else []
      | TracksAvailable msg \<Rightarrow> [send_flat lib msg]
      | TracksSelected msgs \<Rightarrow> map (send_flat lib) msgs)"

section \<open>Properties\<close>

definition old_packet_ok :: "old_packet \<Rightarrow> bool" where
  "old_packet_ok p \<longleftrightarrow>
     (case p of
        PkPlay m \<Rightarrow> v2_play_message_ok m
      | PkSeek m \<Rightarrow> seek_message_ok m
      | PkPlaybackUpdate m \<Rightarrow> v2_playback_update_ok m
      | PkVolumeUpdate m \<Rightarrow> v2_volume_update_ok m
      | PkSetVolume m \<Rightarrow> set_volume_message_ok m
      | PkSetSpeed m \<Rightarrow> set_speed_message_ok m
      | _ \<Rightarrow> True)"

text \<open>
  The packets of the old protocol are decoded as they were encoded, for every packet whose floats
  are finite; the one exception is \<open>Initial\<close>, which is written but not accepted back. Of serde_json it
  is assumed that its parser reads back what its printer wrote for the packet's value.
\<close>

theorem old_packet_roundtrip:
  assumes "old_packet_ok p" and "packet_encode lib p = Some bs"
    and "\<forall>v. packet_json p = Some v \<longrightarrow> lib_json lib (lib_print lib v) = Some v"
  shows "\<exists>body. bs = header_encode (header_new (packet_opcode p) (of_nat (length body))) @ string_bytes body \<and>
    packet_decode lib (header_new (packet_opcode p) (of_nat (length body))) body =
      (case p of PkInitial _ \<Rightarrow> Inl (UnsupportedOpcode Op_Initial) | _ \<Rightarrow> Inr p)"
proof -
  define body where "body = (case packet_json p of Some v \<Rightarrow> lib_print lib v | None \<Rightarrow> [])"
  have "packet_decode lib (header_new (packet_opcode p) (of_nat (length body))) body =
      (case p of PkInitial _ \<Rightarrow> Inl (UnsupportedOpcode Op_Initial) | _ \<Rightarrow> Inr p)"
    using assms(1,3)
    by (cases p) (simp_all add: packet_decode_def header_new_def decode_json_def body_def
        old_packet_ok_def codec_simps)
  moreover have "bs = header_encode (header_new (packet_opcode p) (of_nat (length body))) @ string_bytes body"
    using assms(2)
    by (auto simp: packet_encode_def Let_def body_def json_bytes_def string_bytes_def
        split: option.splits if_splits)
  ultimately show ?thesis by blast
qed

lemma old_packet_roundtrip_witness:
  "\<exists>lib body. packet_encode lib (PkVersion \<lparr>vm_version = 4\<rparr>) =
       Some (header_encode (header_new Op_Version (of_nat (length body))) @ string_bytes body) \<and>
     packet_decode lib (header_new Op_Version (of_nat (length body))) body = Inr (PkVersion \<lparr>vm_version = 4\<rparr>)"
proof -
  let ?v = "version_message_ser \<lparr>vm_version = 4\<rparr>"
  let ?lib = "\<lparr>lib_json = (\<lambda>_. Some ?v), lib_cast = sample_cast, lib_f32 = (\<lambda>_. 0), lib_clock = (\<lambda>_. None),
      lib_root_as_packet = (\<lambda>_. None), lib_print = (\<lambda>_. ''x''), lib_flat = (\<lambda>_. []), lib_useconds = id\<rparr>"
  let ?p = "PkVersion \<lparr>vm_version = 4\<rparr>"
  obtain bs where bs: "packet_encode ?lib ?p = Some bs"
    by (simp add: packet_encode_def json_bytes_def string_bytes_def)
  have "old_packet_ok ?p" by (simp add: old_packet_ok_def)
  from old_packet_roundtrip [OF this bs] bs show ?thesis
    by (intro exI [of _ ?lib]) auto
qed

text \<open>
  An update is translated so that the sender's version reads it: the body is the JSON of a value
  in which that version's deserialiser finds the fields it knows. The update is dropped exactly when a
  field is missing that the version requires, and always for version 4, which has messages of its own.
\<close>

theorem translated_update_understood:
  assumes "playback_update_ok m"
  shows "case v of
      V1 \<Rightarrow> (case pu_time m of
          None \<Rightarrow> translate_and_serialize lib v (PlaybackUpdate m) = None
        | Some t \<Rightarrow> \<exists>j. translate_and_serialize lib v (PlaybackUpdate m) = Some (json_bytes lib j) \<and>
            v1_playback_update_de cast j = Inr \<lparr>pu1_time = t, pu1_state = pu_state m\<rparr>)
    | V2 \<Rightarrow> (case (pu_time m, pu_duration m, pu_speed m) of
          (Some t, Some d, Some r) \<Rightarrow>
            \<exists>j. translate_and_serialize lib v (PlaybackUpdate m) = Some (json_bytes lib j) \<and>
              v2_playback_update_de cast j =
                Inr \<lparr>pu2_generation_time = pu_generation_time m, pu2_time = t, pu2_duration = d,
                  pu2_speed = r, pu2_state = pu_state m\<rparr>
        | _ \<Rightarrow> translate_and_serialize lib v (PlaybackUpdate m) = None)
    | V3 \<Rightarrow> (\<exists>j. translate_and_serialize lib v (PlaybackUpdate m) = Some (json_bytes lib j) \<and>
            playback_update_de cast j = Inr m)
    | V4 _ _ \<Rightarrow> translate_and_serialize lib v (PlaybackUpdate m) = None"
proof (cases v)
  case V1
  then show ?thesis
    using assms
    by (cases "pu_time m")
       (auto simp: translate_and_serialize_def playback_update_ok_def v1_playback_update_ok_def codec_simps)
next
  case V2
  then show ?thesis
    using assms
    by (cases "pu_time m"; cases "pu_duration m"; cases "pu_speed m")
       (auto simp: translate_and_serialize_def playback_update_ok_def v2_playback_update_ok_def codec_simps)
next
  case V3
  then show ?thesis
    using assms by (auto simp: translate_and_serialize_def codec_simps)
next
  case (V4 p m)
  then show ?thesis by (simp add: translate_and_serialize_def)
qed

lemma translated_update_understood_witness:
  "\<exists>lib j. translate_and_serialize lib V1 (PlaybackUpdate \<lparr>pu_generation_time = 1, pu_state = Playing,
       pu_time = Some 0, pu_duration = None, pu_speed = None, pu_item_index = None\<rparr>) = Some (json_bytes lib j) \<and>
     v1_playback_update_de sample_cast j = Inr \<lparr>pu1_time = 0, pu1_state = Playing\<rparr>"
proof -
  let ?m = "\<lparr>pu_generation_time = 1, pu_state = Playing, pu_time = Some 0, pu_duration = None,
     pu_speed = None, pu_item_index = None\<rparr>"
  have "playback_update_ok ?m" by (simp add: playback_update_ok_def f64_is_finite_def)
  from translated_update_understood [OF this, where v = V1 and cast = sample_cast] show ?thesis by auto
qed

end
