(* ===== verification/Session_Proofs.thy ===== *)
theory Session_Proofs
  imports Session_State
begin

text \<open>
  Correctness of the session state: the heartbeat, the version negotiated once and for all, which
  messages reach which sessions, the event subscriptions as sets of names, and what a version 4 packet
  can do.
\<close>

section \<open>The state is only changed in three ways\<close>

text \<open>What a handler of packets may leave behind: the heartbeat is untouched.\<close>

definition same_clock :: "state \<Rightarrow> state \<Rightarrow> bool" where
  "same_clock st st' \<longleftrightarrow> st_time st' = st_time st \<and>
     st_last_packet_received st' = st_last_packet_received st \<and>
     st_waiting_for_pong st' = st_waiting_for_pong st"

definition same_events :: "state \<Rightarrow> state \<Rightarrow> bool" where
  "same_events st st' \<longleftrightarrow> st_media_item_events st' = st_media_item_events st \<and>
     st_key_name_events_down st' = st_key_name_events_down st \<and>
     st_key_name_events_up st' = st_key_name_events_up st"

lemmas same_defs = same_clock_def same_events_def

lemma subscribe_fields [simp]:
  "same_clock st (subscribe ev st)" "st_variant (subscribe ev st) = st_variant st"
  "same_clock st (unsubscribe ev st)" "st_variant (unsubscribe ev st) = st_variant st"
  by (cases ev; simp add: subscribe_def unsubscribe_def same_clock_def)+

lemma handle_packet_v3_fields:
  assumes "handle_packet_v3 lib opc body st = (r, st')"
  shows "same_clock st st' \<and> st_variant st' = st_variant st"
  using assms
  by (auto simp: handle_packet_v3_def Let_def same_clock_def split: option.splits if_splits opcode.splits sum.splits)
     (use subscribe_fields in \<open>auto simp: same_clock_def\<close>)

lemma handle_packet_uninit_fields:
  assumes "handle_packet_uninit lib opc body st = (r, st')"
  shows "same_clock st st' \<and> same_events st st' \<and>
    (st_variant st' = st_variant st \<or> st_variant st' \<in> {Active V1, Active V2, Active V3, UninitV4})"
  using assms by (auto simp: handle_packet_uninit_def same_defs split: if_splits sum.splits)

lemma handle_flat_packet_v4_fields:
  assumes "handle_flat_packet_v4 lib body st = (r, st')"
  shows "same_clock st st' \<and> same_events st st' \<and>
    (st_variant st' = st_variant st \<or>
     (\<exists>p m sid. st_variant st = Active (V4 p m) \<and> st_variant st' = Active (V4 p (Some sid))))"
  using assms
  by (auto simp: handle_flat_packet_v4_def same_defs set_mirroring_session_def
      split: option.splits flat_message.splits if_splits state_variant.splits session_version.splits)

lemma handle_packet_v4_fields:
  assumes "handle_packet_v4 lib opc body st = (r, st')"
  shows "same_clock st st' \<and> same_events st st' \<and>
    (st_variant st' = st_variant st \<or>
     (\<exists>p m sid. st_variant st = Active (V4 p m) \<and> st_variant st' = Active (V4 p (Some sid))))"
  using assms handle_flat_packet_v4_fields
  by (auto simp: handle_packet_v4_def same_defs split: opcode.splits sum.splits)

definition stamped :: "state \<Rightarrow> state" where
  "stamped st = st\<lparr>st_last_packet_received := st_time st, st_waiting_for_pong := False\<rparr>"

lemma packet_event_stamped:
  "packet_event lib opc body st =
     (case st_variant st of
        WaitingForVersion \<Rightarrow> with_str body (stamped st) (\<lambda>b. handle_packet_uninit lib opc b (stamped st))
      | Active V1 \<Rightarrow> with_str body (stamped st) (\<lambda>b. (handle_packet_v1 lib opc b, stamped st))
      | Active V2 \<Rightarrow> with_str body (stamped st) (\<lambda>b. (handle_packet_v2 lib opc b, stamped st))
      | Active V3 \<Rightarrow> with_str body (stamped st) (\<lambda>b. handle_packet_v3 lib opc b (stamped st))
      | Active (V4 _ _) \<Rightarrow> handle_packet_v4 lib opc body (stamped st)
      | UninitV4 \<Rightarrow> (Inr (A_InvalidOpcode opc), stamped st))"
  unfolding packet_event_def Let_def stamped_def by simp

lemma stamped_fields [simp]:
  "st_variant (stamped st) = st_variant st" "st_time (stamped st) = st_time st"
  "st_last_packet_received (stamped st) = st_time st" "\<not> st_waiting_for_pong (stamped st)"
  "same_events st (stamped st)"
  by (simp_all add: stamped_def same_events_def)

lemma with_str_cases:
  assumes "with_str body st k = (r, st')"
  shows "(r, st') = (Inl BodyIsNotUtf8, st) \<or> (\<exists>s. k s = (r, st'))"
  using assms by (auto simp: with_str_def split: option.splits)

text \<open>How a packet can change the variant, and the events only in version 3.\<close>

inductive variant_step :: "state_variant \<Rightarrow> state_variant \<Rightarrow> bool" where
  same: "variant_step v v"
| negotiated: "v \<in> {Active V1, Active V2, Active V3, UninitV4} \<Longrightarrow> variant_step WaitingForVersion v"
| mirroring: "variant_step (Active (V4 p m)) (Active (V4 p (Some sid)))"
| upgraded: "variant_step UninitV4 (Active (V4 None None))"

inductive_simps variant_step_Waiting: "variant_step v WaitingForVersion"
inductive_simps variant_step_Active: "variant_step (Active v) v'"

lemma packet_event_spec:
  assumes "packet_event lib opc body st = (r, st')"
  shows "same_clock (stamped st) st'" and "variant_step (st_variant st) (st_variant st')"
    and "st_variant st = Active V3 \<or> same_events st st'"
proof -
  have refl: "same_clock s s" "same_events s s" for s by (simp_all add: same_defs)
  consider (waiting) "st_variant st = WaitingForVersion" | (v1) "st_variant st = Active V1"
    | (v2) "st_variant st = Active V2" | (v3) "st_variant st = Active V3"
    | (v4) p m where "st_variant st = Active (V4 p m)" | (uninit) "st_variant st = UninitV4"
    by (metis state_variant.exhaust session_version.exhaust)
  then have "same_clock (stamped st) st' \<and> variant_step (st_variant st) (st_variant st') \<and>
      (st_variant st = Active V3 \<or> same_events (stamped st) st')"
  proof cases
    case waiting
    with assms have "with_str body (stamped st) (\<lambda>b. handle_packet_uninit lib opc b (stamped st)) = (r, st')"
      by (simp add: packet_event_stamped)
    from with_str_cases [OF this] waiting show ?thesis
      by (auto simp: refl intro: variant_step.intros dest!: handle_packet_uninit_fields)
  next
    case v3
    with assms have "with_str body (stamped st) (\<lambda>b. handle_packet_v3 lib opc b (stamped st)) = (r, st')"
      by (simp add: packet_event_stamped)
    from with_str_cases [OF this] v3 show ?thesis
      by (auto simp: refl intro: variant_step.intros dest!: handle_packet_v3_fields)
  next
    case v4
    with assms show ?thesis
      by (auto simp: packet_event_stamped intro: variant_step.intros dest!: handle_packet_v4_fields)
  qed (use assms in \<open>auto simp: packet_event_stamped refl intro: variant_step.intros dest!: with_str_cases\<close>)
  then show "same_clock (stamped st) st'" and "variant_step (st_variant st) (st_variant st')"
    and "st_variant st = Active V3 \<or> same_events st st'"
    by (auto simp: same_events_def stamped_def)
qed

section \<open>The heartbeat\<close>

fun advance_all ::
    "library \<Rightarrow> driver_event list \<Rightarrow> state \<Rightarrow> (state_error + action) list \<times> state" where
  "advance_all lib [] st = ([], st)"
| "advance_all lib (ev # evs) st =
     (case advance lib ev st of
        (r, st') \<Rightarrow> (case advance_all lib evs st' of (rs, st'') \<Rightarrow> (r # rs, st'')))"

fun is_packet :: "driver_event \<Rightarrow> bool" where
  "is_packet (PacketEv _ _) = True"
| "is_packet _ = False"

text \<open>The answer to the \<open>n\<close>th tick of a silent sender.\<close>

definition silent_action :: "nat \<Rightarrow> action" where
  "silent_action n =
     (if n = 3 then A_Ping else if 6 \<le> n then EndSession else A_None)"

text \<open>The state after \<open>n\<close> silent ticks.\<close>

definition silent :: "nat \<Rightarrow> state \<Rightarrow> bool" where
  "silent n st \<longleftrightarrow> st_time st - st_last_packet_received st = of_nat n \<and>
     (st_waiting_for_pong st \<longleftrightarrow> 3 \<le> n)"

lemma tick_silent:
  assumes "silent n st" and "Suc n < 2 ^ 32"
  shows "fst (tick st) = silent_action (Suc n) \<and> silent (Suc n) (snd (tick st))"
proof -
  define d where "d = st_time st + 1 - st_last_packet_received st"
  have d: "d = of_nat (Suc n)" using assms(1) by (simp add: d_def silent_def algebra_simps)
  then have "unat d = Suc n" using assms(2) by (simp add: unsigned_of_nat take_bit_nat_eq_self del: of_nat_Suc)
  then have le: "TICKS_BEFORE_PING \<le> d \<longleftrightarrow> 3 \<le> Suc n" "TICKS_BEFORE_PING * 2 \<le> d \<longleftrightarrow> 6 \<le> Suc n"
    by (simp_all add: TICKS_BEFORE_PING_def word_le_nat_alt)
  have "tick st =
     (let st1 = st\<lparr>st_time := st_time st + 1\<rparr>
      in if 3 \<le> Suc n then
           if st_waiting_for_pong st \<and> 6 \<le> Suc n then (EndSession, st1)
           else if \<not> st_waiting_for_pong st then (A_Ping, st1\<lparr>st_waiting_for_pong := True\<rparr>)
           else (A_None, st1)
         else (A_None, st1))"
    by (simp add: tick_def Let_def le [unfolded d_def])
  with assms(1) d show ?thesis
    by (auto simp: silent_def silent_action_def d_def Let_def split: if_splits)
qed

text \<open>What the ticks answer among other events.\<close>

definition tick_actions :: "driver_event list \<Rightarrow> (state_error + action) list \<Rightarrow> (state_error + action) list" where
  "tick_actions evs rs = map snd (filter (\<lambda>(ev, _). ev = Tick) (zip evs rs))"

lemma advance_all_silent:
  assumes "silent n st" and "\<forall>ev \<in> set evs. \<not> is_packet ev"
    and "n + length (filter (\<lambda>ev. ev = Tick) evs) < 2 ^ 32"
  shows "tick_actions evs (fst (advance_all lib evs st)) =
    map (Inr \<circ> silent_action) [Suc n..<Suc (n + length (filter (\<lambda>ev. ev = Tick) evs))]"
  using assms
proof (induction evs arbitrary: n st)
  case Nil
  then show ?case by (simp add: tick_actions_def)
next
  case (Cons ev evs)
  show ?case
  proof (cases "ev = Tick")
    case True
    obtain a st' where t: "tick st = (a, st')" by force
    from tick_silent [OF Cons.prems(1)] Cons.prems(3) t True
    have a: "a = silent_action (Suc n)" "silent (Suc n) st'" by auto
    obtain rs st'' where rs: "advance_all lib evs st' = (rs, st'')" by force
    let ?c = "length (filter (\<lambda>ev. ev = Tick) evs)"
    have "[Suc n..<Suc (n + Suc ?c)] = Suc n # [Suc (Suc n)..<Suc (Suc n + ?c)]"
      by (simp add: upt_conv_Cons del: upt_Suc)
    with Cons.IH [OF a(2)] Cons.prems t True rs a(1) show ?thesis
      by (simp add: tick_actions_def advance_def del: upt_Suc)
  next
    case False
    with Cons.prems obtain a where "advance lib ev st = (Inr a, st)"
      by (cases ev) (auto simp: advance_def)
    with Cons.IH [of n st] Cons.prems False show ?thesis
      by (auto simp: tick_actions_def split: prod.splits)
  qed
qed

text \<open>
  C27: a silent sender is given up: after a packet, whatever else the session is told meanwhile, the third tick
  without another packet pings, the sixth and every later one (the counter wraps after 2^32) ends the session,
  and no other tick does anything.
\<close>

theorem silent_sender_times_out:
  assumes "\<forall>ev \<in> set evs. \<not> is_packet ev" and "n = length (filter (\<lambda>ev. ev = Tick) evs)" and "n < 2 ^ 32"
  shows "tick_actions evs (fst (advance_all lib evs (snd (packet_event lib opc body st)))) =
    map (Inr \<circ> silent_action) [1..<Suc n]"
proof -
  obtain r st' where p: "packet_event lib opc body st = (r, st')" by force
  then have "silent 0 st'"
    using packet_event_spec(1) [OF p] by (simp add: silent_def same_clock_def)
  from advance_all_silent [OF this assms(1)] assms(2,3) p show ?thesis by simp
qed

lemma silent_sender_times_out_witness:
  "\<exists>lib. tick_actions [Tick, Tick, InternalMirroringAnswer ''x'', Tick, Tick, Tick, Tick]
     (fst (advance_all lib [Tick, Tick, InternalMirroringAnswer ''x'', Tick, Tick, Tick, Tick]
       (snd (packet_event lib Op_Pong None state_new)))) =
     map Inr [A_None, A_None, A_Ping, A_None, A_None, EndSession]"
proof -
  let ?evs = "[Tick, Tick, InternalMirroringAnswer ''x'', Tick, Tick, Tick, Tick]"
  from silent_sender_times_out [of ?evs 6 undefined Op_Pong None state_new]
  show ?thesis by (intro exI [of _ undefined]) (simp add: silent_action_def upt_rec)
qed

section \<open>Reachable states\<close>

text \<open>
  A session advances by events, and the driver calls \<open>tls_success\<close> once the upgrade that version 4 asked
  for is done.
\<close>

inductive session_step :: "library \<Rightarrow> state \<Rightarrow> state \<Rightarrow> bool" for lib where
  event: "advance lib ev st = (r, st') \<Longrightarrow> session_step lib st st'"
| upgrade: "st_variant st = UninitV4 \<Longrightarrow> session_step lib st (tls_success st)"

lemma advance_spec:
  assumes "advance lib ev st = (r, st')"
  shows "variant_step (st_variant st) (st_variant st') \<and>
    (st_variant st = Active V3 \<or> same_events st st')"
proof (cases ev)
  case Tick
  with assms show ?thesis
    by (auto simp: advance_def tick_def Let_def same_events_def intro: variant_step.same split: if_splits)
next
  case (PacketEv opc body)
  with assms packet_event_spec [of lib opc body st r st'] show ?thesis by (simp add: advance_def)
qed (use assms in \<open>auto simp: advance_def same_events_def intro: variant_step.same\<close>)

lemma session_step_spec:
  assumes "session_step lib st st'"
  shows "variant_step (st_variant st) (st_variant st') \<and>
    (st_variant st = Active V3 \<or> same_events st st')"
  using assms
  by (cases rule: session_step.cases)
     (auto simp: tls_success_def same_events_def intro: variant_step.intros dest: advance_spec)

definition no_events :: "state \<Rightarrow> bool" where
  "no_events st \<longleftrightarrow> st_media_item_events st = 0 \<and> st_key_name_events_down st = 0 \<and>
     st_key_name_events_up st = 0"

definition events_wf :: "state \<Rightarrow> bool" where
  "events_wf st \<longleftrightarrow> st_variant st = Active V3 \<or> no_events st"

interpretation session_events: invariant_system "\<lambda>st. st = state_new" "session_step lib" events_wf for lib
proof (unfold_locales, goal_cases)
  case (1 s)
  then show ?case by (simp add: events_wf_def no_events_def state_new_def)
next
  case (2 s s')
  from session_step_spec [OF 2(2)] 2(1) show ?case
    by (auto simp: events_wf_def no_events_def same_events_def elim!: variant_step.cases)
qed

text \<open>The versions a message to the sender is for.\<close>

fun understands :: "session_version \<Rightarrow> to_sender_message \<Rightarrow> bool" where
  "understands v (RtsError _) \<longleftrightarrow> v \<in> {V1, V2, V3}"
| "understands v (LegacyTranslatable _ _) \<longleftrightarrow> v \<in> {V1, V2, V3}"
| "understands v (Event _) \<longleftrightarrow> v = V3"
| "understands v (PlayUpdate _) \<longleftrightarrow> v = V3"
| "understands v (RtsV4 _) \<longleftrightarrow> (\<exists>p m. v = V4 p m)"

text \<open>
  In every state a session can reach, a message is forwarded only to a session whose version knows
  it, the message is the one given, and the version passed along for translation is the session's.
\<close>

theorem forwards_only_what_is_understood:
  assumes "(session_step lib)\<^sup>*\<^sup>* state_new st" and "to_sender st msg = Forward v out"
  shows "out = msg \<and> (\<exists>version. st_variant st = Active version \<and> understands version msg \<and>
    (v = Some version \<or> v = None \<and> (\<forall>op m. msg \<noteq> LegacyTranslatable op m)))"
proof -
  have wf: "events_wf st" by (rule session_events.reachable_inv [OF refl assms(1)])
  have contain: "flags_contain 0 f \<longleftrightarrow> f = 0" for f by (auto simp: flags_contain_def)
  show ?thesis
  proof (cases "st_variant st")
    case (Active version)
    with assms(2) wf show ?thesis
      by (cases msg)
         (auto simp: to_sender_def Let_def events_wf_def no_events_def contain Flag_Start_def Flag_End_def
           Flag_Changed_def split: session_version.splits if_splits event_object.splits event_type.splits)
  next
    case WaitingForVersion
    with assms(2) wf show ?thesis
      by (cases msg)
         (auto simp: to_sender_def Let_def events_wf_def no_events_def contain Flag_Start_def Flag_End_def
           Flag_Changed_def split: if_splits event_object.splits event_type.splits)
  next
    case UninitV4
    with assms(2) wf show ?thesis
      by (cases msg)
         (auto simp: to_sender_def Let_def events_wf_def no_events_def contain Flag_Start_def Flag_End_def
           Flag_Changed_def split: if_splits event_object.splits event_type.splits)
  qed
qed

lemma forwards_only_what_is_understood_witness:
  "\<exists>lib. understands V1 (RtsError \<lparr>pe_message = ''x''\<rparr>) \<and>
     to_sender (snd (packet_event lib Op_Pause None state_new)) (RtsError \<lparr>pe_message = ''x''\<rparr>) =
       Forward (Some V1) (RtsError \<lparr>pe_message = ''x''\<rparr>)"
proof -
  let ?lib = "undefined :: library"
  let ?st = "snd (packet_event ?lib Op_Pause None state_new)"
  have v: "st_variant ?st = Active V1"
    by (simp add: packet_event_def with_str_def handle_packet_uninit_def state_new_def)
  have "session_step ?lib state_new ?st"
    by (rule session_step.event [where ev = "PacketEv Op_Pause None"
          and r = "fst (packet_event ?lib Op_Pause None state_new)"]) (simp add: advance_def)
  then have r: "(session_step ?lib)\<^sup>*\<^sup>* state_new ?st" by blast
  have t: "to_sender ?st (RtsError \<lparr>pe_message = ''x''\<rparr>) =
      Forward (Some V1) (RtsError \<lparr>pe_message = ''x''\<rparr>)"
    by (simp add: to_sender_def v)
  from forwards_only_what_is_understood [OF r t] t v show ?thesis by auto
qed

section \<open>The version\<close>

fun same_version :: "session_version \<Rightarrow> session_version \<Rightarrow> bool" where
  "same_version (V4 _ _) v \<longleftrightarrow> (\<exists>p m. v = V4 p m)"
| "same_version v v' \<longleftrightarrow> v = v'"

definition settled_as :: "session_version \<Rightarrow> state \<Rightarrow> bool" where
  "settled_as v st \<longleftrightarrow> (\<exists>v'. st_variant st = Active v' \<and> same_version v v')"

interpretation session_version: invariant_system "\<lambda>st. st_variant st = Active v" "session_step lib" "settled_as v"
  for v lib
proof (unfold_locales, goal_cases)
  case (1 s)
  then show ?case by (cases v) (auto simp: settled_as_def)
next
  case (2 s s')
  from session_step_spec [OF 2(2)] 2(1) show ?case
    by (cases v) (auto simp: settled_as_def variant_step_Active)
qed

definition committed_to_tls :: "state \<Rightarrow> bool" where
  "committed_to_tls st \<longleftrightarrow> st_variant st = UninitV4 \<or> (\<exists>p m. st_variant st = Active (V4 p m))"

interpretation session_tls: invariant_system "\<lambda>st. st_variant st = UninitV4" "session_step lib" committed_to_tls
  for lib
proof (unfold_locales, goal_cases)
  case (2 s s')
  from session_step_spec [OF 2(2)] 2(1) show ?case
    by (auto simp: committed_to_tls_def elim!: variant_step.cases)
qed (simp add: committed_to_tls_def)

text \<open>
  C24: the version is negotiated once: an active session keeps its version whatever it receives, and a
  session that is to continue under TLS never becomes one of the plaintext versions. There it executes
  no packet of the old protocol: other opcodes than the four of version 4 only give an error.
\<close>

theorem version_never_downgraded:
  assumes "(session_step lib)\<^sup>*\<^sup>* st st'"
  shows "(st_variant st = Active v \<longrightarrow> (\<exists>v'. st_variant st' = Active v' \<and> same_version v v')) \<and>
    (st_variant st = UninitV4 \<or> (\<exists>p m. st_variant st = Active (V4 p m)) \<longrightarrow>
       (opc \<in> {Op_Flatbuf, Op_Resource, Op_Ping, Op_Pong} \<and> st_variant st' \<noteq> UninitV4 \<or>
        fst (packet_event lib opc body st') = Inr (A_InvalidOpcode opc)))"
proof -
  have a: "\<exists>v'. st_variant st' = Active v' \<and> same_version v v'" if "st_variant st = Active v" for v
    using session_version.reachable_inv [OF that assms] by (simp add: settled_as_def)
  have "committed_to_tls st'" if "committed_to_tls st"
    using session_tls.steps_inv [OF assms that] .
  moreover have "fst (packet_event lib opc body st') = Inr (A_InvalidOpcode opc)"
    if "committed_to_tls st'" "\<not> (opc \<in> {Op_Flatbuf, Op_Resource, Op_Ping, Op_Pong} \<and> st_variant st' \<noteq> UninitV4)"
    using that
    by (cases opc) (auto simp: committed_to_tls_def packet_event_stamped handle_packet_v4_def)
  ultimately show ?thesis using a by (auto simp: committed_to_tls_def)
qed

lemma version_never_downgraded_witness:
  "st_variant (tls_success state_new) = Active (V4 None None) \<and>
   (\<exists>lib. fst (packet_event lib Op_Play None (tls_success state_new)) = Inr (A_InvalidOpcode Op_Play))"
  using version_never_downgraded [OF rtranclp.rtrancl_refl, of "tls_success state_new" V1 Op_Play]
  by (auto simp: tls_success_def)

text \<open>
  Newer versions extend older ones: a packet that a version 1 session accepts is accepted by a
  version 2 session with the same action, and one that version 2 accepts by version 3.
\<close>

theorem newer_versions_accept_older_packets:
  assumes "packet_event lib opc body (st\<lparr>st_variant := Active old\<rparr>) = (Inr a, st1)"
    and "(old, new) \<in> {(V1, V2), (V2, V3)}"
  shows "packet_event lib opc body (st\<lparr>st_variant := Active new\<rparr>) = (Inr a, st1\<lparr>st_variant := Active new\<rparr>)"
proof -
  consider "old = V1" "new = V2" | "old = V2" "new = V3" using assms(2) by auto
  then show ?thesis
  proof cases
    case 1
    with assms(1) show ?thesis
      by (auto simp: packet_event_stamped stamped_def with_str_def handle_packet_v1_def handle_packet_v2_def
          split: option.splits)
  next
    case 2
    with assms(1) show ?thesis
      by (auto simp: packet_event_stamped stamped_def with_str_def handle_packet_v2_def handle_packet_v3_def
          is_illegal_opcode_def Let_def split: option.splits)
  qed
qed

lemma newer_versions_accept_older_packets_witness:
  "\<exists>lib st1. packet_event lib Op_Ping None (state_new\<lparr>st_variant := Active V3\<rparr>) = (Inr A_Pong, st1)"
proof -
  have "packet_event undefined Op_Ping None (state_new\<lparr>st_variant := Active V2\<rparr>) =
      (Inr A_Pong, stamped (state_new\<lparr>st_variant := Active V2\<rparr>))"
    by (simp add: packet_event_stamped with_str_def handle_packet_v2_def handle_packet_common_def)
  from newer_versions_accept_older_packets [OF this] show ?thesis by blast
qed

section \<open>Event subscriptions\<close>

text \<open>The abstract view: a set of topics. Names that are no known key make no topic.\<close>

datatype topic = MediaTopic event_type | KeyTopic event_type string

fun topics_of :: "event_subscribe \<Rightarrow> topic set" where
  "topics_of SubMediaItemStart = {MediaTopic MediaItemStart}"
| "topics_of SubMediaItemEnd = {MediaTopic MediaItemEnd}"
| "topics_of SubMediaItemChanged = {MediaTopic MediaItemChange}"
| "topics_of (SubKeyDown keys) = KeyTopic KeyDown ` (set keys \<inter> set key_names_all)"
| "topics_of (SubKeyUp keys) = KeyTopic KeyUp ` (set keys \<inter> set key_names_all)"

fun event_topic :: "event_object \<Rightarrow> topic" where
  "event_topic (EvMediaItem variant _) = MediaTopic variant"
| "event_topic (EvKey variant key _ _) = KeyTopic variant key"

definition subscribed :: "state \<Rightarrow> topic set" where
  "subscribed st =
     {MediaTopic v | v f. (v, f) \<in> {(MediaItemStart, Flag_Start), (MediaItemEnd, Flag_End),
        (MediaItemChange, Flag_Changed)} \<and> flags_contain (st_media_item_events st) f} \<union>
     KeyTopic KeyDown ` {k \<in> set key_names_all. flags_contain (st_key_name_events_down st) (key_flag k)} \<union>
     KeyTopic KeyUp ` {k \<in> set key_names_all. flags_contain (st_key_name_events_up st) (key_flag k)}"

text \<open>A single bit is in a set of flags when the bit is set.\<close>

lemma flags_contain_bit:
  assumes "i < 8"
  shows "flags_contain fs (2 ^ i) \<longleftrightarrow> bit fs i"
proof
  assume "flags_contain fs (2 ^ i)"
  then have "bit (fs AND 2 ^ i) i = bit (2 ^ i :: u8) i" by (simp add: flags_contain_def)
  with assms show "bit fs i" by (simp add: bit_and_iff bit_exp_iff)
next
  assume "bit fs i"
  then show "flags_contain fs (2 ^ i)"
    unfolding flags_contain_def
    by (intro bit_word_eqI) (auto simp: bit_and_iff bit_exp_iff)
qed

lemma single_bit:
  "i < 8 \<Longrightarrow> flags_contain (flags_insert a b) (2 ^ i) \<longleftrightarrow>
     flags_contain a (2 ^ i) \<or> flags_contain b (2 ^ i)"
  "i < 8 \<Longrightarrow> flags_contain (flags_remove a b) (2 ^ i) \<longleftrightarrow>
     flags_contain a (2 ^ i) \<and> \<not> flags_contain b (2 ^ i)"
  by (auto simp: flags_contain_bit flags_insert_def flags_remove_def bit_or_iff bit_and_iff bit_not_iff)

lemma key_flag_values:
  "key_flag ''ArrowLeft'' = 1" "key_flag ''ArrowRight'' = 2" "key_flag ''ArrowUp'' = 4"
  "key_flag ''ArrowDown'' = 8" "key_flag ''Enter'' = 16"
  by (simp_all add: key_flag_def)

lemma key_flag_unknown: "k \<notin> set key_names_all \<Longrightarrow> key_flag k = 0"
  by (simp add: key_flag_def key_names_all_def)

lemma known_key_cases:
  assumes "k \<in> set key_names_all"
  obtains "k = ''ArrowLeft''" | "k = ''ArrowRight''" | "k = ''ArrowUp''" | "k = ''ArrowDown''" | "k = ''Enter''"
  using assms by (simp add: key_names_all_def) blast

lemma known_key_bit:
  assumes "k \<in> set key_names_all"
  obtains i where "i < 8" "key_flag k = 2 ^ i"
  using assms
proof (cases rule: known_key_cases)
  case 1
  then show ?thesis using that [of 0] by (simp add: key_flag_values)
next
  case 2
  then show ?thesis using that [of 1] by (simp add: key_flag_values)
next
  case 3
  then show ?thesis using that [of 2] by (simp add: key_flag_values)
next
  case 4
  then show ?thesis using that [of 3] by (simp add: key_flag_values)
next
  case 5
  then show ?thesis using that [of 4] by (simp add: key_flag_values)
qed

lemma contain_key_flag:
  assumes "k \<in> set key_names_all"
  shows "flags_contain (key_flag k') (key_flag k) \<longleftrightarrow> k' = k"
proof (cases "k' \<in> set key_names_all")
  case True
  then show ?thesis
    using assms
    by (elim known_key_cases) (simp_all add: key_flag_values flags_contain_def)
next
  case False
  with assms show ?thesis
    by (cases rule: known_key_cases) (auto simp: key_flag_values key_flag_unknown flags_contain_def key_names_all_def)
qed

lemma contain_key_flags:
  assumes "k \<in> set key_names_all"
  shows "flags_contain (key_flags names) (key_flag k) \<longleftrightarrow> k \<in> set names"
proof -
  obtain i where i: "i < 8" "key_flag k = 2 ^ i" using known_key_bit [OF assms] .
  have "flags_contain (fold (\<lambda>name fs. flags_insert fs (key_flag name)) names fs) (key_flag k) \<longleftrightarrow>
      flags_contain fs (key_flag k) \<or> k \<in> set names" for fs
  proof (induction names arbitrary: fs)
    case (Cons n names)
    then show ?case
      using single_bit(1) [OF i(1)] contain_key_flag [OF assms, of n] by (auto simp: i(2))
  qed simp
  moreover have "\<not> flags_contain 0 (key_flag k)"
    by (simp add: i flags_contain_bit)
  ultimately show ?thesis by (simp add: key_flags_def)
qed

lemma media_flags: "Flag_Start = 2 ^ 0" "Flag_End = 2 ^ 1" "Flag_Changed = 2 ^ 2"
  by (simp_all add: Flag_Start_def Flag_End_def Flag_Changed_def)

lemma media_flag_bits:
  "flags_contain fs Flag_Start \<longleftrightarrow> bit fs 0" "flags_contain fs Flag_End \<longleftrightarrow> bit fs 1"
  "flags_contain fs Flag_Changed \<longleftrightarrow> bit fs 2"
  using flags_contain_bit [of 0 fs] flags_contain_bit [of 1 fs] flags_contain_bit [of 2 fs]
  by (simp_all add: media_flags)

lemma key_flag_insert:
  assumes "k \<in> set key_names_all"
  shows "flags_contain (flags_insert a (key_flags ks)) (key_flag k) \<longleftrightarrow>
      flags_contain a (key_flag k) \<or> k \<in> set ks"
    and "flags_contain (flags_remove a (key_flags ks)) (key_flag k) \<longleftrightarrow>
      flags_contain a (key_flag k) \<and> k \<notin> set ks"
proof -
  obtain i where "i < 8" "key_flag k = 2 ^ i" using known_key_bit [OF assms] .
  then show "flags_contain (flags_insert a (key_flags ks)) (key_flag k) \<longleftrightarrow>
      flags_contain a (key_flag k) \<or> k \<in> set ks"
    "flags_contain (flags_remove a (key_flags ks)) (key_flag k) \<longleftrightarrow>
      flags_contain a (key_flag k) \<and> k \<notin> set ks"
    using single_bit [of i a "key_flags ks"] contain_key_flags [OF assms, of ks] by simp_all
qed

lemma media_flag_insert:
  "i < 8 \<Longrightarrow> bit (flags_insert a b) i \<longleftrightarrow> bit a i \<or> bit b i"
  "i < 8 \<Longrightarrow> bit (flags_remove a b) i \<longleftrightarrow> bit a i \<and> \<not> bit b i"
  by (auto simp: flags_insert_def flags_remove_def bit_or_iff bit_and_iff bit_not_iff)

lemma media_bit_consts:
  "i < 8 \<Longrightarrow> bit Flag_Start i \<longleftrightarrow> i = 0" "i < 8 \<Longrightarrow> bit Flag_End i \<longleftrightarrow> i = 1"
  "i < 8 \<Longrightarrow> bit Flag_Changed i \<longleftrightarrow> i = 2"
  by (auto simp only: media_flags bit_exp_iff) auto

lemma subscribed_iff:
  "MediaTopic v \<in> subscribed st \<longleftrightarrow>
     (case v of MediaItemStart \<Rightarrow> bit (st_media_item_events st) 0
      | MediaItemEnd \<Rightarrow> bit (st_media_item_events st) 1
      | MediaItemChange \<Rightarrow> bit (st_media_item_events st) 2 | _ \<Rightarrow> False)"
  "KeyTopic v k \<in> subscribed st \<longleftrightarrow> k \<in> set key_names_all \<and>
     (case v of KeyDown \<Rightarrow> flags_contain (st_key_name_events_down st) (key_flag k)
      | KeyUp \<Rightarrow> flags_contain (st_key_name_events_up st) (key_flag k) | _ \<Rightarrow> False)"
  by (cases v; auto simp: subscribed_def media_flag_bits)+

lemma topic_set_eqI:
  assumes "\<And>v. MediaTopic v \<in> A \<longleftrightarrow> MediaTopic v \<in> B" and "\<And>v k. KeyTopic v k \<in> A \<longleftrightarrow> KeyTopic v k \<in> B"
  shows "A = B"
  using assms by (intro set_eqI) (metis topic.exhaust)

lemma subscribed_subscribe: "subscribed (subscribe ev st) = subscribed st \<union> topics_of ev"
  by (rule topic_set_eqI; cases ev)
     (auto simp: subscribed_iff subscribe_def key_flag_insert media_flag_insert media_bit_consts
       split: event_type.split)

lemma subscribed_unsubscribe: "subscribed (unsubscribe ev st) = subscribed st - topics_of ev"
  by (rule topic_set_eqI; cases ev)
     (auto simp: subscribed_iff unsubscribe_def key_flag_insert media_flag_insert media_bit_consts
       split: event_type.split)

text \<open>A packet that asks for, or withdraws, a subscription.\<close>

definition sub_packet :: "library \<Rightarrow> bool \<times> event_subscribe \<Rightarrow> driver_event \<Rightarrow> bool" where
  "sub_packet lib r p \<longleftrightarrow>
     (case r of (on, ev) \<Rightarrow>
       (\<exists>bs s. p = PacketEv (if on then Op_SubscribeEvent else Op_UnsubscribeEvent) (Some bs) \<and>
          str_from_utf8 bs = Some s \<and>
          lib_json lib s = Some (if on then subscribe_event_ser \<lparr>se_event = ev\<rparr>
                                 else unsubscribe_event_ser \<lparr>ue_event = ev\<rparr>)))"

definition topic_run :: "(bool \<times> event_subscribe) list \<Rightarrow> topic set \<Rightarrow> topic set" where
  "topic_run subs S = fold (\<lambda>(on, ev) S. if on then S \<union> topics_of ev else S - topics_of ev) subs S"

lemma sub_packet_step:
  assumes "sub_packet lib (on, ev) p" and "st_variant st = Active V3"
  shows "advance lib p st = (Inr A_None, if on then subscribe ev (stamped st) else unsubscribe ev (stamped st))"
proof -
  have "handle_packet_common lib (if on then Op_SubscribeEvent else Op_UnsubscribeEvent) b = None" for b
    by (simp add: handle_packet_common_def)
  with assms show ?thesis
    by (auto simp: sub_packet_def advance_def packet_event_stamped with_str_def handle_packet_v3_def
        handle_packet_v2_def handle_packet_common_def is_illegal_opcode_def Let_def err_body_def
        err_json_def subscribe.roundtrip unsubscribe.roundtrip)
qed

lemma subscribed_stamped: "subscribed (stamped st) = subscribed st"
  by (simp add: subscribed_def stamped_def)

lemma sub_packets_run:
  assumes "list_all2 (sub_packet lib) subs packets" and "st_variant st = Active V3"
  shows "st_variant (snd (advance_all lib packets st)) = Active V3 \<and>
    subscribed (snd (advance_all lib packets st)) = topic_run subs (subscribed st)"
  using assms
proof (induction arbitrary: st rule: list_all2_induct)
  case Nil
  then show ?case by (simp add: topic_run_def)
next
  case (Cons r subs p packets)
  obtain on ev where r: "r = (on, ev)" by (cases r)
  let ?st = "if on then subscribe ev (stamped st) else unsubscribe ev (stamped st)"
  have "st_variant ?st = Active V3" using Cons.prems by simp
  moreover have "subscribed ?st = (if on then subscribed st \<union> topics_of ev else subscribed st - topics_of ev)"
    by (simp add: subscribed_subscribe subscribed_unsubscribe subscribed_stamped)
  moreover have "snd (advance_all lib (p # packets) st) = snd (advance_all lib packets ?st)"
    using sub_packet_step [OF Cons.hyps(1) [unfolded r] Cons.prems] by (simp split: prod.splits)
  ultimately show ?case
    using Cons.IH [of ?st] by (simp add: topic_run_def r del: advance_all.simps)
qed

lemma key_flag_zero: "key_flag k = 0 \<longleftrightarrow> k \<notin> set key_names_all"
proof (cases "k \<in> set key_names_all")
  case True
  then show ?thesis by (cases rule: known_key_cases) (simp_all add: key_flag_values key_names_all_def)
qed (simp add: key_flag_unknown)

lemma to_sender_event:
  assumes "st_variant st = Active V3"
  shows "to_sender st (Event m) =
    (if event_topic (em_event m) \<in> subscribed st then Forward (Some V3) (Event m) else A_None)"
  using assms
  by (cases "em_event m")
     (auto simp: to_sender_def Let_def subscribed_iff media_flag_bits key_flag_zero split: event_type.split)

text \<open>
  Subscriptions are sets of topics: after any sequence of subscribe and unsubscribe packets a
  version 3 session is sent an event exactly when its topic is in the set that results from adding and
  removing, in order, what the packets name. Names that are no known key are ignored.
\<close>

theorem subscriptions_are_sets:
  assumes "st_variant st = Active V3" and "list_all2 (sub_packet lib) subs packets"
  shows "to_sender (snd (advance_all lib packets st)) (Event m) =
    (if event_topic (em_event m) \<in> topic_run subs (subscribed st)
     then Forward (Some V3) (Event m) else A_None)"
  using sub_packets_run [OF assms(2,1)] by (simp add: to_sender_event)

lemma subscriptions_are_sets_witness:
  "\<exists>lib packets. length packets = 2 \<and>
     to_sender (snd (advance_all lib packets (state_new\<lparr>st_variant := Active V3\<rparr>)))
       (Event \<lparr>em_generation_time = 0, em_event = EvKey KeyUp ''Enter'' False False\<rparr>) =
     Forward (Some V3) (Event \<lparr>em_generation_time = 0, em_event = EvKey KeyUp ''Enter'' False False\<rparr>)"
proof -
  let ?on = "SubKeyUp [''Enter'', ''ArrowUp'', ''F1'']" and ?off = "SubKeyUp [''ArrowUp'']"
  let ?lib = "\<lparr>lib_json = (\<lambda>s. Some (if s = ''on'' then subscribe_event_ser \<lparr>se_event = ?on\<rparr>
      else unsubscribe_event_ser \<lparr>ue_event = ?off\<rparr>)), lib_cast = sample_cast, lib_f32 = (\<lambda>_. 0),
      lib_clock = (\<lambda>_. None), lib_root_as_packet = (\<lambda>_. None),
      lib_print = (\<lambda>_. []), lib_flat = (\<lambda>_. []), lib_useconds = id\<rparr>"
  let ?packets = "[PacketEv Op_SubscribeEvent (Some [0x6F, 0x6E]), PacketEv Op_UnsubscribeEvent (Some [0x6F, 0x66])]"
  have utf: "str_from_utf8 [0x6F, 0x6E] = Some ''on''" "str_from_utf8 [0x6F, 0x66] = Some ''of''"
    by code_simp+
  have "list_all2 (sub_packet ?lib) [(True, ?on), (False, ?off)] ?packets"
    by (simp add: sub_packet_def utf)
  from subscriptions_are_sets [OF _ this, of "state_new\<lparr>st_variant := Active V3\<rparr>"
      "\<lparr>em_generation_time = 0, em_event = EvKey KeyUp ''Enter'' False False\<rparr>"]
  show ?thesis
    by (intro exI [of _ ?lib] exI [of _ ?packets])
       (simp add: topic_run_def key_names_all_def)
qed

section \<open>Version 4 packets\<close>

text \<open>
  A version 4 packet never changes more of the session than the mirroring session it starts. The
  session ends by a packet only for a missing body, bytes that are no valid message, a response or a
  queue position that is malformed; in particular no opcode and no payload type ends it. A mirroring
  offer is accepted only for the session started last, and a seek goes to exactly the time asked for.
\<close>

theorem v4_packet_effects:
  assumes "st_variant st = Active (V4 p mid)" and "packet_event lib opc body st = (r, st')"
  shows "same_events st st' \<and>
    (\<exists>mid'. st_variant st' = Active (V4 p mid') \<and>
       (mid' = mid \<or> (\<exists>sid. mid' = Some sid \<and> r = Inr (StartMirroringSession sid)))) \<and>
    (\<forall>e. r = Inl e \<longrightarrow> opc \<in> {Op_Flatbuf, Op_Resource} \<and>
       (e = MissingBody \<and> body = None \<or> e = InvalidBody \<or>
        e = InvalidFlatbuffer \<and> (\<exists>b. body = Some b \<and> lib_root_as_packet lib b = None))) \<and>
    (\<forall>sdp. r = Inr (GotOffer sdp) \<longrightarrow>
       (\<exists>b sid. body = Some b \<and> mid = Some sid \<and>
          map_option payload (lib_root_as_packet lib b) = Some (MMirroringSessionDescription sid sdp))) \<and>
    (\<forall>t. r = Inr (Op (SeekTo t)) \<longrightarrow>
       (\<exists>b micros dur. body = Some b \<and> uint t = uint micros * 1000 \<and>
          map_option payload (lib_root_as_packet lib b) = Some (MProgressChanged (Some micros) dur)))"
proof -
  have mul: "uint micros * 1000 < 2 ^ 64 \<Longrightarrow> uint (micros * 1000) = uint micros * 1000" for micros :: u64
    by (simp add: uint_word_ariths)
  have "handle_packet_v4 lib opc body (stamped st) = (r, st')" using assms by (simp add: packet_event_stamped)
  with assms(1) mul show ?thesis
    by (cases body; cases opc)
       (auto simp: handle_packet_v4_def handle_flat_packet_v4_def set_mirroring_session_def
        handle_resource_packet_def get_queue_position_def same_events_def stamped_def
        split: option.splits sum.splits flat_position.splits if_splits flat_message.splits)
qed

lemma v4_packet_effects_witness:
  "\<exists>lib b micros t. b = [1] \<and> map_option payload (lib_root_as_packet lib b) = Some (MProgressChanged (Some micros) None) \<and>
     fst (packet_event lib Op_Flatbuf (Some b) (tls_success state_new)) = Inr (Op (SeekTo t)) \<and> uint t = 5000"
proof -
  let ?lib = "\<lparr>lib_json = (\<lambda>_. None), lib_cast = sample_cast, lib_f32 = (\<lambda>_. 0), lib_clock = (\<lambda>_. None),
      lib_root_as_packet = (\<lambda>b. Some (Packet (MProgressChanged (Some 5) None))),
      lib_print = (\<lambda>_. []), lib_flat = (\<lambda>_. []), lib_useconds = id\<rparr>"
  obtain r st' where p: "packet_event ?lib Op_Flatbuf (Some [1]) (tls_success state_new) = (r, st')" by force
  then have r: "r = Inr (Op (SeekTo 5000))"
    by (simp add: packet_event_stamped tls_success_def handle_packet_v4_def handle_flat_packet_v4_def)
  have "st_variant (tls_success state_new) = Active (V4 None None)" by (simp add: tls_success_def)
  from v4_packet_effects [OF this p] r have "uint (5000 :: u64) = uint (5 :: u64) * 1000" by auto
  with p r show ?thesis by (intro exI [of _ ?lib] exI [of _ "[1]"] exI [of _ 5] exI [of _ 5000]) simp
qed

section \<open>Rounding\<close>

text \<open>
  A requested progress interval is rounded to the nearest tenth of a second and never below one,
  for every request that leaves room for the rounding in 64 bits; the requests above wrap around to the
  shortest interval.
\<close>

theorem progress_interval_nearest:
  "uint (round_progress_interval micros) mod 100000 = 0 \<and> 100000 \<le> uint (round_progress_interval micros) \<and>
   (if 50000 \<le> uint micros \<and> uint micros < 2 ^ 64 - 50000
    then \<bar>uint (round_progress_interval micros) - uint micros\<bar> \<le> 50000
    else uint (round_progress_interval micros) = 100000)"
proof -
  define s where "s = (uint micros + 50000) mod 2 ^ 64"
  have s: "0 \<le> s" "s < 2 ^ 64" by (simp_all add: s_def)
  have "uint (micros + 50000) = s" by (simp add: s_def uint_word_ariths)
  then have d: "uint ((micros + 50000) div 100000) = s div 100000" by (simp add: uint_div_distrib)
  have st: "uint (max ((micros + 50000) div 100000) 1) = max (s div 100000) 1"
    by (simp add: max_def word_le_def d)
  have lt: "max (s div 100000) 1 * 100000 < 2 ^ 64" using s by (simp add: max_def) linarith
  have "round_progress_interval micros = max ((micros + 50000) div 100000) 1 * 100000"
    by (simp add: round_progress_interval_def Let_def STEP_MICROS_def)
  then have "uint (round_progress_interval micros) = (max (s div 100000) 1 * 100000) mod 2 ^ 64"
    by (simp only: uint_word_ariths st) simp
  then have r: "uint (round_progress_interval micros) = max (s div 100000) 1 * 100000"
    using s(1) lt by (simp del: power_numeral)
  have m: "0 \<le> uint micros" "uint micros < 2 ^ 64" using uint_bounded [of micros] by auto
  show ?thesis
  proof (cases "uint micros < 2 ^ 64 - 50000")
    case True
    then have "s = uint micros + 50000" using m by (simp add: s_def)
    then show ?thesis using True m unfolding r by (auto simp: max_def)
  next
    case False
    have "s = (uint micros + 50000 - 2 ^ 64) mod 2 ^ 64" by (simp only: s_def minus_mod_self2)
    with False m have "s = uint micros + 50000 - 2 ^ 64" by (simp add: mod_pos_pos_trivial)
    then show ?thesis using False m unfolding r by (auto simp: max_def)
  qed
qed

end
