(* ===== verification/Companion_Service.thy ===== *)
theory Companion_Service
  imports Framing Session_State
begin

text \<open>
  Serving companion resources: the sender that answers a resource request
  (sdk/sender/fcast-sender-sdk/src/fcast.rs, \<open>handle_resource_request\<close>, and
  tools/fast/src/engine.rs, \<open>send_companion_resource\<close>), and the receiver that hands the parts of
  the answer to the requester (crates/receiver-core/src/fcast.rs). The stream is the bytes written to
  it; a file is its length and a function that reads at a position at most so many bytes, as
  \<open>File::read\<close> does, which may return fewer than asked for. The receiver's state is its
  \<open>companion_queue\<close> and what it sent to the requesters.
\<close>

section \<open>The sender SDK\<close>

definition resource_bytes_to_read :: "nat \<Rightarrow> nat \<Rightarrow> nat \<Rightarrow> nat" where
  "resource_bytes_to_read start stop_inclusive file_len =
     (if file_len = 0 \<or> file_len \<le> start then 0
      else
        let stop_inclusive = min stop_inclusive (file_len - 1)
        in if stop_inclusive < start then 0 else stop_inclusive - start + 1)"

datatype 'e work_error =
    FileError 'e
  | ShortFile

type_synonym 'e file_read = "nat \<Rightarrow> nat \<Rightarrow> 'e + bytes"

definition FILE_BUF :: nat where
  "FILE_BUF = 1024 * 8"

text \<open>
  The inner loop: \<open>left\<close> is \<open>packet_bytes_to_read\<close>, \<open>todo\<close> is \<open>bytes_to_read\<close>. The result says
  whether it left the outer loop too, and carries the bytes written, the file position and the
  remaining todo.
\<close>

function send_inner ::
    "'e file_read \<Rightarrow> nat \<Rightarrow> nat \<Rightarrow> nat \<Rightarrow> ('e work_error + bool) \<times> bytes \<times> nat \<times> nat" where
  "send_inner read cursor left todo =
     (if left = 0 then (Inr False, [], cursor, todo)
      else case read cursor (min left FILE_BUF) of
        Inl e \<Rightarrow> (Inl (FileError e), [], cursor, todo)
      | Inr buf \<Rightarrow>
          if buf = [] then (Inl ShortFile, [], cursor, todo)
          else
            let n_read = min (length buf) todo
            in if n_read < todo then
                 (case send_inner read (cursor + length buf) (left - n_read) (todo - n_read) of
                    (res, out, cursor', todo') \<Rightarrow> (res, take n_read buf @ out, cursor', todo'))
               else (Inr True, take n_read buf, cursor + length buf, todo))"
  by pat_completeness auto

termination
  by (relation "measure (\<lambda>(read, cursor, left, todo). left)") auto

declare send_inner.simps [simp del]

lemma send_inner_progress:
  "send_inner read cursor left todo = (Inr False, out, cursor', todo') \<Longrightarrow> todo' \<le> todo \<and> (0 < left \<longrightarrow> todo' < todo)"
proof (induction read cursor left todo arbitrary: out cursor' todo' rule: send_inner.induct)
  case (1 read cursor left todo)
  show ?case
  proof (cases "left = 0")
    case True
    with "1.prems" show ?thesis by (simp add: send_inner.simps)
  next
    case False
    with "1.prems" obtain buf where buf: "read cursor (min left FILE_BUF) = Inr buf" "buf \<noteq> []"
        "min (length buf) todo < todo"
      by (subst (asm) send_inner.simps) (auto simp: Let_def split: sum.splits if_splits prod.splits)
    then have lt: "length buf < todo" by simp
    have "send_inner read cursor left todo =
        (case send_inner read (cursor + length buf) (left - min (length buf) todo) (todo - min (length buf) todo) of
           (res, out, cursor', todo') \<Rightarrow> (res, take (min (length buf) todo) buf @ out, cursor', todo'))"
      using False buf lt by (subst send_inner.simps) (simp add: Let_def)
    with "1.prems" obtain out' where
      "send_inner read (cursor + length buf) (left - min (length buf) todo) (todo - min (length buf) todo) =
         (Inr False, out', cursor', todo')"
      by (auto split: prod.splits)
    with "1.IH" [OF False buf(1,2) refl buf(3)] lt have "todo' \<le> todo - length buf" by simp
    moreover have "0 < length buf" using buf(2) by simp
    ultimately show ?thesis using lt by linarith
  qed
qed

definition resource_header :: "u32 \<Rightarrow> u8 \<Rightarrow> u8 \<Rightarrow> nat \<Rightarrow> bytes" where
  "resource_header request_id current total_packets packet_bytes =
     (let response_header = header_success request_id current total_packets;
          sz = 1 + length response_header + packet_bytes
      in u32_to_le_bytes (of_nat sz) @ [opcode_as_u8 Op_Resource] @ response_header)"

function send_outer ::
    "'e file_read \<Rightarrow> u32 \<Rightarrow> u8 \<Rightarrow> u8 \<Rightarrow> nat \<Rightarrow> nat \<Rightarrow> ('e work_error + unit) \<times> bytes" where
  "send_outer read request_id total_packets current cursor todo =
     (if todo = 0 then (Inr (), [])
      else
        let left = min todo MAX_RESOURCE_READ_SIZE;
            head = resource_header request_id current total_packets left
        in case send_inner read cursor left todo of
             (Inl e, out, cursor', todo') \<Rightarrow> (Inl e, head @ out)
           | (Inr quit, out, cursor', todo') \<Rightarrow>
               if quit then (Inr (), head @ out)
               else
                 (case send_outer read request_id total_packets (current + 1) cursor' todo' of
                    (res, out') \<Rightarrow> (res, head @ out @ out')))"
  by pat_completeness auto

termination
  by (relation "measure (\<lambda>(read, request_id, total_packets, current, cursor, todo). todo)")
     (auto dest!: send_inner_progress [OF sym] simp: MAX_RESOURCE_READ_SIZE_def MAX_PACKET_SIZE_def
       max_overhead_def OPCODE_SIZE_def)

declare send_outer.simps [simp del]

text \<open>
  \<open>handle_resource_request\<close>, with the files the sender offers by resource id, once their length is known and
  the seek to the start has worked; that either may fail is \<open>sdk_resource_request\<close> of Sdk_Device, which ends
  the connection with the error before anything is written.
\<close>

definition handle_resource_request ::
    "(u32 \<Rightarrow> (nat \<times> 'e file_read) option) \<Rightarrow> u32 \<Rightarrow> u32 \<Rightarrow> (nat \<times> nat) option \<Rightarrow>
     ('e work_error + unit) \<times> bytes" where
  "handle_resource_request companion_sources request_id resource_id read_head =
     (case companion_sources resource_id of
        None \<Rightarrow>
          let body = resource_response_serialize
                \<lparr>rr_request_id = request_id, rr_part = 0, rr_total_parts = 1, rr_result = NotFound\<rparr>;
              sz = 1 + length body
          in (Inr (), (u32_to_le_bytes (of_nat sz) @ [opcode_as_u8 Op_Resource]) @ body)
      | Some (file_len, read) \<Rightarrow>
          let (start, stop_inclusive) =
                (case read_head of Some h \<Rightarrow> h | None \<Rightarrow> (0, file_len - 1));
              bytes_to_read = resource_bytes_to_read start stop_inclusive file_len;
              total_packets = (bytes_to_read + MAX_RESOURCE_READ_SIZE - 1) div MAX_RESOURCE_READ_SIZE
          in if 255 < total_packets then (Inr (), [])
             else send_outer read request_id (of_nat total_packets) 0 start bytes_to_read)"

section \<open>The test client\<close>

text \<open>\<open>slice.chunks(n)\<close>.\<close>

function chunks :: "nat \<Rightarrow> 'a list \<Rightarrow> 'a list list" where
  "chunks n xs = (if n = 0 \<or> xs = [] then [] else take n xs # chunks n (drop n xs))"
  by pat_completeness auto
termination by (relation "measure (\<lambda>(n, xs). length xs)") auto

declare chunks.simps [simp del]

definition not_found_part_one :: "u32 \<Rightarrow> bytes" where
  "not_found_part_one request_id =
     conn_write Op_Resource (Some (resource_response_serialize
       \<lparr>rr_request_id = request_id, rr_part = 1, rr_total_parts = 1, rr_result = NotFound\<rparr>))"

definition send_companion_resource ::
    "(u32 \<Rightarrow> string option) \<Rightarrow> (u32 \<Rightarrow> bytes option) \<Rightarrow> u32 \<Rightarrow> u32 \<Rightarrow> (nat \<times> nat) option \<Rightarrow> bytes" where
  "send_companion_resource missing resources request_id resource_id read_head =
     (if missing resource_id \<noteq> None then not_found_part_one request_id
      else case resources resource_id of
        None \<Rightarrow> not_found_part_one request_id
      | Some data \<Rightarrow>
          let end' = (case read_head of
                Some (_, stop_inclusive) \<Rightarrow> min ((stop_inclusive + 1) mod 2 ^ 64) (length data)
              | None \<Rightarrow> length data);
              begin' = (case read_head of Some (start, _) \<Rightarrow> min start end' | None \<Rightarrow> 0);
              range = take (end' - begin') (drop begin' data);
              parts = (if range = [] then [[]] else chunks MAX_RESOURCE_READ_SIZE range);
              total_parts = of_nat (length parts)
          in concat (map (\<lambda>(i, chunk).
               conn_write Op_Resource (Some (header_success request_id (of_nat (i + 1)) total_parts @ chunk)))
               (enumerate 0 parts)))"

section \<open>The receiver\<close>

datatype queue_item = GetResourceInfo | GetResource

type_synonym companion_queue = "u32 \<Rightarrow> queue_item option"


text \<open>How the session loop takes a packet apart; an empty packet ends the session.\<close>

definition split_packet :: "bytes \<Rightarrow> (u8 \<times> bytes option) option" where
  "split_packet packet =
     (case packet of
        [] \<Rightarrow> None
      | [op] \<Rightarrow> Some (op, None)
      | op # body \<Rightarrow> Some (op, Some body))"

definition receive_response :: "bytes \<Rightarrow> (state_error + resource_response) option" where
  "receive_response packet =
     (case split_packet packet of
        None \<Rightarrow> None
      | Some (op, body) \<Rightarrow>
          if opcode_try_from op = Inr Op_Resource then Some (handle_resource_packet body) else None)"

text \<open>
  The delivery of a response: the part goes to the requester, and the one whose number is the total
  minus one closes the request.
\<close>

definition saturating_pred :: "u8 \<Rightarrow> u8" where
  "saturating_pred n = (if n = 0 then 0 else n - 1)"

definition on_resource_response ::
    "companion_queue \<Rightarrow> resource_response \<Rightarrow> companion_queue \<times> resource_response list" where
  "on_resource_response q r =
     (case q (rr_request_id r) of
        Some GetResource \<Rightarrow>
          let was_last_part = (rr_part r = saturating_pred (rr_total_parts r))
          in (if was_last_part then q(rr_request_id r := None) else q, [r])
      | Some GetResourceInfo \<Rightarrow> (q, [])
      | None \<Rightarrow> (q, []))"

definition on_resource_info :: "companion_queue \<Rightarrow> u32 \<Rightarrow> companion_queue \<times> bool" where
  "on_resource_info q request_id =
     (case q request_id of
        Some item \<Rightarrow> (q(request_id := None), item = GetResourceInfo)
      | None \<Rightarrow> (q, False))"

fun deliver :: "companion_queue \<Rightarrow> resource_response list \<Rightarrow> companion_queue \<times> resource_response list" where
  "deliver q [] = (q, [])"
| "deliver q (r # rs) =
     (case on_resource_response q r of
        (q', out) \<Rightarrow> (case deliver q' rs of (q'', out') \<Rightarrow> (q'', out @ out')))"

definition response_data :: "resource_response \<Rightarrow> bytes" where
  "response_data r = (case rr_result r of Success d \<Rightarrow> d | NotFound \<Rightarrow> [])"

section \<open>Serving a range\<close>

text \<open>A file that returns at least one byte while there are any, as \<open>File::read\<close> documents.\<close>

definition reads_file :: "'e file_read \<Rightarrow> bytes \<Rightarrow> bool" where
  "reads_file read file \<longleftrightarrow>
     (\<forall>p n. p < length file \<longrightarrow> 0 < n \<longrightarrow>
        (\<exists>k. 0 < k \<and> k \<le> n \<and> p + k \<le> length file \<and> read p n = Inr (take k (drop p file))))"

text \<open>The responses that carry a list of chunks, numbered from \<open>current\<close>.\<close>

fun parts_of :: "u32 \<Rightarrow> u8 \<Rightarrow> u8 \<Rightarrow> bytes list \<Rightarrow> resource_response list" where
  "parts_of i current n [] = []"
| "parts_of i current n (d # ds) =
     \<lparr>rr_request_id = i, rr_part = current, rr_total_parts = n, rr_result = Success d\<rparr> #
     parts_of i (current + 1) n ds"

definition response_packet :: "resource_response \<Rightarrow> bytes" where
  "response_packet r = opcode_as_u8 Op_Resource # resource_response_serialize r"

lemma length_header_success: "length (header_success i p t) = 7"
  by (simp add: header_success_def Let_def)

lemma resource_header_frame:
  "length d = n \<Longrightarrow>
   resource_header i p t n @ d =
     frame (response_packet \<lparr>rr_request_id = i, rr_part = p, rr_total_parts = t, rr_result = Success d\<rparr>)"
  by (simp add: resource_header_def Let_def frame_def response_packet_def length_header_success
      flip: header_success_serialize)

lemma send_inner_reads:
  assumes "reads_file read file" and "left \<le> todo" and "cursor + todo \<le> length file"
  shows "\<exists>c t. send_inner read cursor left todo =
      (Inr (0 < left \<and> left = todo), take left (drop cursor file), c, t) \<and>
      (left < todo \<longrightarrow> c = cursor + left \<and> t = todo - left)"
  using assms(2,3)
proof (induction left arbitrary: cursor todo rule: less_induct)
  case (less left)
  show ?case
  proof (cases "left = 0")
    case True
    then show ?thesis by (subst send_inner.simps) auto
  next
    case False
    define m where "m = min left FILE_BUF"
    have m: "0 < m" "m \<le> left" using False by (simp_all add: m_def FILE_BUF_def)
    moreover have "cursor < length file" using False less.prems by simp
    ultimately obtain k where k: "0 < k" "k \<le> m" "cursor + k \<le> length file"
        "read cursor m = Inr (take k (drop cursor file))"
      using assms(1) unfolding reads_file_def by blast
    define buf where "buf = take k (drop cursor file)"
    have len: "length buf = k" and ne: "buf \<noteq> []" using k(1,3) by (auto simp: buf_def)
    have rd: "read cursor (min left FILE_BUF) = Inr buf" using k(4) by (simp add: buf_def m_def)
    have n: "min (length buf) todo = k" using k(2) m(2) less.prems(1) len by simp
    show ?thesis
    proof (cases "k < todo")
      case True
      have smaller: "left - k < left" "left - k \<le> todo - k" "cursor + k + (todo - k) \<le> length file"
        using k(1) False True less.prems by simp_all
      obtain c t where rec: "send_inner read (cursor + k) (left - k) (todo - k) =
          (Inr (0 < left - k \<and> left - k = todo - k), take (left - k) (drop (cursor + k) file), c, t)"
          "left - k < todo - k \<longrightarrow> c = cursor + k + (left - k) \<and> t = todo - k - (left - k)"
        using less.IH [OF smaller] by blast
      have "send_inner read cursor left todo =
          (Inr (0 < left - k \<and> left - k = todo - k), buf @ take (left - k) (drop (cursor + k) file), c, t)"
        using False rd ne n True rec(1) len
        by (subst send_inner.simps) (simp add: Let_def)
      moreover have "buf @ take (left - k) (drop (cursor + k) file) = take left (drop cursor file)"
        using take_add [of k "left - k" "drop cursor file"] k(2) m(2) by (simp add: buf_def add.commute)
      moreover have "(0 < left - k \<and> left - k = todo - k) = (0 < left \<and> left = todo)"
        using True k(2) m(2) False less.prems(1) by auto
      ultimately show ?thesis using rec(2) k(2) m(2) less.prems(1) by auto
    next
      case eq: False
      then have "left = todo" "k = left" using k(2) m(2) less.prems(1) by simp_all
      with False rd ne n eq len have "send_inner read cursor left todo = (Inr True, buf, cursor + k, todo)"
        by (subst send_inner.simps) (simp add: Let_def)
      with \<open>left = todo\<close> \<open>k = left\<close> False show ?thesis by (simp add: buf_def)
    qed
  qed
qed

lemma send_outer_reads:
  assumes "reads_file read file" and "cursor + todo \<le> length file"
  shows "send_outer read i n current cursor todo =
    (Inr (), concat (map (\<lambda>r. frame (response_packet r))
       (parts_of i current n (chunks MAX_RESOURCE_READ_SIZE (take todo (drop cursor file))))))"
  using assms(2)
proof (induction todo arbitrary: cursor current rule: less_induct)
  case (less todo)
  let ?m = MAX_RESOURCE_READ_SIZE
  have m: "0 < ?m" by (simp add: MAX_RESOURCE_READ_SIZE_def MAX_PACKET_SIZE_def max_overhead_def OPCODE_SIZE_def)
  show ?case
  proof (cases "todo = 0")
    case True
    then show ?thesis by (subst send_outer.simps) (simp add: chunks.simps)
  next
    case False
    define left where "left = min todo ?m"
    define d where "d = take left (drop cursor file)"
    have left: "left \<le> todo" "0 < left" using False m by (simp_all add: left_def)
    have len: "length d = left" using less.prems left by (simp add: d_def)
    obtain c t where s: "send_inner read cursor left todo = (Inr (left = todo), d, c, t)"
        "left < todo \<longrightarrow> c = cursor + left \<and> t = todo - left"
      using send_inner_reads [OF assms(1) left(1) less.prems] left(2) by (auto simp: d_def)
    let ?r = "take todo (drop cursor file)"
    have "?r \<noteq> []" using less.prems False by simp
    moreover have "take ?m ?r = d" by (simp add: d_def left_def take_take min.commute)
    ultimately have ch: "chunks ?m ?r = d # chunks ?m (drop ?m ?r)"
      using m by (subst chunks.simps) simp
    note fr = resource_header_frame [OF len, of i current n]
    show ?thesis
    proof (cases "left = todo")
      case True
      then have "drop ?m ?r = []" by (simp add: left_def min_def split: if_splits)
      with ch have "chunks ?m ?r = [d]" by (simp add: chunks.simps)
      moreover have "send_outer read i n current cursor todo = (Inr (), resource_header i current n left @ d)"
        using False s True by (subst send_outer.simps) (simp add: Let_def left_def [symmetric])
      ultimately show ?thesis using fr by simp
    next
      case lt: False
      then have lm: "left = ?m" and ct: "c = cursor + left" "t = todo - left"
        using left s(2) by (auto simp: left_def min_def)
      have "drop ?m ?r = take t (drop c file)" by (simp add: ct lm drop_take add.commute)
      moreover have "send_outer read i n (current + 1) c t =
          (Inr (), concat (map (\<lambda>r. frame (response_packet r)) (parts_of i (current + 1) n (chunks ?m (take t (drop c file))))))"
        using less.IH [of t c "current + 1"] left less.prems by (simp add: ct)
      moreover have "send_outer read i n current cursor todo =
          (case send_outer read i n (current + 1) c t of
             (res, out') \<Rightarrow> (res, resource_header i current n left @ d @ out'))"
        using False s(1) lt by (subst send_outer.simps) (simp add: Let_def left_def [symmetric])
      ultimately show ?thesis using ch fr by simp
    qed
  qed
qed

section \<open>Delivering the parts\<close>

lemma length_chunks: "0 < n \<Longrightarrow> length (chunks n xs) = (length xs + n - 1) div n"
proof (induction n xs rule: chunks.induct)
  case (1 n xs)
  show ?case
  proof (cases "xs = []")
    case True
    then show ?thesis using 1(2) by (simp add: chunks.simps)
  next
    case False
    then have l: "0 < length xs" by simp
    have "length (chunks n xs) = Suc ((length xs - n + n - 1) div n)"
      using 1 False by (subst chunks.simps) simp
    also have "\<dots> = (length xs + n - 1) div n"
    proof (cases "n \<le> length xs")
      case True
      then have "length xs + n - 1 = (length xs - n + n - 1) + n" using l by simp
      then show ?thesis using 1(2) by (metis Suc_eq_plus1 div_add_self2 less_numeral_extra(3))
    next
      case False
      then have e: "length xs + n - 1 = (length xs - 1) + n" and lt: "length xs - 1 < n"
        using l 1(2) by linarith+
      have "((length xs - 1) + n) div n = Suc ((length xs - 1) div n)"
        using 1(2) by (simp add: div_add_self2)
      also have "(length xs - 1) div n = 0" using lt by (rule div_less)
      also have "Suc 0 = Suc ((length xs - n + n - 1) div n)" using False 1(2) by simp
      finally show ?thesis unfolding e by (rule sym)
    qed
    finally show ?thesis .
  qed
qed

lemma concat_chunks: "0 < n \<Longrightarrow> concat (chunks n xs) = xs"
  by (induction n xs rule: chunks.induct) (subst chunks.simps, auto)

lemma chunk_lengths: "d \<in> set (chunks n xs) \<Longrightarrow> length d \<le> n"
  by (induction n xs rule: chunks.induct) (subst (asm) (2) chunks.simps, auto split: if_splits)

lemma parts_of_append:
  "parts_of i c n (xs @ ys) = parts_of i c n xs @ parts_of i (c + of_nat (length xs)) n ys"
  by (induction xs arbitrary: c) (simp_all add: add.assoc)

lemma length_parts_of [simp]: "length (parts_of i c n ds) = length ds"
  by (induction ds arbitrary: c) simp_all

lemma parts_of_data [simp]: "concat (map response_data (parts_of i c n ds)) = concat ds"
  by (induction ds arbitrary: c) (simp_all add: response_data_def)

lemma deliver_append:
  "deliver q (xs @ ys) =
     (case deliver q xs of (q', out) \<Rightarrow> (case deliver q' ys of (q'', out') \<Rightarrow> (q'', out @ out')))"
  by (induction xs arbitrary: q) (auto split: prod.splits)

text \<open>Parts that are not the last one leave the request open.\<close>

lemma deliver_open:
  "q i = Some GetResource \<Longrightarrow> (\<forall>j < length ds. c + of_nat j \<noteq> saturating_pred n) \<Longrightarrow>
   deliver q (parts_of i c n ds) = (q, parts_of i c n ds)"
proof (induction ds arbitrary: c)
  case (Cons d ds)
  from Cons.prems(2) have "c \<noteq> saturating_pred n" by force
  moreover have "\<forall>j < length ds. c + 1 + of_nat j \<noteq> saturating_pred n"
    using Cons.prems(2) by (metis Suc_less_eq add.assoc length_Cons of_nat_Suc)
  ultimately show ?case
    using Cons by (simp add: on_resource_response_def)
qed simp

lemma of_nat_u8_eq: "a < 256 \<Longrightarrow> b < 256 \<Longrightarrow> (of_nat a :: u8) = of_nat b \<longleftrightarrow> a = b"
  by (simp add: word_of_nat_eq_iff take_bit_nat_eq_self)

text \<open>Numbered from zero, the last part is the one that closes the request.\<close>

lemma deliver_zero_based:
  assumes "q i = Some GetResource" and "ds \<noteq> []" and "length ds \<le> 255"
  shows "deliver q (parts_of i 0 (of_nat (length ds)) ds) =
    (q(i := None), parts_of i 0 (of_nat (length ds)) ds)"
proof -
  obtain xs d where ds: "ds = xs @ [d]" using assms(2) by (metis rev_exhaust)
  have last: "saturating_pred (of_nat (length ds)) = of_nat (length xs)"
    using assms(3) of_nat_u8_eq [of "Suc (length xs)" 0] by (simp add: saturating_pred_def ds)
  have "(0 :: u8) + of_nat j \<noteq> saturating_pred (of_nat (length ds))" if "j < length xs" for j
    using that assms(3) of_nat_u8_eq [of j "length xs"] unfolding last by (simp add: ds)
  then have "deliver q (parts_of i 0 (of_nat (length ds)) xs) = (q, parts_of i 0 (of_nat (length ds)) xs)"
    using assms(1) by (intro deliver_open) auto
  moreover have "parts_of i 0 (of_nat (length ds)) ds = parts_of i 0 (of_nat (length ds)) xs @
      parts_of i (of_nat (length xs)) (of_nat (length ds)) [d]"
    unfolding ds by (simp add: parts_of_append)
  ultimately show ?thesis
    using assms(1) last by (simp add: deliver_append on_resource_response_def)
qed

text \<open>Numbered from one, the last but one closes it and the last finds no request.\<close>

lemma deliver_one_based:
  assumes "q i = Some GetResource" and "2 \<le> length ds" and "length ds \<le> 255"
  shows "deliver q (parts_of i 1 (of_nat (length ds)) ds) =
    (q(i := None), butlast (parts_of i 1 (of_nat (length ds)) ds))"
proof -
  obtain ys z where "ds = ys @ [z]" using assms(2) by (cases ds rule: rev_cases) auto
  moreover obtain xs y where "ys = xs @ [y]" using assms(2) calculation by (cases ys rule: rev_cases) auto
  ultimately have ds: "ds = xs @ [y, z]" by simp
  let ?n = "of_nat (length ds) :: u8"
  have last: "saturating_pred ?n = 1 + of_nat (length xs)"
    using assms(3) of_nat_u8_eq [of "Suc (Suc (length xs))" 0] by (simp add: saturating_pred_def ds)
  have "(1 :: u8) + of_nat j \<noteq> saturating_pred ?n" if "j < length xs" for j
    using that assms(3) of_nat_u8_eq [of j "length xs"] unfolding last by (simp add: ds)
  then have "deliver q (parts_of i 1 ?n xs) = (q, parts_of i 1 ?n xs)"
    using assms(1) by (intro deliver_open) auto
  moreover have "parts_of i 1 ?n ds = parts_of i 1 ?n xs @ parts_of i (1 + of_nat (length xs)) ?n [y, z]"
    unfolding ds by (simp add: parts_of_append)
  ultimately show ?thesis
    using assms(1) last by (simp add: deliver_append on_resource_response_def butlast_append)
qed

section \<open>Properties\<close>

lemma receive_response_packet: "receive_response (response_packet r) = Some (Inr r)"
proof -
  have "resource_response_serialize r \<noteq> []" by (simp add: resource_response_serialize_append)
  then obtain a b where s: "resource_response_serialize r = a # b"
    by (cases "resource_response_serialize r") auto
  moreover have "opcode_try_from 21 = Inr Op_Resource"
    using opcode_try_from_as_u8 [of Op_Resource] by simp
  ultimately show ?thesis
    using resource_response_parse_serialize [of r]
    by (simp add: receive_response_def split_packet_def response_packet_def handle_resource_packet_def)
qed

text \<open>Nothing of the serving loop is left when a reader has seen all the frames.\<close>

definition READ_HEADROOM :: nat where
  "READ_HEADROOM = 1024 * 8"

text \<open>
  The session's read loop reduced to its reader: the reads of the stream go through the refill path and
  the packets come out. It stands for the session loop while nothing but the answer arrives; what the
  whole loop does with a stream of packets is \<open>session_refines_packets\<close> in Session_Stream.
\<close>

definition read_session :: "bytes list \<Rightarrow> (bytes list \<times> nat option \<times> packet_reader) option" where
  "read_session cs =
     read_loop refill get_packet (4 + MAX_PACKET_SIZE + READ_HEADROOM)
       (reader_new MAX_PACKET_SIZE READ_HEADROOM) cs"

lemma read_session_responses:
  assumes "concat cs = concat (map (\<lambda>r. frame (response_packet r)) rs)"
    and "reads_fit MAX_PACKET_SIZE (4 + MAX_PACKET_SIZE + READ_HEADROOM) [] cs"
    and "\<forall>r \<in> set rs. length (response_data r) \<le> MAX_RESOURCE_READ_SIZE"
  shows "\<exists>r. read_session cs = Some (map response_packet rs, None, r)"
proof -
  have "packet_ok MAX_PACKET_SIZE (response_packet r)" if "r \<in> set rs" for r
    using assms(3) that
    by (cases "rr_result r")
       (auto simp: packet_ok_def response_packet_def resource_response_serialize_append response_data_def
         MAX_RESOURCE_READ_SIZE_def MAX_PACKET_SIZE_def max_overhead_def OPCODE_SIZE_def dest!: bspec)
  then show ?thesis
    using new_reader_frames [of "map response_packet rs" MAX_PACKET_SIZE cs READ_HEADROOM] assms(1,2)
    by (auto simp: read_session_def comp_def)
qed

lemma parts_of_lengths:
  "\<forall>d \<in> set ds. length d \<le> n \<Longrightarrow> r \<in> set (parts_of i c t ds) \<Longrightarrow> length (response_data r) \<le> n"
  by (induction ds arbitrary: c) (auto simp: response_data_def)

text \<open>
  C2: fetching a range of a companion resource, end to end: whatever short reads the file makes and
  however the network cuts the stream, up to what the spare tail of the receiver's buffer holds at each
  read, the receiver's session, while no other packet comes in between, reads back exactly one resource
  packet per part, every part reaches the requester, the request closes with the last of them and the parts
  together are the requested bytes. The range must not be empty and must fit 255 parts.
\<close>

theorem companion_fetch_complete:
  assumes "reads_file read file" and "sources resource_id = Some (length file, read)"
    and "n = resource_bytes_to_read start stop (length file)" and "0 < n"
    and "n \<le> 255 * MAX_RESOURCE_READ_SIZE" and "q request_id = Some GetResource"
    and "concat cs = snd (handle_resource_request sources request_id resource_id (Some (start, stop)))"
    and "reads_fit MAX_PACKET_SIZE (4 + MAX_PACKET_SIZE + READ_HEADROOM) [] cs"
  shows "fst (handle_resource_request sources request_id resource_id (Some (start, stop))) = Inr () \<and>
    (\<exists>ps r rs. read_session cs = Some (ps, None, r) \<and> map receive_response ps = map (Some \<circ> Inr) rs \<and>
       deliver q rs = (q(request_id := None), rs) \<and>
       concat (map response_data rs) = take n (drop start file))"
proof -
  let ?m = MAX_RESOURCE_READ_SIZE
  let ?range = "take n (drop start file)"
  let ?ds = "chunks ?m ?range"
  let ?rs = "parts_of request_id 0 (of_nat (length ?ds)) ?ds"
  have m: "0 < ?m"
    by (simp add: MAX_RESOURCE_READ_SIZE_def MAX_PACKET_SIZE_def max_overhead_def OPCODE_SIZE_def)
  have fits: "start + n \<le> length file"
    using assms(3,4) by (auto simp: resource_bytes_to_read_def Let_def split: if_splits)
  have total: "length ?ds = (n + ?m - 1) div ?m"
    using fits m by (simp add: length_chunks)
  have "n + ?m - 1 < 256 * ?m" using assms(5) m by linarith
  then have le: "length ?ds \<le> 255" unfolding total using less_mult_imp_div_less by fastforce
  have sent: "handle_resource_request sources request_id resource_id (Some (start, stop)) =
      (Inr (), concat (map (\<lambda>r. frame (response_packet r)) ?rs))"
    using send_outer_reads [OF assms(1) fits, of request_id "of_nat (length ?ds)" 0] le
    by (simp add: handle_resource_request_def assms(2) total flip: assms(3))
  obtain r where r: "read_session cs = Some (map response_packet ?rs, None, r)"
    using read_session_responses [of cs ?rs] assms(7,8) parts_of_lengths [of ?ds ?m] chunk_lengths
    unfolding sent by (metis snd_conv)
  have "?ds \<noteq> []" using assms(4) fits m by (subst chunks.simps) auto
  with deliver_zero_based [of q request_id ?ds] assms(6) le
  have d: "deliver q ?rs = (q(request_id := None), ?rs)" by simp
  have "map receive_response (map response_packet ?rs) = map (Some \<circ> Inr) ?rs"
    by (simp add: receive_response_packet)
  moreover have "concat (map response_data ?rs) = ?range" by (simp add: concat_chunks [OF m])
  moreover have "fst (handle_resource_request sources request_id resource_id (Some (start, stop))) = Inr ()"
    by (simp add: sent)
  ultimately show ?thesis using r d by blast
qed

definition sample_file :: bytes where
  "sample_file = [10, 11, 12, 13]"

definition sample_read :: "unit file_read" where
  "sample_read p n = Inr (take (min n 2) (drop p sample_file))"

lemma sample_reads: "reads_file sample_read sample_file"
  unfolding reads_file_def
proof (intro allI impI)
  fix p n
  assume "p < length sample_file" and "0 < (n :: nat)"
  then show "\<exists>k>0. k \<le> n \<and> p + k \<le> length sample_file \<and> sample_read p n = Inr (take k (drop p sample_file))"
    by (intro exI [of _ "min (min n 2) (length sample_file - p)"]) (auto simp: sample_read_def min_def)
qed

lemma companion_fetch_complete_witness:
  "\<exists>ps r rs. read_session [[11, 0, 0, 0, 21, 7, 0], [0, 0, 0, 1, 1, 11, 12, 13]] = Some (ps, None, r) \<and>
     map receive_response ps = map (Some \<circ> Inr) rs \<and>
     deliver ((\<lambda>_. None)(7 := Some GetResource)) rs = (((\<lambda>_. None)(7 := Some GetResource))(7 := None), rs) \<and>
     concat (map response_data rs) = [11, 12, 13]"
proof -
  let ?sources = "(\<lambda>_. None)(3 := Some (4, sample_read))"
  let ?q = "(\<lambda>_. None)(7 := Some GetResource)"
  let ?cs = "[[11, 0, 0, 0, 21, 7, 0], [0, 0, 0, 1, 1, 11, 12, 13]]"
  have src: "?sources 3 = Some (length sample_file, sample_read)" by (simp add: sample_file_def)
  have n: "3 = resource_bytes_to_read 1 9 (length sample_file)"
    by (simp add: resource_bytes_to_read_def sample_file_def)
  have n4: "resource_bytes_to_read 1 9 4 = 3" by (simp add: resource_bytes_to_read_def)
  have "chunks MAX_RESOURCE_READ_SIZE [11, 12, 13 :: u8] = [[11, 12, 13]]"
    by (subst chunks.simps, subst chunks.simps)
       (simp add: MAX_RESOURCE_READ_SIZE_def MAX_PACKET_SIZE_def max_overhead_def OPCODE_SIZE_def)
  moreover have "(3 + MAX_RESOURCE_READ_SIZE - 1) div MAX_RESOURCE_READ_SIZE = 1"
    by (simp add: MAX_RESOURCE_READ_SIZE_def MAX_PACKET_SIZE_def max_overhead_def OPCODE_SIZE_def)
  moreover have "frame (response_packet \<lparr>rr_request_id = 7, rr_part = 0, rr_total_parts = 1,
      rr_result = Success [11, 12, 13]\<rparr>) = concat ?cs" by code_simp
  ultimately have out: "concat ?cs = snd (handle_resource_request ?sources 7 3 (Some (1, 9)))"
    using send_outer_reads [OF sample_reads, of 1 3 7 1 0] n4
    by (simp add: handle_resource_request_def sample_file_def Let_def)
  have "reads_fit MAX_PACKET_SIZE (4 + MAX_PACKET_SIZE + READ_HEADROOM) [] ?cs"
    by (simp add: READ_HEADROOM_def MAX_PACKET_SIZE_def parse_all.simps parse_frame_def
        u32_from_le_bytes_def Let_def)
  moreover have "?q 7 = Some GetResource" by simp
  moreover have "(3 :: nat) \<le> 255 * MAX_RESOURCE_READ_SIZE"
    by (simp add: MAX_RESOURCE_READ_SIZE_def MAX_PACKET_SIZE_def max_overhead_def OPCODE_SIZE_def)
  ultimately show ?thesis
    using companion_fetch_complete [of sample_read sample_file ?sources 3 3 1 9 ?q 7 ?cs, OF sample_reads src n]
      out by (simp add: sample_file_def numeral_3_eq_3)
qed

text \<open>
  The test client numbers its parts from one, the receiver counts from zero: a resource in a
  single part is delivered but its request never closes, and of one in several parts the receiver
  closes the request one part early and drops the last part.
\<close>

theorem one_based_parts_lose_the_last:
  assumes "missing resource_id = None" and "resources resource_id = Some data"
    and "n = (length data + MAX_RESOURCE_READ_SIZE - 1) div MAX_RESOURCE_READ_SIZE" and "n \<le> 255"
    and "q request_id = Some GetResource"
  shows "\<exists>rs. send_companion_resource missing resources request_id resource_id None =
      concat (map (\<lambda>r. frame (response_packet r)) rs) \<and>
    concat (map response_data rs) = data \<and>
    deliver q rs = (if n < 2 then (q, rs) else (q(request_id := None), butlast rs))"
proof -
  let ?m = MAX_RESOURCE_READ_SIZE
  define ds where "ds = (if data = [] then [[]] else chunks ?m data)"
  have m: "0 < ?m"
    by (simp add: MAX_RESOURCE_READ_SIZE_def MAX_PACKET_SIZE_def max_overhead_def OPCODE_SIZE_def)
  have len: "length ds = (if n < 1 then 1 else n)"
  proof (cases "data = []")
    case True
    then have "n = 0" using m assms(3) by simp
    with True show ?thesis by (simp add: ds_def)
  next
    case False
    then have "length ds = n" using m assms(3) by (simp add: ds_def length_chunks)
    moreover have "ds \<noteq> []" using False m by (simp add: ds_def chunks.simps)
    ultimately show ?thesis by (cases ds) auto
  qed
  have num: "concat (map (\<lambda>(i, c). conn_write Op_Resource (Some (header_success request_id (of_nat (i + 1)) t @ c)))
      (enumerate k xs)) =
    concat (map (\<lambda>r. frame (response_packet r)) (parts_of request_id (of_nat (k + 1)) t xs))" for k t xs
    by (induction xs arbitrary: k)
       (simp_all add: writers_frame response_packet_def header_success_serialize ac_simps)
  have "send_companion_resource missing resources request_id resource_id None =
      concat (map (\<lambda>r. frame (response_packet r)) (parts_of request_id 1 (of_nat (length ds)) ds))"
    using num [where k = 0 and t = "of_nat (length ds)" and xs = ds]
    by (cases "data = []") (simp_all add: send_companion_resource_def assms(1,2) ds_def Let_def)
  moreover have "concat ds = data" using concat_chunks [OF m, of data] by (simp add: ds_def)
  moreover have "deliver q (parts_of request_id 1 (of_nat (length ds)) ds) =
      (if n < 2 then (q, parts_of request_id 1 (of_nat (length ds)) ds)
       else (q(request_id := None), butlast (parts_of request_id 1 (of_nat (length ds)) ds)))"
  proof (cases "n < 2")
    case True
    with len have "length ds = 1" by auto
    moreover have "(1 :: u8) \<noteq> saturating_pred 1" by (simp add: saturating_pred_def)
    ultimately show ?thesis
      using True assms(5) deliver_open [of q request_id ds 1 "of_nat (length ds)"] by simp
  next
    case False
    with len assms(4) have "2 \<le> length ds" "length ds \<le> 255" by auto
    with False deliver_one_based [of q request_id ds] assms(5) show ?thesis by simp
  qed
  ultimately show ?thesis by (metis parts_of_data)
qed

lemma one_based_parts_lose_the_last_witness:
  "\<exists>rs. send_companion_resource (\<lambda>_. None) (\<lambda>_. Some [1, 2, 3]) 7 3 None =
      concat (map (\<lambda>r. frame (response_packet r)) rs) \<and>
    deliver ((\<lambda>_. None)(7 := Some GetResource)) rs = ((\<lambda>_. None)(7 := Some GetResource), rs)"
proof -
  have "(length [1, 2, 3 :: u8] + MAX_RESOURCE_READ_SIZE - 1) div MAX_RESOURCE_READ_SIZE = 1"
    by (simp add: MAX_RESOURCE_READ_SIZE_def MAX_PACKET_SIZE_def max_overhead_def OPCODE_SIZE_def)
  with one_based_parts_lose_the_last [of "\<lambda>_. None" 3 "\<lambda>_. Some [1, 2, 3]" "[1, 2, 3]" 1
      "(\<lambda>_. None)(7 := Some GetResource)" 7] show ?thesis by auto
qed

end
