(* ===== verification/Session_Driver.thy ===== *)
theory Session_Driver
  imports Session_Output Session_Proofs Companion_Service
begin

text \<open>
  The driver of one sender's session (\<open>SessionDriver\<close> of crates/receiver-core/src/fcast.rs): what it does
  for each action of the state machine, how it reads packets, the switch to TLS, and the registry of
  companion providers that all sessions share.

  A run of the driver is a sequence of events, one per turn of its \<open>select!\<close> loop. What it does to the
  world is the list of effects: bytes written, operations handed to the application, responses handed
  to whoever asked. A write always succeeds here; a write that fails ends the session as any other
  error does. The TLS acceptor is a parameter: whether the upgrade with the given prefix succeeds.
\<close>

section \<open>Single-precision floats\<close>

text \<open>Comparison on the bit patterns: both zeros are equal, a NaN compares with nothing.\<close>

definition f32_is_nan :: "f32 \<Rightarrow> bool" where
  "f32_is_nan x \<longleftrightarrow> 0x7F800000 < x AND 0x7FFFFFFF"

definition f32_is_finite :: "f32 \<Rightarrow> bool" where
  "f32_is_finite x \<longleftrightarrow> x AND 0x7FFFFFFF < 0x7F800000"

definition f32_rank :: "f32 \<Rightarrow> int" where
  "f32_rank x = (if bit x 31 then - uint (x AND 0x7FFFFFFF) else uint (x AND 0x7FFFFFFF))"

definition f32_less :: "f32 \<Rightarrow> f32 \<Rightarrow> bool" where
  "f32_less x y \<longleftrightarrow> \<not> f32_is_nan x \<and> \<not> f32_is_nan y \<and> f32_rank x < f32_rank y"

definition f32_eq :: "f32 \<Rightarrow> f32 \<Rightarrow> bool" where
  "f32_eq x y \<longleftrightarrow> \<not> f32_is_nan x \<and> \<not> f32_is_nan y \<and> f32_rank x = f32_rank y"

definition F32_ZERO :: f32 where "F32_ZERO = 0"
definition F32_ONE :: f32 where "F32_ONE = 0x3F800000"

text \<open>\<open>0.01\<close> as \<open>f32\<close>.\<close>

definition VOLUME_STEP :: f32 where "VOLUME_STEP = 0x3C23D70A"

definition f32_clamp :: "f32 \<Rightarrow> f32 \<Rightarrow> f32 \<Rightarrow> f32" where
  "f32_clamp lo hi x =
     (let y = (if f32_less x lo then lo else x) in if f32_less hi y then hi else y)"

section \<open>The provider registry\<close>

text \<open>
  \<open>InnerCompanionContext\<close>: which session answers for a provider id. \<open>register_provider\<close> counts up from
  zero to the first free id; when all are taken the loop does not end, which is \<open>None\<close>.
\<close>

type_synonym registry = "u16 \<Rightarrow> sender_id option"

fun first_free :: "nat \<Rightarrow> registry \<Rightarrow> u16 \<Rightarrow> u16 option" where
  "first_free 0 ps i = None"
| "first_free (Suc n) ps i = (if ps i = None then Some i else first_free n ps (i + 1))"

definition register_provider :: "sender_id \<Rightarrow> registry \<Rightarrow> (u16 \<times> registry) option" where
  "register_provider tx ps = map_option (\<lambda>i. (i, ps(i \<mapsto> tx))) (first_free (2 ^ 16) ps 0)"

definition unregister_provider :: "u16 \<Rightarrow> registry \<Rightarrow> registry" where
  "unregister_provider i ps = ps(i := None)"

section \<open>The driver\<close>

record receiver_info =
  ri_device_info :: device_info
  ri_protocols :: "string list"
  ri_containers :: "string list"
  ri_videos :: "string list"
  ri_audios :: "string list"
  ri_subtitles :: "string list"
  ri_hdrs :: "string list"
  ri_images :: "string list"

record initial_v4_state =
  iv_play_data :: wrapped_play_message
  iv_playback_state :: flat_playback_state

text \<open>\<open>dr_mirroring_offer\<close>: whether a channel for the next offer is there.\<close>

record driver =
  dr_id :: sender_id
  dr_state :: state
  dr_companion_queue :: companion_queue
  dr_req_id_gen :: u32
  dr_mirroring_offer :: bool
  dr_receiver_info :: receiver_info
  dr_initial_v4_state :: "initial_v4_state option"
  dr_pending_tls_upgrade :: bool

definition driver_new :: "sender_id \<Rightarrow> receiver_info \<Rightarrow> initial_v4_state option \<Rightarrow> driver" where
  "driver_new sid info initial =
     \<lparr> dr_id = sid, dr_state = state_new, dr_companion_queue = (\<lambda>_. None), dr_req_id_gen = 0,
       dr_mirroring_offer = False, dr_receiver_info = info, dr_initial_v4_state = initial,
       dr_pending_tls_upgrade = False \<rparr>"

text \<open>Every operation carries its origin: the session's id and the number of the packet.\<close>

datatype effect =
    Send bytes
  | Operate "u32 option" operation
  | InfoAnswer u32 string flat_resource_size
  | PartAnswer resource_response
  | OfferAnswer string

definition is_v4 :: "driver \<Rightarrow> bool" where
  "is_v4 d \<longleftrightarrow> (case st_variant (dr_state d) of Active (V4 _ _) \<Rightarrow> True | _ \<Rightarrow> False)"

definition send_v4_error :: "library \<Rightarrow> u32 option \<Rightarrow> flat_error_kind \<Rightarrow> driver \<Rightarrow> effect list" where
  "send_v4_error lib packet_num kind d =
     (if is_v4 d then [Send (send_flat lib (error_msg packet_num kind))] else [])"

text \<open>\<open>Inl ()\<close> is the error that ends the session.\<close>

definition on_invalid_opcode :: "library \<Rightarrow> u32 \<Rightarrow> driver \<Rightarrow> effect list \<times> (unit + unit)" where
  "on_invalid_opcode lib packet_num d =
     (if is_v4 d then ([Send (send_flat lib (error_msg (Some packet_num) InvalidOpcode))], Inr ())
      else ([], Inl ()))"

definition set_volume_op :: "library \<Rightarrow> u32 option \<Rightarrow> f32 \<Rightarrow> driver \<Rightarrow> effect list" where
  "set_volume_op lib packet_num volume d =
     (let clamped = (if f32_is_nan volume then F32_ZERO else f32_clamp F32_ZERO F32_ONE volume)
      in (if \<not> f32_eq clamped volume then send_v4_error lib packet_num VolumeOutOfRange d else []) @
         [Operate packet_num (SetVolume clamped)])"

definition set_speed_op :: "library \<Rightarrow> u32 option \<Rightarrow> f32 \<Rightarrow> driver \<Rightarrow> effect list" where
  "set_speed_op lib packet_num speed d =
     (if f32_is_finite speed \<and> \<not> f32_eq speed F32_ZERO then [Operate packet_num (SetSpeed speed)]
      else send_v4_error lib packet_num RateOutOfRange d @ [Operate packet_num (SetSpeed F32_ONE)])"

definition initial_message :: "receiver_info \<Rightarrow> initial_receiver" where
  "initial_message info =
     \<lparr> ir_display_name = di_display_name (ri_device_info info),
       ir_app_name = di_app_name (ri_device_info info),
       ir_app_version = di_app_version (ri_device_info info), ir_play_data = None,
       ir_experimental_capabilities =
         Some \<lparr> rc_av = Some \<lparr> av_livestream = Some \<lparr> lc_whep = Some True \<rparr> \<rparr> \<rparr> \<rparr>"

text \<open>\<open>Action::Forward\<close>.\<close>

definition forward :: "library \<Rightarrow> driver \<Rightarrow> session_version option \<Rightarrow> to_sender_message \<Rightarrow> effect list" where
  "forward lib d version msg =
     (case msg of
        RtsError m \<Rightarrow> [Send (send_msg lib Op_PlaybackError (playback_error_message_ser m))]
      | LegacyTranslatable op m \<Rightarrow>
          (case version of
             None \<Rightarrow> []
           | Some v \<Rightarrow> (case translate_and_serialize lib v m of
                 Some body \<Rightarrow> [Send (receiver_send_bin_msg op body)]
               | None \<Rightarrow> []))
      | Event m \<Rightarrow> [Send (send_msg lib Op_Event (event_message_ser m))]
      | PlayUpdate m \<Rightarrow> [Send (send_msg lib Op_PlayUpdate (play_update_ser m))]
      | RtsV4 m \<Rightarrow> map Send (send_v4_message lib (dr_id d) m))"

text \<open>\<open>Action::RespondCompanionHello\<close>.\<close>

definition respond_hello :: "library \<Rightarrow> driver \<Rightarrow> registry \<Rightarrow> (effect list \<times> driver \<times> registry) option" where
  "respond_hello lib d ps =
     map_option (\<lambda>(i, ps').
       (map Send (send_v4_message lib (dr_id d) (CompanionHello i)),
        (case st_variant (dr_state d) of
           Active (V4 _ m) \<Rightarrow> d\<lparr>dr_state := (dr_state d)\<lparr>st_variant := Active (V4 (Some i) m)\<rparr>\<rparr>
         | _ \<Rightarrow> d),
        ps'))
       (register_provider (dr_id d) ps)"

definition companion_answer :: "driver \<Rightarrow> companion_response \<Rightarrow> effect list \<times> driver" where
  "companion_answer d resp =
     (case resp of
        ResourceInfo request_id content_type sz \<Rightarrow>
          (case on_resource_info (dr_companion_queue d) request_id of
             (q, answered) \<Rightarrow>
               (if answered then [InfoAnswer request_id content_type sz] else [], d\<lparr>dr_companion_queue := q\<rparr>))
      | ResourceResponse r \<Rightarrow>
          (case on_resource_response (dr_companion_queue d) r of
             (q, parts) \<Rightarrow> (map PartAnswer parts, d\<lparr>dr_companion_queue := q\<rparr>)))"

text \<open>
  \<open>handle_state_result\<close>: \<open>Inr True\<close> ends the session, \<open>Inl ()\<close> ends it with an error, and \<open>None\<close> is a
  call that panics or does not return.
\<close>

definition handle_state_result ::
    "library \<Rightarrow> u32 option \<Rightarrow> state_error + action \<Rightarrow> driver \<Rightarrow> registry \<Rightarrow>
     (effect list \<times> driver \<times> registry \<times> (unit + bool)) option"
where
  "handle_state_result lib packet_num res d ps =
     (let go = (\<lambda>effs. Some (effs, d, ps, Inr False)) in
      case res of
        Inl e \<Rightarrow> Some ([], d, ps, Inr True)
      | Inr a \<Rightarrow>
          (case a of
             A_None \<Rightarrow> go []
           | A_Ping \<Rightarrow> go [Send (receiver_write_simple Op_Ping)]
           | A_Pong \<Rightarrow> go [Send (receiver_write_simple Op_Pong)]
           | EndSession \<Rightarrow> Some ([], d, ps, Inr True)
           | Op (SetVolume volume) \<Rightarrow> go (set_volume_op lib packet_num volume d)
           | Op (SetSpeed speed) \<Rightarrow> go (set_speed_op lib packet_num speed d)
           | Op oper \<Rightarrow> go [Operate packet_num oper]
           | SendInitial \<Rightarrow>
               (case packet_encode lib (PkInitial (initial_message (dr_receiver_info d))) of
                  None \<Rightarrow> None
                | Some bs \<Rightarrow> go [Send bs])
           | Forward version msg \<Rightarrow> go (forward lib d version msg)
           | UpgradeToTls \<Rightarrow> Some ([], d\<lparr>dr_pending_tls_upgrade := True\<rparr>, ps, Inr False)
           | RespondCompanionHello \<Rightarrow>
               map_option (\<lambda>(effs, d', ps'). (effs, d', ps', Inr False)) (respond_hello lib d ps)
           | Companion resp \<Rightarrow>
               (case companion_answer d resp of (effs, d') \<Rightarrow> Some (effs, d', ps, Inr False))
           | StartMirroringSession _ \<Rightarrow>
               Some ([Operate packet_num OpStartMirroringSession], d\<lparr>dr_mirroring_offer := True\<rparr>, ps, Inr False)
           | GotOffer sdp \<Rightarrow>
               Some (if dr_mirroring_offer d then [OfferAnswer sdp] else [], d\<lparr>dr_mirroring_offer := False\<rparr>,
                 ps, Inr False)
           | SendAnswer session_id sdp \<Rightarrow>
               go [Send (send_flat lib (mirroring_session_description session_id sdp))]
           | A_InvalidOpcode op \<Rightarrow>
               (case packet_num of
                  None \<Rightarrow> go []
                | Some n \<Rightarrow>
                    (case on_invalid_opcode lib n d of
                       (effs, Inr _) \<Rightarrow> go effs
                     | (effs, Inl _) \<Rightarrow> Some (effs, d, ps, Inl ())))
           | A_Error kind \<Rightarrow> go (send_v4_error lib packet_num kind d)))"

section \<open>The session loop\<close>

text \<open>\<open>finish_tls_upgrade\<close>: the state is version 4, the introduction goes out, and a copy of what is playing.\<close>

definition introduction :: "receiver_info \<Rightarrow> flat_packet" where
  "introduction info =
     receiver_introduction (ri_device_info info) (ri_protocols info) (ri_containers info) (ri_videos info)
       (ri_audios info) (ri_subtitles info) (ri_hdrs info) (ri_images info) True True VOLUME_STEP"

definition finish_tls_upgrade :: "library \<Rightarrow> driver \<Rightarrow> effect list \<times> driver" where
  "finish_tls_upgrade lib d0 =
     (let d = d0\<lparr>dr_state := tls_success (dr_state d0), dr_initial_v4_state := None\<rparr>;
          current = (case dr_initial_v4_state d0 of
              Some iv \<Rightarrow>
                (case iv_play_data iv of
                   FlatPlay source \<Rightarrow>
                     (case from_play_stripped source of
                        Some msg \<Rightarrow> [Send (send_flat lib msg),
                          Send (send_flat lib (playback_state_changed (iv_playback_state iv)))]
                      | None \<Rightarrow> [])
                 | _ \<Rightarrow> [])
            | None \<Rightarrow> [])
      in (Send (send_flat lib (introduction (dr_receiver_info d))) # current, d))"

text \<open>How a turn of the loop ends: it goes on, the session ends, or it ends with an error.\<close>

datatype outcome = Continue | Finished | Failed

record session =
  ss_driver :: driver
  ss_reader :: packet_reader
  ss_packet_num :: u32

text \<open>
  The inner loop: packets are taken from the reader until it needs data. A packet whose opcode is unknown
  is answered and skipped before the packet counter is advanced. After the packet that asks for TLS, what
  is left in the reader is the prefix of the handshake and the loop is left.
\<close>

fun packet_loop ::
    "library \<Rightarrow> (bytes \<Rightarrow> bool) \<Rightarrow> nat \<Rightarrow> session \<Rightarrow> registry \<Rightarrow>
     (effect list \<times> session \<times> registry \<times> outcome) option"
where
  "packet_loop lib tls 0 s ps = None"
| "packet_loop lib tls (Suc fuel) s ps =
     (case get_packet (ss_reader s) of
        None \<Rightarrow> None
      | Some (NeedData, r) \<Rightarrow> Some ([], s\<lparr>ss_reader := r\<rparr>, ps, Continue)
      | Some (PacketTooLarge n, r) \<Rightarrow> Some ([], s\<lparr>ss_reader := r\<rparr>, ps, Failed)
      | Some (Read packet, r) \<Rightarrow>
          let s1 = s\<lparr>ss_reader := r\<rparr>; num = ss_packet_num s in
          (case split_packet packet of
             None \<Rightarrow> Some ([], s1, ps, Failed)
           | Some (code, body) \<Rightarrow>
               (case opcode_try_from code of
                  Inl _ \<Rightarrow>
                    (case on_invalid_opcode lib num (ss_driver s1) of
                       (effs, Inl _) \<Rightarrow> Some (effs, s1, ps, Failed)
                     | (effs, Inr _) \<Rightarrow>
                         map_option (\<lambda>(effs', rest). (effs @ effs', rest)) (packet_loop lib tls fuel s1 ps))
                | Inr opc \<Rightarrow>
                    (case advance lib (PacketEv opc body) (dr_state (ss_driver s1)) of
                       (res, st) \<Rightarrow>
                         (case handle_state_result lib (Some num) res ((ss_driver s1)\<lparr>dr_state := st\<rparr>) ps of
                            None \<Rightarrow> None
                          | Some (effs, d, ps', Inl _) \<Rightarrow> Some (effs, s1\<lparr>ss_driver := d\<rparr>, ps', Failed)
                          | Some (effs, d, ps', Inr True) \<Rightarrow> Some (effs, s1\<lparr>ss_driver := d\<rparr>, ps', Finished)
                          | Some (effs, d, ps', Inr False) \<Rightarrow>
                              let s2 = s1\<lparr>ss_driver := d, ss_packet_num := num + 1\<rparr> in
                              if dr_pending_tls_upgrade d then
                                let d1 = d\<lparr>dr_pending_tls_upgrade := False\<rparr> in
                                (case drain_unparsed (ss_reader s2) of
                                   None \<Rightarrow> None
                                 | Some (early, r') \<Rightarrow>
                                     if tls early then
                                       (case finish_tls_upgrade lib d1 of
                                          (effs', d2) \<Rightarrow>
                                            Some (effs @ effs', s2\<lparr>ss_reader := r', ss_driver := d2\<rparr>, ps', Continue))
                                     else Some (effs, s2\<lparr>ss_reader := r', ss_driver := d1\<rparr>, ps', Failed))
                              else map_option (\<lambda>(effs', rest). (effs @ effs', rest))
                                     (packet_loop lib tls fuel s2 ps'))))))"

datatype companion_message =
    AskResourceInfo u32
  | AskResource u32 "(u64 \<times> u64) option"

datatype receiver_to_sender =
    RtfError flat_error_kind "u32 option"
  | RtfProgressUpdate clock_time clock_time

text \<open>
  One turn of \<open>select!\<close>: an answer from mirroring, a request to the companion provider, a read of the
  stream (\<open>None\<close> an error, empty the end), an update for senders, a message to this sender, a tick. A
  closed channel ends the session like the end of the stream.
\<close>

datatype run_event =
    R_Answer string
  | R_Companion companion_message
  | R_Read "bytes option"
  | R_Update to_sender_message
  | R_Message receiver_to_sender
  | R_Tick
  | R_Closed

definition handle_msg_from_receiver :: "library \<Rightarrow> driver \<Rightarrow> receiver_to_sender \<Rightarrow> effect list" where
  "handle_msg_from_receiver lib d msg =
     (case msg of
        RtfError kind packet_num \<Rightarrow> send_v4_error lib packet_num kind d
      | RtfProgressUpdate p dur \<Rightarrow>
          (if is_v4 d then map Send (send_v4_message lib (dr_id d) (ProgressUpdated p dur)) else []))"

definition companion_request :: "library \<Rightarrow> driver \<Rightarrow> companion_message \<Rightarrow> effect list \<times> driver" where
  "companion_request lib d0 msg =
     (case request_id_next (dr_req_id_gen d0) of
        (request_id, g) \<Rightarrow>
          let d = d0\<lparr>dr_req_id_gen := g\<rparr> in
          (case msg of
             AskResourceInfo rid \<Rightarrow>
               (map Send (send_v4_message lib (dr_id d) (CompanionGetResourceInfo request_id rid)),
                d\<lparr>dr_companion_queue := (dr_companion_queue d)(request_id \<mapsto> GetResourceInfo)\<rparr>)
           | AskResource rid read_head \<Rightarrow>
               ([Send (send_flat lib (companion_resource_request request_id rid read_head))],
                d\<lparr>dr_companion_queue := (dr_companion_queue d)(request_id \<mapsto> GetResource)\<rparr>)))"

text \<open>The answer of \<open>advance\<close> to an event that is no packet, handed to \<open>handle_state_result\<close>.\<close>

definition turn ::
    "library \<Rightarrow> driver_event \<Rightarrow> (bool \<Rightarrow> outcome) \<Rightarrow> session \<Rightarrow> registry \<Rightarrow>
     (effect list \<times> session \<times> registry \<times> outcome) option"
where
  "turn lib ev ends s ps =
     (case advance lib ev (dr_state (ss_driver s)) of
        (res, st) \<Rightarrow>
          map_option (\<lambda>(effs, d, ps', out).
              (effs, s\<lparr>ss_driver := d\<rparr>, ps', (case out of Inl _ \<Rightarrow> Failed | Inr b \<Rightarrow> ends b)))
            (handle_state_result lib None res ((ss_driver s)\<lparr>dr_state := st\<rparr>) ps))"

definition FUEL :: "packet_reader \<Rightarrow> nat" where
  "FUEL r = Suc (length (buffer r))"

definition run_turn ::
    "library \<Rightarrow> (bytes \<Rightarrow> bool) \<Rightarrow> run_event \<Rightarrow> session \<Rightarrow> registry \<Rightarrow>
     (effect list \<times> session \<times> registry \<times> outcome) option"
where
  "run_turn lib tls ev s ps =
     (case ev of
        R_Answer sdp \<Rightarrow> turn lib (InternalMirroringAnswer sdp) (\<lambda>_. Continue) s ps
      | R_Companion msg \<Rightarrow>
          (case companion_request lib (ss_driver s) msg of
             (effs, d) \<Rightarrow> Some (effs, s\<lparr>ss_driver := d\<rparr>, ps, Continue))
      | R_Read None \<Rightarrow> Some ([], s, ps, Finished)
      | R_Read (Some chunk) \<Rightarrow>
          if chunk = [] then Some ([], s, ps, Finished)
          else (case refill (ss_reader s) chunk of
              None \<Rightarrow> None
            | Some r \<Rightarrow> packet_loop lib tls (FUEL r) (s\<lparr>ss_reader := r\<rparr>) ps)
      | R_Update msg \<Rightarrow> turn lib (ToSender msg) (\<lambda>b. if b then Finished else Continue) s ps
      | R_Message msg \<Rightarrow> Some (handle_msg_from_receiver lib (ss_driver s) msg, s, ps, Continue)
      | R_Tick \<Rightarrow> turn lib Tick (\<lambda>b. if b then Finished else Continue) s ps
      | R_Closed \<Rightarrow> Some ([], s, ps, Finished))"

text \<open>
  \<open>run\<close>: the receiver's version first, then turns until the session ends. The provider is unregistered
  after the loop, which an error leaves by \<open>?\<close> before that. \<open>None\<close> in the outcome is a session still
  running when the modelled events end.
\<close>

definition session_new :: "driver \<Rightarrow> session" where
  "session_new d =
     \<lparr> ss_driver = d, ss_reader = reader_new MAX_PACKET_SIZE READ_HEADROOM, ss_packet_num = 0 \<rparr>"

definition session_end :: "driver \<Rightarrow> registry \<Rightarrow> registry" where
  "session_end d ps =
     (case st_variant (dr_state d) of
        Active (V4 (Some i) _) \<Rightarrow> unregister_provider i ps
      | _ \<Rightarrow> ps)"

fun run_turns ::
    "library \<Rightarrow> (bytes \<Rightarrow> bool) \<Rightarrow> run_event list \<Rightarrow> session \<Rightarrow> registry \<Rightarrow>
     (effect list \<times> session \<times> registry \<times> outcome) option"
where
  "run_turns lib tls [] s ps = Some ([], s, ps, Continue)"
| "run_turns lib tls (ev # evs) s ps =
     (case run_turn lib tls ev s ps of
        None \<Rightarrow> None
      | Some (effs, s', ps', Continue) \<Rightarrow>
          map_option (\<lambda>(effs', rest). (effs @ effs', rest)) (run_turns lib tls evs s' ps')
      | Some (effs, s', ps', Finished) \<Rightarrow> Some (effs, s', session_end (ss_driver s') ps', Finished)
      | Some (effs, s', ps', Failed) \<Rightarrow> Some (effs, s', ps', Failed))"

definition run ::
    "library \<Rightarrow> (bytes \<Rightarrow> bool) \<Rightarrow> run_event list \<Rightarrow> driver \<Rightarrow> registry \<Rightarrow>
     (effect list \<times> session \<times> registry \<times> outcome) option"
where
  "run lib tls evs d ps =
     (case packet_encode lib (PkVersion \<lparr>vm_version = 4\<rparr>) of
        None \<Rightarrow> None
      | Some hello \<Rightarrow>
          map_option (\<lambda>(effs, rest). (Send hello # effs, rest)) (run_turns lib tls evs (session_new d) ps))"

end
