(* ===== verification/Driver_Proofs.thy ===== *)
theory Driver_Proofs
  imports Session_Driver
begin

text \<open>
  Correctness of the session driver: the state between two turns, that no turn panics or runs forever,
  the operations the application receives, the switch to TLS from one read to the next, the numbers that
  errors carry, and the life of a companion provider.
\<close>

section \<open>The registry\<close>

lemma first_free_Some:
  assumes "first_free n ps i = Some j"
  shows "ps j = None \<and> (\<exists>k. j = i + of_nat k \<and> k < n \<and> (\<forall>l<k. ps (i + of_nat l) \<noteq> None))"
  using assms
proof (induction n arbitrary: i)
  case (Suc n)
  show ?case
  proof (cases "ps i = None")
    case True
    with Suc.prems show ?thesis by (auto intro: exI [of _ 0])
  next
    case False
    with Suc.prems Suc.IH [of "i + 1"] obtain k where k: "ps j = None" "j = i + 1 + of_nat k" "k < n"
        "\<forall>l<k. ps (i + 1 + of_nat l) \<noteq> None" by auto
    have "ps (i + of_nat l) \<noteq> None" if "l < Suc k" for l
    proof (cases l)
      case 0
      with False show ?thesis by simp
    next
      case (Suc l')
      with k(4) that show ?thesis by (simp add: algebra_simps)
    qed
    with k show ?thesis by (intro conjI exI [of _ "Suc k"]) (auto simp: algebra_simps)
  qed
qed simp

lemma first_free_None:
  assumes "first_free n ps i = None" and "k < n"
  shows "ps (i + of_nat k) \<noteq> None"
  using assms
proof (induction n arbitrary: i k)
  case (Suc n)
  then show ?case
  proof (cases k)
    case (Suc k')
    with Suc.prems Suc.IH [of "i + 1" k'] show ?thesis by (auto simp: algebra_simps split: if_splits)
  qed (auto split: if_splits)
qed simp

definition free_ids :: "registry \<Rightarrow> u16 set" where
  "free_ids ps = {i. ps i = None}"

lemma register_provider_None_iff: "register_provider tx ps = None \<longleftrightarrow> free_ids ps = {}"
proof
  assume "register_provider tx ps = None"
  then have none: "first_free (2 ^ 16) ps 0 = None" by (simp add: register_provider_def)
  have "ps i \<noteq> None" for i :: u16
  proof -
    have "unat i < 2 ^ 16" using unsigned_less [of i, where 'a = nat] by simp
    from first_free_None [OF none this] show ?thesis by simp
  qed
  then show "free_ids ps = {}" by (simp add: free_ids_def)
next
  assume "free_ids ps = {}"
  show "register_provider tx ps = None"
  proof (cases "first_free (2 ^ 16) ps 0")
    case (Some j)
    from first_free_Some [OF Some] have "j \<in> free_ids ps" by (simp add: free_ids_def)
    with \<open>free_ids ps = {}\<close> show ?thesis by simp
  qed (simp add: register_provider_def)
qed

lemma register_provider_Some:
  assumes "register_provider tx ps = Some (i, ps')"
  shows "ps i = None" and "ps' = ps(i \<mapsto> tx)" and "\<forall>j<i. ps j \<noteq> None"
proof -
  from assms have f: "first_free (2 ^ 16) ps 0 = Some i" and ps': "ps' = ps(i \<mapsto> tx)"
    by (auto simp: register_provider_def)
  from first_free_Some [OF f] obtain k where k: "ps i = None" "i = of_nat k" "k < 2 ^ 16"
      "\<forall>l<k. ps (of_nat l) \<noteq> None" by auto
  show "ps i = None" "ps' = ps(i \<mapsto> tx)" by fact+
  show "\<forall>j<i. ps j \<noteq> None"
  proof (intro allI impI)
    fix j :: u16 assume "j < i"
    then have "unat j < k" using k(2,3) by (simp add: word_less_nat_alt unsigned_of_nat take_bit_nat_eq_self)
    with k(4) have "ps (of_nat (unat j)) \<noteq> None" by blast
    then show "ps j \<noteq> None" by simp
  qed
qed

lemma card_free_ids_register:
  assumes "register_provider tx ps = Some (i, ps')"
  shows "Suc (card (free_ids ps')) = card (free_ids ps)"
proof -
  from register_provider_Some [OF assms] have "free_ids ps' = free_ids ps - {i}" "i \<in> free_ids ps"
    by (auto simp: free_ids_def)
  then show ?thesis using card.remove [of "free_ids ps" i] by simp
qed

section \<open>Effects\<close>

text \<open>A volume between zero and one, and a finite rate that is not zero.\<close>

definition volume_ok :: "f32 \<Rightarrow> bool" where
  "volume_ok v \<longleftrightarrow> \<not> f32_is_nan v \<and> \<not> f32_less v F32_ZERO \<and> \<not> f32_less F32_ONE v"

definition rate_ok :: "f32 \<Rightarrow> bool" where
  "rate_ok r \<longleftrightarrow> f32_is_finite r \<and> \<not> f32_eq r F32_ZERO"

fun effect_ok :: "effect \<Rightarrow> bool" where
  "effect_ok (Operate n (SetVolume v)) \<longleftrightarrow> volume_ok v"
| "effect_ok (Operate n (SetSpeed r)) \<longleftrightarrow> rate_ok r"
| "effect_ok _ \<longleftrightarrow> True"

lemma f32_consts:
  "\<not> f32_is_nan F32_ZERO" "\<not> f32_is_nan F32_ONE" "f32_rank F32_ZERO = 0" "f32_rank F32_ONE = 0x3F800000"
  "f32_is_finite F32_ONE" "\<not> f32_eq F32_ONE F32_ZERO"
  by code_simp+

lemma f32_clamp_ok: "\<not> f32_is_nan x \<Longrightarrow> volume_ok (f32_clamp F32_ZERO F32_ONE x)"
  by (auto simp: volume_ok_def f32_clamp_def f32_less_def f32_consts Let_def)

lemma volume_ok_zero: "volume_ok F32_ZERO"
  by (simp add: volume_ok_def f32_less_def f32_consts)

lemma map_Send_ok [simp]: "e \<in> Send ` S \<Longrightarrow> effect_ok e"
  by auto

lemma set_volume_op_ok: "e \<in> set (set_volume_op lib n v d) \<Longrightarrow> effect_ok e"
  by (auto simp: set_volume_op_def Let_def send_v4_error_def f32_clamp_ok volume_ok_zero split: if_splits)

lemma set_speed_op_ok: "e \<in> set (set_speed_op lib n v d) \<Longrightarrow> effect_ok e"
  by (auto simp: set_speed_op_def send_v4_error_def rate_ok_def f32_consts split: if_splits)

lemma forward_ok: "e \<in> set (forward lib d v m) \<Longrightarrow> effect_ok e"
  by (auto simp: forward_def split: to_sender_message.splits option.splits)

lemma companion_answer_ok: "companion_answer d resp = (effs, d') \<Longrightarrow> e \<in> set effs \<Longrightarrow> effect_ok e"
  by (auto simp: companion_answer_def split: companion_response.splits prod.splits if_splits)

lemma respond_hello_ok: "respond_hello lib d ps = Some (effs, d', ps') \<Longrightarrow> e \<in> set effs \<Longrightarrow> effect_ok e"
  by (auto simp: respond_hello_def)

lemma handle_state_result_ok:
  assumes "handle_state_result lib n res d ps = Some (effs, d', ps', out)" and "e \<in> set effs"
  shows "effect_ok e"
proof (cases res)
  case (Inr a)
  show ?thesis
  proof (cases a)
    case (Op oper)
    with assms Inr show ?thesis
      by (cases oper) (auto simp: handle_state_result_def dest: set_volume_op_ok set_speed_op_ok)
  qed (use assms Inr in \<open>auto simp: handle_state_result_def on_invalid_opcode_def send_v4_error_def
         dest: forward_ok companion_answer_ok respond_hello_ok split: option.splits prod.splits if_splits\<close>)
qed (use assms in \<open>simp add: handle_state_result_def\<close>)


section \<open>The state between two turns\<close>

lemma handle_state_result_spec:
  assumes "handle_state_result lib n res d ps = Some (effs, d', ps', out)"
  shows "dr_id d' = dr_id d \<and> dr_receiver_info d' = dr_receiver_info d \<and>
    dr_pending_tls_upgrade d' = (dr_pending_tls_upgrade d \<or> res = Inr UpgradeToTls) \<and>
    (dr_state d' = dr_state d \<or>
      (\<exists>p m i. st_variant (dr_state d) = Active (V4 p m) \<and>
         dr_state d' = (dr_state d)\<lparr>st_variant := Active (V4 (Some i) m)\<rparr>)) \<and>
    (if res = Inr RespondCompanionHello then Suc (card (free_ids ps')) = card (free_ids ps) else ps' = ps)"
proof (cases res)
  case (Inr a)
  show ?thesis
  proof (cases a)
    case (Op oper)
    with assms Inr show ?thesis by (cases oper) (auto simp: handle_state_result_def)
  next
    case RespondCompanionHello
    with assms Inr obtain i where "register_provider (dr_id d) ps = Some (i, ps')" and
      "d' = (case st_variant (dr_state d) of
         Active (V4 _ m) \<Rightarrow> d\<lparr>dr_state := (dr_state d)\<lparr>st_variant := Active (V4 (Some i) m)\<rparr>\<rparr> | _ \<Rightarrow> d)"
      by (auto simp: handle_state_result_def respond_hello_def)
    with card_free_ids_register RespondCompanionHello Inr show ?thesis
      by (auto split: state_variant.splits session_version.splits)
  qed (use assms Inr in \<open>auto simp: handle_state_result_def companion_answer_def
         split: option.splits prod.splits sum.splits if_splits companion_response.splits\<close>)
qed (use assms in \<open>simp add: handle_state_result_def\<close>)

lemma handle_state_result_total:
  assumes "res = Inr RespondCompanionHello \<Longrightarrow> free_ids ps \<noteq> {}"
    and "packet_encode lib (PkInitial (initial_message (dr_receiver_info d))) \<noteq> None"
  shows "\<exists>effs d' ps' out. handle_state_result lib n res d ps = Some (effs, d', ps', out)"
proof -
  have "register_provider (dr_id d) ps \<noteq> None" if "res = Inr RespondCompanionHello"
    using assms(1) [OF that] by (simp add: register_provider_None_iff)
  with assms(2) show ?thesis
    by (auto simp: handle_state_result_def respond_hello_def split: sum.splits action.splits operation.splits
        option.splits prod.splits)
qed

text \<open>TLS is asked for exactly by the packet that makes the session wait for it.\<close>

lemma common_json_action:
  "common_json lib de body act = Some (Inr a) \<Longrightarrow> \<exists>msg. a = act msg"
  by (auto simp: common_json_def ebind_def split: option.splits sum.splits)

lemma handle_packet_common_not_tls: "handle_packet_common lib opc body \<noteq> Some (Inr UpgradeToTls)"
  by (cases opc) (auto simp: handle_packet_common_def dest!: common_json_action split: option.splits)

lemma handle_packet_v2_not_tls: "handle_packet_v2 lib opc body \<noteq> Inr UpgradeToTls"
  using handle_packet_common_not_tls [of lib opc body]
  by (auto simp: handle_packet_v2_def ebind_def split: option.splits opcode.splits sum.splits)

lemma handle_packet_v1_not_tls: "handle_packet_v1 lib opc body \<noteq> Inr UpgradeToTls"
  using handle_packet_common_not_tls [of lib opc body]
  by (auto simp: handle_packet_v1_def split: option.splits)

lemma handle_packet_v3_not_tls: "fst (handle_packet_v3 lib opc body st) \<noteq> Inr UpgradeToTls"
  using handle_packet_common_not_tls [of lib opc body] handle_packet_v2_not_tls [of lib opc body]
  by (auto simp: handle_packet_v3_def ebind_def Let_def split: option.splits opcode.splits sum.splits)

lemma handle_packet_v4_not_tls: "fst (handle_packet_v4 lib opc body st) \<noteq> Inr UpgradeToTls"
  by (auto simp: handle_packet_v4_def handle_flat_packet_v4_def ebind_def
      split: option.splits opcode.splits sum.splits flat_message.splits state_variant.splits
        session_version.splits)

lemma upgrade_requested_iff:
  assumes "packet_event lib opc body st = (r, st')" and "st_variant st \<noteq> UninitV4"
  shows "r = Inr UpgradeToTls \<longleftrightarrow> st_variant st' = UninitV4"
proof -
  consider (waiting) "st_variant st = WaitingForVersion" | (active) v where "st_variant st = Active v"
    using assms(2) by (cases "st_variant st") auto
  then show ?thesis
  proof cases
    case waiting
    with assms(1) handle_packet_v1_not_tls [of lib opc] show ?thesis
      by (auto simp: packet_event_stamped with_str_def handle_packet_uninit_def split: option.splits if_splits sum.splits)
  next
    case active
    then have "st_variant st' \<noteq> UninitV4"
      using packet_event_spec(2) [OF assms(1)] by (auto simp: variant_step_Active)
    moreover have "r \<noteq> Inr UpgradeToTls"
      using assms(1) active handle_packet_v1_not_tls [of lib opc] handle_packet_v2_not_tls [of lib opc]
        handle_packet_v3_not_tls [of lib opc] handle_packet_v4_not_tls [of lib opc body]
      by (cases v) (auto simp: packet_event_stamped with_str_def split: option.splits dest!: arg_cong [of "_" "_" fst])
    ultimately show ?thesis by simp
  qed
qed


text \<open>
  Between two turns no switch to TLS is pending and the state is not waiting for one; the reader is
  well-formed, of the session's size, and holds no whole packet.
\<close>

definition driver_ready :: "driver \<Rightarrow> bool" where
  "driver_ready d \<longleftrightarrow> \<not> dr_pending_tls_upgrade d \<and> st_variant (dr_state d) \<noteq> UninitV4"

definition reader_sized :: "packet_reader \<Rightarrow> bool" where
  "reader_sized r \<longleftrightarrow> reader_wf r \<and> max_packet_size r = MAX_PACKET_SIZE \<and>
     capacity r = 4 + MAX_PACKET_SIZE + READ_HEADROOM"

definition session_ready :: "session \<Rightarrow> bool" where
  "session_ready s \<longleftrightarrow> driver_ready (ss_driver s) \<and> reader_sized (ss_reader s) \<and>
     fst (parse_frame MAX_PACKET_SIZE (pending (ss_reader s))) = NeedData"

definition initial_fits :: "library \<Rightarrow> receiver_info \<Rightarrow> bool" where
  "initial_fits lib info \<longleftrightarrow> packet_encode lib (PkInitial (initial_message info)) \<noteq> None"

lemma finish_tls_upgrade_ready:
  assumes "finish_tls_upgrade lib d = (effs, d')" and "\<not> dr_pending_tls_upgrade d"
  shows "driver_ready d' \<and> dr_receiver_info d' = dr_receiver_info d \<and> dr_id d' = dr_id d \<and>
    (\<forall>e \<in> set effs. effect_ok e)"
  using assms
  by (auto simp: finish_tls_upgrade_def Let_def driver_ready_def tls_success_def
      split: option.splits wrapped_play_message.splits)

lemma get_packet_sized:
  assumes "reader_sized r"
  obtains res r' where "get_packet r = Some (res, r')" "reader_sized r'"
    "parse_frame MAX_PACKET_SIZE (pending r) = (res, pending r')"
proof -
  from assms have wf: "reader_wf r" and m: "max_packet_size r = MAX_PACKET_SIZE"
    and c: "capacity r = 4 + MAX_PACKET_SIZE + READ_HEADROOM" by (auto simp: reader_sized_def)
  from get_packet_spec [OF wf] obtain r' where r': "get_packet r = Some (fst (parse_frame (max_packet_size r) (pending r)), r')"
      "reader_wf r'" "same_limits r r'" "pending r' = snd (parse_frame (max_packet_size r) (pending r))" by blast
  show thesis
  proof (rule that [OF r'(1)])
    show "reader_sized r'" using r'(2,3) m c by (simp add: reader_sized_def same_limits_def)
    show "parse_frame MAX_PACKET_SIZE (pending r) =
        (fst (parse_frame (max_packet_size r) (pending r)), pending r')" by (simp add: r'(4) m)
  qed
qed

text \<open>
  The packets that ask for a provider id, and how many of them the unparsed bytes hold. Each takes an id
  of the registry, and \<open>register_provider\<close> does not return when none is left.
\<close>

definition asks_for_id :: "library \<Rightarrow> bytes \<Rightarrow> bool" where
  "asks_for_id lib p \<longleftrightarrow>
     (case split_packet p of
        Some (op, Some body) \<Rightarrow>
          opcode_try_from op = Inr Op_Flatbuf \<and> map_option payload (lib_root_as_packet lib body) = Some MCompanionHelloRequest
      | _ \<Rightarrow> False)"

definition ids_asked :: "library \<Rightarrow> bytes \<Rightarrow> nat" where
  "ids_asked lib d = length (filter (asks_for_id lib) (fst (parse_all MAX_PACKET_SIZE d)))"

lemma ids_asked_Read:
  "parse_frame MAX_PACKET_SIZE d = (Read p, d') \<Longrightarrow>
   ids_asked lib d = (if asks_for_id lib p then Suc (ids_asked lib d') else ids_asked lib d')"
  by (simp add: ids_asked_def parse_all.simps [of _ d] split: prod.splits)

lemma handle_packet_common_no_hello: "handle_packet_common lib opc body \<noteq> Some (Inr RespondCompanionHello)"
  by (cases opc) (auto simp: handle_packet_common_def dest!: common_json_action split: option.splits)

lemma handle_packet_v2_no_hello: "handle_packet_v2 lib opc body \<noteq> Inr RespondCompanionHello"
  using handle_packet_common_no_hello [of lib opc body]
  by (auto simp: handle_packet_v2_def ebind_def split: option.splits opcode.splits sum.splits)

lemma handle_packet_v1_no_hello: "handle_packet_v1 lib opc body \<noteq> Inr RespondCompanionHello"
  using handle_packet_common_no_hello [of lib opc body]
  by (auto simp: handle_packet_v1_def split: option.splits)

lemma handle_packet_v3_no_hello: "fst (handle_packet_v3 lib opc body st) \<noteq> Inr RespondCompanionHello"
  using handle_packet_common_no_hello [of lib opc body] handle_packet_v2_no_hello [of lib opc body]
  by (auto simp: handle_packet_v3_def ebind_def Let_def split: option.splits opcode.splits sum.splits)

lemma handle_packet_uninit_no_hello: "fst (handle_packet_uninit lib opc body st) \<noteq> Inr RespondCompanionHello"
  using handle_packet_v1_no_hello [of lib opc body]
  by (auto simp: handle_packet_uninit_def split: option.splits if_splits sum.splits)

lemma hello_packet:
  assumes "fst (packet_event lib opc body st) = Inr RespondCompanionHello"
  shows "opc = Op_Flatbuf \<and>
    (\<exists>b. body = Some b \<and> map_option payload (lib_root_as_packet lib b) = Some MCompanionHelloRequest)"
proof (cases "\<exists>p m. st_variant st = Active (V4 p m)")
  case True
  with assms show ?thesis
    by (auto simp: packet_event_stamped handle_packet_v4_def handle_flat_packet_v4_def ebind_def ok_or_def
        split: option.splits opcode.splits sum.splits flat_message.splits flat_packet.splits if_splits
          state_variant.splits session_version.splits)
next
  case False
  with assms handle_packet_uninit_no_hello [of lib opc] handle_packet_v1_no_hello [of lib opc]
    handle_packet_v2_no_hello [of lib opc] handle_packet_v3_no_hello [of lib opc]
  show ?thesis
    by (auto simp: packet_event_stamped with_str_def split: option.splits state_variant.splits session_version.splits)
qed

text \<open>What every turn gives: it returns, its effects are sound, and if the session goes on it is ready.\<close>

definition turn_ok ::
    "receiver_info \<Rightarrow> sender_id \<Rightarrow> (effect list \<times> session \<times> registry \<times> outcome) option \<Rightarrow> bool" where
  "turn_ok info me res \<longleftrightarrow>
     (case res of
        None \<Rightarrow> False
      | Some (effs, s, ps, out) \<Rightarrow>
          list_all effect_ok effs \<and> dr_receiver_info (ss_driver s) = info \<and> dr_id (ss_driver s) = me \<and>
          (out = Continue \<longrightarrow> session_ready s))"

lemma turn_ok_append:
  "turn_ok info me res \<Longrightarrow> list_all effect_ok effs \<Longrightarrow>
     turn_ok info me (map_option (\<lambda>(effs', rest). (effs @ effs', rest)) res)"
  by (auto simp: turn_ok_def split: option.splits)

lemma on_invalid_opcode_ok: "on_invalid_opcode lib n d = (effs, out) \<Longrightarrow> list_all effect_ok effs"
  by (auto simp: on_invalid_opcode_def split: if_splits)

lemma packet_loop_ok:
  assumes "reader_sized (ss_reader s)" and "driver_ready (ss_driver s)"
    and "length (pending (ss_reader s)) < fuel"
    and "ids_asked lib (pending (ss_reader s)) \<le> card (free_ids ps)"
    and "initial_fits lib (dr_receiver_info (ss_driver s))"
  shows "turn_ok (dr_receiver_info (ss_driver s)) (dr_id (ss_driver s)) (packet_loop lib tls fuel s ps)"
  using assms
proof (induction fuel arbitrary: s ps)
  case 0
  then show ?case by simp
next
  case (Suc fuel)
  obtain res r where g: "get_packet (ss_reader s) = Some (res, r)" "reader_sized r"
      "parse_frame MAX_PACKET_SIZE (pending (ss_reader s)) = (res, pending r)"
    using get_packet_sized [OF Suc.prems(1)] .
  show ?case
  proof (cases res)
    case NeedData
    with g parse_frame_NeedData [of MAX_PACKET_SIZE "pending (ss_reader s)" "pending r"] Suc.prems(2)
    show ?thesis by (simp add: turn_ok_def session_ready_def)
  next
    case (PacketTooLarge n)
    with g show ?thesis by (simp add: turn_ok_def)
  next
    case (Read packet)
    have shorter: "length (pending r) + 4 \<le> length (pending (ss_reader s))"
      using parse_frame_Read_shorter g(3) Read by auto
    have ahead: "ids_asked lib (pending (ss_reader s)) =
        (if asks_for_id lib packet then Suc (ids_asked lib (pending r)) else ids_asked lib (pending r))"
      using ids_asked_Read g(3) Read by auto
    let ?s1 = "s\<lparr>ss_reader := r\<rparr>"
    show ?thesis
    proof (cases "split_packet packet")
      case None
      with g Read show ?thesis by (simp add: turn_ok_def)
    next
      case (Some cb)
      obtain code body where cb: "cb = (code, body)" by force
      show ?thesis
      proof (cases "opcode_try_from code")
        case (Inl e)
        obtain effs out where inv: "on_invalid_opcode lib (ss_packet_num s) (ss_driver ?s1) = (effs, out)" by force
        have "turn_ok (dr_receiver_info (ss_driver s)) (dr_id (ss_driver s)) (packet_loop lib tls fuel ?s1 ps)"
          using Suc.IH [of ?s1 ps] Suc.prems g(2) shorter ahead by (simp split: if_splits)
        from turn_ok_append [OF this on_invalid_opcode_ok [OF inv]]
        show ?thesis
          using g Read Some cb Inl inv on_invalid_opcode_ok [OF inv]
          by (auto simp: turn_ok_def Let_def split: sum.splits)
      next
        case (Inr opc)
        obtain rs st where adv: "packet_event lib opc body (dr_state (ss_driver s)) = (rs, st)" by force
        let ?d0 = "(ss_driver s)\<lparr>dr_state := st\<rparr>"
        have asks: "asks_for_id lib packet" if "rs = Inr RespondCompanionHello"
          using hello_packet [of lib opc body "dr_state (ss_driver s)"] adv that Some cb Inr
          by (auto simp: asks_for_id_def)
        then have "free_ids ps \<noteq> {}" if "rs = Inr RespondCompanionHello" using that Suc.prems(4) ahead by auto
        with handle_state_result_total [of rs ps lib ?d0 "Some (ss_packet_num s)"] Suc.prems(5)
        obtain effs d ps' out where h: "handle_state_result lib (Some (ss_packet_num s)) rs ?d0 ps = Some (effs, d, ps', out)"
          by (auto simp: initial_fits_def)
        note spec = handle_state_result_spec [OF h]
        have effs: "list_all effect_ok effs" using handle_state_result_ok [OF h] by (simp add: list_all_iff)
        have tls_iff: "rs = Inr UpgradeToTls \<longleftrightarrow> st_variant st = UninitV4"
          using upgrade_requested_iff [OF adv] Suc.prems(2) by (simp add: driver_ready_def)
        have pend: "dr_pending_tls_upgrade d \<longleftrightarrow> st_variant st = UninitV4"
          using spec tls_iff Suc.prems(2) by (simp add: driver_ready_def)
        let ?s2 = "?s1\<lparr>ss_driver := d, ss_packet_num := ss_packet_num s + 1\<rparr>"
        have loop: "packet_loop lib tls (Suc fuel) s ps =
          (case out of
             Inl _ \<Rightarrow> Some (effs, ?s1\<lparr>ss_driver := d\<rparr>, ps', Failed)
           | Inr True \<Rightarrow> Some (effs, ?s1\<lparr>ss_driver := d\<rparr>, ps', Finished)
           | Inr False \<Rightarrow>
               if dr_pending_tls_upgrade d then
                 let d1 = d\<lparr>dr_pending_tls_upgrade := False\<rparr> in
                 (case drain_unparsed r of
                    None \<Rightarrow> None
                  | Some (early, r') \<Rightarrow>
                      if tls early then
                        (case finish_tls_upgrade lib d1 of
                           (effs', d2) \<Rightarrow>
                             Some (effs @ effs', ?s2\<lparr>ss_reader := r', ss_driver := d2\<rparr>, ps', Continue))
                      else Some (effs, ?s2\<lparr>ss_reader := r', ss_driver := d1\<rparr>, ps', Failed))
               else map_option (\<lambda>(effs', rest). (effs @ effs', rest)) (packet_loop lib tls fuel ?s2 ps'))"
          using g Read Some cb Inr adv h by (simp add: Let_def advance_def split: sum.splits bool.splits)
        consider (ended) "out \<noteq> Inr False" | (tls) "out = Inr False" "st_variant st = UninitV4"
          | (go) "out = Inr False" "st_variant st \<noteq> UninitV4" by blast
        then show ?thesis
        proof cases
          case ended
          with loop effs spec show ?thesis by (auto simp: turn_ok_def split: sum.splits bool.splits)
        next
          case tls
          obtain r' where r': "drain_unparsed r = Some (pending r, r')" "reader_sized r'" "pending r' = []"
            using drain_unparsed_spec [of r] g(2) by (auto simp: reader_sized_def same_limits_def)
          obtain effs' d2 where fin: "finish_tls_upgrade lib (d\<lparr>dr_pending_tls_upgrade := False\<rparr>) = (effs', d2)"
            by force
          note fin_ok = finish_tls_upgrade_ready [OF fin]
          from loop tls pend r' fin fin_ok effs spec show ?thesis
            by (auto simp: turn_ok_def session_ready_def list_all_iff Let_def parse_frame_def)
        next
          case go
          have "driver_ready d" using spec pend go by (auto simp: driver_ready_def)
          moreover have "ids_asked lib (pending r) \<le> card (free_ids ps')"
            using spec asks Suc.prems(4) ahead by (auto split: if_splits)
          ultimately have "turn_ok (dr_receiver_info d) (dr_id d) (packet_loop lib tls fuel ?s2 ps')"
            using Suc.IH [of ?s2 ps'] Suc.prems(3,5) g(2) shorter spec by simp
          from turn_ok_append [OF this effs] loop go pend spec show ?thesis by simp
        qed
      qed
    qed
  qed
qed


lemma turn_ok_turn:
  assumes "session_ready s" and "initial_fits lib (dr_receiver_info (ss_driver s))"
    and "\<not> is_packet ev"
  shows "turn_ok (dr_receiver_info (ss_driver s)) (dr_id (ss_driver s)) (turn lib ev ends s ps)"
proof -
  obtain rs st where adv: "advance lib ev (dr_state (ss_driver s)) = (rs, st)" by force
  let ?d0 = "(ss_driver s)\<lparr>dr_state := st\<rparr>"
  have st: "st_variant st = st_variant (dr_state (ss_driver s))" "rs \<noteq> Inr UpgradeToTls"
      "rs \<noteq> Inr RespondCompanionHello"
    using adv assms(3)
    by (cases ev; auto simp: advance_def tick_def Let_def to_sender_def mirroring_answer_def
        split: if_splits to_sender_message.splits state_variant.splits session_version.splits
        event_object.splits event_type.splits option.splits)+
  from handle_state_result_total [of rs ps lib ?d0 None] st(3) assms(2)
  obtain effs d ps' out where h: "handle_state_result lib None rs ?d0 ps = Some (effs, d, ps', out)"
    by (auto simp: initial_fits_def)
  have "driver_ready d"
    using handle_state_result_spec [OF h] st assms(1) by (auto simp: session_ready_def driver_ready_def)
  with handle_state_result_spec [OF h] handle_state_result_ok [OF h] assms(1) adv h show ?thesis
    by (auto simp: turn_ok_def turn_def session_ready_def list_all_iff)
qed

text \<open>The reader of a ready session after a read.\<close>

lemma refill_fits:
  assumes "reader_sized r" and "read_fits r chunk"
  obtains r' where "refill r chunk = Some r'" "reader_sized r'" "pending r' = pending r @ chunk"
    "length (pending r') < FUEL r'"
proof -
  from refill_spec [of r chunk] assms obtain r' where r': "refill r chunk = Some r'" "reader_sized r'"
      "pending r' = pending r @ chunk" "capacity r' = capacity r"
    by (auto simp: reader_sized_def same_limits_def read_fits_def)
  moreover have "length (pending r') < FUEL r'"
    using assms(2) r'(3,4) by (simp add: read_fits_def FUEL_def capacity_def)
  ultimately show thesis using that by blast
qed

lemma read_turn_ok:
  assumes "session_ready s" and "initial_fits lib (dr_receiver_info (ss_driver s))"
    and "ids_asked lib (pending (ss_reader s) @ chunk) \<le> card (free_ids ps)" and "chunk \<noteq> []"
    and "read_fits (ss_reader s) chunk"
  shows "turn_ok (dr_receiver_info (ss_driver s)) (dr_id (ss_driver s)) (run_turn lib tls (R_Read (Some chunk)) s ps)"
proof -
  from assms(1) have rdy: "reader_sized (ss_reader s)" "driver_ready (ss_driver s)"
    by (auto simp: session_ready_def)
  obtain r where r: "refill (ss_reader s) chunk = Some r" "reader_sized r"
      "pending r = pending (ss_reader s) @ chunk" "length (pending r) < FUEL r"
    using refill_fits [OF rdy(1) assms(5)] .
  then show ?thesis
    using packet_loop_ok [of "s\<lparr>ss_reader := r\<rparr>" "FUEL r" lib ps tls] rdy assms(2-4)
    by (simp add: run_turn_def)
qed

definition turn_fits :: "library \<Rightarrow> registry \<Rightarrow> session \<Rightarrow> run_event \<Rightarrow> bool" where
  "turn_fits lib ps s ev \<longleftrightarrow>
     (case ev of
        R_Read (Some chunk) \<Rightarrow>
          read_fits (ss_reader s) chunk \<and> ids_asked lib (pending (ss_reader s) @ chunk) \<le> card (free_ids ps)
      | _ \<Rightarrow> True)"

lemma every_turn_ok:
  assumes "session_ready s" and "initial_fits lib (dr_receiver_info (ss_driver s))"
    and "turn_fits lib ps s ev"
  shows "turn_ok (dr_receiver_info (ss_driver s)) (dr_id (ss_driver s)) (run_turn lib tls ev s ps)"
proof -
  note turn = turn_ok_turn [OF assms(1,2)]
  show ?thesis
  proof (cases ev)
    case (R_Read c)
    show ?thesis
    proof (cases "c = None \<or> c = Some []")
      case True
      with R_Read show ?thesis by (auto simp: run_turn_def turn_ok_def)
    next
      case False
      then obtain chunk where c: "c = Some chunk" "chunk \<noteq> []" by auto
      with assms R_Read read_turn_ok [OF assms(1,2) _ c(2)] show ?thesis by (simp add: turn_fits_def)
    qed
  next
    case (R_Companion msg)
    with assms(1) show ?thesis
      by (auto simp: run_turn_def companion_request_def Let_def turn_ok_def session_ready_def driver_ready_def
          list_all_iff split: prod.splits companion_message.splits)
  next
    case (R_Message msg)
    with assms(1) show ?thesis
      by (auto simp: run_turn_def handle_msg_from_receiver_def turn_ok_def send_v4_error_def
          list_all_iff split: receiver_to_sender.splits)
  qed (use turn in \<open>simp_all add: run_turn_def turn_ok_def\<close>)
qed

text \<open>
  C3: no turn of a session panics or runs forever, and between turns the session is always ready: no
  switch to TLS is half done and the reader holds no whole packet. A read returns what it likes, up to
  the whole spare tail of the buffer that the loop lends to it, and the bytes are whatever the sender
  wrote, with two conditions: the registry has as many free provider ids as there are hello requests
  among the packets that the read completes (with none left \<open>register_provider\<close> does not return), and the
  receiver's own names keep its introduction of version 3 below the packet limit. Each operation that
  reaches the application carries a volume between zero and one and a finite rate that is not zero.
\<close>

theorem session_turn_total:
  assumes "session_ready s" and "initial_fits lib (dr_receiver_info (ss_driver s))"
    and "turn_fits lib ps s ev"
  shows "\<exists>effs s' ps' out. run_turn lib tls ev s ps = Some (effs, s', ps', out) \<and>
    (out = Continue \<longrightarrow> session_ready s') \<and>
    (\<forall>n v. Operate n (SetVolume v) \<in> set effs \<longrightarrow> volume_ok v) \<and>
    (\<forall>n r. Operate n (SetSpeed r) \<in> set effs \<longrightarrow> rate_ok r)"
proof -
  from every_turn_ok [OF assms, of tls]
  obtain effs s' ps' out where run: "run_turn lib tls ev s ps = Some (effs, s', ps', out)"
    and ok: "\<forall>e \<in> set effs. effect_ok e" and rdy: "out = Continue \<longrightarrow> session_ready s'"
    by (auto simp: turn_ok_def list_all_iff split: option.splits)
  have "volume_ok v" if "Operate n (SetVolume v) \<in> set effs" for n v
    using bspec [OF ok that] by simp
  moreover have "rate_ok r" if "Operate n (SetSpeed r) \<in> set effs" for n r
    using bspec [OF ok that] by simp
  ultimately show ?thesis using run rdy by blast
qed

section \<open>One read\<close>

text \<open>The reader of a ready session after a chunk that starts on a packet boundary.\<close>

lemma read_chunk:
  assumes "reader_sized (ss_reader s)" and "pending (ss_reader s) = []" and "chunk \<noteq> []"
    and "read_fits (ss_reader s) chunk"
  obtains r where "refill (ss_reader s) chunk = Some r" "reader_sized r" "pending r = chunk"
    "length chunk < FUEL r"
    "run_turn lib tls (R_Read (Some chunk)) s ps = packet_loop lib tls (FUEL r) (s\<lparr>ss_reader := r\<rparr>) ps"
proof -
  obtain r where "refill (ss_reader s) chunk = Some r" "reader_sized r"
      "pending r = pending (ss_reader s) @ chunk" "length (pending r) < FUEL r"
    using refill_fits [OF assms(1,4)] .
  with assms(2,3) show thesis by (intro that [of r]) (simp_all add: run_turn_def)
qed

text \<open>An empty reader of the session takes a chunk of the size of its buffer.\<close>

lemma sized_fits:
  assumes "reader_sized r" and "pending r = []"
  shows "read_fits r chunk \<longleftrightarrow> length chunk \<le> 4 + MAX_PACKET_SIZE + READ_HEADROOM"
  using assms by (simp add: read_fits_def reader_sized_def)

lemma get_packet_frame:
  assumes "reader_sized r" and "pending r = frame p @ rest" and "packet_ok MAX_PACKET_SIZE p"
  obtains r' where "get_packet r = Some (Read p, r')" "reader_sized r'" "pending r' = rest"
  using get_packet_sized [OF assms(1)] parse_frame_frame [OF assms(3), of rest] assms(2)
  by (metis prod.inject)

lemma packet_loop_done:
  assumes "reader_sized (ss_reader s)" and "pending (ss_reader s) = []"
  obtains r where "packet_loop lib tls (Suc fuel) s ps = Some ([], s\<lparr>ss_reader := r\<rparr>, ps, Continue)"
    "reader_sized r" "pending r = []"
proof -
  obtain res r where g: "get_packet (ss_reader s) = Some (res, r)" "reader_sized r"
      "parse_frame MAX_PACKET_SIZE (pending (ss_reader s)) = (res, pending r)"
    using get_packet_sized [OF assms(1)] .
  have "parse_frame MAX_PACKET_SIZE [] = (NeedData, [])" by (simp add: parse_frame_def)
  with g assms(2) show thesis by (intro that [of r]) auto
qed

text \<open>
  C14: the switch to TLS happens between two bytes of one read: after the packet with the sender's
  version, four or above, everything behind it goes to the TLS acceptor, and to it alone. If the upgrade
  succeeds the session is a version 4 session, its introduction goes out first, the plaintext reader is
  empty and one packet has been counted; if it fails nothing more is written.
\<close>

theorem tls_switch_in_one_read:
  assumes "session_ready s" and "pending (ss_reader s) = []"
    and "st_variant (dr_state (ss_driver s)) = WaitingForVersion"
    and "str_from_utf8 body = Some text" and "lib_json lib text = Some (version_message_ser \<lparr>vm_version = v\<rparr>)"
    and "4 \<le> v" and "body \<noteq> []" and "packet_ok MAX_PACKET_SIZE (opcode_as_u8 Op_Version # body)"
    and "read_fits (ss_reader s) (frame (opcode_as_u8 Op_Version # body) @ early)"
  shows "\<exists>effs s' out.
    run_turn lib tls (R_Read (Some (frame (opcode_as_u8 Op_Version # body) @ early))) s ps = Some (effs, s', ps, out) \<and>
    (if tls early then
       out = Continue \<and> session_ready s' \<and> pending (ss_reader s') = [] \<and>
       st_variant (dr_state (ss_driver s')) = Active (V4 None None) \<and>
       ss_packet_num s' = ss_packet_num s + 1 \<and>
       (\<exists>current. effs = Send (send_flat lib (introduction (dr_receiver_info (ss_driver s)))) # current)
     else out = Failed \<and> effs = [])"
proof -
  let ?p = "opcode_as_u8 Op_Version # body" and ?d = "ss_driver s"
  let ?chunk = "frame ?p @ early"
  have ne: "?chunk \<noteq> []" by (simp add: frame_def u32_to_le_bytes_def numeral_eq_Suc)
  obtain r where r: "reader_sized r" "pending r = ?chunk" "length ?chunk < FUEL r"
    and run: "run_turn lib tls (R_Read (Some ?chunk)) s ps = packet_loop lib tls (FUEL r) (s\<lparr>ss_reader := r\<rparr>) ps"
    using read_chunk [OF _ assms(2) ne assms(9)] assms(1) by (metis session_ready_def)
  obtain r1 where r1: "get_packet r = Some (Read ?p, r1)" "reader_sized r1" "pending r1 = early"
    using get_packet_frame [OF r(1,2) assms(8)] .
  obtain r2 where r2: "drain_unparsed r1 = Some (early, r2)" "reader_sized r2" "pending r2 = []"
    using drain_unparsed_spec [of r1] r1(2,3) by (auto simp: reader_sized_def same_limits_def)
  let ?st = "(stamped (dr_state ?d))\<lparr>st_variant := UninitV4\<rparr>"
  have "vm_version \<lparr>vm_version = v\<rparr> \<notin> {0, 1, 2, 3}" using assms(6) by (auto simp: word_le_nat_alt)
  then have adv: "advance lib (PacketEv Op_Version (Some body)) (dr_state ?d) = (Inr UpgradeToTls, ?st)"
    using assms(3-5)
    by (simp add: advance_def packet_event_stamped with_str_def handle_packet_uninit_def err_body_def
        err_json_def version_msg.roundtrip)
  have split: "split_packet ?p = Some (opcode_as_u8 Op_Version, Some body)"
    using assms(7) by (cases body) (simp_all add: split_packet_def)
  let ?d1 = "?d\<lparr>dr_state := ?st, dr_pending_tls_upgrade := False\<rparr>"
  obtain effs d2 where fin: "finish_tls_upgrade lib ?d1 = (effs, d2)" by force
  have fin': "\<exists>current. effs = Send (send_flat lib (introduction (dr_receiver_info ?d))) # current"
    "st_variant (dr_state d2) = Active (V4 None None)"
    using fin by (auto simp: finish_tls_upgrade_def Let_def tls_success_def)
  obtain fuel where fuel: "FUEL r = Suc fuel" by (simp add: FUEL_def)
  have "packet_loop lib tls (FUEL r) (s\<lparr>ss_reader := r\<rparr>) ps =
      Some (if tls early
        then (effs, s\<lparr>ss_reader := r2, ss_driver := d2, ss_packet_num := ss_packet_num s + 1\<rparr>, ps, Continue)
        else ([], s\<lparr>ss_reader := r2, ss_driver := ?d1, ss_packet_num := ss_packet_num s + 1\<rparr>, ps, Failed))"
    using r1(1) split adv fin r2(1)
    by (simp add: fuel Let_def handle_state_result_def del: opcode_as_u8.simps)
  moreover have "driver_ready d2" using finish_tls_upgrade_ready [OF fin] by simp
  ultimately show ?thesis using run r2 fin' by (auto simp: session_ready_def parse_frame_def)
qed

section \<open>Packet numbers\<close>

definition unknown_packet :: "bytes \<Rightarrow> bool" where
  "unknown_packet p \<longleftrightarrow> (\<exists>c b. p = c # b \<and> 21 < unat c)"

lemma unknown_packets_loop:
  assumes "reader_sized (ss_reader s)" and "pending (ss_reader s) = concat (map frame packets)"
    and "is_v4 (ss_driver s)" and "length (pending (ss_reader s)) < fuel"
    and "\<forall>p \<in> set packets. unknown_packet p \<and> packet_ok MAX_PACKET_SIZE p"
  shows "\<exists>r. packet_loop lib tls fuel s ps =
    Some (map (\<lambda>_. Send (send_flat lib (error_msg (Some (ss_packet_num s)) InvalidOpcode))) packets,
      s\<lparr>ss_reader := r\<rparr>, ps, Continue)"
  using assms
proof (induction packets arbitrary: s fuel)
  case Nil
  then obtain f where "fuel = Suc f" by (cases fuel) auto
  with packet_loop_done [of s lib tls f ps] Nil show ?case by auto
next
  case (Cons p packets)
  then obtain f where f: "fuel = Suc f" by (cases fuel) auto
  obtain c b where p: "p = c # b" "21 < unat c" using Cons.prems(5) by (auto simp: unknown_packet_def)
  obtain r where r: "get_packet (ss_reader s) = Some (Read p, r)" "reader_sized r"
      "pending r = concat (map frame packets)"
    using get_packet_frame [OF Cons.prems(1), of p "concat (map frame packets)"] Cons.prems(2,5) by auto
  obtain body where sp: "split_packet p = Some (c, body)"
    using p by (cases b) (simp_all add: split_packet_def)
  have "opcode_try_from c = Inl (UnknownOpcode c)" using p by (simp add: opcode_try_from_Inl)
  moreover have "length (pending r) < f" using Cons.prems(2,4) r(3) f by simp
  then obtain r' where "packet_loop lib tls f (s\<lparr>ss_reader := r\<rparr>) ps =
      Some (map (\<lambda>_. Send (send_flat lib (error_msg (Some (ss_packet_num s)) InvalidOpcode))) packets,
        s\<lparr>ss_reader := r'\<rparr>, ps, Continue)"
    using Cons.IH [of "s\<lparr>ss_reader := r\<rparr>" f] Cons.prems r by auto
  ultimately show ?case
    using r sp Cons.prems(3) by (intro exI [of _ r']) (simp add: f Let_def on_invalid_opcode_def)
qed

text \<open>
  Packets with an unknown opcode are not counted: a version 4 session answers each of them with an
  error, but every answer carries the same packet number, and the next packet has that number too. The
  protocol counts every packet on a connection, so all numbers from the first such packet on are wrong.
\<close>

theorem unknown_opcodes_share_a_number:
  assumes "session_ready s" and "pending (ss_reader s) = []" and "is_v4 (ss_driver s)"
    and "packets \<noteq> []" and "\<forall>p \<in> set packets. unknown_packet p \<and> packet_ok MAX_PACKET_SIZE p"
    and "read_fits (ss_reader s) (concat (map frame packets))"
  shows "\<exists>s'. run_turn lib tls (R_Read (Some (concat (map frame packets)))) s ps =
      Some (replicate (length packets)
        (Send (send_flat lib (error_msg (Some (ss_packet_num s)) InvalidOpcode))), s', ps, Continue) \<and>
    ss_packet_num s' = ss_packet_num s"
proof -
  let ?chunk = "concat (map frame packets)"
  have "?chunk \<noteq> []"
    using assms(4) by (cases packets) (simp_all add: frame_def u32_to_le_bytes_def numeral_eq_Suc)
  then obtain r where r: "reader_sized r" "pending r = ?chunk" "length ?chunk < FUEL r"
    and run: "run_turn lib tls (R_Read (Some ?chunk)) s ps = packet_loop lib tls (FUEL r) (s\<lparr>ss_reader := r\<rparr>) ps"
    using read_chunk [OF _ assms(2) _ assms(6)] assms(1) by (metis session_ready_def)
  from unknown_packets_loop [of "s\<lparr>ss_reader := r\<rparr>" packets "FUEL r" lib tls ps] r assms(3,5)
  show ?thesis by (auto simp: run map_replicate_const)
qed

section \<open>Providers\<close>

text \<open>
  A provider outlives its session in two ways. A session that said hello once and ends normally
  leaves the registry as it found it; but a second hello registers a second id and forgets the first,
  which stays taken; and an error, here a packet above the limit, leaves the loop before the clean-up.
\<close>

theorem provider_outlives_session:
  assumes "st_variant (dr_state d) = Active (V4 None m)"
    and "respond_hello lib d ps = Some (effs1, d1, ps1)" and "respond_hello lib d1 ps1 = Some (effs2, d2, ps2)"
    and "reader_sized (ss_reader s)" and "pending (ss_reader s) = []" and "MAX_PACKET_SIZE < unat n"
  shows "session_end d1 ps1 = ps \<and>
    (\<exists>i. ps i = None \<and> session_end d2 ps2 = ps(i \<mapsto> dr_id d)) \<and>
    (\<exists>s'. run_turns lib tls [R_Read (Some (u32_to_le_bytes n))] (s\<lparr>ss_driver := d1\<rparr>) ps1 =
       Some ([], s', ps1, Failed))"
proof -
  from assms(1,2) obtain i where i: "register_provider (dr_id d) ps = Some (i, ps1)"
      "d1 = d\<lparr>dr_state := (dr_state d)\<lparr>st_variant := Active (V4 (Some i) m)\<rparr>\<rparr>"
    by (auto simp: respond_hello_def)
  from assms(3) i(2) obtain j where j: "register_provider (dr_id d) ps1 = Some (j, ps2)"
      "d2 = d1\<lparr>dr_state := (dr_state d1)\<lparr>st_variant := Active (V4 (Some j) m)\<rparr>\<rparr>"
    by (auto simp: respond_hello_def)
  note ri = register_provider_Some(1,2) [OF i(1)] and rj = register_provider_Some(1,2) [OF j(1)]
  have 1: "session_end d1 ps1 = ps" using ri i(2) by (auto simp: session_end_def unregister_provider_def)
  have 2: "session_end d2 ps2 = ps(i \<mapsto> dr_id d)"
    using ri rj j(2) by (auto simp: session_end_def unregister_provider_def fun_eq_iff)
  let ?s = "s\<lparr>ss_driver := d1\<rparr>" and ?chunk = "u32_to_le_bytes n"
  have len: "length ?chunk = 4" "?chunk \<noteq> []" by (auto simp: u32_to_le_bytes_def numeral_eq_Suc)
  have sized: "reader_sized (ss_reader ?s)" "pending (ss_reader ?s) = []" using assms(4,5) by simp_all
  have small: "read_fits (ss_reader ?s) ?chunk" using sized_fits [OF sized] len by simp
  obtain r where "refill (ss_reader ?s) ?chunk = Some r" and r: "reader_sized r" "pending r = ?chunk"
      and "length ?chunk < FUEL r"
      and run: "run_turn lib tls (R_Read (Some ?chunk)) ?s ps1 = packet_loop lib tls (FUEL r) (?s\<lparr>ss_reader := r\<rparr>) ps1"
    using read_chunk [OF sized len(2) small] .
  obtain res r' where g: "get_packet r = Some (res, r')" "parse_frame MAX_PACKET_SIZE ?chunk = (res, pending r')"
    using get_packet_sized [OF r(1)] r(2) by metis
  have "parse_frame MAX_PACKET_SIZE ?chunk = (PacketTooLarge (unat n), ?chunk)"
    using assms(6) len(1) by (simp add: parse_frame_def Let_def)
  with g have "res = PacketTooLarge (unat n)" by simp
  with g(1) have 3: "run_turns lib tls [R_Read (Some ?chunk)] ?s ps1 = Some ([], ?s\<lparr>ss_reader := r'\<rparr>, ps1, Failed)"
    by (simp add: run FUEL_def)
  from 1 2 3 ri(1) show ?thesis by blast
qed

section \<open>Examples\<close>

text \<open>A library and a session to apply the theorems to.\<close>

definition sample_library :: library where
  "sample_library =
     \<lparr> lib_json = (\<lambda>s. if s = ''4'' then Some (version_message_ser \<lparr>vm_version = 4\<rparr>) else None),
       lib_cast = sample_cast, lib_f32 = (\<lambda>_. 0), lib_clock = (\<lambda>_. None), lib_root_as_packet = (\<lambda>_. None),
       lib_print = (\<lambda>_. ''''), lib_flat = (\<lambda>_. []), lib_useconds = id \<rparr>"

definition sample_driver :: "state \<Rightarrow> driver" where
  "sample_driver st =
     (driver_new 7 \<lparr> ri_device_info = \<lparr> di_display_name = None, di_app_name = None, di_app_version = None \<rparr>,
       ri_protocols = [], ri_containers = [], ri_videos = [], ri_audios = [], ri_subtitles = [],
       ri_hdrs = [], ri_images = [] \<rparr> None)\<lparr>dr_state := st\<rparr>"

lemma reader_new_sized: "reader_sized (reader_new MAX_PACKET_SIZE READ_HEADROOM)"
  using reader_new_wf [of MAX_PACKET_SIZE READ_HEADROOM]
  by (simp add: reader_sized_def reader_new_def capacity_def)

lemma sample_session_ready:
  assumes "st_variant st \<noteq> UninitV4"
  shows "session_ready (session_new (sample_driver st))"
    and "pending (ss_reader (session_new (sample_driver st))) = []"
    and "ss_driver (session_new (sample_driver st)) = sample_driver st"
    and "ss_packet_num (session_new (sample_driver st)) = 0"
  using assms reader_new_sized pending_reader_new
  by (simp_all add: session_ready_def session_new_def sample_driver_def driver_new_def driver_ready_def
      parse_frame_def)

lemma sample_initial_fits: "initial_fits sample_library (dr_receiver_info (sample_driver st))"
  by (simp add: initial_fits_def packet_encode_def sample_library_def json_bytes_def string_bytes_def)

lemma empty_registry_free: "READ_HEADROOM \<le> card (free_ids (\<lambda>_. None))"
  by (simp add: free_ids_def READ_HEADROOM_def card_word)

lemma sample_reads_fit:
  "read_fits (ss_reader (session_new (sample_driver st))) chunk \<longleftrightarrow>
     length chunk \<le> 4 + MAX_PACKET_SIZE + READ_HEADROOM"
  by (simp add: session_new_def sized_fits [OF reader_new_sized pending_reader_new])

lemma session_turn_total_witness:
  "\<exists>effs s' ps' out. run_turn sample_library (\<lambda>_. True) (R_Read (Some (replicate 40000 0)))
     (session_new (sample_driver state_new)) (\<lambda>_. None) = Some (effs, s', ps', out) \<and>
     (out = Continue \<longrightarrow> session_ready s')"
proof -
  have v: "st_variant state_new \<noteq> UninitV4" by (simp add: state_new_def)
  have "\<not> asks_for_id sample_library p" for p
    by (simp add: asks_for_id_def sample_library_def split: option.splits prod.splits)
  then have "turn_fits sample_library (\<lambda>_. None) (session_new (sample_driver state_new))
      (R_Read (Some (replicate 40000 0)))"
    by (simp add: turn_fits_def sample_reads_fit ids_asked_def READ_HEADROOM_def MAX_PACKET_SIZE_def)
  from session_turn_total [OF sample_session_ready(1) [OF v] _ this, of "\<lambda>_. True"]
  show ?thesis using sample_initial_fits [of state_new]
    by (auto simp add: sample_session_ready(3) [OF v])
qed

lemma tls_switch_in_one_read_witness:
  "\<exists>effs s'. run_turn sample_library (\<lambda>e. e = [22, 3])
     (R_Read (Some (frame [11, 0x34] @ [22, 3]))) (session_new (sample_driver state_new)) (\<lambda>_. None) =
       Some (effs, s', (\<lambda>_. None), Continue) \<and>
     st_variant (dr_state (ss_driver s')) = Active (V4 None None)"
proof -
  let ?s = "session_new (sample_driver state_new)"
  have v: "st_variant state_new = WaitingForVersion" by (simp add: state_new_def)
  have a: "st_variant (dr_state (ss_driver ?s)) = WaitingForVersion"
    by (simp add: session_new_def sample_driver_def v)
  have b: "str_from_utf8 [0x34] = Some ''4''" by code_simp
  have c: "lib_json sample_library ''4'' = Some (version_message_ser \<lparr>vm_version = 4\<rparr>)"
    by (simp add: sample_library_def)
  have d: "packet_ok MAX_PACKET_SIZE (opcode_as_u8 Op_Version # [0x34])"
    by (simp add: packet_ok_def MAX_PACKET_SIZE_def)
  have e: "read_fits (ss_reader ?s) (frame (opcode_as_u8 Op_Version # [0x34]) @ [22, 3])"
    by (simp add: sample_reads_fit READ_HEADROOM_def)
  from tls_switch_in_one_read [OF _ _ a b c _ _ d e, of "\<lambda>e. e = [22, 3]" "\<lambda>_. None"]
    sample_session_ready(1,2) [of state_new] v
  show ?thesis by auto
qed

lemma unknown_opcodes_share_a_number_witness:
  "\<exists>s'. run_turn sample_library (\<lambda>_. True) (R_Read (Some (concat (map frame [[200], [201, 1]]))))
      (session_new (sample_driver (tls_success state_new))) (\<lambda>_. None) =
      Some (replicate 2 (Send (send_flat sample_library (error_msg (Some 0) InvalidOpcode))), s', (\<lambda>_. None), Continue) \<and>
    ss_packet_num s' = 0"
proof -
  let ?s = "session_new (sample_driver (tls_success state_new))"
  have v: "st_variant (tls_success state_new) = Active (V4 None None)" by (simp add: tls_success_def)
  then have n: "st_variant (tls_success state_new) \<noteq> UninitV4" by simp
  have v4: "is_v4 (ss_driver ?s)"
    by (simp add: is_v4_def session_new_def sample_driver_def v)
  have p: "\<forall>p \<in> set [[200], [201, 1]]. unknown_packet p \<and> packet_ok MAX_PACKET_SIZE p"
    by (simp add: unknown_packet_def packet_ok_def MAX_PACKET_SIZE_def)
  have l: "read_fits (ss_reader ?s) (concat (map frame [[200 :: u8], [201, 1]]))"
    by (simp add: sample_reads_fit READ_HEADROOM_def)
  from unknown_opcodes_share_a_number [OF sample_session_ready(1,2) [OF n] v4 _ p l,
      of sample_library "\<lambda>_. True" "\<lambda>_. None"]
  show ?thesis by (simp add: sample_session_ready(4) [OF n] numeral_eq_Suc)
qed

lemma respond_hello_total:
  assumes "free_ids ps \<noteq> {}"
  obtains effs d' ps' where "respond_hello lib d ps = Some (effs, d', ps')" "dr_id d' = dr_id d"
    "Suc (card (free_ids ps')) = card (free_ids ps)"
proof -
  obtain i ps' where r: "register_provider (dr_id d) ps = Some (i, ps')"
    using assms register_provider_None_iff [of "dr_id d" ps] by (cases "register_provider (dr_id d) ps") auto
  with card_free_ids_register [OF r] show thesis
    by (cases "respond_hello lib d ps")
       (auto simp: respond_hello_def split: state_variant.splits session_version.splits intro: that)
qed

lemma provider_outlives_session_witness:
  "\<exists>effs1 effs2 d1 ps1 d2 ps2 i. respond_hello sample_library (sample_driver (tls_success state_new)) (\<lambda>_. None) =
       Some (effs1, d1, ps1) \<and>
     respond_hello sample_library d1 ps1 = Some (effs2, d2, ps2) \<and> session_end d1 ps1 = (\<lambda>_. None) \<and>
     session_end d2 ps2 = [i \<mapsto> 7]"
proof -
  let ?d = "sample_driver (tls_success state_new)"
  have big: "8192 \<le> card (free_ids (\<lambda>_. None))"
    using empty_registry_free by (simp add: READ_HEADROOM_def)
  then have "free_ids (\<lambda>_. None) \<noteq> {}" by auto
  then obtain effs1 d1 ps1 where 1: "respond_hello sample_library ?d (\<lambda>_. None) = Some (effs1, d1, ps1)"
      "Suc (card (free_ids ps1)) = card (free_ids (\<lambda>_. None))"
    by (rule respond_hello_total)
  with big have "free_ids ps1 \<noteq> {}" by auto
  then obtain effs2 d2 ps2 where 2: "respond_hello sample_library d1 ps1 = Some (effs2, d2, ps2)"
    by (rule respond_hello_total)
  have v: "st_variant (dr_state ?d) = Active (V4 None None)" "dr_id ?d = 7"
    by (simp_all add: sample_driver_def driver_new_def tls_success_def)
  have n: "MAX_PACKET_SIZE < unat (0x100000 :: u32)" by (simp add: MAX_PACKET_SIZE_def)
  let ?s = "session_new (sample_driver state_new)"
  have s: "reader_sized (ss_reader ?s)" "pending (ss_reader ?s) = []"
    by (simp_all add: session_new_def reader_new_sized pending_reader_new)
  from provider_outlives_session [OF v(1) 1(1) 2 s n] v(2) 1(1) 2 show ?thesis by auto
qed

end
