(* ===== verification/Playback_Machine.thy ===== *)
theory Playback_Machine
  imports Prelude
begin

text \<open>
  The playback lifecycle machine of crates/fcastplaybin/src/state_machine.rs: it turns the
  pipeline's state-change, buffering and seek reports into one playback state and tells the
  caller what to do next. The record has the struct's fields; a method with \<open>&mut self\<close> takes
  the machine and returns its result with the new one. The \<open>unreachable!()\<close> arms are \<open>None\<close>.
  Floats are kept as their IEEE bit patterns; the language's \<open>f64 as f32\<close> cast is the
  parameter \<open>cast_rate\<close> of \<open>seek_internal\<close>.
\<close>

type_synonym clock_time = u64

section \<open>Types\<close>

datatype gst_state = VoidPending | Null | Ready | Paused | Playing

datatype playback_state = Ps_Idle | Ps_Paused | Ps_Playing

record seek =
  s_position :: "clock_time option"
  s_rate :: "f32 option"

definition seek_new :: "clock_time option \<Rightarrow> f32 option \<Rightarrow> seek" where
  "seek_new position rate = \<lparr>s_position = position, s_rate = rate\<rparr>"

text \<open>\<open>is_finite\<close>: the exponent field is not all ones; \<open>!= 0.0\<close>: not a zero of either sign.\<close>

definition f32_is_finite :: "f32 \<Rightarrow> bool" where
  "f32_is_finite x \<longleftrightarrow> drop_bit 23 x AND 255 \<noteq> 255"

definition f32_ne_zero :: "f32 \<Rightarrow> bool" where
  "f32_ne_zero x \<longleftrightarrow> take_bit 31 x \<noteq> 0"

definition rate_is_safe :: "f32 \<Rightarrow> bool" where
  "rate_is_safe rate \<longleftrightarrow> f32_is_finite rate \<and> f32_ne_zero rate"

datatype running_state = Rs_Paused | Rs_Playing

fun running_state_into :: "running_state \<Rightarrow> gst_state" where
  "running_state_into Rs_Paused = Paused"
| "running_state_into Rs_Playing = Playing"

datatype state_change_result =
    NewPlaybackState playback_state
  | Seek seek
  | Waiting
  | ChangeState gst_state

datatype buffering_state_result =
    Started gst_state
  | StillBuffering
  | FinishedWithSeek seek
  | FinishedButWaitingSeek
  | Finished "gst_state option"

datatype phase =
    Stopped
  | Loading
  | Buffering int
  | Changing
  | Running running_state

datatype seek_slot =
    Slot_None
  | Parked seek
  | InFlight
  | InFlightParked seek

record state_machine =
  current_state :: gst_state
  is_live :: bool
  sm_rate :: f64
  sm_phase :: phase
  target :: gst_state
  slot :: seek_slot

fun is_buffering :: "phase \<Rightarrow> bool" where
  "is_buffering (Buffering _) = True"
| "is_buffering _ = False"

fun is_in_flight :: "seek_slot \<Rightarrow> bool" where
  "is_in_flight InFlight = True"
| "is_in_flight (InFlightParked _) = True"
| "is_in_flight _ = False"

section \<open>Operations\<close>

definition F64_ONE :: f64 where
  "F64_ONE = 0x3FF0000000000000"

definition sm_new :: state_machine where
  "sm_new = \<lparr>current_state = Ready, is_live = False, sm_rate = F64_ONE, sm_phase = Stopped,
     target = Paused, slot = Slot_None\<rparr>"

definition begin_load :: "state_machine \<Rightarrow> state_machine" where
  "begin_load sm = sm\<lparr>sm_phase := Loading, slot := Slot_None, target := Playing, current_state := Ready\<rparr>"

definition is_stopped :: "state_machine \<Rightarrow> bool" where
  "is_stopped sm \<longleftrightarrow> sm_phase sm = Stopped \<and> slot sm = Slot_None"

definition running :: "state_machine \<Rightarrow> running_state option" where
  "running sm = (case (sm_phase sm, slot sm) of (Running rs, Slot_None) \<Rightarrow> Some rs | _ \<Rightarrow> None)"

definition queue_seek :: "seek \<Rightarrow> state_machine \<Rightarrow> state_machine" where
  "queue_seek sk sm =
     (let tgt = (case (slot sm, sm_phase sm) of
            (Slot_None, Running rs) \<Rightarrow> running_state_into rs
          | (Slot_None, Stopped) \<Rightarrow> Paused
          | (Slot_None, Loading) \<Rightarrow> Paused
          | _ \<Rightarrow> target sm);
          sm1 = sm\<lparr>target := tgt, slot := Parked sk\<rparr>
      in if is_buffering (sm_phase sm1) then sm1\<lparr>sm_phase := Changing\<rparr> else sm1)"

definition seek_internal ::
    "(f64 \<Rightarrow> f32) \<Rightarrow> seek \<Rightarrow> gst_state option \<Rightarrow> state_machine \<Rightarrow> seek option \<times> state_machine" where
  "seek_internal cast_rate sk0 target_state sm =
     (if is_live sm then (None, sm)
      else if is_stopped sm then (None, sm)
      else
        let sk = (if s_rate sk0 = None then sk0\<lparr>s_rate := Some (cast_rate (sm_rate sm))\<rparr> else sk0)
        in case slot sm of
             Parked _ \<Rightarrow> (None, sm\<lparr>slot := Parked sk\<rparr>)
           | InFlight \<Rightarrow>
               (None, sm\<lparr>slot := (if is_buffering (sm_phase sm) then Parked sk else InFlightParked sk)\<rparr>)
           | InFlightParked _ \<Rightarrow>
               (None, sm\<lparr>slot := (if is_buffering (sm_phase sm) then Parked sk else InFlightParked sk)\<rparr>)
           | Slot_None \<Rightarrow>
               let tgt = (case target_state of
                     Some t \<Rightarrow> t
                   | None \<Rightarrow>
                       (case sm_phase sm of
                          Running Rs_Playing \<Rightarrow> Playing
                        | Buffering _ \<Rightarrow> target sm
                        | Changing \<Rightarrow> target sm
                        | _ \<Rightarrow> Paused));
                   sm1 = sm\<lparr>target := tgt, slot := InFlight\<rparr>
               in (Some sk,
                   if is_buffering (sm_phase sm1) then sm1\<lparr>sm_phase := Changing\<rparr> else sm1))"

definition is_seeking :: "state_machine \<Rightarrow> bool" where
  "is_seeking sm \<longleftrightarrow> slot sm \<noteq> Slot_None"

definition set_playback_state ::
    "running_state \<Rightarrow> state_machine \<Rightarrow> (gst_state option \<times> state_machine) option" where
  "set_playback_state state sm =
     (let nxt = running_state_into state
      in if slot sm \<noteq> Slot_None \<or> is_buffering (sm_phase sm) \<or> sm_phase sm = Changing
         then Some (None, sm\<lparr>target := nxt\<rparr>)
         else case sm_phase sm of
             Stopped \<Rightarrow> Some (None, sm)
           | Loading \<Rightarrow> Some (None, sm\<lparr>target := nxt\<rparr>)
           | Running current \<Rightarrow>
               if current \<noteq> state then Some (Some nxt, sm\<lparr>sm_phase := Changing, target := nxt\<rparr>)
               else Some (None, sm)
           | Buffering _ \<Rightarrow> None
           | Changing \<Rightarrow> None)"

text \<open>The phase a settled target stands for, shared by \<open>buffering\<close> and \<open>seek_failed\<close>.\<close>

fun settled_phase :: "gst_state \<Rightarrow> phase" where
  "settled_phase Paused = Running Rs_Paused"
| "settled_phase Playing = Running Rs_Playing"
| "settled_phase _ = Stopped"

definition buffering ::
    "int \<Rightarrow> state_machine \<Rightarrow> (buffering_state_result \<times> state_machine) option" where
  "buffering new_percent sm =
     (if 100 \<le> new_percent \<and> \<not> is_buffering (sm_phase sm) then Some (StillBuffering, sm)
      else if is_buffering (sm_phase sm) then
        let sm1 = sm\<lparr>sm_phase := Buffering new_percent\<rparr>
        in if new_percent < 100 then Some (StillBuffering, sm1)
           else (case slot sm1 of
               Parked sk \<Rightarrow>
                 let sm2 = sm1\<lparr>sm_phase := Changing\<rparr>
                 in if current_state sm2 = Paused
                    then Some (FinishedWithSeek sk, sm2\<lparr>slot := InFlight\<rparr>)
                    else Some (FinishedButWaitingSeek, sm2)
             | InFlight \<Rightarrow> Some (FinishedButWaitingSeek, sm1\<lparr>sm_phase := Changing\<rparr>)
             | InFlightParked _ \<Rightarrow> Some (FinishedButWaitingSeek, sm1\<lparr>sm_phase := Changing\<rparr>)
             | Slot_None \<Rightarrow>
                 if target sm1 \<noteq> current_state sm1
                 then Some (Finished (Some (target sm1)), sm1\<lparr>sm_phase := Changing\<rparr>)
                 else Some (Finished None, sm1\<lparr>sm_phase := settled_phase (target sm1)\<rparr>))
      else
        do {
          tgt \<leftarrow> (if slot sm = Slot_None
                  then (case sm_phase sm of
                      Stopped \<Rightarrow> Some Playing
                    | Loading \<Rightarrow> Some (target sm)
                    | Changing \<Rightarrow> Some (target sm)
                    | Running rs \<Rightarrow> Some (running_state_into rs)
                    | Buffering _ \<Rightarrow> None)
                  else Some (target sm));
          let slot' = (case slot sm of InFlightParked sk \<Rightarrow> Parked sk | s \<Rightarrow> s);
          Some (Started Paused,
                sm\<lparr>target := tgt, slot := slot', sm_phase := Buffering new_percent\<rparr>)
        })"

text \<open>The edges of \<open>state_changed\<close> when no seek is tracked, by phase.\<close>

definition idle_edge ::
    "gst_state \<Rightarrow> gst_state \<Rightarrow> state_machine \<Rightarrow> state_change_result \<times> state_machine" where
  "idle_edge new pending sm =
     (if pending = Ready \<or> pending = Null then (Waiting, sm)
      else case new of
          Paused \<Rightarrow> (NewPlaybackState Ps_Paused, sm\<lparr>sm_phase := Running Rs_Paused\<rparr>)
        | Playing \<Rightarrow> (NewPlaybackState Ps_Playing, sm\<lparr>sm_phase := Running Rs_Playing\<rparr>)
        | _ \<Rightarrow> (Waiting, sm))"

definition changing_edge ::
    "gst_state \<Rightarrow> gst_state \<Rightarrow> state_machine \<Rightarrow> state_change_result \<times> state_machine" where
  "changing_edge new pending sm =
     (let stale_upward = (new = Paused \<and> pending = Playing)
      in if new = target sm \<and> \<not> stale_upward then
           (case new of
              Paused \<Rightarrow> (NewPlaybackState Ps_Paused, sm\<lparr>sm_phase := Running Rs_Paused\<rparr>)
            | Playing \<Rightarrow> (NewPlaybackState Ps_Playing, sm\<lparr>sm_phase := Running Rs_Playing\<rparr>)
            | _ \<Rightarrow> (NewPlaybackState Ps_Idle, sm\<lparr>sm_phase := Stopped\<rparr>))
         else if pending = VoidPending then (ChangeState (target sm), sm)
         else (Waiting, sm))"

definition running_edge ::
    "running_state \<Rightarrow> gst_state \<Rightarrow> gst_state \<Rightarrow> state_machine \<Rightarrow> state_change_result \<times> state_machine"
where
  "running_edge rs new pending sm =
     (if new = VoidPending \<or> new = Null \<or> new = Ready \<or> pending = Null
      then (NewPlaybackState Ps_Idle, sm\<lparr>sm_phase := Stopped\<rparr>)
      else if new = Paused \<and> (pending = Paused \<or> pending = Playing) \<and> rs = Rs_Playing
      then (Waiting, sm\<lparr>sm_phase := Changing, target := Playing\<rparr>)
      else if new = Paused
      then (NewPlaybackState Ps_Paused, sm\<lparr>sm_phase := Running Rs_Paused\<rparr>)
      else (NewPlaybackState Ps_Playing, sm\<lparr>sm_phase := Running Rs_Playing\<rparr>))"

definition state_changed ::
    "gst_state \<Rightarrow> gst_state \<Rightarrow> gst_state \<Rightarrow> state_machine \<Rightarrow> (state_change_result \<times> state_machine) option"
where
  "state_changed old new pending sm0 =
     (let sm = sm0\<lparr>current_state := new\<rparr>;
          settled_paused = (new = Paused \<and> pending = VoidPending)
      in if is_buffering (sm_phase sm) then
           Some (Waiting, if settled_paused \<and> slot sm = InFlight then sm\<lparr>slot := Slot_None\<rparr> else sm)
         else (case slot sm of
             Parked sk \<Rightarrow>
               Some (if settled_paused then (Seek sk, sm\<lparr>slot := InFlight\<rparr>) else (Waiting, sm))
           | InFlightParked sk \<Rightarrow>
               Some (if settled_paused then (Seek sk, sm\<lparr>slot := InFlight\<rparr>) else (Waiting, sm))
           | InFlight \<Rightarrow>
               Some (if settled_paused then
                       (if target sm \<noteq> Paused
                        then (ChangeState (target sm), sm\<lparr>slot := Slot_None, sm_phase := Changing\<rparr>)
                        else (NewPlaybackState Ps_Paused,
                              sm\<lparr>slot := Slot_None, sm_phase := Running Rs_Paused\<rparr>))
                     else (Waiting, sm))
           | Slot_None \<Rightarrow>
               (case sm_phase sm of
                  Stopped \<Rightarrow> Some (idle_edge new pending sm)
                | Loading \<Rightarrow> Some (idle_edge new pending sm)
                | Changing \<Rightarrow> Some (changing_edge new pending sm)
                | Running rs \<Rightarrow> Some (running_edge rs new pending sm)
                | Buffering _ \<Rightarrow> None)))"

definition seek_failed :: "state_machine \<Rightarrow> gst_state option \<times> state_machine" where
  "seek_failed sm =
     (if is_buffering (sm_phase sm) then (None, sm)
      else if is_in_flight (slot sm) then
        let sm1 = sm\<lparr>slot := Slot_None\<rparr>
        in if target sm1 = current_state sm1
           then (None, sm1\<lparr>sm_phase := settled_phase (target sm1)\<rparr>)
           else (Some (target sm1), sm1\<lparr>sm_phase := Changing\<rparr>)
      else (None, sm))"

definition clear_state :: "state_machine \<Rightarrow> state_machine" where
  "clear_state sm = sm\<lparr>sm_phase := Stopped, slot := Slot_None, target := Paused, is_live := False,
     sm_rate := F64_ONE\<rparr>"

end
