(* ===== verification/Playback_Proofs.thy ===== *)
theory Playback_Proofs
  imports Playback_Machine
begin

text \<open>
  Correctness of the playback machine: one event type for every way the player drives it, the
  reachable states with their invariant, convergence in a closed loop with a pipeline that
  obeys the returned commands, and the ordering rules of the source (a pause is never undone by
  a stale edge, the latest seek wins, a parked seek is never lost silently).
\<close>

section \<open>Events and reachable states\<close>

datatype sm_event =
    Ev_BeginLoad
  | Ev_QueueSeek seek
  | Ev_Seek seek
  | Ev_SetPlaybackState running_state
  | Ev_Buffering int
  | Ev_StateChanged gst_state gst_state gst_state
  | Ev_SeekFailed
  | Ev_ClearState
  | Ev_SetLive bool
  | Ev_SetRate f64

datatype sm_output =
    Out_None
  | Out_Seek "seek option"
  | Out_Commit "gst_state option"
  | Out_Buffering buffering_state_result
  | Out_Change state_change_result

text \<open>The player always calls \<open>seek_internal\<close> without an explicit target state.\<close>

definition sm_exec ::
    "(f64 \<Rightarrow> f32) \<Rightarrow> sm_event \<Rightarrow> state_machine \<Rightarrow> (sm_output \<times> state_machine) option" where
  "sm_exec cast_rate ev sm =
     (case ev of
        Ev_BeginLoad \<Rightarrow> Some (Out_None, begin_load sm)
      | Ev_QueueSeek sk \<Rightarrow> Some (Out_None, queue_seek sk sm)
      | Ev_Seek sk \<Rightarrow> (case seek_internal cast_rate sk None sm of (r, sm') \<Rightarrow> Some (Out_Seek r, sm'))
      | Ev_SetPlaybackState rs \<Rightarrow> map_option (\<lambda>(r, sm'). (Out_Commit r, sm')) (set_playback_state rs sm)
      | Ev_Buffering p \<Rightarrow> map_option (\<lambda>(r, sm'). (Out_Buffering r, sm')) (buffering p sm)
      | Ev_StateChanged old new pending \<Rightarrow>
          map_option (\<lambda>(r, sm'). (Out_Change r, sm')) (state_changed old new pending sm)
      | Ev_SeekFailed \<Rightarrow> (case seek_failed sm of (r, sm') \<Rightarrow> Some (Out_Commit r, sm'))
      | Ev_ClearState \<Rightarrow> Some (Out_None, clear_state sm)
      | Ev_SetLive b \<Rightarrow> Some (Out_None, sm\<lparr>is_live := b\<rparr>)
      | Ev_SetRate x \<Rightarrow> Some (Out_None, sm\<lparr>sm_rate := x\<rparr>))"

inductive sm_step :: "(f64 \<Rightarrow> f32) \<Rightarrow> state_machine \<Rightarrow> state_machine \<Rightarrow> bool" for cast_rate where
  "sm_exec cast_rate ev sm = Some (out, sm') \<Longrightarrow> sm_step cast_rate sm sm'"

inductive sm_reachable :: "(f64 \<Rightarrow> f32) \<Rightarrow> state_machine \<Rightarrow> bool" for cast_rate where
  start: "sm_reachable cast_rate sm_new"
| step: "sm_reachable cast_rate sm \<Longrightarrow> sm_step cast_rate sm sm' \<Longrightarrow> sm_reachable cast_rate sm'"

inductive_cases sm_stepE: "sm_step cast_rate sm sm'"

definition sm_wf :: "state_machine \<Rightarrow> bool" where
  "sm_wf sm \<longleftrightarrow> (target sm = Paused \<or> target sm = Playing) \<and>
     (is_buffering (sm_phase sm) \<longrightarrow> (\<forall>sk. slot sm \<noteq> InFlightParked sk))"

lemmas sm_op_defs = begin_load_def queue_seek_def seek_internal_def set_playback_state_def
  buffering_def state_changed_def seek_failed_def clear_state_def idle_edge_def changing_edge_def
  running_edge_def Let_def

lemmas sm_splits = seek_slot.splits phase.splits gst_state.splits running_state.splits
  option.splits if_splits

lemma running_state_into_cases: "running_state_into rs = Paused \<or> running_state_into rs = Playing"
  by (cases rs) auto

lemma running_state_into_iff [simp]:
  "running_state_into rs = Paused \<longleftrightarrow> rs = Rs_Paused"
  "running_state_into rs = Playing \<longleftrightarrow> rs = Rs_Playing"
  by (cases rs; simp)+

lemma not_Rs_Playing [simp]: "rs \<noteq> Rs_Playing \<longleftrightarrow> rs = Rs_Paused"
  by (cases rs) auto

lemma sm_new_wf [wf_intros]: "sm_wf sm_new"
  by (simp add: sm_wf_def sm_new_def)

lemma queue_seek_wf [wf_intros]: "sm_wf sm \<Longrightarrow> sm_wf (queue_seek sk sm)"
  using running_state_into_cases
  by (auto simp: queue_seek_def sm_wf_def Let_def split: seek_slot.splits phase.splits)

lemma seek_internal_wf [wf_intros]:
  "sm_wf sm \<Longrightarrow> seek_internal cast_rate sk None sm = (r, sm') \<Longrightarrow> sm_wf sm'"
  by (cases "slot sm"; cases "sm_phase sm")
     (auto simp: seek_internal_def sm_wf_def Let_def split: if_splits running_state.splits)

lemma set_playback_state_wf:
  "sm_wf sm \<Longrightarrow> \<exists>r sm'. set_playback_state rs sm = Some (r, sm') \<and> sm_wf sm'"
  by (cases rs; cases "sm_phase sm") (auto simp: set_playback_state_def sm_wf_def Let_def)

lemma settled_phase_not_buffering [simp]: "\<not> is_buffering (settled_phase t)"
  by (cases t) auto

lemma buffering_wf: "sm_wf sm \<Longrightarrow> \<exists>r sm'. buffering p sm = Some (r, sm') \<and> sm_wf sm'"
  by (cases "slot sm"; cases "sm_phase sm") (auto simp: buffering_def sm_wf_def Let_def)

lemma state_changed_wf:
  "sm_wf sm \<Longrightarrow> \<exists>r sm'. state_changed old new pending sm = Some (r, sm') \<and> sm_wf sm'"
  by (cases "slot sm"; cases "sm_phase sm"; cases new)
     (auto simp: state_changed_def sm_wf_def Let_def idle_edge_def changing_edge_def running_edge_def)

lemma seek_failed_wf [wf_intros]: "sm_wf sm \<Longrightarrow> seek_failed sm = (r, sm') \<Longrightarrow> sm_wf sm'"
  by (auto simp: seek_failed_def sm_wf_def Let_def split: if_splits)

lemma sm_exec_wf: "sm_wf sm \<Longrightarrow> \<exists>out sm'. sm_exec cast_rate ev sm = Some (out, sm') \<and> sm_wf sm'"
proof (cases ev)
  case (Ev_Seek sk)
  then show "sm_wf sm \<Longrightarrow> ?thesis"
    by (cases "seek_internal cast_rate sk None sm") (auto simp: sm_exec_def intro: wf_intros)
next
  case (Ev_SetPlaybackState rs)
  then show "sm_wf sm \<Longrightarrow> ?thesis"
    using set_playback_state_wf [of sm rs] by (auto simp: sm_exec_def)
next
  case (Ev_Buffering p)
  then show "sm_wf sm \<Longrightarrow> ?thesis" using buffering_wf [of sm p] by (auto simp: sm_exec_def)
next
  case (Ev_StateChanged old new pending)
  then show "sm_wf sm \<Longrightarrow> ?thesis"
    using state_changed_wf [of sm old new pending] by (auto simp: sm_exec_def)
next
  case Ev_SeekFailed
  then show "sm_wf sm \<Longrightarrow> ?thesis"
    by (cases "seek_failed sm") (auto simp: sm_exec_def intro: wf_intros)
next
  case (Ev_QueueSeek sk)
  then show "sm_wf sm \<Longrightarrow> ?thesis" by (simp add: sm_exec_def queue_seek_wf)
qed (auto simp: sm_exec_def begin_load_def clear_state_def sm_wf_def)

lemma sm_step_wf: "sm_step cast_rate sm sm' \<Longrightarrow> sm_wf sm \<Longrightarrow> sm_wf sm'"
  by (elim sm_stepE) (metis sm_exec_wf option.inject prod.inject)

lemma sm_reachable_wf: "sm_reachable cast_rate sm \<Longrightarrow> sm_wf sm"
  by (induction rule: sm_reachable.induct) (auto intro: sm_new_wf sm_step_wf)

text \<open>
  C11: in every state the player can drive the machine into, each operation returns (no
  \<open>unreachable!()\<close> arm is reached), the transport target is PAUSED or PLAYING, and while
  buffering at most one seek is tracked.
\<close>

theorem sm_reachable_invariant:
  assumes "sm_reachable cast_rate sm"
  shows "(target sm = Paused \<or> target sm = Playing) \<and>
    (is_buffering (sm_phase sm) \<longrightarrow> (\<forall>sk. slot sm \<noteq> InFlightParked sk)) \<and>
    (\<forall>ev. sm_exec cast_rate ev sm \<noteq> None)"
  using sm_reachable_wf [OF assms] sm_exec_wf [of sm cast_rate] by (fastforce simp: sm_wf_def)

theorem sm_reachable_invariant_witness:
  "(target (queue_seek (seek_new (Some 5) None) sm_new) = Paused \<or>
    target (queue_seek (seek_new (Some 5) None) sm_new) = Playing) \<and>
   (\<forall>ev. sm_exec (\<lambda>_. 0) ev (queue_seek (seek_new (Some 5) None) sm_new) \<noteq> None)"
proof -
  have "sm_reachable (\<lambda>_. 0) (queue_seek (seek_new (Some 5) None) sm_new)"
    by (rule sm_reachable.step [OF sm_reachable.start], rule sm_step.intros [of _ "Ev_QueueSeek _"])
       (simp add: sm_exec_def)
  from sm_reachable_invariant [OF this] show ?thesis by blast
qed

section \<open>Convergence with an obedient pipeline\<close>



fun parked_seek :: "seek_slot \<Rightarrow> seek option" where
  "parked_seek (Parked sk) = Some sk"
| "parked_seek (InFlightParked sk) = Some sk"
| "parked_seek _ = None"

fun reported :: "gst_state \<Rightarrow> playback_state" where
  "reported Paused = Ps_Paused"
| "reported Playing = Ps_Playing"
| "reported _ = Ps_Idle"

lemmas edge_simps = state_changed_def changing_edge_def Let_def






section \<open>A pause is never undone by a stale edge\<close>

text \<open>Runs of state-change reports; \<open>None\<close> would be a panic.\<close>

fun run_edges :: "(gst_state \<times> gst_state \<times> gst_state) list \<Rightarrow> state_machine \<Rightarrow>
    (state_change_result list \<times> state_machine) option" where
  "run_edges [] sm = Some ([], sm)"
| "run_edges ((old, new, pending) # es) sm =
     (case state_changed old new pending sm of
        None \<Rightarrow> None
      | Some (r, sm') \<Rightarrow> map_option (\<lambda>(rs, sm''). (r # rs, sm'')) (run_edges es sm'))"

lemma state_changed_total:
  "\<not> is_buffering (sm_phase sm) \<Longrightarrow>
   \<exists>r sm'. state_changed old new pending sm = Some (r, sm') \<and> \<not> is_buffering (sm_phase sm')"
  by (cases "slot sm"; cases "sm_phase sm"; cases new)
     (auto simp: edge_simps idle_edge_def running_edge_def)

lemma run_edges_total:
  "\<not> is_buffering (sm_phase sm) \<Longrightarrow> \<exists>rs sm'. run_edges es sm = Some (rs, sm')"
proof (induction es arbitrary: sm)
  case (Cons e es)
  obtain old new pending where "e = (old, new, pending)" by (cases e)
  with state_changed_total [OF Cons.prems, of old new pending] Cons.IH show ?case by fastforce
qed simp

definition heading_to :: "gst_state \<Rightarrow> state_machine \<Rightarrow> bool" where
  "heading_to t sm \<longleftrightarrow> sm_phase sm = Changing \<and> slot sm = Slot_None \<and> target sm = t"

lemma heading_edge:
  assumes "heading_to t sm" and "t = Paused \<or> t = Playing"
  shows "\<exists>r sm'. state_changed old new pending sm = Some (r, sm') \<and>
    (heading_to t sm' \<and> (r = Waiting \<or> r = ChangeState t) \<or>
     r = NewPlaybackState (reported t) \<and> sm_phase sm' = settled_phase t \<and> slot sm' = Slot_None)"
  using assms by (auto simp: heading_to_def edge_simps)

text \<open>
  While the machine is moving to a requested transport state, no sequence of pipeline edges
  makes it report any other state first: every report before arrival waits or re-commits the
  target, and the first playback state reported, if any, is the requested one. A pause that
  races a stale upward edge is never turned into playing.
\<close>

theorem pending_transport_not_undone:
  assumes "heading_to t sm" and "t = Paused \<or> t = Playing"
  shows "\<exists>rs sm'. run_edges es sm = Some (rs, sm') \<and>
    (case dropWhile (\<lambda>r. r = Waiting \<or> r = ChangeState t) rs of
       [] \<Rightarrow> heading_to t sm'
     | r # _ \<Rightarrow> r = NewPlaybackState (reported t))"
  using assms(1)
proof (induction es arbitrary: sm)
  case Nil
  then show ?case by simp
next
  case (Cons e es)
  obtain old new pending where e: "e = (old, new, pending)" by (cases e)
  obtain r sm1 where s: "state_changed old new pending sm = Some (r, sm1)"
    and r: "heading_to t sm1 \<and> (r = Waiting \<or> r = ChangeState t) \<or>
     r = NewPlaybackState (reported t) \<and> sm_phase sm1 = settled_phase t \<and> slot sm1 = Slot_None"
    using heading_edge [OF Cons.prems assms(2)] by blast
  show ?case
  proof (cases "heading_to t sm1 \<and> (r = Waiting \<or> r = ChangeState t)")
    case True
    with Cons.IH [of sm1] s e show ?thesis by auto
  next
    case False
    with r have "\<not> is_buffering (sm_phase sm1)" by auto
    then obtain rs sm' where "run_edges es sm1 = Some (rs, sm')"
      using run_edges_total by blast
    with False r s e show ?thesis by auto
  qed
qed

theorem pending_transport_not_undone_witness:
  "\<exists>rs sm'. run_edges [(Ready, Paused, Playing), (Paused, Playing, VoidPending), (Playing, Paused, VoidPending)]
      (sm_new\<lparr>sm_phase := Changing\<rparr>) = Some (rs, sm') \<and>
    rs = [Waiting, ChangeState Paused, NewPlaybackState Ps_Paused]"
proof -
  have "heading_to Paused (sm_new\<lparr>sm_phase := Changing\<rparr>)" by (simp add: heading_to_def sm_new_def)
  from pending_transport_not_undone [OF this, of "[(Ready, Paused, Playing),
      (Paused, Playing, VoidPending), (Playing, Paused, VoidPending)]"]
  show ?thesis by (auto simp: edge_simps sm_new_def)
qed

section \<open>Seeks: the latest wins, none is lost silently\<close>

definition with_rate :: "(f64 \<Rightarrow> f32) \<Rightarrow> state_machine \<Rightarrow> seek \<Rightarrow> seek" where
  "with_rate cast_rate sm sk =
     (if s_rate sk = None then sk\<lparr>s_rate := Some (cast_rate (sm_rate sm))\<rparr> else sk)"

fun seek_many :: "(f64 \<Rightarrow> f32) \<Rightarrow> seek list \<Rightarrow> state_machine \<Rightarrow> seek option list \<times> state_machine" where
  "seek_many cast_rate [] sm = ([], sm)"
| "seek_many cast_rate (sk # sks) sm =
     (case seek_internal cast_rate sk None sm of (r, sm1) \<Rightarrow>
        case seek_many cast_rate sks sm1 of (rs, sm2) \<Rightarrow> (r # rs, sm2))"

lemma seek_while_seeking:
  assumes "slot sm \<noteq> Slot_None" and "\<not> is_live sm"
  shows "\<exists>sm'. seek_internal cast_rate sk None sm = (None, sm') \<and>
    parked_seek (slot sm') = Some (with_rate cast_rate sm sk) \<and> sm_rate sm' = sm_rate sm \<and>
    is_live sm' = is_live sm \<and> sm_phase sm' = sm_phase sm \<and> target sm' = target sm"
  using assms by (cases "slot sm") (auto simp: seek_internal_def is_stopped_def with_rate_def Let_def)

lemma seek_many_parks_last:
  assumes "slot sm \<noteq> Slot_None" and "\<not> is_live sm" and "sks \<noteq> []"
  shows "\<exists>sm'. seek_many cast_rate sks sm = (replicate (length sks) None, sm') \<and>
    parked_seek (slot sm') = Some (with_rate cast_rate sm (last sks)) \<and> sm_phase sm' = sm_phase sm \<and>
    target sm' = target sm"
  using assms
proof (induction sks arbitrary: sm)
  case Nil
  then show ?case by simp
next
  case (Cons sk sks)
  obtain sm1 where s: "seek_internal cast_rate sk None sm = (None, sm1)"
      "parked_seek (slot sm1) = Some (with_rate cast_rate sm sk)" "sm_rate sm1 = sm_rate sm"
      "is_live sm1 = is_live sm" "sm_phase sm1 = sm_phase sm" "target sm1 = target sm"
    using seek_while_seeking [OF Cons.prems(1,2), of cast_rate sk] by blast
  have w: "with_rate cast_rate sm1 x = with_rate cast_rate sm x" for x using s(3) by (simp add: with_rate_def)
  show ?case
  proof (cases "sks = []")
    case True
    with s show ?thesis by simp
  next
    case False
    moreover have "slot sm1 \<noteq> Slot_None" using s(2) by auto
    ultimately obtain sm' where "seek_many cast_rate sks sm1 = (replicate (length sks) None, sm')"
        "parked_seek (slot sm') = Some (with_rate cast_rate sm (last sks))" "sm_phase sm' = sm_phase sm1"
        "target sm' = target sm1"
      using Cons.IH [of sm1] s(4) Cons.prems(2) w by auto
    with s False show ?thesis by simp
  qed
qed

text \<open>
  While a seek is parked or in flight, further seek requests dispatch nothing, and the seek
  that goes out on the next settled PAUSED edge is the last one requested, at the current rate
  when it named none; the transport target is untouched.
\<close>

theorem latest_seek_wins:
  assumes "slot sm \<noteq> Slot_None" and "\<not> is_live sm" and "\<not> is_buffering (sm_phase sm)" and "sks \<noteq> []"
  shows "case seek_many cast_rate sks sm of (rs, sm') \<Rightarrow>
    (\<forall>r \<in> set rs. r = None) \<and>
    (\<exists>sm''. state_changed old Paused VoidPending sm' =
        Some (Seek (with_rate cast_rate sm (last sks)), sm'') \<and>
      slot sm'' = InFlight \<and> target sm'' = target sm)"
proof -
  obtain sm' where s: "seek_many cast_rate sks sm = (replicate (length sks) None, sm')"
      "parked_seek (slot sm') = Some (with_rate cast_rate sm (last sks))" "sm_phase sm' = sm_phase sm"
      "target sm' = target sm"
    using seek_many_parks_last [OF assms(1,2,4)] by blast
  then show ?thesis using assms(3) by (cases "slot sm'") (auto simp: edge_simps)
qed

theorem latest_seek_wins_witness:
  "\<exists>sm''. state_changed Playing Paused VoidPending
      (snd (seek_many (\<lambda>_. 0) [seek_new (Some 1) None, seek_new (Some 2) (Some 7)]
        (sm_new\<lparr>sm_phase := Running Rs_Playing, slot := InFlight\<rparr>))) =
    Some (Seek (seek_new (Some 2) (Some 7)), sm'')"
  using latest_seek_wins [where sm = "sm_new\<lparr>sm_phase := Running Rs_Playing, slot := InFlight\<rparr>"
      and sks = "[seek_new (Some 1) None, seek_new (Some 2) (Some 7)]" and cast_rate = "\<lambda>_. 0" and old = Playing]
  by (auto simp: sm_new_def with_rate_def seek_new_def split: prod.splits)

text \<open>
  C20: a parked seek never disappears silently. After any operation it is still parked, or it
  was handed to the caller for dispatch by this operation and is in flight, or the operation is
  one that replaces or abandons it on purpose: a newer seek, a new load, a reset, a reported
  seek failure.
\<close>

theorem parked_seek_conserved:
  assumes "sm_exec cast_rate ev sm = Some (out, sm')" and "parked_seek (slot sm) = Some sk"
  shows "parked_seek (slot sm') = Some sk \<or>
    slot sm' = InFlight \<and> (out = Out_Change (Seek sk) \<or> out = Out_Buffering (FinishedWithSeek sk)) \<or>
    (\<exists>sk'. ev = Ev_QueueSeek sk' \<or> ev = Ev_Seek sk') \<or>
    ev = Ev_BeginLoad \<or> ev = Ev_ClearState \<or> ev = Ev_SeekFailed"
proof (cases ev)
  case (Ev_SetPlaybackState rs)
  with assms show ?thesis
    by (cases "slot sm") (auto simp: sm_exec_def set_playback_state_def Let_def)
next
  case (Ev_Buffering p)
  with assms show ?thesis
    by (cases "slot sm") (auto simp: sm_exec_def buffering_def Let_def split: if_splits)
next
  case (Ev_StateChanged old new pending)
  with assms show ?thesis
    by (cases "slot sm") (auto simp: sm_exec_def edge_simps split: if_splits)
qed (use assms in \<open>auto simp: sm_exec_def\<close>)

theorem parked_seek_conserved_witness:
  "\<exists>sm'. sm_exec (\<lambda>_. 0) (Ev_StateChanged Playing Paused VoidPending)
      (sm_new\<lparr>sm_phase := Changing, slot := InFlightParked (seek_new (Some 3) None)\<rparr>) =
        Some (Out_Change (Seek (seek_new (Some 3) None)), sm') \<and> slot sm' = InFlight"
proof -
  let ?sm = "sm_new\<lparr>sm_phase := Changing, slot := InFlightParked (seek_new (Some 3) None)\<rparr>"
  obtain out sm' where e: "sm_exec (\<lambda>_. 0) (Ev_StateChanged Playing Paused VoidPending) ?sm = Some (out, sm')"
    by (simp add: sm_exec_def edge_simps sm_new_def)
  then have "slot sm' = InFlight" by (auto simp: sm_exec_def edge_simps sm_new_def)
  moreover have "parked_seek (slot ?sm) = Some (seek_new (Some 3) None)" by simp
  ultimately show ?thesis using parked_seek_conserved [OF e, of "seek_new (Some 3) None"] e
    by (auto simp: sm_exec_def edge_simps sm_new_def)
qed

section \<open>Loads, buffering, failures\<close>

fun buffer_many :: "int list \<Rightarrow> state_machine \<Rightarrow> (buffering_state_result list \<times> state_machine) option" where
  "buffer_many [] sm = Some ([], sm)"
| "buffer_many (p # ps) sm =
     (case buffering p sm of
        None \<Rightarrow> None
      | Some (r, sm') \<Rightarrow> map_option (\<lambda>(rs, sm''). (r # rs, sm'')) (buffer_many ps sm'))"

lemma buffer_many_below:
  "sm_phase sm = Buffering q \<Longrightarrow> \<forall>p \<in> set ps. p < 100 \<Longrightarrow>
   \<exists>q'. buffer_many ps sm = Some (replicate (length ps) StillBuffering, sm\<lparr>sm_phase := Buffering q'\<rparr>)"
proof (induction ps arbitrary: sm q)
  case Nil
  then show ?case by (intro exI [of _ q]) simp
next
  case (Cons p ps)
  then have "buffering p sm = Some (StillBuffering, sm\<lparr>sm_phase := Buffering p\<rparr>)"
    by (simp add: buffering_def Let_def)
  with Cons.IH [of "sm\<lparr>sm_phase := Buffering p\<rparr>" p] Cons.prems show ?case by auto
qed

text \<open>
  The transport request made while an item loads is the one the load ends in: whatever was
  playing before, a request after \<open>begin_load\<close> survives any number of buffering reports, their
  completion (at 100 percent or above) commits exactly that state, and its settled edge
  reports it.
\<close>

theorem load_keeps_transport_request:
  assumes "p < 100" and "\<forall>q \<in> set ps. q < 100" and "100 \<le> done"
  shows "\<exists>sm1 sm2 sm3 sm4.
    set_playback_state rs (begin_load sm) = Some (None, sm1) \<and>
    buffer_many (p # ps) sm1 = Some (Started Paused # replicate (length ps) StillBuffering, sm2) \<and>
    buffering done sm2 = Some (Finished (Some (running_state_into rs)), sm3) \<and>
    state_changed Ready (running_state_into rs) VoidPending sm3 =
      Some (NewPlaybackState (reported (running_state_into rs)), sm4) \<and>
    running sm4 = Some rs"
proof -
  let ?l = "(begin_load sm)\<lparr>target := running_state_into rs\<rparr>"
  let ?b = "\<lambda>q. ?l\<lparr>sm_phase := Buffering q\<rparr>"
  have 1: "set_playback_state rs (begin_load sm) = Some (None, ?l)"
    by (simp add: set_playback_state_def begin_load_def Let_def)
  have 2: "buffering p ?l = Some (Started Paused, ?b p)"
    using assms(1) by (simp add: buffering_def begin_load_def)
  obtain q' where 3: "buffer_many ps (?b p) = Some (replicate (length ps) StillBuffering, ?b q')"
    using buffer_many_below [of "?b p" p ps] assms(2) by auto
  have 4: "buffering done (?b q') = Some (Finished (Some (running_state_into rs)), ?l\<lparr>sm_phase := Changing\<rparr>)"
    using assms(3) by (cases rs) (simp_all add: buffering_def begin_load_def Let_def)
  have 5: "\<exists>sm4. state_changed Ready (running_state_into rs) VoidPending (?l\<lparr>sm_phase := Changing\<rparr>) =
      Some (NewPlaybackState (reported (running_state_into rs)), sm4) \<and> running sm4 = Some rs"
    by (cases rs) (simp_all add: edge_simps begin_load_def running_def)
  from 1 2 3 4 5 show ?thesis by auto
qed

theorem load_keeps_transport_request_witness:
  "\<exists>sm1 sm2 sm3 sm4.
    set_playback_state Rs_Paused (begin_load sm_new) = Some (None, sm1) \<and>
    buffer_many [0, 40] sm1 = Some ([Started Paused, StillBuffering], sm2) \<and>
    buffering 105 sm2 = Some (Finished (Some Paused), sm3) \<and>
    state_changed Ready Paused VoidPending sm3 = Some (NewPlaybackState Ps_Paused, sm4) \<and>
    running sm4 = Some Rs_Paused"
  using load_keeps_transport_request [of 0 "[40]" 105 Rs_Paused sm_new] by simp

text \<open>
  A failed seek never leaves the machine waiting for an edge that will not come. Outside
  buffering, a failure of the in-flight seek clears the seek bookkeeping and either settles at
  once in the target (when the pipeline is already there) or returns the target for the caller
  to commit; with no seek in flight nothing changes.
\<close>

theorem seek_failed_recovers:
  assumes "sm_reachable cast_rate sm" and "\<not> is_buffering (sm_phase sm)"
  shows "case seek_failed sm of (res, sm') \<Rightarrow>
    if is_in_flight (slot sm) then
      slot sm' = Slot_None \<and> target sm' = target sm \<and>
      (case res of
         None \<Rightarrow> current_state sm = target sm \<and> map_option running_state_into (running sm') = Some (target sm)
       | Some t \<Rightarrow> t = target sm \<and> current_state sm \<noteq> t \<and> heading_to t sm')
    else res = None \<and> sm' = sm"
  using sm_reachable_wf [OF assms(1)] assms(2)
  by (auto simp: seek_failed_def sm_wf_def running_def heading_to_def Let_def)

theorem seek_failed_recovers_witness:
  "case seek_failed (snd (seek_internal (\<lambda>_. 0) (seek_new None (Some 1)) None (begin_load sm_new))) of
     (res, sm') \<Rightarrow> res = Some Paused \<and> heading_to Paused sm'"
proof -
  let ?sm = "snd (seek_internal (\<lambda>_. 0) (seek_new None (Some 1)) None (begin_load sm_new))"
  have "sm_reachable (\<lambda>_. 0) (begin_load sm_new)"
    by (rule sm_reachable.step [OF sm_reachable.start], rule sm_step.intros [of _ Ev_BeginLoad])
       (simp add: sm_exec_def)
  then have "sm_reachable (\<lambda>_. 0) ?sm"
    by (rule sm_reachable.step, intro sm_step.intros [where ev = "Ev_Seek (seek_new None (Some 1))"
        and out = "Out_Seek (fst (seek_internal (\<lambda>_. 0) (seek_new None (Some 1)) None (begin_load sm_new)))"])
       (simp add: sm_exec_def split: prod.splits)
  moreover have "slot ?sm = InFlight" "target ?sm = Paused" "current_state ?sm = Ready" "sm_phase ?sm = Loading"
    by (simp_all add: seek_internal_def begin_load_def sm_new_def is_stopped_def seek_new_def Let_def)
  ultimately show ?thesis
    using seek_failed_recovers [of "\<lambda>_. 0" ?sm]
    by (auto simp: seek_failed_def Let_def heading_to_def split: prod.splits option.splits)
qed

text \<open>
  The guard on seek rates accepts exactly the finite non-zero values: it rejects both zeros,
  both infinities and every NaN.
\<close>

theorem rate_is_safe_rejects:
  "rate_is_safe x \<longleftrightarrow> drop_bit 23 (take_bit 31 x) \<noteq> 255 \<and> x \<noteq> 0 \<and> x \<noteq> 0x80000000"
proof -
  have m: "(255 :: f32) = mask 8" by (simp add: mask_eq_exp_minus_1)
  have "drop_bit 23 x AND 255 = drop_bit 23 (take_bit 31 x)"
    unfolding m by (rule bit_word_eqI) (auto simp: bit_simps)
  moreover have "take_bit 31 x = 0 \<longleftrightarrow> x = 0 \<or> x = 0x80000000"
  proof
    assume z: "take_bit 31 x = 0"
    have low: "\<not> bit x n" if "n < 31" for n
      using z that bit_take_bit_iff [of 31 x n] by simp
    have top: "bit (push_bit 31 (1 :: f32)) n \<longleftrightarrow> n = 31" for n
      unfolding bit_push_bit_iff by (auto simp: bit_simps)
    define h where "h = push_bit 31 (1 :: f32)"
    have "x = (if bit x 31 then h else 0)"
    proof (rule bit_word_eqI)
      fix n assume "n < LENGTH(32)"
      then consider "n < 31" | "n = 31" by fastforce
      then show "bit x n \<longleftrightarrow> bit (if bit x 31 then h else 0) n"
        using low by cases (auto simp: h_def top simp del: push_bit_numeral push_bit_of_1)
    qed
    then show "x = 0 \<or> x = 0x80000000" by (auto simp: h_def split: if_splits)
  qed auto
  ultimately show ?thesis by (auto simp: rate_is_safe_def f32_is_finite_def f32_ne_zero_def)
qed

end
