(* ===== verification/Ump.thy ===== *)
theory Ump
  imports Prelude
begin

text \<open>
  The UMP wire format of the SABR streaming crate (\<open>sabrump/src/ump.rs\<close>): part types, the
  variable-width integers, and the reader that parses parts out of a stream of chunks.

  The HTTP body is the list of what the stream still yields, chunks or a transport error; waiting
  for the next item is taking the head of the list. \<open>i64\<close> values are \<open>int\<close>; no operation here leaves
  the range, a varint having at most 32 significant bits.
\<close>

section \<open>Part types\<close>

datatype part_type =
    OnesieHeader | OnesieData | MediaHeader | Media | MediaEnd | LiveMetadata
  | HostnameChangeHint | NextRequestPolicy | FormatInitializationMetadata | SabrRedirect
  | SabrError | SabrSeek | ReloadPlayerResponse | PlaybackStartPolicy | AllowedCachedFormats
  | RequestIdentifier | RequestCancellationPolicy | TimelineContext | SabrContextUpdate
  | StreamProtectionStatus | SabrContextSendingPolicy | SnackbarMessage
  | Unknown int

definition from_wire :: "int \<Rightarrow> part_type" where
  "from_wire value =
     (if value = 10 then OnesieHeader
      else if value = 11 then OnesieData
      else if value = 20 then MediaHeader
      else if value = 21 then Media
      else if value = 22 then MediaEnd
      else if value = 31 then LiveMetadata
      else if value = 32 then HostnameChangeHint
      else if value = 35 then NextRequestPolicy
      else if value = 42 then FormatInitializationMetadata
      else if value = 43 then SabrRedirect
      else if value = 44 then SabrError
      else if value = 45 then SabrSeek
      else if value = 46 then ReloadPlayerResponse
      else if value = 47 then PlaybackStartPolicy
      else if value = 48 then AllowedCachedFormats
      else if value = 52 then RequestIdentifier
      else if value = 53 then RequestCancellationPolicy
      else if value = 55 then TimelineContext
      else if value = 57 then SabrContextUpdate
      else if value = 58 then StreamProtectionStatus
      else if value = 59 then SabrContextSendingPolicy
      else if value = 67 then SnackbarMessage
      else Unknown value)"

fun to_wire :: "part_type \<Rightarrow> int" where
  "to_wire OnesieHeader = 10"
| "to_wire OnesieData = 11"
| "to_wire MediaHeader = 20"
| "to_wire Media = 21"
| "to_wire MediaEnd = 22"
| "to_wire LiveMetadata = 31"
| "to_wire HostnameChangeHint = 32"
| "to_wire NextRequestPolicy = 35"
| "to_wire FormatInitializationMetadata = 42"
| "to_wire SabrRedirect = 43"
| "to_wire SabrError = 44"
| "to_wire SabrSeek = 45"
| "to_wire ReloadPlayerResponse = 46"
| "to_wire PlaybackStartPolicy = 47"
| "to_wire AllowedCachedFormats = 48"
| "to_wire RequestIdentifier = 52"
| "to_wire RequestCancellationPolicy = 53"
| "to_wire TimelineContext = 55"
| "to_wire SabrContextUpdate = 57"
| "to_wire StreamProtectionStatus = 58"
| "to_wire SabrContextSendingPolicy = 59"
| "to_wire SnackbarMessage = 67"
| "to_wire (Unknown v) = v"

lemma to_wire_from_wire [simp]: "to_wire (from_wire v) = v"
  by (simp add: from_wire_def)

section \<open>Varints\<close>

definition MAX_PART_SIZE :: int where
  "MAX_PART_SIZE = 64 * 1024 * 1024"

record ump_part =
  ump_ty :: part_type
  ump_data :: bytes

definition size_of :: "u8 \<Rightarrow> nat" where
  "size_of b =
     (if b < 128 then 1 else if b < 192 then 2 else if b < 224 then 3 else if b < 240 then 4 else 5)"

text \<open>The result is the value, \<open>-1\<close> when the bytes run out, and the offset after it.\<close>

definition decode_varint :: "bytes \<Rightarrow> nat \<Rightarrow> int \<times> nat" where
  "decode_varint bs offset =
     (if length bs \<le> offset then (-1, offset)
      else
        let first = uint (bs ! offset); sz = size_of (bs ! offset) in
        if sz = 1 then (first, offset + 1)
        else if length bs < offset + sz then (-1, length bs)
        else
          let trailing = foldl (\<lambda>t i. t OR push_bit (8 * (i - 1)) (uint (bs ! (offset + i)))) 0 [1..<sz] in
          if sz = 5 then (trailing, offset + 5)
          else
            let value_bits = 8 - sz; head = first AND (push_bit value_bits 1 - 1) in
            (head OR push_bit value_bits trailing, offset + sz))"

section \<open>The reader\<close>

datatype io_error =
    UnexpectedEof string
  | InvalidData string
  | Transport string

record ump_reader =
  ur_stream :: "(io_error + bytes) list"
  ur_buf :: bytes
  ur_eof :: bool

definition ump_reader_new :: "(io_error + bytes) list \<Rightarrow> ump_reader" where
  "ump_reader_new s = \<lparr> ur_stream = s, ur_buf = [], ur_eof = False \<rparr>"

definition ump_fill :: "ump_reader \<Rightarrow> ump_reader \<times> (io_error + bool)" where
  "ump_fill r =
     (if ur_eof r then (r, Inr False)
      else case ur_stream r of
             Inr chunk # s \<Rightarrow> (r \<lparr> ur_stream := s, ur_buf := ur_buf r @ chunk \<rparr>, Inr True)
           | Inl e # s \<Rightarrow> (r \<lparr> ur_stream := s \<rparr>, Inl e)
           | [] \<Rightarrow> (r \<lparr> ur_eof := True \<rparr>, Inr False))"

lemma ump_fill_stream:
  "ump_fill r = (r', Inr True) \<Longrightarrow> length (ur_stream r') < length (ur_stream r)"
  by (auto simp: ump_fill_def split: if_splits list.splits sum.splits)

function ump_ensure :: "nat \<Rightarrow> ump_reader \<Rightarrow> ump_reader \<times> (io_error + bool)" where
  "ump_ensure n r =
     (if length (ur_buf r) < n then
        case ump_fill r of
          (r', Inl e) \<Rightarrow> (r', Inl e)
        | (r', Inr got) \<Rightarrow> if got then ump_ensure n r' else (r', Inr False)
      else (r, Inr True))"
  by pat_completeness auto

termination
  by (relation "measure (\<lambda>(n, r). length (ur_stream r))") (auto dest: ump_fill_stream sym)

declare ump_ensure.simps [simp del]

definition take_varint :: "ump_reader \<Rightarrow> ump_reader \<times> (io_error + int option)" where
  "take_varint r =
     (case ump_ensure 1 r of
        (r, Inl e) \<Rightarrow> (r, Inl e)
      | (r, Inr False) \<Rightarrow> (r, Inr None)
      | (r, Inr True) \<Rightarrow>
          let sz = size_of (ur_buf r ! 0) in
          case ump_ensure sz r of
            (r, Inl e) \<Rightarrow> (r, Inl e)
          | (r, Inr False) \<Rightarrow> (r, Inl (UnexpectedEof ''Unexpected end of UMP stream''))
          | (r, Inr True) \<Rightarrow>
              (r \<lparr> ur_buf := drop sz (ur_buf r) \<rparr>, Inr (Some (fst (decode_varint (ur_buf r) 0)))))"

definition part_name :: "int \<Rightarrow> string" where
  "part_name ty = ''UMP part '' @ dec (nat ty)"

text \<open>\<open>next\<close>, its last third, the payload of a part of type \<open>ty\<close> and length \<open>len\<close>, first.\<close>

definition take_payload :: "int \<Rightarrow> int \<Rightarrow> ump_reader \<Rightarrow> ump_reader \<times> (io_error + ump_part option)" where
  "take_payload ty len r =
     (if len < 0 \<or> MAX_PART_SIZE < len then
        (r, Inl (InvalidData (part_name ty @ '' has implausible length '' @ dec (nat len))))
      else
        (case ump_ensure (nat len) r of
           (r, Inl e) \<Rightarrow> (r, Inl e)
         | (r, Inr False) \<Rightarrow>
             (r, Inl (UnexpectedEof (part_name ty @ '' truncated: got ''
               @ dec (length (ur_buf r)) @ '' of '' @ dec (nat len))))
         | (r, Inr True) \<Rightarrow>
             (r \<lparr> ur_buf := drop (nat len) (ur_buf r) \<rparr>,
              Inr (Some \<lparr> ump_ty = from_wire (swrap 32 ty), ump_data = take (nat len) (ur_buf r) \<rparr>))))"

definition ump_next :: "ump_reader \<Rightarrow> ump_reader \<times> (io_error + ump_part option)" where
  "ump_next r =
     (case ump_ensure 1 r of
        (r, Inl e) \<Rightarrow> (r, Inl e)
      | (r, Inr False) \<Rightarrow> (r, Inr None)
      | (r, Inr True) \<Rightarrow>
          (case take_varint r of
             (r, Inl e) \<Rightarrow> (r, Inl e)
           | (r, Inr None) \<Rightarrow> (r, Inr None)
           | (r, Inr (Some ty)) \<Rightarrow>
               (case take_varint r of
                  (r, Inl e) \<Rightarrow> (r, Inl e)
                | (r, Inr None) \<Rightarrow> (r, Inl (UnexpectedEof (part_name ty @ '' truncated before length'')))
                | (r, Inr (Some len)) \<Rightarrow> take_payload ty len r)))"

text \<open>A consumer that reads until the stream ends, with fuel.\<close>

fun read_parts :: "nat \<Rightarrow> ump_reader \<Rightarrow> (io_error + ump_part list) option" where
  "read_parts 0 r = None"
| "read_parts (Suc n) r =
     (case ump_next r of
        (r', Inl e) \<Rightarrow> Some (Inl e)
      | (r', Inr None) \<Rightarrow> Some (Inr [])
      | (r', Inr (Some p)) \<Rightarrow> map_option (\<lambda>res. ebind res (\<lambda>ps. Inr (p # ps))) (read_parts n r'))"

section \<open>The reader refines a parser of the whole byte string\<close>

text \<open>All bytes a reader will ever see, when its stream has no transport error.\<close>

definition healthy :: "ump_reader \<Rightarrow> bool" where
  "healthy r \<longleftrightarrow> list_all (\<lambda>c. \<exists>x. c = Inr x) (ur_stream r) \<and> (ur_eof r \<longrightarrow> ur_stream r = [])"

definition avail :: "ump_reader \<Rightarrow> bytes" where
  "avail r = ur_buf r @ concat (map projr (ur_stream r))"

definition varint_spec :: "bytes \<Rightarrow> (io_error + int option) \<times> bytes" where
  "varint_spec bs =
     (if bs = [] then (Inr None, [])
      else if length bs < size_of (hd bs) then (Inl (UnexpectedEof ''Unexpected end of UMP stream''), bs)
      else (Inr (Some (fst (decode_varint bs 0))), drop (size_of (hd bs)) bs))"

definition payload_spec :: "int \<Rightarrow> int \<Rightarrow> bytes \<Rightarrow> (io_error + ump_part option) \<times> bytes" where
  "payload_spec ty len bs =
     (if len < 0 \<or> MAX_PART_SIZE < len then
        (Inl (InvalidData (part_name ty @ '' has implausible length '' @ dec (nat len))), bs)
      else if length bs < nat len then
        (Inl (UnexpectedEof (part_name ty @ '' truncated: got ''
           @ dec (length bs) @ '' of '' @ dec (nat len))), bs)
      else (Inr (Some \<lparr> ump_ty = from_wire (swrap 32 ty), ump_data = take (nat len) bs \<rparr>),
            drop (nat len) bs))"

definition next_spec :: "bytes \<Rightarrow> (io_error + ump_part option) \<times> bytes" where
  "next_spec bs =
     (case varint_spec bs of
        (Inl e, bs) \<Rightarrow> (Inl e, bs)
      | (Inr None, bs) \<Rightarrow> (Inr None, bs)
      | (Inr (Some ty), bs) \<Rightarrow>
          (case varint_spec bs of
             (Inl e, bs) \<Rightarrow> (Inl e, bs)
           | (Inr None, bs) \<Rightarrow> (Inl (UnexpectedEof (part_name ty @ '' truncated before length'')), bs)
           | (Inr (Some len), bs) \<Rightarrow> payload_spec ty len bs))"

lemma healthy_new [simp]: "healthy (ump_reader_new (map Inr chunks))"
  by (simp add: healthy_def ump_reader_new_def list_all_iff)

lemma avail_new [simp]: "avail (ump_reader_new (map Inr chunks)) = concat chunks"
  by (simp add: avail_def ump_reader_new_def comp_def)

lemma ump_ensure_spec:
  assumes "healthy r"
  obtains r' where "ump_ensure n r = (r', Inr (n \<le> length (avail r)))"
    and "healthy r'" and "avail r' = avail r"
    and "n \<le> length (avail r) \<Longrightarrow> n \<le> length (ur_buf r')"
    and "\<not> n \<le> length (avail r) \<Longrightarrow> ur_buf r' = avail r"
    and "n \<le> length (ur_buf r) \<Longrightarrow> r' = r"
  using assms
proof (induction n r arbitrary: thesis rule: ump_ensure.induct)
  case (1 n r)
  show ?case
  proof (cases "length (ur_buf r) < n")
    case False
    with 1 show ?thesis by (auto simp: ump_ensure.simps [of n r] avail_def)
  next
    case short: True
    show ?thesis
    proof (cases "ur_stream r")
      case Nil
      with short 1 show ?thesis
        by (intro "1.prems"(1) [of "if ur_eof r then r else r \<lparr> ur_eof := True \<rparr>"])
           (auto simp: ump_ensure.simps [of n r] ump_fill_def avail_def healthy_def)
    next
      case (Cons c s)
      with "1.prems"(2) obtain x where c: "c = Inr x" and e: "\<not> ur_eof r"
        by (auto simp: healthy_def)
      define r1 where "r1 = r \<lparr> ur_stream := s, ur_buf := ur_buf r @ x \<rparr>"
      have f: "ump_fill r = (r1, Inr True)" by (simp add: ump_fill_def Cons c e r1_def)
      have h: "healthy r1" and a: "avail r1 = avail r"
        using "1.prems"(2) by (auto simp: healthy_def avail_def r1_def Cons c)
      show ?thesis
      proof (rule "1.IH" [OF short f [symmetric] refl _ _ h])
        fix r'
        assume *: "ump_ensure n r1 = (r', Inr (n \<le> length (avail r1)))" "healthy r'" "avail r' = avail r1"
          "n \<le> length (avail r1) \<Longrightarrow> n \<le> length (ur_buf r')"
          "\<not> n \<le> length (avail r1) \<Longrightarrow> ur_buf r' = avail r1"
        show ?thesis
          using * short by (intro "1.prems"(1) [of r']) (auto simp: ump_ensure.simps [of n r] f a)
      qed simp
    qed
  qed
qed

lemma size_of_bounds: "1 \<le> size_of b" "size_of b \<le> 5"
  by (simp_all add: size_of_def)

lemma decode_varint_append:
  assumes "xs \<noteq> []" and "size_of (hd xs) \<le> length xs"
  shows "decode_varint (xs @ ys) 0 = decode_varint xs 0"
proof -
  have "foldl (\<lambda>t i. t OR push_bit (8 * (i - 1)) (uint ((xs @ ys) ! i))) t is =
      foldl (\<lambda>t i. t OR push_bit (8 * (i - 1)) (uint (xs ! i))) t is"
    if "\<forall>i \<in> set is. i < length xs" for t :: int and "is"
    using that by (induction "is" arbitrary: t) (auto simp: nth_append)
  from this [of "[1..<size_of (hd xs)]" 0] assms show ?thesis
    by (simp add: decode_varint_def Let_def nth_append hd_conv_nth)
qed

lemma take_varint_spec:
  assumes "healthy r"
  obtains r' where "take_varint r = (r', fst (varint_spec (avail r)))"
    and "healthy r'" and "avail r' = snd (varint_spec (avail r))"
proof -
  obtain r1 where r1: "ump_ensure 1 r = (r1, Inr (1 \<le> length (avail r)))" "healthy r1"
      "avail r1 = avail r" "1 \<le> length (avail r) \<Longrightarrow> 1 \<le> length (ur_buf r1)"
    using ump_ensure_spec [OF assms, of 1] by metis
  show thesis
  proof (cases "avail r = []")
    case True
    with r1 show thesis by (intro that [of r1]) (simp_all add: take_varint_def varint_spec_def)
  next
    case False
    then have len: "1 \<le> length (avail r)" by (cases "avail r") simp_all
    with r1(4) have ne: "ur_buf r1 \<noteq> []" by auto
    then have "ur_buf r1 ! 0 = hd (avail r1)" by (simp add: avail_def hd_conv_nth nth_append)
    then have hd: "ur_buf r1 ! 0 = hd (avail r)" by (simp add: r1(3))
    define sz where "sz = size_of (hd (avail r))"
    obtain r2 where r2: "ump_ensure sz r1 = (r2, Inr (sz \<le> length (avail r1)))" "healthy r2"
        "avail r2 = avail r1" "sz \<le> length (avail r1) \<Longrightarrow> sz \<le> length (ur_buf r2)"
      using ump_ensure_spec [OF r1(2), of sz] by metis
    show thesis
    proof (cases "sz \<le> length (avail r)")
      case short: False
      with r1 r2 len False show thesis
        by (intro that [of r2]) (simp_all add: take_varint_def varint_spec_def hd sz_def Let_def)
    next
      case enough: True
      with r1 r2 have b: "sz \<le> length (ur_buf r2)" by simp
      have split: "avail r = ur_buf r2 @ concat (map projr (ur_stream r2))"
        using r1 r2 by (simp add: avail_def)
      have nb: "ur_buf r2 \<noteq> []" using b size_of_bounds(1) [of "hd (avail r)"] by (auto simp: sz_def)
      then have hd2: "hd (ur_buf r2) = hd (avail r)" by (simp add: split)
      have dec: "decode_varint (avail r) 0 = decode_varint (ur_buf r2) 0"
        using decode_varint_append [OF nb] b by (simp add: split hd2 [unfolded split] sz_def)
      have "avail (r2 \<lparr> ur_buf := drop sz (ur_buf r2) \<rparr>) = drop sz (avail r)"
        using b by (simp add: split avail_def [of "ur_buf_update f r2" for f])
      moreover have "healthy (r2 \<lparr> ur_buf := drop sz (ur_buf r2) \<rparr>)"
        using r2(2) by (simp add: healthy_def)
      ultimately show thesis using r1(1) r2(1,3) r1(3) len False enough dec
        by (intro that [of "r2 \<lparr> ur_buf := drop sz (ur_buf r2) \<rparr>"])
           (simp_all add: take_varint_def varint_spec_def hd sz_def Let_def)
    qed
  qed
qed

lemma take_payload_spec:
  assumes "healthy r"
  obtains r' where "take_payload ty len r = (r', fst (payload_spec ty len (avail r)))"
    and "healthy r'" and "avail r' = snd (payload_spec ty len (avail r))"
proof (cases "len < 0 \<or> MAX_PART_SIZE < len")
  case True
  with assms show thesis by (intro that [of r]) (simp_all add: take_payload_def payload_spec_def)
next
  case fits: False
  obtain r1 where r1: "ump_ensure (nat len) r = (r1, Inr (nat len \<le> length (avail r)))"
      "healthy r1" "avail r1 = avail r"
      "nat len \<le> length (avail r) \<Longrightarrow> nat len \<le> length (ur_buf r1)"
      "\<not> nat len \<le> length (avail r) \<Longrightarrow> ur_buf r1 = avail r"
    using ump_ensure_spec [OF assms, of "nat len"] by metis
  show thesis
  proof (cases "nat len \<le> length (avail r)")
    case True
    with r1 have b: "nat len \<le> length (ur_buf r1)" by simp
    have split: "avail r = ur_buf r1 @ concat (map projr (ur_stream r1))"
      using r1(3) by (simp add: avail_def)
    have "take_payload ty len r = (r1 \<lparr> ur_buf := drop (nat len) (ur_buf r1) \<rparr>,
        Inr (Some \<lparr> ump_ty = from_wire (swrap 32 ty), ump_data = take (nat len) (ur_buf r1) \<rparr>))"
      using fits r1(1) True by (simp add: take_payload_def)
    moreover have "payload_spec ty len (avail r) =
        (Inr (Some \<lparr> ump_ty = from_wire (swrap 32 ty), ump_data = take (nat len) (avail r) \<rparr>),
         drop (nat len) (avail r))"
      using fits True by (simp add: payload_spec_def)
    moreover have "take (nat len) (avail r) = take (nat len) (ur_buf r1)"
      using b by (simp add: split)
    moreover have "avail (r1 \<lparr> ur_buf := drop (nat len) (ur_buf r1) \<rparr>) = drop (nat len) (avail r)"
      using b by (simp add: split avail_def [of "ur_buf_update f r1" for f])
    moreover have "healthy (r1 \<lparr> ur_buf := drop (nat len) (ur_buf r1) \<rparr>)"
      using r1(2) by (simp add: healthy_def)
    ultimately show thesis by (intro that) simp_all
  next
    case short: False
    with fits r1 show thesis
      by (intro that [of r1]) (simp_all add: take_payload_def payload_spec_def)
  qed
qed

text \<open>The whole of \<open>next\<close>, for any way the bytes are cut into chunks.\<close>

lemma ump_next_refines:
  assumes "healthy r"
  obtains r' where "ump_next r = (r', fst (next_spec (avail r)))"
    and "healthy r'" and "avail r' = snd (next_spec (avail r))"
proof -
  obtain r1 where r1: "ump_ensure 1 r = (r1, Inr (1 \<le> length (avail r)))" "healthy r1" "avail r1 = avail r"
    using ump_ensure_spec [OF assms, of 1] by metis
  obtain r2 where r2: "take_varint r1 = (r2, fst (varint_spec (avail r)))" "healthy r2"
      "varint_spec (avail r) = (fst (varint_spec (avail r)), avail r2)"
    using take_varint_spec [OF r1(2)] r1(3) by (metis prod.collapse)
  obtain r3 where r3: "take_varint r2 = (r3, fst (varint_spec (avail r2)))" "healthy r3"
      "varint_spec (avail r2) = (fst (varint_spec (avail r2)), avail r3)"
    using take_varint_spec [OF r2(2)] by (metis prod.collapse)
  note base = ump_next_def next_spec_def
  show thesis
  proof (cases "avail r = []")
    case True
    with r1 show thesis by (intro that [of r1]) (simp_all add: base varint_spec_def)
  next
    case ne: False
    then have e1: "ump_ensure 1 r = (r1, Inr True)" using r1(1) by (cases "avail r") simp_all
    consider (err) e where "fst (varint_spec (avail r)) = Inl e"
      | (no) "fst (varint_spec (avail r)) = Inr None"
      | (ty) ty where "fst (varint_spec (avail r)) = Inr (Some ty)"
      by (metis option.exhaust sum.exhaust)
    then show thesis
    proof cases
      case ty
      with r2 have v1: "varint_spec (avail r) = (Inr (Some ty), avail r2)"
        and t1: "take_varint r1 = (r2, Inr (Some ty))" by simp_all
      consider (err) e where "fst (varint_spec (avail r2)) = Inl e"
        | (no) "fst (varint_spec (avail r2)) = Inr None"
        | (len) len where "fst (varint_spec (avail r2)) = Inr (Some len)"
        by (metis option.exhaust sum.exhaust)
      then show thesis
      proof cases
        case len
        with r3 have v2: "varint_spec (avail r2) = (Inr (Some len), avail r3)"
          and t2: "take_varint r2 = (r3, Inr (Some len))" by simp_all
        show thesis
          by (rule take_payload_spec [OF r3(2), of ty len], rule that)
             (use e1 t1 t2 v1 v2 in \<open>simp_all add: base\<close>)
      qed (use e1 t1 v1 r3 in \<open>intro that [of r3]; simp add: base\<close>)+
    qed (use e1 r2 in \<open>intro that [of r2]; simp add: base\<close>)+
  qed
qed

section \<open>An encoder to read back\<close>

text \<open>
  The crate only reads UMP. \<open>put_varint\<close> writes the shortest encoding of a value below \<open>2 ^ 32\<close>,
  from the format's description: the leading one bits of the first byte give the width, its other
  bits the low bits of the value.
\<close>

definition byte :: "nat \<Rightarrow> u8" where
  "byte n = word_of_nat n"

definition put_varint :: "nat \<Rightarrow> bytes" where
  "put_varint v =
     (if v < 2 ^ 7 then [byte v]
      else if v < 2 ^ 14 then [byte (128 + v mod 64), byte (v div 64)]
      else if v < 2 ^ 21 then [byte (192 + v mod 32), byte (v div 32 mod 256), byte (v div 2 ^ 13)]
      else if v < 2 ^ 28 then
        [byte (224 + v mod 16), byte (v div 16 mod 256), byte (v div 2 ^ 12 mod 256), byte (v div 2 ^ 20)]
      else [240, byte (v mod 256), byte (v div 2 ^ 8 mod 256), byte (v div 2 ^ 16 mod 256), byte (v div 2 ^ 24)])"

definition put_part :: "ump_part \<Rightarrow> bytes" where
  "put_part p =
     put_varint (nat (to_wire (ump_ty p) mod 2 ^ 32)) @ put_varint (length (ump_data p)) @ ump_data p"

lemma uint_byte: "n < 256 \<Longrightarrow> uint (byte n) = int n"
  by (simp add: byte_def uint_nat take_bit_nat_eq_self unsigned_of_nat)

lemma byte_less: "n < 256 \<Longrightarrow> m < 256 \<Longrightarrow> byte n < word_of_nat m \<longleftrightarrow> n < m"
  by (simp add: byte_def word_less_nat_alt unsigned_of_nat take_bit_nat_eq_self)

lemma size_of_byte:
  "n < 256 \<Longrightarrow> size_of (byte n) =
     (if n < 128 then 1 else if n < 192 then 2 else if n < 224 then 3 else if n < 240 then 4 else 5)"
  using byte_less [of n 128] byte_less [of n 192] byte_less [of n 224] byte_less [of n 240]
  by (simp add: size_of_def)

lemma or_push_plus:
  fixes a b :: int
  assumes "0 \<le> a" and "a < 2 ^ n"
  shows "a OR push_bit n b = a + 2 ^ n * b"
proof -
  have "a = take_bit n a" using assms by (simp add: take_bit_int_eq_self)
  then have "\<not> (bit a i \<and> bit (push_bit n b) i)" for i
    by (metis bit_push_bit_iff bit_take_bit_iff linorder_not_less)
  then have "a + push_bit n b = a OR push_bit n b"
    by (intro disjunctive_add_eq_or) (auto simp: bit_eq_iff bit_and_iff)
  then show ?thesis by (simp add: push_bit_eq_mult mult.commute)
qed

lemma and_low: "x AND (push_bit n 1 - 1) = x mod (2::int) ^ n"
  by (simp add: push_bit_eq_mult take_bit_eq_mod flip: mask_eq_exp_minus_1 take_bit_eq_mask)

lemma uint_lt_256: "uint (b :: u8) < 256"
  using uint_lt2p [of b] by simp

lemma le_bytes_or:
  "uint (b :: u8) OR push_bit 8 (uint (c :: u8)) = uint b + 256 * uint c"
  "uint b + 256 * uint c OR push_bit 16 (uint (d :: u8)) = uint b + 256 * uint c + 65536 * uint d"
  "uint b + 256 * uint c + 65536 * uint d OR push_bit 24 (uint (e :: u8)) =
     uint b + 256 * uint c + 65536 * uint d + 16777216 * uint e"
  using or_push_plus [of "uint b" 8 "uint c"]
    or_push_plus [of "uint b + 256 * uint c" 16 "uint d"]
    or_push_plus [of "uint b + 256 * uint c + 65536 * uint d" 24 "uint e"]
    uint_lt_256 [of b] uint_lt_256 [of c] uint_lt_256 [of d]
  by simp_all

lemma decode_by_size:
  "size_of a = 1 \<Longrightarrow> decode_varint (a # rest) 0 = (uint a, 1)"
  "size_of a = 2 \<Longrightarrow> decode_varint (a # b # rest) 0 = (uint a mod 64 + 64 * uint b, 2)"
  "size_of a = 3 \<Longrightarrow> decode_varint (a # b # c # rest) 0 =
     (uint a mod 32 + 32 * (uint b + 256 * uint c), 3)"
  "size_of a = 4 \<Longrightarrow> decode_varint (a # b # c # d # rest) 0 =
     (uint a mod 16 + 16 * (uint b + 256 * uint c + 65536 * uint d), 4)"
  "size_of a = 5 \<Longrightarrow> decode_varint (a # b # c # d # e # rest) 0 =
     (uint b + 256 * uint c + 65536 * uint d + 16777216 * uint e, 5)"
  using and_low [of "uint a" 6] and_low [of "uint a" 5] and_low [of "uint a" 4]
    or_push_plus [of "uint a mod 64" 6] or_push_plus [of "uint a mod 32" 5]
    or_push_plus [of "uint a mod 16" 4]
  by (simp_all add: decode_varint_def Let_def upt_rec le_bytes_or)

text \<open>The digits of a value, and the low bits under the width prefix.\<close>

lemma low_digit: "int v = int (v mod m) + int m * int (v div m)"
  by (metis mod_mult_div_eq of_nat_add of_nat_mult)

lemma next_digit: "int (v div m) = int (v div m mod 256) + 256 * int (v div (m * 256))"
  using low_digit [of "v div m" 256] by (simp add: div_mult2_eq)

lemma under_prefix:
  "(128 + int (v mod 64)) mod 64 = int (v mod 64)"
  "(192 + int (v mod 32)) mod 32 = int (v mod 32)"
  "(224 + int (v mod 16)) mod 16 = int (v mod 16)"
  using mod_mult_self1 [of "int (v mod 64)" 2 64] mod_mult_self1 [of "int (v mod 32)" 6 32]
    mod_mult_self1 [of "int (v mod 16)" 14 16]
  by (simp_all add: add.commute zmod_int)

lemma decode_put_varint:
  assumes "v < 2 ^ 32"
  shows "decode_varint (put_varint v @ rest) 0 = (int v, length (put_varint v))"
    and "size_of (hd (put_varint v)) = length (put_varint v)" and "put_varint v \<noteq> []"
proof -
  have 1: "size_of (hd (put_varint v)) = length (put_varint v)"
    by (auto simp: put_varint_def size_of_byte) (simp add: size_of_def)
  show "size_of (hd (put_varint v)) = length (put_varint v)" by (rule 1)
  show "put_varint v \<noteq> []" by (simp add: put_varint_def)
  consider "v < 2 ^ 7" | "2 ^ 7 \<le> v" "v < 2 ^ 14" | "2 ^ 14 \<le> v" "v < 2 ^ 21"
    | "2 ^ 21 \<le> v" "v < 2 ^ 28" | "2 ^ 28 \<le> v" by linarith
  then show "decode_varint (put_varint v @ rest) 0 = (int v, length (put_varint v))"
  proof cases
    case 1
    then show ?thesis by (simp add: put_varint_def decode_by_size size_of_byte uint_byte)
  next
    case 2
    then have "v div 64 < 256" by simp
    with 2 low_digit [of v 64] show ?thesis
      by (simp add: put_varint_def decode_by_size size_of_byte uint_byte under_prefix)
  next
    case 3
    then have "v div 2 ^ 13 < 256" by simp
    with 3 low_digit [of v 32] next_digit [of v 32] show ?thesis
      by (simp add: put_varint_def decode_by_size size_of_byte uint_byte under_prefix)
  next
    case 4
    then have "v div 2 ^ 20 < 256" by simp
    with 4 have "decode_varint (put_varint v @ rest) 0 =
        (int (v mod 16) + 16 * (int (v div 16 mod 256) + 256 * int (v div 2 ^ 12 mod 256)
          + 65536 * int (v div 2 ^ 20)), length (put_varint v))"
      by (simp add: put_varint_def decode_by_size size_of_byte uint_byte under_prefix)
    moreover have "int v = int (v mod 16) + 16 * (int (v div 16 mod 256)
        + 256 * int (v div 2 ^ 12 mod 256) + 65536 * int (v div 2 ^ 20))"
      using low_digit [of v 16] next_digit [of v 16] next_digit [of v "2 ^ 12"] by simp
    ultimately show ?thesis by simp
  next
    case 5
    with assms have "v div 2 ^ 24 < 256" by simp
    moreover have "size_of 240 = 5" by (simp add: size_of_def)
    ultimately show ?thesis
      using 5 low_digit [of v 256] next_digit [of v 256] next_digit [of v "2 ^ 16"]
      by (simp add: put_varint_def decode_by_size uint_byte)
  qed
qed

lemma varint_spec_put:
  assumes "v < 2 ^ 32"
  shows "varint_spec (put_varint v @ rest) = (Inr (Some (int v)), rest)"
  using decode_put_varint [OF assms] by (simp add: varint_spec_def)

text \<open>What can be written: the type is an \<open>i32\<close> in its canonical constructor, the payload not too long.\<close>

definition part_ok :: "ump_part \<Rightarrow> bool" where
  "part_ok p \<longleftrightarrow>
     in_srange 32 (to_wire (ump_ty p)) \<and> from_wire (to_wire (ump_ty p)) = ump_ty p \<and>
     int (length (ump_data p)) \<le> MAX_PART_SIZE"

lemma swrap_mod: "swrap 32 (x mod 2 ^ 32) = swrap 32 x"
  by (simp add: swrap_def mod_add_left_eq)

lemma next_spec_put:
  assumes "part_ok p"
  shows "next_spec (put_part p @ rest) = (Inr (Some p), rest)"
proof -
  define w where "w = nat (to_wire (ump_ty p) mod 2 ^ 32)"
  have w: "w < 2 ^ 32" and iw: "int w = to_wire (ump_ty p) mod 2 ^ 32"
    by (simp_all add: w_def nat_less_iff)
  have len: "length (ump_data p) < 2 ^ 32"
    using assms by (simp add: part_ok_def MAX_PART_SIZE_def)
  have "swrap 32 (int w) = to_wire (ump_ty p)"
    using assms unfolding iw swrap_mod by (simp add: part_ok_def swrap_id)
  with assms have ty: "from_wire (swrap 32 (int w)) = ump_ty p" by (simp add: part_ok_def)
  have "put_part p @ rest = put_varint w @ put_varint (length (ump_data p)) @ ump_data p @ rest"
    by (simp add: put_part_def w_def)
  with varint_spec_put [OF w] varint_spec_put [OF len] assms ty show ?thesis
    by (simp add: next_spec_def payload_spec_def part_ok_def)
qed

lemma read_parts_put:
  assumes "healthy r" and "avail r = concat (map put_part ps)" and "list_all part_ok ps"
  shows "read_parts (Suc (length ps)) r = Some (Inr ps)"
  using assms
proof (induction ps arbitrary: r)
  case Nil
  obtain r' where "ump_next r = (r', fst (next_spec (avail r)))"
    using ump_next_refines [OF Nil(1)] by metis
  with Nil show ?case by (simp add: next_spec_def varint_spec_def)
next
  case (Cons p ps)
  obtain r' where r': "ump_next r = (r', fst (next_spec (avail r)))" "healthy r'"
      "avail r' = snd (next_spec (avail r))"
    using ump_next_refines [OF Cons.prems(1)] by metis
  have "next_spec (avail r) = (Inr (Some p), concat (map put_part ps))"
    using Cons.prems next_spec_put [of p] by simp
  with r' Cons.IH [of r'] Cons.prems show ?case by simp
qed

section \<open>Properties\<close>

text \<open>
  C18: a stream of parts is read back whole and in order, however the transport cuts it into
  chunks (parts may span chunks, chunks may hold many parts or nothing), and the reader then ends
  cleanly.
\<close>

theorem ump_stream_roundtrip:
  assumes "list_all part_ok ps" and "concat chunks = concat (map put_part ps)"
  shows "read_parts (Suc (length ps)) (ump_reader_new (map Inr chunks)) = Some (Inr ps)"
  using read_parts_put [of "ump_reader_new (map Inr chunks)" ps] assms by simp

lemma ump_stream_roundtrip_witness:
  "read_parts 3 (ump_reader_new (map Inr [[20], [], [2, 7, 8, 129], [3, 1], [9]])) =
     Some (Inr [\<lparr> ump_ty = MediaHeader, ump_data = [7, 8] \<rparr>, \<lparr> ump_ty = Unknown 193, ump_data = [9] \<rparr>])"
proof -
  define ps where "ps = [\<lparr> ump_ty = MediaHeader, ump_data = [7, 8] \<rparr>, \<lparr> ump_ty = Unknown 193, ump_data = [9 :: u8] \<rparr>]"
  have "list_all part_ok ps" unfolding ps_def by code_simp
  moreover have "concat [[20], [], [2, 7, 8, 129], [3, 1], [9]] = concat (map put_part ps)"
    unfolding ps_def by code_simp
  ultimately have "read_parts (Suc (length ps)) (ump_reader_new (map Inr [[20], [], [2, 7, 8, 129], [3, 1], [9]])) =
      Some (Inr ps)" by (rule ump_stream_roundtrip)
  then show ?thesis by (simp add: ps_def numeral_3_eq_3)
qed

text \<open>
  One call of \<open>next\<close> is a function of the bytes still to come: two readers with the same bytes
  ahead, buffered or not, give the same result, error texts included, and the same bytes remain.
\<close>

theorem ump_next_chunking_independent:
  assumes "healthy r" and "healthy s" and "avail r = avail s"
  shows "snd (ump_next r) = snd (ump_next s) \<and> avail (fst (ump_next r)) = avail (fst (ump_next s))"
  using ump_next_refines [OF assms(1)] ump_next_refines [OF assms(2)] assms(3) by (metis fst_conv snd_conv)

lemma ump_next_chunking_independent_witness:
  "snd (ump_next (ump_reader_new (map Inr [[20, 5, 1], [2]]))) =
   snd (ump_next (ump_reader_new (map Inr [[20], [5], [1, 2]])))"
  by (rule ump_next_chunking_independent [THEN conjunct1], (simp only: healthy_new)+)
     (simp only: avail_new, simp)

lemma varint_spec_prefix:
  "varint_spec bs = (Inr (Some v), rest) \<Longrightarrow> \<exists>h. bs = h @ rest \<and> 1 \<le> length h \<and> length h \<le> 5"
  using size_of_bounds [of "hd bs"]
  by (intro exI [of _ "take (size_of (hd bs)) bs"])
     (auto simp: varint_spec_def min_def split: if_splits)

lemma varint_spec_None: "varint_spec bs = (Inr None, rest) \<Longrightarrow> bs = []"
  by (simp add: varint_spec_def split: if_splits)

lemma payload_spec_not_None: "fst (payload_spec ty len bs) \<noteq> Inr None"
  by (simp add: payload_spec_def)

lemma next_spec_None: "fst (next_spec bs) = Inr None \<Longrightarrow> bs = []"
  by (cases "varint_spec bs")
     (auto simp: next_spec_def payload_spec_not_None dest: varint_spec_None
       split: sum.splits option.splits prod.splits)

text \<open>
  An accepted part is exactly a prefix of the stream and within the size limit, and the only
  clean end is the end of the bytes: a stream cut inside a part is an error, never a short part.
\<close>

theorem ump_next_sound:
  assumes "healthy r"
  shows "case snd (ump_next r) of
      Inl e \<Rightarrow> avail r \<noteq> []
    | Inr None \<Rightarrow> avail r = []
    | Inr (Some p) \<Rightarrow> int (length (ump_data p)) \<le> MAX_PART_SIZE \<and>
        (\<exists>head. avail r = head @ ump_data p @ avail (fst (ump_next r)) \<and> 2 \<le> length head \<and> length head \<le> 10)"
proof -
  obtain r' where r': "ump_next r = (r', fst (next_spec (avail r)))" "avail r' = snd (next_spec (avail r))"
    using ump_next_refines [OF assms] by metis
  show ?thesis
  proof (cases "fst (next_spec (avail r))")
    case (Inl e)
    then have "avail r \<noteq> []" by (auto simp: next_spec_def varint_spec_def)
    with Inl r' show ?thesis by simp
  next
    case (Inr op)
    show ?thesis
    proof (cases op)
      case None
      with Inr have "avail r = []" by (intro next_spec_None) simp
      with Inr None r' show ?thesis by simp
    next
      case (Some p)
      then obtain ty b1 len b2 where v1: "varint_spec (avail r) = (Inr (Some ty), b1)"
          and v2: "varint_spec b1 = (Inr (Some len), b2)"
          and pl: "next_spec (avail r) = payload_spec ty len b2"
        using Inr by (auto simp: next_spec_def split: prod.splits sum.splits option.splits)
      from pl Some Inr r' have d: "ump_data p = take (nat len) b2" "b2 = ump_data p @ avail r'"
          "int (length (ump_data p)) \<le> MAX_PART_SIZE"
        by (auto simp: payload_spec_def split: if_splits)
      obtain h1 h2 where "avail r = h1 @ b1" "b1 = h2 @ b2" "1 \<le> length h1" "1 \<le> length h2"
          "length h1 \<le> 5" "length h2 \<le> 5"
        using varint_spec_prefix [OF v1] varint_spec_prefix [OF v2] by metis
      with d have "avail r = (h1 @ h2) @ ump_data p @ avail r' \<and> 2 \<le> length (h1 @ h2) \<and> length (h1 @ h2) \<le> 10"
        by simp
      then have "\<exists>h. avail r = h @ ump_data p @ avail r' \<and> 2 \<le> length h \<and> length h \<le> 10" by blast
      with Inr Some r' d(3) show ?thesis by simp
    qed
  qed
qed

lemma ump_next_sound_witness:
  "snd (ump_next (ump_reader_new (map Inr [[20, 5, 1], [2]]))) \<noteq> Inr None"
  using ump_next_sound [OF healthy_new [of "[[20, 5, 1], [2]]"]]
  by (auto simp only: avail_new) simp

text \<open>
  Part types: every wire value has a part type that is written back as the same value, unknown
  ones included.
\<close>

theorem part_type_roundtrip:
  "to_wire (from_wire v) = v \<and>
   (from_wire (to_wire p) = p \<or> (\<exists>k. p = Unknown k \<and> from_wire k \<noteq> Unknown k))"
  by (cases p) (simp_all add: from_wire_def)

end
