(* ===== verification/Segment.thy ===== *)
theory Segment
  imports Prelude "HOL-Library.Sublist" "HOL-Library.Char_ord" "HOL-Library.List_Lexorder"
begin

text \<open>
  Formats and media segments of the SABR crate (\<open>sabrump/src/format.rs\<close>, \<open>segment.rs\<close>). A segment is
  shared between the task that appends to it and the tasks that read it; its fields behind locks and
  atomics are record fields, one operation one step. \<open>mark_complete\<close> publishes in two steps, which
  the step relation keeps apart. \<open>i32\<close> and \<open>i64\<close> are \<open>int\<close>, additions wrapped.
\<close>

section \<open>Formats\<close>

record format_key =
  fk_itag :: int
  fk_last_modified :: u64
  fk_xtags :: string

definition format_key_of :: "int \<Rightarrow> u64 \<Rightarrow> string option \<Rightarrow> format_key" where
  "format_key_of itag lmt xtags =
     \<lparr> fk_itag = itag, fk_last_modified = lmt,
       fk_xtags = (case xtags of Some x \<Rightarrow> x | None \<Rightarrow> []) \<rparr>"

record sabr_format =
  sf_itag :: int
  sf_last_modified :: u64
  sf_xtags :: string
  sf_mime_type :: string
  sf_codecs :: string
  sf_bitrate :: int
  sf_width :: int
  sf_height :: int
  sf_fps :: int
  sf_audio_channels :: int
  sf_audio_sample_rate :: int
  sf_language :: "string option"
  sf_is_original_audio :: bool
  sf_is_drc :: bool

definition sabr_format_key :: "sabr_format \<Rightarrow> format_key" where
  "sabr_format_key f =
     \<lparr> fk_itag = sf_itag f, fk_last_modified = sf_last_modified f, fk_xtags = sf_xtags f \<rparr>"

definition sabr_format_eq :: "sabr_format \<Rightarrow> sabr_format \<Rightarrow> bool" where
  "sabr_format_eq f g \<longleftrightarrow> sabr_format_key f = sabr_format_key g"

definition is_video :: "sabr_format \<Rightarrow> bool" where
  "is_video f \<longleftrightarrow> prefix ''video/'' (sf_mime_type f)"

definition is_audio :: "sabr_format \<Rightarrow> bool" where
  "is_audio f \<longleftrightarrow> prefix ''audio/'' (sf_mime_type f)"

text \<open>
  \<open>str::trim\<close> on the UTF-8 bytes: the encodings of the code points with the White_Space property.
\<close>

definition chars :: "nat list \<Rightarrow> string" where
  "chars ns = map char_of ns"

definition white_space :: "string list" where
  "white_space =
     map (\<lambda>n. chars [n]) [9, 10, 11, 12, 13, 32] @
     [chars [0xC2, 0x85], chars [0xC2, 0xA0], chars [0xE1, 0x9A, 0x80]] @
     map (\<lambda>n. chars [0xE2, 0x80, n]) ([0x80..<0x8B] @ [0xA8, 0xA9, 0xAF]) @
     [chars [0xE2, 0x81, 0x9F], chars [0xE3, 0x80, 0x80]]"

function trim_with :: "string list \<Rightarrow> string \<Rightarrow> string" where
  "trim_with ws s =
     (case find (\<lambda>w. w \<noteq> [] \<and> prefix w s) ws of
        None \<Rightarrow> s
      | Some w \<Rightarrow> trim_with ws (drop (length w) s))"
  by pat_completeness auto

termination
  by (relation "measure (\<lambda>(ws, s). length s)")
     (auto simp: find_Some_iff prefix_def)

declare trim_with.simps [simp del]

definition trim :: "string \<Rightarrow> string" where
  "trim s = rev (trim_with (map rev white_space) (rev (trim_with white_space s)))"

text \<open>\<open>split(c).next()\<close>, which is never absent.\<close>

definition split_first :: "char \<Rightarrow> string \<Rightarrow> string" where
  "split_first c s = takeWhile (\<lambda>x. x \<noteq> c) s"

definition container_mime_type :: "sabr_format \<Rightarrow> string" where
  "container_mime_type f = trim (split_first CHR '';'' (sf_mime_type f))"

definition to_ascii_lowercase :: "string \<Rightarrow> string" where
  "to_ascii_lowercase s =
     map (\<lambda>c. let n = (of_char c :: nat) in if 65 \<le> n \<and> n \<le> 90 then char_of (n + 32) else c) s"

definition codec_name :: "string \<Rightarrow> string" where
  "codec_name codecs =
     (let c = to_ascii_lowercase codecs in
      if prefix ''avc1'' c \<or> prefix ''avc3'' c then ''H.264''
      else if prefix ''hev1'' c \<or> prefix ''hvc1'' c then ''H.265''
      else if prefix ''av01'' c then ''AV1''
      else if prefix ''vp9'' c \<or> prefix ''vp09'' c then ''VP9''
      else if prefix ''vp8'' c \<or> prefix ''vp08'' c then ''VP8''
      else if prefix ''mp4a'' c then ''AAC''
      else if prefix ''opus'' c then ''Opus''
      else if prefix ''vorbis'' c then ''Vorbis''
      else if prefix ''ec-3'' c then ''EAC3''
      else if prefix ''ac-3'' c then ''AC3''
      else trim (split_first CHR ''.'' codecs))"

definition sample_mime_type :: "string \<Rightarrow> string option" where
  "sample_mime_type codecs =
     (let c = to_ascii_lowercase codecs in
      if prefix ''avc1'' c \<or> prefix ''avc3'' c then Some ''video/avc''
      else if prefix ''hev1'' c \<or> prefix ''hvc1'' c then Some ''video/hevc''
      else if prefix ''av01'' c then Some ''video/av01''
      else if prefix ''vp9'' c \<or> prefix ''vp09'' c then Some ''video/x-vnd.on2.vp9''
      else if prefix ''vp8'' c \<or> prefix ''vp08'' c then Some ''video/x-vnd.on2.vp8''
      else if prefix ''mp4a'' c then Some ''audio/mp4a-latm''
      else if prefix ''opus'' c then Some ''audio/opus''
      else if prefix ''vorbis'' c then Some ''audio/vorbis''
      else if prefix ''ec-3'' c then Some ''audio/eac3''
      else if prefix ''ac-3'' c then Some ''audio/ac3''
      else None)"

section \<open>Segments\<close>

record segment =
  sg_format_key :: format_key
  sg_sequence_number :: int
  sg_is_init :: bool
  sg_start_us :: int
  sg_content_length :: int
  sg_start_ticks :: int
  sg_timescale :: int
  sg_duration_us :: int
  sg_duration_exact :: bool
  sg_data :: bytes
  sg_frozen :: "bytes option"
  sg_size :: nat
  sg_complete :: bool

definition segment_new :: "format_key \<Rightarrow> int \<Rightarrow> bool \<Rightarrow> int \<Rightarrow> int \<Rightarrow> int \<Rightarrow> int \<Rightarrow> int \<Rightarrow> segment" where
  "segment_new key seq init start_us duration_us content_length start_ticks timescale =
     \<lparr> sg_format_key = key, sg_sequence_number = seq, sg_is_init = init, sg_start_us = start_us,
       sg_content_length = content_length, sg_start_ticks = start_ticks, sg_timescale = timescale,
       sg_duration_us = duration_us, sg_duration_exact = False, sg_data = [], sg_frozen = None,
       sg_size = 0, sg_complete = False \<rparr>"

definition set_duration :: "int \<Rightarrow> bool \<Rightarrow> segment \<Rightarrow> segment" where
  "set_duration us exact s =
     (if us \<le> 0 then s
      else if sg_duration_exact s \<and> \<not> exact then s
      else s \<lparr> sg_duration_us := us, sg_duration_exact := exact \<rparr>)"

definition end_us :: "segment \<Rightarrow> int" where
  "end_us s = swrap 64 (sg_start_us s + sg_duration_us s)"

definition seg_append :: "bytes \<Rightarrow> segment \<Rightarrow> segment" where
  "seg_append bs s =
     (if bs = [] then s
      else s \<lparr> sg_data := sg_data s @ bs, sg_size := length (sg_data s @ bs) \<rparr>)"

definition bytes_from :: "nat \<Rightarrow> segment \<Rightarrow> bytes" where
  "bytes_from start s =
     (case sg_frozen s of
        Some frozen \<Rightarrow> if length frozen \<le> start then [] else drop start frozen
      | None \<Rightarrow> if length (sg_data s) \<le> start then [] else drop start (sg_data s))"

definition seg_bytes :: "segment \<Rightarrow> bytes" where
  "seg_bytes s = bytes_from 0 s"

text \<open>\<open>mark_complete\<close>: the locked block, which tells whether it froze, then the flag.\<close>

definition freeze :: "segment \<Rightarrow> segment \<times> bool" where
  "freeze s =
     (case sg_frozen s of
        Some _ \<Rightarrow> (s, False)
      | None \<Rightarrow> (s \<lparr> sg_frozen := Some (sg_data s), sg_data := [] \<rparr>, True))"

definition mark_complete :: "segment \<Rightarrow> segment" where
  "mark_complete s = (case freeze s of (s, froze) \<Rightarrow> if froze then s \<lparr> sg_complete := True \<rparr> else s)"

section \<open>Concurrent use\<close>

text \<open>
  Any number of tasks append, set the duration and complete the segment. The second component counts
  the tasks between the locked block of \<open>mark_complete\<close> and the store of the flag.
\<close>

inductive seg_step :: "segment \<times> nat \<Rightarrow> segment \<times> nat \<Rightarrow> bool" where
  step_append: "seg_step (s, n) (seg_append bs s, n)"
| step_duration: "seg_step (s, n) (set_duration us exact s, n)"
| step_freeze: "freeze s = (s', froze) \<Longrightarrow> seg_step (s, n) (s', if froze then Suc n else n)"
| step_publish: "seg_step (s, Suc n) (s \<lparr> sg_complete := True \<rparr>, n)"

definition seg_inv :: "segment \<times> nat \<Rightarrow> bool" where
  "seg_inv = (\<lambda>(s, n).
     (sg_complete s \<longrightarrow> sg_frozen s \<noteq> None) \<and> (0 < n \<longrightarrow> sg_frozen s \<noteq> None) \<and>
     (sg_frozen s = None \<longrightarrow> sg_size s = length (sg_data s)))"

inductive_cases seg_stepE: "seg_step c c'"

lemma bytes_from_drop: "bytes_from start s = drop start (seg_bytes s)"
  by (auto simp: seg_bytes_def bytes_from_def split: option.splits)

lemma seg_bytes_simps [simp]:
  "seg_bytes (set_duration us exact s) = seg_bytes s"
  "seg_bytes (s \<lparr> sg_complete := b \<rparr>) = seg_bytes s"
  "seg_bytes (fst (freeze s)) = seg_bytes s"
  "seg_bytes (seg_append bs s) =
     (if sg_frozen s = None then seg_bytes s @ bs else seg_bytes s)"
  by (auto simp: seg_bytes_def bytes_from_def set_duration_def freeze_def seg_append_def
      split: option.splits)

lemma seg_inv_new: "seg_inv (segment_new key seq init st du cl sti ts, 0)"
  by (simp add: seg_inv_def segment_new_def)

lemma seg_inv_step [wf_intros]: "seg_step c c' \<Longrightarrow> seg_inv c \<Longrightarrow> seg_inv c'"
  by (induction rule: seg_step.induct)
     (auto simp: seg_inv_def seg_append_def set_duration_def freeze_def split: option.splits if_splits)

lemma seg_inv_steps [wf_intros]: "seg_step\<^sup>*\<^sup>* c c' \<Longrightarrow> seg_inv c \<Longrightarrow> seg_inv c'"
  by (induction rule: rtranclp_induct) (auto intro: wf_intros)

lemma seg_step_bytes:
  "seg_step c c' \<Longrightarrow> prefix (seg_bytes (fst c)) (seg_bytes (fst c'))"
  by (induction rule: seg_step.induct) (auto, metis fst_conv prefix_order.refl seg_bytes_simps(3))

lemma seg_step_frozen:
  "seg_step c c' \<Longrightarrow> sg_frozen (fst c) = Some f \<Longrightarrow> sg_frozen (fst c') = Some f"
  by (induction rule: seg_step.induct)
     (auto simp: seg_append_def set_duration_def freeze_def)

lemma seg_steps_bytes:
  "seg_step\<^sup>*\<^sup>* c c' \<Longrightarrow> prefix (seg_bytes (fst c)) (seg_bytes (fst c'))"
  by (induction rule: rtranclp_induct) (auto dest: seg_step_bytes intro: prefix_order.trans)

lemma seg_steps_frozen:
  "seg_step\<^sup>*\<^sup>* c c' \<Longrightarrow> sg_frozen (fst c) = Some f \<Longrightarrow> sg_frozen (fst c') = Some f"
  by (induction rule: rtranclp_induct) (auto dest: seg_step_frozen)

text \<open>A whole call of \<open>mark_complete\<close> is a run of these steps.\<close>

lemma mark_complete_steps: "seg_step\<^sup>*\<^sup>* (s, n) (mark_complete s, n)"
proof (cases "freeze s")
  case (Pair s' froze)
  then have "seg_step (s, n) (s', if froze then Suc n else n)" by (rule step_freeze)
  moreover have "seg_step (s', Suc n) (s' \<lparr> sg_complete := True \<rparr>, n)" by (rule step_publish)
  ultimately show ?thesis
    using Pair by (auto simp: mark_complete_def intro: rtranclp.rtrancl_into_rtrancl)
qed

section \<open>Properties\<close>

text \<open>
  In any interleaving, a reader that sees the segment complete holds its final bytes: the
  payload is frozen by then, later steps never change it, and what was read before is a prefix of it.
\<close>

theorem segment_complete_is_final:
  assumes "seg_step\<^sup>*\<^sup>* (segment_new key seq init st du cl sti ts, 0) c0"
    and "seg_step\<^sup>*\<^sup>* c0 c1" and "sg_complete (fst c1)" and "seg_step\<^sup>*\<^sup>* c1 c2"
  shows "seg_bytes (fst c2) = seg_bytes (fst c1) \<and> prefix (seg_bytes (fst c0)) (seg_bytes (fst c1))
    \<and> bytes_from start (fst c2) = drop start (seg_bytes (fst c1))"
proof -
  have "seg_inv c1" using assms(1,2) seg_inv_new by (metis seg_inv_steps)
  with assms(3) obtain f where f: "sg_frozen (fst c1) = Some f"
    by (cases c1) (auto simp: seg_inv_def)
  with assms(4) have f2: "sg_frozen (fst c2) = Some f" by (simp add: seg_steps_frozen)
  have "seg_bytes (fst c2) = seg_bytes (fst c1)"
    by (simp add: seg_bytes_def bytes_from_def f f2)
  with seg_steps_bytes [OF assms(2)] show ?thesis by (simp add: bytes_from_drop)
qed

definition sample_segment :: segment where
  "sample_segment = segment_new (format_key_of 137 5 None) 3 False 0 5000 0 0 1000"

lemma segment_complete_is_final_witness:
  "seg_bytes (seg_append [9] (mark_complete (seg_append [1, 2] sample_segment))) = [1, 2]"
proof -
  have 1: "seg_step\<^sup>*\<^sup>* (sample_segment, 0) (seg_append [1, 2] sample_segment, 0)"
    by (intro r_into_rtranclp step_append)
  have 2: "seg_step\<^sup>*\<^sup>* (seg_append [1, 2] sample_segment, 0) (mark_complete (seg_append [1, 2] sample_segment), 0)"
    by (rule mark_complete_steps)
  have 3: "sg_complete (fst (mark_complete (seg_append [1, 2] sample_segment), 0 :: nat))"
    by (simp add: sample_segment_def segment_new_def seg_append_def mark_complete_def freeze_def)
  have 4: "seg_step\<^sup>*\<^sup>* (mark_complete (seg_append [1, 2] sample_segment), 0)
      (seg_append [9] (mark_complete (seg_append [1, 2] sample_segment)), 0)"
    by (intro r_into_rtranclp step_append)
  have "seg_bytes (mark_complete (seg_append [1, 2] sample_segment)) = [1, 2]" by code_simp
  with segment_complete_is_final [OF 1 [unfolded sample_segment_def] 2 [unfolded sample_segment_def]
      3 [unfolded sample_segment_def] 4 [unfolded sample_segment_def]]
  show ?thesis by (simp add: sample_segment_def)
qed

text \<open>
  The two codec tables agree: a codec has a sample MIME type exactly when it has one of the
  ten display names, and then the type says video exactly for the five video codecs.
\<close>

definition known_video_names :: "string list" where
  "known_video_names = [''H.264'', ''H.265'', ''AV1'', ''VP9'', ''VP8'']"

definition known_audio_names :: "string list" where
  "known_audio_names = [''AAC'', ''Opus'', ''Vorbis'', ''EAC3'', ''AC3'']"

theorem codec_tables_agree:
  "case sample_mime_type codecs of
     None \<Rightarrow> codec_name codecs = trim (split_first CHR ''.'' codecs)
   | Some m \<Rightarrow>
       (prefix ''video/'' m \<and> codec_name codecs \<in> set known_video_names) \<or>
       (prefix ''audio/'' m \<and> codec_name codecs \<in> set known_audio_names)"
  by (simp add: sample_mime_type_def codec_name_def Let_def known_video_names_def known_audio_names_def)

end
