(* ===== verification/Track_Buffer.thy ===== *)
theory Track_Buffer
  imports Segment
begin

text \<open>
  The segment buffer of one track (\<open>sabrump/src/buffer.rs\<close>). An \<open>Arc<SabrSegment>\<close> is an address in
  a heap of segments, because \<open>discard\<close> compares pointers; the \<open>BTreeMap\<close> is its entries in key
  order, so iteration is list order. \<open>tb_wakeups\<close> counts the calls of \<open>notify_waiters\<close>. Each
  operation runs under the buffer's lock and is one step.
\<close>

type_synonym heap = "nat \<Rightarrow> segment"
type_synonym entries = "(int \<times> nat) list"

record track_buffer =
  tb_format_key :: format_key
  tb_segments :: entries
  tb_init :: "nat option"
  tb_wakeups :: nat

definition NO_US :: int where
  "NO_US = - (2 ^ 63)"

definition track_buffer_new :: "format_key \<Rightarrow> track_buffer" where
  "track_buffer_new key = \<lparr> tb_format_key = key, tb_segments = [], tb_init = None, tb_wakeups = 0 \<rparr>"

definition notify_changed :: "track_buffer \<Rightarrow> track_buffer" where
  "notify_changed b = b \<lparr> tb_wakeups := Suc (tb_wakeups b) \<rparr>"

section \<open>Reading\<close>

definition segment_count :: "track_buffer \<Rightarrow> nat" where
  "segment_count b = length (tb_segments b)"

definition highest_sequence :: "track_buffer \<Rightarrow> int" where
  "highest_sequence b = (if tb_segments b = [] then -1 else fst (last (tb_segments b)))"

definition lowest_sequence :: "track_buffer \<Rightarrow> int" where
  "lowest_sequence b = (case tb_segments b of [] \<Rightarrow> -1 | e # _ \<Rightarrow> fst e)"

definition buf_get :: "track_buffer \<Rightarrow> int \<Rightarrow> nat option" where
  "buf_get b seq = map_of (tb_segments b) seq"

definition snapshot :: "track_buffer \<Rightarrow> nat list" where
  "snapshot b = map snd (tb_segments b)"

definition range_from :: "int \<Rightarrow> entries \<Rightarrow> entries" where
  "range_from k m = [e \<leftarrow> m. k \<le> fst e]"

definition range_below :: "int \<Rightarrow> entries \<Rightarrow> entries" where
  "range_below k m = [e \<leftarrow> m. fst e < k]"

definition first_at_or_after :: "track_buffer \<Rightarrow> int \<Rightarrow> nat option" where
  "first_at_or_after b min_sequence =
     (case (if min_sequence < 0 then tb_segments b else range_from min_sequence (tb_segments b)) of
        [] \<Rightarrow> None
      | e # _ \<Rightarrow> Some (snd e))"

definition first_covering :: "heap \<Rightarrow> track_buffer \<Rightarrow> int \<Rightarrow> nat option" where
  "first_covering h b position_us = find (\<lambda>a. position_us < end_us (h a)) (map snd (tb_segments b))"

definition seq_succ :: "int \<Rightarrow> int" where
  "seq_succ s = swrap 32 (s + 1)"

text \<open>The loops keep \<open>expected\<close> in an \<open>i32\<close> with \<open>-1\<close> for "no element yet".\<close>

fun exact_end_loop :: "heap \<Rightarrow> int \<Rightarrow> int \<Rightarrow> entries \<Rightarrow> int" where
  "exact_end_loop h expected end' [] = end'"
| "exact_end_loop h expected end' ((seq, a) # xs) =
     (if expected \<noteq> -1 \<and> seq \<noteq> expected then end'
      else if \<not> sg_complete (h a) \<or> \<not> sg_duration_exact (h a) then end'
      else exact_end_loop h (seq_succ seq) (end_us (h a)) xs)"

definition buffered_exact_end_us :: "heap \<Rightarrow> track_buffer \<Rightarrow> int" where
  "buffered_exact_end_us h b = exact_end_loop h (-1) NO_US (tb_segments b)"

text \<open>
  \<open>publishable_run\<close> looks successive numbers up; one more look-up than there are segments is enough
  fuel, each success being a different key.
\<close>

fun publishable_loop :: "nat \<Rightarrow> heap \<Rightarrow> entries \<Rightarrow> int \<Rightarrow> int \<Rightarrow> int" where
  "publishable_loop 0 h m seq end' = end'"
| "publishable_loop (Suc n) h m seq end' =
     (case map_of m seq of
        None \<Rightarrow> end'
      | Some a \<Rightarrow>
          if \<not> sg_complete (h a) \<or> \<not> sg_duration_exact (h a) then end'
          else publishable_loop n h m (seq_succ seq) seq)"

definition publishable_run :: "heap \<Rightarrow> track_buffer \<Rightarrow> (int \<times> int) option" where
  "publishable_run h b =
     (case tb_segments b of
        [] \<Rightarrow> None
      | e # _ \<Rightarrow>
          let end' = publishable_loop (Suc (length (tb_segments b))) h (tb_segments b) (fst e) (-1) in
          if end' < 0 then None else Some (fst e, end'))"

fun exact_from_loop :: "heap \<Rightarrow> int \<Rightarrow> int \<Rightarrow> entries \<Rightarrow> int" where
  "exact_from_loop h expected end' [] = end'"
| "exact_from_loop h expected end' ((seq, a) # xs) =
     (if seq \<noteq> expected then end'
      else if \<not> sg_complete (h a) \<or> \<not> sg_duration_exact (h a) then end'
      else exact_from_loop h (seq_succ seq) (end_us (h a)) xs)"

definition exact_end_from_sequence :: "heap \<Rightarrow> track_buffer \<Rightarrow> int \<Rightarrow> int" where
  "exact_end_from_sequence h b sequence =
     exact_from_loop h sequence NO_US (range_from sequence (tb_segments b))"

fun deltas_loop :: "heap \<Rightarrow> nat \<Rightarrow> nat option \<Rightarrow> int list \<Rightarrow> nat list \<Rightarrow> int list" where
  "deltas_loop h maxn newer deltas [] = deltas"
| "deltas_loop h maxn newer deltas (a # xs) =
     (case newer of
        None \<Rightarrow> deltas_loop h maxn (Some a) deltas xs
      | Some nx \<Rightarrow>
          if sg_sequence_number (h nx) \<noteq> seq_succ (sg_sequence_number (h a))
          then deltas_loop h maxn (Some a) deltas xs
          else
            let delta = swrap 64 (sg_start_us (h nx) - sg_start_us (h a));
                deltas' = (if 0 < delta then deltas @ [delta] else deltas)
            in if maxn \<le> length deltas' then deltas' else deltas_loop h maxn (Some a) deltas' xs)"

definition recent_start_deltas_us :: "heap \<Rightarrow> track_buffer \<Rightarrow> nat \<Rightarrow> int list" where
  "recent_start_deltas_us h b maxn = deltas_loop h maxn None [] (rev (map snd (tb_segments b)))"

fun buffered_end_loop :: "heap \<Rightarrow> int \<Rightarrow> int \<Rightarrow> int \<Rightarrow> entries \<Rightarrow> int" where
  "buffered_end_loop h from_us expected end' [] = end'"
| "buffered_end_loop h from_us expected end' ((seq, a) # xs) =
     (if expected = -1 \<and> from_us \<noteq> NO_US \<and> end_us (h a) < from_us
        then buffered_end_loop h from_us expected end' xs
      else if expected = -1 \<and> from_us \<noteq> NO_US \<and> from_us < sg_start_us (h a) then NO_US
      else if expected \<noteq> -1 \<and> seq \<noteq> expected then end'
      else if \<not> sg_complete (h a) then end'
      else buffered_end_loop h from_us (seq_succ seq) (end_us (h a)) xs)"

definition buffered_end_us :: "heap \<Rightarrow> track_buffer \<Rightarrow> int \<Rightarrow> int" where
  "buffered_end_us h b from_us = buffered_end_loop h from_us (-1) NO_US (tb_segments b)"

definition buffered_end_from_front_us :: "heap \<Rightarrow> track_buffer \<Rightarrow> int" where
  "buffered_end_from_front_us h b = buffered_end_us h b NO_US"

fun last_completed_loop :: "heap \<Rightarrow> int \<Rightarrow> int \<Rightarrow> int \<Rightarrow> entries \<Rightarrow> int" where
  "last_completed_loop h from_us expected last' [] = last'"
| "last_completed_loop h from_us expected last' ((seq, a) # xs) =
     (if expected = -1 \<and> from_us \<noteq> NO_US \<and> end_us (h a) < from_us
        then last_completed_loop h from_us expected last' xs
      else if expected = -1 \<and> from_us \<noteq> NO_US \<and> from_us < sg_start_us (h a) then -1
      else if expected \<noteq> -1 \<and> seq \<noteq> expected then last'
      else if \<not> sg_complete (h a) then last'
      else last_completed_loop h from_us (seq_succ seq) seq xs)"

definition last_completed_sequence :: "heap \<Rightarrow> track_buffer \<Rightarrow> int \<Rightarrow> int" where
  "last_completed_sequence h b from_us = last_completed_loop h from_us (-1) (-1) (tb_segments b)"

definition last_completed_from_front :: "heap \<Rightarrow> track_buffer \<Rightarrow> int" where
  "last_completed_from_front h b = last_completed_sequence h b NO_US"

section \<open>Changing\<close>

definition announce :: "heap \<Rightarrow> nat \<Rightarrow> track_buffer \<Rightarrow> track_buffer" where
  "announce h a b =
     notify_changed
       (if sg_is_init (h a) then b \<lparr> tb_init := Some a \<rparr>
        else b \<lparr> tb_segments := map_insert (sg_sequence_number (h a)) a (tb_segments b) \<rparr>)"

definition discard :: "heap \<Rightarrow> nat \<Rightarrow> track_buffer \<Rightarrow> track_buffer" where
  "discard h a b =
     (if sg_complete (h a) then b
      else notify_changed
        (if sg_is_init (h a) then
           (if tb_init b = Some a then b \<lparr> tb_init := None \<rparr> else b)
         else if map_of (tb_segments b) (sg_sequence_number (h a)) = Some a
         then b \<lparr> tb_segments := map_remove (sg_sequence_number (h a)) (tb_segments b) \<rparr>
         else b))"

definition remove_all :: "int list \<Rightarrow> track_buffer \<Rightarrow> track_buffer" where
  "remove_all ks b =
     (let b' = b \<lparr> tb_segments := fold map_remove ks (tb_segments b) \<rparr>
      in if ks \<noteq> [] then notify_changed b' else b')"

definition evict_before_sequence :: "heap \<Rightarrow> int \<Rightarrow> track_buffer \<Rightarrow> track_buffer" where
  "evict_before_sequence h sequence b =
     remove_all
       (map fst (takeWhile (\<lambda>e. sg_complete (h (snd e))) (range_below sequence (tb_segments b)))) b"

fun evict_loop :: "heap \<Rightarrow> int \<Rightarrow> int \<Rightarrow> entries \<Rightarrow> int list" where
  "evict_loop h position_us expected [] = []"
| "evict_loop h position_us expected ((seq, a) # xs) =
     (if expected \<noteq> -1 \<and> seq \<noteq> expected then []
      else if \<not> sg_complete (h a) then []
      else if position_us \<le> end_us (h a) then []
      else seq # evict_loop h position_us (seq_succ seq) xs)"

definition evict_before :: "heap \<Rightarrow> int \<Rightarrow> track_buffer \<Rightarrow> track_buffer" where
  "evict_before h position_us b = remove_all (evict_loop h position_us (-1) (tb_segments b)) b"

definition buf_clear :: "track_buffer \<Rightarrow> track_buffer" where
  "buf_clear b = notify_changed (b \<lparr> tb_segments := [] \<rparr>)"

section \<open>Waiting\<close>

text \<open>
  \<open>await_pred\<close>: one entry per turn of the loop says what the predicate gives when checked, whether
  the deadline has passed, whether the wait times out, and what a last check then gives. The result
  is \<open>None\<close> while the loop is still waiting.
\<close>

record 'a turn =
  tn_pred :: "'a option"
  tn_deadline_passed :: bool
  tn_timed_out :: bool
  tn_last :: "'a option"

fun await_pred :: "'a turn list \<Rightarrow> 'a option option" where
  "await_pred [] = None"
| "await_pred (t # ts) =
     (case tn_pred t of
        Some v \<Rightarrow> Some (Some v)
      | None \<Rightarrow>
          if tn_deadline_passed t then Some (tn_last t)
          else if tn_timed_out t then Some (tn_last t)
          else await_pred ts)"

section \<open>Abstract view: the run from the front\<close>

text \<open>
  The longest stretch of consecutive numbers from the front whose segments satisfy a predicate.
\<close>

fun run_of :: "(nat \<Rightarrow> bool) \<Rightarrow> int option \<Rightarrow> entries \<Rightarrow> entries" where
  "run_of P e [] = []"
| "run_of P e ((seq, a) # xs) =
     (if (e = None \<or> e = Some seq) \<and> P a then (seq, a) # run_of P (Some (seq + 1)) xs else [])"

definition exact_complete :: "heap \<Rightarrow> nat \<Rightarrow> bool" where
  "exact_complete h a \<longleftrightarrow> sg_complete (h a) \<and> sg_duration_exact (h a)"

text \<open>Sequence numbers the server uses: no sentinel and no wrap-around.\<close>

definition seqs_ok :: "entries \<Rightarrow> bool" where
  "seqs_ok m \<longleftrightarrow> (\<forall>e \<in> set m. 0 \<le> fst e \<and> fst e < 2 ^ 31 - 1)"

definition encode :: "int option \<Rightarrow> int" where
  "encode e = (case e of None \<Rightarrow> -1 | Some s \<Rightarrow> s)"

lemma seq_succ_ok: "0 \<le> s \<Longrightarrow> s < 2 ^ 31 - 1 \<Longrightarrow> seq_succ s = s + 1"
  by (simp add: seq_succ_def swrap_id in_srange_def)

lemma exact_end_loop_run:
  assumes "seqs_ok m" and "e \<noteq> Some (-1)"
  shows "exact_end_loop h (encode e) end' m =
    (case run_of (exact_complete h) e m of [] \<Rightarrow> end' | r \<Rightarrow> end_us (h (snd (last r))))"
  using assms
proof (induction m arbitrary: e end')
  case (Cons x m)
  obtain seq a where x: "x = (seq, a)" by (cases x)
  from Cons.prems have s: "0 \<le> seq" "seq_succ seq = encode (Some (seq + 1))" and m: "seqs_ok m"
    by (auto simp: seqs_ok_def x seq_succ_ok encode_def)
  from s have "encode e \<noteq> -1 \<and> seq \<noteq> encode e \<longleftrightarrow> \<not> (e = None \<or> e = Some seq)"
    using Cons.prems(2) by (auto simp: encode_def split: option.splits)
  with Cons.IH [OF m, of "Some (seq + 1)" "end_us (h a)"] s show ?case
    by (auto simp: x exact_complete_def split: list.splits)
qed simp

lemma buffered_end_loop_run:
  assumes "seqs_ok m" and "e \<noteq> Some (-1)"
  shows "buffered_end_loop h NO_US (encode e) end' m =
    (case run_of (\<lambda>a. sg_complete (h a)) e m of [] \<Rightarrow> end' | r \<Rightarrow> end_us (h (snd (last r))))"
  using assms
proof (induction m arbitrary: e end')
  case (Cons x m)
  obtain seq a where x: "x = (seq, a)" by (cases x)
  from Cons.prems have s: "0 \<le> seq" "seq_succ seq = encode (Some (seq + 1))" and m: "seqs_ok m"
    by (auto simp: seqs_ok_def x seq_succ_ok encode_def)
  from s have "encode e \<noteq> -1 \<and> seq \<noteq> encode e \<longleftrightarrow> \<not> (e = None \<or> e = Some seq)"
    using Cons.prems(2) by (auto simp: encode_def split: option.splits)
  with Cons.IH [OF m, of "Some (seq + 1)" "end_us (h a)"] s show ?case
    by (auto simp: x split: list.splits)
qed simp

lemma evict_loop_run:
  assumes "seqs_ok m" and "e \<noteq> Some (-1)"
  shows "evict_loop h pos (encode e) m =
    map fst (run_of (\<lambda>a. sg_complete (h a) \<and> end_us (h a) < pos) e m)"
  using assms
proof (induction m arbitrary: e)
  case (Cons x m)
  obtain seq a where x: "x = (seq, a)" by (cases x)
  from Cons.prems have s: "0 \<le> seq" "seq_succ seq = encode (Some (seq + 1))" and m: "seqs_ok m"
    by (auto simp: seqs_ok_def x seq_succ_ok encode_def)
  from s have "encode e \<noteq> -1 \<and> seq \<noteq> encode e \<longleftrightarrow> \<not> (e = None \<or> e = Some seq)"
    using Cons.prems(2) by (auto simp: encode_def split: option.splits)
  with Cons.IH [OF m, of "Some (seq + 1)"] s show ?case by (auto simp: x)
qed simp

text \<open>Look-ups of successive numbers see the same run as iteration.\<close>

lemma publishable_loop_run:
  assumes "sorted_map (pre @ m)" and "seqs_ok m" and "\<forall>x \<in> set pre. fst x < seq" and "length m < n"
    and "\<forall>x \<in> set m. seq \<le> fst x"
  shows "publishable_loop n h (pre @ m) seq end' =
    (case run_of (exact_complete h) (Some seq) m of [] \<Rightarrow> end' | r \<Rightarrow> fst (last r))"
  using assms
proof (induction m arbitrary: pre seq end' n)
  case Nil
  then obtain k where n: "n = Suc k" by (cases n) auto
  from Nil(3) have "map_of pre seq = None" by (rule map_of_None_above)
  then show ?case by (simp add: n)
next
  case (Cons x m)
  obtain s a where x: "x = (s, a)" by (cases x)
  from Cons.prems(4) obtain k where n: "n = Suc k" by (cases n) auto
  from Cons.prems(3) have pre: "map_of pre seq = None" by (rule map_of_None_above)
  have above: "\<forall>y \<in> set m. s < fst y"
    using sorted_map_appendD [OF Cons.prems(1)] by (simp add: x sorted_map_Cons)
  show ?case
  proof (cases "s = seq")
    case True
    have succ: "seq_succ seq = seq + 1"
      using Cons.prems(2) True by (auto simp: seqs_ok_def x seq_succ_ok)
    have "publishable_loop k h ((pre @ [x]) @ m) (seq + 1) seq =
        (case run_of (exact_complete h) (Some (seq + 1)) m of [] \<Rightarrow> seq | r \<Rightarrow> fst (last r))"
      using Cons.prems above True
      by (intro Cons.IH) (auto simp: x n seqs_ok_def)
    moreover have "map_of (pre @ x # m) seq = Some a"
      using pre True by (simp add: x map_add_def)
    ultimately show ?thesis
      using succ True by (simp add: x n exact_complete_def [of h a] split: list.split)
  next
    case False
    with Cons.prems(5) above have "\<forall>y \<in> set m. seq < fst y" by (auto simp: x)
    then have "map_of m seq = None" by (rule map_of_None_below)
    with pre False show ?thesis by (simp add: x n map_add_def)
  qed
qed

lemma run_of_prefix: "prefix (run_of P e m) m"
  by (induction P e m rule: run_of.induct) auto

lemma run_of_consecutive:
  "run_of P (Some s) m = r \<Longrightarrow> i < length r \<Longrightarrow> fst (r ! i) = s + int i \<and> P (snd (r ! i))"
proof (induction P "Some s" m arbitrary: s r i rule: run_of.induct)
  case (2 P seq a xs)
  then show ?case by (cases i) (auto split: if_splits)
qed simp

section \<open>Well-formed buffers\<close>

definition buf_wf :: "heap \<Rightarrow> track_buffer \<Rightarrow> bool" where
  "buf_wf h b \<longleftrightarrow>
     sorted_map (tb_segments b) \<and>
     (\<forall>e \<in> set (tb_segments b). sg_sequence_number (h (snd e)) = fst e \<and> \<not> sg_is_init (h (snd e))) \<and>
     (\<forall>a \<in> set_option (tb_init b). sg_is_init (h a))"

lemma set_map_insert_entries: "set (map_insert k v m) \<subseteq> insert (k, v) (set m)"
proof (induction m)
  case (Cons e m)
  then show ?case by (cases e) auto
qed simp

lemma fold_map_remove: "fold map_remove ks m = [e \<leftarrow> m. fst e \<notin> set ks]"
  by (induction ks arbitrary: m) (auto simp: map_remove_def intro: filter_cong)

lemma sorted_map_filter [wf_intros]: "sorted_map m \<Longrightarrow> sorted_map (filter P m)"
  by (induction m) (auto simp: sorted_map_Cons)

lemma remove_all_segments [simp]:
  "tb_segments (remove_all ks b) = [e \<leftarrow> tb_segments b. fst e \<notin> set ks]"
  "tb_init (remove_all ks b) = tb_init b"
  by (simp_all add: remove_all_def Let_def notify_changed_def fold_map_remove)

lemma buf_wf_announce [wf_intros]: "buf_wf h b \<Longrightarrow> buf_wf h (announce h a b)"
  using set_map_insert_entries [of "sg_sequence_number (h a)" a "tb_segments b"]
  by (auto simp: buf_wf_def announce_def notify_changed_def intro: wf_intros)

lemma buf_wf_discard [wf_intros]: "buf_wf h b \<Longrightarrow> buf_wf h (discard h a b)"
  by (auto simp: buf_wf_def discard_def notify_changed_def map_remove_def intro: wf_intros)

lemma buf_wf_remove_all [wf_intros]: "buf_wf h b \<Longrightarrow> buf_wf h (remove_all ks b)"
  by (auto simp: buf_wf_def intro: wf_intros)

lemma buf_wf_clear [wf_intros]: "buf_wf h b \<Longrightarrow> buf_wf h (buf_clear b)"
  by (simp add: buf_wf_def buf_clear_def notify_changed_def)

text \<open>
  The tasks of a session: the pump creates, announces, fills, completes and discards segments, the
  consumers evict, a seek clears. A new segment gets an address that is in no use.
\<close>

inductive buf_step :: "heap \<times> track_buffer \<Rightarrow> heap \<times> track_buffer \<Rightarrow> bool" where
  bs_new: "\<lbrakk> a \<notin> snd ` set (tb_segments b); tb_init b \<noteq> Some a \<rbrakk> \<Longrightarrow>
     buf_step (h, b) (h(a := segment_new key seq init st du cl sti ts), b)"
| bs_announce: "buf_step (h, b) (h, announce h a b)"
| bs_append: "buf_step (h, b) (h(a := seg_append bs (h a)), b)"
| bs_duration: "buf_step (h, b) (h(a := set_duration us exact (h a)), b)"
| bs_complete: "buf_step (h, b) (h(a := mark_complete (h a)), b)"
| bs_discard: "buf_step (h, b) (h, discard h a b)"
| bs_evict_sequence: "buf_step (h, b) (h, evict_before_sequence h seq b)"
| bs_evict: "buf_step (h, b) (h, evict_before h pos b)"
| bs_clear: "buf_step (h, b) (h, buf_clear b)"
| bs_notify: "buf_step (h, b) (h, notify_changed b)"

lemma segment_keeps_identity [simp]:
  "sg_sequence_number (seg_append bs s) = sg_sequence_number s"
  "sg_sequence_number (set_duration us exact s) = sg_sequence_number s"
  "sg_sequence_number (mark_complete s) = sg_sequence_number s"
  "sg_is_init (seg_append bs s) = sg_is_init s"
  "sg_is_init (set_duration us exact s) = sg_is_init s"
  "sg_is_init (mark_complete s) = sg_is_init s"
  by (simp_all add: seg_append_def set_duration_def mark_complete_def freeze_def split: option.split)

lemma buf_wf_heap:
  assumes "buf_wf h b"
    and "\<And>a. a \<in> snd ` set (tb_segments b) \<or> tb_init b = Some a \<Longrightarrow>
      sg_sequence_number (h' a) = sg_sequence_number (h a) \<and> sg_is_init (h' a) = sg_is_init (h a)"
  shows "buf_wf h' b"
  using assms unfolding buf_wf_def by (auto simp: elem_set)

lemma buf_wf_upd:
  assumes "buf_wf h b"
    and "sg_sequence_number s = sg_sequence_number (h a)" and "sg_is_init s = sg_is_init (h a)"
  shows "buf_wf (h(a := s)) b"
  using assms(1) by (rule buf_wf_heap) (simp add: assms(2,3))

lemma buf_wf_step [wf_intros]: "buf_step c c' \<Longrightarrow> buf_wf (fst c) (snd c) \<Longrightarrow> buf_wf (fst c') (snd c')"
proof (induction rule: buf_step.induct)
  case (bs_new a b h key seq init st du cl sti ts)
  have "buf_wf (h(a := segment_new key seq init st du cl sti ts)) b"
  proof (rule buf_wf_heap)
    show "buf_wf h b" using bs_new(3) by simp
    fix c
    assume "c \<in> snd ` set (tb_segments b) \<or> tb_init b = Some c"
    with bs_new(1,2) have "c \<noteq> a" by blast
    then show "sg_sequence_number ((h(a := segment_new key seq init st du cl sti ts)) c) = sg_sequence_number (h c)
        \<and> sg_is_init ((h(a := segment_new key seq init st du cl sti ts)) c) = sg_is_init (h c)"
      by simp
  qed
  then show ?case by (simp only: fst_conv snd_conv)
next
  case (bs_append h b a bs)
  then show ?case by (simp only: fst_conv snd_conv) (rule buf_wf_upd; simp)
next
  case (bs_duration h b a us exact)
  then show ?case by (simp only: fst_conv snd_conv) (rule buf_wf_upd; simp)
next
  case (bs_complete h b a)
  then show ?case by (simp only: fst_conv snd_conv) (rule buf_wf_upd; simp)
next
  case (bs_notify h b)
  then show ?case by (simp add: buf_wf_def notify_changed_def)
qed (simp_all add: evict_before_sequence_def evict_before_def wf_intros)

section \<open>Properties\<close>

text \<open>
  C23: every buffer a session can reach has its segments in order without duplicates, each under its
  own sequence number, initialisation segments apart.
\<close>

theorem track_buffer_invariant:
  assumes "buf_step\<^sup>*\<^sup>* (h0, track_buffer_new key) (h, b)"
  shows "sorted_map (tb_segments b) \<and>
    (\<forall>s a. buf_get b s = Some a \<longrightarrow> sg_sequence_number (h a) = s \<and> \<not> sg_is_init (h a)) \<and>
    (\<forall>a. tb_init b = Some a \<longrightarrow> sg_is_init (h a))"
proof -
  have "buf_wf (fst c) (snd c)" if "buf_step\<^sup>*\<^sup>* (h0, track_buffer_new key) c" for c
    using that
    by (induction rule: rtranclp_induct)
       (auto intro: wf_intros simp: buf_wf_def [of h0] track_buffer_new_def)
  from this [OF assms] show ?thesis
    by (fastforce simp: buf_wf_def buf_get_def dest: map_of_SomeD)
qed

definition sample_heap :: heap where
  "sample_heap a =
     (let s = segment_new (format_key_of 137 5 None) (int a) False (int a * 1000) 1000 0 0 1000
      in if a < 3 then mark_complete (set_duration 1000 True (seg_append [1, 2] s)) else s)"

definition sample_buffer :: track_buffer where
  "sample_buffer =
     announce sample_heap 4 (announce sample_heap 0 (announce sample_heap 2
       (announce sample_heap 1 (track_buffer_new (format_key_of 137 5 None)))))"

lemma track_buffer_invariant_witness:
  "sorted_map (tb_segments sample_buffer)"
proof -
  have 1: "buf_step\<^sup>*\<^sup>* (sample_heap, b) (sample_heap, announce sample_heap a b)" for a b
    by (intro r_into_rtranclp bs_announce)
  have "buf_step\<^sup>*\<^sup>* (sample_heap, track_buffer_new (format_key_of 137 5 None)) (sample_heap, sample_buffer)"
    unfolding sample_buffer_def by (intro rtranclp_trans [OF _ 1] rtranclp.rtrancl_refl)
  from track_buffer_invariant [OF this] show ?thesis by simp
qed

text \<open>
  The two ways of finding what can be published agree: the range found by look-ups is the
  longest run of consecutive exact and complete segments from the front, and the exact end in
  microseconds is the end of that run's last segment.
\<close>

theorem publishable_run_is_exact_run:
  assumes "sorted_map (tb_segments b)" and "seqs_ok (tb_segments b)"
  shows "case run_of (exact_complete h) None (tb_segments b) of
      [] \<Rightarrow> publishable_run h b = None \<and> buffered_exact_end_us h b = NO_US
    | r \<Rightarrow> publishable_run h b = Some (fst (hd r), fst (last r)) \<and>
        buffered_exact_end_us h b = end_us (h (snd (last r)))"
proof (cases "tb_segments b")
  case Nil
  then show ?thesis by (simp add: publishable_run_def buffered_exact_end_us_def)
next
  case (Cons x m)
  obtain s a where x: "x = (s, a)" by (cases x)
  have end': "buffered_exact_end_us h b =
      (case run_of (exact_complete h) None (tb_segments b) of [] \<Rightarrow> NO_US | r \<Rightarrow> end_us (h (snd (last r))))"
    using exact_end_loop_run [OF assms(2), of None h NO_US]
    by (simp add: buffered_exact_end_us_def encode_def)
  have same: "run_of (exact_complete h) (Some s) (x # m) = run_of (exact_complete h) None (x # m)"
    by (simp add: x)
  have loop: "publishable_loop (Suc (length (x # m))) h (x # m) s (-1) =
      (case run_of (exact_complete h) None (x # m) of [] \<Rightarrow> -1 | r \<Rightarrow> fst (last r))"
    unfolding same [symmetric]
    by (rule publishable_loop_run [of "[]" "x # m", unfolded append_Nil])
       (use assms in \<open>auto simp: Cons x sorted_map_Cons\<close>)
  show ?thesis
  proof (cases "run_of (exact_complete h) None (x # m)")
    case Nil
    with end' loop show ?thesis by (simp add: publishable_run_def Cons x Let_def)
  next
    case (Cons y r)
    have sub: "set (y # r) \<subseteq> set (x # m)"
      using set_mono_prefix [OF run_of_prefix [of "exact_complete h" None "x # m"]] Cons by simp
    have hd: "hd (y # r) = x" using Cons by (simp add: x split: if_splits)
    from sub have "0 \<le> fst (last (y # r))"
      using assms(2) \<open>tb_segments b = x # m\<close> last_in_set [of "y # r"]
      unfolding seqs_ok_def by (metis list.distinct(1) subsetD)
    moreover have "publishable_loop (Suc (length (x # m))) h (x # m) s (-1) = fst (last (y # r))"
      using loop by (simp only: Cons list.case)
    ultimately have "publishable_run h b = Some (fst (hd (y # r)), fst (last (y # r)))"
      using hd \<open>tb_segments b = x # m\<close>
      by (simp add: publishable_run_def x Let_def del: publishable_loop.simps last.simps)
    with Cons end' \<open>tb_segments b = x # m\<close> show ?thesis by (simp only: list.case simp_thms)
  qed
qed

lemma sample_buffer_segments: "tb_segments sample_buffer = [(0, 0), (1, 1), (2, 2), (4, 4)]"
  by code_simp

lemma publishable_run_is_exact_run_witness:
  "publishable_run sample_heap sample_buffer = Some (0, 2) \<and>
   buffered_exact_end_us sample_heap sample_buffer = 3000"
proof -
  have "run_of (exact_complete sample_heap) None (tb_segments sample_buffer) = [(0, 0), (1, 1), (2, 2)]"
    unfolding sample_buffer_segments by code_simp
  moreover have "end_us (sample_heap 2) = 3000" by code_simp
  ultimately show ?thesis
    using publishable_run_is_exact_run [of sample_buffer sample_heap]
    by (simp add: sample_buffer_segments sorted_map_def seqs_ok_def)
qed

lemmas loop_simps =
  last_completed_loop.simps buffered_end_loop.simps if_True if_False not_False_eq_True simp_thms

lemma loops_agree:
  assumes "sorted_map (pre @ m)" and "seqs_ok m" and "expected = -1 \<longrightarrow> l = -1 \<and> e = NO_US"
    and "(l = -1 \<and> e = NO_US) \<or> (\<exists>a. map_of pre l = Some a \<and> sg_complete (h a) \<and> e = end_us (h a))"
  shows "(last_completed_loop h from expected l m = -1 \<and> buffered_end_loop h from expected e m = NO_US) \<or>
    (\<exists>a. map_of (pre @ m) (last_completed_loop h from expected l m) = Some a \<and> sg_complete (h a) \<and>
      buffered_end_loop h from expected e m = end_us (h a))"
  using assms
proof (induction m arbitrary: pre expected l e)
  case Nil
  then show ?case by simp
next
  case (Cons x m)
  obtain s a where x: "x = (s, a)" by (cases x)
  have sorted: "sorted_map ((pre @ [x]) @ m)" and m: "seqs_ok m"
    using Cons.prems(1,2) by (simp_all add: seqs_ok_def)
  have keep: "map_of (pre @ x # m) k = Some c" if "map_of pre k = Some c" for k c
    using that Cons.prems(1)
    by (auto simp: map_add_Some_iff map_of_eq_None_iff sorted_map_def dest: map_of_SomeD)
  have stop_val: "(l = -1 \<and> e = NO_US) \<or>
      (\<exists>a. map_of (pre @ x # m) l = Some a \<and> sg_complete (h a) \<and> e = end_us (h a))"
    using Cons.prems(4) keep by blast
  have succ: "seq_succ s \<noteq> -1" using Cons.prems(2) by (auto simp: seqs_ok_def x seq_succ_ok)
  have "s \<notin> fst ` set pre" using Cons.prems(1) by (auto simp: sorted_map_def x)
  then have "map_of pre s = None" by (simp add: map_of_eq_None_iff)
  then have new: "map_of (pre @ [x]) s = Some a" by (simp add: x map_add_def)
  consider (skip) "expected = -1" "from \<noteq> NO_US" "end_us (h a) < from"
    | (early) "\<not> (expected = -1 \<and> from \<noteq> NO_US \<and> end_us (h a) < from)"
        "expected = -1" "from \<noteq> NO_US" "from < sg_start_us (h a)"
    | (stop) "\<not> (expected = -1 \<and> from \<noteq> NO_US \<and> end_us (h a) < from)"
        "\<not> (expected = -1 \<and> from \<noteq> NO_US \<and> from < sg_start_us (h a))"
        "expected \<noteq> -1 \<and> s \<noteq> expected"
    | (incomplete) "\<not> (expected = -1 \<and> from \<noteq> NO_US \<and> end_us (h a) < from)"
        "\<not> (expected = -1 \<and> from \<noteq> NO_US \<and> from < sg_start_us (h a))"
        "\<not> (expected \<noteq> -1 \<and> s \<noteq> expected)" "\<not> sg_complete (h a)"
    | (step) "\<not> (expected = -1 \<and> from \<noteq> NO_US \<and> end_us (h a) < from)"
        "\<not> (expected = -1 \<and> from \<noteq> NO_US \<and> from < sg_start_us (h a))"
        "\<not> (expected \<noteq> -1 \<and> s \<noteq> expected)" "sg_complete (h a)"
    by blast
  then show ?case
  proof cases
    case skip
    then have "l = -1 \<and> e = NO_US" using Cons.prems(3) by simp
    with Cons.IH [OF sorted m Cons.prems(3)] skip show ?thesis by (simp add: x)
  next
    case early
    then show ?thesis by (simp add: x)
  next
    case stop
    then have "last_completed_loop h from expected l (x # m) = l"
        "buffered_end_loop h from expected e (x # m) = e" by (simp_all only: x stop loop_simps)
    with stop_val show ?thesis by simp
  next
    case incomplete
    then have "last_completed_loop h from expected l (x # m) = l"
        "buffered_end_loop h from expected e (x # m) = e" by (simp_all only: x incomplete loop_simps)
    with stop_val show ?thesis by simp
  next
    case step
    then have "last_completed_loop h from expected l (x # m) = last_completed_loop h from (seq_succ s) s m"
        "buffered_end_loop h from expected e (x # m) = buffered_end_loop h from (seq_succ s) (end_us (h a)) m"
      by (simp_all only: x step loop_simps)
    with Cons.IH [OF sorted m, of "seq_succ s" s "end_us (h a)"] new succ step(4) show ?thesis by simp
  qed
qed

text \<open>
  For any start position, the buffered end and the last completed number stop at the same
  segment: there is none for both, or the end is that of the complete segment with that number.
\<close>

theorem last_completed_matches_buffered_end:
  assumes "sorted_map (tb_segments b)" and "seqs_ok (tb_segments b)"
  shows "(last_completed_sequence h b from_us = -1 \<and> buffered_end_us h b from_us = NO_US) \<or>
    (\<exists>a. buf_get b (last_completed_sequence h b from_us) = Some a \<and> sg_complete (h a) \<and>
      buffered_end_us h b from_us = end_us (h a))"
  using loops_agree [of "[]" "tb_segments b" "-1" "-1" NO_US h from_us] assms
  by (simp add: last_completed_sequence_def buffered_end_us_def buf_get_def)

lemma last_completed_matches_buffered_end_witness:
  "buffered_end_us sample_heap sample_buffer 1500 = 3000"
proof -
  have "last_completed_sequence sample_heap sample_buffer 1500 = 2"
    unfolding last_completed_sequence_def sample_buffer_segments by code_simp
  moreover have "end_us (sample_heap 2) = 3000" by code_simp
  ultimately show ?thesis
    using last_completed_matches_buffered_end [of sample_buffer sample_heap 1500]
    by (simp add: sample_buffer_segments sorted_map_def seqs_ok_def buf_get_def)
qed

lemma run_of_mono:
  "(\<And>a. P a \<Longrightarrow> Q a) \<Longrightarrow> prefix (run_of P e m) (run_of Q e m)"
  by (induction P e m rule: run_of.induct) auto

lemma run_of_drop:
  assumes "prefix p (run_of P e m)" and "p \<noteq> run_of P e m"
  shows "run_of P None (drop (length p) m) = drop (length p) (run_of P e m)"
  using assms
proof (induction P e m arbitrary: p rule: run_of.induct)
  case (2 P e s a xs)
  show ?case
  proof (cases p)
    case Nil
    with 2 show ?thesis by (auto split: if_splits)
  next
    case (Cons y q)
    with 2 show ?thesis by (auto split: if_splits)
  qed
qed simp

text \<open>
  Evicting behind the play position removes exactly the front run of complete segments that end
  before it. Nothing incomplete is lost, and unless the whole buffered run went, the buffered end
  seen from the front does not move.
\<close>

theorem evict_before_spec:
  assumes "sorted_map (tb_segments b)" and "seqs_ok (tb_segments b)"
  shows "tb_segments b =
      run_of (\<lambda>a. sg_complete (h a) \<and> end_us (h a) < pos) None (tb_segments b) @ tb_segments (evict_before h pos b)
    \<and> (run_of (\<lambda>a. sg_complete (h a)) None (tb_segments b) =
         run_of (\<lambda>a. sg_complete (h a) \<and> end_us (h a) < pos) None (tb_segments b)
       \<or> buffered_end_from_front_us h (evict_before h pos b) = buffered_end_from_front_us h b)"
proof -
  define g where "g = run_of (\<lambda>a. sg_complete (h a) \<and> end_us (h a) < pos) None (tb_segments b)"
  define r where "r = run_of (\<lambda>a. sg_complete (h a)) None (tb_segments b)"
  obtain rest where rest: "tb_segments b = g @ rest"
    using run_of_prefix unfolding g_def prefix_def by blast
  have "distinct (map fst (g @ rest))" using assms(1) by (simp add: rest sorted_map_def)
  then have "[e \<leftarrow> g @ rest. fst e \<notin> set (map fst g)] = rest"
    by (auto simp: filter_empty_conv intro!: filter_True)
  moreover have "evict_loop h pos (-1) (tb_segments b) = map fst g"
    using evict_loop_run [OF assms(2), of None h pos] by (simp add: encode_def g_def)
  ultimately have after: "tb_segments (evict_before h pos b) = rest"
    by (simp add: evict_before_def rest)
  have pre: "prefix g r" unfolding g_def r_def by (rule run_of_mono) simp
  have ok: "seqs_ok rest" using assms(2) by (simp add: rest seqs_ok_def)
  have "buffered_end_from_front_us h (evict_before h pos b) = buffered_end_from_front_us h b" if "r \<noteq> g"
  proof -
    have "run_of (\<lambda>a. sg_complete (h a)) None rest = drop (length g) r"
      using run_of_drop [of g "\<lambda>a. sg_complete (h a)" None "tb_segments b"] pre that
      by (simp add: r_def rest)
    moreover have "length g < length r" using pre that by (auto simp: prefix_def)
    moreover have "buffered_end_from_front_us h b = end_us (h (snd (last r)))"
      using buffered_end_loop_run [OF assms(2), of None h NO_US] \<open>length g < length r\<close>
      by (cases r) (simp_all add: buffered_end_from_front_us_def buffered_end_us_def encode_def r_def)
    moreover obtain y ys where d: "drop (length g) r = y # ys" "last (y # ys) = last r"
      using \<open>length g < length r\<close> by (metis drop_eq_Nil2 last_drop linorder_not_le list.exhaust)
    ultimately show ?thesis
      using buffered_end_loop_run [OF ok, of None h NO_US]
      by (simp add: buffered_end_from_front_us_def buffered_end_us_def after encode_def del: last.simps)
  qed
  with rest after show ?thesis unfolding g_def [symmetric] r_def [symmetric] by auto
qed

lemma evict_before_spec_witness:
  "tb_segments (evict_before sample_heap 2500 sample_buffer) = [(2, 2), (4, 4)] \<and>
   buffered_end_from_front_us sample_heap (evict_before sample_heap 2500 sample_buffer) =
     buffered_end_from_front_us sample_heap sample_buffer"
proof -
  let ?b = sample_buffer
  have run: "run_of (\<lambda>a. sg_complete (sample_heap a) \<and> end_us (sample_heap a) < 2500) None (tb_segments ?b) = [(0, 0), (1, 1)]"
    unfolding sample_buffer_segments by code_simp
  have all: "run_of (\<lambda>a. sg_complete (sample_heap a)) None (tb_segments ?b) = [(0, 0), (1, 1), (2, 2)]"
    unfolding sample_buffer_segments by code_simp
  from evict_before_spec [of ?b sample_heap 2500] show ?thesis
    unfolding run all by (simp add: sample_buffer_segments sorted_map_def seqs_ok_def)
qed

lemma take_complete_below:
  assumes "sorted_map m" and "e \<in> set m"
  shows "e \<in> set (takeWhile Q (range_below k m)) \<longleftrightarrow>
    fst e < k \<and> (\<forall>x \<in> set m. fst x \<le> fst e \<longrightarrow> Q x)"
  using assms
proof (induction m)
  case (Cons y m)
  from Cons.prems(1) have above: "\<forall>x \<in> set m. fst y < fst x" and m: "sorted_map m"
    by (simp_all add: sorted_map_Cons)
  show ?case
  proof (cases "e = y")
    case True
    with above show ?thesis by (auto simp: range_below_def dest: set_takeWhileD)
  next
    case False
    with Cons.prems(2) have e: "e \<in> set m" by simp
    with above have "fst y < fst e" by blast
    with Cons.IH [OF m e] e False show ?thesis
      by (cases "fst y < k") (auto simp: range_below_def dest: set_takeWhileD)
  qed
qed simp

text \<open>
  Evicting by number removes exactly the segments below the number with nothing incomplete at
  or before them; whatever is still downloading, and everything after it, stays.
\<close>

theorem evict_before_sequence_spec:
  assumes "sorted_map (tb_segments b)"
  shows "e \<in> set (tb_segments (evict_before_sequence h sequence b)) \<longleftrightarrow>
    e \<in> set (tb_segments b) \<and>
    (sequence \<le> fst e \<or> (\<exists>x \<in> set (tb_segments b). fst x \<le> fst e \<and> \<not> sg_complete (h (snd x))))"
proof -
  let ?g = "takeWhile (\<lambda>e. sg_complete (h (snd e))) (range_below sequence (tb_segments b))"
  have sub: "set ?g \<subseteq> set (tb_segments b)"
    by (auto dest: set_takeWhileD simp: range_below_def)
  have key: "fst e \<in> fst ` set ?g \<longleftrightarrow> e \<in> set ?g" if "e \<in> set (tb_segments b)"
    using assms sub that by (auto simp: sorted_map_def eq_key_imp_eq_value distinct_map dest: inj_onD)
  show ?thesis
  proof (cases "e \<in> set (tb_segments b)")
    case True
    have "e \<in> set (tb_segments (evict_before_sequence h sequence b)) \<longleftrightarrow> e \<notin> set ?g"
      using key [OF True] True by (simp add: evict_before_sequence_def)
    with take_complete_below [OF assms True] True show ?thesis by (simp add: not_less)
  qed (simp add: evict_before_sequence_def)
qed

lemma evict_before_sequence_spec_witness:
  "(4, 4) \<in> set (tb_segments (evict_before_sequence sample_heap 9 sample_buffer)) \<and>
   (2, 2) \<notin> set (tb_segments (evict_before_sequence sample_heap 9 sample_buffer))"
proof -
  have "sorted_map (tb_segments sample_buffer)" by (simp add: sample_buffer_segments sorted_map_def)
  note s = evict_before_sequence_spec [OF this, of _ sample_heap 9]
  have "\<not> sg_complete (sample_heap 4)" and "sg_complete (sample_heap 0)"
    and "sg_complete (sample_heap 1)" and "sg_complete (sample_heap 2)" by code_simp+
  then show ?thesis unfolding s by (simp add: sample_buffer_segments)
qed

text \<open>
  A waiter cannot miss a change: every step that changes what the buffer holds wakes the
  waiters.
\<close>

theorem changes_wake_waiters:
  assumes "buf_step (h, b) (h', b')"
    and "tb_segments b' \<noteq> tb_segments b \<or> tb_init b' \<noteq> tb_init b"
  shows "tb_wakeups b < tb_wakeups b'"
  using assms
  by (cases rule: buf_step.cases)
     (auto simp: announce_def discard_def remove_all_def evict_before_sequence_def evict_before_def
       buf_clear_def notify_changed_def Let_def split: if_splits)

lemma changes_wake_waiters_witness:
  "tb_wakeups sample_buffer < tb_wakeups (discard sample_heap 4 sample_buffer)"
proof (rule changes_wake_waiters)
  show "buf_step (sample_heap, sample_buffer) (sample_heap, discard sample_heap 4 sample_buffer)"
    by (rule bs_discard)
  have "tb_segments (discard sample_heap 4 sample_buffer) = [(0, 0), (1, 1), (2, 2)]" by code_simp
  then show "tb_segments (discard sample_heap 4 sample_buffer) \<noteq> tb_segments sample_buffer \<or>
      tb_init (discard sample_heap 4 sample_buffer) \<noteq> tb_init sample_buffer"
    by (simp add: sample_buffer_segments)
qed

theorem await_pred_gives_up_last:
  "await_pred ts = Some r \<Longrightarrow>
   \<exists>pre t post. ts = pre @ t # post \<and> (\<forall>u \<in> set pre. tn_pred u = None) \<and>
     (r = tn_pred t \<and> r \<noteq> None \<or> r = tn_last t \<and> tn_pred t = None \<and> (tn_deadline_passed t \<or> tn_timed_out t))"
proof (induction ts)
  case (Cons t ts)
  show ?case
  proof (cases "tn_pred t = None \<and> \<not> tn_deadline_passed t \<and> \<not> tn_timed_out t")
    case True
    with Cons obtain pre u post where "ts = pre @ u # post" "\<forall>v \<in> set (t # pre). tn_pred v = None"
      "r = tn_pred u \<and> r \<noteq> None \<or> r = tn_last u \<and> tn_pred u = None \<and> (tn_deadline_passed u \<or> tn_timed_out u)"
      by auto
    then show ?thesis by (metis append_Cons)
  next
    case False
    with Cons.prems have "r = tn_pred t \<and> r \<noteq> None \<or>
        r = tn_last t \<and> tn_pred t = None \<and> (tn_deadline_passed t \<or> tn_timed_out t)"
      by (auto split: option.splits if_splits)
    then show ?thesis by (intro exI [of _ "[]"] exI [of _ t] exI [of _ ts]) simp
  qed
qed simp

lemma await_pred_gives_up_last_witness:
  "\<exists>pre t post. [\<lparr> tn_pred = None, tn_deadline_passed = False, tn_timed_out = True, tn_last = Some (7 :: nat) \<rparr>] = pre @ t # post"
  using await_pred_gives_up_last [of "[\<lparr> tn_pred = None, tn_deadline_passed = False, tn_timed_out = True, tn_last = Some (7 :: nat) \<rparr>]"]
  by simp blast

text \<open>
  A failed download takes back only itself: \<open>discard\<close> removes the entry under the segment's
  number when it is that very segment and incomplete; a replacement announced meanwhile, every
  complete segment and every other number stay.
\<close>

theorem discard_removes_only_itself:
  "buf_get (discard h a b) s =
    (if s = sg_sequence_number (h a) \<and> \<not> sg_is_init (h a) \<and> \<not> sg_complete (h a) \<and> buf_get b s = Some a
     then None else buf_get b s)"
  by (auto simp: buf_get_def discard_def notify_changed_def)

end
