(* ===== verification/Sabr_Session.thy ===== *)
theory Sabr_Session
  imports Ump Track_Buffer "HOL-Library.Signed_Division" "HOL-Library.AList"
begin

text \<open>
  The state of a SABR session (\<open>sabrump/src/session.rs\<close>, \<open>spec.rs\<close>, \<open>error.rs\<close>): the record \<open>state\<close> is
  what the mutex guards, \<open>shared\<close> the rest of \<open>Shared\<close>, with the heap of segments the buffers point
  into. Here are the handle's operations and the helpers that only read; what a response does is in
  \<open>Sabr_Media\<close>, requests and the pump in \<open>Sabr_Pump\<close>.

  Conventions. \<open>i32\<close> and \<open>i64\<close> are \<open>int\<close>, the arithmetic wrapped as in a release build; \<open>/\<close> and \<open>%\<close>
  truncate, so they are \<open>sdiv\<close> and \<open>smod\<close>. The clock is an argument \<open>now\<close> of what reads it. A buffer that
  nobody asked for yet is missing in \<open>sh_buffers\<close> and read as an empty one; the code puts the empty
  one into its map when it reads. The listener is foreign code: the model logs what it is told.
\<close>

abbreviation i32 :: "int \<Rightarrow> int" where "i32 \<equiv> swrap 32"
abbreviation i64 :: "int \<Rightarrow> int" where "i64 \<equiv> swrap 64"

text \<open>\<open>Display\<close> of an \<open>i32\<close>\<close>

definition dec_int :: "int \<Rightarrow> string" where
  "dec_int n = (if n < 0 then CHR ''-'' # dec (nat (- n)) else dec (nat n))"

definition I64_MAX :: int where "I64_MAX = 2 ^ 63 - 1"

section \<open>Tunables\<close>

definition DEFAULT_READAHEAD_MS :: int where "DEFAULT_READAHEAD_MS = 20000"
definition PUMP_IDLE_POLL_MS :: int where "PUMP_IDLE_POLL_MS = 250"
definition ERROR_BACKOFF_BASE_MS :: int where "ERROR_BACKOFF_BASE_MS = 1000"
definition ERROR_BACKOFF_MAX_MS :: int where "ERROR_BACKOFF_MAX_MS = 30000"
definition ERROR_BACKOFF_MAX_SHIFT :: nat where "ERROR_BACKOFF_MAX_SHIFT = 5"
definition MAX_CONSECUTIVE_ERRORS :: int where "MAX_CONSECUTIVE_ERRORS = 4"
definition DEFAULT_KEEP_BEHIND_US :: int where "DEFAULT_KEEP_BEHIND_US = 30000000"
definition RESTART_TOLERANCE_US :: int where "RESTART_TOLERANCE_US = 1000000"
definition FRONTIER_EPSILON_US :: int where "FRONTIER_EPSILON_US = 1000000"
definition NO_PROGRESS_THRESHOLD :: int where "NO_PROGRESS_THRESHOLD = 2"
definition MAX_EMPTY_RESPONSES :: int where "MAX_EMPTY_RESPONSES = 8"
definition MAX_SUBSTITUTED_RESPONSES :: int where "MAX_SUBSTITUTED_RESPONSES = 4"
definition MAX_REDIRECTS :: int where "MAX_REDIRECTS = 3"
definition EMPTY_BACKOFF_BASE_MS :: int where "EMPTY_BACKOFF_BASE_MS = 500"
definition BANDWIDTH_ESTIMATE :: int where "BANDWIDTH_ESTIMATE = 104857"
definition THROUGHPUT_MIN_BYTES :: int where "THROUGHPUT_MIN_BYTES = 65536"
definition THROUGHPUT_SMOOTHING :: int where "THROUGHPUT_SMOOTHING = 30"
definition THROUGHPUT_MIN_SPEEDUP :: int where "THROUGHPUT_MIN_SPEEDUP = 2"
definition LIVE_POLL_MS :: int where "LIVE_POLL_MS = 1000"
definition DEFAULT_LIVE_SEGMENT_US :: int where "DEFAULT_LIVE_SEGMENT_US = 5000000"
definition SABR_SEEK_SLACK_US :: int where "SABR_SEEK_SLACK_US = 30000000"
definition LIVE_HEAD_PLAYER_TIME_US :: int where "LIVE_HEAD_PLAYER_TIME_US = 9007199254740991 * 1000"
definition PROTECTION_STATUS_ATTESTATION_REQUIRED :: int where "PROTECTION_STATUS_ATTESTATION_REQUIRED = 3"
definition MICROS_PER_SECOND :: int where "MICROS_PER_SECOND = 1000000"

section \<open>Messages of the protocol\<close>

text \<open>
  The protobuf messages, with the fields the session reads. Decoding and encoding is the generated
  code of \<open>prost\<close>, the record \<open>prost\<close> of parameters.
\<close>

record format_id =
  fid_itag :: int
  fid_lmt :: u64
  fid_xtags :: string

record time_range =
  tr_start_ticks :: int
  tr_duration_ticks :: int
  tr_timescale :: int

record media_header =
  mh_header_id :: int
  mh_itag :: int
  mh_lmt :: u64
  mh_xtags :: string
  mh_is_init_segment :: bool
  mh_sequence_number :: int
  mh_start_ms :: int
  mh_duration_ms :: int
  mh_content_length :: int
  mh_time_range :: "time_range option"

record live_metadata =
  lm_head_sequence_number :: int
  lm_head_sequence_time_ms :: int
  lm_min_seekable_time_ticks :: int
  lm_min_seekable_timescale :: int
  lm_max_seekable_time_ticks :: int
  lm_max_seekable_timescale :: int

record next_request_policy =
  np_target_audio_readahead_ms :: int
  np_target_video_readahead_ms :: int
  np_backoff_time_ms :: int
  np_playback_cookie :: bytes

record format_init =
  fi_format_id :: "format_id option"
  fi_end_time_ms :: int
  fi_end_segment_number :: int

record sabr_seek =
  sk_seek_media_time :: int
  sk_seek_media_timescale :: int

record sabr_error_part =
  se_type :: string
  se_code :: int

record context_update =
  cu_type :: int
  cu_value :: bytes
  cu_send_by_default :: bool

record context_policy =
  cp_start_policy :: "int list"
  cp_stop_policy :: "int list"
  cp_discard_policy :: "int list"

record client_info =
  ci_client_name :: int
  ci_client_version :: string
  ci_os_name :: string
  ci_os_version :: string

section \<open>Errors and events\<close>

datatype sabr_error =
    Blocked string
  | ReloadRequired string
  | FormatSubstituted string
  | Protocol string
  | Http string
  | Io io_error
  | Decode string

definition is_fatal :: "sabr_error \<Rightarrow> bool" where
  "is_fatal e \<longleftrightarrow> (case e of Blocked _ \<Rightarrow> True | ReloadRequired _ \<Rightarrow> True | _ \<Rightarrow> False)"

fun io_error_display :: "io_error \<Rightarrow> string" where
  "io_error_display (UnexpectedEof s) = s"
| "io_error_display (InvalidData s) = s"
| "io_error_display (Transport s) = s"

fun sabr_error_display :: "sabr_error \<Rightarrow> string" where
  "sabr_error_display (Blocked s) = ''SABR blocked: '' @ s"
| "sabr_error_display (ReloadRequired s) = ''SABR reload required: '' @ s"
| "sabr_error_display (FormatSubstituted s) = ''SABR format substituted: '' @ s"
| "sabr_error_display (Protocol s) = ''SABR protocol error: '' @ s"
| "sabr_error_display (Http s) = ''SABR HTTP error: '' @ s"
| "sabr_error_display (Io e) = ''SABR I/O error: '' @ io_error_display e"
| "sabr_error_display (Decode s) = ''SABR decode error: '' @ s"

datatype session_event =
    EvLiveMetadata live_metadata
  | EvFormatInitialization format_init
  | EvSessionError sabr_error
  | EvBackoff int
  | EvBackoffEnded

section \<open>State\<close>

datatype role = Video | Audio

record demand =
  dm_format :: sabr_format
  dm_from_us :: int
  dm_alternates :: "sabr_format list"

text \<open>\<open>sabr_contexts\<close> is kept in key order; a \<open>HashMap\<close> has some order of its own.\<close>

record state =
  st_streaming_url :: string
  st_playback_cookie :: "bytes option"
  st_sabr_contexts :: "(int \<times> bytes) list"
  st_active_sabr_contexts :: "int set"
  st_format_initialization :: "format_key \<rightharpoonup> format_init"
  st_format_complete :: "format_key set"
  st_format_no_progress :: "format_key \<rightharpoonup> int"
  st_server_chosen :: "role \<rightharpoonup> format_key"
  st_demanded_keys :: "format_key set"
  st_video_demand :: "demand option"
  st_audio_demand :: "demand option"
  st_playback_position_us :: int
  st_resume_position_us :: "int option"
  st_restart_from_us :: int
  st_seek_pending_us :: "int option"
  st_last_sabr_seek_us :: int
  st_restart_epoch :: int
  st_target_video_readahead_ms :: int
  st_target_audio_readahead_ms :: int
  st_backoff_until_ms :: int
  st_server_backoff_until_ms :: int
  st_error_backoff_until_ms :: int
  st_aborting :: bool
  st_last_action_ms :: int
  st_last_request_ms :: int
  st_media_base_us :: int
  st_media_base_set :: bool
  st_live_metadata :: "live_metadata option"
  st_reestimated :: bool
  st_viewport_width :: int
  st_viewport_height :: int
  st_initial_bandwidth :: int
  st_keep_behind_us :: int
  st_min_readahead_ms :: int
  st_max_readahead_ms :: int
  st_fatal :: "string option"

record shared =
  sh_ustreamer_config :: bytes
  sh_video_id :: string
  sh_client_info :: client_info
  sh_po_token_decoded :: "bytes option"
  sh_is_live :: bool
  sh_duration_us :: int
  sh_created_at_ms :: int
  sh_state :: state
  sh_wakeups :: nat
  sh_buffers :: "(format_key \<times> track_buffer) list"
  sh_heap :: heap
  sh_next :: nat
  sh_listener :: bool
  sh_events :: "session_event list"
  sh_released :: bool
  sh_request_number :: int
  sh_server_seek_generation :: u64

definition upd :: "(state \<Rightarrow> state) \<Rightarrow> shared \<Rightarrow> shared" where
  "upd f sh = sh\<lparr>sh_state := f (sh_state sh)\<rparr>"

definition emit :: "session_event \<Rightarrow> shared \<Rightarrow> shared" where
  "emit ev sh = (if sh_listener sh then sh\<lparr>sh_events := sh_events sh @ [ev]\<rparr> else sh)"

definition self_notify :: "shared \<Rightarrow> shared" where
  "self_notify sh = sh\<lparr>sh_wakeups := Suc (sh_wakeups sh)\<rparr>"

definition demand_of :: "role \<Rightarrow> state \<Rightarrow> demand option" where
  "demand_of r st = (case r of Video \<Rightarrow> st_video_demand st | Audio \<Rightarrow> st_audio_demand st)"

definition set_demand_field :: "role \<Rightarrow> demand option \<Rightarrow> state \<Rightarrow> state" where
  "set_demand_field r d st =
     (case r of Video \<Rightarrow> st\<lparr>st_video_demand := d\<rparr> | Audio \<Rightarrow> st\<lparr>st_audio_demand := d\<rparr>)"

text \<open>\<open>[&state.video_demand, &state.audio_demand].into_iter().flatten()\<close>\<close>

definition demands :: "state \<Rightarrow> demand list" where
  "demands st = List.map_filter id [st_video_demand st, st_audio_demand st]"

section \<open>Buffers\<close>

definition self_buffer :: "shared \<Rightarrow> format_key \<Rightarrow> track_buffer" where
  "self_buffer sh key =
     (case map_of (sh_buffers sh) key of Some b \<Rightarrow> b | None \<Rightarrow> track_buffer_new key)"

definition set_buffer :: "format_key \<Rightarrow> track_buffer \<Rightarrow> shared \<Rightarrow> shared" where
  "set_buffer key b sh = sh\<lparr>sh_buffers := AList.update key b (sh_buffers sh)\<rparr>"

definition upd_buffer :: "format_key \<Rightarrow> (track_buffer \<Rightarrow> track_buffer) \<Rightarrow> shared \<Rightarrow> shared" where
  "upd_buffer key f sh = set_buffer key (f (self_buffer sh key)) sh"

definition all_buffers :: "(track_buffer \<Rightarrow> track_buffer) \<Rightarrow> shared \<Rightarrow> shared" where
  "all_buffers f sh = sh\<lparr>sh_buffers := map (\<lambda>(k, b). (k, f b)) (sh_buffers sh)\<rparr>"

definition upd_segment :: "nat \<Rightarrow> (segment \<Rightarrow> segment) \<Rightarrow> shared \<Rightarrow> shared" where
  "upd_segment a f sh = sh\<lparr>sh_heap := (sh_heap sh)(a := f (sh_heap sh a))\<rparr>"

text \<open>\<open>Arc::new(SabrSegment::new(...))\<close>\<close>

definition alloc_segment :: "segment \<Rightarrow> shared \<Rightarrow> nat \<times> shared" where
  "alloc_segment s sh =
     (sh_next sh, sh\<lparr>sh_heap := (sh_heap sh)(sh_next sh := s), sh_next := Suc (sh_next sh)\<rparr>)"

section \<open>Ticks\<close>

definition ticks_to_us :: "int \<Rightarrow> int \<Rightarrow> int" where
  "ticks_to_us ticks timescale =
     i64 (i64 (ticks sdiv timescale * MICROS_PER_SECOND) +
          i64 (ticks smod timescale * MICROS_PER_SECOND) sdiv timescale)"

definition us_to_ticks :: "int \<Rightarrow> int \<Rightarrow> int" where
  "us_to_ticks us timescale =
     i64 (i64 (us sdiv MICROS_PER_SECOND * timescale) +
          i64 (us smod MICROS_PER_SECOND * timescale) sdiv MICROS_PER_SECOND)"

section \<open>Reading the demands\<close>

definition effective_from_us :: "heap \<Rightarrow> track_buffer \<Rightarrow> int \<Rightarrow> int" where
  "effective_from_us h b from_us =
     (case first_at_or_after b (-1) of
        Some first \<Rightarrow> max from_us (sg_start_us (h first))
      | None \<Rightarrow> from_us)"

definition demand_from_us :: "heap \<Rightarrow> state \<Rightarrow> track_buffer \<Rightarrow> format_key \<Rightarrow> int" where
  "demand_from_us h st b key =
     (let has = (\<lambda>d. case d of Some d \<Rightarrow> list_ex (\<lambda>a. sabr_format_key a = key) (dm_alternates d) | None \<Rightarrow> False);
          raw = (if has (st_video_demand st) then map_option dm_from_us (st_video_demand st)
                 else if has (st_audio_demand st) then map_option dm_from_us (st_audio_demand st)
                 else None)
      in case raw of Some raw \<Rightarrow> effective_from_us h b raw | None \<Rightarrow> NO_US)"

definition is_complete :: "shared \<Rightarrow> sabr_format \<Rightarrow> bool" where
  "is_complete sh f =
     (let st = sh_state sh; key = sabr_format_key f in
      if sh_is_live sh then False
      else if key \<in> st_format_complete st then True
      else
        let end_segment = (case st_format_initialization st key of
                             Some m \<Rightarrow> fi_end_segment_number m | None \<Rightarrow> 0) in
        if end_segment \<le> 0 then False
        else
          let b = self_buffer sh key in
          end_segment \<le> last_completed_sequence (sh_heap sh) b (demand_from_us (sh_heap sh) st b key))"

definition needs_data_for :: "shared \<Rightarrow> demand \<Rightarrow> int \<Rightarrow> bool" where
  "needs_data_for sh d target_ms =
     (if is_complete sh (dm_format d) then False
      else
        let st = sh_state sh;
            b = self_buffer sh (sabr_format_key (dm_format d));
            from' = effective_from_us (sh_heap sh) b (dm_from_us d);
            end' = buffered_end_us (sh_heap sh) b from' in
        if end' = NO_US then True
        else
          let target = max target_ms (st_min_readahead_ms st);
              target = (if 0 < st_max_readahead_ms st then min target (st_max_readahead_ms st) else target)
          in i64 (end' - from') < i64 (target * 1000))"

definition needs_data :: "shared \<Rightarrow> bool" where
  "needs_data sh =
     (let st = sh_state sh in
      if st_video_demand st = None \<and> st_audio_demand st = None then False
      else if st_resume_position_us st \<noteq> None then True
      else
        (case st_video_demand st of
           Some v \<Rightarrow> needs_data_for sh v (st_target_video_readahead_ms st) | None \<Rightarrow> False) \<or>
        (case st_audio_demand st of
           Some a \<Rightarrow> needs_data_for sh a (st_target_audio_readahead_ms st) | None \<Rightarrow> False))"

definition demand_end_us :: "shared \<Rightarrow> demand \<Rightarrow> int" where
  "demand_end_us sh d =
     (let b = self_buffer sh (sabr_format_key (dm_format d)) in
      buffered_end_us (sh_heap sh) b (effective_from_us (sh_heap sh) b (dm_from_us d)))"

fun earliest_frontier :: "shared \<Rightarrow> int \<Rightarrow> demand list \<Rightarrow> int" where
  "earliest_frontier sh earliest [] = earliest"
| "earliest_frontier sh earliest (d # ds) =
     (let b = self_buffer sh (sabr_format_key (dm_format d));
          effective = effective_from_us (sh_heap sh) b (dm_from_us d);
          end' = buffered_end_us (sh_heap sh) b effective;
          from' = (if end' = NO_US then effective else max effective end')
      in earliest_frontier sh (min earliest from') ds)"

definition request_position_us :: "shared \<Rightarrow> int" where
  "request_position_us sh =
     (let st = sh_state sh in
      case st_resume_position_us st of
        Some r \<Rightarrow> r
      | None \<Rightarrow>
          case st_seek_pending_us st of
            Some s \<Rightarrow> s
          | None \<Rightarrow>
              if sh_is_live sh \<and> st_live_metadata st = None then LIVE_HEAD_PLAYER_TIME_US
              else
                let earliest = earliest_frontier sh I64_MAX (demands st) in
                if earliest = I64_MAX then st_playback_position_us st
                else if \<not> sh_is_live sh then earliest
                else min (st_playback_position_us st) earliest)"

definition starved :: "shared \<Rightarrow> bool" where
  "starved sh =
     list_ex (\<lambda>d. demand_end_us sh d = NO_US \<or>
                  i64 (demand_end_us sh d - st_playback_position_us (sh_state sh)) < 3000000)
       (demands (sh_state sh))"

section \<open>Operations of the handle\<close>

record stream_spec =
  sp_server_abr_streaming_url :: string
  sp_ustreamer_config :: bytes
  sp_video_id :: string
  sp_is_live :: bool
  sp_duration_us :: int
  sp_video_formats :: "sabr_format list"
  sp_audio_formats :: "sabr_format list"
  sp_po_token :: "string option"
  sp_client_name :: int
  sp_client_version :: string
  sp_os_name :: string
  sp_os_version :: string

definition build_client_info :: "stream_spec \<Rightarrow> client_info" where
  "build_client_info spec =
     \<lparr>ci_client_name = sp_client_name spec, ci_client_version = sp_client_version spec,
      ci_os_name = sp_os_name spec, ci_os_version = sp_os_version spec\<rparr>"

text \<open>The base64 engines are parameters, by alphabet and padding.\<close>

record base64_engines =
  b64_url_safe_no_pad :: "string \<Rightarrow> bytes option"
  b64_standard_no_pad :: "string \<Rightarrow> bytes option"
  b64_standard :: "string \<Rightarrow> bytes option"

definition decode_base64_lenient :: "base64_engines \<Rightarrow> string \<Rightarrow> bytes option" where
  "decode_base64_lenient engines value =
     (case b64_url_safe_no_pad engines value of
        Some bs \<Rightarrow> Some bs
      | None \<Rightarrow>
          let standardized = map (\<lambda>c. if c = CHR ''-'' then CHR ''+'' else if c = CHR ''_'' then CHR ''/'' else c) value in
          case b64_standard_no_pad engines standardized of
            Some bs \<Rightarrow> Some bs
          | None \<Rightarrow> b64_standard engines standardized)"

definition state_new :: "stream_spec \<Rightarrow> int \<Rightarrow> state" where
  "state_new spec now =
     \<lparr>st_streaming_url = sp_server_abr_streaming_url spec, st_playback_cookie = None,
      st_sabr_contexts = [], st_active_sabr_contexts = {}, st_format_initialization = (\<lambda>_. None),
      st_format_complete = {}, st_format_no_progress = (\<lambda>_. None), st_server_chosen = (\<lambda>_. None),
      st_demanded_keys = {}, st_video_demand = None, st_audio_demand = None,
      st_playback_position_us = 0, st_resume_position_us = None, st_restart_from_us = NO_US,
      st_seek_pending_us = None, st_last_sabr_seek_us = NO_US, st_restart_epoch = 0,
      st_target_video_readahead_ms = DEFAULT_READAHEAD_MS,
      st_target_audio_readahead_ms = DEFAULT_READAHEAD_MS,
      st_backoff_until_ms = 0, st_server_backoff_until_ms = 0, st_error_backoff_until_ms = 0,
      st_aborting = False, st_last_action_ms = now, st_last_request_ms = 0,
      st_media_base_us = 0, st_media_base_set = False, st_live_metadata = None, st_reestimated = False,
      st_viewport_width = 0, st_viewport_height = 0, st_initial_bandwidth = 0,
      st_keep_behind_us = DEFAULT_KEEP_BEHIND_US, st_min_readahead_ms = 0, st_max_readahead_ms = 0,
      st_fatal = None\<rparr>"

definition session_new :: "base64_engines \<Rightarrow> stream_spec \<Rightarrow> int \<Rightarrow> shared" where
  "session_new engines spec now =
     \<lparr>sh_ustreamer_config = sp_ustreamer_config spec, sh_video_id = sp_video_id spec,
      sh_client_info = build_client_info spec,
      sh_po_token_decoded = Option.bind (sp_po_token spec) (decode_base64_lenient engines),
      sh_is_live = sp_is_live spec, sh_duration_us = sp_duration_us spec, sh_created_at_ms = now,
      sh_state = state_new spec now, sh_wakeups = 0, sh_buffers = [],
      sh_heap = (\<lambda>_. segment_new (format_key_of 0 0 None) 0 False 0 0 0 0 0), sh_next = 0,
      sh_listener = False, sh_events = [], sh_released = False, sh_request_number = 0,
      sh_server_seek_generation = 0\<rparr>"

definition active_format :: "role \<Rightarrow> shared \<Rightarrow> sabr_format option" where
  "active_format r sh = map_option dm_format (demand_of r (sh_state sh))"

definition active_format_key :: "role \<Rightarrow> shared \<Rightarrow> format_key option" where
  "active_format_key r sh = map_option (sabr_format_key \<circ> dm_format) (demand_of r (sh_state sh))"

definition format_initialization_for :: "shared \<Rightarrow> sabr_format \<Rightarrow> format_init option" where
  "format_initialization_for sh f = st_format_initialization (sh_state sh) (sabr_format_key f)"

definition set_listener :: "bool \<Rightarrow> shared \<Rightarrow> shared" where
  "set_listener l sh = sh\<lparr>sh_listener := l\<rparr>"

definition set_viewport :: "int \<Rightarrow> int \<Rightarrow> shared \<Rightarrow> shared" where
  "set_viewport width height =
     upd (\<lambda>st. st\<lparr>st_viewport_width := width, st_viewport_height := height\<rparr>)"

definition set_initial_bandwidth :: "int \<Rightarrow> shared \<Rightarrow> shared" where
  "set_initial_bandwidth bytes_per_sec = upd (\<lambda>st. st\<lparr>st_initial_bandwidth := bytes_per_sec\<rparr>)"

definition release :: "shared \<Rightarrow> shared" where
  "release sh =
     (if sh_released sh then sh
      else (all_buffers notify_changed (self_notify (sh\<lparr>sh_released := True\<rparr>)))\<lparr>sh_listener := False\<rparr>)"

definition find_key :: "format_key \<Rightarrow> sabr_format list \<Rightarrow> sabr_format option" where
  "find_key key fs = find (\<lambda>a. sabr_format_key a = key) fs"

definition select_active :: "state \<Rightarrow> role \<Rightarrow> sabr_format list \<Rightarrow> sabr_format" where
  "select_active st r acceptable =
     (case Option.bind (demand_of r st) (\<lambda>p. find_key (sabr_format_key (dm_format p)) acceptable) of
        Some a \<Rightarrow> a
      | None \<Rightarrow>
          case Option.bind (st_server_chosen st r) (\<lambda>chosen. find_key chosen acceptable) of
            Some a \<Rightarrow> a
          | None \<Rightarrow> acceptable ! 0)"

definition set_demand_alternates :: "int \<Rightarrow> role \<Rightarrow> sabr_format list \<Rightarrow> int \<Rightarrow> shared \<Rightarrow> shared" where
  "set_demand_alternates now r acceptable from_us sh =
     (if acceptable = [] then sh
      else
        let st = sh_state sh;
            previous = demand_of r st;
            active = select_active st r acceptable;
            unchanged = (case previous of
                None \<Rightarrow> False
              | Some prev \<Rightarrow>
                  sabr_format_key (dm_format prev) = sabr_format_key active \<and> dm_from_us prev = from_us \<and>
                  map sabr_format_key (dm_alternates prev) = map sabr_format_key acceptable)
        in if unchanged then sh
           else
             let st = (if map_option (sabr_format_key \<circ> dm_format) previous \<noteq> Some (sabr_format_key active)
                       then st\<lparr>st_last_action_ms := now,
                              st_format_complete := st_format_complete st - {sabr_format_key active},
                              st_format_no_progress := (st_format_no_progress st)(sabr_format_key active := None)\<rparr>
                       else st);
                 st = st\<lparr>st_demanded_keys := st_demanded_keys st \<union> set (map sabr_format_key acceptable)\<rparr>;
                 st = set_demand_field r
                        (Some \<lparr>dm_format = active, dm_from_us = from_us, dm_alternates = acceptable\<rparr>) st
             in self_notify (sh\<lparr>sh_state := st\<rparr>))"

definition set_demand :: "int \<Rightarrow> role \<Rightarrow> sabr_format \<Rightarrow> int \<Rightarrow> shared \<Rightarrow> shared" where
  "set_demand now r f from_us = set_demand_alternates now r [f] from_us"

definition clear_demand :: "role \<Rightarrow> shared \<Rightarrow> shared" where
  "clear_demand r = upd (set_demand_field r None)"

definition advance_demand :: "role \<Rightarrow> int \<Rightarrow> shared \<Rightarrow> shared" where
  "advance_demand r from_us sh =
     (case demand_of r (sh_state sh) of
        Some d \<Rightarrow>
          if dm_from_us d \<noteq> from_us
          then self_notify (upd (set_demand_field r (Some (d\<lparr>dm_from_us := from_us\<rparr>))) sh)
          else sh
      | None \<Rightarrow> sh)"

definition set_playback_position :: "int \<Rightarrow> shared \<Rightarrow> shared" where
  "set_playback_position position_us = upd (\<lambda>st. st\<lparr>st_playback_position_us := position_us\<rparr>)"

definition reanchor_demands :: "int \<Rightarrow> state \<Rightarrow> state" where
  "reanchor_demands from_us st =
     st\<lparr>st_video_demand := map_option (\<lambda>d. d\<lparr>dm_from_us := from_us\<rparr>) (st_video_demand st),
        st_audio_demand := map_option (\<lambda>d. d\<lparr>dm_from_us := from_us\<rparr>) (st_audio_demand st)\<rparr>"

definition restart :: "int \<Rightarrow> int \<Rightarrow> bool \<Rightarrow> shared \<Rightarrow> shared \<times> bool" where
  "restart now from_us force sh =
     (let st = sh_state sh in
      if \<not> force \<and> (case st_resume_position_us st of
                         Some current \<Rightarrow> i64 \<bar>i64 (current - from_us)\<bar> < RESTART_TOLERANCE_US
                       | None \<Rightarrow> False)
      then (sh, False)
      else
        let st = st\<lparr>st_playback_position_us := from_us, st_resume_position_us := Some from_us,
                    st_restart_from_us := from_us, st_last_action_ms := now,
                    st_restart_epoch := i32 (st_restart_epoch st + 1),
                    st_format_complete := {}, st_format_no_progress := (\<lambda>_. None)\<rparr>;
            sh = all_buffers buf_clear sh;
            st = reanchor_demands from_us st;
            st = st\<lparr>st_backoff_until_ms := max (st_server_backoff_until_ms st) (st_error_backoff_until_ms st),
                    st_aborting := True\<rparr>
        in (self_notify (sh\<lparr>sh_state := st\<rparr>), True))"

definition seek_to :: "int \<Rightarrow> int \<Rightarrow> shared \<Rightarrow> shared" where
  "seek_to now from_us sh =
     (let st = sh_state sh;
          buffered = demands st \<noteq> [] \<and>
            list_all (\<lambda>d.
              case first_covering (sh_heap sh) (self_buffer sh (sabr_format_key (dm_format d))) from_us of
                Some s \<Rightarrow> sg_start_us (sh_heap sh s) \<le> from_us
              | None \<Rightarrow> False) (demands st)
      in if \<not> buffered then fst (restart now from_us False sh)
         else
           self_notify (sh\<lparr>sh_state :=
             (reanchor_demands from_us (st\<lparr>st_playback_position_us := from_us\<rparr>))\<lparr>st_last_action_ms := now\<rparr>\<rparr>))"

text \<open>What the holder of a handle can do at any time, each call with the clock it reads.\<close>

datatype client_call =
    SetListener bool
  | SetViewport int int
  | SetInitialBandwidth int
  | SetDemandAlternates role "sabr_format list" int
  | ClearDemand role
  | AdvanceDemand role int
  | SetPlaybackPosition int
  | SeekTo int
  | Restart int bool
  | Release

fun client :: "int \<times> client_call \<Rightarrow> shared \<Rightarrow> shared" where
  "client (now, SetListener l) sh = set_listener l sh"
| "client (now, SetViewport w h) sh = set_viewport w h sh"
| "client (now, SetInitialBandwidth b) sh = set_initial_bandwidth b sh"
| "client (now, SetDemandAlternates r fs from_us) sh = set_demand_alternates now r fs from_us sh"
| "client (now, ClearDemand r) sh = clear_demand r sh"
| "client (now, AdvanceDemand r from_us) sh = advance_demand r from_us sh"
| "client (now, SetPlaybackPosition p) sh = set_playback_position p sh"
| "client (now, SeekTo p) sh = seek_to now p sh"
| "client (now, Restart p force) sh = fst (restart now p force sh)"
| "client (now, Release) sh = release sh"

definition clients :: "(int \<times> client_call) list \<Rightarrow> shared \<Rightarrow> shared" where
  "clients calls sh = fold client calls sh"

end
