(* ===== verification/Sabr_Media.thy ===== *)
theory Sabr_Media
  imports Sabr_Session
begin

text \<open>
  What a response of the SABR server does to the session (\<open>sabrump/src/session.rs\<close>): \<open>consume\<close> reads the
  parts of the UMP stream and hands each to its arm. Between two parts the task waits for the network;
  there the calls of other tasks run, given as a list per wait.
\<close>

section \<open>Messages\<close>

text \<open>The generated decoders; a failure carries the text of \<open>prost::DecodeError\<close>.\<close>

record prost =
  pd_media_header :: "bytes \<Rightarrow> string + media_header"
  pd_next_request_policy :: "bytes \<Rightarrow> string + next_request_policy"
  pd_format_init :: "bytes \<Rightarrow> string + format_init"
  pd_live_metadata :: "bytes \<Rightarrow> string + live_metadata"
  pd_context_update :: "bytes \<Rightarrow> string + context_update"
  pd_context_policy :: "bytes \<Rightarrow> string + context_policy"
  pd_protection_status :: "bytes \<Rightarrow> string + int"
  pd_redirect :: "bytes \<Rightarrow> string + string"
  pd_seek :: "bytes \<Rightarrow> string + sabr_seek"
  pd_error :: "bytes \<Rightarrow> string + sabr_error_part"

text \<open>A step outcome that is not a normal success.\<close>

datatype pump_step =
    Idle
  | Backoff
  | Fatal sabr_error
  | StepError sabr_error

definition decoded :: "string + 'a \<Rightarrow> pump_step + 'a" where
  "decoded r = (case r of Inl e \<Rightarrow> Inl (StepError (Decode e)) | Inr x \<Rightarrow> Inr x)"

record pump_local =
  pl_empty_responses :: int
  pl_substituted_responses :: int
  pl_consecutive_redirects :: int
  pl_consecutive_errors :: int
  pl_backoff_notified :: bool
  pl_backoff_shown :: bool
  pl_last_wait_log_ms :: int
  pl_media_bytes :: int
  pl_media_us_delivered :: int
  pl_throughput_bytes_per_sec :: int
  pl_demanded_headers :: int
  pl_foreign_headers :: int

definition pump_local_default :: pump_local where
  "pump_local_default =
     \<lparr>pl_empty_responses = 0, pl_substituted_responses = 0, pl_consecutive_redirects = 0,
      pl_consecutive_errors = 0, pl_backoff_notified = False, pl_backoff_shown = False,
      pl_last_wait_log_ms = 0, pl_media_bytes = 0, pl_media_us_delivered = 0,
      pl_throughput_bytes_per_sec = 0, pl_demanded_headers = 0, pl_foreign_headers = 0\<rparr>"

section \<open>Durations of live segments\<close>

definition live_cadence_us :: "shared \<Rightarrow> track_buffer \<Rightarrow> int" where
  "live_cadence_us sh b =
     (let h = sh_heap sh; observed = recent_start_deltas_us h b 8 in
      if observed \<noteq> [] then
        (let observed = sort observed in max (observed ! (length observed div 2)) 1)
      else
        case st_live_metadata (sh_state sh) of
          None \<Rightarrow> -1
        | Some lm \<Rightarrow>
            case first_at_or_after b (-1) of
              None \<Rightarrow> -1
            | Some anchor \<Rightarrow>
                if lm_head_sequence_number lm \<le> sg_sequence_number (h anchor) then -1
                else
                  let span_us = i64 (i64 (lm_head_sequence_time_ms lm * 1000) - sg_start_us (h anchor)) in
                  if span_us \<le> 0 then -1
                  else max (span_us sdiv i32 (lm_head_sequence_number lm - sg_sequence_number (h anchor))) 1)"

definition estimate_segment_us :: "shared \<Rightarrow> int \<Rightarrow> int \<Rightarrow> track_buffer \<Rightarrow> int" where
  "estimate_segment_us sh sequence start_us b =
     (let h = sh_heap sh; cadence = live_cadence_us sh b;
          previous = (case buf_get b (i32 (sequence - 1)) of
                        Some prev \<Rightarrow> if 0 < sg_duration_us (h prev) then sg_duration_us (h prev)
                                     else DEFAULT_LIVE_SEGMENT_US
                      | None \<Rightarrow> DEFAULT_LIVE_SEGMENT_US)
      in if 0 < cadence then cadence
         else
           case st_live_metadata (sh_state sh) of
             None \<Rightarrow> previous
           | Some lm \<Rightarrow>
               if lm_head_sequence_number lm \<le> sequence then previous
               else
                 let segments = i32 (lm_head_sequence_number lm - sequence);
                     span_us = i64 (i64 (lm_head_sequence_time_ms lm * 1000) - start_us) in
                 if 0 < span_us then max (span_us sdiv segments) 1 else previous)"

definition back_patch_previous :: "format_key \<Rightarrow> int \<Rightarrow> int \<Rightarrow> shared \<Rightarrow> shared" where
  "back_patch_previous key sequence start_us sh =
     (let b = self_buffer sh key; h = sh_heap sh in
      case buf_get b (i32 (sequence - 1)) of
        None \<Rightarrow> sh
      | Some prev \<Rightarrow>
          if sg_duration_exact (h prev) then sh
          else
            let delta_us = i64 (start_us - sg_start_us (h prev)) in
            if delta_us \<le> 0 then sh
            else
              let c = live_cadence_us sh b;
                  cadence = (if 0 < c then c else sg_duration_us (h prev))
              in if 0 < cadence \<and> i64 (cadence * 3) sdiv 2 < delta_us then sh
                 else upd_segment prev (set_duration delta_us True) sh)"

text \<open>One segment of the loop of \<open>reestimate_inexact_durations\<close>.\<close>

definition reestimate_segment :: "format_key \<Rightarrow> nat \<Rightarrow> shared \<Rightarrow> shared" where
  "reestimate_segment key a sh =
     (let s = sh_heap sh a in
      if sg_duration_exact s \<or> sg_is_init s then sh
      else
        let sh = (case buf_get (self_buffer sh key) (i32 (sg_sequence_number s + 1)) of
                    Some nx \<Rightarrow> back_patch_previous key (sg_sequence_number (sh_heap sh nx)) (sg_start_us (sh_heap sh nx)) sh
                  | None \<Rightarrow> sh)
        in if sg_duration_exact (sh_heap sh a) then sh
           else
             let est = estimate_segment_us sh (sg_sequence_number s) (sg_start_us s) (self_buffer sh key)
             in upd_segment a (set_duration est False) sh)"

definition reestimate_inexact_durations :: "shared \<Rightarrow> shared" where
  "reestimate_inexact_durations sh =
     fold (\<lambda>(key, b) sh. fold (reestimate_segment key) (snapshot b) sh) (sh_buffers sh) sh"

definition on_live_metadata :: "live_metadata \<Rightarrow> shared \<Rightarrow> shared" where
  "on_live_metadata metadata sh =
     (let st = sh_state sh;
          first = \<not> st_reestimated st;
          st = st\<lparr>st_reestimated := True, st_live_metadata := Some metadata\<rparr>;
          st = (if sh_is_live sh \<and> \<not> st_media_base_set st \<and> 0 < lm_min_seekable_timescale metadata
                then st\<lparr>st_media_base_us :=
                          ticks_to_us (lm_min_seekable_time_ticks metadata) (lm_min_seekable_timescale metadata),
                        st_media_base_set := True\<rparr>
                else st);
          sh = sh\<lparr>sh_state := st\<rparr>;
          sh = (if first then reestimate_inexact_durations sh else sh)
      in emit (EvLiveMetadata metadata) sh)"

section \<open>Other parts\<close>

definition on_next_request_policy :: "int \<Rightarrow> next_request_policy \<Rightarrow> state \<Rightarrow> state" where
  "on_next_request_policy now policy st =
     (let st = (if np_playback_cookie policy \<noteq> []
                then st\<lparr>st_playback_cookie := Some (np_playback_cookie policy)\<rparr> else st);
          st = (if 0 < np_target_video_readahead_ms policy
                then st\<lparr>st_target_video_readahead_ms := np_target_video_readahead_ms policy\<rparr> else st);
          st = (if 0 < np_target_audio_readahead_ms policy
                then st\<lparr>st_target_audio_readahead_ms := np_target_audio_readahead_ms policy\<rparr> else st)
      in if 0 < np_backoff_time_ms policy
         then let until' = i64 (now + np_backoff_time_ms policy) in
              st\<lparr>st_server_backoff_until_ms := until', st_backoff_until_ms := max (st_backoff_until_ms st) until'\<rparr>
         else st)"

fun adopt_for :: "format_key \<Rightarrow> role list \<Rightarrow> state \<Rightarrow> state" where
  "adopt_for key [] st = st"
| "adopt_for key (r # rs) st =
     (case demand_of r st of
        None \<Rightarrow> adopt_for key rs st
      | Some d \<Rightarrow>
          if sabr_format_key (dm_format d) = key \<or> length (dm_alternates d) \<le> 1 then adopt_for key rs st
          else
            case find_key key (dm_alternates d) of
              None \<Rightarrow> adopt_for key rs st
            | Some chosen \<Rightarrow>
                set_demand_field r (Some \<lparr>dm_format = chosen, dm_from_us = dm_from_us d, dm_alternates = dm_alternates d\<rparr>)
                  (st\<lparr>st_server_chosen := (st_server_chosen st)(r \<mapsto> key)\<rparr>))"

definition adopt_server_format :: "format_key \<Rightarrow> state \<Rightarrow> state" where
  "adopt_server_format key = adopt_for key [Video, Audio]"

definition context_updated :: "context_update \<Rightarrow> state \<Rightarrow> state" where
  "context_updated u st =
     (let st = st\<lparr>st_sabr_contexts := map_insert (cu_type u) (cu_value u) (st_sabr_contexts st)\<rparr> in
      if cu_send_by_default u
      then st\<lparr>st_active_sabr_contexts := insert (cu_type u) (st_active_sabr_contexts st)\<rparr> else st)"

definition context_policy_applied :: "context_policy \<Rightarrow> state \<Rightarrow> state" where
  "context_policy_applied p st =
     (let st = fold (\<lambda>t st. st\<lparr>st_active_sabr_contexts := insert t (st_active_sabr_contexts st)\<rparr>)
                 (cp_start_policy p) st;
          st = fold (\<lambda>t st. st\<lparr>st_active_sabr_contexts := st_active_sabr_contexts st - {t}\<rparr>)
                 (cp_stop_policy p) st
      in fold (\<lambda>t st. st\<lparr>st_sabr_contexts := map_remove t (st_sabr_contexts st),
                          st_active_sabr_contexts := st_active_sabr_contexts st - {t}\<rparr>)
           (cp_discard_policy p) st)"

section \<open>Media\<close>

text \<open>The open segments of a response by header id, each with the key of its buffer.\<close>

type_synonym pending = "(int \<times> nat \<times> format_key) list"

definition header_times :: "media_header \<Rightarrow> int \<times> int" where
  "header_times header =
     (let tr = (case mh_time_range header of Some tr \<Rightarrow> tr
                | None \<Rightarrow> \<lparr>tr_start_ticks = 0, tr_duration_ticks = 0, tr_timescale = 0\<rparr>)
      in if 0 < tr_timescale tr
         then (ticks_to_us (tr_start_ticks tr) (tr_timescale tr), ticks_to_us (tr_duration_ticks tr) (tr_timescale tr))
         else (i64 (mh_start_ms header * 1000), i64 (mh_duration_ms header * 1000)))"

text \<open>\<open>timescale\<close> and the start in ticks the new segment is given.\<close>

definition header_ticks :: "media_header \<Rightarrow> int \<times> int" where
  "header_ticks header =
     (case mh_time_range header of
        Some tr \<Rightarrow> (if 0 < tr_timescale tr then tr_start_ticks tr else 0, tr_timescale tr)
      | None \<Rightarrow> (0, 0))"

definition media_clock :: "state \<Rightarrow> format_key option" where
  "media_clock st =
     (case st_video_demand st of
        Some d \<Rightarrow> Some (sabr_format_key (dm_format d))
      | None \<Rightarrow> map_option (sabr_format_key \<circ> dm_format) (st_audio_demand st))"

definition count_header :: "format_key \<Rightarrow> format_key set \<Rightarrow> pump_local \<Rightarrow> shared \<Rightarrow> pump_local \<times> shared" where
  "count_header key requested_keys l sh =
     (if key \<in> requested_keys
      then (l\<lparr>pl_demanded_headers := i32 (pl_demanded_headers l + 1)\<rparr>, upd (adopt_server_format key) sh)
      else if key \<notin> st_demanded_keys (sh_state sh)
      then (l\<lparr>pl_foreign_headers := i32 (pl_foreign_headers l + 1)\<rparr>, sh)
      else (l, sh))"

definition new_segment :: "format_key \<Rightarrow> media_header \<Rightarrow> pump_local \<Rightarrow> shared \<Rightarrow> pump_local \<times> segment \<times> shared" where
  "new_segment key header l sh =
     (let (start_us, duration_us) = header_times header;
          exact = 0 < duration_us;
          seq = mh_sequence_number header;
          (l, duration_us, sh) =
            (if mh_is_init_segment header then (l, duration_us, sh)
             else
               let sh = back_patch_previous key seq start_us sh;
                   duration_us = (if exact then duration_us
                                  else estimate_segment_us sh seq start_us (self_buffer sh key));
                   l = (if media_clock (sh_state sh) = Some key
                        then l\<lparr>pl_media_us_delivered := i64 (pl_media_us_delivered l + duration_us)\<rparr> else l)
               in (l, duration_us, sh));
          (start_ticks, timescale) = header_ticks header;
          s = segment_new key seq (mh_is_init_segment header) start_us duration_us
                (i32 (mh_content_length header)) start_ticks timescale
      in (l, if exact then set_duration duration_us True s else s, sh))"

definition on_media_header ::
  "format_key set \<Rightarrow> media_header \<Rightarrow> pump_local \<Rightarrow> pending \<Rightarrow> shared \<Rightarrow> pump_local \<times> pending \<times> shared" where
  "on_media_header requested_keys header l pend sh =
     (let key = format_key_of (mh_itag header) (mh_lmt header) (Some (mh_xtags header));
          (l, sh) = count_header key requested_keys l sh;
          b = self_buffer sh key;
          existing = (if mh_is_init_segment header then tb_init b else buf_get b (mh_sequence_number header));
          done' = (case existing of Some a \<Rightarrow> sg_complete (sh_heap sh a) | None \<Rightarrow> False)
      in if done' then
           let (a, sh) = alloc_segment
                 (segment_new key (mh_sequence_number header) (mh_is_init_segment header) 0 0 0 0 0) sh
           in (l, map_insert (mh_header_id header) (a, key) pend, sh)
         else
           let (l, s, sh) = new_segment key header l sh;
               (a, sh) = alloc_segment s sh
           in (l, map_insert (mh_header_id header) (a, key) pend,
               upd_buffer key (announce (sh_heap sh) a) sh))"

definition on_media :: "bytes \<Rightarrow> pump_local \<Rightarrow> pending \<Rightarrow> shared \<Rightarrow> pump_local \<times> shared" where
  "on_media data l pend sh =
     (let (header_id, offset) = decode_varint data 0;
          l = l\<lparr>pl_media_bytes := i64 (pl_media_bytes l + int (length data - offset))\<rparr>
      in case map_of pend (i32 header_id) of
           Some (a, key) \<Rightarrow> (l, upd_buffer key notify_changed (upd_segment a (seg_append (drop offset data)) sh))
         | None \<Rightarrow> (l, sh))"

definition on_media_end :: "bytes \<Rightarrow> pending \<Rightarrow> shared \<Rightarrow> pending \<times> shared" where
  "on_media_end data pend sh =
     (let header_id = i32 (fst (decode_varint data 0)) in
      case map_of pend header_id of
        None \<Rightarrow> (pend, sh)
      | Some (a, key) \<Rightarrow>
          let s = sh_heap sh a in
          (map_remove header_id pend,
           if 0 < sg_content_length s \<and> int (sg_size s) \<noteq> sg_content_length s
           then upd_buffer key (discard (sh_heap sh) a) sh
           else upd_buffer key notify_changed (upd_segment a mark_complete sh)))"

section \<open>Server seeks\<close>

text \<open>The three ways \<open>apply_sabr_seek\<close> takes a seek.\<close>

datatype seek_verdict =
    OutOfWindow
  | KeepAlive
  | Repeated
  | Reposition

definition seekable_window :: "live_metadata \<Rightarrow> (int \<times> int) option" where
  "seekable_window lm =
     (if lm_min_seekable_timescale lm \<le> 0 \<or> lm_max_seekable_timescale lm \<le> 0 then None
      else Some (ticks_to_us (lm_min_seekable_time_ticks lm) (lm_min_seekable_timescale lm),
                 ticks_to_us (lm_max_seekable_time_ticks lm) (lm_max_seekable_timescale lm)))"

definition seek_verdict_of :: "shared \<Rightarrow> int \<Rightarrow> seek_verdict" where
  "seek_verdict_of sh seek_to_us =
     (let st = sh_state sh;
          outside = sh_is_live sh \<and>
            (case st_live_metadata st of
               None \<Rightarrow> False
             | Some lm \<Rightarrow>
                 case seekable_window lm of
                   None \<Rightarrow> True
                 | Some (ws, we) \<Rightarrow> seek_to_us < ws \<or> i64 (we + SABR_SEEK_SLACK_US) < seek_to_us);
          near_position = i64 \<bar>i64 (seek_to_us - st_playback_position_us st)\<bar> < SABR_SEEK_SLACK_US;
          already_buffered = list_ex (\<lambda>d.
            first_covering (sh_heap sh) (self_buffer sh (sabr_format_key (dm_format d))) seek_to_us \<noteq> None)
            (demands st)
      in if outside then OutOfWindow
         else if near_position \<or> already_buffered then KeepAlive
         else if seek_to_us = st_last_sabr_seek_us st \<and> st_seek_pending_us st = None then Repeated
         else Reposition)"

definition apply_sabr_seek :: "int \<Rightarrow> int \<Rightarrow> shared \<Rightarrow> shared" where
  "apply_sabr_seek now seek_to_us sh =
     (case seek_verdict_of sh seek_to_us of
        OutOfWindow \<Rightarrow> sh
      | KeepAlive \<Rightarrow> upd (\<lambda>st. st\<lparr>st_last_sabr_seek_us := seek_to_us\<rparr>) sh
      | Repeated \<Rightarrow> sh
      | Reposition \<Rightarrow>
          let st = (sh_state sh)\<lparr>st_last_sabr_seek_us := seek_to_us, st_seek_pending_us := Some seek_to_us,
                                 st_playback_position_us := seek_to_us, st_restart_from_us := seek_to_us\<rparr>;
              st = reanchor_demands seek_to_us st;
              st = st\<lparr>st_last_action_ms := now, st_restart_epoch := i32 (st_restart_epoch st + 1),
                      st_format_complete := {}, st_format_no_progress := (\<lambda>_. None)\<rparr>;
              sh = all_buffers buf_clear (sh\<lparr>sh_state := st\<rparr>)
          in self_notify (sh\<lparr>sh_server_seek_generation := sh_server_seek_generation sh + 1\<rparr>))"

section \<open>Consuming a response\<close>

record consumption =
  cs_redirect :: "string option"
  cs_seek_to_us :: "int option"
  cs_pending :: pending
  cs_local :: pump_local
  cs_shared :: shared

definition set_shared :: "consumption \<Rightarrow> shared \<Rightarrow> consumption" where
  "set_shared c sh = c\<lparr>cs_shared := sh\<rparr>"

text \<open>\<open>decode(..)?\<close>, then the rest of the arm.\<close>

definition with_message :: "string + 'a \<Rightarrow> consumption \<Rightarrow> ('a \<Rightarrow> consumption) \<Rightarrow> (pump_step + unit) \<times> consumption" where
  "with_message r c f = (case decoded r of Inl e \<Rightarrow> (Inl e, c) | Inr x \<Rightarrow> (Inr (), f x))"

text \<open>One part: the arm of the \<open>match\<close>, its result being an early return.\<close>

definition on_part :: "prost \<Rightarrow> format_key set \<Rightarrow> int \<Rightarrow> ump_part \<Rightarrow> consumption \<Rightarrow> (pump_step + unit) \<times> consumption" where
  "on_part p requested_keys now part c =
     (let data = ump_data part; sh = cs_shared c in
      case ump_ty part of
        MediaHeader \<Rightarrow>
          with_message (pd_media_header p data) c (\<lambda>header.
            let (l, pend, sh) = on_media_header requested_keys header (cs_local c) (cs_pending c) sh
            in c\<lparr>cs_local := l, cs_pending := pend, cs_shared := sh\<rparr>)
      | Media \<Rightarrow>
          (let (l, sh) = on_media data (cs_local c) (cs_pending c) sh
           in (Inr (), c\<lparr>cs_local := l, cs_shared := sh\<rparr>))
      | MediaEnd \<Rightarrow>
          (let (pend, sh) = on_media_end data (cs_pending c) sh
           in (Inr (), c\<lparr>cs_pending := pend, cs_shared := sh\<rparr>))
      | NextRequestPolicy \<Rightarrow>
          with_message (pd_next_request_policy p data) c (\<lambda>policy. set_shared c (upd (on_next_request_policy now policy) sh))
      | FormatInitializationMetadata \<Rightarrow>
          with_message (pd_format_init p data) c (\<lambda>m.
            let fid = (case fi_format_id m of Some fid \<Rightarrow> fid
                       | None \<Rightarrow> \<lparr>fid_itag = 0, fid_lmt = 0, fid_xtags = []\<rparr>);
                key = format_key_of (fid_itag fid) (fid_lmt fid) (Some (fid_xtags fid))
            in set_shared c (emit (EvFormatInitialization m)
                 (upd (\<lambda>st. st\<lparr>st_format_initialization := (st_format_initialization st)(key \<mapsto> m)\<rparr>) sh)))
      | LiveMetadata \<Rightarrow>
          with_message (pd_live_metadata p data) c (\<lambda>m. set_shared c (on_live_metadata m sh))
      | SabrContextUpdate \<Rightarrow>
          with_message (pd_context_update p data) c (\<lambda>u. set_shared c (upd (context_updated u) sh))
      | SabrContextSendingPolicy \<Rightarrow>
          with_message (pd_context_policy p data) c (\<lambda>q. set_shared c (upd (context_policy_applied q) sh))
      | StreamProtectionStatus \<Rightarrow>
          (case decoded (pd_protection_status p data) of
             Inl e \<Rightarrow> (Inl e, c)
           | Inr status \<Rightarrow>
               if status = PROTECTION_STATUS_ATTESTATION_REQUIRED
               then (Inl (Fatal (Blocked ''po token rejected (attestation required)'')), c)
               else (Inr (), c))
      | SabrRedirect \<Rightarrow> with_message (pd_redirect p data) c (\<lambda>url. c\<lparr>cs_redirect := Some url\<rparr>)
      | SabrSeek \<Rightarrow>
          with_message (pd_seek p data) c (\<lambda>sk.
            c\<lparr>cs_seek_to_us := (if 0 < sk_seek_media_timescale sk
                                then Some (ticks_to_us (sk_seek_media_time sk) (sk_seek_media_timescale sk))
                                else None)\<rparr>)
      | SabrError \<Rightarrow>
          (case decoded (pd_error p data) of
             Inl e \<Rightarrow> (Inl e, c)
           | Inr er \<Rightarrow>
               (Inl (StepError (Protocol (''SABR error '' @ dec_int (se_code er) @ '' '' @ se_type er))), c))
      | ReloadPlayerResponse \<Rightarrow>
          (Inl (Fatal (sabr_error.ReloadRequired ''server asked for a fresh player response'')), c)
      | _ \<Rightarrow> (Inr (), c))"

text \<open>
  The loop. \<open>waits n\<close> is what happens while the task waits for the \<open>n\<close>-th part: the calls of other
  tasks, and the clock afterwards. The fuel bounds the number of parts.
\<close>

fun consume_loop ::
  "prost \<Rightarrow> format_key set \<Rightarrow> int \<Rightarrow> (nat \<Rightarrow> (int \<times> client_call) list \<times> int) \<Rightarrow> nat \<Rightarrow> nat \<Rightarrow> ump_reader \<Rightarrow>
    consumption \<Rightarrow> ((pump_step + unit) \<times> consumption) option" where
  "consume_loop p requested_keys start_epoch waits n 0 reader c = None"
| "consume_loop p requested_keys start_epoch waits n (Suc fuel) reader c =
     (let sh = cs_shared c in
      if sh_released sh \<or> st_restart_epoch (sh_state sh) \<noteq> start_epoch then Some (Inr (), c)
      else
        let (calls, now) = waits n; c = set_shared c (clients calls sh) in
        case ump_next reader of
          (reader, Inl e) \<Rightarrow> Some (Inl (StepError (Io e)), c)
        | (reader, Inr None) \<Rightarrow> Some (Inr (), c)
        | (reader, Inr (Some part)) \<Rightarrow>
            case on_part p requested_keys now part c of
              (Inl e, c) \<Rightarrow> Some (Inl e, c)
            | (Inr _, c) \<Rightarrow> consume_loop p requested_keys start_epoch waits (Suc n) fuel reader c)"

definition discard_pending :: "pending \<Rightarrow> shared \<Rightarrow> shared" where
  "discard_pending pend sh =
     fold (\<lambda>(hid, a, key) sh. upd_buffer key (\<lambda>b. notify_changed (discard (sh_heap sh) a b)) sh) pend sh"

text \<open>What follows the loop: whether a redirect was issued.\<close>

definition finish_response :: "int \<Rightarrow> int \<Rightarrow> consumption \<Rightarrow> (pump_step + bool) \<times> pump_local \<times> shared" where
  "finish_response now requested_position_us c =
     (let l = cs_local c; sh = cs_shared c in
      case cs_redirect c of
        Some url \<Rightarrow>
          let l = l\<lparr>pl_consecutive_redirects := i32 (pl_consecutive_redirects l + 1)\<rparr>;
              sh = upd (\<lambda>st. st\<lparr>st_streaming_url := url, st_backoff_until_ms := st_server_backoff_until_ms st,
                                st_resume_position_us := Some requested_position_us\<rparr>) sh
          in if MAX_REDIRECTS \<le> pl_consecutive_redirects l
             then (Inl (StepError (Protocol (''SABR redirected '' @ dec_int (pl_consecutive_redirects l) @
                     '' times without delivering media''))), l, sh)
             else (Inr True, l, sh)
      | None \<Rightarrow>
          case cs_seek_to_us c of
            Some seek \<Rightarrow> (Inr False, l, apply_sabr_seek now seek sh)
          | None \<Rightarrow> (Inr False, l, sh))"

definition consume ::
  "prost \<Rightarrow> (nat \<Rightarrow> (int \<times> client_call) list \<times> int) \<Rightarrow> int \<Rightarrow> nat \<Rightarrow> ump_reader \<Rightarrow> int \<Rightarrow> format_key set \<Rightarrow> int \<Rightarrow>
    pump_local \<Rightarrow> shared \<Rightarrow> ((pump_step + bool) \<times> pump_local \<times> shared) option" where
  "consume p waits now fuel reader requested_position_us requested_keys start_epoch l sh =
     (case consume_loop p requested_keys start_epoch waits 0 fuel reader
             \<lparr>cs_redirect = None, cs_seek_to_us = None, cs_pending = [], cs_local = l, cs_shared = sh\<rparr> of
        None \<Rightarrow> None
      | Some (res, c) \<Rightarrow>
          let c = set_shared c (discard_pending (cs_pending c) (cs_shared c)) in
          Some (case res of
                  Inl e \<Rightarrow> (Inl e, cs_local c, cs_shared c)
                | Inr _ \<Rightarrow> finish_response now requested_position_us c))"

end
