(* ===== verification/Sabr_Pump.thy ===== *)
theory Sabr_Pump
  imports Sabr_Media
begin

text \<open>
  Requests and the pump of a SABR session (\<open>sabrump/src/session.rs\<close>). The network, the clock and the
  other tasks are the environment of a turn: what the server answers as a function of the request, what
  each call of \<open>now_ms\<close> gives, and which calls the handle's holders make while the task waits.
\<close>

section \<open>Requests\<close>

record client_abr_state =
  ab_player_time_ms :: int
  ab_bandwidth_estimate :: int
  ab_network_latency_ms :: int
  ab_time_since_last_action_ms :: int
  ab_time_since_last_manual_format_selection_ms :: int
  ab_time_since_last_request_ms :: int
  ab_client_viewport_width :: int
  ab_client_viewport_height :: int
  ab_last_manual_selected_resolution :: int
  ab_sticky_resolution :: int
  ab_selected_quality_height :: int
  ab_enabled_track_types_bitfield :: int
  ab_last_manual_direction :: int
  ab_drc_enabled :: bool
  ab_visibility :: "int option"
  ab_prefer_vp9 :: "bool option"

record buffered_range =
  br_format_id :: format_id
  br_start_time_ms :: int
  br_duration_ms :: int
  br_start_segment_index :: int
  br_end_segment_index :: int
  br_time_range :: "time_range option"

record streamer_context =
  sx_client_info :: client_info
  sx_po_token :: bytes
  sx_playback_cookie :: bytes
  sx_sabr_contexts :: "(int \<times> bytes) list"
  sx_unsent_sabr_contexts :: "int list"

record abr_request =
  rq_client_abr_state :: client_abr_state
  rq_selected_format_ids :: "format_id list"
  rq_buffered_ranges :: "buffered_range list"
  rq_ustreamer_config :: bytes
  rq_preferred_audio_format_ids :: "format_id list"
  rq_preferred_video_format_ids :: "format_id list"
  rq_streamer_context :: streamer_context

definition to_format_id :: "sabr_format \<Rightarrow> format_id" where
  "to_format_id f = \<lparr>fid_itag = sf_itag f, fid_lmt = sf_last_modified f, fid_xtags = sf_xtags f\<rparr>"

definition complete_at :: "heap \<Rightarrow> track_buffer \<Rightarrow> int \<Rightarrow> bool" where
  "complete_at h b seq = (case buf_get b seq of Some a \<Rightarrow> sg_complete (h a) | None \<Rightarrow> False)"

function run_start :: "heap \<Rightarrow> track_buffer \<Rightarrow> int \<Rightarrow> int" where
  "run_start h b first =
     (if 0 < first \<and> complete_at h b (first - 1) then run_start h b (first - 1) else first)"
  by pat_completeness auto

termination by (relation "measure (\<lambda>(h, b, first). nat first)") auto

declare run_start.simps [simp del]

definition first_sequence_of_run :: "heap \<Rightarrow> track_buffer \<Rightarrow> int \<Rightarrow> int" where
  "first_sequence_of_run h b from_us =
     (let last' = last_completed_sequence h b from_us in
      if last' < 0 then max (lowest_sequence b) 1 else max (run_start h b last') 0)"

definition range_of_format :: "shared \<Rightarrow> sabr_format \<Rightarrow> buffered_range option" where
  "range_of_format sh f =
     (let st = sh_state sh; h = sh_heap sh; key = sabr_format_key f; b = self_buffer sh key in
      if st_format_initialization st key = None \<or> segment_count b = 0 then None
      else
        let from_us = demand_from_us h st b key;
            last_sequence = last_completed_sequence h b from_us
        in if last_sequence < 0 then None
           else
             let start_seq = first_sequence_of_run h b from_us in
             case buf_get b start_seq of
               None \<Rightarrow> None
             | Some first \<Rightarrow>
                 let start_us = sg_start_us (h first);
                     exact_end = (if sh_is_live sh then exact_end_from_sequence h b start_seq else NO_US);
                     end' = (if exact_end \<noteq> NO_US then exact_end else buffered_end_us h b from_us);
                     duration_us = (if end' = NO_US then 0 else max (i64 (end' - start_us)) 0);
                     scale = sg_timescale (h first)
                 in Some \<lparr>br_format_id = to_format_id f, br_start_time_ms = start_us sdiv 1000,
                          br_duration_ms = duration_us sdiv 1000, br_start_segment_index = start_seq,
                          br_end_segment_index = last_sequence,
                          br_time_range =
                            (if 0 < scale
                             then Some \<lparr>tr_start_ticks = sg_start_ticks (h first),
                                        tr_duration_ticks = us_to_ticks duration_us scale, tr_timescale = scale\<rparr>
                             else None)\<rparr>)"

definition max_by_height :: "sabr_format list \<Rightarrow> sabr_format option" where
  "max_by_height fs =
     foldl (\<lambda>best f. case best of
              None \<Rightarrow> Some f
            | Some m \<Rightarrow> if sf_height m \<le> sf_height f then Some f else Some m) None fs"

text \<open>\<open>MediaType::Audio\<close> is 1, \<open>MediaType::Video\<close> 2.\<close>

definition build_abr_state ::
  "int \<Rightarrow> int \<Rightarrow> shared \<Rightarrow> pump_local \<Rightarrow> sabr_format option \<Rightarrow> sabr_format option \<Rightarrow> int \<Rightarrow> client_abr_state" where
  "build_abr_state now latency sh l video audio position_ms =
     (let st = sh_state sh;
          bandwidth = (if 0 < pl_throughput_bytes_per_sec l then pl_throughput_bytes_per_sec l
                       else if 0 < st_initial_bandwidth st then st_initial_bandwidth st
                       else BANDWIDTH_ESTIMATE);
          alternates = (case st_video_demand st of Some d \<Rightarrow> dm_alternates d | None \<Rightarrow> []);
          abr = \<lparr>ab_player_time_ms = position_ms, ab_bandwidth_estimate = bandwidth,
                 ab_network_latency_ms = latency,
                 ab_time_since_last_action_ms = i64 (now - st_last_action_ms st),
                 ab_time_since_last_manual_format_selection_ms = i64 (now - sh_created_at_ms sh),
                 ab_time_since_last_request_ms =
                   (if 0 < st_last_request_ms st then i64 (now - st_last_request_ms st) else 0),
                 ab_client_viewport_width = 0, ab_client_viewport_height = 0,
                 ab_last_manual_selected_resolution = 0, ab_sticky_resolution = 0,
                 ab_selected_quality_height = 0, ab_enabled_track_types_bitfield = 0,
                 ab_last_manual_direction = 0, ab_drc_enabled = True, ab_visibility = Some 0,
                 ab_prefer_vp9 = Some False\<rparr>
      in case video of
           Some v \<Rightarrow>
             let cap = (case max_by_height alternates of Some f \<Rightarrow> f | None \<Rightarrow> v);
                 abr = abr\<lparr>ab_client_viewport_width :=
                             (if 0 < st_viewport_width st then st_viewport_width st else sf_width cap),
                           ab_client_viewport_height :=
                             (if 0 < st_viewport_height st then st_viewport_height st else sf_height cap)\<rparr>;
                 abr = (if length alternates \<le> 1
                        then abr\<lparr>ab_last_manual_selected_resolution := sf_height v,
                                 ab_sticky_resolution := sf_height v, ab_selected_quality_height := sf_height v\<rparr>
                        else abr)
             in if audio = None then abr\<lparr>ab_enabled_track_types_bitfield := 2\<rparr> else abr
         | None \<Rightarrow> if audio \<noteq> None then abr\<lparr>ab_enabled_track_types_bitfield := 1\<rparr> else abr)"

definition build_streamer_context :: "shared \<Rightarrow> streamer_context" where
  "build_streamer_context sh =
     (let st = sh_state sh; active = (\<lambda>c. fst c \<in> st_active_sabr_contexts st) in
      \<lparr>sx_client_info = sh_client_info sh,
       sx_po_token = (case sh_po_token_decoded sh of Some token \<Rightarrow> token | None \<Rightarrow> []),
       sx_playback_cookie = (case st_playback_cookie st of Some cookie \<Rightarrow> cookie | None \<Rightarrow> []),
       sx_sabr_contexts = filter active (st_sabr_contexts st),
       sx_unsent_sabr_contexts = map fst (filter (Not \<circ> active) (st_sabr_contexts st))\<rparr>)"

definition build_request ::
  "int \<Rightarrow> int \<Rightarrow> shared \<Rightarrow> pump_local \<Rightarrow> sabr_format option \<Rightarrow> sabr_format option \<Rightarrow> int \<Rightarrow> abr_request" where
  "build_request now latency sh l video audio position_ms =
     (let st = sh_state sh;
          video_alternates = (case st_video_demand st of Some d \<Rightarrow> dm_alternates d | None \<Rightarrow> []);
          audio_alternates = (case st_audio_demand st of Some d \<Rightarrow> dm_alternates d | None \<Rightarrow> []);
          preferred = (\<lambda>alternates f. map to_format_id
             (if alternates = [] then (case f of Some f \<Rightarrow> [f] | None \<Rightarrow> []) else alternates));
          held = (if video_alternates = [] \<and> audio_alternates = []
                  then List.map_filter id [video, audio] else video_alternates @ audio_alternates);
          ranges = List.map_filter (range_of_format sh) held
      in \<lparr>rq_client_abr_state = build_abr_state now latency sh l video audio position_ms,
          rq_selected_format_ids = map br_format_id ranges, rq_buffered_ranges = ranges,
          rq_ustreamer_config = sh_ustreamer_config sh,
          rq_preferred_audio_format_ids = preferred audio_alternates audio,
          rq_preferred_video_format_ids = preferred video_alternates video,
          rq_streamer_context = build_streamer_context sh\<rparr>)"

definition append_request_number :: "string \<Rightarrow> shared \<Rightarrow> string \<times> shared" where
  "append_request_number url sh =
     (let separator = (if CHR ''?'' \<in> set url then ''&'' else ''?'');
          rn = i32 (sh_request_number sh + 1)
      in (url @ separator @ ''rn='' @ dec_int rn, sh\<lparr>sh_request_number := rn\<rparr>))"

section \<open>After a response\<close>

definition update_progress :: "sabr_format option \<Rightarrow> int \<Rightarrow> shared \<Rightarrow> shared" where
  "update_progress f requested_us sh =
     (case f of
        None \<Rightarrow> sh
      | Some f \<Rightarrow>
          let key = sabr_format_key f; st = sh_state sh in
          case st_format_initialization st key of
            None \<Rightarrow> sh
          | Some m \<Rightarrow>
              if 0 < fi_end_segment_number m then sh
              else
                let end_us = (if 0 < fi_end_time_ms m then i64 (fi_end_time_ms m * 1000) else sh_duration_us sh);
                    buffered_end = buffered_end_from_front_us (sh_heap sh) (self_buffer sh key) in
                if 0 < end_us \<and> buffered_end < i64 (end_us - FRONTIER_EPSILON_US) then sh
                else if 0 < end_us \<and> requested_us < i64 (end_us - FRONTIER_EPSILON_US) then sh
                else if \<not> buffered_end \<le> i64 (requested_us + FRONTIER_EPSILON_US) then sh
                else
                  let n = i32 ((case st_format_no_progress st key of Some n \<Rightarrow> n | None \<Rightarrow> 0) + 1) in
                  upd (\<lambda>st.
                    let st = st\<lparr>st_format_no_progress := (st_format_no_progress st)(key \<mapsto> n)\<rparr> in
                    if NO_PROGRESS_THRESHOLD \<le> n
                    then st\<lparr>st_format_complete := insert key (st_format_complete st)\<rparr> else st) sh)"

definition evict_threshold :: "state \<Rightarrow> int" where
  "evict_threshold st =
     (let floor = (if st_restart_from_us st \<noteq> NO_US then st_restart_from_us st else st_playback_position_us st)
      in i64 (min (st_playback_position_us st) floor - st_keep_behind_us st))"

definition evict_consumed_segments :: "shared \<Rightarrow> shared" where
  "evict_consumed_segments sh =
     (let threshold = evict_threshold (sh_state sh) in
      if threshold \<le> 0 then sh else all_buffers (evict_before (sh_heap sh) threshold) sh)"

definition clear_seek_if_landed :: "shared \<Rightarrow> shared" where
  "clear_seek_if_landed sh =
     (case st_seek_pending_us (sh_state sh) of
        None \<Rightarrow> sh
      | Some p \<Rightarrow>
          if list_all (\<lambda>d. first_covering (sh_heap sh) (self_buffer sh (sabr_format_key (dm_format d))) p \<noteq> None)
               (demands (sh_state sh))
          then upd (\<lambda>st. st\<lparr>st_seek_pending_us := None\<rparr>) sh else sh)"

definition clamp_to_seekable_window :: "int \<Rightarrow> shared \<Rightarrow> shared" where
  "clamp_to_seekable_window now sh =
     (let st = sh_state sh; position = st_playback_position_us st in
      if st_seek_pending_us st \<noteq> None then sh
      else
        case Option.bind (st_live_metadata st) seekable_window of
          None \<Rightarrow> sh
        | Some (window_start, window_end) \<Rightarrow>
            if position < window_start then apply_sabr_seek now window_start sh
            else if i64 (window_end + SABR_SEEK_SLACK_US) < position then apply_sabr_seek now window_end sh
            else sh)"

definition record_throughput :: "int \<Rightarrow> int \<Rightarrow> int \<Rightarrow> pump_local \<Rightarrow> pump_local" where
  "record_throughput bs elapsed_ms media_us l =
     (if bs < THROUGHPUT_MIN_BYTES \<or> elapsed_ms \<le> 0 then l
      else if media_us < i64 (i64 (elapsed_ms * 1000) * THROUGHPUT_MIN_SPEEDUP) then l
      else
        let sample = i64 (bs * 1000) sdiv elapsed_ms; old = pl_throughput_bytes_per_sec l in
        l\<lparr>pl_throughput_bytes_per_sec :=
            (if old = 0 then sample
             else i64 (i64 (old * (100 - THROUGHPUT_SMOOTHING)) + i64 (sample * THROUGHPUT_SMOOTHING)) sdiv 100)\<rparr>)"

definition count_and_init :: "shared \<Rightarrow> sabr_format option \<Rightarrow> nat \<times> nat option" where
  "count_and_init sh f =
     (case f of
        Some f \<Rightarrow> let b = self_buffer sh (sabr_format_key f) in (segment_count b, tb_init b)
      | None \<Rightarrow> (0, None))"

definition advanced_for :: "shared \<Rightarrow> sabr_format option \<Rightarrow> nat \<times> nat option \<Rightarrow> bool" where
  "advanced_for sh f before =
     (case f of
        None \<Rightarrow> False
      | Some f \<Rightarrow>
          let b = self_buffer sh (sabr_format_key f) in
          fst before < segment_count b \<or> snd before = None \<and> tb_init b \<noteq> None)"

definition has_advanced :: "shared \<Rightarrow> sabr_format option \<Rightarrow> nat \<times> nat option \<Rightarrow> sabr_format option \<Rightarrow> nat \<times> nat option \<Rightarrow> bool" where
  "has_advanced sh video video_before audio audio_before \<longleftrightarrow>
     advanced_for sh video video_before \<or> advanced_for sh audio audio_before"

definition backoff_delay :: "int \<Rightarrow> int \<Rightarrow> int" where
  "backoff_delay base n = min (push_bit (min (nat (n - 1)) ERROR_BACKOFF_MAX_SHIFT) base) ERROR_BACKOFF_MAX_MS"

section \<open>One request\<close>

text \<open>
  The environment of a request. \<open>en_clock n\<close> is the result of the \<open>n\<close>-th call of \<open>now_ms\<close> outside the
  parts of the response, in program order; \<open>en_encode\<close> is \<open>encode_to_vec\<close>; \<open>en_fetch\<close> the transport, and
  \<open>en_fetch_calls\<close> what the holders of the handle call while it runs.
\<close>

record request_env =
  en_prost :: prost
  en_encode :: "abr_request \<Rightarrow> bytes"
  en_clock :: "nat \<Rightarrow> int"
  en_latency :: int
  en_fetch :: "string \<Rightarrow> bytes \<Rightarrow> (string \<times> string) list \<Rightarrow> sabr_error + int \<times> (io_error + bytes) list"
  en_fetch_calls :: "(int \<times> client_call) list"
  en_waits :: "nat \<Rightarrow> (int \<times> client_call) list \<times> int"

definition request_headers :: "(string \<times> string) list" where
  "request_headers =
     [(''Content-Type'', ''application/x-protobuf''), (''Accept'', ''application/vnd.yt-ump''),
      (''Accept-Encoding'', ''identity''), (''Origin'', ''https://www.youtube.com''),
      (''Referer'', ''https://www.youtube.com/'')]"

definition accepted_keys :: "state \<Rightarrow> format_key set" where
  "accepted_keys st = (\<Union>d \<in> set (demands st). sabr_format_key ` set (dm_alternates d))"

text \<open>The bytes a reader may still see; each part takes two of them at least.\<close>

definition bytes_left :: "ump_reader \<Rightarrow> nat" where
  "bytes_left r =
     length (ur_buf r) + sum_list (map (\<lambda>c. case c of Inr x \<Rightarrow> length x | Inl _ \<Rightarrow> 0) (ur_stream r))"

text \<open>The end of \<open>perform_request\<close>, when no restart interrupted the response.\<close>

definition conclude_vod ::
  "int \<Rightarrow> sabr_format option \<Rightarrow> sabr_format option \<Rightarrow> int \<Rightarrow> bool \<Rightarrow> bool \<Rightarrow> pump_local \<Rightarrow> shared \<Rightarrow>
    (pump_step + unit) \<times> pump_local \<times> shared" where
  "conclude_vod now video audio position_us advanced redirected l sh =
     (let aborting = st_aborting (sh_state sh);
          progress = (\<lambda>sh. update_progress audio position_us (update_progress video position_us sh));
          finished = (\<lambda>f. case f of None \<Rightarrow> True | Some f \<Rightarrow> is_complete (progress sh) f) in
      if \<not> advanced \<and> \<not> aborting \<and> \<not> redirected then
        (let sh = progress sh in
         if finished video \<and> finished audio then (Inr (), l, sh)
         else
           let substituted = pl_demanded_headers l = 0 \<and> 0 < pl_foreign_headers l;
               l = (if substituted
                    then l\<lparr>pl_substituted_responses := i32 (pl_substituted_responses l + 1)\<rparr> else l)
           in if substituted \<and> MAX_SUBSTITUTED_RESPONSES \<le> pl_substituted_responses l then
                (Inl (Fatal (FormatSubstituted (''server served a different format for '' @
                   dec_int (pl_substituted_responses l) @
                   '' consecutive requests; the caller's format list is out of sync''))), l, sh)
              else
                let l = l\<lparr>pl_empty_responses := i32 (pl_empty_responses l + 1)\<rparr>;
                    delay = backoff_delay EMPTY_BACKOFF_BASE_MS (pl_empty_responses l);
                    sh = upd (\<lambda>st. st\<lparr>st_backoff_until_ms := max (st_backoff_until_ms st) (i64 (now + delay))\<rparr>) sh
                in if MAX_EMPTY_RESPONSES \<le> pl_empty_responses l then
                     (Inl (StepError (Protocol (''server returned no media for '' @
                        dec_int (pl_empty_responses l) @ '' consecutive requests''))), l, sh)
                   else (Inr (), l, sh))
      else if \<not> aborting \<and> \<not> redirected then (Inr (), l, progress sh)
      else (Inr (), l, sh))"

definition conclude_live ::
  "int \<Rightarrow> int \<Rightarrow> bool \<Rightarrow> bool \<Rightarrow> pump_local \<Rightarrow> shared \<Rightarrow> (pump_step + unit) \<times> pump_local \<times> shared" where
  "conclude_live clamp_now now advanced redirected l sh =
     (let sh = (if \<not> st_aborting (sh_state sh) \<and> \<not> redirected
                then clamp_to_seekable_window clamp_now sh else sh);
          sh = (if \<not> advanced \<and> \<not> redirected
                then upd (\<lambda>st. st\<lparr>st_backoff_until_ms := max (st_backoff_until_ms st) (i64 (now + LIVE_POLL_MS))\<rparr>) sh
                else sh)
      in (Inr (), l, sh))"

definition conclude ::
  "request_env \<Rightarrow> int \<Rightarrow> sabr_format option \<Rightarrow> nat \<times> nat option \<Rightarrow> sabr_format option \<Rightarrow> nat \<times> nat option \<Rightarrow> int \<Rightarrow>
    bool \<Rightarrow> pump_local \<Rightarrow> shared \<Rightarrow> (pump_step + unit) \<times> pump_local \<times> shared" where
  "conclude env start_epoch video video_before audio audio_before position_us redirected l sh =
     (let sh = clear_seek_if_landed sh in
      if st_restart_epoch (sh_state sh) \<noteq> start_epoch
      then (Inr (), l\<lparr>pl_empty_responses := 0\<rparr>, all_buffers buf_clear sh)
      else
        let advanced = has_advanced sh video video_before audio audio_before;
            (l, sh) =
              (if advanced
               then (l\<lparr>pl_empty_responses := 0, pl_substituted_responses := 0, pl_consecutive_redirects := 0\<rparr>,
                     upd (\<lambda>st. st\<lparr>st_error_backoff_until_ms := 0,
                                  st_backoff_until_ms := st_server_backoff_until_ms st\<rparr>) sh)
               else (l, sh))
        in if sh_is_live sh then conclude_live (en_clock env 5) (en_clock env 6) advanced redirected l sh
           else conclude_vod (en_clock env 6) video audio position_us advanced redirected l sh)"

definition http_error :: "int \<Rightarrow> pump_step" where
  "http_error status =
     (if status = 403 then Fatal (Blocked ''SABR request returned HTTP 403'')
      else StepError (Http (''SABR request returned HTTP '' @ dec_int status)))"

text \<open>
  The second half of \<open>perform_request\<close>, from the answer of the transport on. \<open>None\<close> only when the fuel of
  \<open>consume\<close> runs out.
\<close>

definition receive ::
  "request_env \<Rightarrow> int \<Rightarrow> sabr_format option \<Rightarrow> nat \<times> nat option \<Rightarrow> sabr_format option \<Rightarrow> nat \<times> nat option \<Rightarrow>
    int option \<Rightarrow> int \<Rightarrow> sabr_error + int \<times> (io_error + bytes) list \<Rightarrow> pump_local \<Rightarrow> shared \<Rightarrow>
    ((pump_step + unit) \<times> pump_local \<times> shared) option" where
  "receive env start_epoch video video_before audio audio_before requested_resume position_us answer l sh =
     (case answer of
        Inl e \<Rightarrow> Some (Inl (StepError e), l, sh)
      | Inr (status, resp_body) \<Rightarrow>
          if sh_released sh then Some (Inl Idle, l, sh)
          else if \<not> (200 \<le> status \<and> status < 300) then Some (Inl (http_error status), l, sh)
          else
            let sh = upd (\<lambda>st. if st_resume_position_us st = requested_resume
                               then st\<lparr>st_resume_position_us := None\<rparr> else st) sh;
                reader = ump_reader_new resp_body
            in case consume (en_prost env) (en_waits env) (en_clock env 3) (Suc (bytes_left reader)) reader
                      position_us (accepted_keys (sh_state sh)) start_epoch l sh of
                 None \<Rightarrow> None
               | Some (res, l', sh) \<Rightarrow>
                   let l = record_throughput (i64 (pl_media_bytes l' - pl_media_bytes l))
                         (i64 (en_clock env 4 - en_clock env 2))
                         (i64 (pl_media_us_delivered l' - pl_media_us_delivered l)) l' in
                   Some (case res of
                     Inl e \<Rightarrow> (Inl e, l, sh)
                   | Inr redirected \<Rightarrow>
                       conclude env start_epoch video video_before audio audio_before position_us redirected l sh))"

definition perform_request ::
  "request_env \<Rightarrow> pump_local \<Rightarrow> shared \<Rightarrow> ((pump_step + unit) \<times> pump_local \<times> shared) option" where
  "perform_request env l sh =
     (let sh = upd (\<lambda>st. st\<lparr>st_aborting := False\<rparr>) sh;
          start_epoch = st_restart_epoch (sh_state sh);
          video = map_option dm_format (st_video_demand (sh_state sh));
          audio = map_option dm_format (st_audio_demand (sh_state sh)) in
      if video = None \<and> audio = None then Some (Inl Idle, l, sh)
      else
        let requested_resume = st_resume_position_us (sh_state sh);
            position_us = request_position_us sh;
            streaming_url = st_streaming_url (sh_state sh);
            l = l\<lparr>pl_demanded_headers := 0, pl_foreign_headers := 0\<rparr>;
            body = en_encode env
              (build_request (en_clock env 0) (en_latency env) sh l video audio (position_us sdiv 1000));
            (url, sh) = append_request_number streaming_url sh;
            video_before = count_and_init sh video;
            audio_before = count_and_init sh audio;
            sh = upd (\<lambda>st. st\<lparr>st_last_request_ms := en_clock env 1\<rparr>) sh;
            answer = en_fetch env url body request_headers;
            sh = clients (en_fetch_calls env) sh
        in receive env start_epoch video video_before audio audio_before requested_resume position_us answer l sh)"

section \<open>The pump\<close>

text \<open>
  Waiting for a demand: one list of calls per turn of the waiting loop. \<open>None\<close> while it still waits.
\<close>

fun await_demand :: "(int \<times> client_call) list list \<Rightarrow> shared \<Rightarrow> shared option" where
  "await_demand turns sh =
     (if sh_released sh \<or> needs_data sh then Some sh
      else case turns of [] \<Rightarrow> None | calls # turns \<Rightarrow> await_demand turns (clients calls sh))"

declare await_demand.simps [simp del]

record pump_env =
  pe_turns :: "(int \<times> client_call) list list"
  pe_now :: int
  pe_backoff_calls :: "(int \<times> client_call) list"
  pe_request :: request_env
  pe_error_now :: int

text \<open>
  Backoff: the events for the listener, sent when the lock is free again, and how long to wait, if at
  all.
\<close>

definition honour_backoff :: "int \<Rightarrow> pump_local \<Rightarrow> shared \<Rightarrow> session_event list \<times> int option \<times> pump_local" where
  "honour_backoff now l sh =
     (let st = sh_state sh;
          wait_ms = i64 (st_backoff_until_ms st - now);
          server_wait_ms = i64 (st_server_backoff_until_ms st - now) in
      if 0 < wait_ms then
        (let (evs, l) =
           (if 0 < server_wait_ms then
              if \<not> pl_backoff_notified l then
                if starved sh
                then ([EvBackoff server_wait_ms], l\<lparr>pl_backoff_notified := True, pl_backoff_shown := True\<rparr>)
                else ([], l\<lparr>pl_backoff_notified := True\<rparr>)
              else ([], l)
            else if 1000 < i64 (now - pl_last_wait_log_ms l) then ([], l\<lparr>pl_last_wait_log_ms := now\<rparr>)
            else ([], l))
         in (evs, Some (max (min wait_ms PUMP_IDLE_POLL_MS) 0), l))
      else if pl_backoff_notified l then
        (let l = l\<lparr>pl_backoff_notified := False\<rparr> in
         if pl_backoff_shown l then ([EvBackoffEnded], None, l\<lparr>pl_backoff_shown := False\<rparr>) else ([], None, l))
      else ([], None, l))"

definition pump_once :: "pump_env \<Rightarrow> pump_local \<Rightarrow> shared \<Rightarrow> ((pump_step + unit) \<times> pump_local \<times> shared) option" where
  "pump_once env l sh =
     (case await_demand (pe_turns env) sh of
        None \<Rightarrow> None
      | Some sh \<Rightarrow>
          if sh_released sh then Some (Inl Idle, l, sh)
          else
            let (evs, wait, l) = honour_backoff (pe_now env) l sh; sh = fold emit evs sh in
            case wait of
              Some _ \<Rightarrow> Some (Inl Backoff, l, clients (pe_backoff_calls env) sh)
            | None \<Rightarrow> perform_request (pe_request env) l (evict_consumed_segments sh))"

definition set_fatal :: "sabr_error \<Rightarrow> shared \<Rightarrow> shared" where
  "set_fatal e sh =
     all_buffers notify_changed
       (emit (EvSessionError e) (upd (\<lambda>st. st\<lparr>st_fatal := Some (sabr_error_display e)\<rparr>) sh))"

text \<open>What the pump does with the outcome of a turn; the flag tells that it returns.\<close>

definition pump_outcome :: "int \<Rightarrow> pump_step + unit \<Rightarrow> pump_local \<Rightarrow> shared \<Rightarrow> bool \<times> pump_local \<times> shared" where
  "pump_outcome now res l sh =
     (case res of
        Inr _ \<Rightarrow> (False, l\<lparr>pl_consecutive_errors := 0\<rparr>, upd (\<lambda>st. st\<lparr>st_aborting := False\<rparr>) sh)
      | Inl Idle \<Rightarrow> (False, l, sh)
      | Inl Backoff \<Rightarrow> (False, l, sh)
      | Inl (Fatal e) \<Rightarrow> (True, l, set_fatal e sh)
      | Inl (StepError e) \<Rightarrow>
          if sh_released sh then (True, l, sh)
          else
            let sh = emit (EvSessionError e) sh;
                l = l\<lparr>pl_consecutive_errors := i32 (pl_consecutive_errors l + 1)\<rparr>
            in if MAX_CONSECUTIVE_ERRORS \<le> pl_consecutive_errors l then (True, l, set_fatal e sh)
               else
                 let delay = backoff_delay ERROR_BACKOFF_BASE_MS (pl_consecutive_errors l) in
                 (False, l, upd (\<lambda>st. st\<lparr>st_error_backoff_until_ms := i64 (now + delay),
                    st_backoff_until_ms := max (st_server_backoff_until_ms st) (i64 (now + delay))\<rparr>) sh))"

text \<open>
  Turns of the pump: the result is whether it returned. \<open>None\<close> when a turn still waits for a demand.
\<close>

fun pump_turns :: "pump_env list \<Rightarrow> pump_local \<Rightarrow> shared \<Rightarrow> (bool \<times> pump_local \<times> shared) option" where
  "pump_turns [] l sh = Some (sh_released sh, l, sh)"
| "pump_turns (env # envs) l sh =
     (if sh_released sh then Some (True, l, sh)
      else case pump_once env l sh of
             None \<Rightarrow> None
           | Some (res, l, sh) \<Rightarrow>
               case pump_outcome (pe_error_now env) res l sh of
                 (True, l, sh) \<Rightarrow> Some (True, l, sh)
               | (False, l, sh) \<Rightarrow> pump_turns envs l sh)"

definition run :: "pump_env list \<Rightarrow> shared \<Rightarrow> (bool \<times> shared) option" where
  "run envs sh =
     (if sh_released sh \<or> st_fatal (sh_state sh) \<noteq> None then Some (True, sh)
      else map_option (\<lambda>(ended, l, sh). (ended, sh)) (pump_turns envs pump_local_default sh))"

end
