(* ===== verification/Sabr_Proofs.thy ===== *)
theory Sabr_Proofs
  imports Sabr_Pump
begin

text \<open>
  Properties of the SABR session: what a response leaves in the buffers, that every response is
  consumed, what a request claims to hold, server seeks, restarts, the adopted formats and the pump's
  patience with errors.
\<close>

section \<open>Quiet steps\<close>

text \<open>
  Steps that create no segment: identities stay, a complete segment stays complete, no buffer gains an
  entry. Everything other than a media header is one.
\<close>

definition held :: "track_buffer \<Rightarrow> nat set" where
  "held b = snd ` set (tb_segments b) \<union> set_option (tb_init b)"

definition same_identity :: "segment \<Rightarrow> segment \<Rightarrow> bool" where
  "same_identity s s' \<longleftrightarrow>
     sg_sequence_number s' = sg_sequence_number s \<and> sg_is_init s' = sg_is_init s \<and>
     sg_format_key s' = sg_format_key s \<and> (sg_complete s \<longrightarrow> sg_complete s') \<and>
     ((sg_frozen s \<noteq> None \<longrightarrow> sg_complete s) \<longrightarrow> (sg_frozen s' \<noteq> None \<longrightarrow> sg_complete s'))"

definition shrunk :: "track_buffer \<Rightarrow> track_buffer \<Rightarrow> bool" where
  "shrunk b b' \<longleftrightarrow>
     set (tb_segments b') \<subseteq> set (tb_segments b) \<and> set_option (tb_init b') \<subseteq> set_option (tb_init b) \<and>
     (sorted_map (tb_segments b) \<longrightarrow> sorted_map (tb_segments b'))"

definition quiet :: "shared \<Rightarrow> shared \<Rightarrow> bool" where
  "quiet sh sh' \<longleftrightarrow>
     sh_next sh' = sh_next sh \<and> (\<forall>a. same_identity (sh_heap sh a) (sh_heap sh' a)) \<and>
     (\<forall>k. shrunk (self_buffer sh k) (self_buffer sh' k))"

named_theorems quiet_intros \<open>steps that are quiet\<close>

lemma shrunk_refl [simp]: "shrunk b b"
  by (simp add: shrunk_def)

lemma same_identity_refl [simp]: "same_identity s s"
  by (simp add: same_identity_def)

lemma quiet_refl [quiet_intros, simp]: "quiet sh sh"
  by (simp add: quiet_def)

lemma shrunk_trans: "shrunk b b' \<Longrightarrow> shrunk b' b'' \<Longrightarrow> shrunk b b''"
  unfolding shrunk_def by (meson subset_trans)

lemma same_identity_trans: "same_identity s s' \<Longrightarrow> same_identity s' s'' \<Longrightarrow> same_identity s s''"
  by (simp add: same_identity_def)

lemma quiet_trans [trans]: "quiet sh sh' \<Longrightarrow> quiet sh' sh'' \<Longrightarrow> quiet sh sh''"
  unfolding quiet_def by (metis shrunk_trans same_identity_trans)

lemma shrunk_simps [simp]:
  "shrunk b (notify_changed b)" "shrunk b (buf_clear b)"
  by (auto simp: shrunk_def notify_changed_def buf_clear_def)

lemma shrunk_discard [simp]: "shrunk b (notify_changed (discard h a b))" "shrunk b (discard h a b)"
  by (auto simp: shrunk_def discard_def notify_changed_def map_remove_def intro: wf_intros)

lemma shrunk_evict [simp]: "shrunk b (evict_before h p b)"
  by (auto simp: shrunk_def evict_before_def intro: wf_intros)

lemma same_identity_simps [simp]:
  "same_identity s (set_duration us exact s)" "same_identity s (seg_append bs s)"
  "same_identity s (mark_complete s)"
  by (auto simp: same_identity_def set_duration_def seg_append_def mark_complete_def freeze_def split: option.splits)

lemma self_buffer_simps [simp]:
  "self_buffer (set_buffer key b sh) k = (if k = key then b else self_buffer sh k)"
  "self_buffer (upd f sh) k = self_buffer sh k"
  "self_buffer (emit ev sh) k = self_buffer sh k"
  "self_buffer (self_notify sh) k = self_buffer sh k"
  "self_buffer (upd_segment a g sh) k = self_buffer sh k"
  "self_buffer (sh\<lparr>sh_state := st\<rparr>) k = self_buffer sh k"
  "self_buffer (sh\<lparr>sh_listener := l\<rparr>) k = self_buffer sh k"
  "self_buffer (sh\<lparr>sh_released := l\<rparr>) k = self_buffer sh k"
  "self_buffer (sh\<lparr>sh_request_number := n\<rparr>) k = self_buffer sh k"
  "self_buffer (sh\<lparr>sh_server_seek_generation := g'\<rparr>) k = self_buffer sh k"
  by (simp_all add: self_buffer_def set_buffer_def upd_def emit_def self_notify_def upd_segment_def update_conv')

lemma set_buffer_simps [simp]:
  "sh_next (set_buffer key b sh) = sh_next sh" "sh_heap (set_buffer key b sh) = sh_heap sh"
  "sh_state (set_buffer key b sh) = sh_state sh"
  "sh_next (upd f sh) = sh_next sh" "sh_heap (upd f sh) = sh_heap sh" "sh_state (upd f sh) = f (sh_state sh)"
  "sh_next (emit ev sh) = sh_next sh" "sh_heap (emit ev sh) = sh_heap sh" "sh_state (emit ev sh) = sh_state sh"
  "sh_next (self_notify sh) = sh_next sh" "sh_heap (self_notify sh) = sh_heap sh"
  "sh_state (self_notify sh) = sh_state sh"
  "sh_next (upd_segment a g sh) = sh_next sh" "sh_state (upd_segment a g sh) = sh_state sh"
  "sh_heap (upd_segment a g sh) = (sh_heap sh)(a := g (sh_heap sh a))"
  "sh_next (all_buffers t sh) = sh_next sh" "sh_heap (all_buffers t sh) = sh_heap sh"
  "sh_state (all_buffers t sh) = sh_state sh"
  "sh_released (set_buffer key b sh) = sh_released sh" "sh_released (upd f sh) = sh_released sh"
  "sh_released (emit ev sh) = sh_released sh" "sh_released (self_notify sh) = sh_released sh"
  "sh_released (upd_segment a g sh) = sh_released sh" "sh_released (all_buffers t sh) = sh_released sh"
  by (simp_all add: set_buffer_def upd_def emit_def self_notify_def upd_segment_def all_buffers_def)

lemma self_buffer_all:
  "self_buffer (all_buffers f sh) k =
     (if map_of (sh_buffers sh) k = None then track_buffer_new k else f (self_buffer sh k))"
proof -
  have "map_of (map (\<lambda>(k, b). (k, f b)) m) k = map_option f (map_of m k)" for m
    by (induction m) auto
  then show ?thesis by (simp add: self_buffer_def all_buffers_def split: option.split)
qed

lemma quiet_upd [quiet_intros, simp]: "quiet sh (upd f sh)"
  by (simp add: quiet_def)

lemma quiet_emit [quiet_intros, simp]: "quiet sh (emit ev sh)"
  by (simp add: quiet_def)

lemma quiet_self_notify [quiet_intros, simp]: "quiet sh (self_notify sh)"
  by (simp add: quiet_def)

lemma quiet_state [simp]: "quiet sh (sh\<lparr>sh_state := st\<rparr>)"
  by (simp add: quiet_def)

lemma quiet_fields [simp]:
  "quiet sh (sh\<lparr>sh_listener := l\<rparr>)" "quiet sh (sh\<lparr>sh_released := r\<rparr>)" "quiet sh (sh\<lparr>sh_request_number := n\<rparr>)"
  "quiet sh (sh\<lparr>sh_server_seek_generation := g\<rparr>)"
  by (simp_all add: quiet_def)

lemma quiet_all [quiet_intros]:
  assumes "\<And>b. shrunk b (f b)"
  shows "quiet sh (all_buffers f sh)"
  using assms by (auto simp: quiet_def self_buffer_all) (simp add: self_buffer_def)

lemma quiet_upd_buffer [quiet_intros]: "shrunk (self_buffer sh key) (f (self_buffer sh key)) \<Longrightarrow> quiet sh (upd_buffer key f sh)"
  by (simp add: quiet_def upd_buffer_def)

lemma quiet_upd_segment [quiet_intros]: "same_identity (sh_heap sh a) (f (sh_heap sh a)) \<Longrightarrow> quiet sh (upd_segment a f sh)"
  by (simp add: quiet_def)

lemma quiet_fold [quiet_intros]:
  assumes "\<And>x sh. x \<in> set xs \<Longrightarrow> quiet sh (f x sh)"
  shows "quiet sh (fold f xs sh)"
  using assms
proof (induction xs arbitrary: sh)
  case (Cons x xs)
  have "quiet sh (f x sh)" using Cons.prems by simp
  also have "quiet (f x sh) (fold f xs (f x sh))" using Cons by simp
  finally show ?case by simp
qed simp

lemma quiet_then: "quiet sh sh' \<Longrightarrow> quiet sh' (g sh') \<Longrightarrow> quiet sh (g sh')"
  by (rule quiet_trans)

lemma quiet_release [quiet_intros]: "quiet sh (release sh)"
proof -
  have "quiet sh (self_notify (sh\<lparr>sh_released := True\<rparr>))" by (rule quiet_trans [OF _ quiet_self_notify]) simp
  also have "quiet (self_notify (sh\<lparr>sh_released := True\<rparr>)) (all_buffers notify_changed (self_notify (sh\<lparr>sh_released := True\<rparr>)))"
    by (rule quiet_all) simp
  also have "quiet \<dots> (\<dots>\<lparr>sh_listener := False\<rparr>)" by simp
  finally show ?thesis by (simp add: release_def)
qed

lemma quiet_restart [quiet_intros]: "quiet sh (fst (restart now p force sh))"
proof -
  have "quiet sh (self_notify ((all_buffers buf_clear sh)\<lparr>sh_state := st\<rparr>))" for st
  proof -
    have "quiet sh (all_buffers buf_clear sh)" by (rule quiet_all) simp
    also have "quiet \<dots> (\<dots>\<lparr>sh_state := st\<rparr>)" by simp
    also have "quiet \<dots> (self_notify \<dots>)" by simp
    finally show ?thesis .
  qed
  then show ?thesis by (simp add: restart_def Let_def)
qed

lemma quiet_client [quiet_intros]: "quiet sh (client call sh)"
proof (cases call)
  case (Pair now c)
  have notified: "quiet sh (self_notify (sh\<lparr>sh_state := st\<rparr>))" for st
    by (rule quiet_trans [OF quiet_state quiet_self_notify])
  show ?thesis
  proof (cases c)
    case (SeekTo p)
    with Pair notified quiet_restart show ?thesis by (simp add: seek_to_def Let_def)
  next
    case (SetDemandAlternates r fs p)
    with Pair notified show ?thesis by (simp add: set_demand_alternates_def Let_def)
  next
    case (AdvanceDemand r p)
    with Pair quiet_trans [OF quiet_upd quiet_self_notify] show ?thesis
      by (simp add: advance_demand_def split: option.split)
  qed (use Pair in \<open>simp_all add: set_listener_def set_viewport_def set_initial_bandwidth_def clear_demand_def
        set_playback_position_def quiet_intros\<close>)
qed

lemma quiet_clients [quiet_intros]: "quiet sh (clients calls sh)"
  unfolding clients_def by (intro quiet_intros)

lemma quiet_apply_sabr_seek [quiet_intros]: "quiet sh (apply_sabr_seek now p sh)"
proof -
  have "quiet sh (self_notify ((all_buffers buf_clear (sh\<lparr>sh_state := st\<rparr>))\<lparr>sh_server_seek_generation := g\<rparr>))" for st g
  proof -
    have "quiet sh (sh\<lparr>sh_state := st\<rparr>)" by simp
    also have "quiet \<dots> (all_buffers buf_clear \<dots>)" by (rule quiet_all) simp
    also have "quiet \<dots> (\<dots>\<lparr>sh_server_seek_generation := g\<rparr>)" by simp
    also have "quiet \<dots> (self_notify \<dots>)" by simp
    finally show ?thesis .
  qed
  then show ?thesis by (simp add: apply_sabr_seek_def Let_def split: seek_verdict.split)
qed

lemma quiet_back_patch [quiet_intros]: "quiet sh (back_patch_previous key seq start sh)"
  by (simp add: back_patch_previous_def Let_def quiet_upd_segment split: option.split)

lemma quiet_reestimate [quiet_intros]: "quiet sh (reestimate_segment key a sh)"
proof -
  have "quiet sh (case buf_get b n of Some nx \<Rightarrow> back_patch_previous key (f nx) (g nx) sh | None \<Rightarrow> sh)" for b n f g
    by (simp add: quiet_back_patch split: option.split)
  from quiet_trans [OF this quiet_upd_segment] this show ?thesis
    by (simp add: reestimate_segment_def Let_def)
qed

lemma quiet_on_live_metadata [quiet_intros]: "quiet sh (on_live_metadata m sh)"
proof -
  have r: "quiet sh (reestimate_inexact_durations sh)" for sh
    unfolding reestimate_inexact_durations_def by (intro quiet_fold) (auto intro: quiet_intros)
  have "quiet sh (emit ev (reestimate_inexact_durations (sh\<lparr>sh_state := st\<rparr>)))" for st ev
    by (rule quiet_trans [OF quiet_state]) (rule quiet_trans [OF r quiet_emit])
  moreover have "quiet sh (emit ev (sh\<lparr>sh_state := st\<rparr>))" for st ev
    by (rule quiet_trans [OF quiet_state quiet_emit])
  ultimately show ?thesis by (simp add: on_live_metadata_def Let_def)
qed

section \<open>What a response leaves behind\<close>

definition open_at :: "pending \<Rightarrow> nat \<Rightarrow> format_key \<Rightarrow> bool" where
  "open_at pend a k \<longleftrightarrow> (\<exists>hid. (hid, a, k) \<in> set pend)"

text \<open>
  Every entry of a buffer is a segment of that buffer, under its own number, and complete unless it is
  still open. Addresses are in use, and a frozen payload means a complete segment.
\<close>

definition media_inv :: "pending \<Rightarrow> shared \<Rightarrow> bool" where
  "media_inv pend sh \<longleftrightarrow>
     (\<forall>k. buf_wf (sh_heap sh) (self_buffer sh k)) \<and>
     (\<forall>k. \<forall>a \<in> held (self_buffer sh k). a < sh_next sh \<and> sg_format_key (sh_heap sh a) = k \<and>
        (sg_complete (sh_heap sh a) \<or> open_at pend a k)) \<and>
     (\<forall>(hid, a, k) \<in> set pend. a < sh_next sh) \<and> sorted_map pend \<and>
     (\<forall>a. sg_frozen (sh_heap sh a) \<noteq> None \<longrightarrow> sg_complete (sh_heap sh a))"

abbreviation settled :: "shared \<Rightarrow> bool" where
  "settled \<equiv> media_inv []"

lemma held_shrunk: "shrunk b b' \<Longrightarrow> held b' \<subseteq> held b"
  unfolding shrunk_def held_def by blast

lemma buf_wf_shrunk:
  assumes "buf_wf h b" and "shrunk b b'" and "\<And>a. same_identity (h a) (h' a)"
  shows "buf_wf h' b'"
proof -
  have id: "sg_sequence_number (h' a) = sg_sequence_number (h a)" "sg_is_init (h' a) = sg_is_init (h a)" for a
    using assms(3) [of a] by (simp_all add: same_identity_def)
  show ?thesis
    using assms(1,2) unfolding buf_wf_def shrunk_def by (auto simp: id)
qed

lemma media_inv_quiet:
  assumes "media_inv pend sh" and "quiet sh sh'"
  shows "media_inv pend sh'"
proof -
  have id: "same_identity (sh_heap sh a) (sh_heap sh' a)" and sk: "shrunk (self_buffer sh k) (self_buffer sh' k)"
    and nx: "sh_next sh' = sh_next sh" for a k
    using assms(2) by (simp_all add: quiet_def)
  have "buf_wf (sh_heap sh') (self_buffer sh' k)" for k
    using assms(1) by (intro buf_wf_shrunk [OF _ sk id]) (simp add: media_inv_def)
  moreover have "a < sh_next sh' \<and> sg_format_key (sh_heap sh' a) = k \<and> (sg_complete (sh_heap sh' a) \<or> open_at pend a k)"
    if "a \<in> held (self_buffer sh' k)" for a k
    using that held_shrunk [OF sk, of k] assms(1) id [of a] nx
    by (auto simp: media_inv_def same_identity_def)
  moreover have "sg_complete (sh_heap sh' a)" if "sg_frozen (sh_heap sh' a) \<noteq> None" for a
    using that assms(1) id [of a] by (auto simp: media_inv_def same_identity_def)
  ultimately show ?thesis using assms(1) nx unfolding media_inv_def by auto
qed

lemma mark_complete_done: "sg_frozen s \<noteq> None \<longrightarrow> sg_complete s \<Longrightarrow> sg_complete (mark_complete s)"
  by (auto simp: mark_complete_def freeze_def split: option.split)

lemma held_simps [simp]: "held (notify_changed b) = held b"
  by (simp add: held_def notify_changed_def)

lemma discard_drops:
  assumes "buf_wf h b" and "\<not> sg_complete (h a)"
  shows "a \<notin> held (discard h a b)"
proof
  assume held: "a \<in> held (discard h a b)"
  have mem: "map_of (tb_segments b) s = Some c" if "(s, c) \<in> set (tb_segments b)" for s c
    using assms(1) that by (simp add: buf_wf_def sorted_map_def)
  consider "tb_init (discard h a b) = Some a" | s where "(s, a) \<in> set (tb_segments (discard h a b))"
    using held by (auto simp: held_def)
  then show False
  proof cases
    case 1
    then show False
      using assms by (auto simp: discard_def notify_changed_def buf_wf_def split: if_splits)
  next
    case 2
    then have m: "(s, a) \<in> set (tb_segments b)"
      by (auto simp: discard_def notify_changed_def map_remove_def split: if_splits)
    with assms(1) have "s = sg_sequence_number (h a)" "\<not> sg_is_init (h a)" by (auto simp: buf_wf_def)
    with mem [OF m] 2 assms(2) show False
      by (auto simp: discard_def notify_changed_def map_remove_def split: if_splits)
  qed
qed

lemma held_discard: "held (discard h a b) \<subseteq> held b"
  by (rule held_shrunk) simp

lemma map_insert_keeps: "map_of m k = None \<Longrightarrow> set (map_insert k v m) = insert (k, v) (set m)"
  by (induction m) (auto split: if_splits)

text \<open>Closing a header: the segment is complete or gone from its buffer.\<close>

lemma media_inv_closed:
  assumes "media_inv pend sh" and "(hid, a, key) \<in> set pend"
    and "sg_complete (sh_heap sh a) \<or> a \<notin> held (self_buffer sh key)"
  shows "media_inv (map_remove hid pend) sh"
proof -
  have other: "open_at (map_remove hid pend) c k"
    if "open_at pend c k" "\<not> sg_complete (sh_heap sh c)" "c \<in> held (self_buffer sh k)" for c k
  proof -
    from that(1) obtain hid' where h: "(hid', c, k) \<in> set pend" by (auto simp: open_at_def)
    have "hid' \<noteq> hid"
    proof
      assume "hid' = hid"
      then have "(c, k) = (a, key)" using h assms(1,2) by (auto simp: media_inv_def sorted_map_def dest: eq_key_imp_eq_value)
      with that assms(3) show False by auto
    qed
    with h show ?thesis by (auto simp: open_at_def map_remove_def)
  qed
  have "sorted_map (map_remove hid pend)" using assms(1) by (intro wf_intros) (simp add: media_inv_def)
  moreover have "set (map_remove hid pend) \<subseteq> set pend" by (auto simp: map_remove_def)
  moreover have "a < sh_next sh \<and> sg_format_key (sh_heap sh a) = k \<and>
      (sg_complete (sh_heap sh a) \<or> open_at (map_remove hid pend) a k)" if "a \<in> held (self_buffer sh k)" for a k
    using assms(1) that other [of a k] unfolding media_inv_def by blast
  ultimately show ?thesis using assms(1) unfolding media_inv_def by blast
qed

lemma on_media_end_inv:
  assumes "media_inv pend sh"
  shows "case on_media_end data pend sh of (pend', sh') \<Rightarrow> media_inv pend' sh'"
proof (cases "map_of pend (i32 (fst (decode_varint data 0)))")
  case None
  with assms show ?thesis by (simp add: on_media_end_def Let_def)
next
  case (Some ak)
  obtain a key where ak: "ak = (a, key)" by (cases ak)
  define hid where "hid = i32 (fst (decode_varint data 0))"
  have mem: "(hid, a, key) \<in> set pend" using Some by (simp add: ak hid_def map_of_SomeD)
  have 1: "media_inv (map_remove hid pend) (upd_buffer key (discard (sh_heap sh) a) sh)"
  proof (rule media_inv_closed [OF media_inv_quiet [OF assms] mem])
    show "quiet sh (upd_buffer key (discard (sh_heap sh) a) sh)" by (intro quiet_intros) simp
    have "buf_wf (sh_heap sh) (self_buffer sh key)" using assms by (simp add: media_inv_def)
    from discard_drops [OF this] show "sg_complete (sh_heap (upd_buffer key (discard (sh_heap sh) a) sh) a) \<or>
        a \<notin> held (self_buffer (upd_buffer key (discard (sh_heap sh) a) sh) key)"
      by (auto simp: upd_buffer_def)
  qed
  have 2: "media_inv (map_remove hid pend) (upd_buffer key notify_changed (upd_segment a mark_complete sh))"
  proof (rule media_inv_closed [OF media_inv_quiet [OF assms] mem])
    show "quiet sh (upd_buffer key notify_changed (upd_segment a mark_complete sh))"
      by (rule quiet_trans [OF quiet_upd_segment quiet_upd_buffer]) simp_all
    have "sg_complete (mark_complete (sh_heap sh a))"
      using assms by (intro mark_complete_done) (simp add: media_inv_def)
    then show "sg_complete (sh_heap (upd_buffer key notify_changed (upd_segment a mark_complete sh)) a) \<or>
        a \<notin> held (self_buffer (upd_buffer key notify_changed (upd_segment a mark_complete sh)) key)"
      by (simp add: upd_buffer_def)
  qed
  show ?thesis
    using 1 2 Some by (simp add: on_media_end_def Let_def ak hid_def)
qed

text \<open>A new segment under a header id that is not open.\<close>

lemma media_inv_alloc:
  assumes "media_inv pend sh" and "map_of pend hid = None" and "alloc_segment s sh = (a, sh')"
    and "sg_frozen s = None"
  shows "media_inv (map_insert hid (a, key) pend) sh'"
proof -
  have a: "a = sh_next sh" and sh': "sh_next sh' = Suc (sh_next sh)" "sh_heap sh' = (sh_heap sh)(a := s)"
    "self_buffer sh' k = self_buffer sh k" for k
    using assms(3) by (auto simp: alloc_segment_def self_buffer_def)
  have fresh: "c \<noteq> a" if "c \<in> held (self_buffer sh k)" for c k
    using that assms(1) by (auto simp: media_inv_def a)
  have "buf_wf (sh_heap sh') (self_buffer sh' k)" for k
  proof (rule buf_wf_heap)
    show "buf_wf (sh_heap sh) (self_buffer sh' k)" using assms(1) by (simp add: media_inv_def sh')
    fix c
    assume "c \<in> snd ` set (tb_segments (self_buffer sh' k)) \<or> tb_init (self_buffer sh' k) = Some c"
    then have "c \<in> held (self_buffer sh k)" by (auto simp: sh' held_def)
    then have "c \<noteq> a" by (rule fresh)
    then show "sg_sequence_number (sh_heap sh' c) = sg_sequence_number (sh_heap sh c) \<and>
        sg_is_init (sh_heap sh' c) = sg_is_init (sh_heap sh c)" by (simp add: sh')
  qed
  moreover have "c < sh_next sh' \<and> sg_format_key (sh_heap sh' c) = k \<and>
      (sg_complete (sh_heap sh' c) \<or> open_at (map_insert hid (a, key) pend) c k)"
    if "c \<in> held (self_buffer sh' k)" for c k
  proof -
    from that have c: "c \<in> held (self_buffer sh k)" by (simp add: sh')
    with assms(1) have "c < sh_next sh \<and> sg_format_key (sh_heap sh c) = k \<and> (sg_complete (sh_heap sh c) \<or> open_at pend c k)"
      by (auto simp: media_inv_def)
    with fresh [OF c] show ?thesis
      by (auto simp: sh' open_at_def map_insert_keeps [OF assms(2)])
  qed
  moreover have "\<forall>(hid', c, k) \<in> set (map_insert hid (a, key) pend). c < sh_next sh'"
    using assms(1) by (auto simp: media_inv_def map_insert_keeps [OF assms(2)] sh' a)
  moreover have "sorted_map (map_insert hid (a, key) pend)"
    using assms(1) by (intro wf_intros) (simp add: media_inv_def)
  moreover have "sg_frozen (sh_heap sh' c) \<noteq> None \<longrightarrow> sg_complete (sh_heap sh' c)" for c
    using assms(1,4) by (simp add: media_inv_def sh')
  ultimately show ?thesis unfolding media_inv_def by blast
qed

lemma media_inv_announce:
  assumes "media_inv pend sh" and "(hid, a, key) \<in> set pend" and "sg_format_key (sh_heap sh a) = key"
  shows "media_inv pend (upd_buffer key (announce (sh_heap sh) a) sh)"
proof -
  let ?b = "announce (sh_heap sh) a (self_buffer sh key)"
  have h: "held ?b \<subseteq> insert a (held (self_buffer sh key))"
    using set_map_insert_entries [of "sg_sequence_number (sh_heap sh a)" a "tb_segments (self_buffer sh key)"]
    by (auto simp: held_def announce_def notify_changed_def split: if_splits)
  have "buf_wf (sh_heap sh) ?b" using assms(1) by (intro buf_wf_announce) (simp add: media_inv_def)
  with h assms show ?thesis
    unfolding media_inv_def by (auto simp: upd_buffer_def open_at_def)
qed

lemma new_segment_quiet:
  assumes "new_segment key header l sh = (l', s, sh')"
  shows "quiet sh sh'" and "sg_frozen s = None" and "sg_format_key s = key"
  using assms quiet_back_patch [of sh key]
  by (auto simp: new_segment_def Let_def segment_new_def set_duration_def split: prod.splits if_splits)

lemma count_header_quiet: "count_header key ks l sh = (l', sh') \<Longrightarrow> quiet sh sh'"
  by (auto simp: count_header_def split: if_splits)

lemma on_media_header_inv:
  assumes "media_inv pend sh" and "map_of pend (mh_header_id header) = None"
    and "on_media_header ks header l pend sh = (l', pend', sh')"
  shows "media_inv pend' sh'" and "fst ` set pend' = insert (mh_header_id header) (fst ` set pend)"
proof -
  define key where "key = format_key_of (mh_itag header) (mh_lmt header) (Some (mh_xtags header))"
  obtain l1 sh1 where c: "count_header key ks l sh = (l1, sh1)" by force
  have i1: "media_inv pend sh1" by (rule media_inv_quiet [OF assms(1) count_header_quiet [OF c]])
  define seen where "seen = (case (if mh_is_init_segment header then tb_init (self_buffer sh1 key)
      else buf_get (self_buffer sh1 key) (mh_sequence_number header)) of
    Some a \<Rightarrow> sg_complete (sh_heap sh1 a) | None \<Rightarrow> False)"
  let ?s = "segment_new key (mh_sequence_number header) (mh_is_init_segment header) 0 0 0 0 0"
  have r: "(l', pend', sh') =
    (if seen then
       let (a, sh2) = alloc_segment ?s sh1 in (l1, map_insert (mh_header_id header) (a, key) pend, sh2)
     else
       let (l2, s, sh2) = new_segment key header l1 sh1; (a, sh3) = alloc_segment s sh2 in
       (l2, map_insert (mh_header_id header) (a, key) pend, upd_buffer key (announce (sh_heap sh3) a) sh3))"
    unfolding assms(3) [symmetric] on_media_header_def key_def [symmetric] c Let_def prod.case seen_def ..
  have "media_inv pend' sh' \<and> fst ` set pend' = insert (mh_header_id header) (fst ` set pend)"
  proof (cases seen)
    case True
    obtain a sh2 where al: "alloc_segment ?s sh1 = (a, sh2)" by force
    from True r al have "pend' = map_insert (mh_header_id header) (a, key) pend" "sh' = sh2" by simp_all
    with media_inv_alloc [OF i1 assms(2) al, of key] show ?thesis
      by (simp add: set_map_insert segment_new_def)
  next
    case False
    obtain l2 s sh2 where n: "new_segment key header l1 sh1 = (l2, s, sh2)" using prod_cases3 by blast
    obtain a sh3 where al: "alloc_segment s sh2 = (a, sh3)" by force
    let ?pend = "map_insert (mh_header_id header) (a, key) pend"
    from False r n al have r': "pend' = ?pend" "sh' = upd_buffer key (announce (sh_heap sh3) a) sh3" by simp_all
    have i3: "media_inv ?pend sh3"
      using media_inv_alloc [OF media_inv_quiet [OF i1 new_segment_quiet(1) [OF n]] assms(2) al new_segment_quiet(2) [OF n]] .
    have "sg_format_key (sh_heap sh3 a) = key"
      using al new_segment_quiet(3) [OF n] by (auto simp: alloc_segment_def)
    moreover have "(mh_header_id header, a, key) \<in> set ?pend" using assms(2) by (simp add: map_insert_keeps)
    ultimately show ?thesis using media_inv_announce [OF i3] r' by (simp add: set_map_insert)
  qed
  then show "media_inv pend' sh'" and "fst ` set pend' = insert (mh_header_id header) (fst ` set pend)" by auto
qed

text \<open>
  The ids open after a part, if the server keeps to one segment per open id; \<open>headers_fresh\<close> says that
  it does for the first \<open>n\<close> parts of a response.
\<close>

definition header_ids :: "prost \<Rightarrow> ump_part \<Rightarrow> int set \<Rightarrow> int set option" where
  "header_ids p part ids =
     (case ump_ty part of
        MediaHeader \<Rightarrow>
          (case pd_media_header p (ump_data part) of
             Inl _ \<Rightarrow> Some ids
           | Inr h \<Rightarrow> if mh_header_id h \<in> ids then None else Some (insert (mh_header_id h) ids))
      | MediaEnd \<Rightarrow> Some (ids - {i32 (fst (decode_varint (ump_data part) 0))})
      | _ \<Rightarrow> Some ids)"

fun headers_fresh :: "prost \<Rightarrow> nat \<Rightarrow> int set \<Rightarrow> ump_reader \<Rightarrow> bool" where
  "headers_fresh p 0 ids r = True"
| "headers_fresh p (Suc n) ids r =
     (case ump_next r of
        (r, Inr (Some part)) \<Rightarrow>
          (case header_ids p part ids of None \<Rightarrow> False | Some ids \<Rightarrow> headers_fresh p n ids r)
      | _ \<Rightarrow> True)"

definition consumption_inv :: "int set \<Rightarrow> consumption \<Rightarrow> bool" where
  "consumption_inv ids c \<longleftrightarrow> media_inv (cs_pending c) (cs_shared c) \<and> fst ` set (cs_pending c) \<subseteq> ids"

lemma consumption_inv_quiet:
  "consumption_inv ids c \<Longrightarrow> quiet (cs_shared c) sh \<Longrightarrow> consumption_inv ids (set_shared c sh)"
  by (auto simp: consumption_inv_def set_shared_def intro: media_inv_quiet)

lemma consumption_inv_same:
  "consumption_inv ids c \<Longrightarrow> cs_pending c' = cs_pending c \<Longrightarrow> quiet (cs_shared c) (cs_shared c') \<Longrightarrow>
    consumption_inv ids c'"
  by (auto simp: consumption_inv_def intro: media_inv_quiet)

lemma with_message_cases:
  assumes "with_message r c f = (res, c')"
  obtains e where "c' = c" "res = Inl e" | x where "r = Inr x" "c' = f x"
  using assms by (auto simp: with_message_def decoded_def split: sum.splits)

lemma on_media_quiet: "on_media data l pend sh = (l', sh') \<Longrightarrow> quiet sh sh'"
proof -
  have "quiet sh (upd_buffer key notify_changed (upd_segment a (seg_append bs) sh))" for key a bs
    by (rule quiet_trans [OF quiet_upd_segment quiet_upd_buffer]) simp_all
  then show "on_media data l pend sh = (l', sh') \<Longrightarrow> quiet sh sh'"
    by (auto simp: on_media_def Let_def split: prod.splits option.splits)
qed

lemma on_media_end_ids:
  assumes "on_media_end data pend sh = (pend', sh')" and "fst ` set pend \<subseteq> ids"
  shows "fst ` set pend' \<subseteq> ids - {i32 (fst (decode_varint data 0))}"
proof (cases "map_of pend (i32 (fst (decode_varint data 0)))")
  case None
  then have "i32 (fst (decode_varint data 0)) \<notin> fst ` set pend" by (simp add: map_of_eq_None_iff)
  with assms None show ?thesis by (simp add: on_media_end_def Let_def) blast
next
  case (Some ak)
  obtain a key where "ak = (a, key)" by (cases ak)
  with Some assms(1) have "pend' = map_remove (i32 (fst (decode_varint data 0))) pend"
    by (simp add: on_media_end_def Let_def)
  with assms(2) show ?thesis by (auto simp: map_remove_def subset_eq)
qed

lemma on_part_inv:
  assumes "consumption_inv ids c" and "header_ids p part ids = Some ids'"
    and "on_part p ks now part c = (res, c')" and "res = Inr ()"
  shows "consumption_inv ids' c'"
proof -
  have quiet_arm: ?thesis if "ids' = ids" and "with_message r c (\<lambda>x. set_shared c (g x)) = (res, c')"
    and "\<And>x. quiet (cs_shared c) (g x)" for r :: "string + 'x" and g
    using that(2) by (rule with_message_cases) (use that assms(1) in \<open>auto intro: consumption_inv_quiet\<close>)
  have quiet2: "quiet sh (emit ev (upd f sh))" for ev f sh
    by (rule quiet_trans [OF quiet_upd quiet_emit])
  show ?thesis
  proof (cases "ump_ty part")
    case MediaHeader
    with assms(3,4) obtain h where h: "pd_media_header p (ump_data part) = Inr h"
      by (auto simp: on_part_def Let_def with_message_def decoded_def split: sum.splits)
    with MediaHeader assms(2) have new: "mh_header_id h \<notin> ids" "ids' = insert (mh_header_id h) ids"
      by (auto simp: header_ids_def split: if_splits)
    obtain l pend sh where o: "on_media_header ks h (cs_local c) (cs_pending c) (cs_shared c) = (l, pend, sh)"
      using prod_cases3 by blast
    have "map_of (cs_pending c) (mh_header_id h) = None"
      using new(1) assms(1) by (auto simp: consumption_inv_def map_of_eq_None_iff)
    from on_media_header_inv [OF _ this o] have "media_inv pend sh"
        "fst ` set pend = insert (mh_header_id h) (fst ` set (cs_pending c))"
      using assms(1) by (auto simp: consumption_inv_def)
    moreover have "c' = c\<lparr>cs_local := l, cs_pending := pend, cs_shared := sh\<rparr>"
      using assms(3) MediaHeader h o by (simp add: on_part_def with_message_def decoded_def)
    ultimately show ?thesis using assms(1) new(2) by (auto simp: consumption_inv_def)
  next
    case Media
    obtain l sh where o: "on_media (ump_data part) (cs_local c) (cs_pending c) (cs_shared c) = (l, sh)" by force
    with Media assms have "c' = c\<lparr>cs_local := l, cs_shared := sh\<rparr>" "ids' = ids"
      by (auto simp: on_part_def header_ids_def)
    with on_media_quiet [OF o] assms(1) show ?thesis by (auto intro: consumption_inv_same)
  next
    case MediaEnd
    obtain pend sh where o: "on_media_end (ump_data part) (cs_pending c) (cs_shared c) = (pend, sh)" by force
    with MediaEnd assms have r: "c' = c\<lparr>cs_pending := pend, cs_shared := sh\<rparr>"
        "ids' = ids - {i32 (fst (decode_varint (ump_data part) 0))}"
      by (auto simp: on_part_def header_ids_def)
    with on_media_end_inv [of "cs_pending c" "cs_shared c" "ump_data part"] on_media_end_ids [OF o, of ids] o assms(1)
    show ?thesis by (auto simp: consumption_inv_def)
  next
    case SabrRedirect
    then have w: "with_message (pd_redirect p (ump_data part)) c (\<lambda>url. c\<lparr>cs_redirect := Some url\<rparr>) = (res, c')"
      and "ids' = ids" using assms by (auto simp: on_part_def header_ids_def)
    then show ?thesis using assms(1) by (auto elim!: with_message_cases intro: consumption_inv_same)
  next
    case SabrSeek
    then have "\<exists>f. with_message (pd_seek p (ump_data part)) c (\<lambda>sk. c\<lparr>cs_seek_to_us := f sk\<rparr>) = (res, c')"
      and "ids' = ids" using assms by (auto simp: on_part_def header_ids_def)
    then show ?thesis using assms(1) by (auto elim!: with_message_cases intro: consumption_inv_same)
  next
    case FormatInitializationMetadata
    then show ?thesis
      using assms(2,3) by (intro quiet_arm [OF _ _ quiet2]) (auto simp: on_part_def header_ids_def Let_def)
  qed (use assms in \<open>auto simp: on_part_def header_ids_def Let_def decoded_def split: sum.splits if_splits
        intro: consumption_inv_quiet elim!: with_message_cases intro: quiet_intros\<close>)
qed

lemma discard_pending_inv:
  assumes "media_inv pend sh"
  shows "settled (discard_pending pend sh)"
proof -
  define step where "step = (\<lambda>(hid :: int, a, key) sh. upd_buffer key (\<lambda>b. notify_changed (discard (sh_heap sh) a b)) sh)"
  have one: "media_inv (map_remove hid pend) (step (hid, a, key) sh)"
    if "media_inv pend sh" "(hid, a, key) \<in> set pend" for hid a key pend sh
  proof (rule media_inv_closed [OF media_inv_quiet [OF that(1)] that(2)])
    show "quiet sh (step (hid, a, key) sh)" unfolding step_def by (auto intro: quiet_intros)
    have "buf_wf (sh_heap sh) (self_buffer sh key)" using that(1) by (simp add: media_inv_def)
    from discard_drops [OF this] show "sg_complete (sh_heap (step (hid, a, key) sh) a) \<or>
        a \<notin> held (self_buffer (step (hid, a, key) sh) key)"
      by (auto simp: step_def upd_buffer_def)
  qed
  have "media_inv [] (fold step pend sh)" if "media_inv pend sh" for pend sh
    using that
  proof (induction pend arbitrary: sh)
    case (Cons x pend)
    obtain hid a key where x: "x = (hid, a, key)" by (cases x)
    have "hid \<notin> fst ` set pend" using Cons.prems by (auto simp: x media_inv_def sorted_map_def)
    then have "map_remove hid (x # pend) = pend" by (auto simp: x map_remove_def filter_id_conv)
    with one [OF Cons.prems, of hid a key] have "media_inv pend (step x sh)" by (simp add: x)
    with Cons.IH show ?case by simp
  qed simp
  with assms show ?thesis by (simp add: discard_pending_def step_def)
qed

lemma consume_loop_inv:
  assumes "consume_loop p ks ep waits n fuel reader c = Some (res, c')"
    and "headers_fresh p fuel ids reader" and "consumption_inv ids c"
  shows "media_inv (cs_pending c') (cs_shared c')"
  using assms
proof (induction fuel arbitrary: n reader c ids)
  case (Suc fuel)
  obtain calls now where w: "waits n = (calls, now)" by (cases "waits n")
  define c1 where "c1 = set_shared c (clients calls (cs_shared c))"
  have c1: "consumption_inv ids c1"
    unfolding c1_def by (rule consumption_inv_quiet [OF Suc.prems(3)]) (intro quiet_intros)
  show ?case
  proof (cases "sh_released (cs_shared c) \<or> st_restart_epoch (sh_state (cs_shared c)) \<noteq> ep")
    case True
    with Suc.prems show ?thesis by (auto simp: consumption_inv_def)
  next
    case False
    obtain r' nx where u: "ump_next reader = (r', nx)" by force
    show ?thesis
    proof (cases "\<exists>part. nx = Inr (Some part)")
      case False
      with Suc.prems(1) \<open>\<not> (sh_released _ \<or> _)\<close> u w c1 show ?thesis
        by (auto simp: c1_def [symmetric] consumption_inv_def split: sum.splits option.splits)
    next
      case True
      then obtain part where nx: "nx = Inr (Some part)" ..
      from Suc.prems(2) u nx obtain ids' where ids': "header_ids p part ids = Some ids'" "headers_fresh p fuel ids' r'"
        by (auto split: option.splits)
      obtain res2 c2 where op: "on_part p ks now part c1 = (res2, c2)" by force
      show ?thesis
      proof (cases res2)
        case (Inl e)
        with Suc.prems(1) False u w nx op have "c' = c2" by (simp add: c1_def [symmetric])
        moreover have "quiet (cs_shared c1) (cs_shared c2) \<and> cs_pending c2 = cs_pending c1"
          using op Inl by (auto simp: on_part_def Let_def with_message_def decoded_def
              split: part_type.splits sum.splits prod.splits if_splits)
        ultimately show ?thesis using c1 by (auto simp: consumption_inv_def intro: media_inv_quiet)
      next
        case (Inr un)
        then have "res2 = Inr ()" by simp
        from on_part_inv [OF c1 ids'(1) op this] Suc.IH [OF _ ids'(2)] Suc.prems(1) False u w nx op Inr
        show ?thesis by (simp add: c1_def [symmetric])
      qed
    qed
  qed
qed simp

lemma finish_response_quiet: "finish_response now pos c = (res, l, sh) \<Longrightarrow> quiet (cs_shared c) sh"
  by (auto simp: finish_response_def Let_def quiet_apply_sabr_seek split: option.splits if_splits)

lemma consume_settles:
  assumes "consume p waits now fuel reader pos ks ep l sh = Some (res, l', sh')"
    and "headers_fresh p fuel {} reader" and "settled sh"
  shows "settled sh'"
proof -
  let ?c = "\<lparr>cs_redirect = None, cs_seek_to_us = None, cs_pending = [], cs_local = l, cs_shared = sh\<rparr>"
  obtain r c where c: "consume_loop p ks ep waits 0 fuel reader ?c = Some (r, c)"
    using assms(1) by (auto simp: consume_def split: option.splits)
  have "consumption_inv {} ?c" using assms(3) by (simp add: consumption_inv_def)
  from discard_pending_inv [OF consume_loop_inv [OF c assms(2) this]]
  have s: "settled (discard_pending (cs_pending c) (cs_shared c))" .
  have "quiet (discard_pending (cs_pending c) (cs_shared c)) sh'"
    using assms(1) c finish_response_quiet [of now pos "set_shared c (discard_pending (cs_pending c) (cs_shared c))"]
    by (auto simp: consume_def Let_def set_shared_def split: sum.splits)
  with s show ?thesis by (rule media_inv_quiet)
qed

section \<open>Every response is consumed\<close>

lemma ump_fill_left: "ump_fill r = (r', res) \<Longrightarrow> bytes_left r' = bytes_left r"
  by (auto simp: ump_fill_def bytes_left_def split: if_splits list.splits sum.splits)

lemma ump_ensure_left:
  "ump_ensure n r = (r', res) \<Longrightarrow> bytes_left r' = bytes_left r \<and> (res = Inr True \<longrightarrow> n \<le> length (ur_buf r'))"
proof (induction n r arbitrary: r' res rule: ump_ensure.induct)
  case (1 n r)
  show ?case
  proof (cases "length (ur_buf r) < n")
    case True
    obtain r1 f where f: "ump_fill r = (r1, f)" by force
    with ump_fill_left [OF f] True "1.prems" "1.IH" [OF True f [symmetric]] show ?thesis
      by (cases f) (auto simp: ump_ensure.simps [of n r] split: if_splits)
  next
    case False
    with "1.prems" show ?thesis by (auto simp: ump_ensure.simps [of n r])
  qed
qed

lemma bytes_left_drop:
  "n \<le> length (ur_buf r) \<Longrightarrow> bytes_left (r\<lparr>ur_buf := drop n (ur_buf r)\<rparr>) = bytes_left r - n"
  by (simp add: bytes_left_def)

lemma take_varint_left:
  assumes "take_varint r = (r', res)"
  shows "bytes_left r' \<le> bytes_left r" and "res = Inr (Some v) \<Longrightarrow> bytes_left r' < bytes_left r"
proof -
  obtain r1 f1 where f1: "ump_ensure 1 r = (r1, f1)" by force
  obtain r2 f2 where f2: "ump_ensure (size_of (ur_buf r1 ! 0)) r1 = (r2, f2)" by force
  note l1 = ump_ensure_left [OF f1] and l2 = ump_ensure_left [OF f2]
  have "bytes_left r' \<le> bytes_left r \<and> (res = Inr (Some v) \<longrightarrow> bytes_left r' < bytes_left r)"
  proof (cases "f1 = Inr True \<and> f2 = Inr True")
    case True
    with l2 have "size_of (ur_buf r1 ! 0) \<le> length (ur_buf r2)" by simp
    moreover have "length (ur_buf r2) \<le> bytes_left r2" by (simp add: bytes_left_def)
    ultimately show ?thesis
      using True assms f1 f2 l1 l2 size_of_bounds(1) [of "ur_buf r1 ! 0"]
      by (auto simp: take_varint_def Let_def bytes_left_drop)
  next
    case False
    with assms f1 f2 l1 l2 show ?thesis
      by (auto simp: take_varint_def Let_def split: sum.splits bool.splits)
  qed
  then show "bytes_left r' \<le> bytes_left r" and "res = Inr (Some v) \<Longrightarrow> bytes_left r' < bytes_left r" by auto
qed

lemma take_payload_left: "take_payload ty len r = (r', res) \<Longrightarrow> bytes_left r' \<le> bytes_left r"
proof -
  assume t: "take_payload ty len r = (r', res)"
  obtain r1 f1 where f1: "ump_ensure (nat len) r = (r1, f1)" by force
  from t f1 ump_ensure_left [OF f1] show ?thesis
    by (auto simp: take_payload_def bytes_left_drop split: if_splits sum.splits bool.splits)
qed

lemma ump_next_left:
  assumes "ump_next r = (r', Inr (Some part))"
  shows "bytes_left r' < bytes_left r"
proof -
  obtain r1 f1 where f1: "ump_ensure 1 r = (r1, f1)" by force
  obtain r2 f2 where f2: "take_varint r1 = (r2, f2)" by force
  obtain r3 f3 where f3: "take_varint r2 = (r3, f3)" by force
  from assms f1 f2 f3 obtain ty len where t: "f2 = Inr (Some ty)" "take_payload ty len r3 = (r', Inr (Some part))"
    by (auto simp: ump_next_def split: sum.splits bool.splits option.splits)
  have "bytes_left r2 < bytes_left r1" by (rule take_varint_left(2) [OF f2 t(1)])
  with ump_ensure_left [OF f1] take_varint_left(1) [OF f3] take_payload_left [OF t(2)] show ?thesis by simp
qed

lemma consume_loop_total:
  "bytes_left reader < fuel \<Longrightarrow> consume_loop p ks ep waits n fuel reader c \<noteq> None"
proof (induction fuel arbitrary: n reader c)
  case (Suc fuel)
  show ?case
  proof (cases "ump_next reader")
    case (Pair r' nx)
    have "bytes_left r' < fuel" if "nx = Inr (Some part)" for part
      using ump_next_left [of reader r' part] that Pair Suc.prems by simp
    with Suc.IH Pair show ?thesis
      by (auto simp: Let_def split: prod.splits sum.splits option.splits)
  qed
qed simp

lemma consume_total:
  "consume p waits now (Suc (bytes_left reader)) reader pos ks ep l sh \<noteq> None"
proof -
  let ?c = "\<lparr>cs_redirect = None, cs_seek_to_us = None, cs_pending = [], cs_local = l, cs_shared = sh\<rparr>"
  obtain rc where "consume_loop p ks ep waits 0 (Suc (bytes_left reader)) reader ?c = Some rc"
    using consume_loop_total [of reader "Suc (bytes_left reader)" p ks ep waits 0 ?c] by blast
  then show ?thesis by (cases rc) (simp add: consume_def Let_def del: consume_loop.simps)
qed

section \<open>Properties\<close>

lemma clear_seek_quiet: "quiet sh (clear_seek_if_landed sh)"
  by (simp add: clear_seek_if_landed_def split: option.split)

lemma update_progress_quiet: "quiet sh (update_progress f pos sh)"
  by (simp add: update_progress_def Let_def split: option.split)

lemma evict_consumed_quiet: "quiet sh (evict_consumed_segments sh)"
  by (simp add: evict_consumed_segments_def Let_def quiet_all)

lemma set_fatal_quiet: "quiet sh (set_fatal e sh)"
  unfolding set_fatal_def by (rule quiet_trans [OF quiet_trans [OF quiet_upd quiet_emit] quiet_all]) simp

lemma conclude_quiet:
  assumes "conclude env ep video vb audio ab pos redirected l sh = (res, l', sh')"
  shows "quiet sh sh'"
proof -
  have vod: "quiet sh sh'" if "conclude_vod now video audio pos adv red l sh = (res, l', sh')" for now adv red l sh
  proof -
    have p: "quiet sh (update_progress audio pos (update_progress video pos sh))"
      by (rule quiet_trans [OF update_progress_quiet update_progress_quiet])
    from p quiet_trans [OF p quiet_upd] that show ?thesis
      by (auto simp: conclude_vod_def Let_def split: if_splits)
  qed
  have live: "quiet sh sh'" if "conclude_live cn now adv red l sh = (res, l', sh')" for cn now adv red l sh
  proof -
    have c: "quiet sh (clamp_to_seekable_window cn sh)"
      by (auto simp: clamp_to_seekable_window_def Let_def quiet_apply_sabr_seek split: option.split)
    from c quiet_trans [OF c quiet_upd] that show ?thesis
      by (auto simp: conclude_live_def Let_def split: if_splits)
  qed
  let ?s = "clear_seek_if_landed sh"
  have cl: "quiet sh (all_buffers buf_clear ?s)"
    by (rule quiet_trans [OF clear_seek_quiet quiet_all]) simp
  have rest: "quiet sh sh'"
    if "(if sh_is_live s then conclude_live cn now adv red l2 s else conclude_vod now video audio pos adv red l2 s) = (res, l', sh')"
      and "quiet sh s" for s cn now adv red l2
    using that(1) quiet_trans [OF that(2) vod] quiet_trans [OF that(2) live] by (auto split: if_splits)
  show ?thesis
    using assms cl rest [OF _ clear_seek_quiet] rest [OF _ quiet_trans [OF clear_seek_quiet quiet_upd]]
    unfolding conclude_def Let_def
    by (auto split: if_splits prod.splits simp del: fun_upd_apply)
qed

text \<open>The server opens no header id a second time before it has ended it.\<close>

definition server_keeps_ids :: "request_env \<Rightarrow> bool" where
  "server_keeps_ids env \<longleftrightarrow>
     (\<forall>url body hs status chunks. en_fetch env url body hs = Inr (status, chunks) \<longrightarrow>
        headers_fresh (en_prost env) (Suc (bytes_left (ump_reader_new chunks))) {} (ump_reader_new chunks))"

lemma receive_settles:
  assumes "receive env ep v vb a ab rr pos (en_fetch env url body hs) l sh = Some (res, l', sh')"
    and "server_keeps_ids env" and "settled sh"
  shows "settled sh'"
proof (cases "en_fetch env url body hs")
  case (Inr r)
  obtain status chunks where r: "r = (status, chunks)" by force
  define s1 where "s1 = upd (\<lambda>st. if st_resume_position_us st = rr then st\<lparr>st_resume_position_us := None\<rparr> else st) sh"
  have i1: "settled s1" using media_inv_quiet [OF assms(3), of s1] by (simp add: s1_def)
  have fresh: "headers_fresh (en_prost env) (Suc (bytes_left (ump_reader_new chunks))) {} (ump_reader_new chunks)"
    using assms(2) Inr r by (auto simp: server_keeps_ids_def)
  show ?thesis
  proof (cases "sh_released sh \<or> \<not> (200 \<le> status \<and> status < 300)")
    case True
    with assms(1,3) Inr r show ?thesis by (auto simp: receive_def split: if_splits)
  next
    case False
    with assms(1) Inr r obtain r2 l2 s2 where
        c: "consume (en_prost env) (en_waits env) (en_clock env 3) (Suc (bytes_left (ump_reader_new chunks)))
              (ump_reader_new chunks) pos (accepted_keys (sh_state s1)) ep l s1 = Some (r2, l2, s2)"
      and s': "(\<exists>e. sh' = s2) \<or> (\<exists>red l3. conclude env ep v vb a ab pos red l3 s2 = (res, l', sh'))"
      unfolding receive_def Let_def s1_def [symmetric]
      by (auto simp del: set_buffer_simps split: option.splits sum.splits prod.splits if_splits)
    have "settled s2" by (rule consume_settles [OF c fresh i1])
    with s' show ?thesis by (auto intro: media_inv_quiet dest: conclude_quiet)
  qed
qed (use assms in \<open>auto simp: receive_def\<close>)

lemma perform_request_settles:
  assumes "perform_request env l sh = Some (res, l', sh')" and "server_keeps_ids env" and "settled sh"
  shows "settled sh'"
proof -
  define s0 where "s0 = upd (\<lambda>st. st\<lparr>st_aborting := False\<rparr>) sh"
  obtain url s1 where u: "append_request_number (st_streaming_url (sh_state s0)) s0 = (url, s1)" by force
  define s2 where "s2 = clients (en_fetch_calls env) (upd (\<lambda>st. st\<lparr>st_last_request_ms := en_clock env 1\<rparr>) s1)"
  have q0: "quiet sh s0" by (simp add: s0_def)
  also have "quiet s0 s1" using u by (auto simp: append_request_number_def Let_def)
  also have "quiet s1 (upd (\<lambda>st. st\<lparr>st_last_request_ms := en_clock env 1\<rparr>) s1)" by simp
  also have "quiet \<dots> s2" unfolding s2_def by (rule quiet_clients)
  finally have i: "settled s0" "settled s2" using q0 assms(3) by (auto intro: media_inv_quiet)
  have r: "(if v = None \<and> aud = None then Some (Inl Idle, l, s0) else receive env ep v vb aud ab rr pos
        (en_fetch env url body hs) l0 s2) = Some (res, l', sh') \<Longrightarrow> settled sh'"
    for v aud ep vb ab rr pos body hs l0
    using i(1) receive_settles [OF _ assms(2) i(2), of ep v vb aud ab rr pos url body hs l0 res l' sh']
    by (auto split: if_splits)
  show ?thesis
    using assms(1) unfolding perform_request_def s0_def [symmetric] Let_def u prod.case s2_def [symmetric] by (rule r)
qed

lemma await_demand_quiet: "await_demand turns sh = Some sh' \<Longrightarrow> quiet sh sh'"
proof (induction turns arbitrary: sh)
  case Nil
  then show ?case by (auto simp: await_demand.simps [of "[]"] split: if_splits)
next
  case (Cons calls turns)
  then show ?case
    using quiet_trans [OF quiet_clients [of sh calls], of sh'] by (auto simp: await_demand.simps [of "calls # turns"] split: if_splits)
qed

lemma pump_outcome_quiet: "pump_outcome now res l sh = (ended, l', sh') \<Longrightarrow> quiet sh sh'"
  using quiet_trans [OF quiet_emit set_fatal_quiet, of sh] quiet_trans [OF quiet_emit quiet_upd, of sh] set_fatal_quiet [of sh]
  by (auto simp: pump_outcome_def Let_def split: sum.splits pump_step.splits if_splits)

lemma pump_once_settles:
  assumes "pump_once env l sh = Some (res, l', sh')" and "server_keeps_ids (pe_request env)" and "settled sh"
  shows "settled sh'"
proof -
  obtain s1 where s1: "await_demand (pe_turns env) sh = Some s1"
    using assms(1) by (auto simp: pump_once_def split: option.splits)
  have i1: "settled s1" by (rule media_inv_quiet [OF assms(3) await_demand_quiet [OF s1]])
  obtain evs wait l2 where h: "honour_backoff (pe_now env) l s1 = (evs, wait, l2)" using prod_cases3 by blast
  have i2: "settled (fold emit evs s1)" by (rule media_inv_quiet [OF i1]) (intro quiet_intros)
  have i3: "settled (clients (pe_backoff_calls env) (fold emit evs s1))" by (rule media_inv_quiet [OF i2]) (intro quiet_intros)
  have i4: "settled (evict_consumed_segments (fold emit evs s1))"
    by (rule media_inv_quiet [OF i2 evict_consumed_quiet])
  show ?thesis
    using assms(1,2) s1 h i1 i3 perform_request_settles [OF _ assms(2) i4]
    by (auto simp: pump_once_def Let_def split: if_splits option.splits)
qed

lemma pump_turns_settles:
  assumes "pump_turns envs l sh = Some (ended, l', sh')" and "\<forall>env \<in> set envs. server_keeps_ids (pe_request env)"
    and "settled sh"
  shows "settled sh'"
  using assms
proof (induction envs arbitrary: l sh)
  case (Cons env envs)
  show ?case
  proof (cases "pump_once env l sh")
    case None
    with Cons.prems show ?thesis by (auto split: if_splits)
  next
    case (Some r)
    obtain res l1 s1 where r: "r = (res, l1, s1)" using prod_cases3 by blast
    obtain e l2 s2 where o: "pump_outcome (pe_error_now env) res l1 s1 = (e, l2, s2)" using prod_cases3 by blast
    have "settled s1" using pump_once_settles Some r Cons.prems by auto
    then have "settled s2" by (rule media_inv_quiet [OF _ pump_outcome_quiet [OF o]])
    with Cons r o Some show ?thesis by (auto split: if_splits bool.splits)
  qed
qed auto

lemma session_new_settled: "settled (session_new engines spec now)"
  by (simp add: media_inv_def session_new_def self_buffer_def track_buffer_new_def buf_wf_def held_def segment_new_def)

text \<open>
  C13: between requests nothing is half downloaded: whatever the server sent, in whatever pieces, with
  errors, truncated segments and calls in between, every entry of every buffer is a complete segment of
  that buffer under its own sequence number, as long as the server does not reuse an open header id.
\<close>

theorem pump_leaves_complete_segments:
  assumes "run envs (clients calls (session_new engines spec now)) = Some (ended, sh)"
    and "\<forall>env \<in> set envs. server_keeps_ids (pe_request env)"
    and "(seq, a) \<in> set (tb_segments (self_buffer sh key))"
  shows "sg_complete (sh_heap sh a) \<and> sg_sequence_number (sh_heap sh a) = seq \<and> sg_format_key (sh_heap sh a) = key"
proof -
  let ?s = "clients calls (session_new engines spec now)"
  have s: "settled ?s" by (rule media_inv_quiet [OF session_new_settled quiet_clients])
  have "settled sh"
    using assms(1) s pump_turns_settles [OF _ assms(2) s] by (auto simp: run_def split: if_splits)
  then have wf: "buf_wf (sh_heap sh) (self_buffer sh key)"
    and "\<forall>a \<in> held (self_buffer sh key). sg_format_key (sh_heap sh a) = key \<and> sg_complete (sh_heap sh a)"
    by (simp_all add: media_inv_def open_at_def)
  moreover have "a \<in> held (self_buffer sh key)" using assms(3) by (force simp: held_def)
  moreover have "sg_sequence_number (sh_heap sh a) = seq" using wf assms(3) by (auto simp: buf_wf_def)
  ultimately show ?thesis by simp
qed

text \<open>A turn of the pump has no result only while it waits for a demand: the fuel of a response is enough.\<close>

lemma pump_once_None_iff:
  "pump_once env l sh = None \<longleftrightarrow> await_demand (pe_turns env) sh = None"
proof -
  have "perform_request re l sh \<noteq> None" for re l sh
    using consume_total
    by (simp add: perform_request_def receive_def Let_def case_prod_beta del: not_None_eq split: sum.split option.split)
  then show ?thesis
    by (auto simp: pump_once_def Let_def split: option.splits prod.splits)
qed

section \<open>Examples\<close>

text \<open>A small session: one video format, and a server that answers with one segment in three parts.\<close>

definition sample_format :: sabr_format where
  "sample_format =
     \<lparr>sf_itag = 137, sf_last_modified = 5, sf_xtags = [], sf_mime_type = ''video/mp4'', sf_codecs = ''avc1'',
      sf_bitrate = 1000, sf_width = 640, sf_height = 360, sf_fps = 30, sf_audio_channels = 0,
      sf_audio_sample_rate = 0, sf_language = None, sf_is_original_audio = False, sf_is_drc = False\<rparr>"

definition sample_spec :: stream_spec where
  "sample_spec =
     \<lparr>sp_server_abr_streaming_url = ''u'', sp_ustreamer_config = [], sp_video_id = ''v'', sp_is_live = False,
      sp_duration_us = 10000000, sp_video_formats = [sample_format], sp_audio_formats = [], sp_po_token = None,
      sp_client_name = 1, sp_client_version = ''1'', sp_os_name = [], sp_os_version = []\<rparr>"

definition no_engines :: base64_engines where
  "no_engines = \<lparr>b64_url_safe_no_pad = (\<lambda>_. None), b64_standard_no_pad = (\<lambda>_. None), b64_standard = (\<lambda>_. None)\<rparr>"

definition sample_session :: shared where
  "sample_session = clients [(0, SetDemandAlternates Video [sample_format] 0)] (session_new no_engines sample_spec 0)"

definition sample_header :: media_header where
  "sample_header =
     \<lparr>mh_header_id = 7, mh_itag = 137, mh_lmt = 5, mh_xtags = [], mh_is_init_segment = False,
      mh_sequence_number = 3, mh_start_ms = 0, mh_duration_ms = 5000, mh_content_length = 2, mh_time_range = None\<rparr>"

definition sample_prost :: prost where
  "sample_prost =
     \<lparr>pd_media_header = (\<lambda>_. Inr sample_header), pd_next_request_policy = (\<lambda>_. Inl []), pd_format_init = (\<lambda>_. Inl []),
      pd_live_metadata = (\<lambda>_. Inl []), pd_context_update = (\<lambda>_. Inl []), pd_context_policy = (\<lambda>_. Inl []),
      pd_protection_status = (\<lambda>_. Inl []), pd_redirect = (\<lambda>_. Inl []), pd_seek = (\<lambda>_. Inl []), pd_error = (\<lambda>_. Inl [])\<rparr>"

definition sample_body :: "(io_error + bytes) list" where
  "sample_body = [Inr [20, 0, 21], Inr [3, 7, 1, 2, 22, 1], Inr [7]]"

definition sample_request :: "(io_error + bytes) list \<Rightarrow> request_env" where
  "sample_request body =
     \<lparr>en_prost = sample_prost, en_encode = (\<lambda>_. []), en_clock = (\<lambda>_. 0), en_latency = 10,
      en_fetch = (\<lambda>_ _ _. Inr (200, body)), en_fetch_calls = [], en_waits = (\<lambda>_. ([], 0))\<rparr>"

definition sample_turn :: "(io_error + bytes) list \<Rightarrow> pump_env" where
  "sample_turn body =
     \<lparr>pe_turns = [], pe_now = 0, pe_backoff_calls = [], pe_request = sample_request body, pe_error_now = 0\<rparr>"

definition sample_key :: format_key where
  "sample_key = format_key_of 137 5 None"

lemma sample_keeps_ids: "server_keeps_ids (sample_request sample_body)"
proof -
  have "headers_fresh sample_prost (Suc (bytes_left (ump_reader_new sample_body))) {} (ump_reader_new sample_body)"
    by code_simp
  then show ?thesis by (simp add: server_keeps_ids_def sample_request_def)
qed

lemma pump_leaves_complete_segments_witness:
  "\<exists>sh. run [sample_turn sample_body] sample_session = Some (False, sh) \<and>
     tb_segments (self_buffer sh sample_key) = [(3, 0)] \<and> sg_complete (sh_heap sh 0)"
proof -
  have "map_option (\<lambda>(e, sh). (e, tb_segments (self_buffer sh sample_key))) (run [sample_turn sample_body] sample_session) =
      Some (False, [(3, 0)])"
    by code_simp
  then obtain sh where r: "run [sample_turn sample_body] sample_session = Some (False, sh)"
      "tb_segments (self_buffer sh sample_key) = [(3, 0)]" by auto
  have "sg_complete (sh_heap sh 0)"
    using pump_leaves_complete_segments [OF r(1) [unfolded sample_session_def], of 3 0 sample_key] r(2)
    by (simp add: sample_turn_def sample_keeps_ids)
  with r show ?thesis by blast
qed

end
