(* ===== verification/Sabr_Progress.thy ===== *)
theory Sabr_Progress
  imports Sabr_Proofs
begin

text \<open>
  Further properties of the SABR session: what a request claims to hold, when the server repositions the
  stream, what a restart discards, which format is active, and how long the pump tries.
\<close>

section \<open>Buffered ranges\<close>

lemma last_completed_loop_complete:
  assumes "last_completed_loop h from_us e last' m = r" and "r \<noteq> last'" and "r \<noteq> -1"
  shows "\<exists>a. (r, a) \<in> set m \<and> sg_complete (h a)"
  using assms by (induction h from_us e last' m rule: last_completed_loop.induct) (auto split: if_splits)

lemma last_completed_sequence_complete:
  assumes "0 \<le> last_completed_sequence h b from_us" and "sorted_map (tb_segments b)"
  shows "complete_at h b (last_completed_sequence h b from_us)"
proof -
  obtain a where "(last_completed_sequence h b from_us, a) \<in> set (tb_segments b)" "sg_complete (h a)"
    using last_completed_loop_complete [of h from_us "-1" "-1" "tb_segments b"] assms(1)
    by (auto simp: last_completed_sequence_def)
  with assms(2) show ?thesis by (simp add: complete_at_def buf_get_def sorted_map_def)
qed

lemma run_start_spec:
  "run_start h b first \<le> first \<and> (0 \<le> first \<longrightarrow> 0 \<le> run_start h b first) \<and>
   (\<forall>seq. run_start h b first \<le> seq \<and> seq < first \<longrightarrow> complete_at h b seq) \<and>
   (run_start h b first \<le> 0 \<or> \<not> complete_at h b (run_start h b first - 1))"
proof (induction h b first rule: run_start.induct)
  case (1 h b first)
  show ?case
  proof (cases "0 < first \<and> complete_at h b (first - 1)")
    case True
    with 1 have IH: "run_start h b (first - 1) \<le> first - 1 \<and> 0 \<le> run_start h b (first - 1) \<and>
       (\<forall>seq. run_start h b (first - 1) \<le> seq \<and> seq < first - 1 \<longrightarrow> complete_at h b seq) \<and>
       (run_start h b (first - 1) \<le> 0 \<or> \<not> complete_at h b (run_start h b (first - 1) - 1))" by simp
    have "complete_at h b seq" if "run_start h b (first - 1) \<le> seq" "seq < first" for seq
      using IH that True by (cases "seq = first - 1") auto
    with IH True show ?thesis by (simp add: run_start.simps [of h b first])
  next
    case False
    then show ?thesis by (auto simp: run_start.simps [of h b first])
  qed
qed

lemma last_completed_loop_member:
  assumes "last_completed_loop h from_us e last' m = r" and "r \<noteq> last'" and "r \<noteq> -1"
  shows "r \<in> fst ` set m"
  using assms by (induction h from_us e last' m rule: last_completed_loop.induct) (auto split: if_splits)

text \<open>The run of complete segments ends where the loop stops.\<close>

lemma last_completed_loop_stops:
  assumes "last_completed_loop h from_us e last' m = r" and "0 \<le> r" and "sorted_map m" and "seqs_ok m"
    and "if e = -1 then last' = -1 else e = last' + 1 \<and> (\<forall>k \<in> fst ` set m. last' < k)"
  shows "\<forall>a. (r + 1, a) \<in> set m \<longrightarrow> \<not> sg_complete (h a)"
  using assms
proof (induction h from_us e last' m rule: last_completed_loop.induct)
  case (1 h from_us e last')
  then show ?case by simp
next
  case (2 h from_us e last' seq a xs)
  have rest: "sorted_map xs" "seqs_ok xs" "\<forall>k \<in> fst ` set xs. seq < k" "0 \<le> seq" "seq_succ seq = seq + 1"
    using "2.prems"(3,4) by (auto simp: sorted_map_def seqs_ok_def seq_succ_ok le_less)
  consider (skip) "e = -1" "from_us \<noteq> NO_US" "end_us (h a) < from_us"
    | (none) "e = -1" "from_us \<noteq> NO_US" "\<not> end_us (h a) < from_us" "from_us < sg_start_us (h a)"
    | (gap) "e \<noteq> -1" "seq \<noteq> e"
    | (partial) "\<not> (e = -1 \<and> from_us \<noteq> NO_US \<and> (end_us (h a) < from_us \<or> from_us < sg_start_us (h a)))"
        "e = -1 \<or> seq = e" "\<not> sg_complete (h a)"
    | (more) "\<not> (e = -1 \<and> from_us \<noteq> NO_US \<and> (end_us (h a) < from_us \<or> from_us < sg_start_us (h a)))"
        "e = -1 \<or> seq = e" "sg_complete (h a)"
    by blast
  then show ?case
  proof cases
    case skip
    then have l: "last_completed_loop h from_us e last' xs = r" using "2.prems"(1) by simp
    then have "r \<in> fst ` set xs"
      using last_completed_loop_member [OF l] "2.prems"(2,5) skip(1) by auto
    with rest(3) have "seq < r" by auto
    with "2.IH"(1) [OF _ l "2.prems"(2) rest(1,2)] skip "2.prems"(5) show ?thesis by auto
  next
    case none
    with "2.prems"(1,2) show ?thesis by simp
  next
    case gap
    then have "r = last'" "e = r + 1" using "2.prems"(1,5) by auto
    with gap "2.prems"(5) rest(3) show ?thesis by fastforce
  next
    case partial
    then have "r = last'" using "2.prems"(1) by auto
    with "2.prems"(2,5) have e: "e \<noteq> -1" "e = r + 1" by (auto split: if_splits)
    with partial rest(3) show ?thesis by fastforce
  next
    case more
    then have l: "last_completed_loop h from_us (seq_succ seq) seq xs = r" using "2.prems"(1) by auto
    have "r = seq \<or> r \<in> fst ` set xs" using last_completed_loop_member [OF l] "2.prems"(2) by auto
    then have "seq \<noteq> r + 1" using rest(3) by auto
    moreover have "\<forall>a. (r + 1, a) \<in> set xs \<longrightarrow> \<not> sg_complete (h a)"
      by (rule "2.IH"(2)) (use more l "2.prems"(2) rest in auto)
    ultimately show ?thesis by auto
  qed
qed

lemma last_completed_sequence_stops:
  assumes "0 \<le> last_completed_sequence h b from_us" and "sorted_map (tb_segments b)" and "seqs_ok (tb_segments b)"
  shows "\<not> complete_at h b (last_completed_sequence h b from_us + 1)"
proof -
  have "\<forall>a. (last_completed_sequence h b from_us + 1, a) \<in> set (tb_segments b) \<longrightarrow> \<not> sg_complete (h a)"
    using assms by (intro last_completed_loop_stops [of h from_us "-1" "-1"]) (simp_all add: last_completed_sequence_def)
  then show ?thesis by (auto simp: complete_at_def buf_get_def dest: map_of_SomeD split: option.split)
qed

text \<open>The formats that the demands of a session accept.\<close>

definition demanded :: "shared \<Rightarrow> sabr_format \<Rightarrow> bool" where
  "demanded sh f \<longleftrightarrow> (\<exists>d \<in> set (demands (sh_state sh)). f = dm_format d \<or> f \<in> set (dm_alternates d))"

text \<open>
  C19: a request never claims media the client does not hold: in a request for the session's demands
  each buffered range names a format that a demand accepts, every sequence number in it is a complete
  segment of that format's buffer, and it is the whole run: neither the number before it nor the one
  behind it is complete. Its start is that of the first segment, in milliseconds and, if there is one, in
  the ticks of its time scale, and, for a stream that is not live, its duration reaches to the end of the
  last.
\<close>

theorem buffered_ranges_are_held:
  assumes "\<forall>key. sorted_map (tb_segments (self_buffer sh key)) \<and> seqs_ok (tb_segments (self_buffer sh key))"
    and "r \<in> set (rq_buffered_ranges (build_request now latency sh l
      (map_option dm_format (st_video_demand (sh_state sh))) (map_option dm_format (st_audio_demand (sh_state sh)))
      position_ms))"
  shows "\<exists>f first final. demanded sh f \<and> br_format_id r = to_format_id f \<and>
    0 \<le> br_start_segment_index r \<and> br_start_segment_index r \<le> br_end_segment_index r \<and>
    (\<forall>seq. br_start_segment_index r \<le> seq \<and> seq \<le> br_end_segment_index r \<longrightarrow>
       complete_at (sh_heap sh) (self_buffer sh (sabr_format_key f)) seq) \<and>
    (br_start_segment_index r = 0 \<or>
       \<not> complete_at (sh_heap sh) (self_buffer sh (sabr_format_key f)) (br_start_segment_index r - 1)) \<and>
    \<not> complete_at (sh_heap sh) (self_buffer sh (sabr_format_key f)) (br_end_segment_index r + 1) \<and>
    buf_get (self_buffer sh (sabr_format_key f)) (br_start_segment_index r) = Some first \<and>
    buf_get (self_buffer sh (sabr_format_key f)) (br_end_segment_index r) = Some final \<and>
    br_start_time_ms r = sg_start_us (sh_heap sh first) sdiv 1000 \<and>
    (\<forall>t. br_time_range r = Some t \<longrightarrow>
       tr_start_ticks t = sg_start_ticks (sh_heap sh first) \<and> tr_timescale t = sg_timescale (sh_heap sh first)) \<and>
    (\<not> sh_is_live sh \<and> end_us (sh_heap sh final) \<noteq> NO_US \<longrightarrow>
       br_duration_ms r = max (i64 (end_us (sh_heap sh final) - sg_start_us (sh_heap sh first))) 0 sdiv 1000)"
proof -
  let ?h = "sh_heap sh"
  obtain f where f: "range_of_format sh f = Some r" and dem: "demanded sh f"
    using assms(2)
    by (auto simp: build_request_def Let_def demanded_def demands_def List.map_filter_def
        split: if_splits option.splits)
  let ?b = "self_buffer sh (sabr_format_key f)"
  let ?from = "demand_from_us ?h (sh_state sh) ?b (sabr_format_key f)"
  let ?last = "last_completed_sequence ?h ?b ?from"
  have wf: "sorted_map (tb_segments ?b)" "seqs_ok (tb_segments ?b)" using assms(1) by blast+
  from f have pos: "0 \<le> ?last" by (auto simp: range_of_format_def Let_def split: if_splits)
  note run = run_start_spec [of ?h ?b ?last]
  have start: "first_sequence_of_run ?h ?b ?from = run_start ?h ?b ?last"
    using pos run by (simp add: first_sequence_of_run_def)
  obtain first where first: "buf_get ?b (run_start ?h ?b ?last) = Some first"
    using f pos start by (auto simp: range_of_format_def Let_def split: if_splits option.splits)
  have r: "br_format_id r = to_format_id f" "br_end_segment_index r = ?last"
      "br_start_segment_index r = run_start ?h ?b ?last" "br_start_time_ms r = sg_start_us (?h first) sdiv 1000"
      "\<forall>t. br_time_range r = Some t \<longrightarrow> tr_start_ticks t = sg_start_ticks (?h first) \<and> tr_timescale t = sg_timescale (?h first)"
      "\<not> sh_is_live sh \<longrightarrow> br_duration_ms r =
        (if buffered_end_us ?h ?b ?from = NO_US then 0
         else max (i64 (buffered_end_us ?h ?b ?from - sg_start_us (?h first))) 0) sdiv 1000"
    using f pos first by (auto simp: range_of_format_def Let_def start split: if_splits)
  have last: "complete_at ?h ?b ?last" by (rule last_completed_sequence_complete) (use pos wf in auto)
  have held: "complete_at ?h ?b seq" if "run_start ?h ?b ?last \<le> seq" "seq \<le> ?last" for seq
    using run last that by (cases "seq = ?last") auto
  obtain final where final: "buf_get ?b ?last = Some final" "buffered_end_us ?h ?b ?from = end_us (?h final)"
    using last_completed_matches_buffered_end [OF wf, of ?h ?from] pos by auto
  have stops: "\<not> complete_at ?h ?b (?last + 1)" using last_completed_sequence_stops [OF pos wf] .
  have duration: "\<not> sh_is_live sh \<and> end_us (?h final) \<noteq> NO_US \<longrightarrow>
      br_duration_ms r = max (i64 (end_us (?h final) - sg_start_us (?h first))) 0 sdiv 1000"
    using r(6) final(2) by simp
  have start_ok: "0 \<le> run_start ?h ?b ?last" "run_start ?h ?b ?last \<le> ?last"
      "run_start ?h ?b ?last = 0 \<or> \<not> complete_at ?h ?b (run_start ?h ?b ?last - 1)"
    using run pos by auto
  have all: "\<forall>seq. run_start ?h ?b ?last \<le> seq \<and> seq \<le> ?last \<longrightarrow> complete_at ?h ?b seq" using held by blast
  show ?thesis
    unfolding r(2,3)
    by (rule exI [of _ f], rule exI [of _ first], rule exI [of _ final])
      (intro conjI dem r(1,4,5) start_ok all stops first final(1) duration)
qed

section \<open>Server seeks\<close>

lemma epoch_moves: "i32 (n + 1) \<noteq> n" if "in_srange 32 n"
proof
  assume "i32 (n + 1) = n"
  then have "(n + 1 + 2 ^ 31) mod 2 ^ 32 = n + 2 ^ 31" by (simp add: swrap_def)
  moreover have "(n + 2 ^ 31) mod 2 ^ 32 = n + 2 ^ 31" using that by (simp add: in_srange_def)
  ultimately have "(n + 1 + 2 ^ 31 - (n + 2 ^ 31)) mod (2 ^ 32 :: int) = 0"
    by (metis diff_self mod_0 mod_diff_eq)
  then show False by simp
qed

lemma demands_reanchor [simp]: "demands (reanchor_demands p st) = map (\<lambda>d. d\<lparr>dm_from_us := p\<rparr>) (demands st)"
  by (cases "st_video_demand st"; cases "st_audio_demand st")
     (simp_all add: demands_def reanchor_demands_def List.map_filter_def)

lemma self_buffer_clear [simp]: "tb_segments (self_buffer (all_buffers buf_clear sh) k) = []"
  by (simp add: self_buffer_all track_buffer_new_def buf_clear_def notify_changed_def)

lemma seek_repositions:
  assumes "in_srange 32 (st_restart_epoch (sh_state sh))" and "apply_sabr_seek now p sh = sh'"
    and "seek_verdict_of sh p = Reposition"
  shows "sh_server_seek_generation sh' = sh_server_seek_generation sh + 1 \<and>
       st_restart_epoch (sh_state sh') \<noteq> st_restart_epoch (sh_state sh) \<and>
       (\<forall>key. tb_segments (self_buffer sh' key) = []) \<and>
       (\<forall>d \<in> set (demands (sh_state sh')). dm_from_us d = p) \<and>
       (st_resume_position_us (sh_state sh') = None \<longrightarrow> request_position_us sh' = p) \<and>
    sh_server_seek_generation (apply_sabr_seek now' p sh') = sh_server_seek_generation sh'"
proof -
  let ?st = "(reanchor_demands p ((sh_state sh)\<lparr>st_last_sabr_seek_us := p, st_seek_pending_us := Some p,
      st_playback_position_us := p, st_restart_from_us := p\<rparr>))
      \<lparr>st_last_action_ms := now, st_restart_epoch := i32 (st_restart_epoch (sh_state sh) + 1),
       st_format_complete := {}, st_format_no_progress := (\<lambda>_. None)\<rparr>"
  let ?sh = "all_buffers buf_clear (sh\<lparr>sh_state := ?st\<rparr>)"
  have st: "sh' = self_notify (?sh\<lparr>sh_server_seek_generation := sh_server_seek_generation sh + 1\<rparr>)"
    using assms(2) assms(3)
    by (simp add: apply_sabr_seek_def Let_def reanchor_demands_def all_buffers_def)
  then have s: "sh_state sh' = ?st" "sh_server_seek_generation sh' = sh_server_seek_generation sh + 1"
    by (simp_all add: self_notify_def)
  have b: "tb_segments (self_buffer sh' key) = []" for key by (simp add: st)
  have d: "\<forall>d \<in> set (demands (sh_state sh')). dm_from_us d = p" 
    by (auto simp: s(1) demands_def reanchor_demands_def List.map_filter_def split: if_splits)
  have "seek_verdict_of sh' p \<in> {OutOfWindow, KeepAlive}"
    by (simp add: seek_verdict_of_def Let_def s(1) reanchor_demands_def SABR_SEEK_SLACK_US_def swrap_def)
  then have "sh_server_seek_generation (apply_sabr_seek now' p sh') = sh_server_seek_generation sh'"
    by (auto simp: apply_sabr_seek_def upd_def)
  moreover have "st_restart_epoch (sh_state sh') \<noteq> st_restart_epoch (sh_state sh)"
    using epoch_moves [OF assms(1)] by (simp add: s(1))
  moreover have "st_resume_position_us (sh_state sh') = None \<longrightarrow> request_position_us sh' = p"
    by (simp add: request_position_us_def Let_def s(1) reanchor_demands_def)
  ultimately show ?thesis using s(2) b d by simp
qed

lemma seek_stays:
  assumes "apply_sabr_seek now p sh = sh'" and "seek_verdict_of sh p \<noteq> Reposition"
  obtains q where "sh' = upd (\<lambda>st. st\<lparr>st_last_sabr_seek_us := q\<rparr>) sh"
    "seek_verdict_of sh p = KeepAlive \<or> q = st_last_sabr_seek_us (sh_state sh)"
proof -
  have id: "upd (\<lambda>st. st\<lparr>st_last_sabr_seek_us := st_last_sabr_seek_us (sh_state sh)\<rparr>) sh = sh"
    by (simp add: upd_def)
  have "\<exists>q. sh' = upd (\<lambda>st. st\<lparr>st_last_sabr_seek_us := q\<rparr>) sh \<and>
      (seek_verdict_of sh p = KeepAlive \<or> q = st_last_sabr_seek_us (sh_state sh))"
  proof (cases "seek_verdict_of sh p = KeepAlive")
    case True
    have "sh' = upd (\<lambda>st. st\<lparr>st_last_sabr_seek_us := p\<rparr>) sh"
      unfolding assms(1) [symmetric] apply_sabr_seek_def True by (simp only: seek_verdict.case)
    with True show ?thesis by blast
  next
    case other: False
    have "sh' = sh"
      unfolding assms(1) [symmetric] apply_sabr_seek_def
      using assms(2) other by (cases "seek_verdict_of sh p") (simp_all only: seek_verdict.case, simp_all)
    from trans [OF this id [symmetric]] show ?thesis by blast
  qed
  then show thesis using that by blast
qed

lemma stayed_seek_again:
  assumes "seek_verdict_of sh p \<noteq> Reposition" and "sh' = upd (\<lambda>st. st\<lparr>st_last_sabr_seek_us := q\<rparr>) sh"
    and "seek_verdict_of sh p = KeepAlive \<or> q = st_last_sabr_seek_us (sh_state sh)"
  shows "sh_server_seek_generation (apply_sabr_seek now' p sh') = sh_server_seek_generation sh'"
proof -
  have same: "sh_heap sh' = sh_heap sh" "sh_is_live sh' = sh_is_live sh" "self_buffer sh' key = self_buffer sh key"
    "demands (sh_state sh') = demands (sh_state sh)" for key
    by (simp_all add: assms(2)) (simp_all add: upd_def demands_def)
  have fields: "st_live_metadata (sh_state sh') = st_live_metadata (sh_state sh)"
    "st_playback_position_us (sh_state sh') = st_playback_position_us (sh_state sh)"
    "st_seek_pending_us (sh_state sh') = st_seek_pending_us (sh_state sh)" "st_last_sabr_seek_us (sh_state sh') = q"
    by (simp_all only: assms(2) set_buffer_simps) simp_all
  have "\<exists>out near. seek_verdict_of sh p = (if out then OutOfWindow else if near then KeepAlive
        else if p = st_last_sabr_seek_us (sh_state sh) \<and> st_seek_pending_us (sh_state sh) = None then Repeated else Reposition) \<and>
      seek_verdict_of sh' p = (if out then OutOfWindow else if near then KeepAlive
        else if p = q \<and> st_seek_pending_us (sh_state sh) = None then Repeated else Reposition)"
    unfolding seek_verdict_of_def Let_def same fields by (intro exI conjI) (rule refl)+
  then have "seek_verdict_of sh' p = seek_verdict_of sh p" using assms(3) by (auto split: if_splits)
  with assms(1) have "seek_verdict_of sh' p \<noteq> Reposition" by simp
  then show ?thesis by (cases "seek_verdict_of sh' p") (simp_all add: apply_sabr_seek_def upd_def)
qed

text \<open>
  A seek of the server moves the stream only when it is a real one: the generation readers watch counts
  exactly the seeks that reposition, which empty every buffer, start a new epoch and make the next
  request ask for the new place. Any other seek leaves the media, the position and the demands alone, and
  a seek that was just followed is not followed again.
\<close>

theorem server_seek_spec:
  assumes "in_srange 32 (st_restart_epoch (sh_state sh))" and "apply_sabr_seek now p sh = sh'"
  shows "(if seek_verdict_of sh p = Reposition
     then sh_server_seek_generation sh' = sh_server_seek_generation sh + 1 \<and>
       st_restart_epoch (sh_state sh') \<noteq> st_restart_epoch (sh_state sh) \<and>
       (\<forall>key. tb_segments (self_buffer sh' key) = []) \<and>
       (\<forall>d \<in> set (demands (sh_state sh')). dm_from_us d = p) \<and>
       (st_resume_position_us (sh_state sh') = None \<longrightarrow> request_position_us sh' = p)
     else \<exists>q. sh' = upd (\<lambda>st. st\<lparr>st_last_sabr_seek_us := q\<rparr>) sh) \<and>
    sh_server_seek_generation (apply_sabr_seek now' p sh') = sh_server_seek_generation sh'"
proof (cases "seek_verdict_of sh p = Reposition")
  case True
  from seek_repositions [OF assms True, of now'] True show ?thesis by simp
next
  case False
  obtain q where q: "sh' = upd (\<lambda>st. st\<lparr>st_last_sabr_seek_us := q\<rparr>) sh"
      "seek_verdict_of sh p = KeepAlive \<or> q = st_last_sabr_seek_us (sh_state sh)"
    using seek_stays [OF assms(2) False] .
  from stayed_seek_again [OF False q, of now'] q(1) False show ?thesis by auto
qed

section \<open>Restarts\<close>

abbreviation epoch :: "shared \<Rightarrow> int" where
  "epoch sh \<equiv> st_restart_epoch (sh_state sh)"

definition emptied :: "shared \<Rightarrow> bool" where
  "emptied sh \<longleftrightarrow> (\<forall>key. tb_segments (self_buffer sh key) = [])"

lemma epoch_kept [simp]:
  "epoch (clear_seek_if_landed sh) = epoch sh" "epoch (update_progress f pos sh) = epoch sh"
  by (simp_all add: clear_seek_if_landed_def update_progress_def Let_def split: option.split)

lemma emptied_simps [simp]:
  "emptied (all_buffers buf_clear sh)" "emptied (upd f sh) = emptied sh" "emptied (self_notify sh) = emptied sh"
  "emptied (sh\<lparr>sh_server_seek_generation := g'\<rparr>) = emptied sh"
  by (simp_all add: emptied_def)

lemma apply_sabr_seek_epoch: "epoch (apply_sabr_seek now p sh) \<noteq> epoch sh \<Longrightarrow> emptied (apply_sabr_seek now p sh)"
  by (cases "seek_verdict_of sh p") (simp_all add: apply_sabr_seek_def Let_def)

lemma conclude_epoch:
  assumes "conclude env ep video vb audio ab pos red l sh = (res, l', sh')" and "epoch sh' \<noteq> ep"
  shows "emptied sh'"
proof -
  have vod: "epoch sh' = epoch sh" if "conclude_vod now video audio pos adv red l sh = (res, l', sh')" for now adv l sh
    using that by (auto simp: conclude_vod_def Let_def split: if_splits)
  have clamp: "epoch (clamp_to_seekable_window cn sh) \<noteq> epoch sh \<longrightarrow> emptied (clamp_to_seekable_window cn sh)" for cn sh
    using apply_sabr_seek_epoch [of cn _ sh]
    by (auto simp: clamp_to_seekable_window_def Let_def split: option.splits if_splits)
  have live: "epoch sh' \<noteq> epoch sh \<longrightarrow> emptied sh'" if "conclude_live cn now adv red l sh = (res, l', sh')" for cn now adv l sh
    using that clamp [of cn sh] by (auto simp: conclude_live_def Let_def split: if_splits)
  let ?s = "clear_seek_if_landed sh"
  let ?u = "upd (\<lambda>st. st\<lparr>st_error_backoff_until_ms := 0, st_backoff_until_ms := st_server_backoff_until_ms st\<rparr>) ?s"
  have rest: "emptied sh'"
    if "(if sh_is_live s then conclude_live cn now adv red l2 s else conclude_vod now video audio pos adv red l2 s) = (res, l', sh')"
      and "epoch s = ep" for s cn now adv l2
    using that(1) vod [of now adv l2 s] live [of cn now adv l2 s] assms(2) that(2) by (auto split: if_splits)
  show ?thesis
  proof (cases "epoch ?s = ep")
    case False
    then have "sh' = all_buffers buf_clear ?s" using assms(1) by (simp add: conclude_def Let_def)
    then show ?thesis by simp
  next
    case True
    then have "epoch ?u = ep" by simp
    with assms(1) True rest [of ?u] rest [of ?s] show ?thesis
      unfolding conclude_def Let_def by (auto simp del: set_buffer_simps split: if_splits)
  qed
qed

text \<open>What the callers do never fills a buffer, and moves the epoch only by emptying them all.\<close>

lemma emptied_quiet: "quiet sh sh' \<Longrightarrow> emptied sh \<Longrightarrow> emptied sh'"
  by (auto simp: quiet_def shrunk_def emptied_def)

definition in_epoch :: "int \<Rightarrow> shared \<Rightarrow> bool" where
  "in_epoch ep sh \<longleftrightarrow> epoch sh = ep \<or> emptied sh"

lemma in_epoch_quiet: "in_epoch ep sh \<Longrightarrow> quiet sh sh' \<Longrightarrow> epoch sh' = epoch sh \<Longrightarrow> in_epoch ep sh'"
  by (auto simp: in_epoch_def intro: emptied_quiet)

lemma restart_moves:
  assumes "restart now p force sh = (sh', True)"
  shows "epoch sh' = i32 (epoch sh + 1)" and "emptied sh'"
proof -
  from assms obtain st where "sh' = self_notify ((all_buffers buf_clear sh)\<lparr>sh_state := st\<rparr>)"
      "st_restart_epoch st = i32 (epoch sh + 1)"
    by (auto simp: restart_def Let_def reanchor_demands_def split: if_splits)
  then show "epoch sh' = i32 (epoch sh + 1)" "emptied sh'" by (simp_all add: emptied_def)
qed

lemma client_epoch: "epoch (client call sh) = epoch sh \<or> emptied (client call sh)"
proof -
  obtain now c where call: "call = (now, c)" by (cases call)
  have restart: "epoch (fst (restart now p force sh)) = epoch sh \<or> emptied (fst (restart now p force sh))" for p force
  proof (cases "restart now p force sh")
    case (Pair sh' r)
    then show ?thesis
      by (cases r) (use restart_moves(2) in \<open>auto simp: restart_def Let_def split: if_splits\<close>)
  qed
  show ?thesis
  proof (cases c)
    case (SeekTo p)
    with restart [of p False] show ?thesis
      by (auto simp: call seek_to_def Let_def reanchor_demands_def self_notify_def)
  next
    case (Restart p force)
    with restart show ?thesis by (simp add: call)
  next
    case (AdvanceDemand r p)
    then show ?thesis
      by (simp add: call advance_demand_def set_demand_field_def split: option.split role.split)
  next
    case (ClearDemand r)
    then show ?thesis by (simp add: call clear_demand_def set_demand_field_def split: role.split)
  next
    case (SetDemandAlternates r fs p)
    then show ?thesis
      by (simp add: call set_demand_alternates_def Let_def set_demand_field_def self_notify_def split: role.split)
  qed (simp_all add: call set_listener_def set_viewport_def set_initial_bandwidth_def
        set_playback_position_def release_def self_notify_def)
qed

lemma in_epoch_client: "in_epoch ep sh \<Longrightarrow> in_epoch ep (client call sh)"
  using client_epoch [of call sh] emptied_quiet [OF quiet_client [of sh call]] by (auto simp: in_epoch_def)

lemma in_epoch_clients: "in_epoch ep sh \<Longrightarrow> in_epoch ep (clients calls sh)"
  unfolding clients_def by (induction calls arbitrary: sh) (auto intro: in_epoch_client)

lemma on_part_error: "on_part p keys now part c = (Inl e, c') \<Longrightarrow> c' = c"
  by (auto simp: on_part_def with_message_def Let_def split: part_type.splits sum.splits prod.splits if_splits)

text \<open>A response that is broken off by an error leaves nothing of another epoch in the buffers.\<close>

lemma consume_loop_error:
  "consume_loop p keys ep waits n fuel reader c = Some (Inl e, c') \<Longrightarrow> in_epoch ep (cs_shared c')"
proof (induction fuel arbitrary: n reader c)
  case (Suc fuel)
  let ?sh = "cs_shared c"
  obtain calls now where w: "waits n = (calls, now)" by force
  let ?c = "set_shared c (clients calls ?sh)"
  have ep: "epoch ?sh = ep" using Suc.prems by (auto simp: Let_def split: if_splits)
  have c: "in_epoch ep (cs_shared ?c)"
    using in_epoch_clients [of ep ?sh calls] ep by (simp add: set_shared_def in_epoch_def)
  obtain reader' res where u: "ump_next reader = (reader', res)" by force
  show ?case
  proof (cases res)
    case (Inl err)
    with Suc.prems u w c show ?thesis by (auto simp: Let_def split: if_splits)
  next
    case (Inr part)
    show ?thesis
    proof (cases part)
      case None
      with Suc.prems u w Inr show ?thesis by (auto simp: Let_def split: if_splits)
    next
      case (Some pt)
      obtain x c1 where o: "on_part p keys now pt ?c = (x, c1)" by force
      show ?thesis
      proof (cases x)
        case (Inl err)
        with o have "c1 = ?c" using on_part_error by metis
        with Suc.prems u w \<open>res = Inr part\<close> Some o Inl c show ?thesis by (auto simp: Let_def split: if_splits)
      next
        case (Inr y)
        with Suc.prems u w \<open>res = Inr part\<close> Some o have "consume_loop p keys ep waits (Suc n) fuel reader' c1 = Some (Inl e, c')"
          by (auto simp: Let_def split: if_splits)
        then show ?thesis by (rule Suc.IH)
      qed
    qed
  qed
qed simp

lemma discard_pending_keeps:
  "quiet sh (discard_pending pend sh)" "epoch (discard_pending pend sh) = epoch sh"
proof -
  show "quiet sh (discard_pending pend sh)"
    unfolding discard_pending_def by (rule quiet_fold) (auto intro: quiet_upd_buffer)
  show "epoch (discard_pending pend sh) = epoch sh"
    unfolding discard_pending_def by (induction pend arbitrary: sh) (auto simp: upd_buffer_def)
qed

text \<open>The error of a response that redirects once too often: it ends the request before anything is cleaned.\<close>

definition redirect_error :: "int \<Rightarrow> pump_step" where
  "redirect_error n = StepError (Protocol (''SABR redirected '' @ dec_int n @ '' times without delivering media''))"

lemma consume_error:
  assumes "consume p waits now fuel reader pos keys ep l sh = Some (Inl e, l', sh')"
  shows "in_epoch ep sh' \<or> (\<exists>n. e = redirect_error n)"
proof -
  obtain res c where c: "consume_loop p keys ep waits 0 fuel reader
      \<lparr>cs_redirect = None, cs_seek_to_us = None, cs_pending = [], cs_local = l, cs_shared = sh\<rparr> = Some (res, c)"
    using assms by (auto simp: consume_def split: option.splits)
  show ?thesis
  proof (cases res)
    case (Inl err)
    with c have "in_epoch ep (cs_shared c)" using consume_loop_error by metis
    then have "in_epoch ep (discard_pending (cs_pending c) (cs_shared c))"
      by (rule in_epoch_quiet) (simp_all add: discard_pending_keeps)
    with assms c Inl show ?thesis by (auto simp: consume_def Let_def set_shared_def)
  next
    case (Inr y)
    with assms c show ?thesis
      by (auto simp: consume_def Let_def set_shared_def finish_response_def redirect_error_def
          split: option.splits if_splits)
  qed
qed

lemma receive_epoch:
  assumes "receive env ep v vb a ab rr pos answer l sh = Some (res, l', sh')" and "in_epoch ep sh"
    and "\<And>n. res \<noteq> Inl (redirect_error n)"
  shows "in_epoch ep sh'"
proof (cases answer)
  case (Inl e)
  with assms show ?thesis by (simp add: receive_def)
next
  case (Inr r)
  obtain status resp where r: "r = (status, resp)" by force
  let ?s0 = "upd (\<lambda>st. if st_resume_position_us st = rr then st\<lparr>st_resume_position_us := None\<rparr> else st) sh"
  show ?thesis
  proof (cases "sh_released sh \<or> \<not> (200 \<le> status \<and> status < 300)")
    case True
    with assms Inr r show ?thesis by (auto simp: receive_def split: if_splits)
  next
    case False
    obtain x l1 s1 where c: "consume (en_prost env) (en_waits env) (en_clock env 3) (Suc (bytes_left (ump_reader_new resp)))
        (ump_reader_new resp) pos (accepted_keys (sh_state ?s0)) ep l ?s0 = Some (x, l1, s1)"
      using assms(1) Inr r False by (auto simp: receive_def Let_def split: option.splits)
    show ?thesis
    proof (cases x)
      case (Inl e)
      with assms(1) Inr r False c have "sh' = s1" "res = Inl e" by (auto simp: receive_def Let_def)
      with consume_error [OF c [unfolded Inl]] assms(3) show ?thesis by auto
    next
      case redirected: (Inr red)
      with assms(1) Inr r False c obtain l2 where "conclude env ep v vb a ab pos red l2 s1 = (res, l', sh')"
        by (auto simp: receive_def Let_def)
      from conclude_epoch [OF this] show ?thesis by (auto simp: in_epoch_def)
    qed
  qed
qed

text \<open>
  C25: a restart takes effect however far the response of the old position has come. A restart that is
  not refused as a repetition moves the epoch and empties every buffer; and whenever the epoch has moved
  while a request was on its way, by a reader's restart or seek or by the server's, then however the
  request ends, with success or with an error, no segment of any buffer is left, so none of the old
  position can be mistaken for one of the new. The one exception is the error for too many redirects in a
  row, which skips that cleaning.
\<close>

theorem restart_discards_old_media:
  assumes "perform_request env l sh = Some (res, l', sh')" and "\<And>n. res \<noteq> Inl (redirect_error n)"
    and "in_srange 32 (epoch sh)"
  shows "(\<forall>now p force sh1. restart now p force sh = (sh1, True) \<longrightarrow>
      epoch sh1 \<noteq> epoch sh \<and> (\<forall>key. tb_segments (self_buffer sh1 key) = [])) \<and>
    (epoch sh' \<noteq> epoch sh \<longrightarrow> (\<forall>key. tb_segments (self_buffer sh' key) = []))"
proof -
  have 1: "epoch sh1 \<noteq> epoch sh \<and> emptied sh1" if "restart now p force sh = (sh1, True)" for now p force sh1
    using restart_moves [OF that] epoch_moves [OF assms(3)] by simp
  define s0 where "s0 = upd (\<lambda>st. st\<lparr>st_aborting := False\<rparr>) sh"
  have e: "epoch s0 = epoch sh" by (simp add: s0_def)
  have r: "(if v = None \<and> aud = None then Some (Inl Idle, l, s0)
        else case append_request_number url s0 of (url, s1) \<Rightarrow>
          receive env (epoch s0) v (vb s1) aud (ab s1) rr pos (answer url) l0 (clients calls (upd f s1))) =
      Some (res, l', sh') \<Longrightarrow> (\<And>st. st_restart_epoch (f st) = st_restart_epoch st) \<Longrightarrow> in_epoch (epoch sh) sh'"
    for v aud url vb ab rr pos answer l0 calls f
  proof (split if_split_asm)
    assume f: "\<And>st. st_restart_epoch (f st) = st_restart_epoch st"
    obtain url' s1 where u: "append_request_number url s0 = (url', s1)" by force
    then have "epoch s1 = epoch s0" by (auto simp: append_request_number_def Let_def)
    with f have "in_epoch (epoch s0) (clients calls (upd f s1))" by (intro in_epoch_clients) (simp add: in_epoch_def)
    moreover assume "(case append_request_number url s0 of (url, s1) \<Rightarrow>
          receive env (epoch s0) v (vb s1) aud (ab s1) rr pos (answer url) l0 (clients calls (upd f s1))) = Some (res, l', sh')"
    ultimately show ?thesis using receive_epoch [OF _ _ assms(2)] u e by fastforce
  qed (use e in \<open>auto simp: in_epoch_def\<close>)
  have "in_epoch (epoch sh) sh'"
    using assms(1) unfolding perform_request_def s0_def [symmetric] Let_def by (rule r) simp
  with 1 show ?thesis by (auto simp: in_epoch_def emptied_def)
qed

text \<open>
  Right after a restart the next request asks for its position, and a restart near the one that is
  already on its way changes nothing, unless it is forced.
\<close>

lemma restart_position:
  "restart now p force sh = (sh', r) \<Longrightarrow>
     (if r then request_position_us sh' = p \<and> emptied sh' \<and> needs_data sh' = (demands (sh_state sh) \<noteq> [])
      else sh' = sh \<and> \<not> force \<and> (\<exists>q. st_resume_position_us (sh_state sh) = Some q))"
proof -
  assume r: "restart now p force sh = (sh', r)"
  show ?thesis
  proof (cases r)
    case False
    with r show ?thesis by (auto simp: restart_def Let_def split: if_splits option.splits)
  next
    case True
    with r obtain st where "sh' = self_notify ((all_buffers buf_clear sh)\<lparr>sh_state := st\<rparr>)"
        and st: "st_resume_position_us st = Some p"
          "st_video_demand st = None \<longleftrightarrow> st_video_demand (sh_state sh) = None"
          "st_audio_demand st = None \<longleftrightarrow> st_audio_demand (sh_state sh) = None"
      by (auto simp: restart_def Let_def reanchor_demands_def split: if_splits)
    then show ?thesis
      using True by (auto simp: request_position_us_def needs_data_def Let_def demands_def List.map_filter_def emptied_def)
  qed
qed

section \<open>Active formats\<close>

text \<open>The part of the state that says which formats are asked for and which is active.\<close>

definition formats :: "state \<Rightarrow> (sabr_format \<times> sabr_format list) option \<times> (sabr_format \<times> sabr_format list) option \<times> format_key set" where
  "formats st =
     (map_option (\<lambda>d. (dm_format d, dm_alternates d)) (st_video_demand st),
      map_option (\<lambda>d. (dm_format d, dm_alternates d)) (st_audio_demand st), st_demanded_keys st)"

definition formats_ok :: "shared \<Rightarrow> bool" where
  "formats_ok sh \<longleftrightarrow>
     (\<forall>r d. demand_of r (sh_state sh) = Some d \<longrightarrow>
        dm_format d \<in> set (dm_alternates d) \<and>
        sabr_format_key ` set (dm_alternates d) \<subseteq> st_demanded_keys (sh_state sh))"

lemma formats_okD:
  "formats_ok sh \<Longrightarrow> demand_of r (sh_state sh) = Some d \<Longrightarrow>
     dm_format d \<in> set (dm_alternates d) \<and> sabr_format_key ` set (dm_alternates d) \<subseteq> st_demanded_keys (sh_state sh)"
  by (simp add: formats_ok_def)

lemma formats_ok_same:
  assumes "formats_ok sh" and "formats (sh_state sh') = formats (sh_state sh)"
  shows "formats_ok sh'"
proof -
  have "\<exists>d'. demand_of r (sh_state sh) = Some d' \<and> dm_format d' = dm_format d \<and> dm_alternates d' = dm_alternates d"
    if "demand_of r (sh_state sh') = Some d" for r d
  proof -
    have "map_option (\<lambda>d. (dm_format d, dm_alternates d)) (demand_of r (sh_state sh)) =
        map_option (\<lambda>d. (dm_format d, dm_alternates d)) (demand_of r (sh_state sh'))"
      using assms(2) by (cases r) (simp_all add: formats_def demand_of_def)
    with that show ?thesis by (auto simp: map_option_eq_Some)
  qed
  moreover have "st_demanded_keys (sh_state sh') = st_demanded_keys (sh_state sh)"
    using assms(2) by (simp add: formats_def)
  ultimately show ?thesis using assms(1) unfolding formats_ok_def by metis
qed

lemma formats_reanchor [simp]: "formats (reanchor_demands p st) = formats st"
  by (simp add: formats_def reanchor_demands_def option.map_comp comp_def)

lemma formats_fields [simp]:
  "formats (st\<lparr>st_playback_position_us := x1\<rparr>) = formats st" "formats (st\<lparr>st_resume_position_us := x2\<rparr>) = formats st"
  "formats (st\<lparr>st_restart_from_us := x3\<rparr>) = formats st" "formats (st\<lparr>st_last_action_ms := x4\<rparr>) = formats st"
  "formats (st\<lparr>st_restart_epoch := x5\<rparr>) = formats st" "formats (st\<lparr>st_format_complete := x6\<rparr>) = formats st"
  "formats (st\<lparr>st_format_no_progress := x7\<rparr>) = formats st" "formats (st\<lparr>st_backoff_until_ms := x8\<rparr>) = formats st"
  "formats (st\<lparr>st_aborting := x9\<rparr>) = formats st" "formats (st\<lparr>st_last_sabr_seek_us := x10\<rparr>) = formats st"
  "formats (st\<lparr>st_seek_pending_us := x11\<rparr>) = formats st" "formats (st\<lparr>st_viewport_width := x12\<rparr>) = formats st"
  "formats (st\<lparr>st_viewport_height := x13\<rparr>) = formats st" "formats (st\<lparr>st_initial_bandwidth := x14\<rparr>) = formats st"
  "formats (st\<lparr>st_playback_cookie := x15\<rparr>) = formats st" "formats (st\<lparr>st_target_video_readahead_ms := x16\<rparr>) = formats st"
  "formats (st\<lparr>st_target_audio_readahead_ms := x17\<rparr>) = formats st" "formats (st\<lparr>st_server_backoff_until_ms := x18\<rparr>) = formats st"
  "formats (st\<lparr>st_error_backoff_until_ms := x19\<rparr>) = formats st" "formats (st\<lparr>st_fatal := x20\<rparr>) = formats st"
  "formats (st\<lparr>st_streaming_url := x21\<rparr>) = formats st" "formats (st\<lparr>st_last_request_ms := x22\<rparr>) = formats st"
  "formats (st\<lparr>st_sabr_contexts := x23\<rparr>) = formats st" "formats (st\<lparr>st_active_sabr_contexts := x24\<rparr>) = formats st"
  "formats (st\<lparr>st_format_initialization := x25\<rparr>) = formats st" "formats (st\<lparr>st_reestimated := x26\<rparr>) = formats st"
  "formats (st\<lparr>st_live_metadata := x27\<rparr>) = formats st" "formats (st\<lparr>st_media_base_us := x28\<rparr>) = formats st"
  "formats (st\<lparr>st_media_base_set := x29\<rparr>) = formats st" "formats (st\<lparr>st_server_chosen := x30\<rparr>) = formats st"
  by (simp_all add: formats_def)

lemma find_key_Some: "find_key k fs = Some f \<Longrightarrow> f \<in> set fs \<and> sabr_format_key f = k"
  by (auto simp: find_key_def find_Some_iff)

lemma select_active_mem: "acceptable \<noteq> [] \<Longrightarrow> select_active st r acceptable \<in> set acceptable"
  by (auto simp: select_active_def Option.bind_eq_Some_conv split: option.split dest!: find_key_Some)

lemma demand_of_set [simp]: "demand_of r' (set_demand_field r d st) = (if r' = r then d else demand_of r' st)"
  by (cases r; cases r') (simp_all add: demand_of_def set_demand_field_def)

lemma demand_of_fields [simp]:
  "demand_of r (st\<lparr>st_demanded_keys := ks\<rparr>) = demand_of r st"
  "demand_of r (st\<lparr>st_server_chosen := cs\<rparr>) = demand_of r st"
  "demand_of r (st\<lparr>st_last_action_ms := t\<rparr>) = demand_of r st"
  "demand_of r (st\<lparr>st_format_complete := fc\<rparr>) = demand_of r st"
  "demand_of r (st\<lparr>st_format_no_progress := np\<rparr>) = demand_of r st"
  by (cases r; simp add: demand_of_def)+

lemma set_demand_field_keys [simp]: "st_demanded_keys (set_demand_field r d st) = st_demanded_keys st"
  by (cases r) (simp_all add: set_demand_field_def)

lemma formats_ok_field:
  assumes "formats_ok sh" and "sh_state sh' = set_demand_field r dm st"
    and "\<And>r. demand_of r st = demand_of r (sh_state sh)" and "st_demanded_keys (sh_state sh) \<subseteq> st_demanded_keys st"
    and "\<And>d. dm = Some d \<Longrightarrow> dm_format d \<in> set (dm_alternates d) \<and> sabr_format_key ` set (dm_alternates d) \<subseteq> st_demanded_keys st"
  shows "formats_ok sh'"
proof -
  have "dm_format d \<in> set (dm_alternates d) \<and> sabr_format_key ` set (dm_alternates d) \<subseteq> st_demanded_keys st"
    if "demand_of r' (sh_state sh) = Some d" for r' d
    using that assms(1,4) by (auto simp: formats_ok_def)
  then show ?thesis using assms(5) by (simp add: formats_ok_def assms(2,3))
qed

lemma formats_ok_client: "formats_ok sh \<Longrightarrow> formats_ok (client call sh)"
proof -
  assume ok: "formats_ok sh"
  obtain now c where call: "call = (now, c)" by (cases call)
  have restart: "formats_ok (fst (restart now p force sh))" for p force
    by (rule formats_ok_same [OF ok]) (simp add: restart_def Let_def self_notify_def)
  show ?thesis
  proof (cases c)
    case (SetDemandAlternates r fs p)
    show ?thesis
    proof (cases "fs = []")
      case False
      let ?dm = "Some \<lparr>dm_format = select_active (sh_state sh) r fs, dm_from_us = p, dm_alternates = fs\<rparr>"
      have "formats_ok (self_notify (sh\<lparr>sh_state := set_demand_field r ?dm
          (st\<lparr>st_demanded_keys := st_demanded_keys st \<union> sabr_format_key ` set fs\<rparr>)\<rparr>))"
        if "\<And>r. demand_of r st = demand_of r (sh_state sh)" and "st_demanded_keys st = st_demanded_keys (sh_state sh)" for st
        using select_active_mem [OF False]
        by (intro formats_ok_field [OF ok, where st = "st\<lparr>st_demanded_keys := st_demanded_keys st \<union> sabr_format_key ` set fs\<rparr>"])
           (auto simp: that self_notify_def)
      then show ?thesis
        using False ok by (simp add: call SetDemandAlternates set_demand_alternates_def Let_def)
    qed (simp add: call SetDemandAlternates set_demand_alternates_def ok)
  next
    case (AdvanceDemand r p)
    have "formats_ok (self_notify (upd (set_demand_field r (Some (d\<lparr>dm_from_us := p\<rparr>))) sh))"
      if "demand_of r (sh_state sh) = Some d" for d
      by (intro formats_ok_field [OF ok]) (use formats_okD [OF ok that] in auto)
    with ok show ?thesis by (simp add: call AdvanceDemand advance_demand_def split: option.split)
  next
    case (ClearDemand r)
    have "formats_ok (upd (set_demand_field r None) sh)" by (intro formats_ok_field [OF ok]) auto
    then show ?thesis by (simp add: call ClearDemand clear_demand_def)
  next
    case (SeekTo p)
    have "formats_ok (self_notify (sh\<lparr>sh_state := (reanchor_demands p ((sh_state sh)\<lparr>st_playback_position_us := p\<rparr>))
        \<lparr>st_last_action_ms := now\<rparr>\<rparr>))"
      by (rule formats_ok_same [OF ok]) (simp add: self_notify_def)
    with restart show ?thesis by (simp add: call SeekTo seek_to_def Let_def)
  next
    case (Restart p force)
    with restart show ?thesis by (simp add: call)
  qed (use ok in \<open>auto simp: call set_listener_def set_viewport_def set_initial_bandwidth_def
        set_playback_position_def release_def elim: formats_ok_same\<close>)
qed

lemma formats_ok_clients: "formats_ok sh \<Longrightarrow> formats_ok (clients calls sh)"
  unfolding clients_def by (induction calls arbitrary: sh) (auto intro: formats_ok_client)

lemma adopt_for_ok:
  assumes "formats_ok sh"
  shows "formats_ok (upd (adopt_for key rs) sh)"
proof (induction rs)
  case Nil
  show ?case by (rule formats_ok_same [OF assms]) simp
next
  case (Cons r rs)
  have "formats_ok (upd (\<lambda>st. set_demand_field r (Some \<lparr>dm_format = f, dm_from_us = dm_from_us d, dm_alternates = dm_alternates d\<rparr>)
      (st\<lparr>st_server_chosen := (st_server_chosen st)(r \<mapsto> key)\<rparr>)) sh)"
    if "demand_of r (sh_state sh) = Some d" "find_key key (dm_alternates d) = Some f" for d f
    using find_key_Some [OF that(2)] formats_okD [OF assms that(1)]
    by (intro formats_ok_field [OF assms, where st = "(sh_state sh)\<lparr>st_server_chosen := (st_server_chosen (sh_state sh))(r \<mapsto> key)\<rparr>"])
       auto
  with Cons show ?case by (auto simp: upd_def split: option.split)
qed

lemma heap_ops_state [simp]:
  "sh_state (upd_buffer key g sh) = sh_state sh" "sh_state (back_patch_previous key seq start sh) = sh_state sh"
  "sh_state (reestimate_segment key a sh) = sh_state sh"
  by (simp_all add: upd_buffer_def back_patch_previous_def reestimate_segment_def Let_def split: option.split)

lemma fold_state: "(\<And>x sh. sh_state (f x sh) = sh_state sh) \<Longrightarrow> sh_state (fold f xs sh) = sh_state sh"
  by (induction xs arbitrary: sh) auto

lemma formats_ops [simp]:
  "formats (sh_state (discard_pending pend sh)) = formats (sh_state sh)"
  "formats (sh_state (reestimate_inexact_durations sh)) = formats (sh_state sh)"
  "formats (sh_state (on_live_metadata m sh)) = formats (sh_state sh)"
  "formats (sh_state (apply_sabr_seek now p sh)) = formats (sh_state sh)"
  "formats (sh_state (clear_seek_if_landed sh)) = formats (sh_state sh)"
  "formats (sh_state (update_progress f pos sh)) = formats (sh_state sh)"
  "formats (sh_state (clamp_to_seekable_window now sh)) = formats (sh_state sh)"
  "formats (on_next_request_policy now policy st) = formats st"
  "formats (context_updated u st) = formats st"
proof -
  show "formats (sh_state (discard_pending pend sh)) = formats (sh_state sh)"
    unfolding discard_pending_def by (subst fold_state) auto
  show r: "formats (sh_state (reestimate_inexact_durations sh)) = formats (sh_state sh)" for sh
    unfolding reestimate_inexact_durations_def by (subst fold_state) (auto intro: fold_state)
  show "formats (sh_state (on_live_metadata m sh)) = formats (sh_state sh)"
    by (simp add: on_live_metadata_def Let_def r)
  show a: "formats (sh_state (apply_sabr_seek now p sh)) = formats (sh_state sh)" for p
    by (simp add: apply_sabr_seek_def Let_def self_notify_def split: seek_verdict.split)
  show "formats (sh_state (clamp_to_seekable_window now sh)) = formats (sh_state sh)"
    by (auto simp: clamp_to_seekable_window_def Let_def a split: option.split)
qed (simp_all add: clear_seek_if_landed_def update_progress_def on_next_request_policy_def context_updated_def Let_def
      split: option.split)

lemma formats_policy [simp]: "formats (context_policy_applied q st) = formats st"
proof -
  have "formats (fold f ts st) = formats st" if "\<And>t st. formats (f t st) = formats st" for f :: "int \<Rightarrow> state \<Rightarrow> state" and ts st
    using that by (induction ts arbitrary: st) auto
  then show ?thesis by (simp add: context_policy_applied_def Let_def)
qed

lemma on_part_formats:
  assumes "formats_ok (cs_shared c)" and "on_part p ks now part c = (res, c')"
  shows "formats_ok (cs_shared c')"
proof -
  have arm: "formats_ok (cs_shared c')" if "with_message r c f = (res, c')"
    and "\<And>x. formats_ok (cs_shared (f x))" for r :: "string + 'x" and f
    using that(1) by (rule with_message_cases) (use that(2) assms(1) in auto)
  have same: "formats_ok (cs_shared (set_shared c sh))" if "formats (sh_state sh) = formats (sh_state (cs_shared c))" for sh
    using formats_ok_same [OF assms(1) that] by (simp add: set_shared_def)
  have header: "formats_ok sh'" if "on_media_header ks h l pend (cs_shared c) = (l', pend', sh')" for h l pend l' pend' sh'
  proof -
    let ?key = "format_key_of (mh_itag h) (mh_lmt h) (Some (mh_xtags h))"
    obtain l1 sh1 where ch: "count_header ?key ks l (cs_shared c) = (l1, sh1)" by force
    have ok: "formats_ok sh1"
      using ch adopt_for_ok [OF assms(1)] assms(1) by (auto simp: count_header_def adopt_server_format_def split: if_splits)
    have new: "sh_state s2 = sh_state s1" if "new_segment key h l1 s1 = (l2, s, s2)" for key s1 l2 s s2
      using that by (auto simp: new_segment_def Let_def split: prod.splits if_splits)
    have "sh_state sh' = sh_state sh1"
      using that ch new [of ?key sh1]
      unfolding on_media_header_def Let_def ch prod.case
      by (auto simp: alloc_segment_def split: prod.splits if_splits)
    with ok show ?thesis by (auto intro: formats_ok_same)
  qed
  show ?thesis
  proof (cases "ump_ty part")
    case MediaHeader
    have "with_message (pd_media_header p (ump_data part)) c (\<lambda>header.
        let (l, pend, sh) = on_media_header ks header (cs_local c) (cs_pending c) (cs_shared c)
        in c\<lparr>cs_local := l, cs_pending := pend, cs_shared := sh\<rparr>) = (res, c')"
      using assms(2) MediaHeader by (simp add: on_part_def)
    then show ?thesis by (rule arm) (auto simp: Let_def intro: header split: prod.split)
  next
    case Media
    with assms show ?thesis
      by (auto simp: on_part_def on_media_def Let_def intro: formats_ok_same split: prod.splits option.splits)
  next
    case MediaEnd
    with assms show ?thesis
      by (auto simp: on_part_def on_media_end_def Let_def intro: formats_ok_same split: prod.splits option.splits)
  qed (use assms in \<open>auto simp: on_part_def Let_def decoded_def intro: same elim!: arm split: sum.splits if_splits\<close>)
qed

lemma consume_loop_formats:
  "consume_loop p ks ep waits n fuel reader c = Some (res, c') \<Longrightarrow> formats_ok (cs_shared c) \<Longrightarrow> formats_ok (cs_shared c')"
proof (induction fuel arbitrary: n reader c)
  case (Suc fuel)
  obtain calls now where w: "waits n = (calls, now)" by (cases "waits n")
  define c1 where "c1 = set_shared c (clients calls (cs_shared c))"
  have ok: "formats_ok (cs_shared c1)" using Suc.prems(2) by (simp add: c1_def set_shared_def formats_ok_clients)
  obtain r' nx where u: "ump_next reader = (r', nx)" by force
  note loop = Suc.prems(1) [unfolded consume_loop.simps Let_def w u prod.case c1_def [symmetric]]
  from loop Suc.prems(2) Suc.IH on_part_formats [OF ok] ok show ?case
    by (auto split: if_splits sum.splits option.splits prod.splits)
qed simp

lemma consume_formats:
  assumes "consume p waits now fuel reader pos ks ep l sh = Some (res, l', sh')" and "formats_ok sh"
  shows "formats_ok sh'"
proof -
  let ?c = "\<lparr>cs_redirect = None, cs_seek_to_us = None, cs_pending = [], cs_local = l, cs_shared = sh\<rparr>"
  obtain r c where c: "consume_loop p ks ep waits 0 fuel reader ?c = Some (r, c)"
    using assms(1) by (auto simp: consume_def split: option.splits)
  define d where "d = set_shared c (discard_pending (cs_pending c) (cs_shared c))"
  have ok: "formats_ok (cs_shared d)"
    using formats_ok_same [OF consume_loop_formats [OF c]] assms(2) by (simp add: d_def set_shared_def)
  have fin: "formats_ok sh'" if "finish_response now pos d = (res, l', sh')"
    using that formats_ok_same [OF ok]
    by (auto simp: finish_response_def Let_def split: option.splits if_splits)
  from assms(1) c ok fin show ?thesis
    by (auto simp: consume_def Let_def d_def [symmetric] split: sum.splits)
qed

lemma conclude_formats:
  assumes "conclude env ep video vb audio ab pos red l sh = (res, l', sh')" and "formats_ok sh"
  shows "formats_ok sh'"
proof -
  have vod: "formats (sh_state sh') = formats (sh_state sh)"
    if "conclude_vod now video audio pos adv red l sh = (res, l', sh')" for now adv l sh
    using that by (auto simp: conclude_vod_def Let_def split: if_splits)
  have live: "formats (sh_state sh') = formats (sh_state sh)"
    if "conclude_live cn now adv red l sh = (res, l', sh')" for cn now adv l sh
    using that by (auto simp: conclude_live_def Let_def split: if_splits)
  let ?s = "clear_seek_if_landed sh"
  let ?u = "upd (\<lambda>st. st\<lparr>st_error_backoff_until_ms := 0, st_backoff_until_ms := st_server_backoff_until_ms st\<rparr>) ?s"
  have rest: "formats (sh_state sh') = formats (sh_state s)"
    if "(if sh_is_live s then conclude_live cn now adv red l2 s else conclude_vod now video audio pos adv red l2 s) = (res, l', sh')"
    for s cn now adv l2
    using that vod live by (auto split: if_splits)
  have "formats (sh_state sh') = formats (sh_state sh)"
  proof (cases "epoch ?s = ep")
    case False
    with assms(1) show ?thesis by (auto simp: conclude_def Let_def)
  next
    case True
    with assms(1) rest [of ?u] rest [of ?s] show ?thesis
      unfolding conclude_def Let_def by (auto simp del: set_buffer_simps simp: set_buffer_simps(6) split: if_splits)
  qed
  with assms(2) show ?thesis by (rule formats_ok_same)
qed

lemma receive_formats:
  assumes "receive env ep v vb a ab rr pos answer l sh = Some (res, l', sh')" and "formats_ok sh"
  shows "formats_ok sh'"
proof -
  let ?s = "upd (\<lambda>st. if st_resume_position_us st = rr then st\<lparr>st_resume_position_us := None\<rparr> else st) sh"
  have ok: "formats_ok ?s" using assms(2) by (rule formats_ok_same) simp
  from assms consume_formats [OF _ ok] conclude_formats show ?thesis
    unfolding receive_def Let_def
    by (auto simp del: set_buffer_simps split: sum.splits option.splits prod.splits if_splits)
qed

lemma perform_request_formats:
  assumes "perform_request env l sh = Some (res, l', sh')" and "formats_ok sh"
  shows "formats_ok sh'"
proof -
  define s0 where "s0 = upd (\<lambda>st. st\<lparr>st_aborting := False\<rparr>) sh"
  have ok0: "formats_ok s0" using assms(2) by (rule formats_ok_same) (simp add: s0_def)
  obtain url s1 where u: "append_request_number (st_streaming_url (sh_state s0)) s0 = (url, s1)" by force
  define s2 where "s2 = clients (en_fetch_calls env) (upd (\<lambda>st. st\<lparr>st_last_request_ms := en_clock env 1\<rparr>) s1)"
  have "sh_state s1 = sh_state s0" using u by (auto simp: append_request_number_def Let_def)
  then have ok2: "formats_ok s2"
    unfolding s2_def by (intro formats_ok_clients formats_ok_same [OF ok0]) simp
  have r: "(if v = None \<and> aud = None then Some (Inl Idle, l, s0) else receive env ep v vb aud ab rr pos answer l0 s2) =
      Some (res, l', sh') \<Longrightarrow> formats_ok sh'" for v aud ep vb ab rr pos answer l0
    using ok0 receive_formats [OF _ ok2, of env ep v vb aud ab rr pos answer l0 res l' sh'] by (auto split: if_splits)
  show ?thesis
    using assms(1) unfolding perform_request_def s0_def [symmetric] Let_def u prod.case s2_def [symmetric] by (rule r)
qed

lemma await_demand_formats: "await_demand turns sh = Some sh' \<Longrightarrow> formats_ok sh \<Longrightarrow> formats_ok sh'"
proof (induction turns arbitrary: sh)
  case Nil
  then show ?case by (auto simp: await_demand.simps [of "[]"] split: if_splits)
next
  case (Cons calls turns)
  then show ?case
    using formats_ok_clients [of sh calls] by (auto simp: await_demand.simps [of "calls # turns"] split: if_splits)
qed

lemma pump_once_formats:
  assumes "pump_once env l sh = Some (res, l', sh')" and "formats_ok sh"
  shows "formats_ok sh'"
proof -
  obtain s1 where s1: "await_demand (pe_turns env) sh = Some s1"
    using assms(1) by (auto simp: pump_once_def split: option.splits)
  have i1: "formats_ok s1" by (rule await_demand_formats [OF s1 assms(2)])
  obtain evs wait l2 where h: "honour_backoff (pe_now env) l s1 = (evs, wait, l2)" using prod_cases3 by blast
  have i2: "formats_ok (fold emit evs s1)" by (rule formats_ok_same [OF i1]) (simp add: fold_state)
  have i3: "formats_ok (evict_consumed_segments (fold emit evs s1))"
    by (rule formats_ok_same [OF i2]) (simp add: evict_consumed_segments_def Let_def)
  show ?thesis
    using assms(1) s1 h i1 formats_ok_clients [OF i2] perform_request_formats [OF _ i3]
    by (auto simp: pump_once_def Let_def split: if_splits option.splits)
qed

lemma pump_outcome_formats: "pump_outcome now res l sh = (ended, l', sh') \<Longrightarrow> formats (sh_state sh') = formats (sh_state sh)"
  by (auto simp: pump_outcome_def set_fatal_def Let_def split: sum.splits pump_step.splits if_splits)

lemma pump_turns_formats:
  assumes "pump_turns envs l sh = Some (ended, l', sh')" and "formats_ok sh"
  shows "formats_ok sh'"
  using assms
proof (induction envs arbitrary: l sh)
  case (Cons env envs)
  show ?case
  proof (cases "sh_released sh")
    case False
    with Cons.prems(1) obtain res l1 s1 where p: "pump_once env l sh = Some (res, l1, s1)"
      by (auto split: option.splits)
    obtain e l2 s2 where o: "pump_outcome (pe_error_now env) res l1 s1 = (e, l2, s2)" using prod_cases3 by blast
    have "formats_ok s2"
      by (rule formats_ok_same [OF pump_once_formats [OF p Cons.prems(2)] pump_outcome_formats [OF o]])
    with Cons p o False show ?thesis by (auto split: bool.splits)
  qed (use Cons.prems in auto)
qed auto

text \<open>
  The server chooses only among what the caller accepts: after any run of the pump with any calls in
  between, the active format of a role is one of the formats its demand lists, and the keys of all of
  them are remembered, so that their segments never count as foreign.
\<close>

theorem active_format_is_acceptable:
  assumes "run envs (clients calls (session_new engines spec now)) = Some (ended, sh)"
    and "active_format r sh = Some f"
  shows "\<exists>d. demand_of r (sh_state sh) = Some d \<and> f \<in> set (dm_alternates d) \<and>
    sabr_format_key ` set (dm_alternates d) \<subseteq> st_demanded_keys (sh_state sh)"
proof -
  have "formats_ok (session_new engines spec now)"
    by (auto simp: formats_ok_def session_new_def state_new_def demand_of_def split: role.splits)
  then have "formats_ok (clients calls (session_new engines spec now))" by (rule formats_ok_clients)
  then have "formats_ok sh" using assms(1) pump_turns_formats by (auto simp: run_def split: if_splits)
  with assms(2) show ?thesis by (auto simp: active_format_def dest: formats_okD)
qed

section \<open>Patience\<close>

text \<open>
  A server that answers every request with success and no part, while nobody calls the session. What
  the pump knows of it is how many answers were empty and how many of them it took as errors.
\<close>

definition silent_turn :: "pump_env \<Rightarrow> bool" where
  "silent_turn env \<longleftrightarrow>
     set (pe_turns env) \<subseteq> {[]} \<and> pe_backoff_calls env = [] \<and> en_fetch_calls (pe_request env) = [] \<and>
     (\<forall>n. fst (en_waits (pe_request env) n) = []) \<and>
     (\<forall>url body hs. en_fetch (pe_request env) url body hs = Inr (200, []))"

definition unanswered :: "shared \<Rightarrow> bool" where
  "unanswered sh \<longleftrightarrow>
     \<not> sh_released sh \<and> \<not> sh_is_live sh \<and> demands (sh_state sh) \<noteq> [] \<and>
     st_format_initialization (sh_state sh) = (\<lambda>_. None) \<and> st_format_complete (sh_state sh) = {} \<and>
     (\<forall>key. self_buffer sh key = track_buffer_new key)"

definition tries :: "nat \<Rightarrow> pump_local \<Rightarrow> shared \<Rightarrow> bool" where
  "tries n l sh \<longleftrightarrow>
     n \<le> 10 \<and> unanswered sh \<and> sh_request_number sh = int n \<and> pl_empty_responses l = int n \<and>
     pl_consecutive_errors l = (if n < 8 then 0 else int n - 7) \<and> st_fatal (sh_state sh) = None"

lemma demands_Nil: "demands st = [] \<longleftrightarrow> st_video_demand st = None \<and> st_audio_demand st = None"
  by (cases "st_video_demand st"; cases "st_audio_demand st") (simp_all add: demands_def List.map_filter_def)

lemma unanswered_same:
  assumes "unanswered sh" and "formats (sh_state sh') = formats (sh_state sh)"
    and "st_format_initialization (sh_state sh') = st_format_initialization (sh_state sh)"
    and "st_format_complete (sh_state sh') = st_format_complete (sh_state sh)"
    and "sh_buffers sh' = sh_buffers sh" and "sh_released sh' = sh_released sh" and "sh_is_live sh' = sh_is_live sh"
  shows "unanswered sh'"
proof -
  have "demands (sh_state sh') = [] \<longleftrightarrow> demands (sh_state sh) = []"
    using assms(2) unfolding demands_Nil formats_def
    by (cases "st_video_demand (sh_state sh)"; cases "st_audio_demand (sh_state sh)") auto
  with assms show ?thesis by (simp add: unanswered_def self_buffer_def)
qed

lemma unanswered_incomplete: "unanswered sh \<Longrightarrow> \<not> is_complete sh f"
  by (simp add: unanswered_def is_complete_def Let_def)

lemma unanswered_needs_data: "unanswered sh \<Longrightarrow> needs_data sh"
proof -
  assume u: "unanswered sh"
  then have b: "self_buffer sh key = track_buffer_new key" for key by (simp add: unanswered_def)
  have "needs_data_for sh d t" for d t
    using unanswered_incomplete [OF u]
    by (simp add: needs_data_for_def b Let_def track_buffer_new_def buffered_end_us_def)
  moreover have "st_video_demand (sh_state sh) \<noteq> None \<or> st_audio_demand (sh_state sh) \<noteq> None"
    using u by (simp add: unanswered_def demands_Nil)
  ultimately show ?thesis by (auto simp: needs_data_def Let_def split: option.splits)
qed

lemma consume_nothing:
  assumes "\<not> sh_released sh" and "fst (waits 0) = []"
  shows "consume p waits now (Suc (bytes_left (ump_reader_new []))) (ump_reader_new []) pos ks (epoch sh) l sh =
    Some (Inr False, l, sh)"
proof -
  have "ump_next (ump_reader_new []) = ((ump_reader_new [])\<lparr>ur_eof := True\<rparr>, Inr None)"
    by (simp add: ump_next_def ump_ensure.simps ump_fill_def ump_reader_new_def)
  then show ?thesis
    using assms by (cases "waits 0")
      (simp add: consume_def set_shared_def clients_def discard_pending_def finish_response_def Let_def)
qed

lemma silent_request:
  assumes "unanswered sh" and "silent_turn env" and "perform_request (pe_request env) l sh = Some (res, l', sh')"
  shows "unanswered sh' \<and> sh_request_number sh' = i32 (sh_request_number sh + 1) \<and>
    st_fatal (sh_state sh') = st_fatal (sh_state sh) \<and>
    pl_empty_responses l' = i32 (pl_empty_responses l + 1) \<and> pl_consecutive_errors l' = pl_consecutive_errors l \<and>
    (if MAX_EMPTY_RESPONSES \<le> pl_empty_responses l' then \<exists>e. res = Inl (StepError e) else res = Inr ())"
proof -
  let ?env = "pe_request env"
  define s0 where "s0 = upd (\<lambda>st. st\<lparr>st_aborting := False\<rparr>) sh"
  obtain url s1 where u: "append_request_number (st_streaming_url (sh_state s0)) s0 = (url, s1)" by force
  define s2 where "s2 = upd (\<lambda>st. st\<lparr>st_last_request_ms := en_clock ?env 1\<rparr>) s1"
  let ?v = "map_option dm_format (st_video_demand (sh_state s0))" and ?a = "map_option dm_format (st_audio_demand (sh_state s0))"
  define s3 where "s3 = upd (\<lambda>st. if st_resume_position_us st = st_resume_position_us (sh_state s0)
      then st\<lparr>st_resume_position_us := None\<rparr> else st) s2"
  define s4 where "s4 = clear_seek_if_landed s3"
  have n1: "sh_state s1 = sh_state s0" "sh_request_number s1 = i32 (sh_request_number sh + 1)"
      "sh_buffers s1 = sh_buffers sh" "sh_released s1 = sh_released sh" "sh_is_live s1 = sh_is_live sh"
    using u by (auto simp: append_request_number_def Let_def s0_def upd_def)
  have n4: "sh_request_number s4 = i32 (sh_request_number sh + 1)" "sh_buffers s4 = sh_buffers sh"
      "sh_released s4 = sh_released sh" "sh_is_live s4 = sh_is_live sh" "epoch s4 = epoch s0"
      "\<not> st_aborting (sh_state s4)" "formats (sh_state s4) = formats (sh_state sh)"
      "st_format_initialization (sh_state s4) = st_format_initialization (sh_state sh)"
      "st_format_complete (sh_state s4) = st_format_complete (sh_state sh)"
      "st_fatal (sh_state s4) = st_fatal (sh_state sh)"
    using n1 by (auto simp: s4_def clear_seek_if_landed_def s3_def s2_def s0_def upd_def split: option.split)
  have u4: "unanswered s4" by (rule unanswered_same [OF assms(1)]) (use n4 in auto)
  have some: "\<not> (?v = None \<and> ?a = None)"
    using assms(1) by (simp add: unanswered_def demands_Nil s0_def)
  have rel: "\<not> sh_released s2" and live: "\<not> sh_is_live s4" using assms(1) n1 n4 by (simp_all add: unanswered_def s2_def)
  have buf: "self_buffer s1 key = track_buffer_new key" "self_buffer s4 key = track_buffer_new key" for key
    using assms(1) u4 n1(3) by (simp_all add: unanswered_def self_buffer_def)
  have adv: "\<not> has_advanced s4 ?v (count_and_init s1 ?v) ?a (count_and_init s1 ?a)"
    by (auto simp: has_advanced_def advanced_for_def count_and_init_def buf Let_def track_buffer_new_def segment_count_def
        split: option.split)
  have prog: "update_progress f pos s4 = s4" for f pos
    using u4 by (simp add: update_progress_def unanswered_def Let_def split: option.split)
  let ?l = "l\<lparr>pl_demanded_headers := 0, pl_foreign_headers := 0\<rparr>"
  have fin: "\<not> ((case ?v of None \<Rightarrow> True | Some f \<Rightarrow> is_complete s4 f) \<and> (case ?a of None \<Rightarrow> True | Some f \<Rightarrow> is_complete s4 f))"
    using some unanswered_incomplete [OF u4] by (auto split: option.splits)
  have vod: "unanswered sh'' \<and> st_fatal (sh_state sh'') = st_fatal (sh_state s4) \<and> sh_request_number sh'' = sh_request_number s4 \<and>
      pl_empty_responses l'' = i32 (pl_empty_responses l + 1) \<and> pl_consecutive_errors l'' = pl_consecutive_errors l \<and>
      (if MAX_EMPTY_RESPONSES \<le> pl_empty_responses l'' then \<exists>e. res' = Inl (StepError e) else res' = Inr ())"
    if "conclude_vod now ?v ?a pos False False ?l s4 = (res', l'', sh'')" for now pos res' l'' sh''
  proof -
    let ?delay = "backoff_delay EMPTY_BACKOFF_BASE_MS (i32 (pl_empty_responses l + 1))"
    let ?s = "upd (\<lambda>st. st\<lparr>st_backoff_until_ms := max (st_backoff_until_ms st) (i64 (now + ?delay))\<rparr>) s4"
    have "unanswered ?s" by (rule unanswered_same [OF u4]) (simp_all add: upd_def)
    moreover have "sh_request_number ?s = sh_request_number s4" "st_fatal (sh_state ?s) = st_fatal (sh_state s4)"
      by (simp_all add: upd_def)
    moreover have "sh'' = ?s \<and> l'' = ?l\<lparr>pl_empty_responses := i32 (pl_empty_responses l + 1)\<rparr> \<and>
        (if MAX_EMPTY_RESPONSES \<le> i32 (pl_empty_responses l + 1) then \<exists>e. res' = Inl (StepError e) else res' = Inr ())"
      using that n4(6) fin unfolding conclude_vod_def Let_def prog by (auto split: if_splits)
    ultimately show ?thesis by simp
  qed
  have "conclude ?env (epoch s0) ?v (count_and_init s1 ?v) ?a (count_and_init s1 ?a) (request_position_us s0) False ?l s3 =
      (res, l', sh')"
  proof -
    have rc: "record_throughput 0 t m k = k" for t m k by (simp add: record_throughput_def THROUGHPUT_MIN_BYTES_def)
    have w: "fst (en_waits ?env 0) = []" and f: "en_fetch ?env ur bo hs = Inr (200, [])"
      and c: "clients (en_fetch_calls ?env) s2 = s2" for ur bo hs
      using assms(2) by (simp_all add: silent_turn_def clients_def)
    have "\<not> sh_released s3" "epoch s3 = epoch s0" using rel n1 by (simp_all add: s3_def s2_def)
    from consume_nothing [OF this(1), where waits = "en_waits ?env", OF w] this(2)
    have cn: "consume p (en_waits ?env) now (Suc (bytes_left (ump_reader_new []))) (ump_reader_new []) pos ks (epoch s0) k s3 =
        Some (Inr False, k, s3)" for p now pos ks k by simp
    have "receive ?env (epoch s0) ?v (count_and_init s1 ?v) ?a (count_and_init s1 ?a) (st_resume_position_us (sh_state s0))
        (request_position_us s0) (Inr (200, [])) ?l s2 = Some (res, l', sh')"
      using assms(3) unfolding perform_request_def s0_def [symmetric] Let_def u prod.case s2_def [symmetric] c f
        if_not_P [OF some] .
    then show ?thesis
      using rel unfolding receive_def Let_def sum.case prod.case s3_def [symmetric] cn option.case
      by (simp add: rc swrap_def)
  qed
  then have "conclude_vod (en_clock ?env 6) ?v ?a (request_position_us s0) False False ?l s4 = (res, l', sh')"
    using adv live n4(5) unfolding conclude_def Let_def s4_def [symmetric] by simp
  from vod [OF this] n4(1,10) show ?thesis by simp
qed

lemma await_silent: "set turns \<subseteq> {[]} \<Longrightarrow> unanswered sh \<Longrightarrow> await_demand turns sh = Some sh"
  by (simp add: await_demand.simps [of turns] unanswered_needs_data)

lemma honour_backoff_counts:
  "honour_backoff now l sh = (evs, wait, l') \<Longrightarrow>
     pl_empty_responses l' = pl_empty_responses l \<and> pl_consecutive_errors l' = pl_consecutive_errors l"
  by (auto simp: honour_backoff_def Let_def split: if_splits)

lemma emits_same:
  "sh_state (fold emit evs sh) = sh_state sh \<and> sh_buffers (fold emit evs sh) = sh_buffers sh \<and>
     sh_released (fold emit evs sh) = sh_released sh \<and> sh_is_live (fold emit evs sh) = sh_is_live sh \<and>
     sh_request_number (fold emit evs sh) = sh_request_number sh"
  by (induction evs arbitrary: sh) (auto simp: emit_def)

lemma tries_same:
  assumes "tries n l sh" and "sh_state sh' = sh_state sh" and "sh_released sh' = sh_released sh"
    and "sh_is_live sh' = sh_is_live sh" and "sh_request_number sh' = sh_request_number sh"
    and "\<And>key. self_buffer sh' key = self_buffer sh key"
    and "pl_empty_responses l' = pl_empty_responses l" and "pl_consecutive_errors l' = pl_consecutive_errors l"
  shows "tries n l' sh'"
  using assms by (simp add: tries_def unanswered_def)

lemma evict_unanswered:
  assumes "unanswered sh"
  shows "self_buffer (evict_consumed_segments sh) key = track_buffer_new key"
  using assms by (auto simp: evict_consumed_segments_def Let_def self_buffer_all unanswered_def evict_before_def
      track_buffer_new_def remove_all_def)

lemma silent_pump_turn:
  assumes "tries n l sh" and "silent_turn env"
  shows "\<exists>res l1 s1. pump_once env l sh = Some (res, l1, s1) \<and>
    (case pump_outcome now res l1 s1 of (ended, l2, s2) \<Rightarrow>
       (if ended then n = 10 \<and> sh_request_number s2 = 11 \<and> st_fatal (sh_state s2) \<noteq> None
        else tries n l2 s2 \<or> tries (Suc n) l2 s2))"
proof -
  obtain evs wait l0 where h: "honour_backoff (pe_now env) l sh = (evs, wait, l0)" using prod_cases3 by blast
  let ?s = "fold emit evs sh"
  have s: "tries n l0 ?s"
    by (rule tries_same [OF assms(1)]) (use emits_same [of evs sh] honour_backoff_counts [OF h] in \<open>simp_all add: self_buffer_def\<close>)
  have aw: "await_demand (pe_turns env) sh = Some sh" and rel: "\<not> sh_released sh"
    using assms by (auto simp: silent_turn_def tries_def unanswered_def intro: await_silent [simplified])
  show ?thesis
  proof (cases wait)
    case (Some t)
    have "clients (pe_backoff_calls env) ?s = ?s" using assms(2) by (simp add: silent_turn_def clients_def)
    with Some aw rel h s show ?thesis by (simp add: pump_once_def pump_outcome_def)
  next
    case None
    let ?e = "evict_consumed_segments ?s"
    have u: "unanswered ?s" using s by (simp add: tries_def)
    have e: "tries n l0 ?e"
    proof (rule tries_same [OF s])
      show "self_buffer ?e key = self_buffer ?s key" for key
        using evict_unanswered [OF u, of key] u by (simp add: unanswered_def)
    qed (auto simp: evict_consumed_segments_def Let_def all_buffers_def)
    obtain res l1 s1 where p: "perform_request (pe_request env) l0 ?e = Some (res, l1, s1)"
      using pump_once_None_iff [of env l sh] aw rel h None by (auto simp: pump_once_def)
    from e have small: "n \<le> 10" and ue: "unanswered ?e" and f: "st_fatal (sh_state ?e) = None"
      by (simp_all add: tries_def)
    have i: "i32 (int n + 1) = int (Suc n)" using small by (simp add: swrap_def)
    have j: "i32 (int n - 6) = int n - 6" if "7 \<le> n" using that small by (simp add: swrap_def)
    from silent_request [OF ue assms(2) p] e i
    have r: "unanswered s1" "sh_request_number s1 = int (Suc n)" "pl_empty_responses l1 = int (Suc n)"
        "st_fatal (sh_state s1) = None" "pl_consecutive_errors l1 = (if n < 8 then 0 else int n - 7)"
        "if 8 \<le> Suc n then \<exists>e. res = Inl (StepError e) else res = Inr ()"
      by (auto simp: tries_def MAX_EMPTY_RESPONSES_def)
    have un: "unanswered (upd f s)" if "unanswered s" "\<And>st. formats (f st) = formats st"
        "\<And>st. st_format_initialization (f st) = st_format_initialization st" "\<And>st. st_format_complete (f st) = st_format_complete st" for f s
      by (rule unanswered_same [OF that(1)]) (use that in \<open>simp_all add: upd_def\<close>)
    have em: "unanswered (emit ev s1)" for ev
      by (rule unanswered_same [OF r(1)]) (simp_all add: emit_def)
    have rels: "\<not> sh_released s1" using r(1) by (simp add: unanswered_def)
    have num: "sh_request_number (upd g s1) = sh_request_number s1" "sh_request_number (emit ev s1) = sh_request_number s1"
      "sh_request_number (upd g (emit ev s1)) = sh_request_number s1" "sh_request_number (set_fatal er (emit ev s1)) = sh_request_number s1" for g ev er
      by (simp_all add: upd_def emit_def set_fatal_def all_buffers_def)
    have out: "case pump_outcome now res l1 s1 of (ended, l2, s2) \<Rightarrow>
       (if ended then n = 10 \<and> sh_request_number s2 = 11 \<and> st_fatal (sh_state s2) \<noteq> None
        else tries n l2 s2 \<or> tries (Suc n) l2 s2)"
    proof (cases "8 \<le> Suc n")
      case False
      with r have "res = Inr ()" by simp
      with False r small num show ?thesis
        by (auto simp: pump_outcome_def tries_def intro!: un)
    next
      case True
      with r(6) obtain er where er: "res = Inl (StepError er)" by auto
      have c: "i32 (pl_consecutive_errors l1 + 1) = int n - 6" using r(5) True small by (auto simp: swrap_def)
      show ?thesis
      proof (cases "n = 10")
        case True
        with er c rels r num show ?thesis
          by (simp add: pump_outcome_def Let_def MAX_CONSECUTIVE_ERRORS_def set_fatal_def)
      next
        case False
        with er c rels r(2,3,4) num small True show ?thesis
          by (auto simp: pump_outcome_def Let_def MAX_CONSECUTIVE_ERRORS_def tries_def intro!: un em)
      qed
    qed
    have "pump_once env l sh = Some (res, l1, s1)" using aw rel h None p by (simp add: pump_once_def)
    with out show ?thesis by (intro exI conjI)
  qed
qed

lemma silent_pump_turns:
  assumes "\<forall>env \<in> set envs. silent_turn env" and "tries n l sh"
  shows "\<exists>ended l' sh'. pump_turns envs l sh = Some (ended, l', sh') \<and>
    (if ended then sh_request_number sh' = 11 \<and> st_fatal (sh_state sh') \<noteq> None
     else sh_request_number sh' \<le> 10 \<and> st_fatal (sh_state sh') = None)"
  using assms
proof (induction envs arbitrary: n l sh)
  case Nil
  then show ?case by (auto simp: tries_def unanswered_def)
next
  case (Cons env envs)
  have rel: "\<not> sh_released sh" using Cons.prems(2) by (simp add: tries_def unanswered_def)
  from silent_pump_turn [OF Cons.prems(2), of env "pe_error_now env"] Cons.prems(1)
  obtain res l1 s1 where p: "pump_once env l sh = Some (res, l1, s1)"
    and o: "case pump_outcome (pe_error_now env) res l1 s1 of (ended, l2, s2) \<Rightarrow>
       (if ended then n = 10 \<and> sh_request_number s2 = 11 \<and> st_fatal (sh_state s2) \<noteq> None
        else tries n l2 s2 \<or> tries (Suc n) l2 s2)" by auto
  obtain e l2 s2 where q: "pump_outcome (pe_error_now env) res l1 s1 = (e, l2, s2)" using prod_cases3 by blast
  show ?case
  proof (cases e)
    case True
    with p q rel have "pump_turns (env # envs) l sh = Some (True, l2, s2)" by simp
    with True o q show ?thesis by auto
  next
    case False
    with o q obtain m where "tries m l2 s2" by auto
    from Cons.IH [OF _ this] Cons.prems(1) p q rel False show ?thesis by simp
  qed
qed

text \<open>
  A server that accepts every request and answers none of them with a part is given up after exactly
  eleven requests: eight empty answers make an error, and the fourth error in a row is fatal. Until then
  every turn returns, and the pump is still running.
\<close>

theorem silent_server_given_up:
  assumes "unanswered sh" and "sh_request_number sh = 0" and "st_fatal (sh_state sh) = None"
    and "\<forall>env \<in> set envs. silent_turn env"
  shows "\<exists>ended sh'. run envs sh = Some (ended, sh') \<and>
    (if ended then sh_request_number sh' = 11 \<and> st_fatal (sh_state sh') \<noteq> None
     else sh_request_number sh' \<le> 10 \<and> st_fatal (sh_state sh') = None)"
proof -
  have "tries 0 pump_local_default sh" using assms by (simp add: tries_def pump_local_default_def)
  from silent_pump_turns [OF assms(4) this] obtain ended l' sh'
    where p: "pump_turns envs pump_local_default sh = Some (ended, l', sh')"
      and r: "if ended then sh_request_number sh' = 11 \<and> st_fatal (sh_state sh') \<noteq> None
        else sh_request_number sh' \<le> 10 \<and> st_fatal (sh_state sh') = None" by blast
  have "run envs sh = Some (ended, sh')" using assms(1,3) p by (simp add: run_def unanswered_def)
  with r show ?thesis by blast
qed

section \<open>Ticks\<close>

lemma sdiv_nonneg: "0 \<le> a \<Longrightarrow> 0 < b \<Longrightarrow> a sdiv b = a div (b :: int)"
  by (cases "a = 0") (simp_all add: signed_divide_int_def)

lemma smod_nonneg: "0 \<le> a \<Longrightarrow> 0 < b \<Longrightarrow> a smod b = a mod (b :: int)"
  by (cases "a = 0") (simp_all add: signed_modulo_int_def)

lemma split_scale:
  fixes a b m :: int
  assumes "0 < b"
  shows "a div b * m + a mod b * m div b = a * m div b"
proof -
  have "a * m = b * (a div b * m) + a mod b * m"
    by (simp add: distrib_right [symmetric] mult.assoc [symmetric])
  then have "a * m div b = (b * (a div b * m) + a mod b * m) div b" by (rule arg_cong)
  also have "\<dots> = a div b * m + a mod b * m div b"
    using assms div_mult_self2 [of b "a mod b * m" "a div b * m"] by (simp add: add.commute)
  finally show ?thesis by simp
qed

lemma scaled_range:
  fixes a b m :: int
  assumes "0 \<le> a" and "0 < b" and "b < 2 ^ 31" and "0 < m" and "m < 2 ^ 31" and "a * m div b < 2 ^ 63"
  shows "i64 (i64 (a sdiv b * m) + i64 (a smod b * m) sdiv b) = a * m div b"
proof -
  have mod_le: "a mod b < b" "0 \<le> a mod b" using assms by simp_all
  have mm: "a mod b * m < 2 ^ 62"
  proof -
    have "a mod b * m \<le> (2 ^ 31 - 1) * (2 ^ 31 - 1)" using mod_le assms by (intro mult_mono) linarith+
    then show ?thesis by simp
  qed
  have parts: "0 \<le> a div b * m" "0 \<le> a mod b * m div b" "0 \<le> a mod b * m"
    using assms mod_le by (simp_all add: pos_imp_zdiv_nonneg_iff)
  have sum: "a div b * m + a mod b * m div b = a * m div b" by (rule split_scale [OF assms(2)])
  have "i64 (a div b * m) = a div b * m" using parts sum assms(6) by (intro swrap_id) (simp_all add: in_srange_def)
  moreover have "i64 (a mod b * m) = a mod b * m" using parts mm by (intro swrap_id) (simp_all add: in_srange_def)
  moreover have "i64 (a * m div b) = a * m div b" using sum parts assms(6) by (intro swrap_id) (auto simp: in_srange_def)
  ultimately show ?thesis
    using assms parts sum by (simp add: sdiv_nonneg smod_nonneg)
qed

text \<open>
  Times on the wire are ticks of any scale; converting them to microseconds is exact rounding down as
  long as the result fits 64 bits, the product of ticks and a million need not, and converting back
  never exceeds the ticks and falls short of them by at most one microsecond's worth of ticks.
\<close>

theorem ticks_conversion:
  assumes "0 \<le> ticks" and "0 < scale" and "scale < 2 ^ 31" and "ticks * 1000000 div scale < 2 ^ 63"
    and "ticks < 2 ^ 63"
  shows "ticks_to_us ticks scale = ticks * 1000000 div scale \<and>
    us_to_ticks (ticks_to_us ticks scale) scale \<le> ticks \<and>
    ticks - us_to_ticks (ticks_to_us ticks scale) scale \<le> scale div 1000000 + 1"
proof -
  let ?us = "ticks * 1000000 div scale"
  have us: "ticks_to_us ticks scale = ?us"
    unfolding ticks_to_us_def MICROS_PER_SECOND_def by (rule scaled_range) (use assms in auto)
  have pos: "0 \<le> ?us" using assms by (simp add: pos_imp_zdiv_nonneg_iff)
  have up: "?us * scale \<le> ticks * 1000000" using assms(2) by (simp add: minus_mod_eq_div_mult [symmetric])
  have "ticks * 1000000 mod scale < scale" using assms(2) by simp
  moreover have "?us * scale + ticks * 1000000 mod scale = ticks * 1000000" by (rule div_mult_mod_eq)
  ultimately have low: "ticks * 1000000 < ?us * scale + scale" by linarith
  have le: "?us * scale div 1000000 \<le> ticks" using zdiv_mono1 [OF up, of 1000000] by simp
  have ret: "us_to_ticks ?us scale = ?us * scale div 1000000"
    unfolding us_to_ticks_def MICROS_PER_SECOND_def by (rule scaled_range) (use assms pos le in auto)
  have "ticks - ?us * scale div 1000000 \<le> scale div 1000000 + 1"
    using low by linarith
  with us ret le show ?thesis by simp
qed

section \<open>Examples\<close>

definition sample_done :: "int \<Rightarrow> segment" where
  "sample_done seq =
     (mark_complete (seg_append [1, 2] (segment_new sample_key seq False (seq * 5000000) 5000000 0 0 0)))"

definition sample_held :: shared where
  "sample_held =
     (upd (\<lambda>st. st\<lparr>st_format_initialization :=
          [sample_key \<mapsto> \<lparr>fi_format_id = None, fi_end_time_ms = 0, fi_end_segment_number = 9\<rparr>]\<rparr>)
       (set_buffer sample_key
          (track_buffer_new sample_key\<lparr>tb_segments := [(1, 1), (3, 3), (4, 4)]\<rparr>) sample_session))
     \<lparr>sh_heap := (\<lambda>n. sample_done (int n)), sh_next := 5\<rparr>"

lemma buffered_ranges_are_held_witness:
  "\<exists>r f. rq_buffered_ranges (build_request 0 10 (clients [(0, AdvanceDemand Video 16000000)] sample_held)
       pump_local_default (Some sample_format) None 0) = [r] \<and>
     br_format_id r = to_format_id f \<and> br_start_segment_index r = 3 \<and> br_end_segment_index r = 4 \<and>
     complete_at (sh_heap sample_held) (self_buffer sample_held (sabr_format_key f)) 3 \<and>
     \<not> complete_at (sh_heap sample_held) (self_buffer sample_held (sabr_format_key f)) 5"
proof -
  let ?sh = "clients [(0, AdvanceDemand Video 16000000)] sample_held"
  let ?rs = "rq_buffered_ranges (build_request 0 10 ?sh pump_local_default (Some sample_format) None 0)"
  have ev: "map (\<lambda>r. (br_start_segment_index r, br_end_segment_index r)) ?rs = [(3, 4)]" by code_simp
  then obtain r where r: "?rs = [r]" "br_start_segment_index r = 3" "br_end_segment_index r = 4" by auto
  have b: "self_buffer ?sh key = self_buffer sample_held key" "sh_heap ?sh = sh_heap sample_held" for key
    by (simp_all add: clients_def advance_demand_def split: option.split)
  have "self_buffer sample_held key = (if key = sample_key
      then track_buffer_new sample_key\<lparr>tb_segments := [(1, 1), (3, 3), (4, 4)]\<rparr> else track_buffer_new key)" for key
    by (simp add: sample_held_def self_buffer_def set_buffer_def sample_session_def clients_def upd_def
        set_demand_alternates_def session_new_def Let_def self_notify_def)
  then have wf: "\<forall>key. sorted_map (tb_segments (self_buffer ?sh key)) \<and> seqs_ok (tb_segments (self_buffer ?sh key))"
    by (auto simp: b track_buffer_new_def sorted_map_def seqs_ok_def)
  have d: "map_option dm_format (st_video_demand (sh_state ?sh)) = Some sample_format"
    "map_option dm_format (st_audio_demand (sh_state ?sh)) = None" by code_simp+
  have "r \<in> set (rq_buffered_ranges (build_request 0 10 ?sh pump_local_default
      (map_option dm_format (st_video_demand (sh_state ?sh))) (map_option dm_format (st_audio_demand (sh_state ?sh))) 0))"
    unfolding d using r(1) by simp
  from buffered_ranges_are_held [OF wf this] r b show ?thesis by auto
qed

lemma server_seek_spec_witness:
  "seek_verdict_of sample_session 100000000 = Reposition \<and>
   sh_server_seek_generation (apply_sabr_seek 7 100000000 sample_session) = 1"
proof -
  have v: "seek_verdict_of sample_session 100000000 = Reposition" by code_simp
  have "st_restart_epoch (sh_state sample_session) = 0 \<and> sh_server_seek_generation sample_session = 0" by code_simp
  with server_seek_spec [of sample_session 7 100000000, OF _ refl] v show ?thesis by (simp add: in_srange_def)
qed

text \<open>The reader restarts after the header of the sample response has come.\<close>

definition interrupted_request :: request_env where
  "interrupted_request =
     (sample_request sample_body)\<lparr>en_waits := (\<lambda>n. if n = 1 then ([(5, Restart 90000000 False)], 6) else ([], 6))\<rparr>"

lemma restart_discards_old_media_witness:
  "\<exists>l' sh'. perform_request interrupted_request pump_local_default sample_session = Some (Inr (), l', sh') \<and>
     sh_next sh' = 1 \<and> tb_segments (self_buffer sh' sample_key) = []"
proof -
  have "map_option (\<lambda>(r, l, sh). (r, epoch sh, sh_next sh))
      (perform_request interrupted_request pump_local_default sample_session) = Some (Inr (), 1, 1)"
    by code_simp
  then obtain l' sh' where p: "perform_request interrupted_request pump_local_default sample_session = Some (Inr (), l', sh')"
      "epoch sh' = 1" "sh_next sh' = 1" by auto
  have e: "epoch sample_session = 0" by code_simp
  then have "in_srange 32 (epoch sample_session)" by (simp add: in_srange_def)
  from restart_discards_old_media [OF p(1) _ this] p e show ?thesis by auto
qed

lemma active_format_is_acceptable_witness:
  "\<exists>sh d. run [sample_turn sample_body] sample_session = Some (False, sh) \<and>
     demand_of Video (sh_state sh) = Some d \<and> sample_format \<in> set (dm_alternates d)"
proof -
  have "map_option (\<lambda>(e, sh). (e, active_format Video sh)) (run [sample_turn sample_body] sample_session) =
      Some (False, Some sample_format)"
    by code_simp
  then obtain sh where r: "run [sample_turn sample_body] sample_session = Some (False, sh)"
      "active_format Video sh = Some sample_format" by auto
  from active_format_is_acceptable [OF r(1) [unfolded sample_session_def] r(2)] r(1) show ?thesis by auto
qed

text \<open>Turns forty seconds apart, longer than any backoff.\<close>

definition slow_turn :: "nat \<Rightarrow> pump_env" where
  "slow_turn i =
     \<lparr>pe_turns = [], pe_now = 40000 * int i, pe_backoff_calls = [],
      pe_request = (sample_request [])\<lparr>en_clock := (\<lambda>_. 40000 * int i)\<rparr>, pe_error_now = 40000 * int i\<rparr>"

lemma silent_server_given_up_witness:
  "\<exists>sh'. run (map slow_turn [1..<13]) sample_session = Some (True, sh') \<and>
     sh_request_number sh' = 11 \<and> st_fatal (sh_state sh') \<noteq> None"
proof -
  have ended: "map_option fst (run (map slow_turn [1..<13]) sample_session) = Some True" by code_simp
  have b: "sh_buffers sample_session = []" by code_simp
  have "\<not> sh_released sample_session \<and> \<not> sh_is_live sample_session \<and> demands (sh_state sample_session) \<noteq> [] \<and>
      st_format_complete (sh_state sample_session) = {} \<and> sh_request_number sample_session = 0 \<and>
      st_fatal (sh_state sample_session) = None" by code_simp
  moreover have "st_format_initialization (sh_state sample_session) = (\<lambda>_. None)"
    by (simp add: sample_session_def clients_def set_demand_alternates_def session_new_def state_new_def Let_def
        self_notify_def set_demand_field_def)
  ultimately have u: "unanswered sample_session" "sh_request_number sample_session = 0"
      "st_fatal (sh_state sample_session) = None"
    by (simp_all add: unanswered_def self_buffer_def b)
  have "\<forall>env \<in> set (map slow_turn [1..<13]). silent_turn env"
    by (simp add: silent_turn_def slow_turn_def sample_request_def)
  from silent_server_given_up [OF u this] ended show ?thesis by auto
qed

lemma ticks_conversion_witness:
  "ticks_to_us 450044 90000 = 5000488 \<and> us_to_ticks 5000488 90000 \<le> 450044"
proof -
  have c: "ticks_to_us 450044 90000 = 450044 * 1000000 div 90000 \<and>
      us_to_ticks (ticks_to_us 450044 90000) 90000 \<le> 450044 \<and>
      450044 - us_to_ticks (ticks_to_us 450044 90000) 90000 \<le> 90000 div 1000000 + 1"
    by (rule ticks_conversion) simp_all
  then have t: "ticks_to_us 450044 90000 = 5000488" by simp
  from c show ?thesis unfolding t by simp
qed

end
