(* ===== verification/Session_Stream.thy ===== *)
theory Session_Stream
  imports Driver_Proofs
begin

text \<open>
  A session as a function of its packets: whatever the cuts of the byte stream, the turns of the loop do
  what handling the packets one by one does.
\<close>

section \<open>One packet\<close>

text \<open>The driver, the number of the next packet and the registry before and after a packet.\<close>

type_synonym packet_result = "(effect list \<times> driver \<times> u32 \<times> registry \<times> outcome) option"

definition packet_step :: "library \<Rightarrow> bytes \<Rightarrow> driver \<Rightarrow> u32 \<Rightarrow> registry \<Rightarrow> packet_result" where
  "packet_step lib packet d num ps =
     (case split_packet packet of
        None \<Rightarrow> Some ([], d, num, ps, Failed)
      | Some (code, body) \<Rightarrow>
          (case opcode_try_from code of
             Inl _ \<Rightarrow>
               (case on_invalid_opcode lib num d of
                  (effs, Inl _) \<Rightarrow> Some (effs, d, num, ps, Failed)
                | (effs, Inr _) \<Rightarrow> Some (effs, d, num, ps, Continue))
           | Inr opc \<Rightarrow>
               (case advance lib (PacketEv opc body) (dr_state d) of
                  (res, st) \<Rightarrow>
                    map_option (\<lambda>(effs, d', ps', out).
                      (case out of
                         Inl _ \<Rightarrow> (effs, d', num, ps', Failed)
                       | Inr ended \<Rightarrow>
                           if ended then (effs, d', num, ps', Finished) else (effs, d', num + 1, ps', Continue)))
                      (handle_state_result lib (Some num) res (d\<lparr>dr_state := st\<rparr>) ps))))"

fun packets_run :: "library \<Rightarrow> bytes list \<Rightarrow> driver \<Rightarrow> u32 \<Rightarrow> registry \<Rightarrow> packet_result" where
  "packets_run lib [] d num ps = Some ([], d, num, ps, Continue)"
| "packets_run lib (p # packets) d num ps =
     (case packet_step lib p d num ps of
        None \<Rightarrow> None
      | Some (effs, d', num', ps', Continue) \<Rightarrow>
          map_option (\<lambda>(effs', rest). (effs @ effs', rest)) (packets_run lib packets d' num' ps')
      | Some (effs, d', num', ps', out) \<Rightarrow> Some (effs, d', num', ps', out))"

text \<open>A session that has agreed on its version.\<close>

definition driver_active :: "driver \<Rightarrow> bool" where
  "driver_active d \<longleftrightarrow> \<not> dr_pending_tls_upgrade d \<and> (\<exists>v. st_variant (dr_state d) = Active v)"

lemma packet_step_cases:
  assumes "packet_step lib p d num ps = Some (effs, d', num', ps', out)"
  obtains (unknown) "d' = d" "ps' = ps" "num' = num" "out = Continue \<or> out = Failed"
  | (known) code opc body res st o' where "split_packet p = Some (code, body)" "opcode_try_from code = Inr opc"
      "advance lib (PacketEv opc body) (dr_state d) = (res, st)"
      "handle_state_result lib (Some num) res (d\<lparr>dr_state := st\<rparr>) ps = Some (effs, d', ps', o')"
      "(o' = Inl () \<and> out = Failed \<and> num' = num) \<or> (o' = Inr True \<and> out = Finished \<and> num' = num) \<or>
       (o' = Inr False \<and> out = Continue \<and> num' = num + 1)"
proof (cases "split_packet p")
  case None
  with assms unknown show thesis by (simp add: packet_step_def)
next
  case (Some cb)
  obtain code body where cb: "cb = (code, body)" by force
  show thesis
  proof (cases "opcode_try_from code")
    case (Inl e)
    with assms Some cb unknown show thesis
      by (auto simp: packet_step_def on_invalid_opcode_def split: if_splits)
  next
    case (Inr opc)
    obtain res st where adv: "advance lib (PacketEv opc body) (dr_state d) = (res, st)" by force
    with assms Some cb Inr obtain effs1 d1 ps1 o1
      where h: "handle_state_result lib (Some num) res (d\<lparr>dr_state := st\<rparr>) ps = Some (effs1, d1, ps1, o1)"
      by (auto simp: packet_step_def)
    consider "o1 = Inl ()" | "o1 = Inr True" | "o1 = Inr False" by (cases o1) auto
    then show thesis
      by cases (use known [OF _ Inr adv, of o1] assms Some cb Inr adv h in \<open>auto simp: packet_step_def\<close>)
  qed
qed

lemma packet_step_active:
  assumes "driver_active d" and "packet_step lib p d num ps = Some (effs, d', num', ps', out)"
  shows "driver_active d'"
  using assms(2)
proof (cases rule: packet_step_cases)
  case (known code opc body res st o')
  obtain v where v: "st_variant (dr_state d) = Active v" "\<not> dr_pending_tls_upgrade d"
    using assms(1) by (auto simp: driver_active_def)
  have pe: "packet_event lib opc body (dr_state d) = (res, st)" using known(3) by (simp add: advance_def)
  obtain v' where v': "st_variant st = Active v'"
    using packet_event_spec(2) [OF pe] v(1) by (auto simp: variant_step_Active)
  then have "res \<noteq> Inr UpgradeToTls" using upgrade_requested_iff [OF pe] v(1) by simp
  with handle_state_result_spec [OF known(4)] v(2) v' show ?thesis by (auto simp: driver_active_def)
qed (use assms(1) in simp)

lemma packet_loop_step:
  assumes "get_packet (ss_reader s) = Some (Read p, r)" and "driver_active (ss_driver s)"
    and "packet_step lib p (ss_driver s) (ss_packet_num s) ps = Some (effs, d', num', ps', out)"
  shows "packet_loop lib tls (Suc fuel) s ps =
    (if out = Continue then
       map_option (\<lambda>(effs', rest). (effs @ effs', rest))
         (packet_loop lib tls fuel (s\<lparr>ss_reader := r, ss_driver := d', ss_packet_num := num'\<rparr>) ps')
     else Some (effs, s\<lparr>ss_reader := r, ss_driver := d', ss_packet_num := num'\<rparr>, ps', out))"
proof -
  have pend: "\<not> dr_pending_tls_upgrade d'"
    using packet_step_active [OF assms(2,3)] by (simp add: driver_active_def)
  show ?thesis
  proof (cases "split_packet p")
    case None
    with assms show ?thesis by (simp add: packet_step_def)
  next
    case (Some cb)
    obtain code body where cb: "cb = (code, body)" by force
    show ?thesis
    proof (cases "opcode_try_from code")
      case (Inl e)
      then show ?thesis using assms Some cb
        by (auto simp: packet_step_def Let_def split: prod.splits sum.splits)
    next
      case (Inr opc)
      obtain res st where adv: "advance lib (PacketEv opc body) (dr_state (ss_driver s)) = (res, st)" by force
      with assms(3) Some cb Inr obtain effs1 d1 ps1 o1
        where h: "handle_state_result lib (Some (ss_packet_num s)) res ((ss_driver s)\<lparr>dr_state := st\<rparr>) ps =
          Some (effs1, d1, ps1, o1)"
        by (auto simp: packet_step_def)
      consider "o1 = Inl ()" | "o1 = Inr True" | "o1 = Inr False" by (cases o1) auto
      then show ?thesis
        by cases (use assms(1,3) Some cb Inr adv h pend in \<open>auto simp: packet_step_def Let_def\<close>)
    qed
  qed
qed

section \<open>A chunk, and the stream\<close>

lemma packet_loop_run:
  assumes "reader_sized (ss_reader s)" and "driver_active (ss_driver s)"
    and "length (pending (ss_reader s)) < fuel"
    and "parse_all MAX_PACKET_SIZE (pending (ss_reader s)) = (packets, None, rest)"
    and "packets_run lib packets (ss_driver s) (ss_packet_num s) ps = Some (effs, d', num', ps', out)"
  shows "\<exists>r. packet_loop lib tls fuel s ps =
      Some (effs, s\<lparr>ss_reader := r, ss_driver := d', ss_packet_num := num'\<rparr>, ps', out) \<and>
    (out = Continue \<longrightarrow> reader_sized r \<and> pending r = rest \<and> driver_active d')"
  using assms
proof (induction fuel arbitrary: s packets ps effs)
  case (Suc fuel)
  obtain res r where g: "get_packet (ss_reader s) = Some (res, r)" "reader_sized r"
      "parse_frame MAX_PACKET_SIZE (pending (ss_reader s)) = (res, pending r)"
    using get_packet_sized [OF Suc.prems(1)] .
  show ?case
  proof (cases res)
    case NeedData
    with g Suc.prems(4) have "packets = []" "rest = pending r" by (simp_all add: parse_all.simps [of _ "pending (ss_reader s)"])
    with g NeedData Suc.prems(2,5) show ?thesis by (intro exI [of _ r]) simp
  next
    case (PacketTooLarge n)
    with g Suc.prems(4) show ?thesis by (simp add: parse_all.simps [of _ "pending (ss_reader s)"])
  next
    case (Read p)
    with g Suc.prems(4) obtain packets' where packets: "packets = p # packets'"
        "parse_all MAX_PACKET_SIZE (pending r) = (packets', None, rest)"
      by (auto simp: parse_all.simps [of _ "pending (ss_reader s)"] split: prod.splits)
    have shorter: "length (pending r) < fuel"
      using parse_frame_Read_shorter [of MAX_PACKET_SIZE "pending (ss_reader s)" p "pending r"] g(3) Read Suc.prems(3) by simp
    from Suc.prems(5) packets(1) obtain effs1 d1 num1 ps1 out1
      where st: "packet_step lib p (ss_driver s) (ss_packet_num s) ps = Some (effs1, d1, num1, ps1, out1)"
      by (auto split: option.splits)
    let ?s1 = "s\<lparr>ss_reader := r, ss_driver := d1, ss_packet_num := num1\<rparr>"
    have loop: "packet_loop lib tls (Suc fuel) s ps =
        (if out1 = Continue then map_option (\<lambda>(effs', rest). (effs1 @ effs', rest)) (packet_loop lib tls fuel ?s1 ps1)
         else Some (effs1, ?s1, ps1, out1))"
      using packet_loop_step [OF _ Suc.prems(2) st] g(1) Read by simp
    show ?thesis
    proof (cases "out1 = Continue")
      case True
      with Suc.prems(5) packets(1) st obtain effs2
        where rest: "packets_run lib packets' d1 num1 ps1 = Some (effs2, d', num', ps', out)" "effs = effs1 @ effs2"
        by auto
      have "driver_active d1" by (rule packet_step_active [OF Suc.prems(2) st])
      with Suc.IH [of ?s1 packets' ps1 effs2] g(2) shorter packets(2) rest(1)
      obtain r' where "packet_loop lib tls fuel ?s1 ps1 =
          Some (effs2, ?s1\<lparr>ss_reader := r', ss_driver := d', ss_packet_num := num'\<rparr>, ps', out)"
        "out = Continue \<longrightarrow> reader_sized r' \<and> pending r' = rest \<and> driver_active d'" by auto
      with loop True rest(2) show ?thesis by (intro exI [of _ r']) (simp del: packet_loop.simps)
    next
      case False
      with Suc.prems(5) packets(1) st have "effs = effs1" "d' = d1" "num' = num1" "ps' = ps1" "out = out1"
        by (cases out1; simp)+
      with loop False show ?thesis by (intro exI [of _ r]) (simp del: packet_loop.simps)
    qed
  qed
qed simp

lemma packets_run_append:
  "packets_run lib (xs @ ys) d num ps =
     (case packets_run lib xs d num ps of
        None \<Rightarrow> None
      | Some (effs, d', num', ps', out) \<Rightarrow>
          if out = Continue then map_option (\<lambda>(effs', rest). (effs @ effs', rest)) (packets_run lib ys d' num' ps')
          else Some (effs, d', num', ps', out))"
proof (induction xs arbitrary: d num ps)
  case Nil
  then show ?case by (cases "packets_run lib ys d num ps") auto
next
  case (Cons p xs)
  show ?case
  proof (cases "packet_step lib p d num ps")
    case (Some r)
    obtain effs d1 num1 ps1 out where r: "r = (effs, d1, num1, ps1, out)" by (cases r)
    show ?thesis
      by (cases out)
        (auto simp: Some r Cons.IH option.map_comp comp_def split_def split: option.splits)
  qed simp
qed


text \<open>What is left after a chunk is no whole packet, and the next read fits behind it.\<close>

lemma read_turn:
  assumes "session_ready s" and "chunk \<noteq> []" and "read_fits (ss_reader s) chunk"
  obtains r where "reader_sized r" "pending r = pending (ss_reader s) @ chunk" "length (pending r) < FUEL r"
    "run_turn lib tls (R_Read (Some chunk)) s ps = packet_loop lib tls (FUEL r) (s\<lparr>ss_reader := r\<rparr>) ps"
proof -
  have "reader_sized (ss_reader s)" using assms(1) by (simp add: session_ready_def)
  from refill_fits [OF this assms(3)] obtain r where "refill (ss_reader s) chunk = Some r" "reader_sized r"
      "pending r = pending (ss_reader s) @ chunk" "length (pending r) < FUEL r" .
  with assms(2) show thesis by (intro that [of r]) (simp_all add: run_turn_def)
qed

text \<open>
  The reads of a stream of the session: none is empty, which would be its end, and each is at most the
  spare tail of the reader's buffer at that moment.
\<close>

definition session_reads :: "packet_reader \<Rightarrow> bytes list \<Rightarrow> bool" where
  "session_reads r reads \<longleftrightarrow>
     [] \<notin> set reads \<and> reads_fit MAX_PACKET_SIZE (capacity r) (pending r) reads"

lemma session_reads_Cons:
  assumes "session_reads r (chunk # reads)"
  shows "chunk \<noteq> []" and "read_fits r chunk"
    and "capacity r' = capacity r \<Longrightarrow> pending r' = snd (snd (parse_all MAX_PACKET_SIZE (pending r @ chunk))) \<Longrightarrow>
      session_reads r' reads"
  using assms by (auto simp: session_reads_def read_fits_def)

lemma stream_turns:
  assumes "session_ready s" and "driver_active (ss_driver s)"
    and "session_reads (ss_reader s) reads"
    and "parse_all MAX_PACKET_SIZE (pending (ss_reader s) @ concat reads) = (packets, None, rest)"
    and "packets_run lib packets (ss_driver s) (ss_packet_num s) ps = Some (effs, d', num', ps', out)"
  shows "\<exists>r. run_turns lib tls (map (\<lambda>chunk. R_Read (Some chunk)) reads) s ps =
      Some (effs, s\<lparr>ss_reader := r, ss_driver := d', ss_packet_num := num'\<rparr>,
        if out = Finished then session_end d' ps' else ps', out) \<and>
    (out = Continue \<longrightarrow> pending r = rest \<and>
      session_ready (s\<lparr>ss_reader := r, ss_driver := d', ss_packet_num := num'\<rparr>))"
  using assms
proof (induction reads arbitrary: s packets ps effs)
  case Nil
  then have "packets = []" "rest = pending (ss_reader s)"
    using parse_all_NeedData [of MAX_PACKET_SIZE "pending (ss_reader s)"] by (simp_all add: session_ready_def)
  with Nil show ?case by (intro exI [of _ "ss_reader s"]) (cases s; auto)
next
  case (Cons chunk reads)
  obtain r where r: "reader_sized r" "pending r = pending (ss_reader s) @ chunk" "length (pending r) < FUEL r"
    and run: "run_turn lib tls (R_Read (Some chunk)) s ps = packet_loop lib tls (FUEL r) (s\<lparr>ss_reader := r\<rparr>) ps"
    using read_turn [OF Cons.prems(1) session_reads_Cons(1,2) [OF Cons.prems(3)]] .
  obtain packets1 e1 rest1 where pa: "parse_all MAX_PACKET_SIZE (pending r) = (packets1, e1, rest1)"
    by (metis prod_cases3)
  have whole: "parse_all MAX_PACKET_SIZE (pending r @ concat reads) = (packets, None, rest)"
    using Cons.prems(4) r(2) by simp
  then have e1: "e1 = None" using parse_all_append [OF pa, of "concat reads"] by (cases e1) auto
  then obtain packets2 where packets: "packets = packets1 @ packets2"
      "parse_all MAX_PACKET_SIZE (rest1 @ concat reads) = (packets2, None, rest)"
    using whole parse_all_append [OF pa, of "concat reads"] by (auto split: prod.splits)
  obtain effs1 d1 num1 ps1 out1
    where p1: "packets_run lib packets1 (ss_driver s) (ss_packet_num s) ps = Some (effs1, d1, num1, ps1, out1)"
    using Cons.prems(5) by (auto simp: packets(1) packets_run_append split: option.splits)
  from packet_loop_run [of "s\<lparr>ss_reader := r\<rparr>" "FUEL r" packets1 rest1 lib ps effs1 d1 num1 ps1 out1 tls]
    r pa e1 p1 Cons.prems(2)
  obtain r1 where l1: "packet_loop lib tls (FUEL r) (s\<lparr>ss_reader := r\<rparr>) ps =
      Some (effs1, s\<lparr>ss_reader := r1, ss_driver := d1, ss_packet_num := num1\<rparr>, ps1, out1)"
    and c1: "out1 = Continue \<longrightarrow> reader_sized r1 \<and> pending r1 = rest1 \<and> driver_active d1" by auto
  let ?s1 = "s\<lparr>ss_reader := r1, ss_driver := d1, ss_packet_num := num1\<rparr>"
  show ?case
  proof (cases "out1 = Continue")
    case True
    with Cons.prems(5) p1 obtain effs2
      where p2: "packets_run lib packets2 d1 num1 ps1 = Some (effs2, d', num', ps', out)" "effs = effs1 @ effs2"
      by (auto simp: packets(1) packets_run_append)
    have "parse_frame MAX_PACKET_SIZE rest1 = (NeedData, rest1)"
      using parse_all_rest_NeedData pa e1 by simp
    moreover have "driver_ready d1" using c1 True by (auto simp: driver_active_def driver_ready_def)
    ultimately have "session_ready ?s1" using c1 True by (simp add: session_ready_def)
    moreover have "session_reads (ss_reader ?s1) reads"
    proof (rule session_reads_Cons(3) [OF Cons.prems(3)])
      show "capacity (ss_reader ?s1) = capacity (ss_reader s)"
        using c1 True Cons.prems(1) by (simp add: session_ready_def reader_sized_def)
      show "pending (ss_reader ?s1) = snd (snd (parse_all MAX_PACKET_SIZE (pending (ss_reader s) @ chunk)))"
        using c1 True pa r(2) by simp
    qed
    ultimately have "session_ready ?s1" "session_reads (ss_reader ?s1) reads" by blast+
    from Cons.IH [OF this(1) _ this(2), of packets2 ps1 effs2] c1 True packets(2) p2(1)
    obtain r' where "run_turns lib tls (map (\<lambda>chunk. R_Read (Some chunk)) reads) ?s1 ps1 =
        Some (effs2, ?s1\<lparr>ss_reader := r', ss_driver := d', ss_packet_num := num'\<rparr>,
          if out = Finished then session_end d' ps' else ps', out)"
      "out = Continue \<longrightarrow> pending r' = rest \<and>
        session_ready (?s1\<lparr>ss_reader := r', ss_driver := d', ss_packet_num := num'\<rparr>)" by auto
    with run l1 True p2(2) show ?thesis by (intro exI [of _ r']) simp
  next
    case False
    with Cons.prems(5) p1 have "effs = effs1 \<and> d' = d1 \<and> num' = num1 \<and> ps' = ps1 \<and> out = out1"
      by (auto simp: packets(1) packets_run_append)
    with run l1 False show ?thesis by (intro exI [of _ r1]) (cases out1; simp)
  qed
qed

text \<open>
  C9: what an active session does with a stream depends on its packets alone: for every segmentation
  into reads, each at most the spare tail of the buffer that the loop lends to it, the turns of the loop have the effects, the final state, the
  packet number and the ending of handling the packets one after the other.
\<close>

theorem session_refines_packets:
  assumes "session_ready s" and "pending (ss_reader s) = []" and "driver_active (ss_driver s)"
    and "\<forall>p \<in> set packets. packet_ok MAX_PACKET_SIZE p" and "concat reads = concat (map frame packets)"
    and "session_reads (ss_reader s) reads"
    and "packets_run lib packets (ss_driver s) (ss_packet_num s) ps = Some (effs, d', num', ps', out)"
  shows "\<exists>r. run_turns lib tls (map (\<lambda>chunk. R_Read (Some chunk)) reads) s ps =
      Some (effs, s\<lparr>ss_reader := r, ss_driver := d', ss_packet_num := num'\<rparr>,
        if out = Finished then session_end d' ps' else ps', out) \<and>
    (out = Continue \<longrightarrow> pending r = [])"
proof -
  have "parse_all MAX_PACKET_SIZE (pending (ss_reader s) @ concat reads) = (packets, None, [])"
    using parse_all_frames [OF assms(4), of "[]"] by (simp only: assms(2,5) append_Nil append_Nil2 parse_all_Nil prod.case)
  from stream_turns [OF assms(1,3,6) this assms(7), of tls] show ?thesis by blast
qed


lemma sample_session_reads:
  assumes "concat reads = concat (map frame packets)" and "\<forall>p \<in> set packets. packet_ok MAX_PACKET_SIZE p"
    and "[] \<notin> set reads" and "\<forall>chunk \<in> set reads. length chunk \<le> READ_HEADROOM"
  shows "session_reads (ss_reader (session_new (sample_driver st))) reads"
  using reads_fit_frames_bounded [OF assms(2,1,4), of "4 + MAX_PACKET_SIZE + READ_HEADROOM"] assms(3)
    reader_new_sized
  by (simp add: session_reads_def session_new_def reader_sized_def)

lemma session_refines_packets_witness:
  "\<exists>s'. run_turns sample_library (\<lambda>_. True) [R_Read (Some [1, 0]), R_Read (Some [0, 0, 12])]
      (session_new (sample_driver (tls_success state_new))) (\<lambda>_. None) =
    Some ([Send (receiver_write_simple Op_Pong)], s', (\<lambda>_. None), Continue)"
proof -
  let ?d = "sample_driver (tls_success state_new)"
  have v: "st_variant (tls_success state_new) = Active (V4 None None)" by (simp add: tls_success_def)
  then have "st_variant (tls_success state_new) \<noteq> UninitV4" by simp
  note s = sample_session_ready [OF this]
  have "driver_active (ss_driver (session_new ?d))"
    unfolding s(3) using v by (simp add: driver_active_def sample_driver_def driver_new_def)
  moreover have "\<exists>d'. packets_run sample_library [[12]] ?d 0 (\<lambda>_. None) =
      Some ([Send (receiver_write_simple Op_Pong)], d', 1, (\<lambda>_. None), Continue)"
    using v by (auto simp: packet_step_def split_packet_def opcode_try_from_def advance_def packet_event_stamped
        handle_packet_v4_def handle_state_result_def sample_driver_def)
  then obtain d' where "packets_run sample_library [[12]] ?d 0 (\<lambda>_. None) =
      Some ([Send (receiver_write_simple Op_Pong)], d', 1, (\<lambda>_. None), Continue)" ..
  moreover have "concat [[1, 0], [0, 0, 12]] = concat (map frame [[12 :: u8]])" by code_simp
  ultimately show ?thesis
    using session_refines_packets [of "session_new ?d" "[[12]]" "[[1, 0], [0, 0, 12]]" sample_library "\<lambda>_. None"
        "[Send (receiver_write_simple Op_Pong)]" d' 1 "\<lambda>_. None" Continue "\<lambda>_. True"] s
      sample_session_reads [of "[[1, 0], [0, 0, 12]]" "[[12]]" "tls_success state_new"]
    by (auto simp: packet_ok_def MAX_PACKET_SIZE_def READ_HEADROOM_def)
qed

end
