(* ===== verification/Sdk_State.thy ===== *)
theory Sdk_State
  imports Session_Output Companion_Service
begin

text \<open>
  The FCast device of the sender SDK (sdk/sender/fcast-sender-sdk/src/fcast.rs and device.rs): the types
  of its interface and \<open>DeviceStateMachine\<close>, which turns a packet into the action the worker performs.
  The parameters are those of the record \<open>library\<close>; the conversions between float types are defined on
  the bit patterns. A signaller of the application is a number.
\<close>

section \<open>Durations as doubles\<close>

text \<open>
  The double nearest to a non-negative ratio, ties to even, where it is normal; the value of such a
  double as a ratio; their sum. With these, \<open>Duration::as_secs_f64\<close> is whole seconds plus the
  nanoseconds divided by \<open>1e9\<close>, each step rounded.
\<close>

definition f64_ratio :: "int \<Rightarrow> int \<Rightarrow> f64" where
  "f64_ratio n d =
     (if n = 0 then 0
      else
        let k = int (bit_len (nat n)) - int (bit_len (nat d));
            at_least = (if 0 \<le> k then d * 2 ^ nat k \<le> n else d \<le> n * 2 ^ nat (- k));
            e = (if at_least then k else k - 1);
            mant = (if e \<le> 52 then div_half_even (n * 2 ^ nat (52 - e)) d
                    else div_half_even n (d * 2 ^ nat (e - 52)))
        in word_of_int ((e + 1022) * 2 ^ 52 + mant))"

definition f64_value :: "f64 \<Rightarrow> int \<times> int" where
  "f64_value x =
     (let ef = uint (drop_bit 52 x AND 0x7FF);
          frac = uint (x AND 0xFFFFFFFFFFFFF);
          mant = (if ef = 0 then frac else frac + 2 ^ 52);
          ex = (if ef = 0 then 1 else ef)
      in if 1075 \<le> ex then (mant * 2 ^ nat (ex - 1075), 1) else (mant, 2 ^ nat (1075 - ex)))"

definition f64_add :: "f64 \<Rightarrow> f64 \<Rightarrow> f64" where
  "f64_add x y =
     (case (f64_value x, f64_value y) of
        ((n, d), (n', d')) \<Rightarrow> f64_ratio (n * d' + n' * d) (d * d'))"

definition as_secs_f64 :: "int \<Rightarrow> f64" where
  "as_secs_f64 nanos = f64_add (f64_ratio (nanos div 10 ^ 9) 1) (f64_ratio (nanos mod 10 ^ 9) (10 ^ 9))"

definition micros_as_secs_f64 :: "u64 \<Rightarrow> f64" where
  "micros_as_secs_f64 micros = as_secs_f64 (uint micros * 1000)"

section \<open>The interface of a device\<close>

datatype device_playback_state = DevIdle | DevBuffering | DevPlaying | DevPaused | DevEnded

datatype source =
    SrcUrl string string
  | SrcContent string
  | SrcCompanionResource u32 string

record playlist_item =
  pi_content_type :: string
  pi_content_location :: string
  pi_start_time :: "f64 option"

datatype media_track_type = TrkVideo | TrkAudio | TrkSubtitle

record device_track =
  dt_id :: u32
  dt_title :: "string option"
  dt_language :: string
  dt_typ :: media_track_type

record media_capabilities =
  mc_protocols :: "string list"
  mc_containers :: "string list"
  mc_video_formats :: "string list"
  mc_audio_formats :: "string list"
  mc_subtitle_formats :: "string list"
  mc_hdr_formats :: "string list"
  mc_image_formats :: "string list"
  mc_external_subtitles :: bool
  mc_mirroring :: bool

record video_resolution =
  vr_width :: u32
  vr_height :: u32

record display_capabilities =
  dc_resolution :: "video_resolution option"

record audio_capabilities =
  ac_volume_step_interval :: f32

record device_capabilities =
  cap_media :: "media_capabilities option"
  cap_display :: "display_capabilities option"
  cap_audio :: "audio_capabilities option"

record generic_metadata =
  gm_title :: "string option"
  gm_thumbnail_url :: "string option"

record application_info =
  ai_name :: string
  ai_version :: string
  ai_display_name :: string

text \<open>A \<open>CompanionSourceDescriptor\<close> has the one variant \<open>Path\<close>.\<close>

record companion_source =
  cs_path :: string
  cs_content_type :: string

type_synonym headers = "(string \<times> string) list"

datatype device_queue_item =
    QiUrl string string "generic_metadata option" "headers option"
  | QiFCompanion string companion_source "generic_metadata option"

fun queue_item_content_type :: "device_queue_item \<Rightarrow> string" where
  "queue_item_content_type (QiUrl url content_type metadata request_headers) = content_type"
| "queue_item_content_type (QiFCompanion content_type source metadata) = content_type"

datatype queue_position' = PosFront | PosBack | PosIndex u8

section \<open>The state machine\<close>

text \<open>The id of a new mirroring session; the counter is a \<open>u16\<close> and wraps as in the release profile.\<close>

type_synonym signaller = nat

definition id_generator_next :: "u16 \<Rightarrow> u16 \<times> u16" where
  "id_generator_next g = (let g' = g + 1 in (g' - 1, g'))"

datatype sdk_variant =
    Connecting
  | SdkV2
  | SdkV3
  | SdkV4 (companion_id: "u16 option") (mirroring_id: "u16 option") (id_gen: u16)

datatype quit_reason =
    QInvalidBody | QInvalidVersion | QMissingBody | QUnsupportedOpcode | QInvalidUnionValue
  | QInvalidPacket | QInsecureDowngrade

datatype version_code = CodeV2 | CodeV3

datatype resource_request =
    AskInfo u32 u32
  | AskData u32 u32 "(u64 \<times> u64) option"

datatype v4_load = LoadedSingle source | LoadedQueue "device_queue_item list" "u8 option"

datatype sdk_action =
    DoNone
  | DoPong
  | DoQuit quit_reason
  | DoConnected version_code
  | DoVolumeUpdated v2_volume_update
  | DoPlaybackError playback_error_message
  | DoPlaybackUpdateV2 v2_playback_update
  | DoPlaybackUpdateV3 playback_update
  | DoInitial initial_receiver
  | DoPlayUpdate play_update
  | DoEvent event_message
  | DoUpgradeToTls
  | DoProgressChanged f64 f64
  | DoVolumeChanged f64
  | DoPlaybackStateChanged flat_playback_state
  | DoPlaybackStopped
  | DoCompanion resource_request
  | DoStartMirroring u16 signaller
  | DoMirroringAnswer u16 string
  | DoTracksAvailable "device_track list"
  | DoChangeTrack "u32 option" media_track_type
  | DoPlaybackRateChanged f32
  | DoIntroduction bool "device_capabilities option"
  | DoLoadedV4 v4_load

definition strings :: "string list option \<Rightarrow> string list" where
  "strings it = (case it of Some i \<Rightarrow> i | None \<Rightarrow> [])"

definition map_receiver_capabilities :: "flat_receiver_capabilities \<Rightarrow> device_capabilities" where
  "map_receiver_capabilities caps =
     \<lparr> cap_media = map_option (\<lambda>m.
         \<lparr> mc_protocols = strings (fmc_protocols m), mc_containers = strings (fmc_containers m),
           mc_video_formats = strings (fmc_video_formats m),
           mc_audio_formats = strings (fmc_audio_formats m),
           mc_subtitle_formats = strings (fmc_subtitle_formats m),
           mc_hdr_formats = strings (fmc_hdr_formats m),
           mc_image_formats = strings (fmc_image_formats m),
           mc_external_subtitles = fmc_external_subtitles m, mc_mirroring = fmc_mirroring m \<rparr>)
         (frc_media caps),
       cap_display = map_option (\<lambda>d.
         \<lparr> dc_resolution = map_option (\<lambda>(w, h). \<lparr> vr_width = w, vr_height = h \<rparr>) d \<rparr>) (frc_display caps),
       cap_audio = map_option (\<lambda>a. \<lparr> ac_volume_step_interval = a \<rparr>) (frc_audio caps) \<rparr>"

text \<open>\<open>DeviceStateMachine\<close>; \<open>new\<close>.\<close>

record state_machine =
  sm_variant :: sdk_variant
  sm_require_v4 :: bool

definition state_machine_new :: "bool \<Rightarrow> state_machine" where
  "state_machine_new require_v4 = \<lparr> sm_variant = Connecting, sm_require_v4 = require_v4 \<rparr>"

text \<open>\<open>body!\<close> and \<open>json_from_body!\<close>, which return from the handler when they fail.\<close>

definition json_from_body ::
    "library \<Rightarrow> (json \<Rightarrow> de_error + 'a) \<Rightarrow> bytes option \<Rightarrow> quit_reason + 'a"
where
  "json_from_body lib de body =
     (case body of
        None \<Rightarrow> Inl QMissingBody
      | Some b \<Rightarrow>
          (case str_from_utf8 b of
             None \<Rightarrow> Inl QInvalidBody
           | Some s \<Rightarrow>
               (case lib_json lib s of
                  None \<Rightarrow> Inl QInvalidBody
                | Some v \<Rightarrow> (case de v of Inl _ \<Rightarrow> Inl QInvalidBody | Inr x \<Rightarrow> Inr x))))"

definition json_action ::
    "library \<Rightarrow> (json \<Rightarrow> de_error + 'a) \<Rightarrow> bytes option \<Rightarrow> ('a \<Rightarrow> sdk_action) \<Rightarrow> sdk_action"
where
  "json_action lib de body act =
     (case json_from_body lib de body of Inl reason \<Rightarrow> DoQuit reason | Inr msg \<Rightarrow> act msg)"

fun handle_opcode_common :: "opcode \<Rightarrow> sdk_action option" where
  "handle_opcode_common Op_Ping = Some DoPong"
| "handle_opcode_common Op_None = Some DoNone"
| "handle_opcode_common Op_Pong = Some DoNone"
| "handle_opcode_common _ = None"

definition sdk_handle_connecting ::
    "library \<Rightarrow> opcode \<Rightarrow> bytes option \<Rightarrow> state_machine \<Rightarrow> sdk_action \<times> state_machine"
where
  "sdk_handle_connecting lib opc body sm =
     (case opc of
        Op_Version \<Rightarrow>
          (case json_from_body lib version_message_de body of
             Inl reason \<Rightarrow> (DoQuit reason, sm)
           | Inr msg \<Rightarrow>
               if sm_require_v4 sm \<and> vm_version msg < 4 then (DoQuit QInsecureDowngrade, sm)
               else if vm_version msg = 2 then (DoConnected CodeV2, sm\<lparr>sm_variant := SdkV2\<rparr>)
               else if vm_version msg = 3 then (DoConnected CodeV3, sm\<lparr>sm_variant := SdkV3\<rparr>)
               else if vm_version msg = 4 then (DoUpgradeToTls, sm\<lparr>sm_variant := SdkV4 None None 0\<rparr>)
               else (DoQuit QInvalidVersion, sm))
      | _ \<Rightarrow> (DoQuit QUnsupportedOpcode, sm))"

definition handle_packet_common_v2_v3 :: "library \<Rightarrow> opcode \<Rightarrow> bytes option \<Rightarrow> sdk_action option" where
  "handle_packet_common_v2_v3 lib opc body =
     (case opc of
        Op_VolumeUpdate \<Rightarrow> Some (json_action lib (v2_volume_update_de (lib_cast lib)) body DoVolumeUpdated)
      | Op_PlaybackError \<Rightarrow> Some (json_action lib playback_error_message_de body DoPlaybackError)
      | _ \<Rightarrow> None)"

definition sdk_handle_v2 :: "library \<Rightarrow> opcode \<Rightarrow> bytes option \<Rightarrow> sdk_action" where
  "sdk_handle_v2 lib opc body =
     (case handle_packet_common_v2_v3 lib opc body of
        Some act \<Rightarrow> act
      | None \<Rightarrow>
          (case opc of
             Op_PlaybackUpdate \<Rightarrow>
               json_action lib (v2_playback_update_de (lib_cast lib)) body DoPlaybackUpdateV2
           | _ \<Rightarrow> DoQuit QUnsupportedOpcode))"

definition sdk_handle_v3 :: "library \<Rightarrow> opcode \<Rightarrow> bytes option \<Rightarrow> sdk_action" where
  "sdk_handle_v3 lib opc body =
     (case handle_packet_common_v2_v3 lib opc body of
        Some act \<Rightarrow> act
      | None \<Rightarrow>
          (case opc of
             Op_PlaybackUpdate \<Rightarrow>
               json_action lib (playback_update_de (lib_cast lib)) body DoPlaybackUpdateV3
           | Op_Initial \<Rightarrow> json_action lib (initial_receiver_de (lib_cast lib)) body DoInitial
           | Op_PlayUpdate \<Rightarrow> json_action lib (play_update_de (lib_cast lib)) body DoPlayUpdate
           | Op_Event \<Rightarrow> json_action lib (event_message_de (lib_cast lib)) body DoEvent
           | _ \<Rightarrow> DoQuit QUnsupportedOpcode))"

definition device_track_of :: "flat_track \<Rightarrow> device_track option" where
  "device_track_of t =
     map_option (\<lambda>typ. \<lparr> dt_id = ft_id t, dt_title = ft_title t, dt_language = ft_iso_639 t, dt_typ = typ \<rparr>)
       (case ft_metadata t of
          FVideoTrack _ \<Rightarrow> Some TrkVideo
        | FAudioTrack \<Rightarrow> Some TrkAudio
        | FSubtitleTrack \<Rightarrow> Some TrkSubtitle
        | FTrackMetaNone \<Rightarrow> None)"

definition track_type_of :: "flat_track_type \<Rightarrow> media_track_type option" where
  "track_type_of t =
     (case t of
        FTypeVideo \<Rightarrow> Some TrkVideo
      | FTypeAudio \<Rightarrow> Some TrkAudio
      | FTypeSubtitle \<Rightarrow> Some TrkSubtitle
      | FTypeOther _ \<Rightarrow> None)"

definition loaded_of :: "flat_source \<Rightarrow> v4_load option" where
  "loaded_of s =
     (case s of
        FSingle item \<Rightarrow> Some (LoadedSingle (SrcUrl (fmi_source_url item) (fmi_container item)))
      | FQueue queue \<Rightarrow>
          Some (LoadedQueue
            (map (\<lambda>qi. let media_item = fqi_media_item qi
                       in QiUrl (fmi_source_url media_item) (fmi_container media_item) None None)
               (fq_items queue))
            (fq_start_index queue))
      | FSourceOther \<Rightarrow> None)"

text \<open>As in the receiver, the tag and the member of a union are one match on the decoded value.\<close>

definition sdk_handle_flat_v4 ::
    "library \<Rightarrow> bytes \<Rightarrow> state_machine \<Rightarrow> sdk_action \<times> state_machine"
where
  "sdk_handle_flat_v4 lib body sm =
     (case lib_root_as_packet lib body of
        None \<Rightarrow> (DoQuit QInvalidPacket, sm)
      | Some packet \<Rightarrow>
          (case payload packet of
             MProgressChanged position dur \<Rightarrow>
               (DoProgressChanged
                  (case position of Some t \<Rightarrow> micros_as_secs_f64 t | None \<Rightarrow> 0)
                  (case dur of Some t \<Rightarrow> micros_as_secs_f64 t | None \<Rightarrow> 0), sm)
           | MVolumeChanged volume \<Rightarrow> (DoVolumeChanged (f64_of_f32 volume), sm)
           | MPlaybackStateChanged s \<Rightarrow> (DoPlaybackStateChanged s, sm)
           | MStopPlayback \<Rightarrow> (DoPlaybackStopped, sm)
           | MMirroringSessionDescription session_id sdp \<Rightarrow>
               let active = (case sm_variant sm of SdkV4 _ mirroring_session _ \<Rightarrow> mirroring_session | _ \<Rightarrow> None)
               in (if active = Some session_id then DoMirroringAnswer session_id sdp else DoNone, sm)
           | MCompanionHelloResponse provider_id \<Rightarrow>
               (DoNone,
                case sm_variant sm of
                  SdkV4 _ m g \<Rightarrow> sm\<lparr>sm_variant := SdkV4 (Some provider_id) m g\<rparr>
                | _ \<Rightarrow> sm)
           | MCompanionResourceInfoRequest request_id resource_id \<Rightarrow>
               (DoCompanion (AskInfo request_id resource_id), sm)
           | MTracksAvailable tracks \<Rightarrow>
               (case tracks of
                  Some new_tracks \<Rightarrow> (DoTracksAvailable (List.map_filter device_track_of new_tracks), sm)
                | None \<Rightarrow> (DoNone, sm))
           | MChangeTrack i typ \<Rightarrow>
               (case track_type_of typ of
                  Some typ' \<Rightarrow> (DoChangeTrack i typ', sm)
                | None \<Rightarrow> (DoNone, sm))
           | MSpeedChanged speed \<Rightarrow> (DoPlaybackRateChanged speed, sm)
           | MError _ _ \<Rightarrow> (DoNone, sm)
           | MReceiverIntroduction info caps \<Rightarrow>
               let capabilities = map_option map_receiver_capabilities caps;
                   supports_whep =
                     (case Option.bind capabilities cap_media of
                        Some m \<Rightarrow> ''whep'' \<in> set (mc_protocols m)
                      | None \<Rightarrow> False)
               in (DoIntroduction supports_whep capabilities, sm)
           | MCompanionResourceRequest request_id resource_id read_head \<Rightarrow>
               (DoCompanion (AskData request_id resource_id read_head), sm)
           | MLoad s \<Rightarrow>
               (case loaded_of s of Some load \<Rightarrow> (DoLoadedV4 load, sm) | None \<Rightarrow> (DoNone, sm))
           | _ \<Rightarrow> (DoNone, sm)))"

definition sdk_handle_v4 ::
    "library \<Rightarrow> opcode \<Rightarrow> bytes option \<Rightarrow> state_machine \<Rightarrow> sdk_action \<times> state_machine"
where
  "sdk_handle_v4 lib opc body sm =
     (case opc of
        Op_None \<Rightarrow> (DoNone, sm)
      | Op_Flatbuf \<Rightarrow>
          (case body of
             None \<Rightarrow> (DoQuit QMissingBody, sm)
           | Some b \<Rightarrow> sdk_handle_flat_v4 lib b sm)
      | Op_Ping \<Rightarrow> (DoPong, sm)
      | Op_Pong \<Rightarrow> (DoNone, sm)
      | _ \<Rightarrow> (DoQuit QUnsupportedOpcode, sm))"

definition sdk_handle_packet ::
    "library \<Rightarrow> opcode \<Rightarrow> bytes option \<Rightarrow> state_machine \<Rightarrow> sdk_action \<times> state_machine"
where
  "sdk_handle_packet lib opc body sm =
     (case handle_opcode_common opc of
        Some act \<Rightarrow> (act, sm)
      | None \<Rightarrow>
          (case sm_variant sm of
             Connecting \<Rightarrow> sdk_handle_connecting lib opc body sm
           | SdkV2 \<Rightarrow> (sdk_handle_v2 lib opc body, sm)
           | SdkV3 \<Rightarrow> (sdk_handle_v3 lib opc body, sm)
           | SdkV4 _ _ _ \<Rightarrow> sdk_handle_v4 lib opc body sm))"

definition sm_start_mirroring :: "signaller \<Rightarrow> state_machine \<Rightarrow> sdk_action \<times> state_machine" where
  "sm_start_mirroring sig sm =
     (case sm_variant sm of
        SdkV4 p _ g \<Rightarrow>
          (case id_generator_next g of
             (i, g') \<Rightarrow> (DoStartMirroring i sig, sm\<lparr>sm_variant := SdkV4 p (Some i) g'\<rparr>))
      | _ \<Rightarrow> (DoNone, sm))"

end
