(* ===== verification/Sdk_Device.thy ===== *)
theory Sdk_Device
  imports Sdk_State
begin

text \<open>
  The worker of a device of the sender SDK (sdk/sender/fcast-sender-sdk/src/fcast.rs, \<open>InnerDevice\<close>): what
  it writes, what it reports to the application, its handling of actions and commands, the loop of one
  connection and the loop over connections. A step returns the list of its effects in order, the new
  state, and how it ends. Writes to the stream succeed; a broken connection shows as a failing read.
  Parameters: opening a file, the TLS handshake with the pinned fingerprint, and those of \<open>library\<close>.
\<close>

section \<open>State\<close>

text \<open>An open file: its length, which positions it can seek to, and its reads. It does not change while open.\<close>

record companion_file =
  cf_len :: "unit + nat"
  cf_seeks :: "nat \<Rightarrow> bool"
  cf_read :: "unit file_read"

record wrapped_source =
  ws_file :: companion_file
  ws_content_type :: string

record sdk_env =
  env_lib :: library
  env_open :: "string \<Rightarrow> companion_file option"
  env_tls :: "bytes \<Rightarrow> bool"

datatype stream_kind = NsNone | NsTcp | NsTls

record inner_device =
  dv_stream :: stream_kind
  dv_session_version :: u64
  dv_app_info :: "application_info option"
  dv_supports_whep :: bool
  dv_machine :: state_machine
  dv_sources :: "(u32 \<times> wrapped_source) list"
  dv_fingerprint :: "bytes option"
  dv_signaller :: "signaller option"

definition DEFAULT_SESSION_VERSION :: u64 where "DEFAULT_SESSION_VERSION = 2"
definition PLAYLIST_MIN_PROTO_VERSION :: u64 where "PLAYLIST_MIN_PROTO_VERSION = 3"
definition V3_FEATURES_MIN_PROTO_VERSION :: u64 where "V3_FEATURES_MIN_PROTO_VERSION = 3"

text \<open>The version and the support of WHEP are shared with the handle and outlive the worker.\<close>

definition inner_device_new ::
    "application_info option \<Rightarrow> u64 \<Rightarrow> bool \<Rightarrow> bytes option \<Rightarrow> inner_device"
where
  "inner_device_new app_info session_version supports_whep fingerprint =
     \<lparr> dv_stream = NsNone, dv_session_version = session_version, dv_app_info = app_info,
       dv_supports_whep = supports_whep, dv_machine = state_machine_new (fingerprint \<noteq> None),
       dv_sources = [], dv_fingerprint = fingerprint, dv_signaller = None \<rparr>"

record shared_state =
  sh_time :: f64
  sh_duration :: f64
  sh_volume :: f64
  sh_speed :: f64
  sh_playback_state :: device_playback_state
  sh_source :: "source option"

definition shared_state_default :: shared_state where
  "shared_state_default =
     \<lparr> sh_time = 0, sh_duration = 0, sh_volume = 0, sh_speed = 0, sh_playback_state = DevIdle,
       sh_source = None \<rparr>"

text \<open>The device and the locals of one run of \<open>inner_work\<close>.\<close>

record connection =
  cn_device :: inner_device
  cn_shared :: shared_state
  cn_emitted :: bool
  cn_index :: "nat option"
  cn_length :: "nat option"
  cn_reader :: packet_reader

text \<open>What the application is told; the addresses of the socket are left out.\<close>

datatype connection_state = IsDisconnected | IsConnecting | IsReconnecting | IsConnected "device_capabilities option"

datatype device_event =
    ConnectionStateEv connection_state
  | VolumeEv f64
  | TimeEv f64
  | PlaybackStateEv device_playback_state
  | DurationEv f64
  | SpeedEv f64
  | SourceEv source
  | StoppedEv
  | ErrorEv string
  | TracksEv "device_track list"
  | TrackSelectedEv "u32 option" media_track_type

datatype sdk_effect =
    Out bytes
  | Notify device_event
  | Handshake bytes
  | SetOfferSink signaller u16
  | GiveAnswer signaller string

datatype worker_error = DidNotConnect | AnyhowError | IoError | Disconnected | ReceivePacket

datatype sdk_outcome = Go | QuitLoop | Fail worker_error | Panic

type_synonym sdk_step = "connection \<Rightarrow> sdk_effect list \<times> connection \<times> sdk_outcome"

text \<open>A sequence of steps stops at the first that does not go on.\<close>

definition and_then :: "sdk_effect list \<times> connection \<times> sdk_outcome \<Rightarrow> sdk_step \<Rightarrow>
    sdk_effect list \<times> connection \<times> sdk_outcome"
where
  "and_then r k =
     (case r of
        (effs, c, Go) \<Rightarrow> (case k c of (effs', c', out) \<Rightarrow> (effs @ effs', c', out))
      | _ \<Rightarrow> r)"

abbreviation dev :: "(inner_device \<Rightarrow> inner_device) \<Rightarrow> connection \<Rightarrow> connection" where
  "dev f c \<equiv> c\<lparr>cn_device := f (cn_device c)\<rparr>"

section \<open>Writing\<close>

definition sdk_send :: "library \<Rightarrow> opcode \<Rightarrow> json \<Rightarrow> sdk_effect" where
  "sdk_send lib op v = Out (sdk_send_bytes op (json_bytes lib v))"

definition sdk_flat :: "library \<Rightarrow> flat_packet \<Rightarrow> sdk_effect" where
  "sdk_flat lib msg = Out (sdk_send_bytes Op_Flatbuf (lib_flat lib msg))"

section \<open>Companion sources\<close>

text \<open>The first id that is not in use, counted up from zero; one of the first \<open>length + 1\<close> is free.\<close>

fun fresh_source :: "nat \<Rightarrow> (u32 \<times> wrapped_source) list \<Rightarrow> u32 \<Rightarrow> u32 option" where
  "fresh_source 0 sources i = None"
| "fresh_source (Suc n) sources i =
     (if map_of sources i = None then Some i else fresh_source n sources (i + 1))"

text \<open>\<open>None\<close> is the error of \<open>File::open\<close>; the id counter does not run out below \<open>2 ^ 32\<close> sources.\<close>

definition add_source ::
    "sdk_env \<Rightarrow> companion_source \<Rightarrow> inner_device \<Rightarrow> (u32 \<times> inner_device) option"
where
  "add_source env src d =
     (case env_open env (cs_path src) of
        None \<Rightarrow> None
      | Some file \<Rightarrow>
          map_option (\<lambda>i. (i, d\<lparr>dv_sources :=
              (i, \<lparr> ws_file = file, ws_content_type = cs_content_type src \<rparr>) # dv_sources d\<rparr>))
            (fresh_source (Suc (length (dv_sources d))) (dv_sources d) 0))"

definition companion_url ::
    "sdk_env \<Rightarrow> companion_source \<Rightarrow> inner_device \<Rightarrow> (string \<times> inner_device) option"
where
  "companion_url env src d =
     (case sm_variant (dv_machine d) of
        SdkV4 (Some provider_id) _ _ \<Rightarrow>
          map_option (\<lambda>(resource_id, d'). (create_url provider_id resource_id, d')) (add_source env src d)
      | _ \<Rightarrow> None)"

text \<open>
  \<open>handle_resource_request\<close>: the file's length and the seek may fail before anything is written; the
  rest is the part loop of the companion service.
\<close>

definition sdk_resource_request :: "u32 \<Rightarrow> u32 \<Rightarrow> (u64 \<times> u64) option \<Rightarrow> sdk_step" where
  "sdk_resource_request request_id resource_id read_head c =
     (let sources = dv_sources (cn_device c);
          offered = (\<lambda>i. case map_of sources i of
              Some ws \<Rightarrow>
                (case cf_len (ws_file ws) of
                   Inr n \<Rightarrow> Some (n, cf_read (ws_file ws))
                 | Inl _ \<Rightarrow> None)
            | None \<Rightarrow> None);
          head = map_option (\<lambda>(start, stop). (unat start, unat stop)) read_head;
          failing = (case map_of sources resource_id of
              None \<Rightarrow> False
            | Some ws \<Rightarrow>
                (case cf_len (ws_file ws) of
                   Inl _ \<Rightarrow> True
                 | Inr _ \<Rightarrow> \<not> cf_seeks (ws_file ws) (case head of Some (start, _) \<Rightarrow> start | None \<Rightarrow> 0)))
      in if failing then ([], c, Fail IoError)
         else case handle_resource_request offered request_id resource_id head of
             (Inr _, out) \<Rightarrow> ([Out out], c, Go)
           | (Inl ShortFile, out) \<Rightarrow> ([Out out], c, Fail AnyhowError)
           | (Inl (FileError _), out) \<Rightarrow> ([Out out], c, Fail IoError))"

section \<open>Actions\<close>

text \<open>\<open>changed!\<close>: the application is told and the value stored only when it differs.\<close>

definition changed ::
    "('v \<Rightarrow> 'v \<Rightarrow> bool) \<Rightarrow> (shared_state \<Rightarrow> 'v) \<Rightarrow> ('v \<Rightarrow> shared_state \<Rightarrow> shared_state) \<Rightarrow> ('v \<Rightarrow> device_event) \<Rightarrow>
     'v \<Rightarrow> sdk_step"
where
  "changed same get put cb new c =
     (if same (get (cn_shared c)) new then ([], c, Go)
      else ([Notify (cb new)], c\<lparr>cn_shared := put new (cn_shared c)\<rparr>, Go))"

definition time_changed :: "f64 \<Rightarrow> sdk_step" where
  "time_changed = changed f64_eq sh_time (\<lambda>v. sh_time_update (\<lambda>_. v)) TimeEv"

definition duration_changed :: "f64 \<Rightarrow> sdk_step" where
  "duration_changed = changed f64_eq sh_duration (\<lambda>v. sh_duration_update (\<lambda>_. v)) DurationEv"

definition speed_changed_to :: "f64 \<Rightarrow> sdk_step" where
  "speed_changed_to = changed f64_eq sh_speed (\<lambda>v. sh_speed_update (\<lambda>_. v)) SpeedEv"

definition volume_changed_to :: "f64 \<Rightarrow> sdk_step" where
  "volume_changed_to = changed f64_eq sh_volume (\<lambda>v. sh_volume_update (\<lambda>_. v)) VolumeEv"

definition playback_changed :: "device_playback_state \<Rightarrow> sdk_step" where
  "playback_changed =
     changed (=) sh_playback_state (\<lambda>v. sh_playback_state_update (\<lambda>_. v)) PlaybackStateEv"

definition if_some :: "'a option \<Rightarrow> ('a \<Rightarrow> sdk_step) \<Rightarrow> sdk_step" where
  "if_some v k c = (case v of Some x \<Rightarrow> k x c | None \<Rightarrow> ([], c, Go))"

fun from_wire_state :: "wire_playback_state \<Rightarrow> device_playback_state" where
  "from_wire_state Idle = DevIdle"
| "from_wire_state Playing = DevPlaying"
| "from_wire_state Paused = DevPaused"

fun from_flat_state :: "flat_playback_state \<Rightarrow> device_playback_state option" where
  "from_flat_state FIdle = Some DevIdle"
| "from_flat_state FBuffering = Some DevBuffering"
| "from_flat_state FPlaying = Some DevPlaying"
| "from_flat_state FPaused = Some DevPaused"
| "from_flat_state FEnded = Some DevEnded"
| "from_flat_state (FStateOther _) = None"

definition emit_connected :: "device_capabilities option \<Rightarrow> sdk_step" where
  "emit_connected capabilities c =
     ([Notify (ConnectionStateEv (IsConnected capabilities))], c\<lparr>cn_emitted := True\<rparr>, Go)"

definition emit_connected_once :: "device_capabilities option \<Rightarrow> sdk_step" where
  "emit_connected_once capabilities c =
     (if cn_emitted c then ([], c, Go) else emit_connected capabilities c)"

definition source_changed_to :: "source \<Rightarrow> sdk_step" where
  "source_changed_to s c = ([Notify (SourceEv s)], c\<lparr>cn_shared := (cn_shared c)\<lparr>sh_source := Some s\<rparr>\<rparr>, Go)"

text \<open>What an \<open>Initial\<close> and a \<open>PlayUpdate\<close> have in common.\<close>

definition play_data_changed :: "play_message \<Rightarrow> sdk_step" where
  "play_data_changed play c =
     (let now = (\<lambda>s. ([Notify (SourceEv s), Notify (PlaybackStateEv DevPlaying)],
                      c\<lparr>cn_shared := (cn_shared c)\<lparr>sh_source := Some s\<rparr>\<rparr>, Go))
      in case pm_url play of
           Some url \<Rightarrow> now (SrcUrl url (pm_container play))
         | None \<Rightarrow>
             (case pm_content play of
                Some content \<Rightarrow> now (SrcContent content)
              | None \<Rightarrow> ([], c, Go)))"

definition whep_capability :: "receiver_capabilities option \<Rightarrow> bool option" where
  "whep_capability caps =
     Option.bind caps (\<lambda>r. Option.bind (rc_av r) (\<lambda>av. Option.bind (av_livestream av) lc_whep))"

definition on_initial :: "initial_receiver \<Rightarrow> sdk_step" where
  "on_initial msg c =
     (let c1 = (case ir_play_data msg of
              None \<Rightarrow> ([], c, Go)
            | Some play \<Rightarrow>
                and_then (play_data_changed play c) (\<lambda>c.
                  ((case pm_volume play of Some v \<Rightarrow> [Notify (VolumeEv v)] | None \<Rightarrow> []) @
                   (case pm_time play of Some t \<Rightarrow> [Notify (TimeEv t)] | None \<Rightarrow> []) @
                   (case pm_speed play of Some s \<Rightarrow> [Notify (SpeedEv s)] | None \<Rightarrow> []), c, Go)))
      in and_then c1 (\<lambda>c.
           emit_connected_once None
             (case whep_capability (ir_experimental_capabilities msg) of
                Some whep \<Rightarrow> dev (dv_supports_whep_update (\<lambda>_. whep)) c
              | None \<Rightarrow> c)))"

definition SDK_VERSION :: string where "SDK_VERSION = ''0.1.4''"

definition sender_info :: "application_info option \<Rightarrow> device_info" where
  "sender_info app_info =
     (case app_info of
        Some info \<Rightarrow>
          \<lparr> di_display_name = Some (ai_display_name info), di_app_name = Some (ai_name info),
            di_app_version = Some (ai_version info) \<rparr>
      | None \<Rightarrow>
          \<lparr> di_display_name = None, di_app_name = Some (''FCast Sender SDK v'' @ SDK_VERSION),
            di_app_version = Some SDK_VERSION \<rparr>)"

definition initial_sender_of :: "device_info \<Rightarrow> initial_sender" where
  "initial_sender_of d =
     \<lparr> isn_display_name = di_display_name d, isn_app_name = di_app_name d,
       isn_app_version = di_app_version d \<rparr>"

definition on_connected :: "library \<Rightarrow> version_code \<Rightarrow> sdk_step" where
  "on_connected lib code c =
     (case code of
        CodeV2 \<Rightarrow>
          and_then (emit_connected None c) (\<lambda>c. ([], dev (dv_session_version_update (\<lambda>_. 2)) c, Go))
      | CodeV3 \<Rightarrow>
          ([sdk_send lib Op_Initial
              (initial_sender_ser (initial_sender_of (sender_info (dv_app_info (cn_device c))))),
            sdk_send lib Op_SubscribeEvent (subscribe_event_ser \<lparr> se_event = SubMediaItemEnd \<rparr>)],
           dev (dv_session_version_update (\<lambda>_. V3_FEATURES_MIN_PROTO_VERSION)) c, Go))"

text \<open>
  The switch to TLS. A failed handshake leaves no stream behind. Whatever the reader still holds stays
  in it.
\<close>

definition on_upgrade_to_tls :: "sdk_env \<Rightarrow> sdk_step" where
  "on_upgrade_to_tls env c =
     (let lib = env_lib env; d = cn_device c in
      case dv_fingerprint d of
        None \<Rightarrow> ([], c, Fail Disconnected)
      | Some fingerprint \<Rightarrow>
          if dv_stream d \<noteq> NsTcp then ([], c, Fail Disconnected)
          else if \<not> env_tls env fingerprint then
            ([Handshake fingerprint], dev (dv_stream_update (\<lambda>_. NsNone)) c, Fail IoError)
          else
            ([Handshake fingerprint,
              sdk_flat lib (sender_introduction (sender_info (dv_app_info d))),
              sdk_flat lib companion_hello_request],
             dev (\<lambda>d. d\<lparr>dv_stream := NsTls, dv_session_version := 4\<rparr>) c, Go))"

definition on_companion :: "library \<Rightarrow> resource_request \<Rightarrow> sdk_step" where
  "on_companion lib request c =
     (case request of
        AskInfo request_id resource_id \<Rightarrow>
          (case map_of (dv_sources (cn_device c)) resource_id of
             Some ws \<Rightarrow>
               (case cf_len (ws_file ws) of
                  Inr n \<Rightarrow>
                    ([sdk_flat lib (companion_resource_info_response request_id (ws_content_type ws)
                        (Some (of_nat n)))], c, Go)
                | Inl _ \<Rightarrow> ([], c, Go))
           | None \<Rightarrow> ([], c, Go))
      | AskData request_id resource_id read_head \<Rightarrow>
          sdk_resource_request request_id resource_id read_head c)"

definition on_start_mirroring :: "library \<Rightarrow> u16 \<Rightarrow> signaller \<Rightarrow> sdk_step" where
  "on_start_mirroring lib i sig c =
     ([sdk_flat lib (start_mirroring_session i), SetOfferSink sig i],
      dev (dv_signaller_update (\<lambda>_. Some sig)) c, Go)"

definition on_loaded :: "v4_load \<Rightarrow> sdk_step" where
  "on_loaded load c =
     (case load of
        LoadedSingle s \<Rightarrow> source_changed_to s c
      | LoadedQueue items start_index \<Rightarrow>
          let index = (case start_index of Some i \<Rightarrow> unat i | None \<Rightarrow> 0)
          in if index < length items
             then (case items ! index of
                 QiUrl url content_type _ _ \<Rightarrow> source_changed_to (SrcUrl url content_type) c
               | QiFCompanion _ _ _ \<Rightarrow> ([], c, Go))
             else ([], c, Go))"

definition sdk_handle_action :: "sdk_env \<Rightarrow> sdk_action \<Rightarrow> sdk_step" where
  "sdk_handle_action env act c =
     (let lib = env_lib env; notify = (\<lambda>ev. ([Notify ev], c, Go)) in
      case act of
        DoNone \<Rightarrow> ([], c, Go)
      | DoPong \<Rightarrow> ([Out (sdk_send_empty Op_Pong)], c, Go)
      | DoQuit reason \<Rightarrow> ([], c, QuitLoop)
      | DoConnected code \<Rightarrow> on_connected lib code c
      | DoVolumeUpdated msg \<Rightarrow> volume_changed_to (vu2_volume msg) c
      | DoPlaybackError err \<Rightarrow> notify (ErrorEv (pe_message err))
      | DoPlaybackUpdateV2 update \<Rightarrow>
          and_then (time_changed (pu2_time update) c) (\<lambda>c.
          and_then (duration_changed (pu2_duration update) c) (\<lambda>c.
          and_then (speed_changed_to (pu2_speed update) c) (\<lambda>c.
          playback_changed (from_wire_state (pu2_state update)) c)))
      | DoPlaybackUpdateV3 update \<Rightarrow>
          and_then (if_some (pu_time update) time_changed c) (\<lambda>c.
          and_then (if_some (pu_duration update) duration_changed c) (\<lambda>c.
          and_then (if_some (pu_speed update) speed_changed_to c) (\<lambda>c.
          and_then (playback_changed (from_wire_state (pu_state update)) c) (\<lambda>c.
          ([], c\<lparr>cn_index := map_option unat (pu_item_index update)\<rparr>, Go)))))
      | DoInitial msg \<Rightarrow> on_initial msg c
      | DoPlayUpdate msg \<Rightarrow> if_some (pud_play_data msg) play_data_changed c
      | DoEvent msg \<Rightarrow>
          (case em_event msg of
             EvMediaItem MediaItemEnd _ \<Rightarrow> playback_changed DevEnded c
           | _ \<Rightarrow> ([], c, Go))
      | DoUpgradeToTls \<Rightarrow> on_upgrade_to_tls env c
      | DoProgressChanged position dur \<Rightarrow>
          (Notify (TimeEv position) #
             (if f64_eq (sh_duration (cn_shared c)) dur then [] else [Notify (DurationEv dur)]),
           c\<lparr>cn_shared := (cn_shared c)\<lparr>sh_time := position, sh_duration := dur\<rparr>\<rparr>, Go)
      | DoVolumeChanged vol \<Rightarrow>
          ([Notify (VolumeEv vol)], c\<lparr>cn_shared := (cn_shared c)\<lparr>sh_volume := vol\<rparr>\<rparr>, Go)
      | DoPlaybackStateChanged s \<Rightarrow>
          (case from_flat_state s of Some s' \<Rightarrow> notify (PlaybackStateEv s') | None \<Rightarrow> ([], c, Go))
      | DoPlaybackStopped \<Rightarrow> notify StoppedEv
      | DoCompanion request \<Rightarrow> on_companion lib request c
      | DoStartMirroring i sig \<Rightarrow> on_start_mirroring lib i sig c
      | DoMirroringAnswer i sdp \<Rightarrow>
          (case dv_signaller (cn_device c) of Some sig \<Rightarrow> ([GiveAnswer sig sdp], c, Go) | None \<Rightarrow> ([], c, Go))
      | DoTracksAvailable tracks \<Rightarrow> notify (TracksEv tracks)
      | DoChangeTrack i typ \<Rightarrow> notify (TrackSelectedEv i typ)
      | DoPlaybackRateChanged rate \<Rightarrow> notify (SpeedEv (f64_of_f32 rate))
      | DoIntroduction whep capabilities \<Rightarrow>
          emit_connected_once capabilities (dev (dv_supports_whep_update (\<lambda>_. whep)) c)
      | DoLoadedV4 load \<Rightarrow> on_loaded load c)"

end
