(* ===== verification/Sdk_Worker.thy ===== *)
theory Sdk_Worker
  imports Sdk_Device
begin

text \<open>
  Commands of the application and the loops of the worker (sdk/sender/fcast-sender-sdk/src/fcast.rs,
  \<open>handle_command\<close>, \<open>inner_work\<close>, \<open>work\<close>, and \<open>connection_loop!\<close> of utils.rs). A run is given by what the
  stream delivers and what the application asks for, in order.
\<close>

section \<open>Commands\<close>

datatype load_type = LoadUrl string | LoadContent string | LoadCompanion companion_source

record load_command =
  ld_type :: load_type
  ld_content_type :: string
  ld_resume_position :: f64
  ld_speed :: "f64 option"
  ld_volume :: "f64 option"
  ld_metadata :: "generic_metadata option"
  ld_headers :: "headers option"

datatype command =
    CmdChangeVolume f64
  | CmdChangeSpeed f64
  | CmdLoad load_command
  | CmdSeekVideo f64
  | CmdStopVideo
  | CmdPauseVideo
  | CmdResumeVideo
  | CmdQuit
  | CmdSetPlaylistItemIndex u32
  | CmdJumpPlaylist int
  | CmdLoadPlaylist "playlist_item list"
  | CmdLoadQueue "device_queue_item list" "u8 option"
  | CmdConnectedEventDeadlineElapsed
  | CmdStartMirroringSession signaller
  | CmdMirroringOffer u16 string
  | CmdChangeTrack "u32 option" media_track_type
  | CmdQueueRemove queue_position'
  | CmdQueueAdd device_queue_item queue_position'
  | CmdQueueSelect queue_position'

definition meta_to_fcast_meta :: "generic_metadata option \<Rightarrow> metadata_object option" where
  "meta_to_fcast_meta m = map_option (\<lambda>m. Generic (gm_title m) (gm_thumbnail_url m) None) m"

text \<open>\<open>bail!\<close> and \<open>?\<close> on an \<open>anyhow\<close> result.\<close>

abbreviation bail :: sdk_step where
  "bail c \<equiv> ([], c, Fail AnyhowError)"

definition plain_item :: "string \<Rightarrow> string \<Rightarrow> media_item4" where
  "plain_item content_type url =
     \<lparr> m4_container = content_type, m4_source_url = url, m4_start_time = None, m4_volume = None,
       m4_speed = None, m4_headers = None, m4_title = None, m4_thumbnail_url = None,
       m4_metadata = None, m4_extra_metadata = None \<rparr>"

text \<open>A message that the builder may panic on.\<close>

definition sdk_built :: "library \<Rightarrow> flat_packet option \<Rightarrow> sdk_step" where
  "sdk_built lib msg c = (case msg of None \<Rightarrow> ([], c, Panic) | Some p \<Rightarrow> ([sdk_flat lib p], c, Go))"

definition load_v2 :: "library \<Rightarrow> load_command \<Rightarrow> string option \<Rightarrow> string option \<Rightarrow> sdk_step" where
  "load_v2 lib ld url content c =
     (sdk_send lib Op_Play (v2_play_message_ser
        \<lparr> p2_container = ld_content_type ld, p2_url = url, p2_content = content,
          p2_time = Some (ld_resume_position ld), p2_speed = ld_speed ld, p2_headers = ld_headers ld \<rparr>) #
      (case ld_volume ld of
         Some volume \<Rightarrow> [sdk_send lib Op_SetVolume (set_volume_message_ser \<lparr> sv_volume = volume \<rparr>)]
       | None \<Rightarrow> []), c, Go)"

definition load_v3 :: "library \<Rightarrow> load_command \<Rightarrow> string option \<Rightarrow> string option \<Rightarrow> sdk_step" where
  "load_v3 lib ld url content c =
     ([sdk_send lib Op_Play (play_message_ser
        \<lparr> pm_container = ld_content_type ld, pm_url = url, pm_content = content,
          pm_time = Some (ld_resume_position ld), pm_volume = ld_volume ld, pm_speed = ld_speed ld,
          pm_headers = ld_headers ld, pm_metadata = meta_to_fcast_meta (ld_metadata ld) \<rparr>)], c, Go)"

definition load_v4 :: "library \<Rightarrow> load_command \<Rightarrow> string \<Rightarrow> sdk_step" where
  "load_v4 lib ld url =
     sdk_built lib (load_single ((plain_item (ld_content_type ld) url)
       \<lparr>m4_start_time := Some (ld_resume_position ld),
        m4_volume := map_option (lib_f32 lib) (ld_volume ld),
        m4_speed := map_option (lib_f32 lib) (ld_speed ld)\<rparr>))"

text \<open>\<open>load\<close> goes by the version last negotiated, not by the state of the connection.\<close>

definition sdk_load :: "sdk_env \<Rightarrow> load_command \<Rightarrow> sdk_step" where
  "sdk_load env ld c =
     (let lib = env_lib env; v = dv_session_version (cn_device c) in
      if v = 2 then
        (case ld_type ld of
           LoadUrl url \<Rightarrow> load_v2 lib ld (Some url) None c
         | LoadContent content \<Rightarrow> load_v2 lib ld None (Some content) c
         | LoadCompanion _ \<Rightarrow> bail c)
      else if v = 3 then
        (case ld_type ld of
           LoadUrl url \<Rightarrow> load_v3 lib ld (Some url) None c
         | LoadContent content \<Rightarrow> load_v3 lib ld None (Some content) c
         | LoadCompanion _ \<Rightarrow> bail c)
      else if v = 4 then
        (case ld_type ld of
           LoadUrl url \<Rightarrow> load_v4 lib ld url c
         | LoadContent _ \<Rightarrow> bail c
         | LoadCompanion src \<Rightarrow>
             (case companion_url env src (cn_device c) of
                None \<Rightarrow> bail c
              | Some (url, d) \<Rightarrow> load_v4 lib ld url (c\<lparr>cn_device := d\<rparr>)))
      else bail c)"

text \<open>The operations that go by the state of the connection; \<open>c_variant\<close> is that state.\<close>

abbreviation c_variant :: "connection \<Rightarrow> sdk_variant" where
  "c_variant c \<equiv> sm_variant (dv_machine (cn_device c))"

definition by_version :: "sdk_effect list \<Rightarrow> sdk_effect list \<Rightarrow> sdk_step" where
  "by_version legacy v4 c =
     ((case c_variant c of Connecting \<Rightarrow> [] | SdkV2 \<Rightarrow> legacy | SdkV3 \<Rightarrow> legacy | SdkV4 _ _ _ \<Rightarrow> v4), c, Go)"

definition change_volume :: "library \<Rightarrow> f64 \<Rightarrow> sdk_step" where
  "change_volume lib volume =
     by_version [sdk_send lib Op_SetVolume (set_volume_message_ser \<lparr> sv_volume = volume \<rparr>)]
       [sdk_flat lib (volume_changed (lib_f32 lib volume))]"

definition change_speed :: "library \<Rightarrow> f64 \<Rightarrow> sdk_step" where
  "change_speed lib speed =
     by_version [sdk_send lib Op_SetSpeed (set_speed_message_ser \<lparr> ss_speed = speed \<rparr>)]
       [sdk_flat lib (speed_changed (lib_f32 lib speed))]"

text \<open>\<open>seek\<close> on the duration in nanoseconds that \<open>Duration::from_secs_f64\<close> made of the argument, or its panic.\<close>

definition sdk_seek :: "library \<Rightarrow> f64 \<Rightarrow> sdk_step" where
  "sdk_seek lib seconds c =
     (case duration_from_secs_f64 seconds of
        None \<Rightarrow> ([], c, Panic)
      | Some nanos \<Rightarrow>
          by_version [sdk_send lib Op_Seek (seek_message_ser \<lparr> sk_time = as_secs_f64 nanos \<rparr>)]
            [sdk_flat lib (progress_changed_raw (Some (as_micros nanos)) None)] c)"

definition sdk_stop_playback :: "library \<Rightarrow> sdk_step" where
  "sdk_stop_playback lib c =
     and_then (by_version [Out (sdk_send_empty Op_Stop)] [sdk_flat lib stop_playback] c) (\<lambda>c.
       ([Notify StoppedEv, Notify (PlaybackStateEv DevIdle)], dev (dv_sources_update (\<lambda>_. [])) c, Go))"

definition pause_video :: "library \<Rightarrow> sdk_step" where
  "pause_video lib = by_version [Out (sdk_send_empty Op_Pause)] [sdk_flat lib (playback_state_changed FPaused)]"

definition resume_video :: "library \<Rightarrow> sdk_step" where
  "resume_video lib =
     by_version [Out (sdk_send_empty Op_Resume)] [sdk_flat lib (playback_state_changed FPlaying)]"

section \<open>Playlists and queues\<close>

definition playlist_media_item :: "playlist_item \<Rightarrow> media_item" where
  "playlist_media_item item =
     \<lparr> mi_container = pi_content_type item, mi_url = Some (pi_content_location item), mi_content = None,
       mi_time = pi_start_time item, mi_volume = None, mi_speed = None, mi_cache = None,
       mi_show_duration = None, mi_headers = None, mi_metadata = None \<rparr>"

definition playlist_of :: "playlist_item list \<Rightarrow> playlist_content" where
  "playlist_of items =
     \<lparr> pl_variant = Playlist, pl_items = map playlist_media_item items, pl_offset = None,
       pl_volume = None, pl_speed = None, pl_forward_cache = None, pl_backward_cache = None,
       pl_metadata = None \<rparr>"

definition load_playlist :: "sdk_env \<Rightarrow> playlist_item list \<Rightarrow> sdk_step" where
  "load_playlist env items c =
     sdk_load env
       \<lparr> ld_type = LoadContent (lib_print (env_lib env) (playlist_content_ser (playlist_of items))),
         ld_content_type = ''application/json'', ld_resume_position = 0, ld_speed = None,
         ld_volume = None, ld_metadata = None, ld_headers = None \<rparr>
       (c\<lparr>cn_length := Some (length items), cn_index := Some 0\<rparr>)"

text \<open>The sums are on \<open>i64\<close>, and \<open>rem_euclid\<close> by a positive length is \<open>mod\<close>.\<close>

definition wrapped_playlist_index :: "nat \<Rightarrow> int \<Rightarrow> nat \<Rightarrow> nat option" where
  "wrapped_playlist_index current jump n_items =
     (if n_items = 0 then None
      else Some (nat (swrap 64 (swrap 64 (int current) + jump) mod int n_items)))"

definition set_playlist_item_packet :: "library \<Rightarrow> nat \<Rightarrow> sdk_effect" where
  "set_playlist_item_packet lib i =
     sdk_send lib Op_SetPlaylistItem (set_playlist_item_ser \<lparr> spi_item_index = of_nat i \<rparr>)"

definition jump_playlist :: "library \<Rightarrow> int \<Rightarrow> sdk_step" where
  "jump_playlist lib jump c =
     (case (cn_length c, cn_index c) of
        (Some n_items, Some current) \<Rightarrow>
          (case wrapped_playlist_index current jump n_items of
             None \<Rightarrow> ([], c, Go)
           | Some next \<Rightarrow> ([set_playlist_item_packet lib next], c\<lparr>cn_index := Some next\<rparr>, Go))
      | _ \<Rightarrow> ([], c, Go))"

fun to_v4_position :: "queue_position' \<Rightarrow> queue_pos" where
  "to_v4_position PosFront = QFront"
| "to_v4_position PosBack = QBack"
| "to_v4_position (PosIndex idx) = QIndex idx"

definition queue_item_url :: "sdk_env \<Rightarrow> device_queue_item \<Rightarrow> inner_device \<Rightarrow> (string \<times> inner_device) option" where
  "queue_item_url env item d =
     (case item of
        QiUrl url _ _ _ \<Rightarrow> Some (url, d)
      | QiFCompanion _ source _ \<Rightarrow> companion_url env source d)"

text \<open>The sources opened before a failing item stay.\<close>

fun wrap_items :: "sdk_env \<Rightarrow> device_queue_item list \<Rightarrow> inner_device \<Rightarrow> media_item4 list option \<times> inner_device" where
  "wrap_items env [] d = (Some [], d)"
| "wrap_items env (item # items) d =
     (case queue_item_url env item d of
        None \<Rightarrow> (None, d)
      | Some (url, d') \<Rightarrow>
          (case wrap_items env items d' of
             (rest, d'') \<Rightarrow> (map_option ((#) (plain_item (queue_item_content_type item) url)) rest, d'')))"

definition sdk_load_queue :: "sdk_env \<Rightarrow> device_queue_item list \<Rightarrow> u8 option \<Rightarrow> sdk_step" where
  "sdk_load_queue env items start_index c =
     (case wrap_items env items (cn_device c) of
        (None, d) \<Rightarrow> bail (c\<lparr>cn_device := d\<rparr>)
      | (Some wrapped, d) \<Rightarrow> sdk_built (env_lib env) (load_queue wrapped start_index) (c\<lparr>cn_device := d\<rparr>))"

definition sdk_queue_add :: "sdk_env \<Rightarrow> device_queue_item \<Rightarrow> queue_position' \<Rightarrow> sdk_step" where
  "sdk_queue_add env item position c =
     (case queue_item_url env item (cn_device c) of
        None \<Rightarrow> bail c
      | Some (url, d) \<Rightarrow>
          sdk_built (env_lib env)
            (queue_insert (plain_item (queue_item_content_type item) url) (to_v4_position position))
            (c\<lparr>cn_device := d\<rparr>))"

fun to_flat_track_type :: "media_track_type \<Rightarrow> flat_track_type" where
  "to_flat_track_type TrkVideo = FTypeVideo"
| "to_flat_track_type TrkAudio = FTypeAudio"
| "to_flat_track_type TrkSubtitle = FTypeSubtitle"

definition anyhow :: "sdk_effect list \<times> connection \<times> sdk_outcome \<Rightarrow> sdk_effect list \<times> connection \<times> sdk_outcome"
where
  "anyhow r = (case r of (effs, c, Fail _) \<Rightarrow> (effs, c, Fail AnyhowError) | _ \<Rightarrow> r)"

definition handle_command :: "sdk_env \<Rightarrow> command \<Rightarrow> sdk_step" where
  "handle_command env cmd c =
     (let lib = env_lib env; flat = (\<lambda>msg. ([sdk_flat lib msg], c, Go)) in
      case cmd of
        CmdChangeVolume volume \<Rightarrow> change_volume lib volume c
      | CmdChangeSpeed speed \<Rightarrow> change_speed lib speed c
      | CmdLoad ld \<Rightarrow>
          and_then (sdk_load env ld c) (\<lambda>c. ([], c\<lparr>cn_length := None, cn_index := None\<rparr>, Go))
      | CmdLoadPlaylist items \<Rightarrow> load_playlist env items c
      | CmdSeekVideo seconds \<Rightarrow> sdk_seek lib seconds c
      | CmdStopVideo \<Rightarrow> sdk_stop_playback lib c
      | CmdPauseVideo \<Rightarrow> pause_video lib c
      | CmdResumeVideo \<Rightarrow> resume_video lib c
      | CmdQuit \<Rightarrow> ([], c, QuitLoop)
      | CmdSetPlaylistItemIndex i \<Rightarrow> ([set_playlist_item_packet lib (unat i)], c, Go)
      | CmdJumpPlaylist jump \<Rightarrow> jump_playlist lib jump c
      | CmdConnectedEventDeadlineElapsed \<Rightarrow> emit_connected_once None c
      | CmdStartMirroringSession sig \<Rightarrow>
          (case sm_start_mirroring sig (dv_machine (cn_device c)) of
             (act, sm) \<Rightarrow> anyhow (sdk_handle_action env act (dev (dv_machine_update (\<lambda>_. sm)) c)))
      | CmdMirroringOffer session_id sdp \<Rightarrow> flat (mirroring_session_description session_id sdp)
      | CmdChangeTrack i typ \<Rightarrow> flat (change_track i (to_flat_track_type typ))
      | CmdLoadQueue items start_index \<Rightarrow> sdk_load_queue env items start_index c
      | CmdQueueRemove position \<Rightarrow> flat (queue_remove (to_v4_position position))
      | CmdQueueAdd item position \<Rightarrow> sdk_queue_add env item position c
      | CmdQueueSelect position \<Rightarrow> flat (queue_select (to_v4_position position)))"

section \<open>One connection\<close>

text \<open>
  The packets in the reader, until it needs data. \<open>Panic\<close> stands for a panic of the reader, and for fuel
  that runs out, which it does not: each packet takes a byte at least.
\<close>

definition on_packet :: "sdk_env \<Rightarrow> bytes \<Rightarrow> sdk_step" where
  "on_packet env packet c =
     (case split_packet packet of
        None \<Rightarrow> ([], c, Fail ReceivePacket)
      | Some (code, body) \<Rightarrow>
          (case opcode_try_from code of
             Inl _ \<Rightarrow> ([], c, Fail AnyhowError)
           | Inr opc \<Rightarrow>
               (case sdk_handle_packet (env_lib env) opc body (dv_machine (cn_device c)) of
                  (act, sm) \<Rightarrow> sdk_handle_action env act (dev (dv_machine_update (\<lambda>_. sm)) c))))"

fun sdk_packet_loop :: "sdk_env \<Rightarrow> nat \<Rightarrow> sdk_step" where
  "sdk_packet_loop env 0 c = ([], c, Panic)"
| "sdk_packet_loop env (Suc fuel) c =
     (case get_packet (cn_reader c) of
        None \<Rightarrow> ([], c, Panic)
      | Some (NeedData, r) \<Rightarrow> ([], c\<lparr>cn_reader := r\<rparr>, Go)
      | Some (PacketTooLarge n, r) \<Rightarrow> ([], c\<lparr>cn_reader := r\<rparr>, Fail ReceivePacket)
      | Some (Read packet, r) \<Rightarrow>
          and_then (on_packet env packet (c\<lparr>cn_reader := r\<rparr>)) (sdk_packet_loop env fuel))"

datatype sdk_event =
    S_Read "bytes option"
  | S_Command command
  | S_NoCommands

definition sdk_turn :: "sdk_env \<Rightarrow> sdk_event \<Rightarrow> sdk_step" where
  "sdk_turn env ev c =
     (case ev of
        S_Read None \<Rightarrow> ([], c, Fail IoError)
      | S_Read (Some chunk) \<Rightarrow>
          if chunk = [] then ([], c, Fail Disconnected)
          else
            (case refill (cn_reader c) chunk of
               None \<Rightarrow> ([], c, Panic)
             | Some r \<Rightarrow> sdk_packet_loop env (Suc (length (buffer r))) (c\<lparr>cn_reader := r\<rparr>))
      | S_Command cmd \<Rightarrow> handle_command env cmd c
      | S_NoCommands \<Rightarrow> ([], c, Fail AnyhowError))"

fun sdk_turns :: "sdk_env \<Rightarrow> sdk_event list \<Rightarrow> sdk_step" where
  "sdk_turns env [] c = ([], c, Go)"
| "sdk_turns env (ev # evs) c = and_then (sdk_turn env ev c) (sdk_turns env evs)"

definition SDK_READ_HEADROOM :: nat where "SDK_READ_HEADROOM = 1024 * 8"

text \<open>\<open>inner_work\<close> once the socket is connected: the machine starts anew, the rest of the device stays.\<close>

definition connection_new :: "inner_device \<Rightarrow> connection" where
  "connection_new d =
     \<lparr> cn_device = d\<lparr>dv_stream := NsTcp, dv_machine := state_machine_new (dv_fingerprint d \<noteq> None)\<rparr>,
       cn_shared = shared_state_default, cn_emitted = False, cn_index = None, cn_length = None,
       cn_reader = reader_new MAX_PACKET_SIZE SDK_READ_HEADROOM \<rparr>"

definition sdk_hello :: "library \<Rightarrow> sdk_effect" where
  "sdk_hello lib = sdk_send lib Op_Version (version_message_ser \<lparr> vm_version = 4 \<rparr>)"

definition inner_work :: "sdk_env \<Rightarrow> sdk_event list \<Rightarrow> inner_device \<Rightarrow>
    sdk_effect list \<times> connection \<times> sdk_outcome"
where
  "inner_work env evs d = and_then ([sdk_hello (env_lib env)], connection_new d, Go) (sdk_turns env evs)"

section \<open>Connecting again\<close>

text \<open>
  \<open>try_connect_tcp\<close> (utils.rs): the first address that answers wins, all failing is an error. A command
  that arrives meanwhile is taken from the queue, and given up for good unless it ends the attempt.
\<close>

datatype 'c connect_event = ConnectionReady | AllFailed | WhileConnecting 'c | ChannelClosed

datatype connect_result = ConnectedNow | QuitNow | NotConnected | StillConnecting

fun try_connect_tcp :: "('c \<Rightarrow> bool) \<Rightarrow> 'c connect_event list \<Rightarrow> connect_result" where
  "try_connect_tcp on_cmd [] = StillConnecting"
| "try_connect_tcp on_cmd (ConnectionReady # evs) = ConnectedNow"
| "try_connect_tcp on_cmd (AllFailed # evs) = NotConnected"
| "try_connect_tcp on_cmd (ChannelClosed # evs) = NotConnected"
| "try_connect_tcp on_cmd (WhileConnecting cmd # evs) =
     (if on_cmd cmd then QuitNow else try_connect_tcp on_cmd evs)"

text \<open>One round of \<open>connection_loop!\<close>: what happens while connecting, and on the connection.\<close>

type_synonym attempt = "command connect_event list \<times> sdk_event list"

datatype work_end = StillRunning | Ended | Died

definition sdk_attempt :: "sdk_env \<Rightarrow> attempt \<Rightarrow> inner_device \<Rightarrow> sdk_effect list \<times> inner_device \<times> sdk_outcome" where
  "sdk_attempt env a d =
     (case try_connect_tcp (\<lambda>cmd. cmd = CmdQuit) (fst a) of
        StillConnecting \<Rightarrow> ([], d, Go)
      | NotConnected \<Rightarrow> ([], d, Fail DidNotConnect)
      | QuitNow \<Rightarrow> ([], d, QuitLoop)
      | ConnectedNow \<Rightarrow> (case inner_work env (snd a) d of (effs, c, out) \<Rightarrow> (effs, cn_device c, out)))"

fun connection_loop ::
    "sdk_env \<Rightarrow> u64 \<Rightarrow> attempt list \<Rightarrow> inner_device \<Rightarrow> sdk_effect list \<times> inner_device \<times> work_end"
where
  "connection_loop env interval [] d = ([], d, StillRunning)"
| "connection_loop env interval (a # attempts) d =
     (case sdk_attempt env a d of
        (effs, d', Go) \<Rightarrow> (effs, d', StillRunning)
      | (effs, d', Panic) \<Rightarrow> (effs, d', Died)
      | (effs, d', QuitLoop) \<Rightarrow> (effs, d', Ended)
      | (effs, d', Fail e) \<Rightarrow>
          if interval = 0 then (effs, d', Ended)
          else
            (case connection_loop env interval attempts d' of
               (effs', rest) \<Rightarrow>
                 (effs @ (if e = DidNotConnect then [] else [Notify (ConnectionStateEv IsReconnecting)]) @ effs',
                  rest)))"

definition sdk_work ::
    "sdk_env \<Rightarrow> u64 \<Rightarrow> attempt list \<Rightarrow> inner_device \<Rightarrow> sdk_effect list \<times> inner_device \<times> work_end"
where
  "sdk_work env interval attempts d =
     (case connection_loop env interval attempts d of
        (effs, d', fate) \<Rightarrow>
          (Notify (ConnectionStateEv IsConnecting) # effs @
             (if fate = Ended then [Notify (ConnectionStateEv IsDisconnected)] else []), d', fate))"

end
