(* ===== verification/Sdk_Addr.thy ===== *)
theory Sdk_Addr
  imports Legacy_Messages
begin

text \<open>
  Addresses in the sender SDK (sdk/sender/fcast-sender-sdk/src/lib.rs and device.rs): \<open>IpAddr\<close> and its
  text, and the device a connection URL describes. The text form of addresses is the standard
  library's (core::net), which is written out; an address there is the value without a scope.
\<close>

section \<open>Addresses\<close>

text \<open>The sixteen octets of a version 6 address are a list; \<open>octets_ok\<close> is its length.\<close>

datatype ip_addr =
    IpV4 u8 u8 u8 u8
  | IpV6 "u8 list" u32

fun octets_ok :: "ip_addr \<Rightarrow> bool" where
  "octets_ok (IpV4 _ _ _ _) = True"
| "octets_ok (IpV6 octets _) = (length octets = 16)"

fun octets_from_ip_addr :: "ip_addr \<Rightarrow> u8 list" where
  "octets_from_ip_addr (IpV4 a b c d) = [a, b, c, d]"
| "octets_from_ip_addr (IpV6 octets _) = octets"

datatype std_addr = StdV4 "u8 list" | StdV6 "u16 list"

definition segment_of :: "u8 \<Rightarrow> u8 \<Rightarrow> u16" where
  "segment_of hi lo = word_of_nat (256 * unat hi + unat lo)"

definition segment_hi :: "u16 \<Rightarrow> u8" where "segment_hi g = word_of_nat (unat g div 256)"
definition segment_lo :: "u16 \<Rightarrow> u8" where "segment_lo g = word_of_nat (unat g mod 256)"

definition segments_of :: "u8 list \<Rightarrow> u16 list" where
  "segments_of octets = map (\<lambda>i. segment_of (octets ! (2 * i)) (octets ! (2 * i + 1))) [0..<8]"

definition octets_of :: "u16 list \<Rightarrow> u8 list" where
  "octets_of segs = concat (map (\<lambda>g. [segment_hi g, segment_lo g]) segs)"

fun ip_addr_of_std :: "std_addr \<Rightarrow> ip_addr" where
  "ip_addr_of_std (StdV4 octets) = IpV4 (octets ! 0) (octets ! 1) (octets ! 2) (octets ! 3)"
| "ip_addr_of_std (StdV6 segs) = IpV6 (octets_of segs) 0"

fun std_of_ip_addr :: "ip_addr \<Rightarrow> std_addr" where
  "std_of_ip_addr (IpV4 a b c d) = StdV4 [a, b, c, d]"
| "std_of_ip_addr (IpV6 octets _) = StdV6 (segments_of octets)"

datatype socket_addr =
    SockV4 "u8 list" u16
  | SockV6 "u8 list" u16 u32 u32

fun socket_addr_of :: "u16 \<Rightarrow> ip_addr \<Rightarrow> socket_addr" where
  "socket_addr_of port (IpV4 a b c d) = SockV4 [a, b, c, d] port"
| "socket_addr_of port (IpV6 octets scope_id) = SockV6 octets port 0 scope_id"

definition ips_to_socket_addrs :: "ip_addr list \<Rightarrow> u16 \<Rightarrow> socket_addr list" where
  "ips_to_socket_addrs ips port = map (socket_addr_of port) ips"

fun ip_addr_of_socket :: "socket_addr \<Rightarrow> ip_addr" where
  "ip_addr_of_socket (SockV4 octets _) = IpV4 (octets ! 0) (octets ! 1) (octets ! 2) (octets ! 3)"
| "ip_addr_of_socket (SockV6 octets _ _ scope_id) = IpV6 octets scope_id"

section \<open>Their text\<close>

text \<open>Numbers in base ten and sixteen, lower case.\<close>

definition digit_char :: "nat \<Rightarrow> char" where
  "digit_char d = char_of (if d < 10 then 48 + d else 87 + d)"

definition digit_of :: "nat \<Rightarrow> char \<Rightarrow> nat option" where
  "digit_of radix c =
     (let n = of_char c :: nat;
          d = (if 48 \<le> n \<and> n \<le> 57 then n - 48
               else if 97 \<le> n \<and> n \<le> 122 then n - 87
               else if 65 \<le> n \<and> n \<le> 90 then n - 55 else 36)
      in if d < radix then Some d else None)"

fun hex :: "nat \<Rightarrow> string" where
  "hex n = (if n < 16 then [digit_char n] else hex (n div 16) @ [digit_char (n mod 16)])"

declare hex.simps [simp del]

text \<open>Display.\<close>

definition show_v4 :: "u8 list \<Rightarrow> string" where
  "show_v4 octets = concat (map (\<lambda>i. (if i = 0 then [] else ''.'') @ dec (unat (octets ! i))) [0..<4])"

fun show_groups :: "u16 list \<Rightarrow> string" where
  "show_groups [] = []"
| "show_groups (g # gs) = hex (unat g) @ concat (map (\<lambda>g. '':'' @ hex (unat g)) gs)"

text \<open>The first of the longest runs of zeros: start and length of the current one and of the best.\<close>

fun longest_zeros :: "nat \<Rightarrow> nat \<times> nat \<Rightarrow> nat \<times> nat \<Rightarrow> u16 list \<Rightarrow> nat \<times> nat" where
  "longest_zeros i cur best [] = best"
| "longest_zeros i (start, n) best (g # gs) =
     (if g = 0 then
        let cur = (if n = 0 then i else start, Suc n)
        in longest_zeros (Suc i) cur (if snd best < snd cur then cur else best) gs
      else longest_zeros (Suc i) (0, 0) best gs)"

definition show_v6 :: "u16 list \<Rightarrow> string" where
  "show_v6 segs =
     (if take 6 segs = [0, 0, 0, 0, 0, 0xFFFF] then
        ''::ffff:'' @ show_v4 (octets_of (drop 6 segs))
      else
        case longest_zeros 0 (0, 0) (0, 0) segs of
          (start, n) \<Rightarrow>
            if 1 < n then show_groups (take start segs) @ ''::'' @ show_groups (drop (start + n) segs)
            else show_groups segs)"

definition url_format_ip_addr :: "ip_addr \<Rightarrow> string" where
  "url_format_ip_addr addr =
     (case addr of
        IpV4 a b c d \<Rightarrow> show_v4 [a, b, c, d]
      | IpV6 octets _ \<Rightarrow> ''['' @ show_v6 (segments_of octets) @ '']'')"

text \<open>Parsing; a parser takes the text and returns a value with the rest.\<close>

definition read_char :: "char \<Rightarrow> string \<Rightarrow> string option" where
  "read_char c s = (case s of x # rest \<Rightarrow> if x = c then Some rest else None | [] \<Rightarrow> None)"

definition number_of :: "nat \<Rightarrow> string \<Rightarrow> nat" where
  "number_of radix ds = foldl (\<lambda>v c. radix * v + the (digit_of radix c)) 0 ds"

definition read_number :: "nat \<Rightarrow> nat \<Rightarrow> nat \<Rightarrow> bool \<Rightarrow> string \<Rightarrow> (nat \<times> string) option" where
  "read_number radix max_digits bound allow_zero_prefix s =
     (let ds = takeWhile (\<lambda>c. digit_of radix c \<noteq> None) s
      in if ds = [] \<or> max_digits < length ds \<or> bound \<le> number_of radix ds \<or>
            (\<not> allow_zero_prefix \<and> hd ds = CHR ''0'' \<and> 1 < length ds) then None
         else Some (number_of radix ds, drop (length ds) s))"

fun read_octets :: "bool \<Rightarrow> nat \<Rightarrow> string \<Rightarrow> (u8 list \<times> string) option" where
  "read_octets first 0 s = Some ([], s)"
| "read_octets first (Suc left) s =
     Option.bind (if first then Some s else read_char (CHR ''.'') s) (\<lambda>s.
     Option.bind (read_number 10 3 256 False s) (\<lambda>(v, s).
     map_option (\<lambda>(vs, s). (word_of_nat v # vs, s)) (read_octets False left s)))"

definition read_v4 :: "string \<Rightarrow> (u8 list \<times> string) option" where
  "read_v4 = read_octets True 4"

text \<open>\<open>read_groups\<close>: the groups, whether the last two were written as a version 4 address, and the rest.\<close>

fun read_groups :: "bool \<Rightarrow> nat \<Rightarrow> string \<Rightarrow> u16 list \<times> bool \<times> string" where
  "read_groups first 0 s = ([], False, s)"
| "read_groups first (Suc left) s =
     (let sep = (if first then Some s else read_char (CHR '':'') s) in
      case (if 0 < left then Option.bind sep read_v4 else None) of
        Some (v4, rest) \<Rightarrow> (take 2 (segments_of (v4 @ replicate 12 0)), True, rest)
      | None \<Rightarrow>
          (case Option.bind sep (read_number 16 4 65536 True) of
             None \<Rightarrow> ([], False, s)
           | Some (g, rest) \<Rightarrow>
               (case read_groups False left rest of
                  (gs, v4, rest) \<Rightarrow> (word_of_nat g # gs, v4, rest))))"

definition read_v6 :: "string \<Rightarrow> (u16 list \<times> string) option" where
  "read_v6 s =
     (case read_groups True 8 s of
        (front, v4, s) \<Rightarrow>
          if length front = 8 then Some (front, s)
          else if v4 then None
          else
            Option.bind (Option.bind (read_char (CHR '':'') s) (read_char (CHR '':''))) (\<lambda>s.
              case read_groups True (7 - length front) s of
                (rear, _, s) \<Rightarrow>
                  Some (front @ replicate (8 - length front - length rear) 0 @ rear, s)))"

definition parse_std_addr :: "string \<Rightarrow> std_addr option" where
  "parse_std_addr s =
     (let whole = (\<lambda>r. case r of Some (x, rest) \<Rightarrow> if rest = [] then Some x else None | None \<Rightarrow> None) in
      whole (case read_v4 s of
          Some (v4, rest) \<Rightarrow> Some (StdV4 v4, rest)
        | None \<Rightarrow> map_option (\<lambda>(segs, rest). (StdV6 segs, rest)) (read_v6 s)))"

definition trim_brackets :: "string \<Rightarrow> string" where
  "trim_brackets s =
     (let in_set = (\<lambda>c. c = CHR ''['' \<or> c = CHR '']'')
      in rev (dropWhile in_set (rev (dropWhile in_set s))))"

definition try_ip_addr_from_str :: "string \<Rightarrow> ip_addr option" where
  "try_ip_addr_from_str s = map_option ip_addr_of_std (parse_std_addr (trim_brackets s))"

section \<open>Devices\<close>

datatype protocol_type = Chromecast | FCast

record device_description =
  dd_name :: string
  dd_protocol :: protocol_type
  dd_addresses :: "ip_addr list"
  dd_port :: u16
  dd_txt_records :: "(string \<times> string) list"

definition device_info_fcast ::
    "string \<Rightarrow> ip_addr list \<Rightarrow> u16 \<Rightarrow> (string \<times> string) list \<Rightarrow> device_description"
where
  "device_info_fcast name addresses port txt_records =
     \<lparr> dd_name = name, dd_protocol = FCast, dd_addresses = addresses, dd_port = port,
       dd_txt_records = txt_records \<rparr>"

text \<open>base64 and the JSON text are the parameters of \<open>parse_url\<close>.\<close>

definition device_info_from_url ::
    "(bytes \<Rightarrow> json option) \<Rightarrow> (string \<Rightarrow> bytes option) \<Rightarrow> string \<Rightarrow> device_description option"
where
  "device_info_from_url parse decode url =
     (case parse_url parse decode url of
        None \<Rightarrow> None
      | Some config \<Rightarrow>
          (case List.find (\<lambda>service. svc_kind service = 0) (nc_services config) of
             None \<Rightarrow> None
           | Some tcp_service \<Rightarrow>
               map_option (\<lambda>addrs. device_info_fcast (nc_name config) addrs (svc_port tcp_service)
                   (case nc_txt config of Some txt \<Rightarrow> txt | None \<Rightarrow> []))
                 (those (map (\<lambda>a. map_option ip_addr_of_std (parse_std_addr a)) (nc_addresses config)))))"

section \<open>Formatted addresses are read back\<close>

lemma takeWhile_stop:
  assumes "\<forall>c \<in> set xs. P c" and "rest = [] \<or> \<not> P (hd rest)"
  shows "takeWhile P (xs @ rest) = xs"
  using assms by (cases rest) (simp_all add: takeWhile_append2)

lemma number_of_snoc: "number_of r (ds @ [c]) = r * number_of r ds + the (digit_of r c)"
  by (simp add: number_of_def)

lemma digit_of_dec: "d < 10 \<Longrightarrow> digit_of 10 (char_of (48 + d)) = Some d"
  by (simp add: digit_of_def)

lemma digit_of_hex: "d < 16 \<Longrightarrow> digit_of 16 (digit_char d) = Some d"
  by (auto simp: digit_of_def digit_char_def)

lemma dec_number: "number_of 10 (dec n) = n \<and> (\<forall>c \<in> set (dec n). digit_of 10 c \<noteq> None)"
proof (induction n rule: dec.induct)
  case (1 n)
  show ?case
  proof (cases "n < 10")
    case True
    then show ?thesis by (subst (1 2) dec.simps) (simp add: number_of_def digit_of_dec)
  next
    case False
    with 1 show ?thesis by (subst (1 2) dec.simps) (simp add: number_of_snoc digit_of_dec)
  qed
qed

lemma hex_number: "number_of 16 (hex n) = n \<and> (\<forall>c \<in> set (hex n). digit_of 16 c \<noteq> None)"
proof (induction n rule: hex.induct)
  case (1 n)
  show ?case
  proof (cases "n < 16")
    case True
    then show ?thesis by (subst (1 2) hex.simps) (simp add: number_of_def digit_of_hex)
  next
    case False
    with 1 show ?thesis by (subst (1 2) hex.simps) (simp add: number_of_snoc digit_of_hex)
  qed
qed

lemma hex_nonempty [simp]: "hex n \<noteq> []"
  by (subst hex.simps) simp

lemma dec_shape: "n < 256 \<Longrightarrow> length (dec n) \<le> 3 \<and> (hd (dec n) = CHR ''0'' \<longrightarrow> length (dec n) = 1)"
proof -
  have z: "d < 10 \<Longrightarrow> 0 < d \<Longrightarrow> char_of (48 + d) \<noteq> CHR ''0''" for d :: nat
  proof
    assume "d < 10" "0 < d" "char_of (48 + d) = CHR ''0''"
    then have "of_char (char_of (48 + d) :: char) = (48 :: nat)" by simp
    with \<open>d < 10\<close> \<open>0 < d\<close> show False by simp
  qed
  assume n: "n < 256"
  consider "n < 10" | "10 \<le> n" "n < 100" | "100 \<le> n" by linarith
  then show ?thesis
  proof cases
    case 1
    then show ?thesis by (subst (1 2 3) dec.simps) simp
  next
    case 2
    then have "dec n = [char_of (48 + n div 10), char_of (48 + n mod 10)]"
      by (subst dec.simps, subst dec.simps) simp
    with 2 z [of "n div 10"] show ?thesis by simp
  next
    case 3
    then have "dec n = [char_of (48 + n div 10 div 10), char_of (48 + n div 10 mod 10), char_of (48 + n mod 10)]"
    proof -
      have "\<not> n < 10" "\<not> n div 10 < 10" "n div 10 div 10 < 10" using 3 n by linarith+
      then show ?thesis by (subst dec.simps, subst dec.simps, subst dec.simps) simp
    qed
    with 3 n z [of "n div 10 div 10"] show ?thesis by simp
  qed
qed

lemma hex_short: "n < 65536 \<Longrightarrow> length (hex n) \<le> 4"
proof -
  have "n < 16 ^ Suc k \<Longrightarrow> length (hex n) \<le> Suc k" for k
  proof (induction k arbitrary: n)
    case 0
    then show ?case by (subst hex.simps) simp
  next
    case (Suc k)
    show ?case
    proof (cases "n < 16")
      case True
      then show ?thesis by (subst hex.simps) simp
    next
      case False
      have "n div 16 < 16 ^ Suc k" using Suc.prems by simp
      with Suc.IH False show ?thesis by (subst hex.simps) simp
    qed
  qed
  from this [of 3] show "n < 65536 \<Longrightarrow> length (hex n) \<le> 4" by simp
qed

definition ends_number :: "nat \<Rightarrow> string \<Rightarrow> bool" where
  "ends_number r rest \<longleftrightarrow> rest = [] \<or> digit_of r (hd rest) = None"

lemma read_dec: "n < 256 \<Longrightarrow> ends_number 10 rest \<Longrightarrow> read_number 10 3 256 False (dec n @ rest) = Some (n, rest)"
  using takeWhile_stop [of "dec n" "\<lambda>c. digit_of 10 c \<noteq> None" rest] dec_number [of n] dec_shape [of n]
  by (auto simp: read_number_def ends_number_def Let_def)

lemma read_hex:
  "n < 65536 \<Longrightarrow> ends_number 16 rest \<Longrightarrow> read_number 16 4 65536 True (hex n @ rest) = Some (n, rest)"
  using takeWhile_stop [of "hex n" "\<lambda>c. digit_of 16 c \<noteq> None" rest] hex_number [of n] hex_short [of n]
  by (auto simp: read_number_def ends_number_def Let_def)

lemma separators [simp]:
  "ends_number 10 (CHR ''.'' # rest)" "ends_number 10 []" "ends_number 16 []" "ends_number 16 (CHR '':'' # rest)"
  by (simp_all add: ends_number_def digit_of_def)

lemma read_v4_Suc: "read_v4 = read_octets True (Suc (Suc (Suc (Suc 0))))"
  unfolding read_v4_def by (simp add: eval_nat_numeral)

lemma show_v4_cat:
  "show_v4 [a, b, c, d] =
     dec (unat a) @ ''.'' @ dec (unat b) @ ''.'' @ dec (unat c) @ ''.'' @ dec (unat d)"
proof -
  have "[0..<4] = [0, 1, 2, 3 :: nat]" by (simp add: upt_rec)
  then show ?thesis by (simp add: show_v4_def)
qed

lemma byte_bound: "unat (b :: u8) < 256"
  using unsigned_less [of b, where 'a = nat] by simp

lemma read_show_v4:
  assumes "ends_number 10 rest"
  shows "read_v4 (show_v4 [a, b, c, d] @ rest) = Some ([a, b, c, d], rest)"
  using assms byte_bound [of a] byte_bound [of b] byte_bound [of c] byte_bound [of d]
  by (simp add: read_v4_Suc show_v4_cat read_char_def read_dec)

text \<open>A text with no dot before the first colon is no version 4 address.\<close>

lemma no_dot:
  assumes "CHR ''.'' \<notin> set xs" and "rest = [] \<or> hd rest = CHR '':''"
  shows "read_v4 (xs @ rest) = None"
proof -
  let ?P = "\<lambda>c. digit_of 10 c \<noteq> None"
  let ?s = "xs @ rest"
  have colon: "\<not> ?P (CHR '':'')" by (simp add: digit_of_def)
  have "read_char (CHR ''.'') (dropWhile ?P ?s) = None"
  proof (cases "\<exists>c \<in> set xs. \<not> ?P c")
    case True
    then have e: "dropWhile ?P ?s = dropWhile ?P xs @ rest" "dropWhile ?P xs \<noteq> []"
      by (auto simp: dropWhile_append1)
    have "hd (dropWhile ?P xs) \<in> set xs" using e(2) by (metis hd_in_set set_dropWhileD)
    with assms(1) e show ?thesis by (cases "dropWhile ?P xs") (auto simp: read_char_def)
  next
    case False
    then have "dropWhile ?P ?s = dropWhile ?P rest" by (simp add: dropWhile_append2)
    also have "\<dots> = rest" using assms(2) colon by (cases rest) auto
    finally have dw: "dropWhile ?P ?s = rest" .
    show ?thesis unfolding dw using assms(2) by (cases rest) (auto simp: read_char_def)
  qed
  moreover have "read_number 10 3 256 False ?s = None \<or>
      (\<exists>v. read_number 10 3 256 False ?s = Some (v, dropWhile ?P ?s))"
    by (auto simp: read_number_def Let_def dropWhile_eq_drop)
  ultimately show ?thesis by (auto simp: read_v4_Suc)
qed

section \<open>Version 6\<close>

definition stops :: "string \<Rightarrow> bool" where
  "stops rest \<longleftrightarrow> rest = [] \<or> (\<exists>r. rest = CHR '':'' # CHR '':'' # r)"

definition groups_text :: "bool \<Rightarrow> u16 list \<Rightarrow> string" where
  "groups_text first gs = (if first then show_groups gs else concat (map (\<lambda>g. '':'' @ hex (unat g)) gs))"

lemma hex_no_dot: "CHR ''.'' \<notin> set (hex n)"
  using hex_number [of n] by (auto simp: digit_of_def)

lemma group_bound: "unat (g :: u16) < 65536"
  using unsigned_less [of g, where 'a = nat] by simp

lemma read_groups_none:
  assumes "stops rest"
  shows "read_groups first left rest = ([], False, rest)"
proof (cases left)
  case (Suc n)
  have e: "read_v4 (CHR '':'' # r) = None" "read_number 16 4 65536 True (CHR '':'' # r) = None"
    "read_v4 [] = None" "read_number 16 4 65536 True [] = None" for r
    using no_dot [of "[]" "CHR '':'' # r"] no_dot [of "[]" "[]"]
    by (simp_all add: read_number_def digit_of_def)
  show ?thesis using assms
    by (auto simp: Suc stops_def read_char_def e Let_def)
qed simp

lemma read_groups_text:
  assumes "stops rest" and "length gs \<le> left"
  shows "read_groups first left (groups_text first gs @ rest) = (gs, False, rest)"
  using assms(2)
proof (induction gs arbitrary: first left)
  case Nil
  show ?case using read_groups_none [OF assms(1)] by (cases first) (simp_all add: groups_text_def)
next
  case (Cons g gs)
  then obtain n where n: "left = Suc n" "length gs \<le> n" by (cases left) auto
  define tl where "tl = groups_text False gs @ rest"
  have tl: "tl = [] \<or> hd tl = CHR '':''" using assms(1) by (cases gs) (auto simp: tl_def groups_text_def stops_def)
  then have num: "read_number 16 4 65536 True (hex (unat g) @ tl) = Some (unat g, tl)"
    using read_hex [OF group_bound, of tl g] by (cases tl) (auto simp: ends_number_def digit_of_def)
  have v4: "read_v4 (hex (unat g) @ tl) = None" by (rule no_dot [OF hex_no_dot tl])
  have t: "groups_text True (g # gs) @ rest = hex (unat g) @ tl"
      "groups_text False (g # gs) @ rest = CHR '':'' # hex (unat g) @ tl"
    by (simp_all add: tl_def groups_text_def)
  have ih: "read_groups False n tl = (gs, False, rest)" using Cons.IH [OF n(2), of False] by (simp add: tl_def)
  have "read_groups b (Suc n) s = (g # gs, False, rest)"
    if "(if b then Some s else read_char (CHR '':'') s) = Some (hex (unat g) @ tl)" for b s
    unfolding read_groups.simps(2) Let_def that using ih by (cases n) (simp_all add: num v4 del: read_groups.simps)
  from this [of True "hex (unat g) @ tl"] this [of False "CHR '':'' # hex (unat g) @ tl"] show ?case
    by (cases first) (simp_all add: t n(1) read_char_def del: read_groups.simps)
qed

text \<open>The run of zeros that is left out.\<close>

definition zero_run :: "u16 list \<Rightarrow> nat \<times> nat \<Rightarrow> bool" where
  "zero_run segs r \<longleftrightarrow> fst r + snd r \<le> length segs \<and> take (snd r) (drop (fst r) segs) = replicate (snd r) 0"

lemma zero_run_snoc: "zero_run segs r \<Longrightarrow> zero_run (segs @ gs) r"
  by (auto simp: zero_run_def)

lemma zero_run_grow:
  assumes "zero_run segs r" and "fst r + snd r = length segs"
  shows "zero_run (segs @ [0]) (fst r, Suc (snd r))"
proof -
  have "drop (fst r) segs = replicate (snd r) 0" using assms by (simp add: zero_run_def)
  with assms show ?thesis by (simp add: zero_run_def replicate_append_same)
qed

lemma longest_zeros_run:
  assumes "zero_run segs best" and "zero_run segs cur" and "0 < snd cur \<longrightarrow> fst cur + snd cur = length segs"
  shows "zero_run (segs @ gs) (longest_zeros (length segs) cur best gs)"
  using assms
proof (induction gs arbitrary: segs cur best)
  case (Cons g gs)
  obtain s n where c: "cur = (s, n)" by force
  show ?case
  proof (cases "g = 0")
    case True
    define cur' where "cur' = (if n = 0 then length segs else s, Suc n)"
    have "zero_run (segs @ [0]) cur'"
    proof (cases "n = 0")
      case False
      then show ?thesis using zero_run_grow [OF Cons.prems(2)] Cons.prems(3) by (simp add: c cur'_def)
    qed (simp add: cur'_def zero_run_def)
    moreover have "fst cur' + snd cur' = length (segs @ [0])"
      using Cons.prems(3) by (simp add: cur'_def c)
    moreover have "longest_zeros (length segs) cur best (g # gs) =
        longest_zeros (Suc (length segs)) cur' (if snd best < snd cur' then cur' else best) gs"
      by (simp add: c True cur'_def Let_def)
    ultimately show ?thesis
      using Cons.IH [of "segs @ [0]" "if snd best < snd cur' then cur' else best" cur']
        zero_run_snoc [OF Cons.prems(1), of "[0]"]
      by (simp add: True)
  next
    case False
    have "zero_run (segs @ [g]) (0, 0)" by (simp add: zero_run_def)
    from Cons.IH [OF zero_run_snoc [OF Cons.prems(1)] this] False show ?thesis by (simp add: c)
  qed
qed simp

lemma longest_zeros_split:
  assumes "longest_zeros 0 (0, 0) (0, 0) segs = (start, n)"
  shows "segs = take start segs @ replicate n 0 @ drop (start + n) segs" "start + n \<le> length segs"
proof -
  have "zero_run segs (start, n)"
    using longest_zeros_run [of "[]" "(0, 0)" "(0, 0)" segs] assms by (simp add: zero_run_def)
  then show "segs = take start segs @ replicate n 0 @ drop (start + n) segs" "start + n \<le> length segs"
    by (auto simp: zero_run_def) (metis append_take_drop_id drop_drop add.commute)
qed


lemma stops_simps [simp]: "stops []" "stops (CHR '':'' # CHR '':'' # r)"
  by (simp_all add: stops_def)

lemma length_octets_of [simp]: "length (octets_of segs) = 2 * length segs"
  by (induction segs) (simp_all add: octets_of_def)

lemma segment_of_octets [simp]: "segment_of (segment_hi g) (segment_lo g) = g"
proof -
  have "unat g div 256 < 256" "unat g mod 256 < 256" using group_bound [of g] by simp_all
  then show ?thesis by (simp add: segment_of_def segment_hi_def segment_lo_def unat_of_nat)
qed

lemma octets_of_segment [simp]: "segment_hi (segment_of x y) = x" "segment_lo (segment_of x y) = y"
proof -
  have b: "256 * unat x + unat y < 65536" "unat y < 256" using byte_bound [of x] byte_bound [of y] by auto
  then have "unat (segment_of x y) = 256 * unat x + unat y" unfolding segment_of_def unat_of_nat by simp
  with b show "segment_hi (segment_of x y) = x" "segment_lo (segment_of x y) = y"
    by (simp_all add: segment_hi_def segment_lo_def)
qed

lemma length_16E:
  assumes "length xs = 16"
  obtains a b c d e f g h i j k l m n p q where "xs = [a, b, c, d, e, f, g, h, i, j, k, l, m, n, p, q]"
  using assms by (auto simp: numeral_eq_Suc length_Suc_conv)

lemma upt_8: "[0..<8] = [0, 1, 2, 3, 4, 5, 6, 7 :: nat]"
  by (simp add: upt_rec)

lemma octets_of_segments: "length octets = 16 \<Longrightarrow> octets_of (segments_of octets) = octets"
  by (erule length_16E) (simp add: segments_of_def octets_of_def upt_8)

lemma length_segments_of [simp]: "length (segments_of octets) = 8"
  by (simp add: segments_of_def)

lemma read_mapped:
  assumes "length segs = 8" and "take 6 segs = [0, 0, 0, 0, 0, 0xFFFF]"
  shows "read_v6 (''::ffff:'' @ show_v4 (octets_of (drop 6 segs))) = Some (segs, [])"
proof -
  obtain x y where d: "drop 6 segs = [x, y]"
  proof -
    have "length (drop 6 segs) = 2" using assms(1) by simp
    then obtain x y where "drop 6 segs = [x, y]" by (cases "drop 6 segs"; cases "tl (drop 6 segs)") auto
    then show thesis by (rule that)
  qed
  have segs: "segs = [0, 0, 0, 0, 0, 0xFFFF, x, y]" using append_take_drop_id [of 6 segs] assms(2) d by simp
  define o1 o2 o3 o4 where "o1 = segment_hi x" and "o2 = segment_lo x" and "o3 = segment_hi y" and "o4 = segment_lo y"
  have o: "octets_of [x, y] = [o1, o2, o3, o4]" by (simp add: octets_of_def o1_def o2_def o3_def o4_def)
  define v where "v = show_v4 [o1, o2, o3, o4]"
  have f: "hex 65535 = ''ffff''" by (simp add: hex.simps digit_char_def char_of_def bit_0)
  have v4: "read_v4 (CHR ''f'' # CHR ''f'' # CHR ''f'' # CHR ''f'' # CHR '':'' # v) = None"
    using no_dot [of "''ffff''" "CHR '':'' # v"] by simp
  have num: "read_number 16 4 65536 True (CHR ''f'' # CHR ''f'' # CHR ''f'' # CHR ''f'' # CHR '':'' # v) =
      Some (65535, CHR '':'' # v)"
    using read_hex [of 65535 "CHR '':'' # v", unfolded f] by simp
  have vr: "read_v4 v = Some ([o1, o2, o3, o4], [])" using read_show_v4 [of "[]"] by (simp add: v_def)
  have s: "take 2 (segments_of ([o1, o2, o3, o4] @ replicate 12 0)) = [x, y]"
    by (simp add: segments_of_def upt_8 o1_def o2_def o3_def o4_def)
  have g: "read_groups True 7 (CHR ''f'' # CHR ''f'' # CHR ''f'' # CHR ''f'' # CHR '':'' # v) = ([0xFFFF, x, y], True, [])"
  proof -
    have n: "7 = Suc (Suc (Suc (Suc (Suc (Suc (Suc 0))))))" by simp
    show ?thesis unfolding n using s by (simp add: v4 num vr read_char_def)
  qed
  have r: "replicate 5 (0 :: u16) = [0, 0, 0, 0, 0]" by (simp add: numeral_eq_Suc)
  show ?thesis
    using read_groups_none [of "CHR '':'' # CHR '':'' # CHR ''f'' # CHR ''f'' # CHR ''f'' # CHR ''f'' # CHR '':'' # v" True 8]
      g d o segs r by (simp add: read_v6_def read_char_def v_def)
qed

lemma read_show_v6:
  assumes "length segs = 8"
  shows "read_v6 (show_v6 segs) = Some (segs, [])"
proof (cases "take 6 segs = [0, 0, 0, 0, 0, 0xFFFF]")
  case True
  with read_mapped [OF assms True] show ?thesis by (simp add: show_v6_def)
next
  case False
  obtain start n where z: "longest_zeros 0 (0, 0) (0, 0) segs = (start, n)" by force
  note split = longest_zeros_split [OF z]
  show ?thesis
  proof (cases "1 < n")
    case True
    define front rear where "front = take start segs" and "rear = drop (start + n) segs"
    have len: "length front + n + length rear = 8" using split(2) assms by (simp add: front_def rear_def)
    have shown: "show_v6 segs = groups_text True front @ CHR '':'' # CHR '':'' # groups_text True rear @ []"
      using False True by (simp add: show_v6_def z front_def rear_def groups_text_def)
    have "read_groups True 8 (show_v6 segs) = (front, False, CHR '':'' # CHR '':'' # groups_text True rear @ [])"
      unfolding shown using len by (intro read_groups_text) auto
    moreover have "read_groups True (7 - length front) (groups_text True rear @ []) = (rear, False, [])"
      using len True by (intro read_groups_text) auto
    moreover have "8 - length front - length rear = n" using len by simp
    ultimately show ?thesis
      using len True split(1) by (simp add: read_v6_def read_char_def front_def rear_def)
  next
    case no_run: False
    have "show_v6 segs = groups_text True segs @ []"
      using False no_run by (simp add: show_v6_def z groups_text_def)
    then have "read_groups True 8 (show_v6 segs) = (segs, False, [])"
      using read_groups_text [of "[]" segs 8 True] assms by simp
    then show ?thesis using assms by (simp add: read_v6_def)
  qed
qed


text \<open>Only the brackets are trimmed.\<close>

lemma trim_plain:
  assumes "s \<noteq> []" and "CHR ''['' \<notin> set s" and "CHR '']'' \<notin> set s"
  shows "trim_brackets s = s" "trim_brackets (''['' @ s @ '']'') = s"
proof -
  let ?P = "\<lambda>c. c = CHR ''['' \<or> c = CHR '']''"
  have n: "\<And>t. t \<noteq> [] \<Longrightarrow> set t = set s \<Longrightarrow> \<not> ?P (hd t)" using assms(2,3) by (metis hd_in_set)
  have h: "dropWhile ?P (t @ u) = t @ u" if "t \<noteq> []" "set t = set s" for t u
    using n [OF that] that by (cases t) auto
  show "trim_brackets s = s" "trim_brackets (''['' @ s @ '']'') = s"
    using h [of s "[]"] h [of "rev s" "[]"] h [of s "'']''"] assms(1) by (simp_all add: trim_brackets_def Let_def)
qed

lemma number_chars [simp]:
  "CHR ''['' \<notin> set (dec n)" "CHR '']'' \<notin> set (dec n)" "CHR ''['' \<notin> set (hex n)" "CHR '']'' \<notin> set (hex n)"
  using dec_number [of n] hex_number [of n] by (auto simp: digit_of_def)

lemma show_v4_chars [simp]: "CHR ''['' \<notin> set (show_v4 octets)" "CHR '']'' \<notin> set (show_v4 octets)"
  by (simp_all add: show_v4_def)

lemma show_groups_chars [simp]: "CHR ''['' \<notin> set (show_groups gs)" "CHR '']'' \<notin> set (show_groups gs)"
  by (cases gs; simp)+

lemma show_v6_chars [simp]: "CHR ''['' \<notin> set (show_v6 segs)" "CHR '']'' \<notin> set (show_v6 segs)"
  by (simp_all add: show_v6_def split: prod.splits)

lemma parse_show_v6:
  assumes "length segs = 8"
  shows "parse_std_addr (show_v6 segs) = Some (StdV6 segs)"
proof -
  have "read_v4 (show_v6 segs) = None"
  proof (cases "take 6 segs = [0, 0, 0, 0, 0, 0xFFFF]")
    case True
    then show ?thesis using no_dot [of "[]" "show_v6 segs"] by (simp add: show_v6_def)
  next
    case False
    obtain start n where z: "longest_zeros 0 (0, 0) (0, 0) segs = (start, n)" by force
    have g: "\<exists>xs rest. show_groups gs @ t = xs @ rest \<and> CHR ''.'' \<notin> set xs \<and> (rest = [] \<or> hd rest = CHR '':'')"
      if "t = [] \<or> hd t = CHR '':''" for gs t
    proof (cases gs)
      case (Cons g gs')
      have "hd (concat (map (\<lambda>g. '':'' @ hex (unat g)) gs') @ t) = CHR '':'' \<or>
          concat (map (\<lambda>g. '':'' @ hex (unat g)) gs') @ t = []"
        using that by (cases gs') auto
      then show ?thesis using Cons hex_no_dot [of "unat g"]
        by (intro exI [of _ "hex (unat g)"] exI [of _ "concat (map (\<lambda>g. '':'' @ hex (unat g)) gs') @ t"]) auto
    qed (use that in \<open>auto intro: exI [of _ "[]"]\<close>)
    have "\<exists>gs t. show_v6 segs = show_groups gs @ t \<and> (t = [] \<or> hd t = CHR '':'')"
    proof (cases "1 < n")
      case True
      then have "show_v6 segs = show_groups (take start segs) @ (''::'' @ show_groups (drop (start + n) segs))"
        using False by (simp add: show_v6_def z)
      then show ?thesis by fastforce
    next
      case no: False
      then have "show_v6 segs = show_groups segs @ []" using False by (simp add: show_v6_def z)
      then show ?thesis by blast
    qed
    then obtain gs t where s: "show_v6 segs = show_groups gs @ t" "t = [] \<or> hd t = CHR '':''" by blast
    from g [OF s(2), of gs] obtain xs rest where "show_groups gs @ t = xs @ rest" "CHR ''.'' \<notin> set xs"
      "rest = [] \<or> hd rest = CHR '':''" by blast
    with no_dot [of xs rest] s(1) show ?thesis by simp
  qed
  with read_show_v6 [OF assms] show ?thesis by (simp add: parse_std_addr_def)
qed

text \<open>
  An address formatted for a URL is read back as itself, in all the shorthands of version 6; only
  the scope of a link-local address is lost.
\<close>

theorem formatted_address_is_read_back:
  assumes "octets_ok addr"
  shows "try_ip_addr_from_str (url_format_ip_addr addr) =
    Some (case addr of IpV4 a b c d \<Rightarrow> IpV4 a b c d | IpV6 octets _ \<Rightarrow> IpV6 octets 0)"
proof (cases addr)
  case (IpV4 a b c d)
  have "show_v4 [a, b, c, d] \<noteq> []" by (simp add: show_v4_cat)
  with trim_plain(1) [of "show_v4 [a, b, c, d]"] have "trim_brackets (show_v4 [a, b, c, d]) = show_v4 [a, b, c, d]" by simp
  then show ?thesis using read_show_v4 [of "[]" a b c d]
    by (simp add: IpV4 url_format_ip_addr_def try_ip_addr_from_str_def parse_std_addr_def)
next
  case (IpV6 octets scope_id)
  have "read_v6 [] = None" using read_groups_none [of "[]" True 8] by (simp add: read_v6_def read_char_def)
  then have "show_v6 (segments_of octets) \<noteq> []" using read_show_v6 [OF length_segments_of, of octets] by auto
  with trim_plain(2) [of "show_v6 (segments_of octets)"]
  have "trim_brackets (''['' @ show_v6 (segments_of octets) @ '']'') = show_v6 (segments_of octets)" by simp
  then show ?thesis using assms
    by (simp add: IpV6 url_format_ip_addr_def try_ip_addr_from_str_def parse_show_v6 octets_of_segments)
qed

lemma formatted_address_is_read_back_witness:
  "try_ip_addr_from_str (url_format_ip_addr (IpV6 (0xFE # 0x80 # replicate 13 0 @ [1]) 3)) =
    Some (IpV6 (0xFE # 0x80 # replicate 13 0 @ [1]) 0)"
  by (subst formatted_address_is_read_back) simp_all

end
