(* ===== verification/Sdk_Api.thy ===== *)
theory Sdk_Api
  imports Sdk_Worker Sdk_Addr
begin

text \<open>
  The handle the application holds (sdk/sender/fcast-sender-sdk/src/fcast.rs, \<open>FCastDevice\<close>; the types of
  device.rs): the channel of commands to the worker and the two values shared with it. base64 is a
  parameter.
\<close>

section \<open>The handle\<close>

datatype casting_device_error =
    FailedToSendCommand | MissingAddresses | DeviceAlreadyStarted | UnsupportedFeature

text \<open>\<open>fd_commands\<close>: what was sent to the worker since the handle got its sender, if it has one.\<close>

record fcast_device =
  fd_started :: bool
  fd_commands :: "command list option"
  fd_addresses :: "ip_addr list"
  fd_name :: string
  fd_port :: u16
  fd_txt_records :: "(string \<times> string) list"
  fd_session_version :: u64
  fd_supports_whep :: bool

definition fcast_device_new :: "device_description \<Rightarrow> fcast_device" where
  "fcast_device_new info =
     \<lparr> fd_started = False, fd_commands = None, fd_addresses = dd_addresses info, fd_name = dd_name info,
       fd_port = dd_port info, fd_txt_records = dd_txt_records info,
       fd_session_version = DEFAULT_SESSION_VERSION, fd_supports_whep = False \<rparr>"

type_synonym api_result = "(casting_device_error + unit) \<times> fcast_device"

definition send_command :: "command \<Rightarrow> fcast_device \<Rightarrow> api_result" where
  "send_command cmd fd =
     (case fd_commands fd of
        Some sent \<Rightarrow> (Inr (), fd\<lparr>fd_commands := Some (sent @ [cmd])\<rparr>)
      | None \<Rightarrow> (Inl FailedToSendCommand, fd))"

definition is_ready :: "fcast_device \<Rightarrow> bool" where
  "is_ready fd \<longleftrightarrow> fd_addresses fd \<noteq> [] \<and> 0 < fd_port fd \<and> fd_name fd \<noteq> []"

datatype device_feature =
    FeatSetVolume | FeatSetSpeed | FeatLoadContent | FeatLoadUrl | FeatLoadImage | FeatLoadPlaylist
  | FeatPlaylistNextAndPrevious | FeatSetPlaylistItemIndex | FeatWhepStreaming | FeatFCompanion
  | FeatFWRTCSignalling | FeatChangeTrack | FeatQueue

definition supports_feature :: "fcast_device \<Rightarrow> device_feature \<Rightarrow> bool" where
  "supports_feature fd feature =
     (let session_version = fd_session_version fd in
      case feature of
        FeatSetVolume \<Rightarrow> True
      | FeatSetSpeed \<Rightarrow> True
      | FeatLoadUrl \<Rightarrow> True
      | FeatLoadImage \<Rightarrow> 2 < session_version
      | FeatLoadContent \<Rightarrow> session_version < 4
      | FeatPlaylistNextAndPrevious \<Rightarrow> session_version = 3
      | FeatSetPlaylistItemIndex \<Rightarrow> session_version = 3
      | FeatLoadPlaylist \<Rightarrow> session_version = 3
      | FeatWhepStreaming \<Rightarrow> fd_supports_whep fd
      | FeatFCompanion \<Rightarrow> session_version = 4
      | FeatFWRTCSignalling \<Rightarrow> session_version = 4
      | FeatChangeTrack \<Rightarrow> session_version = 4
      | FeatQueue \<Rightarrow> session_version = 4)"

text \<open>Reading and setting the description; the text records are not given back.\<close>

definition get_device_info :: "fcast_device \<Rightarrow> device_description" where
  "get_device_info fd =
     \<lparr> dd_name = fd_name fd, dd_protocol = FCast, dd_addresses = fd_addresses fd, dd_port = fd_port fd,
       dd_txt_records = [] \<rparr>"

definition set_name :: "string \<Rightarrow> fcast_device \<Rightarrow> fcast_device" where
  "set_name name fd = fd\<lparr>fd_name := name\<rparr>"

definition set_addresses :: "ip_addr list \<Rightarrow> fcast_device \<Rightarrow> fcast_device" where
  "set_addresses addrs fd = fd\<lparr>fd_addresses := addrs\<rparr>"

definition set_port :: "u16 \<Rightarrow> fcast_device \<Rightarrow> fcast_device" where
  "set_port port fd = fd\<lparr>fd_port := port\<rparr>"

section \<open>Requests\<close>

record load_options =
  lo_content_type :: string
  lo_speed :: "f64 option"
  lo_volume :: "f64 option"
  lo_metadata :: "generic_metadata option"
  lo_headers :: "headers option"

datatype load_request =
    RequestUrl load_options string "f64 option"
  | RequestContent load_options string f64
  | RequestVideo load_options string f64
  | RequestImage load_options string
  | RequestPlaylist "playlist_item list"
  | RequestCompanion load_options companion_source "f64 option"
  | RequestQueue "device_queue_item list" "u8 option"

definition or_zero :: "f64 option \<Rightarrow> f64" where
  "or_zero t = (case t of Some x \<Rightarrow> x | None \<Rightarrow> 0)"

definition load_cmd :: "load_type \<Rightarrow> load_options \<Rightarrow> f64 \<Rightarrow> command" where
  "load_cmd typ o' resume_position =
     CmdLoad \<lparr> ld_type = typ, ld_content_type = lo_content_type o', ld_resume_position = resume_position,
       ld_speed = lo_speed o', ld_volume = lo_volume o', ld_metadata = lo_metadata o',
       ld_headers = lo_headers o' \<rparr>"

definition load_url :: "load_options \<Rightarrow> string \<Rightarrow> f64 option \<Rightarrow> fcast_device \<Rightarrow> api_result" where
  "load_url o' url resume_position = send_command (load_cmd (LoadUrl url) o' (or_zero resume_position))"

definition unsupported :: "fcast_device \<Rightarrow> api_result" where
  "unsupported fd = (Inl UnsupportedFeature, fd)"

definition api_load :: "load_request \<Rightarrow> fcast_device \<Rightarrow> api_result" where
  "api_load request fd =
     (case request of
        RequestUrl o' url resume_position \<Rightarrow>
          send_command (load_cmd (LoadUrl url) o' (or_zero resume_position)) fd
      | RequestContent o' content resume_position \<Rightarrow>
          send_command (load_cmd (LoadContent content) o' resume_position) fd
      | RequestVideo o' url resume_position \<Rightarrow> load_url o' url (Some resume_position) fd
      | RequestImage o' url \<Rightarrow>
          if fd_session_version fd < V3_FEATURES_MIN_PROTO_VERSION then unsupported fd
          else load_url (o'\<lparr>lo_speed := None, lo_volume := None\<rparr>) url None fd
      | RequestPlaylist items \<Rightarrow>
          if fd_session_version fd < PLAYLIST_MIN_PROTO_VERSION then unsupported fd
          else send_command (CmdLoadPlaylist items) fd
      | RequestCompanion o' source resume_position \<Rightarrow>
          if fd_session_version fd < 4 then unsupported fd
          else send_command (load_cmd (LoadCompanion source) (o'\<lparr>lo_headers := None\<rparr>)
            (or_zero resume_position)) fd
      | RequestQueue items start_index \<Rightarrow>
          if fd_session_version fd < 4 then unsupported fd
          else send_command (CmdLoadQueue items start_index) fd)"

definition if_supported :: "device_feature \<Rightarrow> command \<Rightarrow> fcast_device \<Rightarrow> api_result" where
  "if_supported feature cmd fd =
     (if supports_feature fd feature then send_command cmd fd else unsupported fd)"

definition playlist_item_next :: "fcast_device \<Rightarrow> api_result" where
  "playlist_item_next = send_command (CmdJumpPlaylist 1)"

definition playlist_item_previous :: "fcast_device \<Rightarrow> api_result" where
  "playlist_item_previous = send_command (CmdJumpPlaylist (- 1))"

definition set_playlist_item_index :: "u32 \<Rightarrow> fcast_device \<Rightarrow> api_result" where
  "set_playlist_item_index index fd =
     (if PLAYLIST_MIN_PROTO_VERSION \<le> fd_session_version fd
      then send_command (CmdSetPlaylistItemIndex index) fd else unsupported fd)"

text \<open>The other requests: seven go straight to the worker, five ask for the feature first.\<close>

definition api_seek :: "f64 \<Rightarrow> fcast_device \<Rightarrow> api_result" where
  "api_seek time_seconds = send_command (CmdSeekVideo time_seconds)"

definition api_stop_playback :: "fcast_device \<Rightarrow> api_result" where
  "api_stop_playback = send_command CmdStopVideo"

definition api_pause_playback :: "fcast_device \<Rightarrow> api_result" where
  "api_pause_playback = send_command CmdPauseVideo"

definition api_resume_playback :: "fcast_device \<Rightarrow> api_result" where
  "api_resume_playback = send_command CmdResumeVideo"

definition api_change_volume :: "f64 \<Rightarrow> fcast_device \<Rightarrow> api_result" where
  "api_change_volume volume = send_command (CmdChangeVolume volume)"

definition api_change_speed :: "f64 \<Rightarrow> fcast_device \<Rightarrow> api_result" where
  "api_change_speed speed = send_command (CmdChangeSpeed speed)"

definition api_start_mirroring_session :: "signaller \<Rightarrow> fcast_device \<Rightarrow> api_result" where
  "api_start_mirroring_session sig = if_supported FeatFWRTCSignalling (CmdStartMirroringSession sig)"

definition api_change_track :: "u32 option \<Rightarrow> media_track_type \<Rightarrow> fcast_device \<Rightarrow> api_result" where
  "api_change_track i track_type = if_supported FeatChangeTrack (CmdChangeTrack i track_type)"

definition api_queue_remove :: "queue_position' \<Rightarrow> fcast_device \<Rightarrow> api_result" where
  "api_queue_remove position = if_supported FeatQueue (CmdQueueRemove position)"

definition api_queue_add :: "device_queue_item \<Rightarrow> queue_position' \<Rightarrow> fcast_device \<Rightarrow> api_result" where
  "api_queue_add item position = if_supported FeatQueue (CmdQueueAdd item position)"

definition api_queue_select :: "queue_position' \<Rightarrow> fcast_device \<Rightarrow> api_result" where
  "api_queue_select position = if_supported FeatQueue (CmdQueueSelect position)"

section \<open>Connecting\<close>

text \<open>The worker that is spawned, with the fingerprint of the \<open>fp\<close> record where it decodes.\<close>

definition pinned_fingerprint :: "(string \<Rightarrow> bytes option) \<Rightarrow> (string \<times> string) list \<Rightarrow> bytes option" where
  "pinned_fingerprint base64 txt = Option.bind (map_of txt ''fp'') base64"

definition api_connect ::
    "(string \<Rightarrow> bytes option) \<Rightarrow> application_info option \<Rightarrow> fcast_device \<Rightarrow>
     (casting_device_error + inner_device) \<times> fcast_device"
where
  "api_connect base64 app_info fd =
     (if fd_started fd then (Inl DeviceAlreadyStarted, fd)
      else if ips_to_socket_addrs (fd_addresses fd) (fd_port fd) = [] then (Inl MissingAddresses, fd)
      else
        (Inr (inner_device_new app_info (fd_session_version fd) (fd_supports_whep fd)
           (pinned_fingerprint base64 (fd_txt_records fd))),
         fd\<lparr>fd_started := True, fd_commands := Some []\<rparr>))"

definition api_disconnect :: "fcast_device \<Rightarrow> api_result" where
  "api_disconnect fd =
     (case send_command CmdQuit fd of
        (_, fd') \<Rightarrow> (Inr (), fd'\<lparr>fd_commands := None, fd_started := False\<rparr>))"

text \<open>What the application reads of the handle while the worker runs.\<close>

definition observe_worker :: "inner_device \<Rightarrow> fcast_device \<Rightarrow> fcast_device" where
  "observe_worker d fd =
     fd\<lparr>fd_session_version := dv_session_version d, fd_supports_whep := dv_supports_whep d\<rparr>"

end
