(* ===== verification/Sdk_Proofs.thy ===== *)
theory Sdk_Proofs
  imports Sdk_Api Driver_Proofs
begin

text \<open>
  The sender SDK's worker: what a run can do to the link (version, stream, pinned fingerprint), what it
  tells the application before the peer is authenticated, how often it reports the connection, that a
  read always returns, and what happens around the handshake.
\<close>

section \<open>Sequences of steps\<close>

type_synonym step_result = "sdk_effect list \<times> connection \<times> sdk_outcome"

lemma and_then_simps [simp]:
  "and_then (effs, c, Go) k = (case k c of (effs', c', out) \<Rightarrow> (effs @ effs', c', out))"
  "and_then (effs, c, QuitLoop) k = (effs, c, QuitLoop)"
  "and_then (effs, c, Fail e) k = (effs, c, Fail e)"
  "and_then (effs, c, Panic) k = (effs, c, Panic)"
  by (simp_all add: and_then_def)

text \<open>
  A property of the two ends of a step and of its effects that holds of a sequence when it holds of the
  parts. Every claim about a run is one of these.
\<close>

locale step_property =
  fixes P :: "connection \<Rightarrow> sdk_effect list \<Rightarrow> connection \<Rightarrow> bool"
  assumes no_step: "\<And>c. P c [] c"
    and chain: "\<And>c effs c1 effs' c2. P c effs c1 \<Longrightarrow> P c1 effs' c2 \<Longrightarrow> P c (effs @ effs') c2"
begin

definition holds :: "connection \<Rightarrow> step_result \<Rightarrow> bool" where
  "holds c r \<longleftrightarrow> P c (fst r) (fst (snd r))"

lemma holds_triple: "holds c (effs, c', out) \<longleftrightarrow> P c effs c'"
  by (simp add: holds_def)

lemma holds_then:
  assumes "holds c r" and "\<And>effs c1. r = (effs, c1, Go) \<Longrightarrow> holds c1 (k c1)"
  shows "holds c (and_then r k)"
proof -
  obtain effs c1 out where r: "r = (effs, c1, out)" by (cases r)
  show ?thesis
  proof (cases out)
    case Go
    obtain effs' c2 out' where k: "k c1 = (effs', c2, out')" by (cases "k c1")
    from assms r Go k have "P c effs c1" "P c1 effs' c2" by (auto simp: holds_def)
    from chain [OF this] r Go k show ?thesis by (simp add: holds_def)
  qed (use assms(1) r in \<open>simp_all add: holds_def\<close>)
qed

lemma holds_anyhow [simp]: "holds c (anyhow r) \<longleftrightarrow> holds c r"
  by (auto simp: holds_def anyhow_def split: prod.splits sdk_outcome.splits)

lemma holds_turns:
  assumes "\<And>ev c. ev \<in> set evs \<Longrightarrow> holds c (sdk_turn env ev c)"
  shows "holds c (sdk_turns env evs c)"
  using assms
proof (induction evs arbitrary: c)
  case Nil
  show ?case by (simp add: holds_def no_step)
next
  case (Cons ev evs)
  then show ?case by (auto intro: holds_then)
qed

lemma holds_loop:
  assumes "\<And>r c. P c [] (c\<lparr>cn_reader := r\<rparr>)"
    and "\<And>packet c. holds c (on_packet env packet c)"
  shows "holds c (sdk_packet_loop env fuel c)"
proof (induction fuel arbitrary: c)
  case 0
  show ?case by (simp add: holds_def no_step)
next
  case (Suc fuel)
  have "holds c (and_then (on_packet env packet (c\<lparr>cn_reader := r\<rparr>)) (sdk_packet_loop env fuel))" for packet r
  proof -
    have "holds c (and_then ([], c\<lparr>cn_reader := r\<rparr>, Go) (on_packet env packet))"
      using assms by (intro holds_then) (simp_all add: holds_def)
    also have "and_then ([], c\<lparr>cn_reader := r\<rparr>, Go) (on_packet env packet) = on_packet env packet (c\<lparr>cn_reader := r\<rparr>)"
      by (simp split: prod.splits)
    finally show ?thesis using Suc by (intro holds_then)
  qed
  with assms(1) show ?case by (auto simp: holds_def no_step split: option.splits read_result.splits)
qed

text \<open>A turn: a packet or a command.\<close>

lemma holds_turn:
  assumes "\<And>r c. P c [] (c\<lparr>cn_reader := r\<rparr>)"
    and "\<And>packet c. holds c (on_packet env packet c)"
    and "\<And>cmd c. ev = S_Command cmd \<Longrightarrow> holds c (handle_command env cmd c)"
  shows "holds c (sdk_turn env ev c)"
proof -
  have "holds c (and_then ([], c\<lparr>cn_reader := r\<rparr>, Go) (sdk_packet_loop env fuel))" for r fuel
    using assms(1) holds_loop [OF assms(1,2)] by (intro holds_then) (simp_all add: holds_def)
  moreover have "and_then ([], c\<lparr>cn_reader := r\<rparr>, Go) (sdk_packet_loop env fuel) =
      sdk_packet_loop env fuel (c\<lparr>cn_reader := r\<rparr>)" for r fuel
    by (simp split: prod.splits)
  ultimately have loop: "holds c (sdk_packet_loop env fuel (c\<lparr>cn_reader := r\<rparr>))" for r fuel by metis
  show ?thesis
  proof (cases ev)
    case (S_Read x)
    with loop show ?thesis
      by (cases x) (auto simp: sdk_turn_def holds_def no_step split: option.splits simp del: sdk_packet_loop.simps)
  next
    case (S_Command cmd)
    with assms(3) show ?thesis by (simp add: sdk_turn_def)
  next
    case S_NoCommands
    then show ?thesis by (simp add: sdk_turn_def holds_def no_step)
  qed
qed

end

section \<open>Quiet steps\<close>

text \<open>
  The link is the stream, the state machine and the fingerprint. A quiet step keeps it and the flag of
  the connected event, and neither shakes hands nor reports a connection.
\<close>

fun is_handshake :: "sdk_effect \<Rightarrow> bool" where
  "is_handshake (Handshake _) = True"
| "is_handshake _ = False"

fun is_connected :: "sdk_effect \<Rightarrow> bool" where
  "is_connected (Notify (ConnectionStateEv (IsConnected _))) = True"
| "is_connected _ = False"

definition same_link :: "connection \<Rightarrow> connection \<Rightarrow> bool" where
  "same_link c c' \<longleftrightarrow>
     dv_stream (cn_device c') = dv_stream (cn_device c) \<and>
     dv_machine (cn_device c') = dv_machine (cn_device c) \<and>
     dv_fingerprint (cn_device c') = dv_fingerprint (cn_device c)"

definition quiet_step :: "connection \<Rightarrow> sdk_effect list \<Rightarrow> connection \<Rightarrow> bool" where
  "quiet_step c effs c' \<longleftrightarrow>
     same_link c c' \<and> cn_emitted c' = cn_emitted c \<and> cn_reader c' = cn_reader c \<and>
     (\<forall>e \<in> set effs. \<not> is_handshake e \<and> \<not> is_connected e)"

interpretation quiet: step_property quiet_step
  by unfold_locales (auto simp: quiet_step_def same_link_def)

lemmas quiet_simps = quiet.holds_triple quiet_step_def same_link_def

lemma quiet_updates [simp]:
  "quiet.holds c (time_changed v c)" "quiet.holds c (duration_changed v c)"
  "quiet.holds c (speed_changed_to v c)" "quiet.holds c (volume_changed_to v c)"
  "quiet.holds c (playback_changed s c)"
  by (simp_all add: time_changed_def duration_changed_def speed_changed_to_def volume_changed_to_def
      playback_changed_def changed_def quiet_simps)

lemma quiet_if_some [simp]: "(\<And>x c. quiet.holds c (k x c)) \<Longrightarrow> quiet.holds c (if_some v k c)"
  by (cases v) (simp_all add: if_some_def quiet_simps)

lemma quiet_play_data [simp]: "quiet.holds c (play_data_changed play c)"
  by (auto simp: play_data_changed_def quiet_simps Let_def split: option.splits)

lemma quiet_reports:
  "quiet.holds c (and_then (play_data_changed play c) (\<lambda>c.
     ((case pm_volume play of Some v \<Rightarrow> [Notify (VolumeEv v)] | None \<Rightarrow> []) @
      (case pm_time play of Some t \<Rightarrow> [Notify (TimeEv t)] | None \<Rightarrow> []) @
      (case pm_speed play of Some s \<Rightarrow> [Notify (SpeedEv s)] | None \<Rightarrow> []), c, Go)))"
  by (intro quiet.holds_then) (auto simp: quiet_simps split: option.splits)

lemma quiet_resource [simp]: "quiet.holds c (sdk_resource_request i j h c)"
  by (auto simp: sdk_resource_request_def Let_def quiet_simps split: sum.splits work_error.splits prod.splits)

lemma quiet_companion [simp]: "quiet.holds c (on_companion lib request c)"
  by (cases request) (auto simp: on_companion_def quiet_simps sdk_flat_def split: option.splits sum.splits)

lemma quiet_mirroring [simp]: "quiet.holds c (on_start_mirroring lib i sig c)"
  by (simp add: on_start_mirroring_def quiet_simps sdk_flat_def)

lemma quiet_loaded [simp]: "quiet.holds c (on_loaded load c)"
  by (cases load) (auto simp: on_loaded_def source_changed_to_def quiet_simps Let_def split: device_queue_item.splits)

text \<open>The actions that are not: the two that report the connection first, and the switch to TLS.\<close>

definition loud :: "sdk_action \<Rightarrow> bool" where
  "loud act \<longleftrightarrow>
     (case act of
        DoConnected CodeV2 \<Rightarrow> True | DoInitial _ \<Rightarrow> True | DoIntroduction _ _ \<Rightarrow> True | DoUpgradeToTls \<Rightarrow> True
      | _ \<Rightarrow> False)"

lemma quiet_action: "\<not> loud act \<Longrightarrow> quiet.holds c (sdk_handle_action env act c)"
proof (cases act)
  case (DoPlaybackUpdateV2 u)
  show ?thesis unfolding DoPlaybackUpdateV2 sdk_handle_action_def Let_def sdk_action.case
    by (intro quiet.holds_then) simp_all
next
  case (DoPlaybackUpdateV3 u)
  show ?thesis unfolding DoPlaybackUpdateV3 sdk_handle_action_def Let_def sdk_action.case
    by (intro quiet.holds_then) (simp_all, simp add: quiet_simps)
next
  case (DoConnected code)
  assume "\<not> loud act"
  with DoConnected show ?thesis
    by (cases code) (simp_all add: loud_def Let_def sdk_handle_action_def on_connected_def quiet_simps sdk_send_def)
qed (auto simp: sdk_handle_action_def loud_def Let_def quiet_simps quiet.no_step
      split: option.splits event_object.splits event_type.splits)

text \<open>What the loud ones do.\<close>

lemma emit_once_spec:
  "emit_connected_once caps c =
     ((if cn_emitted c then [] else [Notify (ConnectionStateEv (IsConnected caps))]), c\<lparr>cn_emitted := True\<rparr>, Go)"
  by (simp add: emit_connected_once_def emit_connected_def)

lemma on_initial_parts:
  obtains r caps where "quiet.holds c r"
    "on_initial msg c = and_then r (\<lambda>c. emit_connected_once None
       (case caps of Some whep \<Rightarrow> dev (dv_supports_whep_update (\<lambda>_. whep)) c | None \<Rightarrow> c))"
proof -
  have "quiet.holds c (case ir_play_data msg of None \<Rightarrow> ([], c, Go) | Some play \<Rightarrow>
      and_then (play_data_changed play c) (\<lambda>c.
        ((case pm_volume play of Some v \<Rightarrow> [Notify (VolumeEv v)] | None \<Rightarrow> []) @
         (case pm_time play of Some t \<Rightarrow> [Notify (TimeEv t)] | None \<Rightarrow> []) @
         (case pm_speed play of Some s \<Rightarrow> [Notify (SpeedEv s)] | None \<Rightarrow> []), c, Go)))"
    by (cases "ir_play_data msg") (simp_all only: option.case quiet_reports quiet.holds_triple quiet.no_step)
  from that [OF this, where caps = "whep_capability (ir_experimental_capabilities msg)"] show thesis
    by (simp only: on_initial_def Let_def)
qed

text \<open>All of them but the switch keep the link and shake no hands.\<close>

definition linked_step :: "connection \<Rightarrow> sdk_effect list \<Rightarrow> connection \<Rightarrow> bool" where
  "linked_step c effs c' \<longleftrightarrow> same_link c c' \<and> (\<forall>e \<in> set effs. \<not> is_handshake e)"

interpretation linked: step_property linked_step
  by unfold_locales (auto simp: linked_step_def same_link_def)

lemma linked_quiet: "quiet.holds c r \<Longrightarrow> linked.holds c r"
  by (auto simp: quiet.holds_def linked.holds_def quiet_step_def linked_step_def)

lemma linked_action:
  assumes "act \<noteq> DoUpgradeToTls"
  shows "linked.holds c (sdk_handle_action env act c)"
proof (cases "loud act")
  case True
  then consider "act = DoConnected CodeV2" | msg where "act = DoInitial msg" | w caps where "act = DoIntroduction w caps"
    using assms by (auto simp: loud_def split: sdk_action.splits version_code.splits)
  then show ?thesis
  proof cases
    case 1
    then show ?thesis
      by (simp add: sdk_handle_action_def Let_def on_connected_def emit_connected_def linked.holds_triple
          linked_step_def same_link_def)
  next
    case 2
    obtain r caps where r: "quiet.holds c r" "on_initial msg c = and_then r (\<lambda>c. emit_connected_once None
        (case caps of Some whep \<Rightarrow> dev (dv_supports_whep_update (\<lambda>_. whep)) c | None \<Rightarrow> c))"
      by (rule on_initial_parts)
    have "linked.holds c (on_initial msg c)" unfolding r(2)
      by (intro linked.holds_then linked_quiet [OF r(1)])
         (auto simp: emit_once_spec linked.holds_triple linked_step_def same_link_def split: option.splits)
    with 2 show ?thesis by (simp add: sdk_handle_action_def)
  next
    case 3
    then show ?thesis
      by (simp add: sdk_handle_action_def Let_def emit_once_spec linked.holds_triple linked_step_def same_link_def)
  qed
qed (intro linked_quiet quiet_action)

text \<open>A command is quiet, reports the connection at its deadline, or starts mirroring.\<close>

lemma quiet_built [simp]: "quiet.holds c (sdk_built lib msg c)"
  by (auto simp: sdk_built_def quiet_simps sdk_flat_def split: option.splits)

text \<open>Opening a file changes the sources only.\<close>

definition same_but_sources :: "inner_device \<Rightarrow> inner_device \<Rightarrow> bool" where
  "same_but_sources d d' \<longleftrightarrow> d' = d\<lparr>dv_sources := dv_sources d'\<rparr>"

lemma same_but_sources_fields:
  assumes "same_but_sources d d'"
  shows "dv_stream d' = dv_stream d" "dv_machine d' = dv_machine d" "dv_fingerprint d' = dv_fingerprint d"
    "dv_session_version d' = dv_session_version d" "dv_app_info d' = dv_app_info d"
    "dv_supports_whep d' = dv_supports_whep d" "dv_signaller d' = dv_signaller d"
proof -
  obtain s where d': "d' = d\<lparr>dv_sources := s\<rparr>" using assms by (auto simp: same_but_sources_def)
  show "dv_stream d' = dv_stream d" "dv_machine d' = dv_machine d" "dv_fingerprint d' = dv_fingerprint d"
    "dv_session_version d' = dv_session_version d" "dv_app_info d' = dv_app_info d"
    "dv_supports_whep d' = dv_supports_whep d" "dv_signaller d' = dv_signaller d"
    by (simp_all add: d')
qed

lemma same_but_sources_refl [simp]: "same_but_sources d d"
  by (simp add: same_but_sources_def)

lemma same_but_sources_trans: "same_but_sources d d' \<Longrightarrow> same_but_sources d' d'' \<Longrightarrow> same_but_sources d d''"
  by (cases d; cases d'; cases d'') (simp add: same_but_sources_def)

lemma quiet_built_device [simp]:
  "same_but_sources (cn_device c) d \<Longrightarrow> quiet.holds c (sdk_built lib msg (c\<lparr>cn_device := d\<rparr>))"
  by (auto simp: sdk_built_def quiet_simps sdk_flat_def same_but_sources_fields split: option.splits)

lemma quiet_device [simp]:
  "same_but_sources (cn_device c) d \<Longrightarrow> quiet_step c [] (c\<lparr>cn_device := d\<rparr>)"
  by (simp add: quiet_simps same_but_sources_fields)

lemma companion_url_same: "companion_url env src d = Some (url, d') \<Longrightarrow> same_but_sources d d'"
  by (auto simp: companion_url_def add_source_def same_but_sources_def
      split: sdk_variant.splits option.splits)

lemma queue_item_url_same: "queue_item_url env item d = Some (url, d') \<Longrightarrow> same_but_sources d d'"
  by (auto simp: queue_item_url_def dest: companion_url_same split: device_queue_item.splits)

lemma wrap_items_same: "wrap_items env items d = (res, d') \<Longrightarrow> same_but_sources d d'"
proof (induction items arbitrary: d res d')
  case (Cons item items)
  then show ?case
    by (fastforce split: option.splits prod.splits
        dest!: queue_item_url_same intro: same_but_sources_trans)
qed simp

lemma quiet_load [simp]: "quiet.holds c (sdk_load env ld c)"
  by (auto simp: sdk_load_def Let_def quiet_simps load_v2_def load_v3_def load_v4_def sdk_send_def
      dest!: companion_url_same split: load_type.splits option.splits)

lemma quiet_load_queue [simp]: "quiet.holds c (sdk_load_queue env items i c)"
  by (auto simp: sdk_load_queue_def quiet.holds_triple dest!: wrap_items_same split: prod.splits option.splits)

lemma quiet_queue_add [simp]: "quiet.holds c (sdk_queue_add env item i c)"
  by (auto simp: sdk_queue_add_def quiet_simps dest!: queue_item_url_same split: option.splits)

lemma quiet_by_version [simp]:
  "\<forall>e \<in> set (legacy @ v4). \<not> is_handshake e \<and> \<not> is_connected e \<Longrightarrow> quiet.holds c (by_version legacy v4 c)"
  by (auto simp: by_version_def quiet_simps split: sdk_variant.splits)

definition loud_command :: "command \<Rightarrow> bool" where
  "loud_command cmd \<longleftrightarrow>
     (case cmd of CmdConnectedEventDeadlineElapsed \<Rightarrow> True | CmdStartMirroringSession _ \<Rightarrow> True | _ \<Rightarrow> False)"

lemma quiet_command: "\<not> loud_command cmd \<Longrightarrow> quiet.holds c (handle_command env cmd c)"
proof (cases cmd)
  case (CmdLoad ld)
  show ?thesis unfolding CmdLoad handle_command_def Let_def command.case
    by (intro quiet.holds_then) (simp_all add: quiet_simps)
next
  case (CmdLoadPlaylist items)
  let ?c = "c\<lparr>cn_length := Some (length items), cn_index := Some 0\<rparr>"
  have "quiet.holds c (and_then ([], ?c, Go) (load_playlist env items))"
    by (intro quiet.holds_then) (simp_all add: quiet_simps load_playlist_def quiet_load [unfolded quiet_simps])
  then show ?thesis using CmdLoadPlaylist
    by (simp add: handle_command_def Let_def load_playlist_def split: prod.splits)
next
  case CmdStopVideo
  show ?thesis unfolding CmdStopVideo handle_command_def Let_def command.case sdk_stop_playback_def
    by (intro quiet.holds_then) (simp_all add: quiet_simps sdk_flat_def)
qed (auto simp: handle_command_def Let_def loud_command_def change_volume_def change_speed_def sdk_seek_def
      pause_video_def resume_video_def jump_playlist_def set_playlist_item_packet_def sdk_flat_def sdk_send_def
      quiet.no_step quiet_simps split: option.splits)

section \<open>Packets\<close>

lemma connecting_packet:
  assumes "sdk_handle_packet lib opc body sm = (act, sm')" and "sm_variant sm = Connecting"
  obtains "sm' = sm" "act = DoPong \<or> act = DoNone \<or> (\<exists>reason. act = DoQuit reason)"
  | "\<not> sm_require_v4 sm" "act = DoConnected CodeV2" "sm' = sm\<lparr>sm_variant := SdkV2\<rparr>"
  | "\<not> sm_require_v4 sm" "act = DoConnected CodeV3" "sm' = sm\<lparr>sm_variant := SdkV3\<rparr>"
  | "act = DoUpgradeToTls" "sm' = sm\<lparr>sm_variant := SdkV4 None None 0\<rparr>"
proof -
  have "(sm' = sm \<and> (act = DoPong \<or> act = DoNone \<or> (\<exists>reason. act = DoQuit reason))) \<or>
    (\<not> sm_require_v4 sm \<and> act = DoConnected CodeV2 \<and> sm' = sm\<lparr>sm_variant := SdkV2\<rparr>) \<or>
    (\<not> sm_require_v4 sm \<and> act = DoConnected CodeV3 \<and> sm' = sm\<lparr>sm_variant := SdkV3\<rparr>) \<or>
    (act = DoUpgradeToTls \<and> sm' = sm\<lparr>sm_variant := SdkV4 None None 0\<rparr>)"
    using assms by (cases opc) (auto simp: sdk_handle_packet_def sdk_handle_connecting_def split: sum.splits if_splits)
  then show thesis using that by blast
qed

definition version_action :: "sdk_action \<Rightarrow> bool" where
  "version_action act \<longleftrightarrow> act = DoUpgradeToTls \<or> (\<exists>code. act = DoConnected code)"

lemma json_action_plain [simp]:
  "\<forall>msg. \<not> version_action (k msg) \<Longrightarrow> \<not> version_action (json_action lib de body k)"
  by (auto simp: json_action_def version_action_def split: sum.splits)

lemma version_action_simps [simp]:
  "version_action DoUpgradeToTls" "version_action (DoConnected code)"
  "\<not> version_action DoNone" "\<not> version_action DoPong" "\<not> version_action (DoQuit reason)"
  "\<not> version_action (DoVolumeUpdated m1)" "\<not> version_action (DoPlaybackError m2)"
  "\<not> version_action (DoPlaybackUpdateV2 m3)" "\<not> version_action (DoPlaybackUpdateV3 m4)"
  "\<not> version_action (DoInitial m5)" "\<not> version_action (DoPlayUpdate m6)" "\<not> version_action (DoEvent m7)"
  by (simp_all add: version_action_def)

lemma common_plain:
  "handle_packet_common_v2_v3 lib opc body = Some act \<Longrightarrow> \<not> version_action act"
  by (cases opc) (auto simp: handle_packet_common_v2_v3_def)

lemma v2_plain: "\<not> version_action (sdk_handle_v2 lib opc body)"
  using common_plain [of lib opc body]
  by (auto simp: sdk_handle_v2_def split: option.splits opcode.splits)

lemma v3_plain: "\<not> version_action (sdk_handle_v3 lib opc body)"
  using common_plain [of lib opc body]
  by (auto simp: sdk_handle_v3_def split: option.splits opcode.splits)

lemma flat_v4_machine:
  assumes "sdk_handle_flat_v4 lib body sm = (act, sm')" and "sm_variant sm = SdkV4 p m g"
  shows "\<not> version_action act \<and> (sm' = sm \<or> (\<exists>p'. sm' = sm\<lparr>sm_variant := SdkV4 p' m g\<rparr>))"
  using assms
  by (auto simp: sdk_handle_flat_v4_def version_action_def Let_def
      split: option.splits flat_message.splits if_splits)

lemma later_packet:
  assumes "sdk_handle_packet lib opc body sm = (act, sm')" and "sm_variant sm \<noteq> Connecting"
  shows "\<not> version_action act \<and>
    (sm' = sm \<or> (\<exists>p m g p'. sm_variant sm = SdkV4 p m g \<and> sm' = sm\<lparr>sm_variant := SdkV4 p' m g\<rparr>))"
proof (cases "handle_opcode_common opc")
  case (Some a)
  with assms show ?thesis by (cases opc) (auto simp: sdk_handle_packet_def version_action_def)
next
  case None
  show ?thesis
  proof (cases "sm_variant sm")
    case (SdkV4 p m g)
    then have r: "sdk_handle_v4 lib opc body sm = (act, sm')" using None assms(1) by (simp add: sdk_handle_packet_def)
    show ?thesis
    proof (cases "opc = Op_Flatbuf \<and> body \<noteq> None")
      case True
      then obtain b where "sdk_handle_flat_v4 lib b sm = (act, sm')" using r by (auto simp: sdk_handle_v4_def)
      from flat_v4_machine [OF this SdkV4] SdkV4 show ?thesis by blast
    next
      case False
      with r show ?thesis by (cases opc) (auto simp: sdk_handle_v4_def version_action_def split: option.splits)
    qed
  qed (use assms None v2_plain v3_plain in \<open>auto simp: sdk_handle_packet_def\<close>)
qed

text \<open>A packet that is handled: its action, on the connection whose machine it moved.\<close>

lemma on_packet_cases:
  obtains e where "on_packet env packet c = ([], c, Fail e)"
  | opc body act sm where "split_packet packet = Some (opcode_as_u8 opc, body)"
      "sdk_handle_packet (env_lib env) opc body (dv_machine (cn_device c)) = (act, sm)"
      "on_packet env packet c = sdk_handle_action env act (dev (dv_machine_update (\<lambda>_. sm)) c)"
proof (cases "split_packet packet")
  case None
  with that(1) show thesis by (simp add: on_packet_def)
next
  case (Some p)
  obtain code body where p: "p = (code, body)" by force
  show thesis
  proof (cases "opcode_try_from code")
    case (Inl e)
    with that(1) Some p show thesis by (simp add: on_packet_def)
  next
    case (Inr opc)
    obtain act sm where "sdk_handle_packet (env_lib env) opc body (dv_machine (cn_device c)) = (act, sm)" by force
    with Some p Inr opcode_try_from_Inr [OF Inr] show thesis
      by (intro that(2) [of opc body act sm]) (simp_all add: on_packet_def)
  qed
qed

section \<open>Before the peer is known\<close>

text \<open>
  What may happen in the clear: writing, and the reports that do not come from the peer, which are the
  deadline of the connected event and the application's own stop.
\<close>

fun clear_effect :: "sdk_effect \<Rightarrow> bool" where
  "clear_effect (Out _) = True"
| "clear_effect (Notify ev) = (ev \<in> {ConnectionStateEv (IsConnected None), StoppedEv, PlaybackStateEv DevIdle})"
| "clear_effect _ = False"

interpretation clear: step_property "\<lambda>c effs c'. \<forall>e \<in> set effs. clear_effect e"
  by unfold_locales auto

lemma clear_built [simp]: "clear.holds c' (sdk_built lib msg c)"
  by (auto simp: sdk_built_def clear.holds_triple sdk_flat_def split: option.splits)

lemma clear_by_version [simp]:
  "\<forall>e \<in> set (legacy @ v4). clear_effect e \<Longrightarrow> clear.holds c' (by_version legacy v4 c)"
  by (auto simp: by_version_def clear.holds_triple split: sdk_variant.splits)

lemma clear_load [simp]: "clear.holds c' (sdk_load env ld c)"
  by (auto simp: sdk_load_def Let_def clear.holds_triple load_v2_def load_v3_def load_v4_def sdk_send_def
      split: load_type.splits option.splits)

lemma clear_command:
  assumes "c_variant c = Connecting"
  shows "clear.holds c (handle_command env cmd c)"
proof (cases cmd)
  case (CmdLoad ld)
  show ?thesis unfolding CmdLoad handle_command_def Let_def command.case
    by (intro clear.holds_then) (simp_all add: clear.holds_triple)
next
  case CmdStopVideo
  show ?thesis unfolding CmdStopVideo handle_command_def Let_def command.case sdk_stop_playback_def
    by (intro clear.holds_then) (simp_all add: clear.holds_triple sdk_flat_def)
qed (use assms in \<open>auto simp: handle_command_def Let_def change_volume_def change_speed_def sdk_seek_def
      pause_video_def resume_video_def jump_playlist_def set_playlist_item_packet_def sdk_flat_def sdk_send_def
      load_playlist_def sdk_load_queue_def sdk_queue_add_def emit_once_spec sm_start_mirroring_def
      sdk_handle_action_def anyhow_def clear.holds_triple split: option.splits prod.splits\<close>)

section \<open>The pinned device\<close>

definition pinned :: "bytes \<Rightarrow> connection \<Rightarrow> bool" where
  "pinned fp c \<longleftrightarrow>
     dv_fingerprint (cn_device c) = Some fp \<and> sm_require_v4 (dv_machine (cn_device c)) \<and>
     (c_variant c = Connecting \<and> dv_stream (cn_device c) = NsTcp \<or>
      (\<exists>p m g. c_variant c = SdkV4 p m g) \<and> dv_stream (cn_device c) \<noteq> NsTcp)"

definition in_clear :: "sdk_effect list \<Rightarrow> sdk_effect list" where
  "in_clear effs = takeWhile (\<lambda>e. \<not> is_handshake e) effs"

lemma in_clear_append:
  "in_clear (effs @ effs') = (if \<exists>e \<in> set effs. is_handshake e then in_clear effs else effs @ in_clear effs')"
  by (induction effs) (auto simp: in_clear_def)

definition pinned_step :: "bytes \<Rightarrow> connection \<Rightarrow> sdk_effect list \<Rightarrow> connection \<Rightarrow> bool" where
  "pinned_step fp c effs c' \<longleftrightarrow>
     (pinned fp c \<longrightarrow>
        pinned fp c' \<and> (\<forall>fp'. Handshake fp' \<in> set effs \<longrightarrow> fp' = fp) \<and>
        (c_variant c \<noteq> Connecting \<longrightarrow> c_variant c' \<noteq> Connecting) \<and>
        (c_variant c = Connecting \<longrightarrow>
           (c_variant c' = Connecting \<longleftrightarrow> (\<forall>e \<in> set effs. \<not> is_handshake e)) \<and>
           (\<forall>e \<in> set (in_clear effs). clear_effect e)))"

interpretation pinned: step_property "pinned_step fp" for fp
proof
  fix c
  show "pinned_step fp c [] c" by (simp add: pinned_step_def in_clear_def)
next
  fix c effs c1 effs' c2
  assume "pinned_step fp c effs c1" "pinned_step fp c1 effs' c2"
  moreover have "\<forall>e \<in> set effs. clear_effect e" if "\<forall>e \<in> set (in_clear effs). clear_effect e"
    "\<forall>e \<in> set effs. \<not> is_handshake e"
    using that by (simp add: in_clear_def takeWhile_eq_all_conv [THEN iffD2])
  ultimately show "pinned_step fp c (effs @ effs') c2"
    unfolding pinned_step_def in_clear_append by (auto split: if_splits)
qed

lemma pinned_linked:
  assumes "linked_step c effs c'" and "c_variant c = Connecting \<Longrightarrow> \<forall>e \<in> set effs. clear_effect e"
  shows "pinned_step fp c effs c'"
proof -
  have sub: "set (in_clear effs) \<subseteq> set effs" by (auto simp: in_clear_def dest: set_takeWhileD)
  have no_hs: "Handshake fp' \<notin> set effs" for fp' using assms(1) by (auto simp: linked_step_def)
  from assms(1) have "pinned fp c' = pinned fp c" by (simp add: linked_step_def same_link_def pinned_def)
  with assms sub no_hs show ?thesis by (auto simp: pinned_step_def linked_step_def same_link_def)
qed

lemma pinned_packet: "pinned.holds fp c (on_packet env packet c)"
proof (cases rule: on_packet_cases [of env packet c])
  case (1 e)
  then show ?thesis by (simp add: pinned.holds_def pinned.no_step)
next
  case (2 opc body act sm)
  let ?c = "dev (dv_machine_update (\<lambda>_. sm)) c"
  show ?thesis
  proof (cases "c_variant c = Connecting")
    case True
    from 2(2) True show ?thesis
    proof (cases rule: connecting_packet)
      case 1
      then have "?c = c" by simp
      with 1(2) 2(3) show ?thesis
        by (auto simp: sdk_handle_action_def Let_def pinned.holds_triple linked_step_def same_link_def
            intro!: pinned_linked)
    next
      case 4
      with 2(3) True show ?thesis
        by (auto simp: sdk_handle_action_def on_upgrade_to_tls_def Let_def pinned.holds_triple pinned_step_def
            pinned_def in_clear_def sdk_flat_def split: option.splits)
    qed (auto simp: pinned.holds_def pinned_step_def pinned_def)
  next
    case False
    note later = later_packet [OF 2(2) False]
    have c: "pinned fp ?c = pinned fp c" "c_variant ?c \<noteq> Connecting"
      using later False by (auto simp: pinned_def)
    have "linked.holds ?c (sdk_handle_action env act ?c)"
      using later by (intro linked_action) (auto simp: version_action_def)
    with c(2) have "pinned.holds fp ?c (sdk_handle_action env act ?c)"
      by (auto simp: pinned.holds_def linked.holds_def intro: pinned_linked)
    with c False 2(3) show ?thesis by (simp add: pinned.holds_def pinned_step_def)
  qed
qed

lemma is_handshake_Handshake: "is_handshake e \<longleftrightarrow> (\<exists>fp. e = Handshake fp)"
  by (cases e) simp_all

text \<open>A mirroring session is a step of the machine within version 4, and then a quiet action.\<close>

lemma start_mirroring_machine:
  assumes "sm_start_mirroring sig sm = (act, sm')"
  shows "\<not> loud act \<and> (sm' = sm \<or> (\<exists>p m g m' g'. sm_variant sm = SdkV4 p m g \<and> sm' = sm\<lparr>sm_variant := SdkV4 p m' g'\<rparr>))"
  using assms by (auto simp: sm_start_mirroring_def loud_def split: sdk_variant.splits prod.splits)

lemma pinned_command: "pinned.holds fp c (handle_command env cmd c)"
proof (cases "loud_command cmd")
  case False
  then have "linked.holds c (handle_command env cmd c)" by (intro linked_quiet quiet_command)
  then show ?thesis
    using clear_command [of c env cmd] by (simp add: linked.holds_def pinned.holds_def clear.holds_def pinned_linked)
next
  case True
  then consider "cmd = CmdConnectedEventDeadlineElapsed" | sig where "cmd = CmdStartMirroringSession sig"
    by (auto simp: loud_command_def split: command.splits)
  then show ?thesis
  proof cases
    case 1
    then show ?thesis
      by (auto simp: handle_command_def emit_once_spec pinned.holds_triple linked_step_def same_link_def
          intro: pinned_linked)
  next
    case 2
    obtain act sm where st: "sm_start_mirroring sig (dv_machine (cn_device c)) = (act, sm)" by force
    let ?c = "dev (dv_machine_update (\<lambda>_. sm)) c"
    note m = start_mirroring_machine [OF st]
    have r: "handle_command env cmd c = anyhow (sdk_handle_action env act ?c)"
      using 2 st by (simp add: handle_command_def)
    have v: "pinned fp ?c = pinned fp c" "(c_variant ?c = Connecting) = (c_variant c = Connecting)"
      using m by (auto simp: pinned_def)
    have "linked.holds ?c (sdk_handle_action env act ?c)" using m by (auto intro: linked_quiet quiet_action)
    moreover have "\<forall>e \<in> set (fst (handle_command env cmd c)). clear_effect e" if "c_variant c = Connecting"
      using clear_command [OF that] by (simp add: clear.holds_def)
    ultimately have "pinned.holds fp ?c (handle_command env cmd c)"
      using r v by (auto simp: pinned.holds_def linked.holds_def anyhow_def
          split: prod.splits sdk_outcome.splits intro!: pinned_linked)
    with v show ?thesis by (simp add: pinned.holds_def pinned_step_def)
  qed
qed

lemma pinned_turns: "pinned.holds fp c (sdk_turns env evs c)"
  by (intro pinned.holds_turns pinned.holds_turn pinned_packet pinned_command)
     (auto intro!: pinned_linked simp: linked_step_def same_link_def)

text \<open>What a connection does in the clear without being asked to: it answers pings and reports the deadline.\<close>

definition unprompted :: "sdk_effect \<Rightarrow> bool" where
  "unprompted e \<longleftrightarrow> e \<in> {Out (sdk_send_empty Op_Pong), Notify (ConnectionStateEv (IsConnected None))}"

definition hushed_step :: "bytes \<Rightarrow> connection \<Rightarrow> sdk_effect list \<Rightarrow> connection \<Rightarrow> bool" where
  "hushed_step fp c effs c' \<longleftrightarrow>
     pinned_step fp c effs c' \<and>
     (pinned fp c \<longrightarrow> c_variant c = Connecting \<longrightarrow> (\<forall>e \<in> set (in_clear effs). unprompted e))"

lemma in_clear_all: "\<forall>e \<in> set effs. \<not> is_handshake e \<Longrightarrow> in_clear effs = effs"
  by (simp add: in_clear_def takeWhile_eq_all_conv [THEN iffD2])

interpretation hushed: step_property "hushed_step fp" for fp
proof
  fix c
  show "hushed_step fp c [] c" by (simp add: hushed_step_def pinned.no_step in_clear_def)
next
  fix c effs c1 effs' c2
  assume 1: "hushed_step fp c effs c1" and 2: "hushed_step fp c1 effs' c2"
  then have "pinned_step fp c (effs @ effs') c2" unfolding hushed_step_def by (blast intro: pinned.chain)
  moreover have "\<forall>e \<in> set (in_clear (effs @ effs')). unprompted e" if "pinned fp c" "c_variant c = Connecting"
  proof (cases "\<exists>e \<in> set effs. is_handshake e")
    case True
    with 1 that show ?thesis by (simp add: hushed_step_def in_clear_append)
  next
    case False
    with 1 that have "pinned fp c1" "c_variant c1 = Connecting" by (auto simp: hushed_step_def pinned_step_def)
    with 1 2 that False in_clear_all [of effs] show ?thesis by (auto simp: hushed_step_def in_clear_append)
  qed
  ultimately show "hushed_step fp c (effs @ effs') c2" by (simp add: hushed_step_def)
qed

lemma hushed_packet: "hushed.holds fp c (on_packet env packet c)"
proof -
  have "\<forall>e \<in> set (in_clear (fst (on_packet env packet c))). unprompted e"
    if "pinned fp c" "c_variant c = Connecting"
  proof (cases rule: on_packet_cases [of env packet c])
    case (1 e)
    then show ?thesis by (simp add: in_clear_def)
  next
    case (2 opc body act sm)
    from 2(2) that(2) show ?thesis
      by (cases rule: connecting_packet)
        (use 2(3) that in \<open>auto simp: sdk_handle_action_def on_upgrade_to_tls_def Let_def in_clear_def pinned_def
           unprompted_def split: option.splits\<close>)
  qed
  with pinned_packet [of fp c env packet] show ?thesis by (auto simp: hushed.holds_def hushed_step_def pinned.holds_def)
qed

lemma hushed_turns:
  assumes "\<forall>cmd. S_Command cmd \<in> set evs \<longrightarrow> cmd = CmdConnectedEventDeadlineElapsed"
  shows "hushed.holds fp c (sdk_turns env evs c)"
proof (intro hushed.holds_turns hushed.holds_turn hushed_packet)
  show "hushed_step fp c [] (c\<lparr>cn_reader := r\<rparr>)" for c r
    by (auto simp: hushed_step_def in_clear_def linked_step_def same_link_def intro!: pinned_linked)
next
  fix ev cmd c
  assume "ev \<in> set evs" and "ev = S_Command cmd"
  then have "cmd = CmdConnectedEventDeadlineElapsed" using assms by blast
  moreover have "\<forall>e \<in> set (in_clear (fst (handle_command env CmdConnectedEventDeadlineElapsed c))). unprompted e"
    by (auto simp: handle_command_def emit_once_spec in_clear_def unprompted_def)
  ultimately show "hushed.holds fp c (handle_command env cmd c)"
    using pinned_command [of fp c env cmd] by (simp add: hushed.holds_def hushed_step_def pinned.holds_def)
qed

lemma pinned_run:
  assumes "dv_fingerprint d = Some fp" and "inner_work env evs d = (effs, c, out)"
  shows "(c_variant c = Connecting \<longleftrightarrow> Handshake fp \<notin> set effs) \<and>
    (c_variant c \<noteq> Connecting \<longrightarrow> (\<exists>p m g. c_variant c = SdkV4 p m g)) \<and>
    (\<forall>fp'. Handshake fp' \<in> set effs \<longrightarrow> fp' = fp) \<and>
    (\<forall>e \<in> set (in_clear effs). clear_effect e) \<and>
    ((\<forall>cmd. S_Command cmd \<in> set evs \<longrightarrow> cmd = CmdConnectedEventDeadlineElapsed) \<longrightarrow>
       (\<forall>e \<in> set (in_clear effs). e = sdk_hello (env_lib env) \<or> unprompted e))"
proof -
  let ?c = "connection_new d"
  obtain effs' where r: "sdk_turns env evs ?c = (effs', c, out)" "effs = sdk_hello (env_lib env) # effs'"
    using assms(2) by (auto simp: inner_work_def split: prod.splits)
  have new: "pinned fp ?c" "c_variant ?c = Connecting"
    using assms(1) by (simp_all add: pinned_def connection_new_def state_machine_new_def)
  with pinned_turns [of fp ?c env evs] r(1) have p: "pinned fp c" "\<forall>fp'. Handshake fp' \<in> set effs' \<longrightarrow> fp' = fp"
    "(c_variant c = Connecting) = (\<forall>e \<in> set effs'. \<not> is_handshake e)" "\<forall>e \<in> set (in_clear effs'). clear_effect e"
    by (auto simp: pinned.holds_triple pinned_step_def)
  have q: "\<forall>e \<in> set (in_clear effs'). unprompted e"
    if "\<forall>cmd. S_Command cmd \<in> set evs \<longrightarrow> cmd = CmdConnectedEventDeadlineElapsed"
    using hushed_turns [OF that, of fp ?c env] r(1) new by (simp add: hushed.holds_triple hushed_step_def)
  have h: "\<not> is_handshake (sdk_hello lib)" "clear_effect (sdk_hello lib)" for lib
    by (simp_all add: sdk_hello_def sdk_send_def)
  then have c: "in_clear effs = sdk_hello (env_lib env) # in_clear effs'" by (simp add: r(2) in_clear_def)
  have n: "Handshake fp' \<noteq> sdk_hello lib" for fp' lib using h(1) by (metis is_handshake.simps(1))
  have "(\<forall>e \<in> set effs'. \<not> is_handshake e) = (Handshake fp \<notin> set effs')"
    using p(2) by (auto simp: is_handshake_Handshake)
  then have 1: "c_variant c = Connecting \<longleftrightarrow> Handshake fp \<notin> set effs" using p(3) n by (simp add: r(2))
  have 2: "c_variant c \<noteq> Connecting \<longrightarrow> (\<exists>p m g. c_variant c = SdkV4 p m g)" using p(1) by (auto simp: pinned_def)
  have 3: "\<forall>fp'. Handshake fp' \<in> set effs \<longrightarrow> fp' = fp" using p(2) n by (simp add: r(2))
  have 4: "\<forall>e \<in> set (in_clear effs). clear_effect e" using p(4) h(2) by (simp add: c)
  have 5: "(\<forall>cmd. S_Command cmd \<in> set evs \<longrightarrow> cmd = CmdConnectedEventDeadlineElapsed) \<longrightarrow>
      (\<forall>e \<in> set (in_clear effs). e = sdk_hello (env_lib env) \<or> unprompted e)"
    using q by (simp add: c)
  from 1 2 3 4 5 show ?thesis by blast
qed

text \<open>
  C10: a device that knows the receiver's fingerprint never follows a peer to an old version: whatever
  arrives and whatever the application asks for, the connection waits for the version or is one of
  version 4, it is one of version 4 exactly when the handshake with that fingerprint, and no other, has
  been attempted, and before it the application is told nothing that came from the peer. Nor does a peer
  make it write: as long as the application gives no command, only the hello and answers to pings go out
  in the clear. What the application asks for meanwhile may be written in the clear, and a load in the
  format of the session before (\<open>load_before_version_in_clear\<close> in Sdk_Handshake); this says nothing of it.
\<close>

theorem pinned_device_never_downgrades:
  assumes "dv_fingerprint d = Some fp" and "inner_work env evs d = (effs, c, out)"
  shows "(c_variant c = Connecting \<longleftrightarrow> Handshake fp \<notin> set effs) \<and>
    (c_variant c \<noteq> Connecting \<longrightarrow> (\<exists>p m g. c_variant c = SdkV4 p m g)) \<and>
    (\<forall>fp'. Handshake fp' \<in> set effs \<longrightarrow> fp' = fp) \<and>
    (\<forall>e \<in> set (in_clear effs). clear_effect e) \<and>
    ((\<forall>cmd. S_Command cmd \<in> set evs \<longrightarrow> cmd = CmdConnectedEventDeadlineElapsed) \<longrightarrow>
       (\<forall>e \<in> set (in_clear effs). e = sdk_hello (env_lib env) \<or> unprompted e))"
  using assms by (rule pinned_run)

section \<open>How often the connection is reported\<close>

definition reports :: "sdk_effect list \<Rightarrow> nat" where
  "reports effs = length (filter is_connected effs)"

definition unreported :: "connection \<Rightarrow> nat" where
  "unreported c = (if cn_emitted c then 0 else 1)"

definition counted_step :: "connection \<Rightarrow> sdk_effect list \<Rightarrow> connection \<Rightarrow> bool" where
  "counted_step c effs c' \<longleftrightarrow>
     cn_emitted c' = (cn_emitted c \<or> 0 < reports effs) \<and>
     (c_variant c = SdkV2 \<longrightarrow> c_variant c' = SdkV2) \<and>
     (c_variant c \<noteq> Connecting \<longrightarrow> c_variant c' \<noteq> Connecting) \<and>
     (c_variant c' \<noteq> SdkV2 \<or> c_variant c = SdkV2 \<longrightarrow> reports effs + unreported c' = unreported c) \<and>
     reports effs + unreported c' \<le> unreported c + 1"

interpretation counted: step_property counted_step
proof
  fix c
  show "counted_step c [] c" by (simp add: counted_step_def reports_def)
next
  fix c effs c1 effs' c2
  assume "counted_step c effs c1" "counted_step c1 effs' c2"
  then show "counted_step c (effs @ effs') c2"
    unfolding counted_step_def reports_def by auto
qed

lemma counted_quiet:
  assumes "quiet.holds c r"
  shows "counted.holds c r"
proof -
  have "reports (fst r) = 0" using assms by (auto simp: quiet.holds_def quiet_step_def reports_def filter_empty_conv)
  with assms show ?thesis
    by (simp add: quiet.holds_def quiet_step_def same_link_def counted.holds_def counted_step_def unreported_def)
qed

lemma counted_emit_once [simp]: "counted.holds c (emit_connected_once caps c)"
  by (simp add: emit_once_spec counted.holds_triple counted_step_def reports_def unreported_def)

lemma counted_device: "c_variant (dev f c) = c_variant c \<Longrightarrow> counted_step c [] (dev f c)"
  by (simp add: counted_step_def reports_def unreported_def)

lemma counted_loud:
  assumes "\<not> version_action act"
  shows "counted.holds c (sdk_handle_action env act c)"
proof (cases "loud act")
  case True
  then consider msg where "act = DoInitial msg" | w caps where "act = DoIntroduction w caps"
    using assms by (auto simp: loud_def split: sdk_action.splits version_code.splits)
  then show ?thesis
  proof cases
    case 1
    obtain r caps where r: "quiet.holds c r" "on_initial msg c = and_then r (\<lambda>c. emit_connected_once None
        (case caps of Some whep \<Rightarrow> dev (dv_supports_whep_update (\<lambda>_. whep)) c | None \<Rightarrow> c))"
      by (rule on_initial_parts)
    have "counted.holds c (on_initial msg c)" unfolding r(2)
      by (intro counted.holds_then counted_quiet [OF r(1)])
         (auto simp: emit_once_spec counted.holds_triple counted_step_def reports_def unreported_def
            split: option.splits)
    with 1 show ?thesis by (simp add: sdk_handle_action_def)
  next
    case 2
    then show ?thesis
      by (simp add: sdk_handle_action_def Let_def emit_once_spec counted.holds_triple counted_step_def
          reports_def unreported_def)
  qed
qed (intro counted_quiet quiet_action)

lemma counted_packet: "counted.holds c (on_packet env packet c)"
proof (cases rule: on_packet_cases [of env packet c])
  case (1 e)
  then show ?thesis by (simp add: counted.holds_triple counted.no_step)
next
  case (2 opc body act sm)
  let ?c = "dev (dv_machine_update (\<lambda>_. sm)) c"
  show ?thesis
  proof (cases "c_variant c = Connecting")
    case True
    from 2(2) True show ?thesis
      by (cases rule: connecting_packet)
         (auto simp: 2(3) sdk_handle_action_def Let_def on_connected_def emit_connected_def on_upgrade_to_tls_def
            counted.holds_triple counted_step_def reports_def unreported_def sdk_send_def sdk_flat_def True
            split: option.splits)
  next
    case False
    note later = later_packet [OF 2(2) False]
    have "counted_step c [] ?c"
    proof (cases "sm = dv_machine (cn_device c)")
      case True
      then show ?thesis by (simp add: counted.no_step)
    next
      case False
      with later show ?thesis by (auto simp: counted_step_def reports_def unreported_def)
    qed
    moreover have "counted.holds ?c (sdk_handle_action env act ?c)" using later counted_loud by blast
    ultimately show ?thesis
      using counted.chain [of c "[]" ?c] 2(3) by (simp add: counted.holds_def)
  qed
qed

lemma counted_command: "counted.holds c (handle_command env cmd c)"
proof (cases "loud_command cmd")
  case False
  then show ?thesis by (intro counted_quiet quiet_command)
next
  case True
  then consider "cmd = CmdConnectedEventDeadlineElapsed" | sig where "cmd = CmdStartMirroringSession sig"
    by (auto simp: loud_command_def split: command.splits)
  then show ?thesis
  proof cases
    case 1
    then show ?thesis by (simp add: handle_command_def)
  next
    case 2
    obtain act sm where st: "sm_start_mirroring sig (dv_machine (cn_device c)) = (act, sm)" by force
    let ?c = "dev (dv_machine_update (\<lambda>_. sm)) c"
    note m = start_mirroring_machine [OF st]
    have "counted_step c [] ?c" using m by (auto simp: counted_step_def reports_def unreported_def)
    moreover have "counted.holds ?c (sdk_handle_action env act ?c)"
      using m by (auto intro: counted_quiet quiet_action)
    ultimately show ?thesis
      using counted.chain [of c "[]" ?c] 2 st by (simp add: handle_command_def) (simp add: counted.holds_def)
  qed
qed

lemma counted_turns: "counted.holds c (sdk_turns env evs c)"
  by (intro counted.holds_turns counted.holds_turn counted_packet counted_command)
     (simp add: counted_step_def reports_def unreported_def)

text \<open>
  C28: a run on one connection reports it at most once, except when the peer turns out to speak version
  2: then at most twice.
\<close>

theorem connection_reported_at_most:
  assumes "inner_work env evs d = (effs, c, out)"
  shows "reports effs \<le> (if c_variant c = SdkV2 then 2 else 1) \<and> (cn_emitted c \<longleftrightarrow> 0 < reports effs)"
proof -
  let ?c = "connection_new d"
  obtain effs' where r: "sdk_turns env evs ?c = (effs', c, out)" "effs = sdk_hello (env_lib env) # effs'"
    using assms by (auto simp: inner_work_def split: prod.splits)
  have "counted_step ?c effs' c" using counted_turns [of ?c env evs] r(1) by (simp add: counted.holds_triple)
  moreover have "reports effs = reports effs'" by (simp add: r(2) reports_def sdk_hello_def sdk_send_def)
  ultimately show ?thesis
    by (auto simp: counted_step_def unreported_def connection_new_def state_machine_new_def split: if_splits)
qed

end
