(* ===== verification/Sdk_Handshake.thy ===== *)
theory Sdk_Handshake
  imports Sdk_Proofs
begin

text \<open>
  The sender SDK's worker: every read returns, and a turn panics only on a time that is no duration; what
  happens to what the peer sends right behind its version, to commands given before the version is
  known, and to requests that the handle accepts and the worker cannot carry out.
\<close>

section \<open>Panics\<close>

definition no_panic :: "step_result \<Rightarrow> bool" where
  "no_panic r \<longleftrightarrow> snd (snd r) \<noteq> Panic"

lemma no_panic_triple [simp]: "no_panic (effs, c, out) \<longleftrightarrow> out \<noteq> Panic"
  by (simp add: no_panic_def)

lemma no_panic_then [intro]:
  "no_panic r \<Longrightarrow> (\<And>effs c. r = (effs, c, Go) \<Longrightarrow> no_panic (k c)) \<Longrightarrow> no_panic (and_then r k)"
  by (cases r; cases "snd (snd r)") (auto simp: no_panic_def split: prod.splits)

lemma no_panic_changed [simp]: "no_panic (changed same get put cb new c)"
  by (simp add: changed_def)

lemma no_panic_updates [simp]:
  "no_panic (time_changed v c)" "no_panic (duration_changed v c)"
  "no_panic (speed_changed_to v c)" "no_panic (volume_changed_to v c)" "no_panic (playback_changed s c)"
  by (simp_all add: time_changed_def duration_changed_def speed_changed_to_def volume_changed_to_def
      playback_changed_def)

lemma no_panic_if_some [simp]: "(\<And>x c. no_panic (k x c)) \<Longrightarrow> no_panic (if_some v k c)"
  by (cases v) (simp_all add: if_some_def)

lemma no_panic_play_data [simp]: "no_panic (play_data_changed play c)"
  by (auto simp: play_data_changed_def Let_def split: option.splits)

lemma no_panic_resource [simp]: "no_panic (sdk_resource_request i j h c)"
  by (auto simp: sdk_resource_request_def Let_def split: sum.splits work_error.splits prod.splits)

lemma no_panic_initial [simp]: "no_panic (on_initial msg c)"
  unfolding on_initial_def Let_def
  by (intro no_panic_then; cases "ir_play_data msg")
     (simp_all add: emit_once_spec no_panic_then)

lemma action_no_panic [simp]: "no_panic (sdk_handle_action env act c)"
proof (cases act)
  case (DoConnected code)
  then show ?thesis
    by (cases code) (simp_all add: sdk_handle_action_def on_connected_def emit_connected_def Let_def)
next
  case (DoCompanion request)
  then show ?thesis
    by (cases request)
       (auto simp: sdk_handle_action_def Let_def on_companion_def split: option.splits sum.splits)
next
  case (DoLoadedV4 load)
  then show ?thesis
    by (cases load)
       (auto simp: sdk_handle_action_def Let_def on_loaded_def source_changed_to_def split: device_queue_item.splits)
next
  case (DoPlaybackUpdateV2 u)
  show ?thesis unfolding DoPlaybackUpdateV2 sdk_handle_action_def Let_def sdk_action.case
    by (intro no_panic_then) simp_all
next
  case (DoPlaybackUpdateV3 u)
  show ?thesis unfolding DoPlaybackUpdateV3 sdk_handle_action_def Let_def sdk_action.case
    by (intro no_panic_then) simp_all
qed (auto simp: sdk_handle_action_def Let_def on_upgrade_to_tls_def on_start_mirroring_def emit_once_spec
      split: option.splits event_object.splits event_type.splits)

lemma packet_no_panic: "no_panic (on_packet env packet c)"
  by (cases rule: on_packet_cases [of env packet c]) simp_all

text \<open>Only building a message with a start time may panic.\<close>

lemma plain_item_built [simp]: "construct_media_item (plain_item content_type url) \<noteq> None"
  by (simp add: construct_media_item_def plain_item_def construct_start_time_def)

lemma wrapped_plain:
  "wrap_items env items d = (Some wrapped, d') \<Longrightarrow> \<forall>w \<in> set wrapped. \<exists>t u. w = plain_item t u"
proof (induction items arbitrary: d wrapped d')
  case (Cons item items)
  then show ?case by (fastforce split: option.splits prod.splits)
qed simp

lemma load_queue_built:
  assumes "\<forall>w \<in> set wrapped. \<exists>t u. w = plain_item t u"
  shows "load_queue wrapped i \<noteq> None"
proof -
  have "\<exists>its. collect_option (map construct_media_item wrapped) = Some its"
    using assms
  proof (induction wrapped)
    case (Cons w ws)
    then obtain t u its where "w = plain_item t u"
      "collect_option (map construct_media_item ws) = Some its" by auto
    obtain y where "construct_media_item (plain_item t u) = Some y"
      using plain_item_built [of t u] by (cases "construct_media_item (plain_item t u)") simp_all
    with \<open>w = plain_item t u\<close> \<open>collect_option (map construct_media_item ws) = Some its\<close> show ?case by simp
  qed simp
  then show ?thesis by (auto simp: load_queue_def)
qed

definition bad_time :: "f64 \<Rightarrow> bool" where
  "bad_time x \<longleftrightarrow> duration_from_secs_f64 x = None"

definition asks_bad_time :: "sdk_event \<Rightarrow> bool" where
  "asks_bad_time ev \<longleftrightarrow>
     (\<exists>x. bad_time x \<and>
        (ev = S_Command (CmdSeekVideo x) \<or> (\<exists>ld. ev = S_Command (CmdLoad ld) \<and> ld_resume_position ld = x)))"

lemma load_v4_no_panic: "\<not> bad_time (ld_resume_position ld) \<Longrightarrow> no_panic (load_v4 lib ld url c)"
  by (auto simp: load_v4_def sdk_built_def load_single_def construct_media_item_def construct_start_time_def
      bad_time_def split: option.splits)

lemma load_no_panic: "\<not> bad_time (ld_resume_position ld) \<Longrightarrow> no_panic (sdk_load env ld c)"
  using load_v4_no_panic
  by (auto simp: sdk_load_def Let_def load_v2_def load_v3_def split: load_type.splits option.splits)

lemma zero_is_a_time: "\<not> bad_time 0"
  by (simp add: bad_time_def duration_from_secs_f64_def div_half_even_def Let_def)

lemma command_no_panic:
  assumes "\<not> asks_bad_time (S_Command cmd)"
  shows "no_panic (handle_command env cmd c)"
proof (cases cmd)
  case (CmdLoad ld)
  with assms show ?thesis
    by (auto simp: handle_command_def Let_def asks_bad_time_def intro!: no_panic_then load_no_panic)
next
  case (CmdLoadPlaylist items)
  then show ?thesis
    by (simp add: handle_command_def Let_def load_playlist_def load_no_panic zero_is_a_time)
next
  case CmdStopVideo
  then show ?thesis
    by (auto simp: handle_command_def Let_def sdk_stop_playback_def by_version_def intro!: no_panic_then)
next
  case (CmdSeekVideo x)
  with assms show ?thesis
    by (auto simp: handle_command_def Let_def sdk_seek_def asks_bad_time_def bad_time_def by_version_def
        split: option.splits)
next
  case (CmdLoadQueue items i)
  obtain res d where w: "wrap_items env items (cn_device c) = (res, d)" by force
  show ?thesis
  proof (cases res)
    case (Some wrapped)
    with w have "load_queue wrapped i \<noteq> None" using wrapped_plain load_queue_built by blast
    with w Some CmdLoadQueue show ?thesis
      by (auto simp: handle_command_def Let_def sdk_load_queue_def sdk_built_def)
  qed (use w CmdLoadQueue in \<open>simp add: handle_command_def Let_def sdk_load_queue_def\<close>)
next
  case (CmdQueueAdd item position)
  then show ?thesis
    by (auto simp: handle_command_def Let_def sdk_queue_add_def sdk_built_def queue_insert_def split: option.splits)
next
  case (CmdStartMirroringSession sig)
  obtain act sm where st: "sm_start_mirroring sig (dv_machine (cn_device c)) = (act, sm)" by force
  have "no_panic (anyhow r)" if "no_panic r" for r
    using that by (auto simp: anyhow_def no_panic_def split: prod.splits sdk_outcome.splits)
  with CmdStartMirroringSession st show ?thesis by (simp add: handle_command_def)
qed (auto simp: handle_command_def Let_def change_volume_def change_speed_def pause_video_def resume_video_def
      by_version_def jump_playlist_def emit_once_spec split: option.splits)

section \<open>Reads\<close>

text \<open>The reader is moved by the loop alone.\<close>

interpretation rd: step_property "\<lambda>c effs c'. cn_reader c' = cn_reader c"
  by unfold_locales auto

lemma reader_quiet: "quiet.holds c r \<Longrightarrow> rd.holds c r"
  by (simp add: quiet.holds_def rd.holds_def quiet_step_def)

lemma reader_action: "rd.holds c (sdk_handle_action env act c)"
proof (cases "loud act")
  case True
  then consider "act = DoConnected CodeV2" | msg where "act = DoInitial msg" | w caps where "act = DoIntroduction w caps"
    | "act = DoUpgradeToTls"
    by (auto simp: loud_def split: sdk_action.splits version_code.splits)
  then show ?thesis
  proof cases
    case 2
    obtain r caps where r: "quiet.holds c r" "on_initial msg c = and_then r (\<lambda>c. emit_connected_once None
        (case caps of Some whep \<Rightarrow> dev (dv_supports_whep_update (\<lambda>_. whep)) c | None \<Rightarrow> c))"
      by (rule on_initial_parts)
    have "rd.holds c (on_initial msg c)" unfolding r(2)
      by (intro rd.holds_then reader_quiet [OF r(1)]) (auto simp: emit_once_spec rd.holds_triple split: option.splits)
    with 2 show ?thesis by (simp add: sdk_handle_action_def)
  qed (auto simp: sdk_handle_action_def Let_def on_connected_def emit_connected_def emit_once_spec
      on_upgrade_to_tls_def rd.holds_triple split: option.splits)
qed (intro reader_quiet quiet_action)

lemma reader_packet: "on_packet env packet c = (effs, c', out) \<Longrightarrow> cn_reader c' = cn_reader c"
proof (cases rule: on_packet_cases [of env packet c])
  case (2 opc body act sm)
  then show "on_packet env packet c = (effs, c', out) \<Longrightarrow> cn_reader c' = cn_reader c"
    using reader_action [of "dev (dv_machine_update (\<lambda>_. sm)) c" env act] by (simp add: rd.holds_triple)
qed simp

lemma reader_command: "rd.holds c (handle_command env cmd c)"
proof (cases "loud_command cmd")
  case True
  then consider "cmd = CmdConnectedEventDeadlineElapsed" | sig where "cmd = CmdStartMirroringSession sig"
    by (auto simp: loud_command_def split: command.splits)
  then show ?thesis
  proof cases
    case 2
    obtain act sm where st: "sm_start_mirroring sig (dv_machine (cn_device c)) = (act, sm)" by force
    with 2 show ?thesis using reader_action [of "dev (dv_machine_update (\<lambda>_. sm)) c" env act]
      by (simp add: handle_command_def) (simp add: rd.holds_def)
  qed (simp add: handle_command_def emit_once_spec rd.holds_triple)
qed (intro reader_quiet quiet_command)

text \<open>Between two turns the reader is well-formed and holds no whole packet.\<close>

definition connection_ready :: "connection \<Rightarrow> bool" where
  "connection_ready c \<longleftrightarrow> reader_sized (cn_reader c) \<and>
     fst (parse_frame MAX_PACKET_SIZE (pending (cn_reader c))) = NeedData"

lemma connection_new_ready: "connection_ready (connection_new d)"
proof -
  have h: "SDK_READ_HEADROOM = READ_HEADROOM" by (simp add: SDK_READ_HEADROOM_def READ_HEADROOM_def)
  show ?thesis
    using reader_new_sized pending_reader_new [of MAX_PACKET_SIZE READ_HEADROOM]
    by (simp add: connection_ready_def connection_new_def h parse_frame_def)
qed

definition returns_ready :: "step_result \<Rightarrow> bool" where
  "returns_ready r \<longleftrightarrow> no_panic r \<and> (snd (snd r) = Go \<longrightarrow> connection_ready (fst (snd r)))"

lemma returns_ready_then:
  assumes "no_panic r" and "\<And>effs c. r = (effs, c, Go) \<Longrightarrow> returns_ready (k c)"
  shows "returns_ready (and_then r k)"
proof -
  obtain effs c out where r: "r = (effs, c, out)" by (cases r)
  with assms show ?thesis
    by (cases out) (auto simp: returns_ready_def no_panic_def split: prod.splits)
qed

lemma packet_loop_returns:
  assumes "reader_sized (cn_reader c)" and "length (pending (cn_reader c)) < fuel"
  shows "returns_ready (sdk_packet_loop env fuel c)"
  using assms
proof (induction fuel arbitrary: c)
  case (Suc fuel)
  obtain res r where g: "get_packet (cn_reader c) = Some (res, r)" "reader_sized r"
    "parse_frame MAX_PACKET_SIZE (pending (cn_reader c)) = (res, pending r)"
    using get_packet_sized [OF Suc.prems(1)] .
  show ?case
  proof (cases res)
    case (Read packet)
    let ?c = "c\<lparr>cn_reader := r\<rparr>"
    have short: "length (pending r) < fuel"
      using parse_frame_Read_shorter [of MAX_PACKET_SIZE "pending (cn_reader c)" packet "pending r"] g(3) Read
        Suc.prems(2) by simp
    have "returns_ready (and_then (on_packet env packet ?c) (sdk_packet_loop env fuel))"
    proof (rule returns_ready_then [OF packet_no_panic])
      fix effs c'
      assume "on_packet env packet ?c = (effs, c', Go)"
      then have "cn_reader c' = r" using reader_packet by fastforce
      with short g(2) show "returns_ready (sdk_packet_loop env fuel c')" by (intro Suc.IH) simp_all
    qed
    with g(1) Read show ?thesis by simp
  next
    case NeedData
    then have "parse_frame MAX_PACKET_SIZE (pending r) = (NeedData, pending r)"
      using parse_frame_NeedData [of MAX_PACKET_SIZE "pending (cn_reader c)" "pending r"] g(3) by simp
    with g NeedData show ?thesis by (simp add: returns_ready_def connection_ready_def)
  next
    case (PacketTooLarge n)
    with g(1) show ?thesis by (simp add: returns_ready_def)
  qed
qed simp

text \<open>The reader after a chunk.\<close>

lemma refill_ready:
  assumes "connection_ready c" and "read_fits (cn_reader c) chunk"
  obtains r where "refill (cn_reader c) chunk = Some r" "reader_sized r" "pending r = pending (cn_reader c) @ chunk"
    "length (pending r) < Suc (length (buffer r))"
  using refill_fits [OF _ assms(2)] assms(1) that by (auto simp: connection_ready_def FUEL_def)

lemma new_connection_fits: "read_fits (cn_reader (connection_new d)) chunk \<longleftrightarrow>
    length chunk \<le> 4 + MAX_PACKET_SIZE + SDK_READ_HEADROOM"
  using sized_fits [of "cn_reader (connection_new d)"] connection_new_ready [of d]
  by (simp add: connection_ready_def connection_new_def SDK_READ_HEADROOM_def READ_HEADROOM_def)

text \<open>
  C17: a turn of the worker returns whatever the receiver sends, and leaves the connection ready for the
  next read, which may fill the whole spare tail of the buffer; only a start or seek time of the
  application that is no duration makes it panic.
\<close>

theorem sdk_turn_returns:
  assumes "connection_ready c" and "\<not> asks_bad_time ev"
    and "\<forall>chunk. ev = S_Read (Some chunk) \<longrightarrow> read_fits (cn_reader c) chunk"
  shows "\<exists>effs c' out. sdk_turn env ev c = (effs, c', out) \<and> out \<noteq> Panic \<and> (out = Go \<longrightarrow> connection_ready c')"
proof -
  have "returns_ready (sdk_turn env ev c)"
  proof (cases ev)
    case (S_Read x)
    show ?thesis
    proof (cases "x = None \<or> x = Some []")
      case True
      with S_Read show ?thesis by (auto simp: sdk_turn_def returns_ready_def)
    next
      case False
      then obtain chunk where x: "x = Some chunk" "chunk \<noteq> []" by auto
      then have "read_fits (cn_reader c) chunk" using assms(3) S_Read by simp
      then obtain r where "refill (cn_reader c) chunk = Some r" "reader_sized r" "length (pending r) < Suc (length (buffer r))"
        using refill_ready [OF assms(1)] by metis
      with S_Read x packet_loop_returns [of "c\<lparr>cn_reader := r\<rparr>"] show ?thesis
        by (simp add: sdk_turn_def del: sdk_packet_loop.simps)
    qed
  next
    case (S_Command cmd)
    with assms(1,2) command_no_panic [of cmd env c] reader_command [of c env cmd] show ?thesis
      by (simp add: sdk_turn_def returns_ready_def rd.holds_def connection_ready_def)
  qed (simp add: sdk_turn_def returns_ready_def)
  then show ?thesis by (cases "sdk_turn env ev c") (auto simp: returns_ready_def no_panic_def)
qed

section \<open>Behind the version\<close>

lemma version_packet:
  assumes "str_from_utf8 body = Some text" and "lib_json lib text = Some (version_message_ser \<lparr>vm_version = v\<rparr>)"
  shows "json_from_body lib version_message_de (Some body) = Inr \<lparr>vm_version = v\<rparr>"
  using assms by (simp add: json_from_body_def version_msg.roundtrip)

lemma split_version: "body \<noteq> [] \<Longrightarrow> split_packet (op # body) = Some (op, Some body)"
  by (cases body) (simp_all add: split_packet_def)

lemma on_version_4:
  assumes "c_variant c = Connecting" and "dv_stream (cn_device c) = NsTcp"
    and "dv_fingerprint (cn_device c) = Some fp" and "env_tls env fp" and "body \<noteq> []"
    and "str_from_utf8 body = Some text"
    and "lib_json (env_lib env) text = Some (version_message_ser \<lparr>vm_version = 4\<rparr>)"
  shows "on_packet env (opcode_as_u8 Op_Version # body) c =
    ([Handshake fp,
      sdk_flat (env_lib env) (sender_introduction (sender_info (dv_app_info (cn_device c)))),
      sdk_flat (env_lib env) companion_hello_request],
     dev (\<lambda>d. d\<lparr>dv_machine := (dv_machine d)\<lparr>sm_variant := SdkV4 None None 0\<rparr>,
               dv_stream := NsTls, dv_session_version := 4\<rparr>) c, Go)"
  using assms(1-5) version_packet [OF assms(6,7)] split_version [OF assms(5)]
  by (simp add: on_packet_def sdk_handle_packet_def sdk_handle_connecting_def sdk_handle_action_def
      on_upgrade_to_tls_def Let_def del: opcode_as_u8.simps)

text \<open>One packet in the reader, and the next.\<close>

lemma packet_loop_frame:
  assumes "reader_sized (cn_reader c)" and "pending (cn_reader c) = frame p @ rest"
    and "packet_ok MAX_PACKET_SIZE p"
  obtains r where "sdk_packet_loop env (Suc fuel) c =
      and_then (on_packet env p (c\<lparr>cn_reader := r\<rparr>)) (sdk_packet_loop env fuel)"
    "reader_sized r" "pending r = rest"
proof -
  obtain r where "get_packet (cn_reader c) = Some (Read p, r)" "reader_sized r" "pending r = rest"
    using get_packet_frame [OF assms] .
  then show thesis by (intro that [of r]) simp_all
qed

lemma packet_loop_empty:
  assumes "reader_sized (cn_reader c)" and "pending (cn_reader c) = []"
  obtains r where "sdk_packet_loop env (Suc fuel) c = ([], c\<lparr>cn_reader := r\<rparr>, Go)"
proof -
  obtain res r where g: "get_packet (cn_reader c) = Some (res, r)"
      "parse_frame MAX_PACKET_SIZE (pending (cn_reader c)) = (res, pending r)"
    using get_packet_sized [OF assms(1)] .
  have "parse_frame MAX_PACKET_SIZE [] = (NeedData, [])" by (simp add: parse_frame_def)
  with g assms(2) show thesis by (intro that [of r]) auto
qed

text \<open>
  C16: what arrives in the clear behind the version packet, in the same read, stays in the reader across
  the switch to TLS and is then handled as a packet of the authenticated peer: its effects follow those
  of the handshake. The receiver drains its reader at that point; the sender does not, so whoever can
  write into the plaintext connection can put words in the receiver's mouth. Here a \<open>Load\<close> makes the
  application show a source of the attacker's.
\<close>

theorem plaintext_behind_version_is_trusted:
  assumes "connection_ready c" and "pending (cn_reader c) = []" and "c_variant c = Connecting"
    and "dv_stream (cn_device c) = NsTcp" and "dv_fingerprint (cn_device c) = Some fp" and "env_tls env fp"
    and "body \<noteq> []" and "str_from_utf8 body = Some text"
    and "lib_json (env_lib env) text = Some (version_message_ser \<lparr>vm_version = 4\<rparr>)"
    and "injected \<noteq> []"
    and "lib_root_as_packet (env_lib env) injected = Some (Packet (MLoad (FSingle item)))"
    and "packet_ok MAX_PACKET_SIZE (opcode_as_u8 Op_Version # body)"
    and "packet_ok MAX_PACKET_SIZE (opcode_as_u8 Op_Flatbuf # injected)"
    and "read_fits (cn_reader c)
           (frame (opcode_as_u8 Op_Version # body) @ frame (opcode_as_u8 Op_Flatbuf # injected))"
  shows "\<exists>intro hello c'. sdk_turn env
      (S_Read (Some (frame (opcode_as_u8 Op_Version # body) @ frame (opcode_as_u8 Op_Flatbuf # injected)))) c =
    ([Handshake fp, Out intro, Out hello, Notify (SourceEv (SrcUrl (fmi_source_url item) (fmi_container item)))],
     c', Go) \<and> dv_stream (cn_device c') = NsTls"
proof -
  let ?v = "opcode_as_u8 Op_Version # body" and ?q = "opcode_as_u8 Op_Flatbuf # injected"
  let ?chunk = "frame ?v @ frame ?q"
  obtain r where r: "refill (cn_reader c) ?chunk = Some r" "reader_sized r" "pending r = ?chunk"
    "length ?chunk < Suc (length (buffer r))"
    using refill_ready [OF assms(1,14)] assms(2) by (metis append_Nil)
  have "8 \<le> length ?chunk" by simp
  with r(4) obtain fuel where fuel: "Suc (length (buffer r)) = Suc (Suc (Suc fuel))"
    by (cases "length (buffer r)"; cases "length (buffer r) - 1") auto
  obtain r1 where l1: "sdk_packet_loop env (Suc (Suc (Suc fuel))) (c\<lparr>cn_reader := r\<rparr>) =
      and_then (on_packet env ?v (c\<lparr>cn_reader := r, cn_reader := r1\<rparr>)) (sdk_packet_loop env (Suc (Suc fuel)))"
    and r1: "reader_sized r1" "pending r1 = frame ?q"
    using packet_loop_frame [of "c\<lparr>cn_reader := r\<rparr>" ?v "frame ?q" env "Suc (Suc fuel)"] r(2,3) assms(12) by auto
  define c1 where "c1 = dev (\<lambda>d. d\<lparr>dv_machine := (dv_machine d)\<lparr>sm_variant := SdkV4 None None 0\<rparr>,
      dv_stream := NsTls, dv_session_version := 4\<rparr>) (c\<lparr>cn_reader := r1\<rparr>)"
  have p1: "on_packet env ?v (c\<lparr>cn_reader := r, cn_reader := r1\<rparr>) =
    ([Handshake fp, sdk_flat (env_lib env) (sender_introduction (sender_info (dv_app_info (cn_device c)))),
      sdk_flat (env_lib env) companion_hello_request], c1, Go)"
    using on_version_4 [of "c\<lparr>cn_reader := r1\<rparr>" fp env body "text"] assms(3-9) by (simp add: c1_def)
  obtain r2 where l2: "sdk_packet_loop env (Suc (Suc fuel)) c1 =
      and_then (on_packet env ?q (c1\<lparr>cn_reader := r2\<rparr>)) (sdk_packet_loop env (Suc fuel))"
    and r2: "reader_sized r2" "pending r2 = []"
    using packet_loop_frame [of c1 ?q "[]" env "Suc fuel"] r1 assms(13) by (auto simp: c1_def)
  let ?s = "SrcUrl (fmi_source_url item) (fmi_container item)"
  define c2 where "c2 = c1\<lparr>cn_reader := r2, cn_shared := (cn_shared c1)\<lparr>sh_source := Some ?s\<rparr>\<rparr>"
  have p2: "on_packet env ?q (c1\<lparr>cn_reader := r2\<rparr>) = ([Notify (SourceEv ?s)], c2, Go)"
    using split_version [OF assms(10)] assms(11)
    by (simp add: on_packet_def sdk_handle_packet_def sdk_handle_v4_def sdk_handle_flat_v4_def loaded_of_def
        sdk_handle_action_def on_loaded_def source_changed_to_def Let_def c1_def c2_def del: opcode_as_u8.simps)
  obtain r3 where l3: "sdk_packet_loop env (Suc fuel) c2 = ([], c2\<lparr>cn_reader := r3\<rparr>, Go)"
    using packet_loop_empty [of c2 env fuel] r2 by (auto simp: c2_def)
  have "sdk_turn env (S_Read (Some ?chunk)) c = sdk_packet_loop env (Suc (Suc (Suc fuel))) (c\<lparr>cn_reader := r\<rparr>)"
    using r(1) fuel by (simp add: sdk_turn_def frame_def u32_to_le_bytes_def del: sdk_packet_loop.simps)
  also have "\<dots> = ([Handshake fp, sdk_flat (env_lib env) (sender_introduction (sender_info (dv_app_info (cn_device c)))),
      sdk_flat (env_lib env) companion_hello_request, Notify (SourceEv ?s)], c2\<lparr>cn_reader := r3\<rparr>, Go)"
    unfolding l1 p1 and_then_simps l2 p2 prod.case l3 by simp
  finally show ?thesis by (auto simp: sdk_flat_def c2_def c1_def)
qed

section \<open>Before the version\<close>

lemma sdk_turns_append: "sdk_turns env (evs @ evs') c = and_then (sdk_turns env evs c) (sdk_turns env evs')"
proof (induction evs arbitrary: c)
  case Nil
  then show ?case by (simp split: prod.splits)
next
  case (Cons ev evs)
  obtain effs c1 out where t: "sdk_turn env ev c = (effs, c1, out)" by (metis prod_cases3)
  obtain effs' c2 out' where ts: "sdk_turns env evs c1 = (effs', c2, out')" by (metis prod_cases3)
  show ?case
  proof (cases out)
    case Go
    then show ?thesis using Cons.IH [of c1] t ts by (cases out') (auto split: prod.splits)
  qed (simp_all add: t)
qed

lemma inner_work_Cons:
  "inner_work env (ev # evs) d =
     and_then (and_then ([sdk_hello (env_lib env)], connection_new d, Go) (sdk_turn env ev)) (sdk_turns env evs)"
  by (cases "sdk_turn env ev (connection_new d)"; cases "snd (snd (sdk_turn env ev (connection_new d)))")
     (auto simp: inner_work_def split: prod.splits)

definition start_item :: "library \<Rightarrow> load_command \<Rightarrow> string \<Rightarrow> media_item4" where
  "start_item lib ld url =
     (plain_item (ld_content_type ld) url)
       \<lparr>m4_start_time := Some (ld_resume_position ld),
        m4_volume := map_option (lib_f32 lib) (ld_volume ld),
        m4_speed := map_option (lib_f32 lib) (ld_speed ld)\<rparr>"

lemma load_v4_sends:
  assumes "\<not> bad_time (ld_resume_position ld)"
  obtains msg where "load_single (start_item lib ld url) = Some msg" "load_v4 lib ld url c = ([sdk_flat lib msg], c, Go)"
proof -
  obtain msg where "load_single (start_item lib ld url) = Some msg"
    using assms
    by (auto simp: load_single_def start_item_def construct_media_item_def construct_start_time_def bad_time_def)
  then show thesis by (intro that) (simp_all add: load_v4_def start_item_def sdk_built_def)
qed

text \<open>
  C21: after a version 4 connection broke, a load that is asked for on the next one before its version
  packet has come goes out in the clear, with the address of the media, whether or not the receiver's
  fingerprint is known: \<open>load\<close> looks at the version of the last session and not at the state of this one.
\<close>

theorem load_before_version_in_clear:
  assumes "inner_work env evs d = (effs, c, Fail e)" and "dv_session_version (cn_device c) = 4"
    and "ld_type ld = LoadUrl url" and "\<not> bad_time (ld_resume_position ld)" and "interval \<noteq> 0"
  shows "\<exists>msg rest d' fate. load_single (start_item (env_lib env) ld url) = Some msg \<and>
    sdk_work env interval
      [([ConnectionReady], evs), ([ConnectionReady], S_Command (CmdLoad ld) # evs')] d =
    (Notify (ConnectionStateEv IsConnecting) # effs @
       (if e = DidNotConnect then [] else [Notify (ConnectionStateEv IsReconnecting)]) @
       [sdk_hello (env_lib env), sdk_flat (env_lib env) msg] @ rest, d', fate)"
proof -
  let ?lib = "env_lib env" and ?c = "connection_new (cn_device c)"
  obtain msg where msg: "load_single (start_item ?lib ld url) = Some msg"
      "load_v4 ?lib ld url ?c = ([sdk_flat ?lib msg], ?c, Go)"
    using load_v4_sends [OF assms(4)] .
  have "dv_session_version (cn_device ?c) = 4" using assms(2) by (simp add: connection_new_def)
  then have "sdk_turn env (S_Command (CmdLoad ld)) ?c =
      ([sdk_flat ?lib msg], ?c\<lparr>cn_length := None, cn_index := None\<rparr>, Go)"
    using msg(2) assms(3) by (simp add: sdk_turn_def handle_command_def Let_def sdk_load_def)
  moreover obtain rest c2 out where "sdk_turns env evs' (?c\<lparr>cn_length := None, cn_index := None\<rparr>) = (rest, c2, out)"
    by (metis prod_cases3)
  ultimately have w: "inner_work env (S_Command (CmdLoad ld) # evs') (cn_device c) =
      ([sdk_hello ?lib, sdk_flat ?lib msg] @ rest, c2, out)"
    by (simp add: inner_work_Cons)
  define loop2 where "loop2 = connection_loop env interval
      [([ConnectionReady], S_Command (CmdLoad ld) # evs')] (cn_device c)"
  have "\<exists>rest d' fate. loop2 = ([sdk_hello ?lib, sdk_flat ?lib msg] @ rest, d', fate)"
    unfolding loop2_def using w by (cases out) (simp_all add: sdk_attempt_def)
  then obtain rest d' fate where l2: "loop2 = ([sdk_hello ?lib, sdk_flat ?lib msg] @ rest, d', fate)" by blast
  have "connection_loop env interval
      [([ConnectionReady], evs), ([ConnectionReady], S_Command (CmdLoad ld) # evs')] d =
      (case loop2 of (effs', remaining) \<Rightarrow>
        (effs @ (if e = DidNotConnect then [] else [Notify (ConnectionStateEv IsReconnecting)]) @ effs', remaining))"
    using assms(1,5) by (simp add: sdk_attempt_def loop2_def del: connection_loop.simps(1))
  then show ?thesis using msg(1) l2 by (auto simp: sdk_work_def)
qed

text \<open>
  A receiver of version 2 that answers after the deadline of two seconds is reported as connected a
  second time; the two other versions look at the flag.
\<close>

theorem late_version_2_reported_twice:
  assumes "dv_fingerprint d = None" and "body \<noteq> []" and "str_from_utf8 body = Some text"
    and "lib_json (env_lib env) text = Some (version_message_ser \<lparr>vm_version = 2\<rparr>)"
    and "packet_ok MAX_PACKET_SIZE (opcode_as_u8 Op_Version # body)"
    and "read_fits (cn_reader (connection_new d)) (frame (opcode_as_u8 Op_Version # body))"
  shows "\<exists>c. inner_work env
      [S_Command CmdConnectedEventDeadlineElapsed, S_Read (Some (frame (opcode_as_u8 Op_Version # body)))] d =
    ([sdk_hello (env_lib env), Notify (ConnectionStateEv (IsConnected None)),
      Notify (ConnectionStateEv (IsConnected None))], c, Go)"
proof -
  let ?p = "opcode_as_u8 Op_Version # body" and ?n = "connection_new d"
  define c where "c = ?n\<lparr>cn_emitted := True\<rparr>"
  have t1: "sdk_turn env (S_Command CmdConnectedEventDeadlineElapsed) ?n =
      ([Notify (ConnectionStateEv (IsConnected None))], c, Go)"
    by (simp add: sdk_turn_def handle_command_def emit_once_spec c_def connection_new_def)
  have rdy: "connection_ready c" "pending (cn_reader c) = []"
    using connection_new_ready [of d] pending_reader_new
    by (simp_all add: c_def connection_ready_def connection_new_def)
  obtain r where r: "refill (cn_reader c) (frame ?p) = Some r" "reader_sized r" "pending r = frame ?p @ []"
      "length (frame ?p) < Suc (length (buffer r))"
    using refill_ready [OF rdy(1), of "frame ?p"] rdy(2) assms(6) by (auto simp: c_def)
  have "4 \<le> length (frame ?p)" by simp
  with r(4) obtain fuel where fuel: "length (buffer r) = Suc fuel" by (cases "length (buffer r)") auto
  obtain r1 where l1: "sdk_packet_loop env (Suc (Suc fuel)) (c\<lparr>cn_reader := r\<rparr>) =
      and_then (on_packet env ?p (c\<lparr>cn_reader := r, cn_reader := r1\<rparr>)) (sdk_packet_loop env (Suc fuel))"
    and r1: "reader_sized r1" "pending r1 = []"
    using packet_loop_frame [of "c\<lparr>cn_reader := r\<rparr>" ?p "[]" env "Suc fuel"] r(2,3) assms(5) by auto
  define c1 where "c1 = dev (\<lambda>d. d\<lparr>dv_machine := (dv_machine d)\<lparr>sm_variant := SdkV2\<rparr>, dv_session_version := 2\<rparr>)
      (c\<lparr>cn_reader := r1\<rparr>)"
  have p1: "on_packet env ?p (c\<lparr>cn_reader := r, cn_reader := r1\<rparr>) =
      ([Notify (ConnectionStateEv (IsConnected None))], c1, Go)"
    using version_packet [OF assms(3,4)] split_version [OF assms(2)] assms(1)
    by (simp add: on_packet_def sdk_handle_packet_def sdk_handle_connecting_def sdk_handle_action_def
        on_connected_def emit_connected_def Let_def c_def c1_def connection_new_def state_machine_new_def
        del: opcode_as_u8.simps)
  obtain r2 where l2: "sdk_packet_loop env (Suc fuel) c1 = ([], c1\<lparr>cn_reader := r2\<rparr>, Go)"
    using packet_loop_empty [of c1 env fuel] r1 by (auto simp: c1_def)
  have "sdk_turn env (S_Read (Some (frame ?p))) c = sdk_packet_loop env (Suc (Suc fuel)) (c\<lparr>cn_reader := r\<rparr>)"
    using r(1) fuel by (simp add: sdk_turn_def frame_def u32_to_le_bytes_def del: sdk_packet_loop.simps)
  also have "\<dots> = ([Notify (ConnectionStateEv (IsConnected None))], c1\<lparr>cn_reader := r2\<rparr>, Go)"
    unfolding l1 p1 and_then_simps l2 prod.case by simp
  finally show ?thesis using t1 by (simp add: inner_work_def)
qed

text \<open>
  A seek to a negative, infinite or too large time panics in the worker's task. The worker is gone,
  the application is not told, and the commands it sends afterwards go nowhere.
\<close>

theorem bad_seek_kills_worker:
  assumes "bad_time x" and "inner_work env evs d = (effs, c, Go)"
  shows "sdk_work env interval [([ConnectionReady], evs @ S_Command (CmdSeekVideo x) # evs')] d =
    (Notify (ConnectionStateEv IsConnecting) # effs, cn_device c, Died)"
proof -
  obtain effs' where e: "sdk_turns env evs (connection_new d) = (effs', c, Go)" "effs = sdk_hello (env_lib env) # effs'"
    using assms(2) by (auto simp: inner_work_def split: prod.splits)
  have "sdk_turn env (S_Command (CmdSeekVideo x)) c = ([], c, Panic)"
    using assms(1) by (simp add: sdk_turn_def handle_command_def Let_def sdk_seek_def bad_time_def)
  then have "inner_work env (evs @ S_Command (CmdSeekVideo x) # evs') d = (effs, c, Panic)"
    by (simp add: inner_work_def sdk_turns_append e)
  then show ?thesis by (simp add: sdk_work_def sdk_attempt_def)
qed

section \<open>Requests that end the connection\<close>

definition opens_files :: "load_request \<Rightarrow> bool" where
  "opens_files request \<longleftrightarrow>
     (case request of
        RequestCompanion _ _ _ \<Rightarrow> True
      | RequestQueue items _ \<Rightarrow> \<exists>t src m. QiFCompanion t src m \<in> set items
      | _ \<Rightarrow> False)"

definition is_content :: "load_request \<Rightarrow> bool" where
  "is_content request \<longleftrightarrow>
     (case request of RequestContent _ _ _ \<Rightarrow> True | RequestPlaylist _ \<Rightarrow> True | _ \<Rightarrow> False)"

lemma wrap_urls:
  "\<nexists>t src m. QiFCompanion t src m \<in> set items \<Longrightarrow> \<exists>wrapped. wrap_items env items d = (Some wrapped, d)"
proof (induction items)
  case (Cons item items)
  then obtain wrapped where "wrap_items env items d = (Some wrapped, d)" by auto
  with Cons.prems show ?case by (cases item) (auto simp: queue_item_url_def)
qed simp

definition outcome_of :: "step_result \<Rightarrow> sdk_outcome" where
  "outcome_of r = snd (snd r)"

lemma outcome_simps [simp]:
  "outcome_of (effs, c, out) = out"
  "outcome_of (and_then (effs, c, Go) k) = outcome_of (k c)"
  by (simp_all add: outcome_of_def split: prod.splits)

lemma load_outcome:
  assumes "dv_session_version (cn_device c) \<in> {2, 3, 4}" and "\<not> bad_time (ld_resume_position ld)"
  shows "outcome_of (handle_command env (CmdLoad ld) c) =
    (case ld_type ld of
       LoadUrl _ \<Rightarrow> Go
     | LoadContent _ \<Rightarrow> if dv_session_version (cn_device c) = 4 then Fail AnyhowError else Go
     | LoadCompanion src \<Rightarrow>
         if dv_session_version (cn_device c) = 4 \<and> companion_url env src (cn_device c) \<noteq> None then Go
         else Fail AnyhowError)"
proof -
  have v4: "load_v4 lib ld url c' = ([sdk_flat lib (the (load_single (start_item lib ld url)))], c', Go)" for lib url c'
  proof -
    obtain msg where "load_single (start_item lib ld url) = Some msg" "load_v4 lib ld url c' = ([sdk_flat lib msg], c', Go)"
      using load_v4_sends [OF assms(2)] .
    then show ?thesis by simp
  qed
  have h: "outcome_of (handle_command env (CmdLoad ld) c) = outcome_of (sdk_load env ld c)"
  proof -
    obtain effs c1 out where "sdk_load env ld c = (effs, c1, out)" by (metis prod_cases3)
    then show ?thesis by (cases out) (simp_all add: handle_command_def Let_def)
  qed
  show ?thesis
  proof (cases "ld_type ld")
    case (LoadUrl url)
    with assms(1) show ?thesis by (auto simp: h sdk_load_def Let_def load_v2_def load_v3_def v4)
  next
    case (LoadContent content)
    with assms(1) show ?thesis by (auto simp: h sdk_load_def Let_def load_v2_def load_v3_def)
  next
    case (LoadCompanion src)
    with assms(1) show ?thesis by (auto simp: h sdk_load_def Let_def v4 split: option.splits)
  qed
qed

lemma queue_outcome:
  "outcome_of (handle_command env (CmdLoadQueue items i) c) =
     (case fst (wrap_items env items (cn_device c)) of None \<Rightarrow> Fail AnyhowError | Some _ \<Rightarrow> Go)"
proof -
  obtain res d where w: "wrap_items env items (cn_device c) = (res, d)" by force
  show ?thesis
  proof (cases res)
    case (Some wrapped)
    with w have "load_queue wrapped i \<noteq> None" using wrapped_plain load_queue_built by blast
    with w Some show ?thesis by (auto simp: handle_command_def Let_def sdk_load_queue_def sdk_built_def)
  qed (use w in \<open>simp add: handle_command_def Let_def sdk_load_queue_def\<close>)
qed

lemma load_command_outcome:
  assumes "dv_session_version (cn_device c) = v" and "v \<in> {2, 3, 4}" and "\<not> asks_bad_time (S_Command (CmdLoad ld))"
  shows "outcome_of (handle_command env (CmdLoad ld) c) =
    (case ld_type ld of
       LoadUrl _ \<Rightarrow> Go
     | LoadContent _ \<Rightarrow> if v = 4 then Fail AnyhowError else Go
     | LoadCompanion src \<Rightarrow>
         if v = 4 \<and> companion_url env src (cn_device c) \<noteq> None then Go else Fail AnyhowError)"
proof -
  have "dv_session_version (cn_device c) \<in> {2, 3, 4}" "\<not> bad_time (ld_resume_position ld)"
    using assms by (auto simp: asks_bad_time_def)
  from load_outcome [OF this, of env] show ?thesis unfolding assms(1) .
qed

lemma playlist_command_outcome:
  assumes "dv_session_version (cn_device c) = v" and "v \<in> {2, 3, 4}"
  shows "outcome_of (handle_command env (CmdLoadPlaylist items) c) = (if v = 4 then Fail AnyhowError else Go)"
  using assms by (auto simp: handle_command_def Let_def load_playlist_def sdk_load_def load_v2_def load_v3_def)

lemma accepted_command:
  assumes "api_load request fd = (Inr (), fd')" and "fd_commands fd = Some sent"
    and "fd_commands fd' = Some (sent @ [cmd])"
  shows "(\<exists>ld. cmd = CmdLoad ld \<and>
      (case request of
         RequestContent _ content _ \<Rightarrow> ld_type ld = LoadContent content
       | RequestCompanion _ src _ \<Rightarrow> ld_type ld = LoadCompanion src
       | RequestPlaylist _ \<Rightarrow> False
       | RequestQueue _ _ \<Rightarrow> False
       | _ \<Rightarrow> \<exists>url. ld_type ld = LoadUrl url)) \<or>
    (\<exists>items. request = RequestPlaylist items \<and> cmd = CmdLoadPlaylist items) \<or>
    (\<exists>items i. request = RequestQueue items i \<and> cmd = CmdLoadQueue items i)"
  using assms
  by (cases request) (auto simp: api_load_def send_command_def load_cmd_def load_url_def unsupported_def split: if_splits)

text \<open>
  A load request that the handle accepts and the worker meets in the same version ends the
  connection only when a file cannot be offered, or when it is content or a playlist on a version 4
  connection, and those always do: the handle asks \<open>>= 3\<close> where \<open>supports_feature\<close> says \<open>= 3\<close>, and does
  not ask at all for content.
\<close>

theorem accepted_load_ends_connection:
  assumes "api_load request fd = (Inr (), fd')" and "fd_commands fd = Some sent"
    and "fd_commands fd' = Some (sent @ [cmd])"
    and "dv_session_version (cn_device c) = fd_session_version fd"
    and "fd_session_version fd \<in> {2, 3, 4}" and "\<not> asks_bad_time (S_Command cmd)"
  shows "outcome_of (handle_command env cmd c) \<in> {Go, Fail AnyhowError} \<and>
    (is_content request \<and> fd_session_version fd = 4 \<longrightarrow> outcome_of (handle_command env cmd c) = Fail AnyhowError) \<and>
    (\<not> opens_files request \<and> \<not> (is_content request \<and> fd_session_version fd = 4) \<longrightarrow>
       outcome_of (handle_command env cmd c) = Go)"
proof -
  note loads = load_command_outcome [OF assms(4,5), of _ env]
  consider (load) ld where "cmd = CmdLoad ld"
      "case request of
         RequestContent _ content _ \<Rightarrow> ld_type ld = LoadContent content
       | RequestCompanion _ src _ \<Rightarrow> ld_type ld = LoadCompanion src
       | RequestPlaylist _ \<Rightarrow> False
       | RequestQueue _ _ \<Rightarrow> False
       | _ \<Rightarrow> \<exists>url. ld_type ld = LoadUrl url"
    | (playlist) items where "request = RequestPlaylist items" "cmd = CmdLoadPlaylist items"
    | (queue) items i where "request = RequestQueue items i" "cmd = CmdLoadQueue items i"
    using accepted_command [OF assms(1-3)] by blast
  then show ?thesis
  proof cases
    case load
    then show ?thesis
      using loads [of ld] assms(6) by (auto simp: is_content_def opens_files_def split: load_request.splits)
  next
    case playlist
    then show ?thesis using playlist_command_outcome [OF assms(4,5), of env items] by (simp add: is_content_def)
  next
    case queue
    have "fst (wrap_items env items (cn_device c)) \<noteq> None" if "\<not> opens_files request"
    proof -
      have "\<nexists>t src m. QiFCompanion t src m \<in> set items" using that queue(1) by (simp add: opens_files_def)
      from wrap_urls [OF this, of env "cn_device c"] show ?thesis by auto
    qed
    then show ?thesis using queue queue_outcome [of env items i c] by (auto simp: is_content_def split: option.splits)
  qed
qed

section \<open>Examples\<close>

definition sample_item_flat :: flat_media_item where
  "sample_item_flat =
     \<lparr> fmi_container = ''video/mp4'', fmi_source_url = ''http://evil/'', fmi_start_time = None,
       fmi_volume = None, fmi_speed = None, fmi_headers = None, fmi_title = None,
       fmi_thumbnail_url = None, fmi_metadata = FMetadataNone, fmi_extra_metadata = None \<rparr>"

definition sdk_library :: library where
  "sdk_library = sample_library
     \<lparr> lib_json := (\<lambda>s. if s = ''4'' then Some (version_message_ser \<lparr>vm_version = 4\<rparr>)
                       else if s = ''2'' then Some (version_message_ser \<lparr>vm_version = 2\<rparr>) else None),
       lib_root_as_packet := (\<lambda>b. if b = [7] then Some (Packet (MLoad (FSingle sample_item_flat))) else None) \<rparr>"

definition sample_env :: sdk_env where
  "sample_env = \<lparr> env_lib = sdk_library, env_open = (\<lambda>_. None), env_tls = (\<lambda>_. True) \<rparr>"

definition sample_device :: "u64 \<Rightarrow> bytes option \<Rightarrow> inner_device" where
  "sample_device v fp = inner_device_new None v False fp"

definition sample_load :: load_command where
  "sample_load =
     \<lparr> ld_type = LoadUrl ''http://home/film'', ld_content_type = ''video/mp4'', ld_resume_position = 0,
       ld_speed = None, ld_volume = None, ld_metadata = None, ld_headers = None \<rparr>"

definition sample_handle :: "u64 \<Rightarrow> fcast_device" where
  "sample_handle v =
     \<lparr> fd_started = True, fd_commands = Some [], fd_addresses = [], fd_name = ''tv'', fd_port = 46899,
       fd_txt_records = [], fd_session_version = v, fd_supports_whep = False \<rparr>"

lemma pinned_device_never_downgrades_witness:
  "case inner_work sample_env [S_Command CmdConnectedEventDeadlineElapsed] (sample_device 2 (Some [1])) of
     (effs, c, out) \<Rightarrow> (c_variant c = Connecting \<longleftrightarrow> Handshake [1] \<notin> set effs) \<and>
       (\<forall>e \<in> set (in_clear effs). e = sdk_hello (env_lib sample_env) \<or> unprompted e)"
proof -
  obtain effs c out where r: "inner_work sample_env [S_Command CmdConnectedEventDeadlineElapsed]
      (sample_device 2 (Some [1])) = (effs, c, out)" by (metis prod_cases3)
  have "dv_fingerprint (sample_device 2 (Some [1])) = Some [1]"
    by (simp add: sample_device_def inner_device_new_def)
  from pinned_device_never_downgrades [OF this r] r show ?thesis by simp
qed

lemma connection_reported_at_most_witness:
  "reports (fst (inner_work sample_env [S_Command CmdConnectedEventDeadlineElapsed] (sample_device 2 None))) \<le> 2"
proof -
  obtain effs c out where r: "inner_work sample_env [S_Command CmdConnectedEventDeadlineElapsed]
      (sample_device 2 None) = (effs, c, out)" by (metis prod_cases3)
  from connection_reported_at_most [OF r] r show ?thesis by (auto split: if_splits)
qed

lemma sdk_turn_returns_witness:
  "\<exists>effs c' out. sdk_turn sample_env (S_Read (Some (replicate 40000 0))) (connection_new (sample_device 2 None)) =
     (effs, c', out) \<and> out \<noteq> Panic"
  using sdk_turn_returns [OF connection_new_ready, of "S_Read (Some (replicate 40000 0))"
      "sample_device 2 None" sample_env]
  by (auto simp: asks_bad_time_def new_connection_fits SDK_READ_HEADROOM_def MAX_PACKET_SIZE_def)

lemma utf8_digits: "str_from_utf8 [0x34] = Some ''4''" "str_from_utf8 [0x32] = Some ''2''"
  by code_simp+

lemma plaintext_behind_version_is_trusted_witness:
  "\<exists>intro hello c'. sdk_turn sample_env (S_Read (Some (frame [11, 0x34] @ frame [20, 7])))
      (connection_new (sample_device 2 (Some [1]))) =
    ([Handshake [1], Out intro, Out hello, Notify (SourceEv (SrcUrl ''http://evil/'' ''video/mp4''))], c', Go) \<and>
    dv_stream (cn_device c') = NsTls"
proof -
  let ?c = "connection_new (sample_device 2 (Some [1]))"
  have "pending (cn_reader ?c) = []" "c_variant ?c = Connecting" "dv_stream (cn_device ?c) = NsTcp"
    "dv_fingerprint (cn_device ?c) = Some [1]"
    using pending_reader_new
    by (simp_all add: connection_new_def state_machine_new_def sample_device_def inner_device_new_def)
  moreover have "env_tls sample_env [1]"
    "lib_json (env_lib sample_env) ''4'' = Some (version_message_ser \<lparr>vm_version = 4\<rparr>)"
    "lib_root_as_packet (env_lib sample_env) [7] = Some (Packet (MLoad (FSingle sample_item_flat)))"
    by (simp_all add: sample_env_def sdk_library_def)
  ultimately show ?thesis
    using plaintext_behind_version_is_trusted
      [OF connection_new_ready _ _ _ _ _ _ utf8_digits(1), of "sample_device 2 (Some [1])" "[1]" sample_env "[7]" sample_item_flat]
    by (simp add: packet_ok_def MAX_PACKET_SIZE_def SDK_READ_HEADROOM_def sample_item_flat_def
        new_connection_fits)
qed

lemma load_before_version_in_clear_witness:
  "\<exists>msg rest d' fate. load_single (start_item sdk_library sample_load ''http://home/film'') = Some msg \<and>
    sdk_work sample_env 1000
      [([ConnectionReady], [S_Read None]), ([ConnectionReady], [S_Command (CmdLoad sample_load)])]
      (sample_device 4 (Some [1])) =
    ([Notify (ConnectionStateEv IsConnecting), sdk_hello sdk_library,
      Notify (ConnectionStateEv IsReconnecting), sdk_hello sdk_library, sdk_flat sdk_library msg] @ rest, d', fate)"
proof -
  let ?d = "sample_device 4 (Some [1])"
  have "inner_work sample_env [S_Read None] ?d = ([sdk_hello sdk_library], connection_new ?d, Fail IoError)"
    by (simp add: inner_work_def sdk_turn_def sample_env_def)
  moreover have "dv_session_version (cn_device (connection_new ?d)) = 4"
    by (simp add: connection_new_def sample_device_def inner_device_new_def)
  moreover have "ld_type sample_load = LoadUrl ''http://home/film''" "\<not> bad_time (ld_resume_position sample_load)"
    using zero_is_a_time by (simp_all add: sample_load_def)
  ultimately show ?thesis
    using load_before_version_in_clear [of sample_env "[S_Read None]" ?d "[sdk_hello sdk_library]"
        "connection_new ?d" IoError sample_load "''http://home/film''" 1000 "[]"]
    by (simp add: sample_env_def)
qed

lemma late_version_2_reported_twice_witness:
  "\<exists>c. inner_work sample_env
      [S_Command CmdConnectedEventDeadlineElapsed, S_Read (Some (frame [11, 0x32]))] (sample_device 2 None) =
    ([sdk_hello sdk_library, Notify (ConnectionStateEv (IsConnected None)),
      Notify (ConnectionStateEv (IsConnected None))], c, Go)"
  using late_version_2_reported_twice [OF _ _ utf8_digits(2), of "sample_device 2 None" sample_env]
  by (simp add: sample_device_def inner_device_new_def sample_env_def sdk_library_def packet_ok_def
      MAX_PACKET_SIZE_def SDK_READ_HEADROOM_def new_connection_fits)

lemma bad_seek_kills_worker_witness:
  "sdk_work sample_env 1000 [([ConnectionReady], [S_Command (CmdSeekVideo 0xBFF0000000000000)])]
      (sample_device 2 None) =
    ([Notify (ConnectionStateEv IsConnecting), sdk_hello sdk_library],
      cn_device (connection_new (sample_device 2 None)), Died)"
proof -
  have "bad_time 0xBFF0000000000000" unfolding bad_time_def by code_simp
  moreover have "inner_work sample_env [] (sample_device 2 None) =
      ([sdk_hello sdk_library], connection_new (sample_device 2 None), Go)"
    by (simp add: inner_work_def sample_env_def)
  ultimately show ?thesis
    using bad_seek_kills_worker [of "0xBFF0000000000000" sample_env "[]" "sample_device 2 None"
        "[sdk_hello sdk_library]" "connection_new (sample_device 2 None)" 1000 "[]"] by auto
qed

lemma accepted_load_ends_connection_witness:
  "outcome_of (handle_command sample_env (CmdLoadPlaylist []) (connection_new (sample_device 4 None))) =
     Fail AnyhowError"
proof -
  have "api_load (RequestPlaylist []) (sample_handle 4) =
      (Inr (), (sample_handle 4)\<lparr>fd_commands := Some [CmdLoadPlaylist []]\<rparr>)"
    by (simp add: api_load_def sample_handle_def send_command_def PLAYLIST_MIN_PROTO_VERSION_def)
  moreover have "fd_commands (sample_handle 4) = Some []" "fd_session_version (sample_handle 4) = 4"
    by (simp_all add: sample_handle_def)
  ultimately show ?thesis
    using accepted_load_ends_connection [of "RequestPlaylist []" "sample_handle 4"
        "(sample_handle 4)\<lparr>fd_commands := Some [CmdLoadPlaylist []]\<rparr>" "[]" "CmdLoadPlaylist []"
        "connection_new (sample_device 4 None)" sample_env]
    by (simp add: connection_new_def sample_device_def inner_device_new_def asks_bad_time_def is_content_def)
qed

end
