(* ===== verification/Sdk_Interop.thy ===== *)
theory Sdk_Interop
  imports Session_Stream Sdk_Handshake
begin

text \<open>
  The sender SDK and the receiver's session together: what the application asks of a device becomes the
  operations of the receiver's application; mirroring sessions; playlists; companion sources; and how the
  fingerprint a receiver publishes reaches the connection.
\<close>

section \<open>Commands and operations\<close>










section \<open>The sender's side\<close>





section \<open>The receiver's side\<close>

text \<open>The receiving library reads the message that the sending library wrote.\<close>

definition carried :: "library \<Rightarrow> library \<Rightarrow> flat_message \<Rightarrow> bool" where
  "carried slib rlib msg \<longleftrightarrow>
     lib_root_as_packet rlib (lib_flat slib (Packet msg)) = Some (Packet msg) \<and> lib_flat slib (Packet msg) \<noteq> []"

definition flat_bytes :: "library \<Rightarrow> flat_message \<Rightarrow> bytes" where
  "flat_bytes lib msg = opcode_as_u8 Op_Flatbuf # lib_flat lib (Packet msg)"

definition operations :: "effect list \<Rightarrow> (u32 option \<times> operation) list" where
  "operations effs = List.map_filter (\<lambda>e. case e of Operate num op \<Rightarrow> Some (num, op) | _ \<Rightarrow> None) effs"

lemma operations_simps [simp]:
  "operations [] = []" "operations (Operate num op # effs) = (num, op) # operations effs"
  "operations (Send b # effs) = operations effs" "operations (xs @ ys) = operations xs @ operations ys"
  by (simp_all add: operations_def List.map_filter_def)




definition written :: "sdk_effect list \<Rightarrow> bytes list" where
  "written effs = List.map_filter (\<lambda>e. case e of Out b \<Rightarrow> Some b | _ \<Rightarrow> None) effs"

lemma written_simps [simp]:
  "written [] = []" "written (Out b # effs) = b # written effs" "written (xs @ ys) = written xs @ written ys"
  "written (sdk_flat lib (Packet msg) # effs) = frame (flat_bytes lib msg) # written effs"
  "written (map Notify told) = []"
  by (simp_all add: written_def List.map_filter_def sdk_flat_def flat_bytes_def writers_frame filter_map comp_def
      del: opcode_as_u8.simps)




section \<open>Mirroring\<close>

lemma receiver_flat_step:
  assumes "carried slib rlib msg" and "st_variant (dr_state d) = Active (V4 p m)"
  shows "packet_step rlib (flat_bytes slib msg) d num ps =
    (case handle_flat_packet_v4 rlib (lib_flat slib (Packet msg)) (stamped (dr_state d)) of
       (res, st) \<Rightarrow>
         map_option (\<lambda>(effs, d', ps', out).
           (case out of
              Inl _ \<Rightarrow> (effs, d', num, ps', Failed)
            | Inr ended \<Rightarrow> if ended then (effs, d', num, ps', Finished) else (effs, d', num + 1, ps', Continue)))
           (handle_state_result rlib (Some num) res (d\<lparr>dr_state := st\<rparr>) ps))"
    and "lib_root_as_packet rlib (lib_flat slib (Packet msg)) = Some (Packet msg)"
proof -
  have sp: "split_packet (flat_bytes slib msg) = Some (20, Some (lib_flat slib (Packet msg)))"
    using assms(1) by (cases "lib_flat slib (Packet msg)") (simp_all add: carried_def flat_bytes_def split_packet_def)
  have code: "opcode_try_from 20 = Inr Op_Flatbuf" by (simp add: opcode_try_from_def)
  have adv: "advance rlib (PacketEv Op_Flatbuf (Some (lib_flat slib (Packet msg)))) (dr_state d) =
      handle_flat_packet_v4 rlib (lib_flat slib (Packet msg)) (stamped (dr_state d))"
    using assms(2) by (simp add: advance_def packet_event_stamped handle_packet_v4_def)
  show "packet_step rlib (flat_bytes slib msg) d num ps =
    (case handle_flat_packet_v4 rlib (lib_flat slib (Packet msg)) (stamped (dr_state d)) of
       (res, st) \<Rightarrow>
         map_option (\<lambda>(effs, d', ps', out).
           (case out of
              Inl _ \<Rightarrow> (effs, d', num, ps', Failed)
            | Inr ended \<Rightarrow> if ended then (effs, d', num, ps', Finished) else (effs, d', num + 1, ps', Continue)))
           (handle_state_result rlib (Some num) res (d\<lparr>dr_state := st\<rparr>) ps))"
    by (simp add: packet_step_def sp code adv)
  show "lib_root_as_packet rlib (lib_flat slib (Packet msg)) = Some (Packet msg)"
    using assms(1) by (simp add: carried_def)
qed

lemma sender_flat_packet:
  assumes "carried rlib (env_lib env) msg" and "c_variant c = SdkV4 p m g"
  shows "on_packet env (flat_bytes rlib msg) c =
    (case sdk_handle_flat_v4 (env_lib env) (lib_flat rlib (Packet msg)) (dv_machine (cn_device c)) of
       (act, sm) \<Rightarrow> sdk_handle_action env act (dev (dv_machine_update (\<lambda>_. sm)) c))"
    and "lib_root_as_packet (env_lib env) (lib_flat rlib (Packet msg)) = Some (Packet msg)"
proof -
  have sp: "split_packet (flat_bytes rlib msg) = Some (20, Some (lib_flat rlib (Packet msg)))"
    using assms(1) by (cases "lib_flat rlib (Packet msg)") (simp_all add: carried_def flat_bytes_def split_packet_def)
  have code: "opcode_try_from 20 = Inr Op_Flatbuf" by (simp add: opcode_try_from_def)
  show "on_packet env (flat_bytes rlib msg) c =
    (case sdk_handle_flat_v4 (env_lib env) (lib_flat rlib (Packet msg)) (dv_machine (cn_device c)) of
       (act, sm) \<Rightarrow> sdk_handle_action env act (dev (dv_machine_update (\<lambda>_. sm)) c))"
    using assms(2) by (simp add: on_packet_def sp code sdk_handle_packet_def sdk_handle_v4_def)
  show "lib_root_as_packet (env_lib env) (lib_flat rlib (Packet msg)) = Some (Packet msg)"
    using assms(1) by (simp add: carried_def)
qed

text \<open>The receiver's side of a mirroring session and the sender's, one description at a time.\<close>

lemma receiver_offer:
  assumes "\<forall>j. carried lib rlib (MMirroringSessionDescription j offer)"
    and "st_variant (dr_state d) = Active (V4 p (Some i))" and "stamped (dr_state d) = dr_state d"
  shows "packet_step rlib (flat_bytes lib (MMirroringSessionDescription j offer)) d n ps =
    (if j \<noteq> i then Some ([Send (send_flat rlib (error_msg (Some n) InvalidState))], d, n + 1, ps, Continue)
     else if dr_mirroring_offer d then Some ([OfferAnswer offer], d\<lparr>dr_mirroring_offer := False\<rparr>, n + 1, ps, Continue)
     else Some ([], d, n + 1, ps, Continue))"
  using receiver_flat_step [OF spec [OF assms(1)] assms(2)] assms(2,3)
  by (simp add: handle_flat_packet_v4_def handle_state_result_def send_v4_error_def is_v4_def)

lemma receiver_start:
  assumes "carried lib rlib (MStartMirroringSession i)" and "st_variant (dr_state d) = Active (V4 p m)"
  shows "packet_step rlib (flat_bytes lib (MStartMirroringSession i)) d n ps =
    Some ([Operate (Some n) OpStartMirroringSession],
      d\<lparr>dr_state := (stamped (dr_state d))\<lparr>st_variant := Active (V4 p (Some i))\<rparr>, dr_mirroring_offer := True\<rparr>,
      n + 1, ps, Continue)"
  using receiver_flat_step [OF assms] assms(2)
  by (simp add: handle_flat_packet_v4_def set_mirroring_session_def handle_state_result_def)

lemma sender_answer:
  assumes "\<forall>j. carried rlib (env_lib env) (MMirroringSessionDescription j answer)"
    and "c_variant c = SdkV4 p (Some i) g" and "dv_signaller (cn_device c) = Some sig"
  shows "on_packet env (flat_bytes rlib (MMirroringSessionDescription j answer)) c =
    (if j = i then [GiveAnswer sig answer] else [], c, Go)"
  using sender_flat_packet [OF spec [OF assms(1)] assms(2)] assms(2,3)
  by (simp add: sdk_handle_flat_v4_def Let_def sdk_handle_action_def)

text \<open>
  C26: a mirroring session, end to end: the sender starts it under the next id of the
  connection's counter, and the counter moves on by one; the receiver's application is asked to mirror, the offer of that session reaches it, the turn in which its
  answer arrives writes the answer's packet under the same id, and the sender, reading that packet, hands
  it to the signaller that asked for the session. An offer or an answer that names another session is
  refused by the receiver and ignored by the sender, and so is a second offer.
\<close>

theorem mirroring_descriptions_meet:
  assumes "carried (env_lib env) rlib (MStartMirroringSession i)"
    and "\<forall>j. carried (env_lib env) rlib (MMirroringSessionDescription j offer)"
    and "\<forall>j. carried rlib (env_lib env) (MMirroringSessionDescription j answer)"
    and "c_variant c = SdkV4 p m i"
    and "st_variant (dr_state d) = Active (V4 p' m')"
  shows "\<exists>c1 d1 d2. handle_command env (CmdStartMirroringSession sig) c =
      ([sdk_flat (env_lib env) (Packet (MStartMirroringSession i)), SetOfferSink sig i], c1, Go) \<and>
    packet_step rlib (flat_bytes (env_lib env) (MStartMirroringSession i)) d num ps =
      Some ([Operate (Some num) OpStartMirroringSession], d1, num + 1, ps, Continue) \<and>
    handle_command env (CmdMirroringOffer i offer) c1 =
      ([sdk_flat (env_lib env) (Packet (MMirroringSessionDescription i offer))], c1, Go) \<and>
    packet_step rlib (flat_bytes (env_lib env) (MMirroringSessionDescription i offer)) d1 (num + 1) ps =
      Some ([OfferAnswer offer], d2, num + 2, ps, Continue) \<and>
    c_variant c1 = SdkV4 p (Some i) (i + 1) \<and>
    (\<forall>s. ss_driver s = d2 \<longrightarrow> run_turn rlib tls (R_Answer answer) s ps =
      Some ([Send (frame (flat_bytes rlib (MMirroringSessionDescription i answer)))], s, ps, Continue)) \<and>
    on_packet env (flat_bytes rlib (MMirroringSessionDescription i answer)) c1 = ([GiveAnswer sig answer], c1, Go) \<and>
    (\<forall>j. j \<noteq> i \<longrightarrow>
      packet_step rlib (flat_bytes (env_lib env) (MMirroringSessionDescription j offer)) d1 (num + 1) ps =
        Some ([Send (send_flat rlib (error_msg (Some (num + 1)) InvalidState))], d1, num + 2, ps, Continue) \<and>
      on_packet env (flat_bytes rlib (MMirroringSessionDescription j answer)) c1 = ([], c1, Go)) \<and>
    packet_step rlib (flat_bytes (env_lib env) (MMirroringSessionDescription i offer)) d2 (num + 2) ps =
      Some ([], d2, num + 3, ps, Continue)"
proof -
  let ?lib = "env_lib env"
  define sm where "sm = (dv_machine (cn_device c))\<lparr>sm_variant := SdkV4 p (Some i) (i + 1)\<rparr>"
  define c1 where "c1 = dev (\<lambda>x. x\<lparr>dv_machine := sm, dv_signaller := Some sig\<rparr>) c"
  have c1: "c_variant c1 = SdkV4 p (Some i) (i + 1)" by (simp add: c1_def sm_def)
  define d1 where "d1 = d\<lparr>dr_state := (stamped (dr_state d))\<lparr>st_variant := Active (V4 p' (Some i))\<rparr>,
      dr_mirroring_offer := True\<rparr>"
  define d2 where "d2 = d1\<lparr>dr_mirroring_offer := False\<rparr>"
  have d1: "st_variant (dr_state d1) = Active (V4 p' (Some i))" "stamped (dr_state d1) = dr_state d1"
    by (simp_all add: d1_def stamped_def)
  have start: "handle_command env (CmdStartMirroringSession sig) c =
      ([sdk_flat ?lib (Packet (MStartMirroringSession i)), SetOfferSink sig i], c1, Go)"
    using assms(4)
    by (simp add: handle_command_def Let_def sm_start_mirroring_def id_generator_next_def anyhow_def sdk_handle_action_def
        on_start_mirroring_def start_mirroring_session_def create_and_finish_envelope_def c1_def sm_def)
  have d2: "st_variant (dr_state d2) = Active (V4 p' (Some i))" "stamped (dr_state d2) = dr_state d2"
    "dr_mirroring_offer d1" "\<not> dr_mirroring_offer d2"
    using d1 by (simp_all add: d1_def d2_def)
  note started = receiver_start [OF assms(1,5), folded d1_def]
  note offers = receiver_offer [OF assms(2) d1] receiver_offer [OF assms(2) d2(1,2)]
  have offered: "handle_command env (CmdMirroringOffer i offer) c1 =
      ([sdk_flat ?lib (Packet (MMirroringSessionDescription i offer))], c1, Go)"
    by (simp add: handle_command_def Let_def mirroring_session_description_def create_and_finish_envelope_def)
  have answered: "on_packet env (flat_bytes rlib (MMirroringSessionDescription j answer)) c1 =
      (if j = i then [GiveAnswer sig answer] else [], c1, Go)" for j
    by (rule sender_answer [OF assms(3) c1]) (simp add: c1_def)
  have "advance rlib (InternalMirroringAnswer answer) (dr_state d2) = (Inr (SendAnswer i answer), dr_state d2)"
    using d2 by (simp add: advance_def mirroring_answer_def)
  then have returned: "run_turn rlib tls (R_Answer answer) s ps =
      Some ([Send (frame (flat_bytes rlib (MMirroringSessionDescription i answer)))], s, ps, Continue)"
    if "ss_driver s = d2" for s
    using that by (cases s) (simp add: run_turn_def turn_def handle_state_result_def send_flat_def flat_bytes_def
        writers_frame mirroring_session_description_def create_and_finish_envelope_def del: opcode_as_u8.simps)
  have n: "num + 1 + 1 = num + 2" "num + 2 + 1 = num + 3" by simp_all
  show ?thesis
    using start started offered returned answered c1 d2(3,4)
    by (intro exI [of _ c1] exI [of _ d1] exI [of _ d2]) (simp add: offers n d2_def [symmetric])
qed

section \<open>Examples\<close>

text \<open>A wire format for a few messages, and the two sides of a version 4 connection.\<close>

fun wire_write :: "flat_message \<Rightarrow> bytes" where
  "wire_write MStopPlayback = [1]"
| "wire_write (MPlaybackStateChanged s) = [2]"
| "wire_write (MStartMirroringSession i) = [3, segment_hi i, segment_lo i]"
| "wire_write (MMirroringSessionDescription i sdp) = [if sdp = ''offer'' then 4 else 5, segment_hi i, segment_lo i]"
| "wire_write _ = [0]"

fun wire_read :: "bytes \<Rightarrow> flat_message option" where
  "wire_read [k] = (if k = 1 then Some MStopPlayback else if k = 2 then Some (MPlaybackStateChanged FPaused) else None)"
| "wire_read [k, hi, lo] =
     (if k = 3 then Some (MStartMirroringSession (segment_of hi lo))
      else if k = 4 then Some (MMirroringSessionDescription (segment_of hi lo) ''offer'')
      else Some (MMirroringSessionDescription (segment_of hi lo) ''answer''))"
| "wire_read _ = None"

definition wire_library :: library where
  "wire_library = sample_library
     \<lparr> lib_flat := (\<lambda>p. wire_write (payload p)),
       lib_root_as_packet := (\<lambda>b. map_option Packet (wire_read b)) \<rparr>"

definition wire_env :: sdk_env where
  "wire_env = \<lparr> env_lib = wire_library, env_open = (\<lambda>_. None), env_tls = (\<lambda>_. True) \<rparr>"

definition v4_connection :: connection where
  "v4_connection = connection_new (sample_device 4 None)
     \<lparr> cn_device := (sample_device 4 None)\<lparr>dv_machine := \<lparr> sm_variant = SdkV4 None None 7, sm_require_v4 = True \<rparr>\<rparr> \<rparr>"


lemma wire_carried [simp]:
  "carried wire_library wire_library MStopPlayback"
  "carried wire_library wire_library (MPlaybackStateChanged FPaused)"
  "carried wire_library wire_library (MStartMirroringSession i)"
  "carried wire_library wire_library (MMirroringSessionDescription i ''offer'')"
  "carried wire_library wire_library (MMirroringSessionDescription i ''answer'')"
  by (simp_all add: carried_def wire_library_def)


lemma mirroring_descriptions_meet_witness:
  "\<exists>c1. handle_command wire_env (CmdStartMirroringSession 3) v4_connection =
      ([sdk_flat wire_library (Packet (MStartMirroringSession 7)), SetOfferSink 3 7], c1, Go) \<and>
    c_variant c1 = SdkV4 None (Some 7) 8 \<and>
    on_packet wire_env (flat_bytes wire_library (MMirroringSessionDescription 7 ''answer'')) c1 =
      ([GiveAnswer 3 ''answer''], c1, Go)"
proof -
  have lib: "env_lib wire_env = wire_library" by (simp add: wire_env_def)
  have v: "st_variant (dr_state (sample_driver (tls_success state_new))) = Active (V4 None None)"
    by (simp add: tls_success_def sample_driver_def driver_new_def)
  have c: "c_variant v4_connection = SdkV4 None None 7" by (simp add: v4_connection_def)
  have "(7 :: u16) + 1 = 8" by simp
  then show ?thesis
    using mirroring_descriptions_meet [OF _ _ _ c v, of wire_env wire_library "''offer''" "''answer''" 3 0 "\<lambda>_. None"]
    unfolding lib by (metis wire_carried(3-5))
qed

end
