(* ===== verification/Sdk_Flows.thy ===== *)
theory Sdk_Flows
  imports Sdk_Interop
begin

text \<open>
  Properties of the sender SDK that span several requests: jumps in a playlist, the files a queue offers,
  and the way of a published fingerprint from a connection URL to the worker.
\<close>

section \<open>Playlists\<close>

definition jumped :: "nat \<Rightarrow> nat \<Rightarrow> int list \<Rightarrow> nat" where
  "jumped n i jumps = nat ((int i + sum_list jumps) mod int n)"

lemma wrapped_index:
  assumes "i < n" and "n < 2 ^ 62" and "\<bar>jump\<bar> \<le> 2 ^ 31"
  shows "wrapped_playlist_index i jump n = Some (jumped n i [jump])"
proof -
  have "int i < 2 ^ 62" using assms(1,2) by simp
  then have "swrap 64 (int i) = int i" "swrap 64 (int i + jump) = int i + jump"
    using assms(3) by (intro swrap_id; simp add: in_srange_def; linarith)+
  with assms(1) show ?thesis by (simp add: wrapped_playlist_index_def jumped_def)
qed

lemma jumped_less: "0 < n \<Longrightarrow> jumped n i jumps < n"
  by (simp add: jumped_def nat_less_iff)

lemma jumped_Cons:
  assumes "0 < n"
  shows "jumped n (jumped n i [jump]) jumps = jumped n i (jump # jumps)"
proof -
  have "int (jumped n i [jump]) = (int i + jump) mod int n" using assms by (simp add: jumped_def)
  then have "jumped n (jumped n i [jump]) jumps = nat (((int i + jump) mod int n + sum_list jumps) mod int n)"
    by (simp add: jumped_def [of n "jumped n i [jump]"])
  then show ?thesis by (simp only: mod_add_left_eq jumped_def sum_list.Cons add.assoc)
qed

lemma jumps_run:
  assumes "cn_length c = Some n" and "cn_index c = Some i" and "i < n" and "n < 2 ^ 62"
    and "\<forall>jump \<in> set jumps. \<bar>jump\<bar> \<le> 2 ^ 31"
  shows "\<exists>c'. sdk_turns env (map (\<lambda>jump. S_Command (CmdJumpPlaylist jump)) jumps) c =
      (map (\<lambda>k. set_playlist_item_packet (env_lib env) (jumped n i (take (Suc k) jumps))) [0..<length jumps], c', Go) \<and>
    cn_length c' = Some n \<and> cn_index c' = Some (if jumps = [] then i else jumped n i jumps)"
  using assms
proof (induction jumps arbitrary: c i)
  case (Cons jump jumps)
  let ?i = "jumped n i [jump]" and ?lib = "env_lib env"
  let ?c = "c\<lparr>cn_index := Some ?i\<rparr>"
  have n: "0 < n" using Cons.prems(3) by simp
  have w: "wrapped_playlist_index i jump n = Some ?i"
    using wrapped_index [OF Cons.prems(3,4)] Cons.prems(5) by simp
  have step: "sdk_turn env (S_Command (CmdJumpPlaylist jump)) c = ([set_playlist_item_packet ?lib ?i], ?c, Go)"
    using Cons.prems(1,2) w by (simp add: sdk_turn_def handle_command_def Let_def jump_playlist_def)
  obtain c' where c': "sdk_turns env (map (\<lambda>jump. S_Command (CmdJumpPlaylist jump)) jumps) ?c =
      (map (\<lambda>k. set_playlist_item_packet ?lib (jumped n ?i (take (Suc k) jumps))) [0..<length jumps], c', Go)"
    "cn_length c' = Some n" "cn_index c' = Some (if jumps = [] then ?i else jumped n ?i jumps)"
    using Cons.IH [of ?c ?i] Cons.prems(1,4,5) jumped_less [OF n] by auto
  have "[0..<length (jump # jumps)] = 0 # map Suc [0..<length jumps]"
    by (simp add: upt_conv_Cons flip: map_Suc_upt del: upt_Suc)
  with step c' show ?case by (simp add: jumped_Cons [OF n] comp_def del: upt_Suc)
qed simp

text \<open>
  Jumps in a playlist compose: after any sequence of them the device stands at the sum of the jumps,
  taken around the playlist, and each told the receiver the position it reached.
\<close>

theorem playlist_jumps_compose:
  assumes "cn_length c = Some n" and "cn_index c = Some i" and "i < n" and "n < 2 ^ 62"
    and "\<forall>jump \<in> set jumps. \<bar>jump\<bar> \<le> 2 ^ 31"
  shows "\<exists>c'. sdk_turns env (map (\<lambda>jump. S_Command (CmdJumpPlaylist jump)) jumps) c =
      (map (\<lambda>k. set_playlist_item_packet (env_lib env)
          (nat ((int i + sum_list (take (Suc k) jumps)) mod int n))) [0..<length jumps], c', Go) \<and>
    cn_index c' = Some (nat ((int i + sum_list jumps) mod int n))"
  using jumps_run [OF assms, of env] assms(3) by (auto simp: jumped_def split: if_splits)

section \<open>Files\<close>

lemma fresh_source_spec:
  "fresh_source n sources i = Some j \<Longrightarrow> map_of sources j = None"
  by (induction n sources i rule: fresh_source.induct) (auto split: if_splits)

lemma fresh_source_found:
  assumes "\<exists>k < n. map_of sources (i + of_nat k) = None"
  shows "fresh_source n sources i \<noteq> None"
  using assms
proof (induction n arbitrary: i)
  case (Suc n)
  show ?case
  proof (cases "map_of sources i = None")
    case False
    from Suc.prems obtain k where k: "k < Suc n" "map_of sources (i + of_nat k) = None" by blast
    with False obtain k' where "k = Suc k'" by (cases k) auto
    with k have "k' < n" "map_of sources (i + 1 + of_nat k') = None" by (simp_all add: algebra_simps)
    with Suc.IH [of "i + 1"] False show ?thesis by auto
  qed simp
qed simp

lemma fresh_source_exists:
  assumes "length sources < 2 ^ 32"
  shows "fresh_source (Suc (length sources)) sources 0 \<noteq> None"
proof (rule fresh_source_found)
  let ?used = "fst ` set sources" and ?ids = "(\<lambda>k. of_nat k :: u32) ` {..length sources}"
  have "inj_on (\<lambda>k. of_nat k :: u32) {..length sources}"
    using assms by (intro inj_onI) (auto simp: of_nat_eq_iff dest!: arg_cong [of _ _ unat] simp: unat_of_nat)
  then have "card ?ids = Suc (length sources)" by (simp add: card_image)
  moreover have "card ?used \<le> length sources" by (metis card_image_le card_length finite_set le_trans)
  ultimately have "\<not> ?ids \<subseteq> ?used" using card_mono [of ?used ?ids] by fastforce
  then obtain k where "k \<le> length sources" "(of_nat k :: u32) \<notin> ?used" by auto
  then show "\<exists>k < Suc (length sources). map_of sources (0 + of_nat k) = None"
    by (intro exI [of _ k]) (auto simp: map_of_eq_None_iff)
qed


text \<open>What a file offered by an item becomes, and that the files offered before stay.\<close>

definition offers :: "sdk_env \<Rightarrow> u16 \<Rightarrow> inner_device \<Rightarrow> companion_source \<Rightarrow> string \<Rightarrow> bool" where
  "offers env provider_id d src url \<longleftrightarrow>
     (\<exists>i opened. url = create_url provider_id i \<and> env_open env (cs_path src) = Some opened \<and>
        map_of (dv_sources d) i = Some \<lparr> ws_file = opened, ws_content_type = cs_content_type src \<rparr>)"

lemma companion_url_spec:
  assumes "sm_variant (dv_machine d) = SdkV4 (Some provider_id) m g" and "companion_url env src d = Some (url, d')"
  obtains i ws where "url = create_url provider_id i" "map_of (dv_sources d) i = None"
    "d' = d\<lparr>dv_sources := (i, ws) # dv_sources d\<rparr>" "offers env provider_id d' src url"
proof -
  from assms obtain opened i where f: "env_open env (cs_path src) = Some opened"
      "fresh_source (Suc (length (dv_sources d))) (dv_sources d) 0 = Some i" "url = create_url provider_id i"
      "d' = d\<lparr>dv_sources := (i, \<lparr> ws_file = opened, ws_content_type = cs_content_type src \<rparr>) # dv_sources d\<rparr>"
    by (auto simp: companion_url_def add_source_def split: option.splits simp del: fresh_source.simps)
  with fresh_source_spec [OF f(2)] show thesis by (intro that [of i]) (auto simp: offers_def)
qed

lemma offers_kept:
  assumes "offers env provider_id d src url" and "\<And>i ws. map_of (dv_sources d) i = Some ws \<Longrightarrow> map_of (dv_sources d') i = Some ws"
  shows "offers env provider_id d' src url"
  using assms by (auto simp: offers_def)

fun file_of_item :: "device_queue_item \<Rightarrow> companion_source option" where
  "file_of_item (QiFCompanion _ src _) = Some src"
| "file_of_item (QiUrl _ _ _ _) = None"

lemma wrap_items_spec:
  assumes "sm_variant (dv_machine d) = SdkV4 (Some provider_id) m g" and "distinct (map fst (dv_sources d))"
    and "wrap_items env items d = (Some wrapped, d')"
  shows "distinct (map fst (dv_sources d')) \<and> dv_machine d' = dv_machine d \<and>
    (\<forall>i ws. map_of (dv_sources d) i = Some ws \<longrightarrow> map_of (dv_sources d') i = Some ws) \<and>
    length wrapped = length items \<and>
    (\<forall>k < length items. \<forall>src. file_of_item (items ! k) = Some src \<longrightarrow>
       offers env provider_id d' src (m4_source_url (wrapped ! k)) \<and>
       (\<exists>i. m4_source_url (wrapped ! k) = create_url provider_id i \<and> map_of (dv_sources d) i = None)) \<and>
    (\<forall>k < length items. \<forall>l < length items. k \<noteq> l \<and> file_of_item (items ! k) \<noteq> None \<and> file_of_item (items ! l) \<noteq> None \<longrightarrow>
       m4_source_url (wrapped ! k) \<noteq> m4_source_url (wrapped ! l))"
  using assms
proof (induction items arbitrary: d wrapped)
  case (Cons item items)
  from Cons.prems(3) obtain url d1 wrapped1
    where u: "queue_item_url env item d = Some (url, d1)" and w: "wrap_items env items d1 = (Some wrapped1, d')"
      and wrapped: "wrapped = plain_item (queue_item_content_type item) url # wrapped1"
    by (auto split: option.splits prod.splits)
  have url: "m4_source_url (wrapped ! 0) = url" by (simp add: wrapped plain_item_def)
  show ?case
  proof (cases item)
    case (QiUrl url' ct me h)
    then have d1: "d1 = d" using u by (simp add: queue_item_url_def)
    note IH = Cons.IH [OF Cons.prems(1,2) w [unfolded d1]]
    have theirs: "offers env provider_id d' src (m4_source_url (wrapped1 ! k)) \<and>
        (\<exists>i. m4_source_url (wrapped1 ! k) = create_url provider_id i \<and> map_of (dv_sources d) i = None)"
      if "k < length items" "file_of_item (items ! k) = Some src" for k src
      using IH that by blast
    have apart: "m4_source_url (wrapped1 ! k) \<noteq> m4_source_url (wrapped1 ! l)"
      if "k < length items" "l < length items" "k \<noteq> l" "file_of_item (items ! k) \<noteq> None" "file_of_item (items ! l) \<noteq> None" for k l
      using IH that by blast
    show ?thesis
    proof (intro conjI allI impI)
      show "distinct (map fst (dv_sources d'))" "dv_machine d' = dv_machine d" using IH by blast+
      have "length wrapped1 = length items" using IH by blast
      then show "length wrapped = length (item # items)" by (simp add: wrapped)
    next
      fix j ws' assume "map_of (dv_sources d) j = Some ws'"
      then show "map_of (dv_sources d') j = Some ws'" using IH by blast
    next
      fix k src' assume k: "k < length (item # items)" "file_of_item ((item # items) ! k) = Some src'"
      then obtain k' where "k = Suc k'" by (cases k) (simp_all add: QiUrl)
      with theirs k show "offers env provider_id d' src' (m4_source_url (wrapped ! k))"
        "\<exists>j. m4_source_url (wrapped ! k) = create_url provider_id j \<and> map_of (dv_sources d) j = None"
        by (simp_all add: wrapped)
    next
      fix k l assume kl: "k < length (item # items)" "l < length (item # items)"
        "k \<noteq> l \<and> file_of_item ((item # items) ! k) \<noteq> None \<and> file_of_item ((item # items) ! l) \<noteq> None"
      then obtain k' l' where "k = Suc k'" "l = Suc l'" by (cases k; cases l) (simp_all add: QiUrl)
      with apart [of k' l'] kl show "m4_source_url (wrapped ! k) \<noteq> m4_source_url (wrapped ! l)" by (simp add: wrapped)
    qed
  next
    case (QiFCompanion ct src me)
    then have cu: "companion_url env src d = Some (url, d1)" using u by (simp add: queue_item_url_def)
    obtain i ws where i: "url = create_url provider_id i" "map_of (dv_sources d) i = None"
        "d1 = d\<lparr>dv_sources := (i, ws) # dv_sources d\<rparr>" "offers env provider_id d1 src url"
      using companion_url_spec [OF Cons.prems(1) cu] .
    have d1: "sm_variant (dv_machine d1) = SdkV4 (Some provider_id) m g" "distinct (map fst (dv_sources d1))"
      using Cons.prems(1,2) i(2,3) by (auto simp: map_of_eq_None_iff)
    note IH = Cons.IH [OF d1 w]
    have kept: "map_of (dv_sources d1) j = Some ws' \<Longrightarrow> map_of (dv_sources d') j = Some ws'" for j ws'
      using IH by blast
    have keep: "map_of (dv_sources d') j = Some ws'" if "map_of (dv_sources d) j = Some ws'" for j ws'
      using kept [of j ws'] i(2,3) that by (cases "j = i") simp_all
    have mine: "offers env provider_id d' src url" using offers_kept [OF i(4) kept] .
    have theirs: "offers env provider_id d' src' (m4_source_url (wrapped1 ! k))"
      if "k < length items" "file_of_item (items ! k) = Some src'" for k src'
      using IH that by blast
    have apart: "m4_source_url (wrapped1 ! k) \<noteq> m4_source_url (wrapped1 ! l)"
      if "k < length items" "l < length items" "k \<noteq> l" "file_of_item (items ! k) \<noteq> None" "file_of_item (items ! l) \<noteq> None" for k l
      using IH that by blast
    have fresh: "\<exists>j. m4_source_url (wrapped1 ! k) = create_url provider_id j \<and> map_of (dv_sources d) j = None \<and> j \<noteq> i"
      if "k < length items" "file_of_item (items ! k) = Some src'" for k src'
    proof -
      from IH that obtain j where "m4_source_url (wrapped1 ! k) = create_url provider_id j" "map_of (dv_sources d1) j = None"
        by blast
      with i(3) show ?thesis by (auto split: if_splits)
    qed
    have other: "url \<noteq> m4_source_url (wrapped1 ! k)" if "k < length items" "file_of_item (items ! k) = Some src'" for k src'
      using fresh [OF that] i(1) by (auto simp: create_url_inject)
    show ?thesis
    proof (intro conjI allI impI)
      have "dv_machine d' = dv_machine d1" "length wrapped1 = length items" using IH by blast+
      with i(3) show "length wrapped = length (item # items)" "dv_machine d' = dv_machine d" by (simp_all add: wrapped)
      show "distinct (map fst (dv_sources d'))" using IH by blast
    next
      fix j ws' assume "map_of (dv_sources d) j = Some ws'"
      then show "map_of (dv_sources d') j = Some ws'" by (rule keep)
    next
      fix k src' assume k: "k < length (item # items)" "file_of_item ((item # items) ! k) = Some src'"
      show "offers env provider_id d' src' (m4_source_url (wrapped ! k))"
        using k theirs mine by (cases k) (auto simp: wrapped QiFCompanion plain_item_def)
      show "\<exists>j. m4_source_url (wrapped ! k) = create_url provider_id j \<and> map_of (dv_sources d) j = None"
        using k fresh i(1,2) by (cases k) (force simp: wrapped QiFCompanion plain_item_def)+
    next
      fix k l assume kl: "k < length (item # items)" "l < length (item # items)"
        "k \<noteq> l \<and> file_of_item ((item # items) ! k) \<noteq> None \<and> file_of_item ((item # items) ! l) \<noteq> None"
      show "m4_source_url (wrapped ! k) \<noteq> m4_source_url (wrapped ! l)"
        using kl other apart by (cases k; cases l) (force simp: wrapped plain_item_def)+
    qed
  qed
qed simp

lemma wrap_items_total:
  assumes "sm_variant (dv_machine d) = SdkV4 (Some provider_id) m g"
    and "length (dv_sources d) + length items < 2 ^ 32"
    and "\<forall>item \<in> set items. \<forall>src. file_of_item item = Some src \<longrightarrow> env_open env (cs_path src) \<noteq> None"
  shows "\<exists>wrapped d'. wrap_items env items d = (Some wrapped, d')"
  using assms
proof (induction items arbitrary: d)
  case (Cons item items)
  have "\<exists>url d1. queue_item_url env item d = Some (url, d1) \<and> sm_variant (dv_machine d1) = SdkV4 (Some provider_id) m g \<and>
      length (dv_sources d1) \<le> Suc (length (dv_sources d))"
  proof (cases item)
    case (QiFCompanion ct src me)
    obtain opened where "env_open env (cs_path src) = Some opened" using Cons.prems(3) QiFCompanion by auto
    moreover obtain i where "fresh_source (Suc (length (dv_sources d))) (dv_sources d) 0 = Some i"
      using fresh_source_exists [of "dv_sources d"] Cons.prems(2) by auto
    ultimately show ?thesis using Cons.prems(1)
      by (simp add: QiFCompanion queue_item_url_def companion_url_def add_source_def del: fresh_source.simps)
  qed (use Cons.prems(1) in \<open>simp add: queue_item_url_def\<close>)
  then obtain url d1 where u: "queue_item_url env item d = Some (url, d1)"
      "sm_variant (dv_machine d1) = SdkV4 (Some provider_id) m g" "length (dv_sources d1) \<le> Suc (length (dv_sources d))"
    by blast
  have "length (dv_sources d1) + length items < 2 ^ 32" using u(3) Cons.prems(2) by simp
  with Cons.IH [OF u(2) this] Cons.prems(3) obtain wrapped d' where "wrap_items env items d1 = (Some wrapped, d')" by auto
  with u(1) show ?case by simp
qed simp

text \<open>
  C22: a queue whose files can be opened is loaded: every file is offered under an address of its own,
  under which the device finds that file with its content type; the files offered before keep theirs,
  and no id is used twice.
\<close>

theorem queue_files_are_offered:
  assumes "c_variant c = SdkV4 (Some provider_id) m g" and "distinct (map fst (dv_sources (cn_device c)))"
    and "length (dv_sources (cn_device c)) + length items < 2 ^ 32"
    and "\<forall>item \<in> set items. \<forall>src. file_of_item item = Some src \<longrightarrow> env_open env (cs_path src) \<noteq> None"
  shows "\<exists>wrapped msg c'. handle_command env (CmdLoadQueue items start_index) c = ([sdk_flat (env_lib env) msg], c', Go) \<and>
    load_queue wrapped start_index = Some msg \<and> length wrapped = length items \<and>
    distinct (map fst (dv_sources (cn_device c'))) \<and>
    (\<forall>i ws. map_of (dv_sources (cn_device c)) i = Some ws \<longrightarrow> map_of (dv_sources (cn_device c')) i = Some ws) \<and>
    (\<forall>k < length items. \<forall>src. file_of_item (items ! k) = Some src \<longrightarrow>
       offers env provider_id (cn_device c') src (m4_source_url (wrapped ! k))) \<and>
    (\<forall>k < length items. \<forall>l < length items. k \<noteq> l \<and> file_of_item (items ! k) \<noteq> None \<and> file_of_item (items ! l) \<noteq> None \<longrightarrow>
       m4_source_url (wrapped ! k) \<noteq> m4_source_url (wrapped ! l))"
proof -
  obtain wrapped d' where wi: "wrap_items env items (cn_device c) = (Some wrapped, d')"
    using wrap_items_total [OF assms(1,3,4)] by blast
  note w = wrap_items_spec [OF assms(1,2) wi]
  obtain msg where msg: "load_queue wrapped start_index = Some msg"
    using load_queue_built wrapped_plain [OF wi] by blast
  define c' where "c' = c\<lparr>cn_device := d'\<rparr>"
  have h: "handle_command env (CmdLoadQueue items start_index) c = ([sdk_flat (env_lib env) msg], c', Go)"
    using wi msg by (simp add: handle_command_def Let_def sdk_load_queue_def sdk_built_def c'_def)
  have dev: "cn_device c' = d'" by (simp add: c'_def)
  show ?thesis
    by (rule exI [of _ wrapped], rule exI [of _ msg], rule exI [of _ c'], unfold dev, intro conjI, rule h, rule msg)
      (use w in blast)+
qed

section \<open>The published fingerprint\<close>

text \<open>
  The fingerprint a receiver puts into its connection URL is the one the worker is pinned to: a
  device made from the URL refuses every receiver that does not speak version 4 or does not hold the
  certificate, whatever it sends. A device made from the description the SDK gives back is not pinned,
  because the text records are left out of it.
\<close>

theorem published_fingerprint_is_pinned:
  assumes "network_config_ok config" and "\<forall>bs. decode (encode bs) = Some bs"
    and "parse (print (network_config_ser config)) = Some (network_config_ser config)"
    and "List.find (\<lambda>service. svc_kind service = 0) (nc_services config) = Some service"
    and "those (map (\<lambda>a. map_option ip_addr_of_std (parse_std_addr a)) (nc_addresses config)) = Some addrs" and "addrs \<noteq> []"
    and "nc_txt config = Some txt" and "map_of txt ''fp'' = Some record_text" and "unbase record_text = Some fp"
  shows "\<exists>info d fd d'. device_info_from_url parse decode (to_url print encode config) = Some info \<and>
    dd_port info = svc_port service \<and>
    api_connect unbase app_info (fcast_device_new info) = (Inr d, fd) \<and> dv_fingerprint d = Some fp \<and>
    (\<forall>env evs effs c out. inner_work env evs d = (effs, c, out) \<longrightarrow>
       (c_variant c = Connecting \<longleftrightarrow> Handshake fp \<notin> set effs) \<and>
       (c_variant c \<noteq> Connecting \<longrightarrow> (\<exists>p m g. c_variant c = SdkV4 p m g))) \<and>
    fst (api_connect unbase app_info (fcast_device_new (get_device_info fd))) = Inr d' \<and> dv_fingerprint d' = None"
proof -
  define info where "info = device_info_fcast (nc_name config) addrs (svc_port service) txt"
  have parsed: "parse_url parse decode (to_url print encode config) = Some config"
    using assms(1-3) network_config.roundtrip [OF assms(1)] by (simp add: parse_url_def to_url_def)
  have i: "device_info_from_url parse decode (to_url print encode config) = Some info"
    using assms(4,5,7) by (simp add: device_info_from_url_def parsed info_def)
  define d where "d = inner_device_new app_info DEFAULT_SESSION_VERSION False (Some fp)"
  define fd where "fd = (fcast_device_new info)\<lparr>fd_started := True, fd_commands := Some []\<rparr>"
  have c: "api_connect unbase app_info (fcast_device_new info) = (Inr d, fd)"
    using assms(6,8,9)
    by (simp add: api_connect_def fcast_device_new_def info_def device_info_fcast_def ips_to_socket_addrs_def
        pinned_fingerprint_def d_def fd_def)
  have fp: "dv_fingerprint d = Some fp" by (simp add: d_def inner_device_new_def)
  define d' where "d' = inner_device_new app_info DEFAULT_SESSION_VERSION False None"
  have "fst (api_connect unbase app_info (fcast_device_new (get_device_info fd))) = Inr d' \<and> dv_fingerprint d' = None"
    using assms(6)
    by (simp add: api_connect_def fcast_device_new_def info_def device_info_fcast_def ips_to_socket_addrs_def
        pinned_fingerprint_def get_device_info_def fd_def d'_def inner_device_new_def)
  moreover have "dd_port info = svc_port service" by (simp add: info_def device_info_fcast_def)
  ultimately show ?thesis using i c fp pinned_run [OF fp] by blast
qed

section \<open>Examples\<close>

lemma playlist_jumps_compose_witness:
  "\<exists>c'. sdk_turns wire_env [S_Command (CmdJumpPlaylist 1), S_Command (CmdJumpPlaylist (- 2))]
      (v4_connection\<lparr>cn_length := Some 3, cn_index := Some 2\<rparr>) =
    ([set_playlist_item_packet wire_library 0, set_playlist_item_packet wire_library 1], c', Go) \<and> cn_index c' = Some 1"
  using playlist_jumps_compose [of "v4_connection\<lparr>cn_length := Some 3, cn_index := Some 2\<rparr>" 3 2 "[1, - 2]" wire_env]
  by (simp add: wire_env_def)

definition sample_file :: companion_file where
  "sample_file = \<lparr> cf_len = Inr 3, cf_seeks = (\<lambda>_. True), cf_read = (\<lambda>a n. Inr (take n (drop a [1, 2, 3]))) \<rparr>"

definition file_env :: sdk_env where
  "file_env = wire_env\<lparr>env_open := (\<lambda>path. Some sample_file)\<rparr>"

definition file_connection :: connection where
  "file_connection = v4_connection
     \<lparr>cn_device := (sample_device 4 None)\<lparr>dv_machine := \<lparr> sm_variant = SdkV4 (Some 5) None 0, sm_require_v4 = True \<rparr>\<rparr>\<rparr>"

lemma queue_files_are_offered_witness:
  "let item = QiFCompanion ''video/mp4'' \<lparr> cs_path = ''film.mp4'', cs_content_type = ''video/mp4'' \<rparr> None in
   \<exists>wrapped msg c'. handle_command file_env (CmdLoadQueue [item, item] None) file_connection =
       ([sdk_flat wire_library msg], c', Go) \<and>
     m4_source_url (wrapped ! 0) \<noteq> m4_source_url (wrapped ! 1) \<and> load_queue wrapped None = Some msg"
proof -
  let ?src = "\<lparr> cs_path = ''film.mp4'', cs_content_type = ''video/mp4'' \<rparr>"
  let ?item = "QiFCompanion ''video/mp4'' ?src None"
  have lib: "env_lib file_env = wire_library" by (simp add: file_env_def wire_env_def)
  have c: "c_variant file_connection = SdkV4 (Some 5) None 0" "dv_sources (cn_device file_connection) = []"
    by (simp_all add: file_connection_def sample_device_def inner_device_new_def)
  have distinct: "distinct (map fst (dv_sources (cn_device file_connection)))"
    and room: "length (dv_sources (cn_device file_connection)) + length [?item, ?item] < 2 ^ 32"
    by (simp_all add: c(2))
  have opens: "\<forall>item \<in> set [?item, ?item]. \<forall>src. file_of_item item = Some src \<longrightarrow> env_open file_env (cs_path src) \<noteq> None"
    by (simp add: file_env_def)
  obtain wrapped msg c' where r: "handle_command file_env (CmdLoadQueue [?item, ?item] None) file_connection =
        ([sdk_flat wire_library msg], c', Go)" "load_queue wrapped None = Some msg"
      "\<forall>k < 2. \<forall>l < 2. k \<noteq> l \<and> file_of_item ([?item, ?item] ! k) \<noteq> None \<and> file_of_item ([?item, ?item] ! l) \<noteq> None \<longrightarrow>
        m4_source_url (wrapped ! k) \<noteq> m4_source_url (wrapped ! l)"
    using queue_files_are_offered [OF c(1) distinct room opens, of None] by (auto simp: lib numeral_2_eq_2)
  have "m4_source_url (wrapped ! 0) \<noteq> m4_source_url (wrapped ! 1)" using r(3) [rule_format, of 0 1] by simp
  with r(1,2) show ?thesis unfolding Let_def by blast
qed

definition pinned_config :: network_config where
  "pinned_config = sample_config\<lparr>nc_txt := Some [(''fp'', ''abcd'')]\<rparr>"

lemma published_fingerprint_is_pinned_witness:
  "\<exists>info d fd. device_info_from_url (\<lambda>_. Some (network_config_ser pinned_config))
      (\<lambda>s. Some (map (\<lambda>c. word_of_nat (of_char c)) s))
      (to_url (\<lambda>_. [1, 2]) (map (\<lambda>b. char_of (unat b))) pinned_config) = Some info \<and>
    api_connect (\<lambda>_. Some [9]) None (fcast_device_new info) = (Inr d, fd) \<and> dv_fingerprint d = Some [9]"
proof -
  have ok: "network_config_ok pinned_config"
    by (simp add: pinned_config_def sample_config_def network_config_ok_def fcast_service_ok_def in_srange_def sorted_map_def)
  have b64: "\<forall>bs :: bytes. Some (map (\<lambda>c. word_of_nat (of_char c)) (map (\<lambda>b. char_of (unat b)) bs)) = Some bs"
    by (simp add: comp_def)
  have addr: "parse_std_addr ''10.0.0.2'' = Some (StdV4 [10, 0, 0, 2])" by code_simp
  have f: "List.find (\<lambda>service. svc_kind service = 0) (nc_services pinned_config) = Some \<lparr> svc_port = 46899, svc_kind = 0 \<rparr>"
    by (simp add: pinned_config_def sample_config_def)
  have a: "those (map (\<lambda>a. map_option ip_addr_of_std (parse_std_addr a)) (nc_addresses pinned_config)) = Some [IpV4 10 0 0 2]"
    by (simp add: pinned_config_def sample_config_def addr)
  have t: "nc_txt pinned_config = Some [(''fp'', ''abcd'')]" by (simp add: pinned_config_def)
  show ?thesis
    using published_fingerprint_is_pinned [OF ok b64 _ f a _ t, where parse = "\<lambda>_. Some (network_config_ser pinned_config)"
        and print = "\<lambda>_. [1, 2]" and record_text = "''abcd''" and unbase = "\<lambda>_. Some [9]" and fp = "[9]" and app_info = None]
    by auto
qed

section \<open>What version 4 drops\<close>

fun bare_item :: "device_queue_item \<Rightarrow> device_queue_item" where
  "bare_item (QiUrl url ct _ _) = QiUrl url ct None None"
| "bare_item (QiFCompanion ct src _) = QiFCompanion ct src None"

lemma bare_item_simps [simp]:
  "queue_item_url env (bare_item item) d = queue_item_url env item d"
  "queue_item_content_type (bare_item item) = queue_item_content_type item"
  by (cases item; simp add: queue_item_url_def)+

lemma wrap_items_bare [simp]: "wrap_items env (map bare_item items) d = wrap_items env items d"
  by (induction items arbitrary: d) (auto split: option.splits prod.splits)

definition play_of :: "load_command \<Rightarrow> string \<Rightarrow> play_message" where
  "play_of ld url =
     \<lparr> pm_container = ld_content_type ld, pm_url = Some url, pm_content = None,
       pm_time = Some (ld_resume_position ld), pm_volume = ld_volume ld, pm_speed = ld_speed ld,
       pm_headers = ld_headers ld, pm_metadata = meta_to_fcast_meta (ld_metadata ld) \<rparr>"

lemma load_v4_bare [simp]: "load_v4 lib (ld\<lparr>ld_headers := h, ld_metadata := m\<rparr>) url = load_v4 lib ld url"
  by (simp add: load_v4_def)

text \<open>
  Version 4 drops the request headers and the metadata of a load, and those of every queue item,
  without an error: the worker does what it does for a request that never had them. A version 3 load of
  the same request sends both.
\<close>

theorem version_4_drops_headers:
  assumes "dv_session_version (cn_device c) = 4" and "dv_session_version (cn_device c3) = 3"
    and "ld_type ld = LoadUrl url"
  shows "handle_command env (CmdLoad ld) c = handle_command env (CmdLoad (ld\<lparr>ld_headers := None, ld_metadata := None\<rparr>)) c \<and>
    handle_command env (CmdLoadQueue items start_index) c =
      handle_command env (CmdLoadQueue (map bare_item items) start_index) c \<and>
    handle_command env (CmdQueueAdd item position) c = handle_command env (CmdQueueAdd (bare_item item) position) c \<and>
    (\<exists>msg c'. handle_command env (CmdLoad ld) c3 = ([sdk_send (env_lib env) Op_Play (play_message_ser msg)], c', Go) \<and>
       pm_headers msg = ld_headers ld \<and> pm_metadata msg = meta_to_fcast_meta (ld_metadata ld))"
proof (intro conjI)
  show "handle_command env (CmdLoad ld) c = handle_command env (CmdLoad (ld\<lparr>ld_headers := None, ld_metadata := None\<rparr>)) c"
    using assms(1,3) by (simp add: handle_command_def Let_def sdk_load_def)
  show "handle_command env (CmdLoadQueue items start_index) c =
      handle_command env (CmdLoadQueue (map bare_item items) start_index) c"
    by (simp add: handle_command_def Let_def sdk_load_queue_def)
  show "handle_command env (CmdQueueAdd item position) c = handle_command env (CmdQueueAdd (bare_item item) position) c"
    by (simp add: handle_command_def Let_def sdk_queue_add_def split: option.splits)
  show "\<exists>msg c'. handle_command env (CmdLoad ld) c3 = ([sdk_send (env_lib env) Op_Play (play_message_ser msg)], c', Go) \<and>
       pm_headers msg = ld_headers ld \<and> pm_metadata msg = meta_to_fcast_meta (ld_metadata ld)"
    using assms(2,3) by (intro exI [of _ "play_of ld url"]) (simp add: handle_command_def Let_def sdk_load_def load_v3_def play_of_def)
qed

lemma version_4_drops_headers_witness:
  "let ld = sample_load\<lparr>ld_headers := Some [(''cookie'', ''x'')]\<rparr>; c = connection_new (sample_device 4 None) in
   handle_command sample_env (CmdLoad ld) c = handle_command sample_env (CmdLoad sample_load) c"
  using version_4_drops_headers [of "connection_new (sample_device 4 None)" "connection_new (sample_device 3 None)"
      "sample_load\<lparr>ld_headers := Some [(''cookie'', ''x'')]\<rparr>" "''http://home/film''" sample_env]
  by (simp add: connection_new_def sample_device_def inner_device_new_def sample_load_def)

end
