(* ===== verification/Track_Ops.thy ===== *)
theory Track_Ops
  imports Playback_Machine
begin

text \<open>
  The queue of track changes of crates/receiver-core/src/player.rs (\<open>TrackOps\<close>): which stream selection or
  subtitle flush the player sends to the pipeline next, and what settles the one in flight. The record has
  the struct's fields; a method with \<open>&mut self\<close> gives the new queue. A sequence number is what
  \<open>gst::Seqnum::next\<close> drew.
\<close>

type_synonym seqnum = u32
type_synonym stream_id = string

datatype track_kind = KindVideo | KindAudio | KindSubtitle

record track_selection =
  ts_video :: "stream_id option"
  ts_audio :: "stream_id option"
  ts_subtitle :: "stream_id option"

definition selection_default :: track_selection where
  "selection_default = \<lparr> ts_video = None, ts_audio = None, ts_subtitle = None \<rparr>"

datatype track_op_command = SelectStreams track_selection | RefreshSeek

record track_op_ctx =
  tx_quiet :: bool
  tx_paused :: bool
  tx_applied :: track_selection

record track_ops =
  to_pending :: "track_selection option"
  to_selecting :: "(seqnum \<times> track_selection) option"
  to_superseded :: "(seqnum \<times> track_selection) list"
  to_refreshing :: "seqnum option"
  to_refresh_wanted :: bool
  to_refresh_suppressed :: bool

definition track_ops_new :: track_ops where
  "track_ops_new =
     \<lparr> to_pending = None, to_selecting = None, to_superseded = [], to_refreshing = None,
       to_refresh_wanted = False, to_refresh_suppressed = False \<rparr>"

definition reset :: "track_ops \<Rightarrow> track_ops" where
  "reset _ = track_ops_new"

definition invalidate_in_flight :: "track_ops \<Rightarrow> track_ops" where
  "invalidate_in_flight ops = ops\<lparr>to_selecting := None, to_superseded := [], to_refreshing := None\<rparr>"

definition set_slot :: "track_kind \<Rightarrow> stream_id option \<Rightarrow> track_selection \<Rightarrow> track_selection" where
  "set_slot kind sid sel =
     (case kind of
        KindVideo \<Rightarrow> sel\<lparr>ts_video := sid\<rparr>
      | KindAudio \<Rightarrow> sel\<lparr>ts_audio := sid\<rparr>
      | KindSubtitle \<Rightarrow> sel\<lparr>ts_subtitle := sid\<rparr>)"

definition request :: "track_kind \<Rightarrow> stream_id option \<Rightarrow> track_selection \<Rightarrow> track_ops \<Rightarrow> track_ops" where
  "request kind sid applied ops =
     (let desired = (case to_pending ops of Some d \<Rightarrow> d | None \<Rightarrow> applied) in
      ops\<lparr>to_refresh_suppressed := False, to_pending := Some (set_slot kind sid desired)\<rparr>)"

definition suppress_refresh :: "track_ops \<Rightarrow> track_ops" where
  "suppress_refresh ops = ops\<lparr>to_refresh_suppressed := True\<rparr>"

text \<open>Which switches are worth a flush, and which never get one.\<close>

definition switching_to_track :: "track_selection \<Rightarrow> track_selection \<Rightarrow> bool" where
  "switching_to_track desired applied \<longleftrightarrow>
     (ts_subtitle desired \<noteq> ts_subtitle applied \<and> ts_subtitle desired \<noteq> None) \<or>
     (ts_audio desired \<noteq> ts_audio applied \<and> ts_audio desired \<noteq> None)"

definition disabling :: "track_selection \<Rightarrow> track_selection \<Rightarrow> bool" where
  "disabling desired applied \<longleftrightarrow>
     (ts_audio applied \<noteq> None \<and> ts_audio desired = None) \<or>
     (ts_video applied \<noteq> None \<and> ts_video desired = None) \<or>
     (ts_subtitle applied \<noteq> None \<and> ts_subtitle desired = None)"

definition pump :: "track_op_ctx \<Rightarrow> track_ops \<Rightarrow> track_op_command option \<times> track_ops" where
  "pump ctx ops =
     (if \<not> tx_quiet ctx then (None, ops)
      else if to_refreshing ops \<noteq> None then (None, ops)
      else if to_selecting ops \<noteq> None \<and> \<not> tx_paused ctx then (None, ops)
      else
        let ops1 = ops\<lparr>to_pending := None\<rparr>;
            flush = (if to_refresh_wanted ops1 then (Some RefreshSeek, ops1\<lparr>to_refresh_wanted := False\<rparr>)
                     else (None, ops1))
        in case to_pending ops of
             None \<Rightarrow> flush
           | Some desired \<Rightarrow>
               if desired = tx_applied ctx then flush
               else
                 (Some (SelectStreams desired),
                  ops1\<lparr>to_refresh_wanted :=
                    switching_to_track desired (tx_applied ctx) \<and> \<not> disabling desired (tx_applied ctx) \<and>
                    \<not> to_refresh_suppressed ops1\<rparr>))"

definition selection_dispatched :: "seqnum \<Rightarrow> track_selection \<Rightarrow> track_ops \<Rightarrow> track_ops" where
  "selection_dispatched seqnum desired ops =
     (case to_selecting ops of
        None \<Rightarrow> ops\<lparr>to_selecting := Some (seqnum, desired)\<rparr>
      | Some old \<Rightarrow> ops\<lparr>to_selecting := Some (seqnum, desired), to_superseded := to_superseded ops @ [old]\<rparr>)"

definition refresh_dispatched :: "seqnum \<Rightarrow> track_ops \<Rightarrow> track_ops" where
  "refresh_dispatched seqnum ops = ops\<lparr>to_refreshing := Some seqnum\<rparr>"

definition selection_confirmed :: "seqnum \<Rightarrow> track_selection \<Rightarrow> track_ops \<Rightarrow> track_ops" where
  "selection_confirmed seqnum applied ops =
     (case to_selecting ops of
        None \<Rightarrow> ops
      | Some (expected, desired) \<Rightarrow>
          if expected = seqnum \<or> desired = applied then ops\<lparr>to_selecting := None, to_superseded := []\<rparr>
          else if \<exists>(sn, sel) \<in> set (to_superseded ops). sn = seqnum \<or> sel = applied then ops
          else ops\<lparr>to_selecting := None,
                 to_pending := (case to_pending ops of None \<Rightarrow> Some desired | Some d \<Rightarrow> Some d)\<rparr>)"

definition refresh_done :: "track_ops \<Rightarrow> bool \<times> track_ops" where
  "refresh_done ops = (to_refreshing ops \<noteq> None, ops\<lparr>to_refreshing := None\<rparr>)"

definition refresh_failed :: "seqnum \<Rightarrow> track_ops \<Rightarrow> track_ops" where
  "refresh_failed seqnum ops =
     (if to_refreshing ops = Some seqnum then ops\<lparr>to_refreshing := None\<rparr> else ops)"

definition cancel_refresh :: "track_ops \<Rightarrow> track_ops" where
  "cancel_refresh ops = ops\<lparr>to_refresh_wanted := False\<rparr>"

definition has_dispatchable_work :: "track_ops \<Rightarrow> bool" where
  "has_dispatchable_work ops \<longleftrightarrow> to_pending ops \<noteq> None \<or> to_refresh_wanted ops"

section \<open>What the queue does, on each branch\<close>

text \<open>Every operation the queue decides on uses up work: a loop that pumps it until none is left ends.\<close>

definition work_left :: "track_ops \<Rightarrow> nat" where
  "work_left ops = (if to_pending ops = None then 0 else 2) + (if to_refresh_wanted ops then 1 else 0)"

lemma pump_uses_work: "pump ctx ops = (Some cmd, ops') \<Longrightarrow> work_left ops' < work_left ops"
  by (auto simp: pump_def work_left_def Let_def split: if_splits option.splits)

lemma pump_Some:
  assumes "pump ctx ops = (Some cmd, ops')"
  shows "to_pending ops' = None \<and> to_selecting ops' = to_selecting ops \<and> to_superseded ops' = to_superseded ops \<and>
    to_refreshing ops' = None \<and> to_refreshing ops = None \<and> tx_quiet ctx \<and>
    (to_selecting ops \<noteq> None \<longrightarrow> tx_paused ctx) \<and>
    (case cmd of
       SelectStreams d \<Rightarrow> to_pending ops = Some d \<and> d \<noteq> tx_applied ctx
     | RefreshSeek \<Rightarrow> to_refresh_wanted ops \<and> \<not> to_refresh_wanted ops' \<and>
         to_pending ops \<in> {None, Some (tx_applied ctx)})"
  using assms by (auto simp: pump_def Let_def split: if_splits option.splits)

lemma pump_None:
  assumes "pump ctx ops = (None, ops')"
  shows "ops' = ops \<or> (ops' = ops\<lparr>to_pending := None\<rparr> \<and> to_pending ops = Some (tx_applied ctx))"
  using assms by (auto simp: pump_def Let_def split: if_splits option.splits)

end
