(* ===== verification/Player.thy ===== *)
theory Player
  imports Floats Track_Ops
begin

text \<open>
  The player of crates/receiver-core/src/player.rs: it turns requests of the application and events of the
  pipeline into jobs for \<open>FcastPlaybin\<close>, over the playback machine and the queue of track changes. The
  record has the fields of \<open>Player\<close>; of \<open>FcastPlaybin\<close> it holds what its calls read back: the volume, the
  generation and the subtitle id handed out last. What the pipeline answers (an asynchronous change, a
  refused selection, its duration and seekability, the tags of a stream) is an argument. An operation
  gives its result, the calls it makes on the pipeline in order and the new player; \<open>None\<close> is a panic of
  the machine.
\<close>

section \<open>Streams\<close>

datatype stream_type = TypeVideo | TypeAudio | TypeText

record stream_tags =
  tg_language_name :: "string option"
  tg_language_code :: "string option"
  tg_title :: "string option"

record gst_stream =
  gs_id :: "stream_id option"
  gs_types :: "stream_type set"

record stream =
  st_inner :: gst_stream
  st_title :: string

record stream_collection =
  co_id :: nat
  co_streams :: "gst_stream list"

definition stream_title :: "(string \<Rightarrow> string option) \<Rightarrow> stream_tags option \<Rightarrow> string" where
  "stream_title language_name tags =
     (let res =
        (case tags of
           None \<Rightarrow> ''''
         | Some t \<Rightarrow>
             let lang =
               (case (tg_language_name t, tg_language_code t) of
                  (Some language, _) \<Rightarrow> language
                | (None, Some code) \<Rightarrow> (case language_name code of Some l \<Rightarrow> l | None \<Rightarrow> code)
                | (None, None) \<Rightarrow> '''')
             in case tg_title t of
                  None \<Rightarrow> lang
                | Some title \<Rightarrow>
                    if title = '''' then lang
                    else if lang = '''' then title else lang @ '' - '' @ title)
      in if res = '''' then ''Unknown'' else res)"

fun find_stream_from :: "nat \<Rightarrow> stream_id \<Rightarrow> stream list \<Rightarrow> nat option" where
  "find_stream_from _ _ [] = None"
| "find_stream_from idx sid (s # streams) =
     (if gs_id (st_inner s) = Some sid then Some idx else find_stream_from (Suc idx) sid streams)"

definition find_stream_idx :: "stream_id \<Rightarrow> stream list \<Rightarrow> u32 option" where
  "find_stream_idx sid streams = map_option word_of_nat (find_stream_from 0 sid streams)"

definition first_sid_of :: "stream_type \<Rightarrow> stream list \<Rightarrow> stream_id option" where
  "first_sid_of ty streams =
     Option.bind (List.find (\<lambda>s. ty \<in> gs_types (st_inner s)) streams) (\<lambda>s. gs_id (st_inner s))"

section \<open>The pipeline as the player sees it\<close>

datatype media_input = InputUri string | InputElement nat
datatype start_point = StartSeek clock_time f64 | StartLive

record restore_point =
  rp_position :: clock_time
  rp_rate :: f32

datatype playbin_call =
    LoadAsync media_input start_point u64
  | SeekAsync seek
  | SetStateAsync gst_state
  | SelectStreamsAsync "stream_id list" seqnum
  | RefreshSeekAsync seqnum
  | SetVolumeTo f64
  | RenotifyVolume
  | StopAsync
  | ShutdownAsync nat
  | RecoverClockAsync
  | PollTextPolicy
  | AttachSubtitleAsync u64 string
  | DetachSubtitleAsync u64
  | WatchTags nat
  | UnwatchTags nat

record playbin =
  pb_volume :: f64
  pb_next_generation :: u64
  pb_next_external_id :: u64

text \<open>\<open>load_async\<close> and \<open>allocate_subtitle_id\<close> hand out numbers; \<open>set_volume\<close> clamps and sets the property.\<close>

definition allocate_generation :: "playbin \<Rightarrow> u64 \<times> playbin" where
  "allocate_generation pb =
     (pb_next_generation pb + 1, pb\<lparr>pb_next_generation := pb_next_generation pb + 1\<rparr>)"

definition allocate_subtitle_id :: "playbin \<Rightarrow> u64 \<times> playbin" where
  "allocate_subtitle_id pb = (pb_next_external_id pb, pb\<lparr>pb_next_external_id := pb_next_external_id pb + 1\<rparr>)"

definition playbin_set_volume :: "f64 \<Rightarrow> playbin \<Rightarrow> playbin" where
  "playbin_set_volume v pb = pb\<lparr>pb_volume := f64_clamp 0 F64_ONE v\<rparr>"

text \<open>
  \<open>(x - y).abs() < 1e-9\<close>. Doubles are whole multiples of \<open>2 ^ -1074\<close>; the difference is rounded to the
  nearest double, so it is below \<open>1e-9\<close> when it is at most halfway between \<open>1e-9\<close> and its predecessor,
  which is the even one of the two.
\<close>

definition NANO_BITS :: f64 where "NANO_BITS = 0x3E112E0BE826D695"

definition volumes_equal :: "f64 \<Rightarrow> f64 \<Rightarrow> bool" where
  "volumes_equal x y \<longleftrightarrow>
     f64_is_finite x \<and> f64_is_finite y \<and>
     2 * \<bar>f64_units x - f64_units y\<bar> \<le> f64_units NANO_BITS + f64_units (NANO_BITS - 1)"

section \<open>The player\<close>

datatype player_state = PlPaused | PlPlaying | PlBuffering | PlStopped

record player =
  pl_playbin :: playbin
  pl_volume_confirm_in_flight :: bool
  pl_desired_transport :: running_state
  pl_expected_generation :: "u64 option"
  pl_streams :: "stream list"
  pl_selected :: track_selection
  pl_seekable :: bool
  pl_seekable_known :: bool
  pl_pending_volume :: "f32 option"
  pl_machine :: state_machine
  pl_track_ops :: track_ops
  pl_collection :: "stream_collection option"
  pl_collection_notify :: "nat option"

definition player_new :: "playbin \<Rightarrow> playbin_call list \<times> player" where
  "player_new pb =
     ([SetStateAsync Ready],
      \<lparr> pl_playbin = pb, pl_volume_confirm_in_flight = False, pl_desired_transport = Rs_Playing,
        pl_expected_generation = None, pl_streams = [], pl_selected = selection_default,
        pl_seekable = False, pl_seekable_known = False, pl_pending_volume = None,
        pl_machine = sm_new, pl_track_ops = track_ops_new, pl_collection = None,
        pl_collection_notify = None \<rparr>)"

subsection \<open>Volume\<close>

definition set_volume :: "f32 \<Rightarrow> player \<Rightarrow> playbin_call list \<times> player" where
  "set_volume volume p =
     (if pl_volume_confirm_in_flight p then ([], p\<lparr>pl_pending_volume := Some volume\<rparr>)
      else
        let tgt = f64_clamp 0 F64_ONE (f64_of_f32 volume) in
        if volumes_equal (pb_volume (pl_playbin p)) tgt then ([RenotifyVolume], p)
        else ([SetVolumeTo tgt],
              p\<lparr>pl_playbin := playbin_set_volume tgt (pl_playbin p), pl_volume_confirm_in_flight := True\<rparr>))"

definition volume_changed :: "player \<Rightarrow> playbin_call list \<times> player" where
  "volume_changed p =
     (let p1 = p\<lparr>pl_volume_confirm_in_flight := False, pl_pending_volume := None\<rparr> in
      case pl_pending_volume p of
        Some volume \<Rightarrow> set_volume volume p1
      | None \<Rightarrow> ([], p1))"

subsection \<open>Loading and stopping\<close>

definition clear_player_state :: "player \<Rightarrow> playbin_call list \<times> player" where
  "clear_player_state p =
     (let p1 = p\<lparr>pl_streams := [], pl_selected := selection_default, pl_seekable := False,
                pl_seekable_known := False, pl_volume_confirm_in_flight := False,
                pl_expected_generation := None, pl_pending_volume := None\<rparr>;
          (calls, p2) = (case pl_pending_volume p of Some volume \<Rightarrow> set_volume volume p1 | None \<Rightarrow> ([], p1))
      in (calls, p2\<lparr>pl_track_ops := reset (pl_track_ops p2)\<rparr>))"

definition set_source :: "media_input \<Rightarrow> start_point \<Rightarrow> player \<Rightarrow> playbin_call list \<times> player" where
  "set_source src start p =
     (let (calls, p1) = clear_player_state p;
          (generation, pb) = allocate_generation (pl_playbin p1)
      in (calls @ [LoadAsync src start generation],
          p1\<lparr>pl_playbin := pb, pl_expected_generation := Some generation,
             pl_machine := begin_load (clear_state (pl_machine p1))\<rparr>))"

definition load :: "media_input \<Rightarrow> restore_point option \<Rightarrow> player \<Rightarrow> playbin_call list \<times> player" where
  "load src start p =
     set_source src
       (case start of
          Some rp \<Rightarrow> StartSeek (rp_position rp) (f64_of_f32 (rp_rate rp))
        | None \<Rightarrow> StartLive)
       (p\<lparr>pl_desired_transport := Rs_Playing\<rparr>)"

definition cleanup_stream_collection :: "player \<Rightarrow> playbin_call list \<times> player" where
  "cleanup_stream_collection p =
     (case pl_collection p of
        None \<Rightarrow> ([], p)
      | Some _ \<Rightarrow>
          (case pl_collection_notify p of
             None \<Rightarrow> ([], p\<lparr>pl_collection := None\<rparr>)
           | Some sig_id \<Rightarrow> ([UnwatchTags sig_id], p\<lparr>pl_collection := None, pl_collection_notify := None\<rparr>)))"

definition go_to_stopped_state :: "nat option \<Rightarrow> player \<Rightarrow> playbin_call list \<times> player" where
  "go_to_stopped_state null p =
     (let (calls, p1) = cleanup_stream_collection (p\<lparr>pl_desired_transport := Rs_Playing\<rparr>);
          stop = (case null of
            Some feedback \<Rightarrow> [ShutdownAsync feedback]
          | None \<Rightarrow> if current_state (pl_machine p1) \<noteq> Null then [StopAsync] else []);
          (calls', p2) = clear_player_state (p1\<lparr>pl_machine := clear_state (pl_machine p1)\<rparr>)
      in (calls @ stop @ calls', p2))"

definition stop :: "player \<Rightarrow> playbin_call list \<times> player" where
  "stop = go_to_stopped_state None"

definition shutdown :: "nat \<Rightarrow> player \<Rightarrow> playbin_call list \<times> player" where
  "shutdown feedback = go_to_stopped_state (Some feedback)"

definition end_of_stream_reached :: "player \<Rightarrow> playbin_call list \<times> player" where
  "end_of_stream_reached = stop"

definition is_event_current :: "u64 \<Rightarrow> player \<Rightarrow> bool" where
  "is_event_current generation p \<longleftrightarrow> pl_expected_generation p = Some generation"


subsection \<open>Streams\<close>

definition streams_of :: "(string \<Rightarrow> string option) \<Rightarrow> (gst_stream \<Rightarrow> stream_tags option) \<Rightarrow> gst_stream list \<Rightarrow> stream list" where
  "streams_of language_name tags inners =
     map (\<lambda>s. \<lparr> st_inner = s, st_title = stream_title language_name (tags s) \<rparr>) inners"

text \<open>A slot keeps a stream that is still advertised, and takes the first of its type otherwise.\<close>

definition kept_slot :: "stream_type \<Rightarrow> stream list \<Rightarrow> stream_id option \<Rightarrow> stream_id option" where
  "kept_slot ty streams held =
     (case held of
        Some sid \<Rightarrow> if find_stream_idx sid streams \<noteq> None then Some sid else first_sid_of ty streams
      | None \<Rightarrow> first_sid_of ty streams)"

definition handle_stream_collection ::
    "(string \<Rightarrow> string option) \<Rightarrow> (gst_stream \<Rightarrow> stream_tags option) \<Rightarrow> stream_collection \<Rightarrow> player \<Rightarrow>
     playbin_call list \<times> player"
where
  "handle_stream_collection language_name tags collection p =
     (let (calls, p1) = cleanup_stream_collection p;
          streams = streams_of language_name tags (co_streams collection);
          sel = pl_selected p1
      in (calls @ [WatchTags (co_id collection)],
          p1\<lparr>pl_collection_notify := Some (co_id collection), pl_streams := streams,
             pl_selected :=
               \<lparr> ts_video = kept_slot TypeVideo streams (ts_video sel),
                 ts_audio = kept_slot TypeAudio streams (ts_audio sel),
                 ts_subtitle = kept_slot TypeText streams (ts_subtitle sel) \<rparr>,
             pl_collection := Some collection,
             pl_track_ops := invalidate_in_flight (pl_track_ops p1)\<rparr>))"

definition update_stream_properties ::
    "(string \<Rightarrow> string option) \<Rightarrow> (gst_stream \<Rightarrow> stream_tags option) \<Rightarrow> player \<Rightarrow> bool \<times> player" where
  "update_stream_properties language_name tags p =
     (let title = (\<lambda>s. stream_title language_name (tags (st_inner s))) in
      (\<exists>s \<in> set (pl_streams p). title s \<noteq> st_title s,
       p\<lparr>pl_streams := map (\<lambda>s. if title s \<noteq> st_title s then s\<lparr>st_title := title s\<rparr> else s) (pl_streams p)\<rparr>))"

definition stream_idx_by_id :: "stream_id \<Rightarrow> player \<Rightarrow> u32 option" where
  "stream_idx_by_id sid p = find_stream_idx sid (pl_streams p)"

definition stream_id_of :: "u32 \<Rightarrow> player \<Rightarrow> stream_id option" where
  "stream_id_of idx p =
     (if unat idx < length (pl_streams p) then gs_id (st_inner (pl_streams p ! unat idx)) else None)"

definition is_stream_of_type :: "u32 \<Rightarrow> stream_type \<Rightarrow> player \<Rightarrow> bool" where
  "is_stream_of_type idx ty p \<longleftrightarrow>
     unat idx < length (pl_streams p) \<and> ty \<in> gs_types (st_inner (pl_streams p ! unat idx))"

definition have_media_info :: "player \<Rightarrow> bool" where
  "have_media_info p \<longleftrightarrow> pl_streams p \<noteq> []"

definition update_media_info :: "bool option \<Rightarrow> clock_time option \<Rightarrow> player \<Rightarrow> player" where
  "update_media_info query dur p =
     (case query of
        None \<Rightarrow> p
      | Some seekable \<Rightarrow> p\<lparr>pl_seekable := (seekable \<and> dur \<noteq> None), pl_seekable_known := True\<rparr>)"

definition attach_external_subtitle :: "string \<Rightarrow> player \<Rightarrow> u64 \<times> playbin_call list \<times> player" where
  "attach_external_subtitle url p =
     (let (i, pb) = allocate_subtitle_id (pl_playbin p)
      in (i, [AttachSubtitleAsync i url], p\<lparr>pl_playbin := pb\<rparr>))"

definition detach_external_subtitle :: "u64 \<Rightarrow> playbin_call list" where
  "detach_external_subtitle i = [DetachSubtitleAsync i]"

text \<open>\<open>sids\<close> is what \<open>subtitle_stream_ids\<close> answers for the input.\<close>

definition external_stream_sid_of :: "stream_id list \<Rightarrow> player \<Rightarrow> stream_id option" where
  "external_stream_sid_of sids p = List.find (\<lambda>sid. find_stream_idx sid (pl_streams p) \<noteq> None) sids"

subsection \<open>Track changes\<close>

text \<open>
  What the pipeline answers in one round of the pump: whether an asynchronous change is in progress, the
  sequence number drawn, and whether \<open>select_streams\<close> takes the event.
\<close>

record pump_answer =
  an_busy :: bool
  an_seqnum :: seqnum
  an_accepts :: bool

definition track_op_ctx_of :: "pump_answer \<Rightarrow> player \<Rightarrow> track_op_ctx" where
  "track_op_ctx_of ans p =
     (let (is_running, paused) =
        (case running (pl_machine p) of Some state \<Rightarrow> (True, state = Rs_Paused) | None \<Rightarrow> (False, False))
      in \<lparr> tx_quiet = is_running \<and> \<not> an_busy ans, tx_paused = paused, tx_applied = pl_selected p \<rparr>)"

text \<open>No branch of \<open>select_streams\<close> gives an error, so its result is whether the event was sent.\<close>

definition sent_selection :: "track_selection \<Rightarrow> track_selection" where
  "sent_selection sel =
     (if ts_video sel = None \<and> ts_subtitle sel \<noteq> None then sel\<lparr>ts_subtitle := None\<rparr> else sel)"

definition selection_ids :: "stream list \<Rightarrow> track_selection \<Rightarrow> stream_id list" where
  "selection_ids streams sel =
     filter (\<lambda>sid. find_stream_idx sid streams \<noteq> None)
       (List.map_filter (\<lambda>sid. sid) [ts_video sel, ts_audio sel, ts_subtitle sel])"

definition select_streams :: "pump_answer \<Rightarrow> track_selection \<Rightarrow> player \<Rightarrow> bool \<times> playbin_call list \<times> player" where
  "select_streams ans selection p =
     (let sel = sent_selection selection; ids = selection_ids (pl_streams p) sel in
      if ids = [] then (False, [], p)
      else if \<not> an_accepts ans then (False, [], p)
      else (True, [SelectStreamsAsync ids (an_seqnum ans)], p\<lparr>pl_selected := sel\<rparr>))"

lemma select_streams_ops:
  "select_streams ans sel p = (sent, calls, p') \<Longrightarrow> pl_track_ops p' = pl_track_ops p"
  by (auto simp: select_streams_def Let_def split: if_splits)

definition dispatch :: "pump_answer \<Rightarrow> track_op_command \<Rightarrow> player \<Rightarrow> playbin_call list \<times> player" where
  "dispatch ans cmd p =
     (case cmd of
        SelectStreams sel \<Rightarrow>
          (case select_streams ans sel p of
             (sent, calls, p1) \<Rightarrow>
               (calls,
                if sent then
                  p1\<lparr>pl_track_ops := selection_dispatched (an_seqnum ans) (pl_selected p1) (pl_track_ops p1)\<rparr>
                else p1\<lparr>pl_track_ops := cancel_refresh (pl_track_ops p1)\<rparr>))
      | RefreshSeek \<Rightarrow>
          if \<not> pl_seekable p then ([], p)
          else ([RefreshSeekAsync (an_seqnum ans)],
                p\<lparr>pl_track_ops := refresh_dispatched (an_seqnum ans) (pl_track_ops p)\<rparr>))"

lemma dispatch_uses_no_work: "dispatch ans cmd p = (calls, p') \<Longrightarrow> work_left (pl_track_ops p') \<le> work_left (pl_track_ops p)"
  by (auto simp: dispatch_def work_left_def selection_dispatched_def cancel_refresh_def refresh_dispatched_def
      split: track_op_command.splits prod.splits if_splits option.splits dest!: select_streams_ops)

lemma round_uses_work:
  assumes "pump ctx (pl_track_ops p) = (Some cmd, ops)" and "dispatch ans cmd (p\<lparr>pl_track_ops := ops\<rparr>) = (calls, p')"
  shows "work_left (pl_track_ops p') < work_left (pl_track_ops p)"
  using pump_uses_work [OF assms(1)] dispatch_uses_no_work [OF assms(2)] by simp

function pump_loop :: "(nat \<Rightarrow> pump_answer) \<Rightarrow> nat \<Rightarrow> player \<Rightarrow> playbin_call list \<times> player" where
  "pump_loop answers k p =
     (if \<not> has_dispatchable_work (pl_track_ops p) then ([], p)
      else
        (case pump (track_op_ctx_of (answers k) p) (pl_track_ops p) of
           (None, ops) \<Rightarrow> ([], p\<lparr>pl_track_ops := ops\<rparr>)
         | (Some cmd, ops) \<Rightarrow>
             (case dispatch (answers k) cmd (p\<lparr>pl_track_ops := ops\<rparr>) of
                (calls, p1) \<Rightarrow>
                  (case pump_loop answers (Suc k) p1 of (calls', p2) \<Rightarrow> (calls @ calls', p2)))))"
  by pat_completeness auto

termination
  by (relation "measure (\<lambda>(answers, k, p). work_left (pl_track_ops p))") (auto intro: round_uses_work [OF sym sym])

declare pump_loop.simps [simp del]

definition pump_track_ops :: "(nat \<Rightarrow> pump_answer) \<Rightarrow> player \<Rightarrow> playbin_call list \<times> player" where
  "pump_track_ops answers p = pump_loop answers 0 p"

text \<open>After a step with its own calls: the pump, and its calls behind them.\<close>

definition then_pump :: "(nat \<Rightarrow> pump_answer) \<Rightarrow> playbin_call list \<times> player \<Rightarrow> playbin_call list \<times> player" where
  "then_pump answers r = (case r of (calls, p) \<Rightarrow>
     (case pump_track_ops answers p of (calls', p') \<Rightarrow> (calls @ calls', p')))"

definition request_track_change_impl ::
    "(nat \<Rightarrow> pump_answer) \<Rightarrow> track_kind \<Rightarrow> stream_id option \<Rightarrow> bool \<Rightarrow> player \<Rightarrow> bool \<times> playbin_call list \<times> player"
where
  "request_track_change_impl answers kind sid suppress p =
     (let applied = pl_selected p;
          stale_cue = (kind = KindSubtitle \<and> ts_subtitle applied \<noteq> None \<and> sid \<noteq> ts_subtitle applied);
          ops = request kind sid applied (pl_track_ops p);
          ops = (if suppress then suppress_refresh ops else ops)
      in (stale_cue, pump_track_ops answers (p\<lparr>pl_track_ops := ops\<rparr>)))"

definition request_track_change ::
    "(nat \<Rightarrow> pump_answer) \<Rightarrow> track_kind \<Rightarrow> stream_id option \<Rightarrow> player \<Rightarrow> bool \<times> playbin_call list \<times> player" where
  "request_track_change answers kind sid = request_track_change_impl answers kind sid False"

definition request_track_change_no_refresh ::
    "(nat \<Rightarrow> pump_answer) \<Rightarrow> track_kind \<Rightarrow> stream_id option \<Rightarrow> player \<Rightarrow> bool \<times> playbin_call list \<times> player" where
  "request_track_change_no_refresh answers kind sid = request_track_change_impl answers kind sid True"

definition poll_track_ops :: "(nat \<Rightarrow> pump_answer) \<Rightarrow> player \<Rightarrow> playbin_call list \<times> player" where
  "poll_track_ops answers p = pump_track_ops answers p"

definition async_done :: "(nat \<Rightarrow> pump_answer) \<Rightarrow> player \<Rightarrow> playbin_call list \<times> player" where
  "async_done answers p =
     then_pump answers ([PollTextPolicy], p\<lparr>pl_track_ops := snd (refresh_done (pl_track_ops p))\<rparr>)"

definition subtitle_refresh_failed :: "(nat \<Rightarrow> pump_answer) \<Rightarrow> seqnum \<Rightarrow> player \<Rightarrow> playbin_call list \<times> player" where
  "subtitle_refresh_failed answers seqnum p =
     pump_track_ops answers (p\<lparr>pl_track_ops := refresh_failed seqnum (pl_track_ops p)\<rparr>)"

definition streams_selected ::
    "(nat \<Rightarrow> pump_answer) \<Rightarrow> track_selection \<Rightarrow> seqnum \<Rightarrow> player \<Rightarrow> track_selection \<times> playbin_call list \<times> player"
where
  "streams_selected answers reported seqnum p =
     (let p1 = p\<lparr>pl_selected := reported, pl_track_ops := selection_confirmed seqnum reported (pl_track_ops p)\<rparr>;
          (calls, p2) = then_pump answers ([PollTextPolicy], p1)
      in (pl_selected p2, calls, p2))"

subsection \<open>Transport\<close>

text \<open>A step that goes through the machine; \<open>None\<close> is the machine's \<open>unreachable!()\<close>.\<close>

type_synonym 'a player_step = "('a \<times> playbin_call list \<times> player) option"

definition set_transport :: "running_state \<Rightarrow> player \<Rightarrow> unit player_step" where
  "set_transport rs p =
     map_option (\<lambda>(state, sm). ((), (case state of Some s \<Rightarrow> [SetStateAsync s] | None \<Rightarrow> []), p\<lparr>pl_machine := sm\<rparr>))
       (set_playback_state rs (pl_machine p))"

definition play :: "player \<Rightarrow> unit player_step" where
  "play p = set_transport Rs_Playing (p\<lparr>pl_desired_transport := Rs_Playing\<rparr>)"

definition pause :: "player \<Rightarrow> unit player_step" where
  "pause p = set_transport Rs_Paused (p\<lparr>pl_desired_transport := Rs_Paused\<rparr>)"

definition uri_loaded :: "player \<Rightarrow> unit player_step" where
  "uri_loaded p =
     (let desired = pl_desired_transport p in
      map_option (\<lambda>(state, sm).
          ((), (case state of
                  Some s \<Rightarrow> [SetStateAsync s]
                | None \<Rightarrow> if running sm \<noteq> Some desired then [SetStateAsync (running_state_into desired)] else []),
           p\<lparr>pl_machine := sm\<rparr>))
        (set_playback_state desired (pl_machine p)))"

definition request_state :: "gst_state \<Rightarrow> playbin_call list" where
  "request_state state = [SetStateAsync state]"

definition player_state_of :: "player \<Rightarrow> player_state" where
  "player_state_of p =
     (if is_stopped (pl_machine p) then PlStopped
      else case running (pl_machine p) of
             Some Rs_Paused \<Rightarrow> PlPaused
           | Some Rs_Playing \<Rightarrow> PlPlaying
           | None \<Rightarrow> PlBuffering)"

definition recover_clock :: "player \<Rightarrow> playbin_call list" where
  "recover_clock p = (if player_state_of p \<noteq> PlPlaying then [] else [RecoverClockAsync])"

definition player_seek :: "(f64 \<Rightarrow> f32) \<Rightarrow> seek \<Rightarrow> player \<Rightarrow> playbin_call list \<times> player" where
  "player_seek cast_rate sk p =
     (if \<exists>rate. s_rate sk = Some rate \<and> \<not> rate_is_safe rate then ([], p)
      else if pl_seekable p \<or> \<not> pl_seekable_known p then
        (case seek_internal cast_rate sk None (pl_machine p) of
           (sk', sm) \<Rightarrow>
             ((case sk' of Some s \<Rightarrow> [SeekAsync s] | None \<Rightarrow> []),
              p\<lparr>pl_track_ops := cancel_refresh (pl_track_ops p), pl_machine := sm\<rparr>))
      else ([], p))"

definition seek_to :: "(f64 \<Rightarrow> f32) \<Rightarrow> clock_time \<Rightarrow> player \<Rightarrow> playbin_call list \<times> player" where
  "seek_to cast_rate position = player_seek cast_rate \<lparr> s_position = Some position, s_rate = None \<rparr>"

definition set_rate :: "(f64 \<Rightarrow> f32) \<Rightarrow> f32 \<Rightarrow> player \<Rightarrow> playbin_call list \<times> player" where
  "set_rate cast_rate rate = player_seek cast_rate \<lparr> s_position = None, s_rate = Some rate \<rparr>"

definition player_queue_seek :: "seek \<Rightarrow> player \<Rightarrow> player" where
  "player_queue_seek sk p = p\<lparr>pl_machine := queue_seek sk (pl_machine p)\<rparr>"

definition player_seek_failed :: "player \<Rightarrow> playbin_call list \<times> player" where
  "player_seek_failed p =
     (case seek_failed (pl_machine p) of
        (state, sm) \<Rightarrow> ((case state of Some s \<Rightarrow> [SetStateAsync s] | None \<Rightarrow> []), p\<lparr>pl_machine := sm\<rparr>))"

definition set_rate_changed :: "f64 \<Rightarrow> player \<Rightarrow> player" where
  "set_rate_changed rate p = p\<lparr>pl_machine := (pl_machine p)\<lparr>sm_rate := rate\<rparr>\<rparr>"

definition set_is_live :: "bool \<Rightarrow> player \<Rightarrow> player" where
  "set_is_live live p = p\<lparr>pl_machine := (pl_machine p)\<lparr>is_live := live\<rparr>\<rparr>"

fun buffering_calls :: "buffering_state_result \<Rightarrow> bool \<times> playbin_call list" where
  "buffering_calls (Started state) = (False, [SetStateAsync state])"
| "buffering_calls StillBuffering = (False, [])"
| "buffering_calls (FinishedWithSeek sk) = (True, [SeekAsync sk])"
| "buffering_calls FinishedButWaitingSeek = (True, [])"
| "buffering_calls (Finished state) = (True, (case state of Some s \<Rightarrow> [SetStateAsync s] | None \<Rightarrow> []))"

definition player_buffering :: "(nat \<Rightarrow> pump_answer) \<Rightarrow> int \<Rightarrow> player \<Rightarrow> bool player_step" where
  "player_buffering answers percent p =
     map_option (\<lambda>(res, sm).
         case buffering_calls res of (done, calls) \<Rightarrow> (done, then_pump answers (calls, p\<lparr>pl_machine := sm\<rparr>)))
       (buffering percent (pl_machine p))"

fun state_change_calls :: "state_change_result \<Rightarrow> playback_state option \<times> playbin_call list" where
  "state_change_calls (NewPlaybackState s) = (Some s, [])"
| "state_change_calls (Seek sk) = (None, [SeekAsync sk])"
| "state_change_calls Waiting = (None, [])"
| "state_change_calls (ChangeState state) = (None, [SetStateAsync state])"

definition player_state_changed ::
    "gst_state \<Rightarrow> gst_state \<Rightarrow> gst_state \<Rightarrow> player \<Rightarrow> playback_state option player_step" where
  "player_state_changed old new pending p =
     map_option (\<lambda>(res, sm).
         case state_change_calls res of (announced, calls) \<Rightarrow>
           (announced, PollTextPolicy # calls, p\<lparr>pl_machine := sm\<rparr>))
       (state_changed old new pending (pl_machine p))"

end
