(* ===== verification/Player_Events.thy ===== *)
theory Player_Events
  imports Player
begin

text \<open>
  The events between \<open>FcastPlaybin\<close> and the player (crates/fcastplaybin/src/lib.rs, receiver-core/src/player.rs
  and application.rs): what the worker reports for a seek, how an event of the pipeline becomes one of the
  player, which of them belong to a load, and the whole interface of the player as one datatype of calls.
  An event of the pipeline is taken as GStreamer's message gives it; tags and errors keep what is read.
\<close>

section \<open>Events of the pipeline\<close>

datatype error_origin = MainOrigin | ExternalSubtitle u64 | StaleOrigin | UnknownOrigin

datatype resource_error = ResNotFound | ResNotAuthorized | ResOther
datatype stream_error =
    StrTypeNotFound | StrWrongType | StrCodecNotFound | StrDecode | StrDemux | StrFormat | StrOther

datatype glib_error = ResourceErr resource_error string | StreamErr stream_error string | OtherErr string

fun glib_message :: "glib_error \<Rightarrow> string" where
  "glib_message (ResourceErr _ m) = m"
| "glib_message (StreamErr _ m) = m"
| "glib_message (OtherErr m) = m"

datatype media_error_kind = ErrNotFound | ErrNotAuthorized | ErrUnsupportedFormat | ErrOther

definition from_glib_error :: "glib_error \<Rightarrow> media_error_kind" where
  "from_glib_error err =
     (case err of
        ResourceErr ResNotFound _ \<Rightarrow> ErrNotFound
      | ResourceErr ResNotAuthorized _ \<Rightarrow> ErrNotAuthorized
      | ResourceErr _ _ \<Rightarrow> ErrOther
      | StreamErr StrOther _ \<Rightarrow> ErrOther
      | StreamErr _ _ \<Rightarrow> ErrUnsupportedFormat
      | OtherErr _ \<Rightarrow> ErrOther)"

datatype playbin_event =
    PbEndOfStream
  | PbLoaded bool
  | PbTags stream_tags
  | PbVolumeChanged f64
  | PbStreamCollection stream_collection
  | PbAsyncDone
  | PbBuffering int
  | PbStateChanged gst_state gst_state gst_state
  | PbRequestState gst_state
  | PbQueueSeek seek
  | PbStreamsSelected track_selection seqnum
  | PbRefreshSeekFailed seqnum
  | PbRateChanged f64
  | PbSeekFailed
  | PbClockLost
  | PbError error_origin glib_error "string option"
  | PbWarning string

datatype player_event =
    EvEndOfStream
  | EvUriLoaded
  | EvTags stream_tags
  | EvVolumeChanged f64
  | EvStreamCollection stream_collection
  | EvAsyncDone
  | EvBuffering int
  | EvIsLive
  | EvStateChanged gst_state gst_state gst_state
  | EvRequestState gst_state
  | EvQueueSeek seek
  | EvStreamsSelected track_selection seqnum
  | EvSubtitleRefreshFailed seqnum
  | EvRateChanged f64
  | EvSeekFailed
  | EvClockLost
  | EvError error_origin media_error_kind string "string option"
  | EvWarning string
  | EvStreamTagsUpdated

definition relay_event :: "playbin_event \<Rightarrow> u64 \<Rightarrow> (player_event \<times> u64 option) list" where
  "relay_event event generation =
     (let send = (\<lambda>ev. (ev, Some generation)) in
      case event of
        PbEndOfStream \<Rightarrow> [send EvEndOfStream]
      | PbLoaded live \<Rightarrow> (if live then [send EvIsLive] else []) @ [send EvUriLoaded]
      | PbTags tags \<Rightarrow> [send (EvTags tags)]
      | PbVolumeChanged volume \<Rightarrow> [send (EvVolumeChanged volume)]
      | PbStreamCollection collection \<Rightarrow> [send (EvStreamCollection collection)]
      | PbAsyncDone \<Rightarrow> [send EvAsyncDone]
      | PbBuffering percent \<Rightarrow> [send (EvBuffering percent)]
      | PbStateChanged old current pending \<Rightarrow> [send (EvStateChanged old current pending)]
      | PbRequestState state \<Rightarrow> [send (EvRequestState state)]
      | PbQueueSeek sk \<Rightarrow> [send (EvQueueSeek sk)]
      | PbStreamsSelected sel seqnum \<Rightarrow> [send (EvStreamsSelected sel seqnum)]
      | PbRefreshSeekFailed seqnum \<Rightarrow> [send (EvSubtitleRefreshFailed seqnum)]
      | PbRateChanged rate \<Rightarrow> [send (EvRateChanged rate)]
      | PbSeekFailed \<Rightarrow> [send EvSeekFailed]
      | PbClockLost \<Rightarrow> [send EvClockLost]
      | PbError origin err failed_uri \<Rightarrow> [send (EvError origin (from_glib_error err) (glib_message err) failed_uri)]
      | PbWarning message \<Rightarrow> [send (EvWarning message)])"

text \<open>\<open>MissingPluginTracker\<close> in the message hook: whether a warning is swallowed.\<close>

record plugin_tracker =
  saw_real :: bool
  saw_ignorable :: bool

definition missing_plugin_is_ignorable :: "string list option \<Rightarrow> bool" where
  "missing_plugin_is_ignorable caps =
     (case caps of
        None \<Rightarrow> False
      | Some names \<Rightarrow> names \<noteq> [] \<and> (\<forall>n \<in> set names. take 5 n = ''meta/''))"

definition on_missing_plugin :: "string list option \<Rightarrow> plugin_tracker \<Rightarrow> plugin_tracker" where
  "on_missing_plugin caps t =
     (if missing_plugin_is_ignorable caps then t\<lparr>saw_ignorable := True\<rparr> else t\<lparr>saw_real := True\<rparr>)"

definition on_missing_plugin_warning :: "plugin_tracker \<Rightarrow> bool \<times> plugin_tracker" where
  "on_missing_plugin_warning t =
     (saw_ignorable t \<and> \<not> saw_real t, t\<lparr>saw_real := False, saw_ignorable := False\<rparr>)"

text \<open>
  The worker's seeks. The pipeline answers with its state, the position if it knows one, and whether it
  takes the seek; the second component is whether the worker drives it to PAUSED.
\<close>

definition F64_OF_F32_ONE :: f64 where "F64_OF_F32_ONE = f64_of_f32 0x3F800000"

definition run_seek_job ::
    "gst_state \<Rightarrow> gst_state \<Rightarrow> clock_time option \<Rightarrow> bool \<Rightarrow> seek \<Rightarrow> playbin_event list \<times> bool" where
  "run_seek_job state pending queried accepts sk =
     (if state \<noteq> Paused \<or> pending \<noteq> VoidPending then ([PbQueueSeek sk], True)
      else
        case (case s_position sk of Some pos \<Rightarrow> Some pos | None \<Rightarrow> queried) of
          None \<Rightarrow> ([], False)
        | Some pos \<Rightarrow>
            if accepts
            then ([PbRateChanged (case s_rate sk of Some rate \<Rightarrow> f64_of_f32 rate | None \<Rightarrow> F64_OF_F32_ONE)], False)
            else ([PbSeekFailed], False))"

definition run_refresh_job :: "clock_time option \<Rightarrow> bool \<Rightarrow> seqnum \<Rightarrow> playbin_event list" where
  "run_refresh_job queried accepts seqnum =
     (case queried of
        None \<Rightarrow> [PbRefreshSeekFailed seqnum]
      | Some pos \<Rightarrow> if accepts then [] else [PbRefreshSeekFailed seqnum])"

section \<open>Which events count\<close>

definition player_event_is_load_scoped :: "player_event \<Rightarrow> bool" where
  "player_event_is_load_scoped event =
     (case event of
        EvVolumeChanged _ \<Rightarrow> False
      | EvRequestState _ \<Rightarrow> False
      | EvClockLost \<Rightarrow> False
      | EvStreamTagsUpdated \<Rightarrow> False
      | _ \<Rightarrow> True)"

definition event_admitted :: "player_event \<Rightarrow> u64 option \<Rightarrow> player \<Rightarrow> bool" where
  "event_admitted event generation p \<longleftrightarrow>
     \<not> (\<exists>g. generation = Some g \<and> player_event_is_load_scoped event \<and> \<not> is_event_current g p)"

section \<open>The player's interface\<close>

text \<open>Every public operation that changes the player, with what the pipeline answers during it.\<close>

datatype player_call =
    DoLoad media_input "restore_point option"
  | DoStop
  | DoShutdown nat
  | DoEndOfStream
  | DoPlay
  | DoPause
  | DoSeek clock_time
  | DoSetRate f32
  | DoQueueSeek seek
  | DoSeekFailed
  | DoRateChanged f64
  | DoSetLive bool
  | DoUriLoaded
  | DoBuffering "nat \<Rightarrow> pump_answer" int
  | DoStateChanged gst_state gst_state gst_state
  | DoSetVolume f32
  | DoVolumeChanged
  | DoStreamCollection "gst_stream \<Rightarrow> stream_tags option" stream_collection
  | DoUpdateProperties "gst_stream \<Rightarrow> stream_tags option"
  | DoUpdateMediaInfo "bool option" "clock_time option"
  | DoTrackChange "nat \<Rightarrow> pump_answer" track_kind "stream_id option" bool
  | DoStreamsSelected "nat \<Rightarrow> pump_answer" track_selection seqnum
  | DoAsyncDone "nat \<Rightarrow> pump_answer"
  | DoRefreshFailed "nat \<Rightarrow> pump_answer" seqnum
  | DoPollTrackOps "nat \<Rightarrow> pump_answer"
  | DoAttachSubtitle string

definition player_do ::
    "(f64 \<Rightarrow> f32) \<Rightarrow> (string \<Rightarrow> string option) \<Rightarrow> player_call \<Rightarrow> player \<Rightarrow> (playbin_call list \<times> player) option"
where
  "player_do cast_rate language_name call p =
     (case call of
        DoLoad src start \<Rightarrow> Some (load src start p)
      | DoStop \<Rightarrow> Some (stop p)
      | DoShutdown feedback \<Rightarrow> Some (shutdown feedback p)
      | DoEndOfStream \<Rightarrow> Some (end_of_stream_reached p)
      | DoPlay \<Rightarrow> map_option snd (play p)
      | DoPause \<Rightarrow> map_option snd (pause p)
      | DoSeek position \<Rightarrow> Some (seek_to cast_rate position p)
      | DoSetRate rate \<Rightarrow> Some (set_rate cast_rate rate p)
      | DoQueueSeek sk \<Rightarrow> Some ([], player_queue_seek sk p)
      | DoSeekFailed \<Rightarrow> Some (player_seek_failed p)
      | DoRateChanged rate \<Rightarrow> Some ([], set_rate_changed rate p)
      | DoSetLive live \<Rightarrow> Some ([], set_is_live live p)
      | DoUriLoaded \<Rightarrow> map_option snd (uri_loaded p)
      | DoBuffering answers percent \<Rightarrow> map_option snd (player_buffering answers percent p)
      | DoStateChanged old new pending \<Rightarrow> map_option snd (player_state_changed old new pending p)
      | DoSetVolume volume \<Rightarrow> Some (set_volume volume p)
      | DoVolumeChanged \<Rightarrow> Some (volume_changed p)
      | DoStreamCollection tags collection \<Rightarrow> Some (handle_stream_collection language_name tags collection p)
      | DoUpdateProperties tags \<Rightarrow> Some ([], snd (update_stream_properties language_name tags p))
      | DoUpdateMediaInfo query dur \<Rightarrow> Some ([], update_media_info query dur p)
      | DoTrackChange answers kind sid suppress \<Rightarrow> Some (snd (request_track_change_impl answers kind sid suppress p))
      | DoStreamsSelected answers reported seqnum \<Rightarrow> Some (snd (streams_selected answers reported seqnum p))
      | DoAsyncDone answers \<Rightarrow> Some (async_done answers p)
      | DoRefreshFailed answers seqnum \<Rightarrow> Some (subtitle_refresh_failed answers seqnum p)
      | DoPollTrackOps answers \<Rightarrow> Some (poll_track_ops answers p)
      | DoAttachSubtitle url \<Rightarrow> Some (snd (attach_external_subtitle url p)))"

fun player_run ::
    "(f64 \<Rightarrow> f32) \<Rightarrow> (string \<Rightarrow> string option) \<Rightarrow> player_call list \<Rightarrow> player \<Rightarrow> (playbin_call list \<times> player) option"
where
  "player_run cast_rate language_name [] p = Some ([], p)"
| "player_run cast_rate language_name (call # todo) p =
     (case player_do cast_rate language_name call p of
        None \<Rightarrow> None
      | Some (calls, p') \<Rightarrow>
          map_option (\<lambda>(calls', p''). (calls @ calls', p'')) (player_run cast_rate language_name todo p'))"

end
