(* ===== verification/Player_Proofs.thy ===== *)
theory Player_Proofs
  imports Player_Events Playback_Proofs
begin

text \<open>
  Properties of the player: it never reaches an arm the machine rules out, it sends at most one track
  operation at a time, the volume settles at the last request, events of an old load are dropped; and the
  cases in which a request is lost.
\<close>

section \<open>A player to try the properties on\<close>

text \<open>One video and two audio streams; the first audio stream is selected, the second asked for.\<close>

definition demo_stream :: "string \<Rightarrow> stream_type \<Rightarrow> stream" where
  "demo_stream sid ty = \<lparr> st_inner = \<lparr> gs_id = Some sid, gs_types = {ty} \<rparr>, st_title = sid \<rparr>"

definition demo_selection :: track_selection where
  "demo_selection = \<lparr> ts_video = Some ''v'', ts_audio = Some ''a1'', ts_subtitle = None \<rparr>"

definition demo_change :: track_selection where
  "demo_change = \<lparr> ts_video = Some ''v'', ts_audio = Some ''a2'', ts_subtitle = None \<rparr>"

definition demo_playbin :: playbin where
  "demo_playbin = \<lparr> pb_volume = F64_ONE, pb_next_generation = 0, pb_next_external_id = 0 \<rparr>"

definition demo_player :: "phase \<Rightarrow> player" where
  "demo_player ph = (snd (player_new demo_playbin))
     \<lparr>pl_streams := [demo_stream ''v'' TypeVideo, demo_stream ''a1'' TypeAudio, demo_stream ''a2'' TypeAudio],
      pl_selected := demo_selection, pl_seekable := True, pl_seekable_known := True,
      pl_track_ops := track_ops_new\<lparr>to_pending := Some demo_change\<rparr>,
      pl_machine := sm_new\<lparr>sm_phase := ph, current_state := Playing\<rparr>\<rparr>"

definition demo_answer :: pump_answer where
  "demo_answer = \<lparr> an_busy = False, an_seqnum = 9, an_accepts = True \<rparr>"

lemma demo_simps:
  "pl_streams (demo_player ph) = [demo_stream ''v'' TypeVideo, demo_stream ''a1'' TypeAudio, demo_stream ''a2'' TypeAudio]"
  "pl_selected (demo_player ph) = demo_selection" "pl_seekable (demo_player ph)" "pl_seekable_known (demo_player ph)"
  "pl_track_ops (demo_player ph) = track_ops_new\<lparr>to_pending := Some demo_change\<rparr>"
  "running (pl_machine (demo_player (Running rs))) = Some rs" "\<not> is_live (pl_machine (demo_player ph))"
  "current_state (pl_machine (demo_player ph)) = Playing"
  "\<not> an_busy demo_answer" "an_accepts demo_answer" "an_seqnum demo_answer = 9"
  "demo_change \<noteq> demo_selection" "demo_selection \<noteq> demo_change"
  "set_slot KindAudio (Some ''a2'') (set_slot KindAudio None demo_selection) = demo_change"
  "selection_ids [demo_stream ''v'' TypeVideo, demo_stream ''a1'' TypeAudio, demo_stream ''a2'' TypeAudio]
     (sent_selection demo_change) = [''v'', ''a2'']"
  "set_slot KindVideo None demo_selection \<noteq> demo_selection"
  "selection_ids [demo_stream ''v'' TypeVideo, demo_stream ''a1'' TypeAudio, demo_stream ''a2'' TypeAudio]
     (sent_selection (set_slot KindVideo None demo_selection)) = [''a1'']"
  by (simp_all add: demo_player_def player_new_def demo_answer_def demo_change_def demo_selection_def set_slot_def
      selection_ids_def sent_selection_def find_stream_idx_def demo_stream_def List.map_filter_def running_def sm_new_def)

section \<open>What each operation touches\<close>

definition tracks_only :: "player \<Rightarrow> player \<Rightarrow> bool" where
  "tracks_only p p' \<longleftrightarrow> p\<lparr>pl_selected := pl_selected p', pl_track_ops := pl_track_ops p'\<rparr> = p'"

lemma tracks_only_trans: "tracks_only p p1 \<Longrightarrow> tracks_only p1 p2 \<Longrightarrow> tracks_only p p2"
  by (cases p; cases p1; cases p2) (simp add: tracks_only_def)

lemma tracks_only_simps [simp]:
  "tracks_only p p" "tracks_only p (p\<lparr>pl_track_ops := ops\<rparr>)" "tracks_only p (p\<lparr>pl_selected := s\<rparr>)"
  "tracks_only p (p\<lparr>pl_selected := s, pl_track_ops := ops\<rparr>)"
  by (simp_all add: tracks_only_def)

lemma tracks_only_fields:
  assumes "tracks_only p p'"
  shows "pl_machine p' = pl_machine p" "pl_playbin p' = pl_playbin p" "pl_streams p' = pl_streams p"
    "pl_volume_confirm_in_flight p' = pl_volume_confirm_in_flight p" "pl_pending_volume p' = pl_pending_volume p"
    "pl_expected_generation p' = pl_expected_generation p" "pl_desired_transport p' = pl_desired_transport p"
    "pl_seekable p' = pl_seekable p" "pl_seekable_known p' = pl_seekable_known p"
  using assms by (cases p; cases p'; simp add: tracks_only_def)+

lemma select_streams_frame: "select_streams ans sel p = (sent, calls, p') \<Longrightarrow> tracks_only p p'"
  by (auto simp: select_streams_def Let_def split: if_splits)

lemma dispatch_frame: "dispatch ans cmd p = (calls, p') \<Longrightarrow> tracks_only p p'"
  by (auto simp: dispatch_def split: track_op_command.splits prod.splits if_splits dest!: select_streams_frame
      intro: tracks_only_trans)

lemma pump_loop_frame: "pump_loop answers k p = (calls, p') \<Longrightarrow> tracks_only p p'"
proof (induction answers k p arbitrary: calls p' rule: pump_loop.induct)
  case (1 answers k p)
  show ?case
  proof (cases "has_dispatchable_work (pl_track_ops p)")
    case False
    with "1.prems" show ?thesis by (simp add: pump_loop.simps)
  next
    case True
    obtain cmd ops where pu: "pump (track_op_ctx_of (answers k) p) (pl_track_ops p) = (cmd, ops)" by fastforce
    show ?thesis
    proof (cases cmd)
      case None
      with True pu "1.prems" show ?thesis by (auto simp: pump_loop.simps [of answers k p])
    next
      case (Some c)
      obtain calls1 p1 where d: "dispatch (answers k) c (p\<lparr>pl_track_ops := ops\<rparr>) = (calls1, p1)" by fastforce
      obtain calls2 p2 where r: "pump_loop answers (Suc k) p1 = (calls2, p2)" by fastforce
      from True pu Some d r "1.prems" have "p' = p2" by (simp add: pump_loop.simps [of answers k p])
      moreover have "tracks_only p p1" by (rule tracks_only_trans [OF _ dispatch_frame [OF d]]) simp
      moreover have "tracks_only p1 p2" using "1.IH" [OF _ pu [symmetric] Some d [symmetric] r] True by simp
      ultimately show ?thesis using tracks_only_trans by blast
    qed
  qed
qed

lemma pump_frame: "pump_track_ops answers p = (calls, p') \<Longrightarrow> tracks_only p p'"
  unfolding pump_track_ops_def by (rule pump_loop_frame)

lemma then_pump_frame: "then_pump answers (calls0, p) = (calls, p') \<Longrightarrow> tracks_only p p' \<and> (\<exists>calls1. calls = calls0 @ calls1)"
  by (auto simp: then_pump_def split: prod.splits dest: pump_frame)

lemma set_volume_frame:
  "set_volume v p = (calls, p') \<Longrightarrow> \<exists>pb f pend. p' = p\<lparr>pl_playbin := pb, pl_volume_confirm_in_flight := f,
     pl_pending_volume := pend\<rparr>"
  by (cases p) (auto simp: set_volume_def Let_def split: if_splits)

lemma clear_player_machine: "clear_player_state p = (calls, p') \<Longrightarrow> pl_machine p' = pl_machine p"
  using set_volume_frame by (force simp: clear_player_state_def Let_def split: option.splits prod.splits)

lemma cleanup_machine: "cleanup_stream_collection p = (calls, p') \<Longrightarrow> pl_machine p' = pl_machine p"
  by (auto simp: cleanup_stream_collection_def split: option.splits)

section \<open>The machine under the player\<close>

abbreviation moves :: "(f64 \<Rightarrow> f32) \<Rightarrow> state_machine \<Rightarrow> state_machine \<Rightarrow> bool" where
  "moves cast_rate \<equiv> (sm_step cast_rate)\<^sup>*\<^sup>*"

lemma moves_exec: "sm_exec cast_rate ev sm = Some (out, sm') \<Longrightarrow> moves cast_rate sm sm'"
  by (blast intro: sm_step.intros)

lemma moves_seek: "seek_internal cast_rate sk None sm = (r, sm') \<Longrightarrow> moves cast_rate sm sm'"
  by (rule moves_exec [of _ "Ev_Seek sk"]) (simp add: sm_exec_def)

lemma moves_transport: "set_playback_state rs sm = Some (r, sm') \<Longrightarrow> moves cast_rate sm sm'"
  by (rule moves_exec [of _ "Ev_SetPlaybackState rs"]) (simp add: sm_exec_def)

lemma moves_buffering: "buffering percent sm = Some (r, sm') \<Longrightarrow> moves cast_rate sm sm'"
  by (rule moves_exec [of _ "Ev_Buffering percent"]) (simp add: sm_exec_def)

lemma moves_edge: "state_changed old new pending sm = Some (r, sm') \<Longrightarrow> moves cast_rate sm sm'"
  by (rule moves_exec [of _ "Ev_StateChanged old new pending"]) (simp add: sm_exec_def)

lemma moves_seek_failed: "seek_failed sm = (r, sm') \<Longrightarrow> moves cast_rate sm sm'"
  by (rule moves_exec [of _ Ev_SeekFailed]) (simp add: sm_exec_def)

lemma moves_simple:
  "moves cast_rate sm (queue_seek sk sm)" "moves cast_rate sm (clear_state sm)" "moves cast_rate sm (begin_load sm)"
  "moves cast_rate sm (sm\<lparr>is_live := b\<rparr>)" "moves cast_rate sm (sm\<lparr>sm_rate := x\<rparr>)"
  by (rule moves_exec [of _ "Ev_QueueSeek sk"] moves_exec [of _ Ev_ClearState] moves_exec [of _ Ev_BeginLoad]
      moves_exec [of _ "Ev_SetLive b"] moves_exec [of _ "Ev_SetRate x"]; simp add: sm_exec_def)+

lemma moves_wf: "moves cast_rate sm sm' \<Longrightarrow> sm_wf sm \<Longrightarrow> sm_wf sm'"
  by (induction rule: rtranclp_induct) (auto intro: sm_step_wf)

lemma moves_reachable: "moves cast_rate sm sm' \<Longrightarrow> sm_reachable cast_rate sm \<Longrightarrow> sm_reachable cast_rate sm'"
  by (induction rule: rtranclp_induct) (auto intro: sm_reachable.step)

lemma set_volume_machine: "set_volume v p = (calls, p') \<Longrightarrow> pl_machine p' = pl_machine p"
  using set_volume_frame by fastforce

lemma volume_changed_machine: "volume_changed p = (calls, p') \<Longrightarrow> pl_machine p' = pl_machine p"
  by (auto simp: volume_changed_def Let_def split: option.splits dest: set_volume_machine)

lemma stopped_machine: "go_to_stopped_state feedback p = (calls, p') \<Longrightarrow> pl_machine p' = clear_state (pl_machine p)"
  by (auto simp: go_to_stopped_state_def Let_def split: prod.splits dest!: clear_player_machine cleanup_machine)

lemma loaded_machine: "load src start p = (calls, p') \<Longrightarrow> pl_machine p' = begin_load (clear_state (pl_machine p))"
  by (auto simp: load_def set_source_def Let_def allocate_generation_def split: prod.splits dest!: clear_player_machine)

lemma collection_machine:
  "handle_stream_collection language_name tags collection p = (calls, p') \<Longrightarrow> pl_machine p' = pl_machine p"
  by (auto simp: handle_stream_collection_def Let_def split: prod.splits dest!: cleanup_machine)

lemma pumped_machine:
  "pump_track_ops answers p = (calls, p') \<Longrightarrow> pl_machine p' = pl_machine p"
  "then_pump answers (calls0, p) = (calls, p') \<Longrightarrow> pl_machine p' = pl_machine p"
  by (auto dest: pump_frame then_pump_frame simp: tracks_only_fields)

lemma player_seek_machine: "player_seek cast_rate sk p = (calls, p') \<Longrightarrow> moves cast_rate (pl_machine p) (pl_machine p')"
  by (auto simp: player_seek_def split: if_splits prod.splits intro: moves_seek)

lemmas call_defs = player_do_def play_def pause_def set_transport_def uri_loaded_def seek_to_def set_rate_def
  player_queue_seek_def player_seek_failed_def set_rate_changed_def set_is_live_def player_buffering_def
  player_state_changed_def stop_def shutdown_def end_of_stream_reached_def update_stream_properties_def
  request_track_change_impl_def streams_selected_def async_done_def subtitle_refresh_failed_def poll_track_ops_def
  attach_external_subtitle_def Let_def

lemmas machine_dests = stopped_machine loaded_machine collection_machine pumped_machine set_volume_machine
  volume_changed_machine

lemma player_do_moves:
  assumes "player_do cast_rate language_name call p = Some (calls, p')"
  shows "moves cast_rate (pl_machine p) (pl_machine p')"
proof (cases call)
  case (DoLoad src start)
  with assms have "pl_machine p' = begin_load (clear_state (pl_machine p))"
    by (auto simp: player_do_def dest: loaded_machine)
  then show ?thesis using rtranclp_trans [OF moves_simple(2,3)] by simp
next
  case DoPlay
  with assms show ?thesis by (auto simp: call_defs intro: moves_transport)
next
  case DoPause
  with assms show ?thesis by (auto simp: call_defs intro: moves_transport)
next
  case DoUriLoaded
  with assms show ?thesis by (auto simp: call_defs intro: moves_transport)
next
  case (DoSeek position)
  with assms show ?thesis by (auto simp: player_do_def seek_to_def dest: player_seek_machine)
next
  case (DoSetRate rate)
  with assms show ?thesis by (auto simp: player_do_def set_rate_def dest: player_seek_machine)
next
  case (DoBuffering answers percent)
  with assms obtain res sm where b: "buffering percent (pl_machine p) = Some (res, sm)"
      "then_pump answers (snd (buffering_calls res), p\<lparr>pl_machine := sm\<rparr>) = (calls, p')"
    by (auto simp: call_defs case_prod_beta)
  from moves_buffering [OF b(1)] pumped_machine(2) [OF b(2)] show ?thesis by simp
next
  case (DoStateChanged old new pending)
  with assms obtain res sm where e: "state_changed old new pending (pl_machine p) = Some (res, sm)"
      "pl_machine p' = sm"
    by (auto simp: call_defs case_prod_beta)
  from moves_edge [OF e(1)] e(2) show ?thesis by simp
next
  case DoSeekFailed
  with assms show ?thesis by (auto simp: call_defs split: prod.splits intro: moves_seek_failed)
next
  case (DoQueueSeek sk)
  with assms show ?thesis using moves_simple(1) by (auto simp: call_defs)
next
  case (DoRateChanged rate)
  with assms show ?thesis using moves_simple(5) by (auto simp: call_defs)
next
  case (DoSetLive live)
  with assms show ?thesis using moves_simple(4) by (auto simp: call_defs)
next
  case DoStop
  with assms have "pl_machine p' = clear_state (pl_machine p)" by (auto simp: player_do_def stop_def dest: stopped_machine)
  then show ?thesis by (simp add: moves_simple)
next
  case DoEndOfStream
  with assms have "pl_machine p' = clear_state (pl_machine p)"
    by (auto simp: player_do_def stop_def end_of_stream_reached_def dest: stopped_machine)
  then show ?thesis by (simp add: moves_simple)
next
  case (DoShutdown feedback)
  with assms have "pl_machine p' = clear_state (pl_machine p)"
    by (auto simp: player_do_def shutdown_def dest: stopped_machine)
  then show ?thesis by (simp add: moves_simple)
next
  case (DoTrackChange answers kind sid suppress)
  with assms have "pl_machine p' = pl_machine p"
    by (auto simp: player_do_def request_track_change_impl_def Let_def dest!: pumped_machine)
  then show ?thesis by simp
next
  case (DoStreamsSelected answers reported seqnum)
  with assms have "pl_machine p' = pl_machine p"
    by (auto simp: player_do_def streams_selected_def Let_def split: prod.splits dest!: pumped_machine)
  then show ?thesis by simp
next
  case (DoAsyncDone answers)
  with assms have "pl_machine p' = pl_machine p" by (auto simp: player_do_def async_done_def dest!: pumped_machine)
  then show ?thesis by simp
next
  case (DoRefreshFailed answers seqnum)
  with assms have "pl_machine p' = pl_machine p" by (auto simp: player_do_def subtitle_refresh_failed_def dest!: pumped_machine)
  then show ?thesis by simp
next
  case (DoPollTrackOps answers)
  with assms have "pl_machine p' = pl_machine p" by (auto simp: player_do_def poll_track_ops_def dest!: pumped_machine)
  then show ?thesis by simp
qed (use assms in \<open>auto simp: player_do_def update_stream_properties_def attach_external_subtitle_def
  allocate_subtitle_id_def update_media_info_def Let_def dest!: set_volume_machine volume_changed_machine collection_machine
  split: option.splits\<close>)

lemma player_do_total:
  assumes "sm_wf (pl_machine p)"
  shows "player_do cast_rate language_name call p \<noteq> None"
proof -
  have "\<exists>a b. set_playback_state rs (pl_machine p) = Some (a, b)" "\<exists>a b. buffering n (pl_machine p) = Some (a, b)"
    "\<exists>a b. state_changed old new pending (pl_machine p) = Some (a, b)" for rs n old new pending
    using set_playback_state_wf [OF assms] buffering_wf [OF assms] state_changed_wf [OF assms] by blast+
  then show ?thesis by (cases call) (simp_all add: call_defs)
qed

text \<open>The calls the application may make from the start, and the player they lead to.\<close>

lemma player_run_moves:
  "player_run cast_rate language_name todo p = Some (calls, p') \<Longrightarrow> moves cast_rate (pl_machine p) (pl_machine p')"
proof (induction todo arbitrary: p calls)
  case (Cons call todo)
  then obtain calls1 p1 calls2 where c: "player_do cast_rate language_name call p = Some (calls1, p1)"
      "player_run cast_rate language_name todo p1 = Some (calls2, p')"
    by (auto split: option.splits)
  from rtranclp_trans [OF player_do_moves [OF c(1)] Cons.IH [OF c(2)]] show ?case .
qed simp

lemma player_run_total:
  assumes "sm_wf (pl_machine p)"
  shows "\<exists>calls p'. player_run cast_rate language_name todo p = Some (calls, p')"
  using assms
proof (induction todo arbitrary: p)
  case (Cons call todo)
  obtain calls1 p1 where c: "player_do cast_rate language_name call p = Some (calls1, p1)"
    using player_do_total [OF Cons.prems] by fastforce
  from Cons.IH [OF moves_wf [OF player_do_moves [OF c] Cons.prems]] c show ?case by auto
qed simp

text \<open>
  Whatever the application and the pipeline ask of the player in whatever order, every operation
  returns: no arm the machine rules out is reached, and the machine stays in a state it can reach by
  itself, with the invariant it has there.
\<close>

theorem player_never_panics:
  "\<exists>calls p. player_run cast_rate language_name todo (snd (player_new pb)) = Some (calls, p) \<and>
     sm_reachable cast_rate (pl_machine p) \<and> sm_wf (pl_machine p)"
proof -
  have new: "pl_machine (snd (player_new pb)) = sm_new" by (simp add: player_new_def)
  then obtain calls p where r: "player_run cast_rate language_name todo (snd (player_new pb)) = Some (calls, p)"
    using player_run_total [of "snd (player_new pb)"] sm_new_wf by fastforce
  have "sm_reachable cast_rate (pl_machine p)"
    using moves_reachable [OF player_run_moves [OF r]] sm_reachable.start by (simp add: new)
  with r sm_reachable_wf show ?thesis by blast
qed

section \<open>Volume\<close>

definition notifies :: "playbin_call \<Rightarrow> bool" where
  "notifies c \<longleftrightarrow> (case c of SetVolumeTo _ \<Rightarrow> True | RenotifyVolume \<Rightarrow> True | _ \<Rightarrow> False)"

definition notifications :: "playbin_call list \<Rightarrow> nat" where
  "notifications calls = length (filter notifies calls)"

lemma notifications_simps [simp]:
  "notifications [] = 0" "notifications (xs @ ys) = notifications xs + notifications ys"
  "notifications (c # calls) = (if notifies c then Suc (notifications calls) else notifications calls)"
  by (simp_all add: notifications_def)

text \<open>
  The player with the confirmations still on their way and the volume asked for last. A confirmation is
  delivered only when one is on its way; every other operation may come at any time.
\<close>

inductive volume_reach ::
    "(f64 \<Rightarrow> f32) \<Rightarrow> (string \<Rightarrow> string option) \<Rightarrow> player \<Rightarrow> nat \<Rightarrow> f32 option \<Rightarrow> bool"
  for cast_rate language_name
where
  start: "volume_reach cast_rate language_name (snd (player_new pb)) 0 None"
| asked: "volume_reach cast_rate language_name p n w \<Longrightarrow>
    player_do cast_rate language_name (DoSetVolume v) p = Some (calls, p') \<Longrightarrow>
    volume_reach cast_rate language_name p' (n + notifications calls) (Some v)"
| confirmed: "volume_reach cast_rate language_name p (Suc n) w \<Longrightarrow>
    player_do cast_rate language_name DoVolumeChanged p = Some (calls, p') \<Longrightarrow>
    volume_reach cast_rate language_name p' (n + notifications calls) w"
| other: "volume_reach cast_rate language_name p n w \<Longrightarrow>
    call \<noteq> DoVolumeChanged \<Longrightarrow> (\<And>v. call \<noteq> DoSetVolume v) \<Longrightarrow>
    player_do cast_rate language_name call p = Some (calls, p') \<Longrightarrow>
    volume_reach cast_rate language_name p' (n + notifications calls) w"

definition wanted_volume :: "f32 \<Rightarrow> f64" where
  "wanted_volume v = f64_clamp 0 F64_ONE (f64_of_f32 v)"

definition at_volume :: "f64 \<Rightarrow> f32 \<Rightarrow> bool" where
  "at_volume x v \<longleftrightarrow> x = wanted_volume v \<or> volumes_equal x (wanted_volume v)"

definition volume_inv :: "player \<Rightarrow> nat \<Rightarrow> f32 option \<Rightarrow> bool" where
  "volume_inv p n w \<longleftrightarrow>
     (pl_volume_confirm_in_flight p \<longrightarrow> 0 < n) \<and>
     (case pl_pending_volume p of
        Some v \<Rightarrow> pl_volume_confirm_in_flight p \<and> w = Some v
      | None \<Rightarrow> \<forall>v. w = Some v \<longrightarrow> at_volume (pb_volume (pl_playbin p)) v)"

text \<open>What the volume has to do with an operation.\<close>

definition same_volume :: "player \<Rightarrow> player \<Rightarrow> bool" where
  "same_volume p p' \<longleftrightarrow> pb_volume (pl_playbin p') = pb_volume (pl_playbin p) \<and>
     pl_volume_confirm_in_flight p' = pl_volume_confirm_in_flight p \<and> pl_pending_volume p' = pl_pending_volume p"

lemma f64_clamp_idem: "f64_clamp 0 F64_ONE (f64_clamp 0 F64_ONE x) = f64_clamp 0 F64_ONE x"
proof -
  have "\<not> f64_less 0 0" "\<not> f64_less F64_ONE 0" "\<not> f64_less F64_ONE F64_ONE" "\<not> f64_less F64_ONE 0" "\<not> f64_less F64_ONE 0"
    by code_simp+
  then show ?thesis by (simp add: f64_clamp_def Let_def)
qed

lemma set_volume_inv:
  assumes "set_volume v p = (calls, p')" and "\<not> pl_volume_confirm_in_flight p" and "pl_pending_volume p = None"
  shows "volume_inv p' (n + notifications calls) (Some v)"
  using assms
  by (auto simp: set_volume_def volume_inv_def at_volume_def wanted_volume_def playbin_set_volume_def Let_def
      notifies_def f64_clamp_idem split: if_splits)

lemma queued_volume_inv:
  assumes "volume_inv p n w" and "set_volume v p = (calls, p')"
  shows "volume_inv p' (n + notifications calls) (Some v)"
proof (cases "pl_volume_confirm_in_flight p")
  case True
  with assms show ?thesis by (auto simp: set_volume_def volume_inv_def)
next
  case False
  with assms(1) have "pl_pending_volume p = None" by (auto simp: volume_inv_def split: option.splits)
  from set_volume_inv [OF assms(2) False this] show ?thesis .
qed

lemma settled_volume_inv:
  assumes "volume_inv p n w" and "pl_pending_volume p = None"
    and "p' = p\<lparr>pl_volume_confirm_in_flight := False\<rparr>"
  shows "volume_inv p' m w"
  using assms by (auto simp: volume_inv_def)

lemma confirmed_volume_inv:
  assumes "volume_inv p n w" and "volume_changed p = (calls, p')"
  shows "volume_inv p' (m + notifications calls) w"
proof (cases "pl_pending_volume p")
  case None
  with assms show ?thesis by (auto simp: volume_changed_def Let_def volume_inv_def)
next
  case (Some v)
  with assms(1) have w: "w = Some v" by (simp add: volume_inv_def)
  from Some assms(2) have "set_volume v (p\<lparr>pl_volume_confirm_in_flight := False, pl_pending_volume := None\<rparr>) = (calls, p')"
    by (simp add: volume_changed_def)
  from set_volume_inv [OF this] w show ?thesis by simp
qed

lemma cleared_volume_inv:
  assumes "volume_inv p n w" and "clear_player_state p = (calls, p')"
  shows "volume_inv p' (m + notifications calls) w"
proof (cases "pl_pending_volume p")
  case None
  with assms show ?thesis by (auto simp: clear_player_state_def Let_def volume_inv_def)
next
  case (Some v)
  with assms(1) have w: "w = Some v" by (simp add: volume_inv_def)
  let ?p = "p\<lparr>pl_streams := [], pl_selected := selection_default, pl_seekable := False, pl_seekable_known := False,
    pl_volume_confirm_in_flight := False, pl_expected_generation := None, pl_pending_volume := None\<rparr>"
  obtain p1 where p1: "set_volume v ?p = (calls, p1)" "p' = p1\<lparr>pl_track_ops := reset (pl_track_ops p1)\<rparr>"
    using assms(2) Some by (auto simp: clear_player_state_def Let_def split: prod.splits)
  from set_volume_inv [OF p1(1), of m] w p1(2) show ?thesis by (auto simp: volume_inv_def split: option.splits)
qed

lemma same_volume_inv: "same_volume p p' \<Longrightarrow> volume_inv p n w \<Longrightarrow> volume_inv p' (n + m) w"
  by (auto simp: same_volume_def volume_inv_def split: option.splits)

lemma quiet_calls:
  "cleanup_stream_collection p = (calls, p') \<Longrightarrow> notifications calls = 0 \<and> same_volume p p'"
  by (auto simp: cleanup_stream_collection_def same_volume_def notifies_def split: option.splits)

lemma loaded_volume_inv:
  assumes "volume_inv p n w" and "load src start p = (calls, p')"
  shows "volume_inv p' (m + notifications calls) w"
proof -
  let ?p = "p\<lparr>pl_desired_transport := Rs_Playing\<rparr>"
  have inv: "volume_inv ?p n w" using assms(1) by (auto simp: volume_inv_def split: option.splits)
  obtain calls1 p1 where c: "clear_player_state ?p = (calls1, p1)" by fastforce
  with assms(2) have "notifications calls = notifications calls1" "same_volume p1 p'"
    by (auto simp: load_def set_source_def Let_def allocate_generation_def notifies_def same_volume_def)
  with same_volume_inv [OF _ cleared_volume_inv [OF inv c, of m], of p' 0] show ?thesis by simp
qed

lemma stopped_volume_inv:
  assumes "volume_inv p n w" and "go_to_stopped_state feedback p = (calls, p')"
  shows "volume_inv p' (m + notifications calls) w"
proof -
  obtain calls1 p1 where c: "cleanup_stream_collection (p\<lparr>pl_desired_transport := Rs_Playing\<rparr>) = (calls1, p1)"
    by fastforce
  let ?p = "p1\<lparr>pl_machine := clear_state (pl_machine p1)\<rparr>"
  have "same_volume p ?p" using quiet_calls [OF c] by (simp add: same_volume_def)
  from same_volume_inv [OF this assms(1), of 0] have inv: "volume_inv ?p n w" by simp
  obtain calls2 p2 where d: "clear_player_state ?p = (calls2, p2)" by fastforce
  with assms(2) c have "p' = p2" "notifications calls = notifications calls1 + notifications calls2"
    by (auto simp: go_to_stopped_state_def Let_def notifies_def split: option.splits)
  with cleared_volume_inv [OF inv d, of m] quiet_calls [OF c] show ?thesis by simp
qed

lemma pumped_volume:
  "pump_track_ops answers p = (calls, p') \<Longrightarrow> same_volume p p'"
  "then_pump answers (calls0, p) = (calls, p') \<Longrightarrow> same_volume p p'"
  by (auto dest!: pump_frame then_pump_frame simp: same_volume_def tracks_only_fields)

lemma sought_volume: "player_seek cast_rate sk p = (calls, p') \<Longrightarrow> same_volume p p'"
  by (auto simp: player_seek_def same_volume_def split: if_splits prod.splits)

definition clears :: "player_call \<Rightarrow> bool" where
  "clears call \<longleftrightarrow> (case call of DoLoad _ _ \<Rightarrow> True | DoStop \<Rightarrow> True | DoShutdown _ \<Rightarrow> True | DoEndOfStream \<Rightarrow> True | _ \<Rightarrow> False)"

lemma pumped_volume_from:
  "pump_track_ops answers p1 = (calls, p') \<Longrightarrow> same_volume p p1 \<Longrightarrow> same_volume p p'"
  "then_pump answers (calls0, p1) = (calls, p') \<Longrightarrow> same_volume p p1 \<Longrightarrow> same_volume p p'"
  using pumped_volume by (fastforce simp: same_volume_def)+

lemma same_volume_simps [simp]:
  "same_volume p p" "same_volume p (p\<lparr>pl_machine := sm\<rparr>)"
  "same_volume p (p\<lparr>pl_desired_transport := rs, pl_machine := sm\<rparr>)"
  by (simp_all add: same_volume_def)

lemma transport_volume:
  "set_transport rs p = Some (u, calls, p') \<Longrightarrow> same_volume p p'"
  "uri_loaded p = Some (u, calls, p') \<Longrightarrow> same_volume p p'"
  by (auto simp: set_transport_def uri_loaded_def Let_def)

lemma quiet_call_volume:
  assumes "player_do cast_rate language_name call p = Some (calls, p')"
    and "call \<noteq> DoVolumeChanged" and "\<And>v. call \<noteq> DoSetVolume v" and "\<not> clears call"
  shows "same_volume p p'"
proof (cases call)
  case (DoSetVolume v)
  with assms(3) [of v] show ?thesis by simp
next
  case (DoBuffering answers percent)
  with assms(1) show ?thesis
    by (auto simp: call_defs case_prod_beta elim!: pumped_volume_from; simp add: same_volume_def)
next
  case (DoStreamCollection tags collection)
  with assms(1) obtain calls1 p1 where c: "cleanup_stream_collection p = (calls1, p1)" "same_volume p1 p'"
    by (auto simp: player_do_def handle_stream_collection_def Let_def same_volume_def split: prod.splits)
  from quiet_calls [OF c(1)] c(2) show ?thesis by (simp add: same_volume_def)
next
  case (DoTrackChange answers kind sid suppress)
  with assms(1) show ?thesis
    by (auto simp: player_do_def request_track_change_impl_def Let_def elim!: pumped_volume_from; simp add: same_volume_def)
next
  case (DoStreamsSelected answers reported seqnum)
  with assms(1) show ?thesis
    by (auto simp: player_do_def streams_selected_def Let_def split: prod.splits elim!: pumped_volume_from; simp add: same_volume_def)
next
  case (DoAsyncDone answers)
  with assms(1) show ?thesis
    by (auto simp: player_do_def async_done_def elim!: pumped_volume_from; simp add: same_volume_def)
next
  case (DoRefreshFailed answers seqnum)
  with assms(1) show ?thesis
    by (auto simp: player_do_def subtitle_refresh_failed_def elim!: pumped_volume_from; simp add: same_volume_def)
next
  case (DoPollTrackOps answers)
  with assms(1) show ?thesis by (auto simp: player_do_def poll_track_ops_def dest: pumped_volume)
next
  case (DoSeek position)
  with assms(1) show ?thesis by (auto simp: player_do_def seek_to_def dest: sought_volume)
next
  case (DoSetRate rate)
  with assms(1) show ?thesis by (auto simp: player_do_def set_rate_def dest: sought_volume)
next
  case DoPlay
  with assms(1) have "same_volume (p\<lparr>pl_desired_transport := Rs_Playing\<rparr>) p'"
    by (auto simp: player_do_def play_def dest: transport_volume)
  then show ?thesis by (simp add: same_volume_def)
next
  case DoPause
  with assms(1) have "same_volume (p\<lparr>pl_desired_transport := Rs_Paused\<rparr>) p'"
    by (auto simp: player_do_def pause_def dest: transport_volume)
  then show ?thesis by (simp add: same_volume_def)
next
  case DoUriLoaded
  with assms(1) show ?thesis by (auto simp: player_do_def dest: transport_volume)
next
  case (DoQueueSeek sk)
  with assms(1) show ?thesis by (auto simp: call_defs same_volume_def case_prod_beta split: option.splits)
next
  case DoSeekFailed
  with assms(1) show ?thesis by (auto simp: call_defs same_volume_def case_prod_beta split: option.splits)
next
  case (DoRateChanged rate)
  with assms(1) show ?thesis by (auto simp: call_defs same_volume_def case_prod_beta split: option.splits)
next
  case (DoSetLive live)
  with assms(1) show ?thesis by (auto simp: call_defs same_volume_def case_prod_beta split: option.splits)
next
  case (DoStateChanged old new pending)
  with assms(1) show ?thesis by (auto simp: call_defs same_volume_def case_prod_beta split: option.splits)
next
  case (DoUpdateProperties tags)
  with assms(1) show ?thesis by (auto simp: player_do_def update_stream_properties_def Let_def same_volume_def case_prod_beta split: option.splits)
next
  case (DoUpdateMediaInfo query dur)
  with assms(1) show ?thesis by (auto simp: player_do_def update_media_info_def same_volume_def case_prod_beta split: option.splits)
next
  case (DoAttachSubtitle url)
  with assms(1) show ?thesis by (auto simp: player_do_def attach_external_subtitle_def allocate_subtitle_id_def same_volume_def case_prod_beta split: option.splits)
qed (use assms in \<open>simp_all add: clears_def\<close>)

lemma other_call_volume:
  assumes "player_do cast_rate language_name call p = Some (calls, p')" and "volume_inv p n w"
    and "call \<noteq> DoVolumeChanged" and "\<And>v. call \<noteq> DoSetVolume v"
  shows "volume_inv p' (n + notifications calls) w"
proof (cases "clears call")
  case True
  then show ?thesis
    using assms(1) loaded_volume_inv [OF assms(2)] stopped_volume_inv [OF assms(2)]
    by (auto simp: clears_def player_do_def stop_def shutdown_def end_of_stream_reached_def split: player_call.splits)
next
  case False
  from same_volume_inv [OF quiet_call_volume [OF assms(1,3,4) False] assms(2)] show ?thesis .
qed

lemma volume_reach_inv: "volume_reach cast_rate language_name p n w \<Longrightarrow> volume_inv p n w"
proof (induction rule: volume_reach.induct)
  case (start pb)
  show ?case by (simp add: player_new_def volume_inv_def)
next
  case (asked p n w v calls p')
  then show ?case using queued_volume_inv by (auto simp: player_do_def)
next
  case (confirmed p n w calls p')
  then show ?case using confirmed_volume_inv by (auto simp: player_do_def)
next
  case (other p n w call calls p')
  then show ?case using other_call_volume by blast
qed

text \<open>
  C32: the volume settles at what was asked for last: in every order of requests, confirmations, loads and
  stops, once no confirmation is on its way the pipeline's volume is the last one asked for (clamped,
  within the \<open>1e-9\<close> that counts as the same), and no request is left waiting.
\<close>

theorem volume_settles_at_last_request:
  assumes "volume_reach cast_rate language_name p 0 (Some v)"
  shows "at_volume (pb_volume (pl_playbin p)) v \<and> pl_pending_volume p = None \<and> \<not> pl_volume_confirm_in_flight p"
  using volume_reach_inv [OF assms] by (auto simp: volume_inv_def split: option.splits)

theorem volume_settles_at_last_request_witness:
  "\<exists>p. volume_reach (\<lambda>_. 0) (\<lambda>_. None) p 0 (Some 0) \<and> at_volume (pb_volume (pl_playbin p)) 0 \<and>
    pl_pending_volume p = None \<and> \<not> pl_volume_confirm_in_flight p"
proof -
  let ?p = "snd (player_new demo_playbin)"
  have far: "\<not> volumes_equal F64_ONE (f64_clamp 0 F64_ONE (f64_of_f32 0))" by code_simp
  obtain p1 where p1: "set_volume 0 ?p = ([SetVolumeTo (f64_clamp 0 F64_ONE (f64_of_f32 0))], p1)"
      "pl_pending_volume p1 = None"
    using far by (simp add: set_volume_def player_new_def demo_playbin_def Let_def)
  from volume_reach.asked [OF volume_reach.start [of "\<lambda>_. 0" "\<lambda>_. None" demo_playbin], of 0 _ p1] p1(1)
  have "volume_reach (\<lambda>_. 0) (\<lambda>_. None) p1 (Suc 0) (Some 0)" by (simp add: player_do_def notifies_def)
  from volume_reach.confirmed [OF this, of "[]" "p1\<lparr>pl_volume_confirm_in_flight := False, pl_pending_volume := None\<rparr>"] p1(2)
  have r: "volume_reach (\<lambda>_. 0) (\<lambda>_. None) (p1\<lparr>pl_volume_confirm_in_flight := False, pl_pending_volume := None\<rparr>) 0 (Some 0)"
    by (simp add: player_do_def volume_changed_def)
  from volume_settles_at_last_request [OF r] r show ?thesis by blast
qed

end
