(* ===== verification/Player_Flows.thy ===== *)
theory Player_Flows
  imports Player_Proofs
begin

text \<open>
  Properties of the player over several operations: track changes, the events of an old load, the
  transport after a load, and the requests that are lost.
\<close>

section \<open>Track changes\<close>

text \<open>One round of the pump, by what it decides.\<close>

lemma pump_loop_idle: "\<not> has_dispatchable_work (pl_track_ops p) \<Longrightarrow> pump_loop answers k p = ([], p)"
  by (simp add: pump_loop.simps)

lemma pump_loop_held:
  "pump (track_op_ctx_of (answers k) p) (pl_track_ops p) = (None, ops) \<Longrightarrow>
   \<exists>ops'. pump_loop answers k p = ([], p\<lparr>pl_track_ops := ops'\<rparr>)"
  by (cases "has_dispatchable_work (pl_track_ops p)")
     (auto simp: pump_loop.simps [of answers k p] intro: exI [of _ "pl_track_ops p"])

lemma pump_loop_round:
  assumes "pump (track_op_ctx_of (answers k) p) (pl_track_ops p) = (Some cmd, ops)"
    and "dispatch (answers k) cmd (p\<lparr>pl_track_ops := ops\<rparr>) = (calls, p1)"
    and "pump_loop answers (Suc k) p1 = (calls', p2)"
  shows "pump_loop answers k p = (calls @ calls', p2)"
proof -
  have "has_dispatchable_work (pl_track_ops p)"
    using pump_Some [OF assms(1)] by (cases cmd) (auto simp: has_dispatchable_work_def)
  with assms show ?thesis by (simp add: pump_loop.simps [of answers k p])
qed

lemma nothing_left: "work_left ops = 0 \<longleftrightarrow> \<not> has_dispatchable_work ops"
  by (auto simp: work_left_def has_dispatchable_work_def)

lemma dispatch_selection:
  assumes "dispatch ans (SelectStreams sel) p = (calls, p')" and "to_pending (pl_track_ops p) = None"
  shows "to_pending (pl_track_ops p') = None"
    and "calls = [] \<and> work_left (pl_track_ops p') = 0 \<or>
      (\<exists>ids. calls = [SelectStreamsAsync ids (an_seqnum ans)] \<and> to_selecting (pl_track_ops p') \<noteq> None)"
proof -
  obtain sent calls1 p1 where s: "select_streams ans sel p = (sent, calls1, p1)" by (metis prod_cases3)
  have p1: "pl_track_ops p1 = pl_track_ops p" by (rule select_streams_ops [OF s])
  have c: "calls1 = [] \<and> \<not> sent \<or> (\<exists>ids. calls1 = [SelectStreamsAsync ids (an_seqnum ans)]) \<and> sent"
    using s by (auto simp: select_streams_def Let_def split: if_splits)
  show "to_pending (pl_track_ops p') = None"
    using assms s p1 by (auto simp: dispatch_def selection_dispatched_def cancel_refresh_def split: if_splits option.splits)
  show "calls = [] \<and> work_left (pl_track_ops p') = 0 \<or>
      (\<exists>ids. calls = [SelectStreamsAsync ids (an_seqnum ans)] \<and> to_selecting (pl_track_ops p') \<noteq> None)"
    using assms s p1 c
    by (auto simp: dispatch_def selection_dispatched_def cancel_refresh_def work_left_def split: if_splits option.splits)
qed

lemma dispatch_flush:
  assumes "dispatch ans RefreshSeek p = (calls, p')" and "to_pending (pl_track_ops p) = None"
    and "\<not> to_refresh_wanted (pl_track_ops p)"
  shows "work_left (pl_track_ops p') = 0 \<and> (calls = [] \<or> calls = [RefreshSeekAsync (an_seqnum ans)])"
  using assms by (auto simp: dispatch_def refresh_dispatched_def work_left_def split: if_splits)

text \<open>With no selection waiting the loop sends at most the flush.\<close>

lemma pump_loop_flush:
  assumes "to_pending (pl_track_ops p) = None" and "pump_loop answers k p = (calls, p')"
  shows "calls = [] \<or> (\<exists>sn. calls = [RefreshSeekAsync sn]) \<and>
    (to_selecting (pl_track_ops p) \<noteq> None \<longrightarrow> tx_paused (track_op_ctx_of (answers k) p))"
proof -
  obtain cmd ops where pu: "pump (track_op_ctx_of (answers k) p) (pl_track_ops p) = (cmd, ops)" by fastforce
  show ?thesis
  proof (cases cmd)
    case None
    with pump_loop_held [of answers k p ops] pu assms(2) show ?thesis by auto
  next
    case (Some c)
    note s = pump_Some [OF pu [unfolded Some]]
    have c: "c = RefreshSeek" using s assms(1) by (cases c) auto
    obtain calls1 p1 where d: "dispatch (answers k) RefreshSeek (p\<lparr>pl_track_ops := ops\<rparr>) = (calls1, p1)" by fastforce
    have left: "work_left (pl_track_ops p1) = 0 \<and> (calls1 = [] \<or> calls1 = [RefreshSeekAsync (an_seqnum (answers k))])"
      using dispatch_flush [OF d] s c by simp
    then have "pump_loop answers (Suc k) p1 = ([], p1)" by (simp add: nothing_left pump_loop_idle)
    from pump_loop_round [OF pu [unfolded Some c] d this] assms(2) left s show ?thesis by auto
  qed
qed

text \<open>
  C30: one track operation at a time: a pump of the queue sends nothing, one selection, one flush, or a
  selection with its flush behind it while paused; and it sends something only when the machine runs, the
  pipeline says no asynchronous change is in progress, no flush is in flight, and no selection is, unless
  playback is paused.
\<close>

theorem one_track_operation_at_a_time:
  assumes "pump_track_ops answers p = (calls, p')"
  shows "(calls = [] \<or> (\<exists>ids sn. calls = [SelectStreamsAsync ids sn]) \<or> (\<exists>sn. calls = [RefreshSeekAsync sn]) \<or>
      (\<exists>ids sn sn'. calls = [SelectStreamsAsync ids sn, RefreshSeekAsync sn'] \<and>
        running (pl_machine p) = Some Rs_Paused)) \<and>
    (calls \<noteq> [] \<longrightarrow> running (pl_machine p) \<noteq> None \<and> \<not> an_busy (answers 0) \<and> to_refreshing (pl_track_ops p) = None \<and>
      (to_selecting (pl_track_ops p) \<noteq> None \<longrightarrow> running (pl_machine p) = Some Rs_Paused))"
proof -
  have ctx: "tx_quiet (track_op_ctx_of a q) \<longleftrightarrow> running (pl_machine q) \<noteq> None \<and> \<not> an_busy a"
    "tx_paused (track_op_ctx_of a q) \<longleftrightarrow> running (pl_machine q) = Some Rs_Paused" for a q
    by (auto simp: track_op_ctx_of_def Let_def split: option.splits)
  note sent = assms [unfolded pump_track_ops_def]
  obtain cmd ops where pu: "pump (track_op_ctx_of (answers 0) p) (pl_track_ops p) = (cmd, ops)" by fastforce
  show ?thesis
  proof (cases cmd)
    case None
    with pump_loop_held [of answers 0 p ops] pu sent show ?thesis by auto
  next
    case (Some c)
    note s = pump_Some [OF pu [unfolded Some]]
    let ?p = "p\<lparr>pl_track_ops := ops\<rparr>"
    obtain calls1 p1 where d: "dispatch (answers 0) c ?p = (calls1, p1)" by fastforce
    obtain calls2 p2 where r: "pump_loop answers (Suc 0) p1 = (calls2, p2)" by fastforce
    have calls: "calls = calls1 @ calls2" using pump_loop_round [OF pu [unfolded Some] d r] sent by simp
    have m: "running (pl_machine p1) = running (pl_machine p)"
      using tracks_only_fields(1) [OF dispatch_frame [OF d]] by simp
    show ?thesis
    proof (cases c)
      case RefreshSeek
      with dispatch_flush [of "answers 0" ?p calls1 p1] d s
      have "work_left (pl_track_ops p1) = 0" "calls1 = [] \<or> (\<exists>sn. calls1 = [RefreshSeekAsync sn])" by auto
      moreover from this(1) have "calls2 = []" using r by (simp add: nothing_left pump_loop_idle)
      ultimately show ?thesis using calls s ctx by auto
    next
      case (SelectStreams sel)
      note sd = dispatch_selection [OF d [unfolded SelectStreams]]
      have none: "to_pending (pl_track_ops ?p) = None" using s by simp
      note f = pump_loop_flush [OF sd(1) [OF none] r]
      have "calls2 = []" if "calls1 = []"
        using sd(2) [OF none] that r by (auto simp: nothing_left pump_loop_idle)
      then show ?thesis using sd(2) [OF none] f calls s ctx m by auto
    qed
  qed
qed

text \<open>Several changes on one selection, in order.\<close>

definition composed :: "(track_kind \<times> stream_id option) list \<Rightarrow> track_selection \<Rightarrow> track_selection" where
  "composed changes sel = fold (\<lambda>(kind, sid). set_slot kind sid) changes sel"

lemma composed_simps [simp]:
  "composed [] sel = sel" "composed ((kind, sid) # changes) sel = composed changes (set_slot kind sid sel)"
  by (simp_all add: composed_def)

definition no_operation :: "track_ops \<Rightarrow> bool" where
  "no_operation ops \<longleftrightarrow> to_selecting ops = None \<and> to_refreshing ops = None \<and> \<not> to_refresh_wanted ops"

lemma busy_pump: "an_busy (answers 0) \<Longrightarrow> pump_track_ops answers p = ([], p)"
  by (simp add: pump_track_ops_def pump_loop.simps [of answers 0] pump_def track_op_ctx_of_def Let_def
      split: option.splits)

lemma busy_requests:
  assumes "an_busy (answers 0)" and "no_operation (pl_track_ops p)"
  shows "\<exists>ops. player_run cast_rate language_name
        (map (\<lambda>(kind, sid). DoTrackChange answers kind sid suppress) changes) p =
      Some ([], p\<lparr>pl_track_ops := ops\<rparr>) \<and> no_operation ops \<and>
    (changes \<noteq> [] \<longrightarrow> to_pending ops =
       Some (composed changes (case to_pending (pl_track_ops p) of Some d \<Rightarrow> d | None \<Rightarrow> pl_selected p)))"
  using assms(2)
proof (induction changes arbitrary: p)
  case Nil
  show ?case by (rule exI [of _ "pl_track_ops p"]) (use Nil in simp)
next
  case (Cons change changes)
  obtain kind sid where change: "change = (kind, sid)" by fastforce
  let ?ops = "if suppress then suppress_refresh (request kind sid (pl_selected p) (pl_track_ops p))
    else request kind sid (pl_selected p) (pl_track_ops p)"
  let ?p = "p\<lparr>pl_track_ops := ?ops\<rparr>"
  have one: "player_do cast_rate language_name (DoTrackChange answers kind sid suppress) p = Some ([], ?p)"
    by (simp add: player_do_def request_track_change_impl_def Let_def busy_pump [of answers, OF assms(1)])
  have ops: "no_operation ?ops" "to_pending ?ops =
      Some (set_slot kind sid (case to_pending (pl_track_ops p) of Some d \<Rightarrow> d | None \<Rightarrow> pl_selected p))"
    using Cons.prems by (simp_all add: no_operation_def request_def suppress_refresh_def Let_def)
  obtain ops' where r: "player_run cast_rate language_name
        (map (\<lambda>(kind, sid). DoTrackChange answers kind sid suppress) changes) ?p = Some ([], ?p\<lparr>pl_track_ops := ops'\<rparr>)"
      "no_operation ops'"
      "changes \<noteq> [] \<longrightarrow> to_pending ops' = Some (composed changes (case to_pending ?ops of Some d \<Rightarrow> d | None \<Rightarrow> pl_selected ?p))"
    using Cons.IH [of ?p] ops(1) by auto
  have last: "ops' = ?ops" if "changes = []"
    using r(1) that by (simp; drule_tac f = pl_track_ops in arg_cong; auto)
  show ?case
  proof (intro exI conjI impI)
    show "player_run cast_rate language_name
        (map (\<lambda>(kind, sid). DoTrackChange answers kind sid suppress) (change # changes)) p = Some ([], p\<lparr>pl_track_ops := ops'\<rparr>)"
      using one r(1) by (simp add: change)
    show "no_operation ops'" by (rule r(2))
    show "to_pending ops' = Some (composed (change # changes)
        (case to_pending (pl_track_ops p) of Some d \<Rightarrow> d | None \<Rightarrow> pl_selected p))"
      using last r(3) ops(2) by (cases "changes = []") (simp_all add: change)
  qed
qed

lemma dispatch_sends:
  assumes "an_accepts ans" and "ids = selection_ids (pl_streams p) (sent_selection sel)" and "ids \<noteq> []"
  shows "\<exists>p'. dispatch ans (SelectStreams sel) p = ([SelectStreamsAsync ids (an_seqnum ans)], p')"
  using assms by (simp add: dispatch_def select_streams_def Let_def)

lemma quiet_selection:
  assumes "running (pl_machine p) \<noteq> None" and "\<not> an_busy (answers 0)" and "an_accepts (answers 0)"
    and "no_operation (pl_track_ops p)" and "to_pending (pl_track_ops p) = Some desired"
    and "desired \<noteq> pl_selected p" and "selection_ids (pl_streams p) (sent_selection desired) \<noteq> []"
  shows "\<exists>rest p'. pump_track_ops answers p =
      (SelectStreamsAsync (selection_ids (pl_streams p) (sent_selection desired)) (an_seqnum (answers 0)) # rest, p')"
proof -
  have ctx: "tx_quiet (track_op_ctx_of (answers 0) p)" "tx_applied (track_op_ctx_of (answers 0) p) = pl_selected p"
    using assms(1,2) by (auto simp: track_op_ctx_of_def Let_def split: option.splits)
  have "fst (pump (track_op_ctx_of (answers 0) p) (pl_track_ops p)) = Some (SelectStreams desired)"
    using ctx assms(4-6) by (simp add: pump_def no_operation_def Let_def)
  then obtain ops where pu: "pump (track_op_ctx_of (answers 0) p) (pl_track_ops p) = (Some (SelectStreams desired), ops)"
    by (cases "pump (track_op_ctx_of (answers 0) p) (pl_track_ops p)") simp
  obtain p1 where d: "dispatch (answers 0) (SelectStreams desired) (p\<lparr>pl_track_ops := ops\<rparr>) =
      ([SelectStreamsAsync (selection_ids (pl_streams p) (sent_selection desired)) (an_seqnum (answers 0))], p1)"
    using dispatch_sends [OF assms(3) refl, of "p\<lparr>pl_track_ops := ops\<rparr>" desired] assms(7) by auto
  obtain calls' p2 where "pump_loop answers (Suc 0) p1 = (calls', p2)" by fastforce
  from pump_loop_round [OF pu d this] show ?thesis by (simp add: pump_track_ops_def)
qed

theorem one_track_operation_at_a_time_witness:
  "\<exists>calls p'. pump_track_ops (\<lambda>_. demo_answer) (demo_player (Running Rs_Playing)) = (calls, p') \<and>
    calls = [SelectStreamsAsync [''v'', ''a2''] 9]"
proof -
  let ?p = "demo_player (Running Rs_Playing)"
  obtain rest p' where r: "pump_track_ops (\<lambda>_. demo_answer) ?p = (SelectStreamsAsync [''v'', ''a2''] 9 # rest, p')"
    using quiet_selection [of ?p "\<lambda>_. demo_answer" demo_change]
    by (auto simp: demo_simps no_operation_def track_ops_new_def)
  from one_track_operation_at_a_time [OF r] show ?thesis
    using r by (auto simp: demo_simps)
qed

text \<open>
  C31: track changes that come while the pipeline is busy send nothing and are not lost: with no track
  operation on its way and no request waiting before them, the first pump that finds the player running
  and the pipeline quiet sends one selection, the one all of them make together, in order, of what was
  selected before, provided that this differs from what is selected, names at least one stream, and the
  pipeline accepts it.
\<close>

theorem track_requests_coalesce:
  assumes "an_busy (busy 0)" and "no_operation (pl_track_ops p)" and "to_pending (pl_track_ops p) = None"
    and "changes \<noteq> []" and "running (pl_machine p) \<noteq> None" and "\<not> an_busy (answers 0)" and "an_accepts (answers 0)"
    and "desired = composed changes (pl_selected p)" and "desired \<noteq> pl_selected p"
    and "ids = selection_ids (pl_streams p) (sent_selection desired)" and "ids \<noteq> []"
  shows "\<exists>p' p'' rest. player_run cast_rate language_name
      (map (\<lambda>(kind, sid). DoTrackChange busy kind sid suppress) changes) p = Some ([], p') \<and>
    poll_track_ops answers p' = (SelectStreamsAsync ids (an_seqnum (answers 0)) # rest, p'')"
proof -
  obtain ops where r: "player_run cast_rate language_name
        (map (\<lambda>(kind, sid). DoTrackChange busy kind sid suppress) changes) p = Some ([], p\<lparr>pl_track_ops := ops\<rparr>)"
      "no_operation ops" "to_pending ops = Some desired"
    using busy_requests [where answers = busy and cast_rate = cast_rate and language_name = language_name
        and suppress = suppress and changes = changes, OF assms(1,2)] assms(3,4,8) by auto
  have "\<exists>rest p''. pump_track_ops answers (p\<lparr>pl_track_ops := ops\<rparr>) =
      (SelectStreamsAsync ids (an_seqnum (answers 0)) # rest, p'')"
    using quiet_selection [of "p\<lparr>pl_track_ops := ops\<rparr>" answers desired] r(2,3) assms(5-7,9-11) by simp
  with r(1) show ?thesis by (auto simp: poll_track_ops_def)
qed

theorem track_requests_coalesce_witness:
  "\<exists>p' p'' rest. player_run (\<lambda>_. 0) (\<lambda>_. None)
      (map (\<lambda>(kind, sid). DoTrackChange (\<lambda>_. demo_answer\<lparr>an_busy := True\<rparr>) kind sid False)
        [(KindAudio, None), (KindAudio, Some ''a2'')]) (demo_player (Running Rs_Playing)\<lparr>pl_track_ops := track_ops_new\<rparr>) =
      Some ([], p') \<and>
    poll_track_ops (\<lambda>_. demo_answer) p' = (SelectStreamsAsync [''v'', ''a2''] 9 # rest, p'')"
proof -
  let ?p = "demo_player (Running Rs_Playing)\<lparr>pl_track_ops := track_ops_new\<rparr>"
  from track_requests_coalesce [of "\<lambda>_. demo_answer\<lparr>an_busy := True\<rparr>" ?p "[(KindAudio, None), (KindAudio, Some ''a2'')]"
      "\<lambda>_. demo_answer" demo_change "[''v'', ''a2'']" "\<lambda>_. 0" "\<lambda>_. None" False]
  show ?thesis by (simp add: demo_simps no_operation_def track_ops_new_def)
qed

text \<open>
  C36: a late confirmation reverts a track change: while paused a second selection may go out before the
  first is confirmed; when the first one's confirmation then arrives, the player takes it for what is
  selected, and the next change of another track is composed with it and not with the selection sent
  last, which is thereby undone.
\<close>

theorem stale_confirmation_reverts_change:
  assumes "running (pl_machine p) = Some Rs_Paused" and "to_pending (pl_track_ops p) = None"
    and "to_refreshing (pl_track_ops p) = None" and "\<not> to_refresh_wanted (pl_track_ops p)"
    and "to_selecting (pl_track_ops p) = Some (latest, newer)" and "(first, older) \<in> set (to_superseded (pl_track_ops p))"
    and "first \<noteq> latest" and "older \<noteq> newer" and "set_slot kind sid older \<noteq> older"
    and "ids = selection_ids (pl_streams p) (sent_selection (set_slot kind sid older))" and "ids \<noteq> []"
    and "\<not> an_busy (answers 0)" and "an_accepts (answers 0)"
  shows "\<exists>p' stale rest p''. streams_selected answers older first p = (older, [PollTextPolicy], p') \<and>
    to_selecting (pl_track_ops p') = Some (latest, newer) \<and>
    request_track_change answers kind sid p' = (stale, SelectStreamsAsync ids (an_seqnum (answers 0)) # rest, p'')"
proof -
  let ?p = "p\<lparr>pl_selected := older\<rparr>"
  have "selection_confirmed first older (pl_track_ops p) = pl_track_ops p"
    using assms(5-8) by (auto simp: selection_confirmed_def)
  then have sel: "streams_selected answers older first p = (older, [PollTextPolicy], ?p)"
    using assms(2,4)
    by (simp add: streams_selected_def then_pump_def pump_track_ops_def pump_loop_idle has_dispatchable_work_def Let_def)
  let ?ops = "request kind sid older (pl_track_ops p)"
  let ?q = "?p\<lparr>pl_track_ops := ?ops\<rparr>"
  have ops: "to_pending ?ops = Some (set_slot kind sid older)" "to_refreshing ?ops = None"
    "to_selecting ?ops = Some (latest, newer)" "\<not> to_refresh_wanted ?ops"
    using assms(2-5) by (simp_all add: request_def)
  have ctx: "tx_quiet (track_op_ctx_of (answers 0) ?q)" "tx_paused (track_op_ctx_of (answers 0) ?q)"
    "tx_applied (track_op_ctx_of (answers 0) ?q) = older"
    using assms(1,12) by (simp_all add: track_op_ctx_of_def Let_def)
  have "fst (pump (track_op_ctx_of (answers 0) ?q) (pl_track_ops ?q)) = Some (SelectStreams (set_slot kind sid older))"
    using ctx ops assms(9) by (simp add: pump_def Let_def)
  then obtain ops' where pu: "pump (track_op_ctx_of (answers 0) ?q) (pl_track_ops ?q) =
      (Some (SelectStreams (set_slot kind sid older)), ops')"
    by (cases "pump (track_op_ctx_of (answers 0) ?q) (pl_track_ops ?q)") simp
  obtain p1 where d: "dispatch (answers 0) (SelectStreams (set_slot kind sid older)) (?q\<lparr>pl_track_ops := ops'\<rparr>) =
      ([SelectStreamsAsync ids (an_seqnum (answers 0))], p1)"
    using dispatch_sends [OF assms(13) refl, of "?q\<lparr>pl_track_ops := ops'\<rparr>" "set_slot kind sid older"] assms(10,11)
    by auto
  obtain calls' p2 where "pump_loop answers (Suc 0) p1 = (calls', p2)" by fastforce
  from pump_loop_round [OF pu d this] sel show ?thesis
    using assms(5) by (auto simp: request_track_change_def request_track_change_impl_def pump_track_ops_def Let_def)
qed

definition demo_overlap :: track_ops where
  "demo_overlap = track_ops_new\<lparr>to_selecting := Some (2, demo_change), to_superseded := [(1, demo_selection)]\<rparr>"

theorem stale_confirmation_reverts_change_witness:
  "\<exists>p' stale rest p''. streams_selected (\<lambda>_. demo_answer) demo_selection 1
      (demo_player (Running Rs_Paused)\<lparr>pl_track_ops := demo_overlap\<rparr>) = (demo_selection, [PollTextPolicy], p') \<and>
    request_track_change (\<lambda>_. demo_answer) KindVideo None p' = (stale, SelectStreamsAsync [''a1''] 9 # rest, p'')"
proof -
  let ?p = "demo_player (Running Rs_Paused)\<lparr>pl_track_ops := demo_overlap\<rparr>"
  from stale_confirmation_reverts_change [of ?p 2 demo_change 1 demo_selection KindVideo None "[''a1'']" "\<lambda>_. demo_answer"]
  show ?thesis by (auto simp: demo_simps demo_overlap_def track_ops_new_def)
qed

end
