(* ===== verification/Player_Transport.thy ===== *)
theory Player_Transport
  imports Player_Proofs
begin

text \<open>
  Properties of the player between a load and its playback: what a load leaves the transport at, which
  events of the pipeline belong to it, and the orders of events in which a request is lost.
\<close>

section \<open>While nothing is running\<close>

lemma resting_pump: "running (pl_machine p) = None \<Longrightarrow> pump_track_ops answers p = ([], p)"
  by (simp add: pump_track_ops_def pump_loop.simps [of answers 0] pump_def track_op_ctx_of_def Let_def)

lemma resting_then_pump: "running (pl_machine p) = None \<Longrightarrow> then_pump answers (calls, p) = (calls, p)"
  by (simp add: then_pump_def resting_pump)

lemma idle_pump: "\<not> has_dispatchable_work (pl_track_ops p) \<Longrightarrow> then_pump answers (calls, p) = (calls, p)"
  by (simp add: then_pump_def pump_track_ops_def pump_loop.simps)

text \<open>What a user may ask for, and the calls that move the pipeline.\<close>

definition user_call :: "player_call \<Rightarrow> bool" where
  "user_call call \<longleftrightarrow> (case call of
     DoPlay \<Rightarrow> True | DoPause \<Rightarrow> True | DoSeek _ \<Rightarrow> True | DoSetRate _ \<Rightarrow> True | DoSetVolume _ \<Rightarrow> True
   | DoTrackChange _ _ _ _ \<Rightarrow> True | DoPollTrackOps _ \<Rightarrow> True | DoAttachSubtitle _ \<Rightarrow> True | _ \<Rightarrow> False)"

definition moves_pipeline :: "playbin_call \<Rightarrow> bool" where
  "moves_pipeline c \<longleftrightarrow> (case c of
     SetStateAsync _ \<Rightarrow> True | SeekAsync _ \<Rightarrow> True | SelectStreamsAsync _ _ \<Rightarrow> True | RefreshSeekAsync _ \<Rightarrow> True
   | StopAsync \<Rightarrow> True | LoadAsync _ _ _ \<Rightarrow> True | _ \<Rightarrow> False)"

definition stuck :: "player \<Rightarrow> bool" where
  "stuck p \<longleftrightarrow> slot (pl_machine p) \<noteq> Slot_None \<and> \<not> is_buffering (sm_phase (pl_machine p))"

lemma stuck_not_running: "stuck p \<Longrightarrow> running (pl_machine p) = None \<and> player_state_of p = PlBuffering"
  by (auto simp: stuck_def running_def player_state_of_def is_stopped_def split: phase.splits seek_slot.splits)

lemma stuck_ops [simp]: "stuck (p\<lparr>pl_track_ops := ops\<rparr>) = stuck p" "stuck (p\<lparr>pl_playbin := pb\<rparr>) = stuck p"
  by (simp_all add: stuck_def)

lemma stuck_call:
  assumes "stuck p" and "user_call call"
  shows "\<exists>calls p'. player_do cast_rate language_name call p = Some (calls, p') \<and> stuck p' \<and> \<not> (\<exists>c \<in> set calls. moves_pipeline c)"
proof (cases call)
  case DoPlay
  with assms(1) show ?thesis by (auto simp: call_defs set_playback_state_def stuck_def Let_def)
next
  case DoPause
  with assms(1) show ?thesis by (auto simp: call_defs set_playback_state_def stuck_def Let_def)
next
  case (DoSeek position)
  with assms(1) show ?thesis
    by (auto simp: call_defs player_seek_def seek_internal_def stuck_def Let_def split: seek_slot.splits)
next
  case (DoSetRate rate)
  with assms(1) show ?thesis
    by (auto simp: call_defs player_seek_def seek_internal_def stuck_def Let_def split: seek_slot.splits)
next
  case (DoSetVolume volume)
  with assms(1) show ?thesis by (auto simp: player_do_def set_volume_def stuck_def moves_pipeline_def Let_def)
next
  case (DoTrackChange answers kind sid suppress)
  with assms(1) show ?thesis
    using stuck_not_running [OF assms(1)] by (simp add: player_do_def request_track_change_impl_def resting_pump Let_def)
next
  case (DoPollTrackOps answers)
  with assms(1) show ?thesis
    using stuck_not_running [OF assms(1)] by (simp add: player_do_def poll_track_ops_def resting_pump)
next
  case (DoAttachSubtitle url)
  with assms(1) show ?thesis
    by (simp add: player_do_def attach_external_subtitle_def allocate_subtitle_id_def moves_pipeline_def)
qed (use assms in \<open>simp_all add: user_call_def\<close>)

lemma stuck_run:
  assumes "stuck p" and "list_all user_call todo"
  shows "\<exists>calls p'. player_run cast_rate language_name todo p = Some (calls, p') \<and> stuck p' \<and> \<not> (\<exists>c \<in> set calls. moves_pipeline c)"
  using assms
proof (induction todo arbitrary: p)
  case (Cons call todo)
  obtain calls p' where c: "player_do cast_rate language_name call p = Some (calls, p')" "stuck p'"
      "\<not> (\<exists>c \<in> set calls. moves_pipeline c)"
    using stuck_call [of p call cast_rate language_name] Cons.prems by auto
  from Cons.IH [OF c(2)] Cons.prems c show ?case by auto
qed simp

section \<open>A load\<close>

abbreviation start_point_of :: "restore_point option \<Rightarrow> start_point" where
  "start_point_of start \<equiv>
     (case start of Some rp \<Rightarrow> StartSeek (rp_position rp) (f64_of_f32 (rp_rate rp)) | None \<Rightarrow> StartLive)"

text \<open>A player whose load is on its way, and the one a load leaves.\<close>

definition loading :: "player \<Rightarrow> bool" where
  "loading p \<longleftrightarrow> sm_phase (pl_machine p) = Loading \<and> slot (pl_machine p) = Slot_None"

lemma set_volume_moves_nothing: "set_volume v p = (calls, p') \<Longrightarrow> filter moves_pipeline calls = []"
  by (auto simp: set_volume_def Let_def moves_pipeline_def split: if_splits)

lemma cleared_player:
  assumes "clear_player_state p = (calls, p')"
  shows "filter moves_pipeline calls = []" "pl_machine p' = pl_machine p" "pl_seekable_known p' = False"
    "pl_desired_transport p' = pl_desired_transport p" "pl_expected_generation p' = None"
    "pb_next_generation (pl_playbin p') = pb_next_generation (pl_playbin p)"
  using assms
  by (auto simp: clear_player_state_def set_volume_def playbin_set_volume_def moves_pipeline_def Let_def
      split: option.splits if_splits)

lemma loaded_player:
  assumes "load src start p = (calls, p')"
  shows "filter moves_pipeline calls = [LoadAsync src (start_point_of start) (pb_next_generation (pl_playbin p) + 1)]"
    "pl_machine p' = begin_load (clear_state (pl_machine p))" "pl_seekable_known p' = False"
    "pl_desired_transport p' = Rs_Playing"
    "pl_expected_generation p' = Some (pb_next_generation (pl_playbin p) + 1)"
    "pb_next_generation (pl_playbin p') = pb_next_generation (pl_playbin p) + 1"
proof -
  obtain calls1 p1 where c: "clear_player_state (p\<lparr>pl_desired_transport := Rs_Playing\<rparr>) = (calls1, p1)" by fastforce
  note d = cleared_player [OF c]
  show "filter moves_pipeline calls = [LoadAsync src (start_point_of start) (pb_next_generation (pl_playbin p) + 1)]"
    "pl_machine p' = begin_load (clear_state (pl_machine p))" "pl_seekable_known p' = False"
    "pl_desired_transport p' = Rs_Playing"
    "pl_expected_generation p' = Some (pb_next_generation (pl_playbin p) + 1)"
    "pb_next_generation (pl_playbin p') = pb_next_generation (pl_playbin p) + 1"
    using assms c d by (auto simp: load_def set_source_def allocate_generation_def moves_pipeline_def Let_def)
qed

lemma player_run_Cons:
  "player_do cast_rate language_name call p = Some (calls1, p1) \<Longrightarrow>
   player_run cast_rate language_name todo p1 = Some (calls2, p2) \<Longrightarrow>
   player_run cast_rate language_name (call # todo) p = Some (calls1 @ calls2, p2)"
  by simp

section \<open>Requests that are lost\<close>



text \<open>
  A change of speed the worker cannot perform blocks the player: when the pipeline is settled at PAUSED
  and does not know its position, the worker drops the seek without an event, the player waits for its end
  for ever, and no later request of the user reaches the pipeline.
\<close>

theorem unanswered_seek_is_stuck:
  assumes "running (pl_machine p) = Some Rs_Paused" and "\<not> is_live (pl_machine p)" and "pl_seekable p"
    and "rate_is_safe rate" and "list_all user_call todo"
  shows "\<exists>p' calls' p''. player_do cast_rate language_name (DoSetRate rate) p =
      Some ([SeekAsync \<lparr>s_position = None, s_rate = Some rate\<rparr>], p') \<and>
    run_seek_job Paused VoidPending None accepts \<lparr>s_position = None, s_rate = Some rate\<rparr> = ([], False) \<and>
    player_run cast_rate language_name todo p' = Some (calls', p'') \<and>
    filter moves_pipeline calls' = [] \<and> player_state_of p'' = PlBuffering"
proof -
  have m: "sm_phase (pl_machine p) = Running Rs_Paused" "slot (pl_machine p) = Slot_None"
    using assms(1) by (auto simp: running_def split: phase.splits seek_slot.splits)
  define p' where "p' = p\<lparr>pl_track_ops := cancel_refresh (pl_track_ops p),
    pl_machine := (pl_machine p)\<lparr>target := Paused, slot := InFlight\<rparr>\<rparr>"
  have "player_do cast_rate language_name (DoSetRate rate) p = Some ([SeekAsync \<lparr>s_position = None, s_rate = Some rate\<rparr>], p')"
    using assms(2-4) m by (simp add: call_defs player_seek_def seek_internal_def is_stopped_def p'_def)
  moreover have "stuck p'" using m by (simp add: stuck_def p'_def)
  ultimately show ?thesis
    using stuck_run [of p' todo cast_rate language_name] assms(5) stuck_not_running
    by (auto simp: run_seek_job_def filter_empty_conv; blast)
qed

theorem unanswered_seek_is_stuck_witness:
  "\<exists>p' calls' p''. player_do (\<lambda>_. 0) (\<lambda>_. None) (DoSetRate 0x40000000) (demo_player (Running Rs_Paused)) =
      Some ([SeekAsync \<lparr>s_position = None, s_rate = Some 0x40000000\<rparr>], p') \<and>
    player_run (\<lambda>_. 0) (\<lambda>_. None) [DoPlay, DoSeek 5] p' = Some (calls', p'') \<and>
    filter moves_pipeline calls' = [] \<and> player_state_of p'' = PlBuffering"
proof -
  have rate: "rate_is_safe 0x40000000" by code_simp
  have todo: "list_all user_call [DoPlay, DoSeek 5]" by (simp add: user_call_def)
  have "running (pl_machine (demo_player (Running Rs_Paused))) = Some Rs_Paused"
    "\<not> is_live (pl_machine (demo_player (Running Rs_Paused)))" "pl_seekable (demo_player (Running Rs_Paused))"
    by (simp_all add: demo_simps)
  from unanswered_seek_is_stuck [OF this rate todo] show ?thesis by blast
qed

text \<open>
  C35: a dip of the buffer that is over before the pipeline has paused leaves the playback paused: when the
  report of 100 percent comes before the edge to PAUSED that the dip asked for, the machine takes the old
  state for the target reached and sends nothing; the edge then settles the player at paused although
  play was asked for last.
\<close>

theorem short_buffering_dip_pauses:
  assumes "running (pl_machine p) = Some Rs_Playing" and "current_state (pl_machine p) = Playing"
    and "\<not> has_dispatchable_work (pl_track_ops p)" and "percent < 100"
  shows "\<exists>p'. player_run cast_rate language_name
      [DoBuffering answers percent, DoBuffering answers 100, DoStateChanged Playing Paused VoidPending] p =
        Some ([SetStateAsync Paused, PollTextPolicy], p') \<and>
    player_state_of p' = PlPaused \<and> pl_desired_transport p' = pl_desired_transport p"
proof -
  have m: "sm_phase (pl_machine p) = Running Rs_Playing" "slot (pl_machine p) = Slot_None"
    using assms(1) by (auto simp: running_def split: phase.splits seek_slot.splits)
  show ?thesis
    using assms(2-4) m
    by (simp add: call_defs buffering_def state_changed_def running_edge_def idle_pump player_state_of_def
        is_stopped_def running_def)
qed

theorem short_buffering_dip_pauses_witness:
  "\<exists>p'. player_run (\<lambda>_. 0) (\<lambda>_. None)
      [DoBuffering (\<lambda>_. demo_answer) 50, DoBuffering (\<lambda>_. demo_answer) 100, DoStateChanged Playing Paused VoidPending]
      (demo_player (Running Rs_Playing)\<lparr>pl_track_ops := track_ops_new\<rparr>) = Some ([SetStateAsync Paused, PollTextPolicy], p') \<and>
    player_state_of p' = PlPaused"
proof -
  let ?p = "demo_player (Running Rs_Playing)\<lparr>pl_track_ops := track_ops_new\<rparr>"
  have "\<not> has_dispatchable_work (pl_track_ops ?p)" by (simp add: has_dispatchable_work_def track_ops_new_def)
  from short_buffering_dip_pauses [OF _ _ this, of 50 "\<lambda>_. 0" "\<lambda>_. None" "\<lambda>_. demo_answer"]
  show ?thesis by (auto simp: demo_simps)
qed

section \<open>The transport after a load\<close>

text \<open>What may come between the load and its end, and what it leaves wanted.\<close>

definition while_loading :: "player_call \<Rightarrow> bool" where
  "while_loading call \<longleftrightarrow> (case call of
     DoPlay \<Rightarrow> True | DoPause \<Rightarrow> True | DoSetVolume _ \<Rightarrow> True | DoVolumeChanged \<Rightarrow> True | DoTrackChange _ _ _ _ \<Rightarrow> True
   | DoPollTrackOps _ \<Rightarrow> True | DoAsyncDone _ \<Rightarrow> True | DoStreamsSelected _ _ _ \<Rightarrow> True | DoAttachSubtitle _ \<Rightarrow> True
   | DoStreamCollection _ _ \<Rightarrow> True | DoUpdateProperties _ \<Rightarrow> True | DoUpdateMediaInfo _ _ \<Rightarrow> True
   | DoRateChanged _ \<Rightarrow> True | DoSetLive _ \<Rightarrow> True | DoSeekFailed \<Rightarrow> True | _ \<Rightarrow> False)"

definition asked_transport :: "player_call \<Rightarrow> running_state \<Rightarrow> running_state" where
  "asked_transport call rs = (case call of DoPlay \<Rightarrow> Rs_Playing | DoPause \<Rightarrow> Rs_Paused | _ \<Rightarrow> rs)"

lemma loading_not_running: "loading p \<Longrightarrow> running (pl_machine p) = None"
  by (simp add: loading_def running_def)

lemma set_volume_keeps:
  "set_volume v p = (calls, p') \<Longrightarrow> pl_machine p' = pl_machine p \<and> pl_desired_transport p' = pl_desired_transport p"
  "volume_changed p = (calls, p') \<Longrightarrow> pl_machine p' = pl_machine p \<and> pl_desired_transport p' = pl_desired_transport p"
  by (auto simp: set_volume_def volume_changed_def Let_def split: if_splits option.splits)

lemma collection_keeps:
  "handle_stream_collection language_name tags collection p = (calls, p') \<Longrightarrow>
   pl_machine p' = pl_machine p \<and> pl_desired_transport p' = pl_desired_transport p"
  by (auto simp: handle_stream_collection_def cleanup_stream_collection_def Let_def split: prod.splits option.splits)

lemma pumped_keeps:
  "pump_track_ops answers p = (calls, p') \<Longrightarrow> pl_machine p' = pl_machine p \<and> pl_desired_transport p' = pl_desired_transport p"
  "then_pump answers (calls0, p) = (calls, p') \<Longrightarrow> pl_machine p' = pl_machine p \<and> pl_desired_transport p' = pl_desired_transport p"
  by (auto dest: pump_frame then_pump_frame simp: tracks_only_fields)

lemma loading_call:
  assumes "loading p" and "while_loading call"
  shows "\<exists>calls p'. player_do cast_rate language_name call p = Some (calls, p') \<and> loading p' \<and>
    pl_desired_transport p' = asked_transport call (pl_desired_transport p)"
proof -
  have total: "\<exists>calls p'. player_do cast_rate language_name call p = Some (calls, p')"
    using assms by (cases call) (simp_all add: while_loading_def call_defs set_playback_state_def loading_def)
  then obtain calls p' where r: "player_do cast_rate language_name call p = Some (calls, p')" by blast
  have "loading p' \<and> pl_desired_transport p' = asked_transport call (pl_desired_transport p)"
    using assms r
    by (cases call)
       (auto simp: while_loading_def call_defs set_playback_state_def loading_def asked_transport_def
          seek_failed_def update_media_info_def allocate_subtitle_id_def
        dest!: set_volume_keeps collection_keeps pumped_keeps split: prod.splits option.splits)
  with r show ?thesis by blast
qed

lemma loading_run:
  assumes "loading p" and "list_all while_loading todo"
  shows "\<exists>calls p'. player_run cast_rate language_name todo p = Some (calls, p') \<and> loading p' \<and>
    pl_desired_transport p' = fold asked_transport todo (pl_desired_transport p)"
  using assms
proof (induction todo arbitrary: p)
  case (Cons call todo)
  obtain calls p' where c: "player_do cast_rate language_name call p = Some (calls, p')" "loading p'"
      "pl_desired_transport p' = asked_transport call (pl_desired_transport p)"
    using loading_call [of p call cast_rate language_name] Cons.prems by auto
  from Cons.IH [OF c(2)] Cons.prems c show ?case by auto
qed simp

text \<open>The edges of a pipeline that goes up to a state.\<close>

fun preroll_edges :: "running_state \<Rightarrow> player_call list" where
  "preroll_edges Rs_Paused = [DoStateChanged Ready Paused VoidPending]"
| "preroll_edges Rs_Playing = [DoStateChanged Ready Paused Playing, DoStateChanged Paused Playing VoidPending]"

text \<open>
  C29: a load ends in the transport asked for: whatever play, pause, volume, track, stream and media
  information events come while it is on its way (\<open>while_loading\<close>), its end commits the last play or pause
  of them (play when there was none) as the one command to the pipeline, and the edges of a pipeline that
  obeys leave the player there. Not among these events, and not covered, are seeks and changes of speed,
  reports of the buffer and edges of the pipeline before the load is done: with a change of speed the
  player may even be stuck (\<open>rate_change_while_loading_is_stuck\<close>).
\<close>

theorem load_ends_in_transport_asked:
  assumes "list_all while_loading todo" and "desired = fold asked_transport todo Rs_Playing"
  shows "\<exists>calls1 p1 p2 calls3 p3. player_run cast_rate language_name (DoLoad src start # todo) p = Some (calls1, p1) \<and>
    player_do cast_rate language_name DoUriLoaded p1 = Some ([SetStateAsync (running_state_into desired)], p2) \<and>
    player_run cast_rate language_name (preroll_edges desired) p2 = Some (calls3, p3) \<and>
    filter moves_pipeline calls3 = [] \<and> running (pl_machine p3) = Some desired"
proof -
  obtain calls p0 where l: "load src start p = (calls, p0)" by fastforce
  note p0 = loaded_player [OF l]
  have "loading p0" by (simp add: loading_def p0(2) begin_load_def)
  then obtain calls1 p1 where r: "player_run cast_rate language_name todo p0 = Some (calls1, p1)" "loading p1"
      "pl_desired_transport p1 = desired"
    using loading_run [of p0 todo cast_rate language_name] assms p0(4) by auto
  define p2 where "p2 = p1\<lparr>pl_machine := (pl_machine p1)\<lparr>target := running_state_into desired\<rparr>\<rparr>"
  have u: "player_do cast_rate language_name DoUriLoaded p1 = Some ([SetStateAsync (running_state_into desired)], p2)"
    using r(2,3) by (simp add: call_defs set_playback_state_def loading_def running_def p2_def)
  have "\<exists>calls3 p3. player_run cast_rate language_name (preroll_edges desired) p2 = Some (calls3, p3) \<and>
      filter moves_pipeline calls3 = [] \<and> running (pl_machine p3) = Some desired"
    using r(2)
    by (cases desired)
       (simp_all add: call_defs loading_def p2_def state_changed_def idle_edge_def running_edge_def running_def
        moves_pipeline_def)
  with l r(1) u show ?thesis by (auto simp: player_do_def)
qed

theorem load_ends_in_transport_asked_witness:
  "\<exists>calls1 p1 p2 calls3 p3. player_run (\<lambda>_. 0) (\<lambda>_. None)
      [DoLoad (InputUri ''a'') None, DoPause, DoPlay, DoSetVolume 0, DoPause] (demo_player Stopped) = Some (calls1, p1) \<and>
    player_do (\<lambda>_. 0) (\<lambda>_. None) DoUriLoaded p1 = Some ([SetStateAsync Paused], p2) \<and>
    player_run (\<lambda>_. 0) (\<lambda>_. None) (preroll_edges Rs_Paused) p2 = Some (calls3, p3) \<and>
    running (pl_machine p3) = Some Rs_Paused"
proof -
  have "list_all while_loading [DoPause, DoPlay, DoSetVolume 0, DoPause]" by (simp add: while_loading_def)
  moreover have "Rs_Paused = fold asked_transport [DoPause, DoPlay, DoSetVolume 0, DoPause] Rs_Playing"
    by (simp add: asked_transport_def)
  ultimately show ?thesis
    using load_ends_in_transport_asked [of "[DoPause, DoPlay, DoSetVolume 0, DoPause]" Rs_Paused "\<lambda>_. 0" "\<lambda>_. None"
        "InputUri ''a''" None "demo_player Stopped"] by (simp; blast)
qed

section \<open>The events of a load\<close>

definition loads :: "player_call list \<Rightarrow> nat" where
  "loads todo = length (filter (\<lambda>call. \<exists>src start. call = DoLoad src start) todo)"

lemma loads_simps [simp]: "loads [] = 0" "loads (DoLoad src start # todo) = Suc (loads todo)"
  "(\<And>src start. call \<noteq> DoLoad src start) \<Longrightarrow> loads (call # todo) = loads todo"
  by (simp_all add: loads_def)

definition same_load :: "player \<Rightarrow> player \<Rightarrow> bool" where
  "same_load p p' \<longleftrightarrow> pb_next_generation (pl_playbin p') = pb_next_generation (pl_playbin p) \<and>
     (pl_expected_generation p' = pl_expected_generation p \<or> pl_expected_generation p' = None)"

lemma set_volume_load:
  "set_volume v p = (calls, p') \<Longrightarrow> same_load p p'" "volume_changed p = (calls, p') \<Longrightarrow> same_load p p'"
  by (auto simp: set_volume_def volume_changed_def playbin_set_volume_def same_load_def Let_def split: if_splits option.splits)

lemma collection_load:
  "cleanup_stream_collection p = (calls, p') \<Longrightarrow> same_load p p'"
  "handle_stream_collection language_name tags collection p = (calls, p') \<Longrightarrow> same_load p p'"
  by (auto simp: handle_stream_collection_def cleanup_stream_collection_def same_load_def Let_def
      split: prod.splits option.splits if_splits)

lemma pumped_load:
  "pump_track_ops answers p = (calls, p') \<Longrightarrow> same_load p p'"
  "then_pump answers (calls0, p) = (calls, p') \<Longrightarrow> same_load p p'"
  by (auto dest!: pump_frame then_pump_frame simp: tracks_only_fields same_load_def)

lemma cleared_load: "clear_player_state p = (calls, p') \<Longrightarrow>
    pb_next_generation (pl_playbin p') = pb_next_generation (pl_playbin p) \<and> pl_expected_generation p' = None"
  using cleared_player by blast

lemma stopped_load: "go_to_stopped_state feedback p = (calls, p') \<Longrightarrow> same_load p p'"
  by (auto simp: go_to_stopped_state_def same_load_def Let_def split: prod.splits
      dest!: collection_load(1) cleared_load)

lemma sought_load: "player_seek cast_rate sk p = (calls, p') \<Longrightarrow> same_load p p'"
  by (auto simp: player_seek_def same_load_def split: if_splits prod.splits)

lemma same_load_simps [simp]:
  "same_load p p" "same_load p (p\<lparr>pl_machine := sm\<rparr>)" "same_load p (p\<lparr>pl_streams := ss\<rparr>)"
  "same_load p (p\<lparr>pl_desired_transport := rs, pl_machine := sm\<rparr>)"
  by (simp_all add: same_load_def)

lemma transport_load:
  "set_transport rs p = Some (u, calls, p') \<Longrightarrow> same_load p p'"
  "set_transport rs (p\<lparr>pl_desired_transport := rs\<rparr>) = Some (u, calls, p') \<Longrightarrow> same_load p p'"
  "uri_loaded p = Some (u, calls, p') \<Longrightarrow> same_load p p'"
  by (auto simp: set_transport_def uri_loaded_def Let_def)

lemma pumped_load_from:
  "pump_track_ops answers p1 = (calls, p') \<Longrightarrow> same_load p p1 \<Longrightarrow> same_load p p'"
  "then_pump answers (calls0, p1) = (calls, p') \<Longrightarrow> same_load p p1 \<Longrightarrow> same_load p p'"
  using pumped_load by (fastforce simp: same_load_def)+

lemma call_load:
  assumes "player_do cast_rate language_name call p = Some (calls, p')" and "\<And>src start. call \<noteq> DoLoad src start"
  shows "same_load p p'"
proof (cases call)
  case (DoBuffering answers percent)
  with assms(1) show ?thesis
    by (auto simp: call_defs case_prod_beta elim!: pumped_load_from; simp add: same_load_def)
next
  case (DoTrackChange answers kind sid suppress)
  with assms(1) show ?thesis
    by (auto simp: player_do_def request_track_change_impl_def Let_def elim!: pumped_load_from; simp add: same_load_def)
next
  case (DoStreamsSelected answers reported seqnum)
  with assms(1) show ?thesis
    by (auto simp: player_do_def streams_selected_def Let_def split: prod.splits elim!: pumped_load_from; simp add: same_load_def)
next
  case (DoAsyncDone answers)
  with assms(1) show ?thesis
    by (auto simp: player_do_def async_done_def elim!: pumped_load_from; simp add: same_load_def)
next
  case (DoRefreshFailed answers seqnum)
  with assms(1) show ?thesis
    by (auto simp: player_do_def subtitle_refresh_failed_def elim!: pumped_load_from; simp add: same_load_def)
next
  case DoSeekFailed
  with assms(1) show ?thesis
    by (auto simp: call_defs case_prod_beta same_load_def split: option.splits)
next
  case (DoRateChanged rate)
  with assms(1) show ?thesis
    by (auto simp: call_defs case_prod_beta same_load_def split: option.splits)
next
  case (DoSetLive live)
  with assms(1) show ?thesis
    by (auto simp: call_defs case_prod_beta same_load_def split: option.splits)
next
  case (DoQueueSeek sk)
  with assms(1) show ?thesis
    by (auto simp: call_defs case_prod_beta same_load_def split: option.splits)
next
  case DoPlay
  with assms(1) show ?thesis by (auto simp: player_do_def play_def dest: transport_load)
next
  case DoPause
  with assms(1) show ?thesis by (auto simp: player_do_def pause_def dest: transport_load)
next
  case DoUriLoaded
  with assms(1) show ?thesis by (auto simp: player_do_def dest: transport_load)
next
  case (DoStateChanged old new pending)
  with assms(1) show ?thesis
    by (auto simp: call_defs case_prod_beta same_load_def split: option.splits)
next
  case DoStop
  with assms(1) show ?thesis
    by (auto simp: player_do_def stop_def shutdown_def end_of_stream_reached_def dest: stopped_load)
next
  case DoEndOfStream
  with assms(1) show ?thesis
    by (auto simp: player_do_def stop_def shutdown_def end_of_stream_reached_def dest: stopped_load)
next
  case (DoShutdown feedback)
  with assms(1) show ?thesis
    by (auto simp: player_do_def stop_def shutdown_def end_of_stream_reached_def dest: stopped_load)
next
  case (DoSeek position)
  with assms(1) show ?thesis
    by (auto simp: player_do_def seek_to_def set_rate_def dest: sought_load)
next
  case (DoSetRate rate)
  with assms(1) show ?thesis
    by (auto simp: player_do_def seek_to_def set_rate_def dest: sought_load)
next
  case (DoSetVolume volume)
  with assms(1) show ?thesis
    by (auto simp: player_do_def dest: set_volume_load)
next
  case DoVolumeChanged
  with assms(1) show ?thesis
    by (auto simp: player_do_def dest: set_volume_load)
next
  case (DoStreamCollection tags collection)
  with assms(1) show ?thesis
    by (auto simp: player_do_def dest: collection_load)
next
  case (DoUpdateProperties tags)
  with assms(1) show ?thesis
    by (auto simp: player_do_def update_stream_properties_def same_load_def Let_def split: option.splits)
next
  case (DoUpdateMediaInfo query dur)
  with assms(1) show ?thesis
    by (auto simp: player_do_def update_media_info_def same_load_def split: option.splits)
next
  case (DoAttachSubtitle url)
  with assms(1) show ?thesis
    by (auto simp: player_do_def attach_external_subtitle_def allocate_subtitle_id_def same_load_def)
next
  case (DoPollTrackOps answers)
  with assms(1) show ?thesis
    by (auto simp: player_do_def poll_track_ops_def dest: pumped_load)
qed (use assms(2) in simp_all)

lemma run_loads:
  assumes "player_run cast_rate language_name todo p = Some (calls, p')"
  shows "pb_next_generation (pl_playbin p') = pb_next_generation (pl_playbin p) + of_nat (loads todo) \<and>
    (pl_expected_generation p' = None \<or>
     pl_expected_generation p' = (if loads todo = 0 then pl_expected_generation p else Some (pb_next_generation (pl_playbin p'))))"
  using assms
proof (induction todo arbitrary: p calls)
  case (Cons call todo)
  then obtain calls1 p1 calls2 where c: "player_do cast_rate language_name call p = Some (calls1, p1)"
      "player_run cast_rate language_name todo p1 = Some (calls2, p')"
    by (auto split: option.splits)
  note ih = Cons.IH [OF c(2)]
  show ?case
  proof (cases "\<exists>src start. call = DoLoad src start")
    case True
    then obtain src start where call: "call = DoLoad src start" by blast
    with c(1) have "load src start p = (calls1, p1)" by (simp add: player_do_def)
    note p1 = loaded_player(5,6) [OF this]
    show ?thesis using ih p1 by (auto simp: call split: if_splits)
  next
    case False
    then have "same_load p p1" using call_load [OF c(1)] by blast
    with ih False show ?thesis by (auto simp: same_load_def split: if_splits)
  qed
qed simp

text \<open>
  C33: only the events of the last load count: once another load has been asked for, and until two to the
  64 loads later, no event that carries the generation of the earlier load is let through to the player, unless it is
  one of the kinds that belong to no load.
\<close>

theorem events_of_old_load_dropped:
  assumes "player_run cast_rate language_name before (snd (player_new pb)) = Some (calls, p)"
    and "pl_expected_generation p = Some g"
    and "player_run cast_rate language_name todo p = Some (calls', p')"
    and "0 < loads todo" and "loads todo < 2 ^ 64"
  shows "event_admitted event (Some g) p' \<longleftrightarrow> \<not> player_event_is_load_scoped event"
proof -
  have "pl_expected_generation (snd (player_new pb)) = None" by (simp add: player_new_def)
  with run_loads [OF assms(1)] assms(2) have g: "g = pb_next_generation (pl_playbin p)" by (auto split: if_splits)
  have "of_nat (loads todo) \<noteq> (0 :: u64)"
    using assms(4,5) by (simp add: unsigned_0 word_of_nat_eq_0_iff dvd_imp_le nat_dvd_not_less)
  with run_loads [OF assms(3)] assms(4) g have "pl_expected_generation p' \<noteq> Some g" by auto
  then show ?thesis by (auto simp: event_admitted_def is_event_current_def)
qed

theorem events_of_old_load_dropped_witness:
  "\<exists>calls p calls' p' g. player_run (\<lambda>_. 0) (\<lambda>_. None) [DoLoad (InputUri ''a'') None] (snd (player_new demo_playbin)) = Some (calls, p) \<and>
    pl_expected_generation p = Some g \<and>
    player_run (\<lambda>_. 0) (\<lambda>_. None) [DoLoad (InputUri ''b'') None] p = Some (calls', p') \<and>
    \<not> event_admitted EvEndOfStream (Some g) p'"
proof -
  obtain calls p where l: "load (InputUri ''a'') None (snd (player_new demo_playbin)) = (calls, p)" by fastforce
  obtain calls' p' where m: "load (InputUri ''b'') None p = (calls', p')" by fastforce
  have first: "player_run (\<lambda>_. 0) (\<lambda>_. None) [DoLoad (InputUri ''a'') None] (snd (player_new demo_playbin)) = Some (calls, p)"
    and second: "player_run (\<lambda>_. 0) (\<lambda>_. None) [DoLoad (InputUri ''b'') None] p = Some (calls', p')"
    using l m by (simp_all add: player_do_def)
  from events_of_old_load_dropped [OF first loaded_player(5) [OF l] second, of EvEndOfStream]
  have "\<not> event_admitted EvEndOfStream (pl_expected_generation p) p'"
    by (simp add: loaded_player(5) [OF l] player_event_is_load_scoped_def)
  with first second loaded_player(5) [OF l] show ?thesis by auto
qed

end
