(* ===== verification/Float_Arith.thy ===== *)
theory Float_Arith
  imports Floats
begin

text \<open>
  Double-precision arithmetic: the double nearest to a fraction (ties to even), and with it the product and
  the conversions the receiver's application uses. A NaN is the canonical one.
\<close>

definition F64_INF :: f64 where "F64_INF = 0x7FF0000000000000"
definition F64_NAN :: f64 where "F64_NAN = 0x7FF8000000000000"

definition f64_is_inf :: "f64 \<Rightarrow> bool" where
  "f64_is_inf x \<longleftrightarrow> x AND 0x7FFFFFFFFFFFFFFF = F64_INF"

definition half_even :: "int \<Rightarrow> int \<Rightarrow> int" where
  "half_even n d =
     (let q = n div d; r = n mod d in
      if 2 * r < d then q else if d < 2 * r then q + 1 else if q mod 2 = 0 then q else q + 1)"

fun int_len :: "int \<Rightarrow> int" where
  "int_len n = (if n \<le> 0 then 0 else 1 + int_len (n div 2))"

declare int_len.simps [simp del]

text \<open>
  The double nearest to \<open>n / d\<close>, both positive. With \<open>k\<close> bits dropped below the unit of the least double the
  significand is \<open>q\<close>; adding \<open>k * 2 ^ 52\<close> puts the exponent above it, also when rounding carries into it.
\<close>

definition f64_of_ratio :: "bool \<Rightarrow> int \<Rightarrow> int \<Rightarrow> f64" where
  "f64_of_ratio negative n d =
     (let u = n * 2 ^ 1074 div d;
          k = max 0 (int_len u - 53);
          q = half_even (n * 2 ^ 1074) (d * 2 ^ nat k);
          bits = min (q + k * 2 ^ 52) (0x7FF * 2 ^ 52)
      in word_of_int (bits + (if negative then 2 ^ 63 else 0)))"

definition f64_mul :: "f64 \<Rightarrow> f64 \<Rightarrow> f64" where
  "f64_mul x y =
     (let negative = (bit x 63 \<noteq> bit y 63) in
      if f64_is_nan x \<or> f64_is_nan y then F64_NAN
      else if f64_is_inf x \<or> f64_is_inf y then
        (if f64_units x = 0 \<or> f64_units y = 0 then F64_NAN else F64_INF OR (if negative then 2 ^ 63 else 0))
      else f64_of_ratio negative (\<bar>f64_units x\<bar> * \<bar>f64_units y\<bar>) (2 ^ (2 * 1074)))"

text \<open>A sum of finite doubles; two zeros give a negative one only when both are.\<close>

definition f64_add :: "f64 \<Rightarrow> f64 \<Rightarrow> f64" where
  "f64_add x y =
     (if f64_is_nan x \<or> f64_is_nan y then F64_NAN
      else if f64_is_inf x then (if f64_is_inf y \<and> x \<noteq> y then F64_NAN else x)
      else if f64_is_inf y then y
      else
        let s = f64_units x + f64_units y in
        if s = 0 then (if bit x 63 \<and> bit y 63 then 2 ^ 63 else 0)
        else f64_of_ratio (s < 0) \<bar>s\<bar> (2 ^ 1074))"

definition f64_of_int :: "int \<Rightarrow> f64" where
  "f64_of_int n = f64_of_ratio False n 1"

text \<open>\<open>Duration::from_micros(t).as_secs_f64()\<close>: whole seconds plus the nanoseconds over a billion.\<close>

definition micros_as_secs_f64 :: "u64 \<Rightarrow> f64" where
  "micros_as_secs_f64 t =
     (let secs = uint t div 1000000; nanos = (uint t mod 1000000) * 1000
      in f64_add (f64_of_int secs) (f64_of_ratio False nanos 1000000000))"

text \<open>\<open>(x - y).abs() <= 0.75\<close>: the rounded difference is above only beyond half the way to the next double.\<close>

definition F64_THREE_QUARTERS :: f64 where "F64_THREE_QUARTERS = 0x3FE8000000000000"

definition f64_near :: "f64 \<Rightarrow> f64 \<Rightarrow> bool" where
  "f64_near x y \<longleftrightarrow>
     f64_is_finite x \<and> f64_is_finite y \<and>
     2 * \<bar>f64_units x - f64_units y\<bar> \<le> f64_units F64_THREE_QUARTERS + f64_units (F64_THREE_QUARTERS + 1)"

end
