(* ===== verification/App_State.thy ===== *)
theory App_State
  imports Float_Arith Session_Driver Player_Events
begin

text \<open>
  The receiver's application (crates/receiver-core/src/application.rs): its state, what it does to the
  player, the senders, the user interface and its own timers, and the operations on what is being played.
  A step gives its effects in order and the new state; \<open>None\<close> is a panic of the player's machine. What the
  player, the window and the settings answer during an event is the record \<open>app_env\<close>.
\<close>

section \<open>What is played\<close>

record queue_item =
  qi_content_type :: string
  qi_url :: string
  qi_time :: "f64 option"
  qi_volume :: "f64 option"
  qi_speed :: "f64 option"
  qi_show_duration :: "f64 option"
  qi_headers :: "(string \<times> string) list option"
  qi_title :: "string option"
  qi_thumbnail_url :: "string option"

text \<open>\<open>collect\<close> into a hash map: a later header of the same name replaces an earlier one.\<close>

definition headers_map :: "(string \<times> string) list \<Rightarrow> (string \<times> string) list" where
  "headers_map hs = fold (\<lambda>(k, v) m. map_insert k v m) hs []"

definition queue_item_from_flat :: "flat_queue_item \<Rightarrow> queue_item" where
  "queue_item_from_flat item =
     (let m = fqi_media_item item in
      \<lparr> qi_content_type = fmi_container m, qi_url = fmi_source_url m,
        qi_time = map_option micros_as_secs_f64 (fmi_start_time m),
        qi_volume = map_option f64_of_f32 (fmi_volume m),
        qi_speed = map_option f64_of_f32 (fmi_speed m),
        qi_show_duration = map_option micros_as_secs_f64 (fqi_playback_duration item),
        qi_headers = map_option headers_map (fmi_headers m),
        qi_title = fmi_title m, qi_thumbnail_url = fmi_thumbnail_url m \<rparr>)"

definition media_item_default :: media_item where
  "media_item_default =
     \<lparr> mi_container = '''', mi_url = None, mi_content = None, mi_time = None, mi_volume = None, mi_speed = None,
       mi_cache = None, mi_show_duration = None, mi_headers = None, mi_metadata = None \<rparr>"

definition to_media_item :: "queue_item \<Rightarrow> media_item" where
  "to_media_item q =
     (let metadata = (if qi_title q \<noteq> None \<or> qi_thumbnail_url q \<noteq> None
                      then Some (Generic (qi_title q) (qi_thumbnail_url q) None) else None)
      in media_item_default
        \<lparr>mi_container := qi_content_type q, mi_url := Some (qi_url q), mi_time := qi_time q,
         mi_volume := qi_volume q, mi_speed := qi_speed q, mi_show_duration := qi_show_duration q,
         mi_headers := qi_headers q, mi_metadata := metadata\<rparr>)"

record queue_state =
  qs_items :: "queue_item list"
  qs_current_idx :: u8

datatype media_source =
    SrcSingle wrapped_play_message
  | SrcPlaylist playlist_content nat
  | SrcQueue queue_state
  | SrcRaop
  | SrcAirPlayMirror u64

datatype packet_origin =
    FromGui
  | FromAutoPlay
  | FromFCast sender_id "u32 option"
  | FromGCast sender_id
  | FromRaop
  | FromAirPlay

definition EXTERNAL_TRACK_ID_BASE :: u32 where "EXTERNAL_TRACK_ID_BASE = 0x10000000"

record external_subtitle =
  es_id :: u32
  es_url :: string
  es_name :: "string option"
  es_requested_by :: packet_origin
  es_handle :: "u64 option"
  es_stream_sid :: "stream_id option"
  es_attached_at :: nat

datatype sub_target = TheExternal | Restore "stream_id option"

record sub_desire =
  sd_ext_id :: u32
  sd_target :: sub_target

record pending_subtitle_add =
  psa_url :: string
  psa_select :: bool
  psa_name :: "string option"
  psa_origin :: packet_origin

datatype subtitle_target = TargetStream "stream_id option" | TargetExternal u32

record media_state =
  ms_origin :: packet_origin
  ms_source :: media_source
  ms_image_id :: "u32 option"
  ms_pending_thumbnail :: "u32 option"
  ms_pending_thumbnail_download :: "u32 option"
  ms_external_subtitles :: "external_subtitle list"
  ms_sub_desire :: "sub_desire option"
  ms_next_external_id :: u32

definition media_state_new :: "packet_origin \<Rightarrow> media_source \<Rightarrow> media_state" where
  "media_state_new origin src =
     \<lparr> ms_origin = origin, ms_source = src, ms_image_id = None, ms_pending_thumbnail = None,
       ms_pending_thumbnail_download = None, ms_external_subtitles = [], ms_sub_desire = None,
       ms_next_external_id = 0 \<rparr>"

definition clear_external_subtitles :: "media_state \<Rightarrow> media_state" where
  "clear_external_subtitles m = m\<lparr>ms_external_subtitles := [], ms_sub_desire := None\<rparr>"

datatype load_media_error =
    InvalidContentContainer string
  | NoUrlOrContent
  | NoItem
  | IndexOutOfBounds

fun load_media_error_kind :: "load_media_error \<Rightarrow> flat_error_kind" where
  "load_media_error_kind NoUrlOrContent = MalformedBody"
| "load_media_error_kind (InvalidContentContainer _) = UnsupportedFormat"
| "load_media_error_kind IndexOutOfBounds = Internal"
| "load_media_error_kind NoItem = Internal"

fun media_error_kind_to_error :: "media_error_kind \<Rightarrow> flat_error_kind" where
  "media_error_kind_to_error ErrNotFound = ResourceNotFound"
| "media_error_kind_to_error ErrNotAuthorized = ResourceNotFound"
| "media_error_kind_to_error ErrUnsupportedFormat = UnsupportedFormat"
| "media_error_kind_to_error ErrOther = Internal"

datatype download_image_error =
    RequestFailed | MissingContentType | InvalidContentType | ContentTypeIsNotString
  | UnsupportedContentType string | DecodeImageFailed | InvalidUrl | Unsuccessful | FailedToGetInfo
  | InvalidCompUrl | ProviderNotFound | CompRequestFailed | ImageResourceNotFound

definition image_download_error_kind :: "download_image_error \<Rightarrow> flat_error_kind" where
  "image_download_error_kind err =
     (case err of
        RequestFailed \<Rightarrow> ResourceNotFound
      | Unsuccessful \<Rightarrow> ResourceNotFound
      | InvalidUrl \<Rightarrow> ResourceNotFound
      | FailedToGetInfo \<Rightarrow> ResourceNotFound
      | InvalidCompUrl \<Rightarrow> ResourceNotFound
      | ProviderNotFound \<Rightarrow> ResourceNotFound
      | CompRequestFailed \<Rightarrow> ResourceNotFound
      | ImageResourceNotFound \<Rightarrow> ResourceNotFound
      | MissingContentType \<Rightarrow> UnsupportedFormat
      | InvalidContentType \<Rightarrow> UnsupportedFormat
      | ContentTypeIsNotString \<Rightarrow> UnsupportedFormat
      | UnsupportedContentType _ \<Rightarrow> UnsupportedFormat
      | DecodeImageFailed \<Rightarrow> UnsupportedFormat)"

section \<open>The application\<close>

record sender_handle =
  fh_progress_interval :: u64
  fh_last_progress_update :: nat

record seek_hold =
  sh_target :: f64
  sh_since :: nat

text \<open>The inspector, discovery, AirPlay, updates and the parts of the user interface that only draw are left out.\<close>

record application =
  ap_player :: player
  ap_last_sent_update :: nat
  ap_current_duration :: "clock_time option"
  ap_pending_subtitle_adds :: "pending_subtitle_add list"
  ap_pending_subtitle_add_epoch :: u64
  ap_last_progress_broadcast :: "nat option"
  ap_last_volume_cmd :: "nat option"
  ap_pending_seek_op :: "(packet_origin \<times> clock_time) option"
  ap_pending_seek_epoch :: u64
  ap_gui_seek_hold :: "seek_hold option"
  ap_load_watchdog_epoch :: u64
  ap_current_image_id :: u32
  ap_current_image_download_id :: u32
  ap_have_audio_track_cover :: bool
  ap_current_media :: "media_state option"
  ap_have_media_info :: bool
  ap_current_thumbnail_id :: u32
  ap_have_media_title :: bool
  ap_last_position_updated :: f64
  ap_pending_fwebrtc_channel :: bool
  ap_current_media_item_id :: u64
  ap_is_loading_media :: bool
  ap_window_visible_before :: "bool option"
  ap_window_fullscreen_before :: "bool option"
  ap_fcast_senders :: "(sender_id \<times> sender_handle) list"

record app_env =
  ae_lib :: library
  ae_now :: nat
  ae_millis :: u64
  ae_listening :: bool
  ae_position :: "clock_time option"
  ae_duration :: "clock_time option"
  ae_seconds :: "clock_time \<Rightarrow> f64"
  ae_query :: "bool option"
  ae_answers :: "nat \<Rightarrow> pump_answer"
  ae_tags :: "gst_stream \<Rightarrow> stream_tags option"
  ae_artist :: "string option"
  ae_cover :: bool
  ae_language_name :: "string \<Rightarrow> string option"
  ae_subtitle_sids :: "u64 \<Rightarrow> stream_id list"
  ae_headless :: bool
  ae_no_fullscreen_player :: bool
  ae_window_visible :: bool
  ae_fullscreen :: bool
  ae_whep_source :: "string \<Rightarrow> nat option"
  ae_fwebrtc_source :: "nat option"
  ae_uri_source :: "string \<Rightarrow> (string \<times> string) list option \<Rightarrow> nat option"
  ae_base64 :: "string \<Rightarrow> string"

datatype gui_playback_state = GsIdle | GsLoading | GsPlaying | GsPaused
datatype app_state = AsIdle | AsLoadingMedia | AsPlaying
datatype player_variant = UiUnknown | UiImage | UiAudio | UiVideo | UiRaop

datatype gui_call =
    GuiVolume f32
  | GuiSeekPending bool
  | GuiPlaybackState gui_playback_state
  | GuiIsLive bool
  | GuiPlaybackRate f32
  | GuiPlaybackProgress f32 f32
  | GuiMediaTitle string
  | GuiArtistName string
  | GuiClearImages
  | GuiAppState app_state
  | GuiClearTracks
  | GuiTrackIds int int int
  | GuiClearCommonPlaybackState
  | GuiPlaylist int int
  | GuiPlaylistIndex int
  | GuiFullscreen bool
  | GuiWindowVisibility bool
  | GuiPlayerType player_variant
  | GuiToastError string
  | GuiToastWarning string
  | GuiTracks "(int \<times> string) list" "(int \<times> string) list" "(int \<times> string) list"
  | GuiClearVideoOverlays
  | GuiDeviceConnected
  | GuiDeviceDisconnected
  | GuiAudioTrackCover u32
  | GuiImagePreview u32
  | GuiAnimation u32

datatype cast_update =
    CastVolume f64
  | CastPosition f64
  | CastDuration f64
  | CastPlayerState player_state

text \<open>The messages the application sends to itself after a wait.\<close>

datatype timer =
    MediaItemFinishAfter f64 u64
  | ShouldSetLoadingStatusAfter u64
  | PendingSubtitleAddCheckAfter u64 u64
  | PendingSeekCheckAfter u64
  | ExternalSubCheckAfter u64 u32
  | LoadStallCheckAfter u64 u64

datatype app_effect =
    Pipeline playbin_call
  | ToAllSenders to_sender_message
  | ToOneSender sender_id receiver_to_sender
  | ToCast cast_update
  | Gui gui_call
  | Later timer
  | Inhibit bool
  | DownloadImage u32 string "(string \<times> string) list option"
  | DownloadPlaylist play_message
  | PlaylistData play_message
  | DecodeThumbnail u32
  | DecodeImage u32
  | StartSession sender_id "initial_v4_state option"

section \<open>Steps\<close>

type_synonym app_step = "application \<Rightarrow> (app_effect list \<times> application) option"

definition app_effect :: "app_effect \<Rightarrow> app_step" where
  "app_effect e a = Some ([e], a)"

definition app_update :: "(application \<Rightarrow> application) \<Rightarrow> app_step" where
  "app_update f a = Some ([], f a)"

fun app_do :: "app_step list \<Rightarrow> app_step" where
  "app_do [] a = Some ([], a)"
| "app_do (f # fs) a =
     (case f a of
        None \<Rightarrow> None
      | Some (es, a1) \<Rightarrow> map_option (\<lambda>(es', a2). (es @ es', a2)) (app_do fs a1))"

definition app_when :: "bool \<Rightarrow> app_step list \<Rightarrow> app_step" where
  "app_when b fs = (if b then app_do fs else app_do [])"

text \<open>An operation of the player: its calls are effects.\<close>

definition on_player :: "(player \<Rightarrow> playbin_call list \<times> player) \<Rightarrow> app_step" where
  "on_player f a = (case f (ap_player a) of (calls, p) \<Rightarrow> Some (map Pipeline calls, a\<lparr>ap_player := p\<rparr>))"

definition on_player_step :: "(player \<Rightarrow> 'a player_step) \<Rightarrow> ('a \<Rightarrow> app_step) \<Rightarrow> app_step" where
  "on_player_step f k a =
     (case f (ap_player a) of
        None \<Rightarrow> None
      | Some (r, calls, p) \<Rightarrow> map_option (\<lambda>(es, a'). (map Pipeline calls @ es, a')) (k r (a\<lparr>ap_player := p\<rparr>)))"

definition gui :: "gui_call \<Rightarrow> app_step" where "gui c = app_effect (Gui c)"

end
