(* ===== verification/App_Playback.thy ===== *)
theory App_Playback
  imports App_State
begin

text \<open>
  What the application tells senders and the user interface, and how it starts and ends the playback of an
  item (the first half of application.rs). The calls that only draw the buffered ranges are left out.
\<close>

section \<open>Telling the senders\<close>

definition should_broadcast :: "app_env \<Rightarrow> bool" where
  "should_broadcast env \<longleftrightarrow> ae_listening env"

definition app_get :: "(application \<Rightarrow> app_step) \<Rightarrow> app_step" where
  "app_get f a = f a a"

definition broadcast_update :: "to_sender_message \<Rightarrow> app_step" where
  "broadcast_update msg = app_effect (ToAllSenders msg)"

definition broadcast_volume :: "app_env \<Rightarrow> f32 \<Rightarrow> app_step" where
  "broadcast_volume env volume =
     app_do
       [app_when (should_broadcast env)
          [broadcast_update (LegacyTranslatable Op_VolumeUpdate
             (VolumeUpdate \<lparr> vu2_generation_time = ae_millis env, vu2_volume = f64_of_f32 volume \<rparr>)),
           app_update (\<lambda>a. a\<lparr>ap_last_sent_update := ae_now env\<rparr>),
           broadcast_update (RtsV4 (VolumeChanged volume))],
        app_effect (ToCast (CastVolume (f64_of_f32 volume)))]"

definition relay_to_other_senders :: "app_env \<Rightarrow> packet_origin \<Rightarrow> flat_packet \<Rightarrow> app_step" where
  "relay_to_other_senders env origin msg =
     (case origin of
        FromFCast sender_id _ \<Rightarrow>
          app_when (should_broadcast env) [broadcast_update (RtsV4 (RelayToOtherSenders sender_id msg))]
      | _ \<Rightarrow> app_do [])"

definition app_playback_state_changed :: "app_env \<Rightarrow> flat_playback_state \<Rightarrow> app_step" where
  "app_playback_state_changed env state =
     app_when (should_broadcast env) [broadcast_update (RtsV4 (PlaybackStateChanged state))]"

definition send_error :: "packet_origin \<Rightarrow> flat_error_kind \<Rightarrow> app_step" where
  "send_error origin error =
     app_get (\<lambda>a.
       case origin of
         FromFCast sender_id packet_num \<Rightarrow>
           app_when (map_of (ap_fcast_senders a) sender_id \<noteq> None)
             [app_effect (ToOneSender sender_id (RtfError error packet_num))]
       | _ \<Rightarrow> app_do [])"

definition SEEK_HOLD_TIMEOUT :: nat where "SEEK_HOLD_TIMEOUT = 12000"

definition release_seek_hold_if_landed :: "app_env \<Rightarrow> f64 \<Rightarrow> app_step" where
  "release_seek_hold_if_landed env position =
     app_get (\<lambda>a.
       case ap_gui_seek_hold a of
         None \<Rightarrow> app_do []
       | Some hold \<Rightarrow>
           let landed = f64_near position (sh_target hold);
               expired = (SEEK_HOLD_TIMEOUT \<le> ae_now env - sh_since hold)
           in app_when (landed \<or> expired)
                [app_update (\<lambda>a. a\<lparr>ap_gui_seek_hold := None\<rparr>), gui (GuiSeekPending False)])"

definition to_f32 :: "app_env \<Rightarrow> f64 \<Rightarrow> f32" where
  "to_f32 env = lib_f32 (ae_lib env)"

definition SENDER_UPDATE_INTERVAL :: nat where "SENDER_UPDATE_INTERVAL = 500"

fun gui_state_of :: "player_state \<Rightarrow> gui_playback_state" where
  "gui_state_of PlStopped = GsLoading"
| "gui_state_of PlBuffering = GsLoading"
| "gui_state_of PlPlaying = GsPlaying"
| "gui_state_of PlPaused = GsPaused"

fun wire_state_of :: "gui_playback_state \<Rightarrow> wire_playback_state" where
  "wire_state_of GsIdle = Legacy_Messages.Idle"
| "wire_state_of GsLoading = Legacy_Messages.Idle"
| "wire_state_of GsPlaying = Legacy_Messages.Playing"
| "wire_state_of GsPaused = Legacy_Messages.Paused"

text \<open>The known duration, or the one the pipeline gives, which is then kept.\<close>

definition current_duration_or :: "app_env \<Rightarrow> application \<Rightarrow> clock_time" where
  "current_duration_or env a =
     (case ap_current_duration a of
        Some dur \<Rightarrow> dur
      | None \<Rightarrow> (case ae_duration env of Some dur \<Rightarrow> dur | None \<Rightarrow> 0))"

definition notify_updates :: "app_env \<Rightarrow> bool \<Rightarrow> app_step" where
  "notify_updates env force =
     app_get (\<lambda>a.
       if \<not> have_media_info (ap_player a) \<or> is_seeking (pl_machine (ap_player a)) then app_do []
       else case ae_position env of
         None \<Rightarrow> app_do []
       | Some position \<Rightarrow>
           let pos = ae_seconds env position;
               dur = current_duration_or env a;
               duration = ae_seconds env dur;
               state = gui_state_of (player_state_of (ap_player a));
               rate = sm_rate (pl_machine (ap_player a))
           in app_do
               [release_seek_hold_if_landed env pos,
                app_update (\<lambda>a. a\<lparr>ap_last_position_updated := pos, ap_current_duration := Some dur\<rparr>),
                app_effect (ToCast (CastDuration duration)),
                app_effect (ToCast (CastPosition pos)),
                gui (GuiPlaybackState state),
                gui (GuiIsLive (is_live (pl_machine (ap_player a)))),
                gui (GuiPlaybackRate (to_f32 env rate)),
                gui (GuiPlaybackProgress (to_f32 env pos) (to_f32 env duration)),
                app_when (should_broadcast env \<and>
                    (SENDER_UPDATE_INTERVAL \<le> ae_now env - ap_last_sent_update a \<or> force))
                  [broadcast_update (LegacyTranslatable Op_PlaybackUpdate (PlaybackUpdate
                     \<lparr> pu_generation_time = ae_millis env, pu_state = wire_state_of state,
                       pu_time = Some pos, pu_duration = Some duration, pu_speed = Some rate,
                       pu_item_index = None \<rparr>)),
                   app_update (\<lambda>a. a\<lparr>ap_last_sent_update := ae_now env\<rparr>)]])"

text \<open>A sender of the channel exists as long as the application, so \<open>strong_count() > 0\<close> holds.\<close>

definition broadcast_rate :: "app_env \<Rightarrow> f32 \<Rightarrow> app_step" where
  "broadcast_rate env rate =
     app_do [notify_updates env True, broadcast_update (RtsV4 (PlaybackRateChanged rate))]"

definition set_volume_cmd :: "app_env \<Rightarrow> f32 \<Rightarrow> app_step" where
  "set_volume_cmd env volume =
     (let clamped = f32_clamp F32_ZERO F32_ONE volume
      in app_do
          [on_player (Player.set_volume clamped),
           gui (GuiVolume clamped),
           app_update (\<lambda>a. a\<lparr>ap_last_volume_cmd := Some (ae_now env)\<rparr>),
           broadcast_volume env clamped])"

definition playback_progress_changed :: "app_env \<Rightarrow> app_step" where
  "playback_progress_changed env =
     app_get (\<lambda>a.
       let position = (case ae_position env of Some p \<Rightarrow> p | None \<Rightarrow> 0);
           duration = (case ap_current_duration a of Some d \<Rightarrow> d | None \<Rightarrow> 0);
           pos = ae_seconds env position;
           debounced = (case ap_last_progress_broadcast a of Some at \<Rightarrow> ae_now env - at < 100 | None \<Rightarrow> False)
       in app_do
           [release_seek_hold_if_landed env pos,
            gui (GuiPlaybackProgress (to_f32 env pos) (to_f32 env (ae_seconds env duration))),
            app_when (should_broadcast env \<and> \<not> debounced)
              [app_update (\<lambda>a. a\<lparr>ap_last_progress_broadcast := Some (ae_now env)\<rparr>),
               broadcast_update (RtsV4 (ProgressUpdated position duration))]])"

text \<open>The periodic updates; an interval is in microseconds.\<close>

fun progress_updates :: "nat \<Rightarrow> clock_time \<Rightarrow> clock_time \<Rightarrow> (sender_id \<times> sender_handle) list \<Rightarrow>
    app_effect list \<times> (sender_id \<times> sender_handle) list" where
  "progress_updates at position total_dur [] = ([], [])"
| "progress_updates at position total_dur ((sid, h) # hs) =
     (case progress_updates at position total_dur hs of (es, hs') \<Rightarrow>
        if (at - fh_last_progress_update h) * 1000 < unat (fh_progress_interval h) then (es, (sid, h) # hs')
        else (ToOneSender sid (RtfProgressUpdate position total_dur) # es, (sid, h\<lparr>fh_last_progress_update := at\<rparr>) # hs'))"

definition send_v4_progress_updates :: "app_env \<Rightarrow> app_step" where
  "send_v4_progress_updates env a =
     (let pos = (case ae_position env of Some p \<Rightarrow> p | None \<Rightarrow> 0);
          dur = (case ap_current_duration a of Some d \<Rightarrow> d | None \<Rightarrow> 0)
      in case progress_updates (ae_now env) pos dur (ap_fcast_senders a) of
           (es, hs) \<Rightarrow> Some (es, a\<lparr>ap_fcast_senders := hs\<rparr>))"

section \<open>Parked requests\<close>

definition reject_pending_subtitle_adds :: app_step where
  "reject_pending_subtitle_adds =
     app_get (\<lambda>a.
       app_when (ap_pending_subtitle_adds a \<noteq> [])
         (app_update (\<lambda>a. a\<lparr>ap_pending_subtitle_add_epoch := ap_pending_subtitle_add_epoch a + 1,
                            ap_pending_subtitle_adds := []\<rparr>) #
          map (\<lambda>add. send_error (psa_origin add) InvalidState) (ap_pending_subtitle_adds a)))"

definition drop_pending_seek :: app_step where
  "drop_pending_seek =
     app_update (\<lambda>a.
       if ap_pending_seek_op a \<noteq> None
       then a\<lparr>ap_pending_seek_op := None, ap_pending_seek_epoch := ap_pending_seek_epoch a + 1\<rparr> else a)"

section \<open>Ending an item\<close>

definition F64_MINUS_ONE :: f64 where "F64_MINUS_ONE = 0xBFF0000000000000"

definition cleanup_playback_data :: "bool \<Rightarrow> bool \<Rightarrow> app_step" where
  "cleanup_playback_data continue_to_play preserve_playlist =
     app_do
       [app_update (\<lambda>a. a\<lparr>ap_current_duration := None\<rparr>),
        reject_pending_subtitle_adds,
        drop_pending_seek,
        app_get (\<lambda>a. app_when (ap_gui_seek_hold a \<noteq> None)
          [app_update (\<lambda>a. a\<lparr>ap_gui_seek_hold := None\<rparr>), gui (GuiSeekPending False)]),
        app_update (\<lambda>a. a\<lparr>ap_have_audio_track_cover := False, ap_have_media_info := False,
          ap_have_media_title := False, ap_last_position_updated := F64_MINUS_ONE\<rparr>),
        on_player stop,
        app_update (\<lambda>a. a\<lparr>ap_is_loading_media := False,
          ap_current_media := map_option (\<lambda>m. m\<lparr>ms_image_id := None, ms_pending_thumbnail := None,
            ms_pending_thumbnail_download := None\<rparr>) (ap_current_media a),
          ap_current_thumbnail_id := ap_current_thumbnail_id a + 1,
          ap_current_image_id := ap_current_image_id a + 1,
          ap_current_image_download_id := ap_current_image_download_id a + 1\<rparr>),
        app_when (\<not> continue_to_play)
          [gui (GuiMediaTitle ''''), gui (GuiArtistName ''''), gui GuiClearImages,
           gui (GuiPlaybackProgress 0 0), gui (GuiAppState AsIdle), gui (GuiPlaybackState GsIdle),
           gui GuiClearTracks, gui (GuiTrackIds (-1) (-1) (-1)), gui GuiClearCommonPlaybackState,
           app_when (\<not> preserve_playlist) [gui (GuiPlaylist 0 0)],
           app_get (\<lambda>a. case ap_window_fullscreen_before a of
               None \<Rightarrow> app_do []
             | Some fullscreen \<Rightarrow>
                 app_do [app_update (\<lambda>a. a\<lparr>ap_window_fullscreen_before := None\<rparr>), gui (GuiFullscreen fullscreen)]),
           app_get (\<lambda>a. case ap_window_visible_before a of
               None \<Rightarrow> app_do []
             | Some visible \<Rightarrow>
                 app_do [app_update (\<lambda>a. a\<lparr>ap_window_visible_before := None\<rparr>), gui (GuiWindowVisibility visible)])]]"

definition is_playing :: "application \<Rightarrow> bool" where
  "is_playing a \<longleftrightarrow> ap_current_media a \<noteq> None"

definition media_event :: "app_env \<Rightarrow> event_type \<Rightarrow> media_item \<Rightarrow> app_step" where
  "media_event env variant item =
     broadcast_update (Event \<lparr> em_generation_time = ae_millis env, em_event = EvMediaItem variant item \<rparr>)"

definition media_loaded_successfully :: "app_env \<Rightarrow> app_step" where
  "media_loaded_successfully env =
     app_do
       [app_update (\<lambda>a. a\<lparr>ap_is_loading_media := False\<rparr>),
        app_get (\<lambda>a. case ap_current_media a of
            None \<Rightarrow> app_do []
          | Some m \<Rightarrow>
              (case ms_source m of
                 SrcSingle (LegacyPlay msg) \<Rightarrow>
                   app_when (should_broadcast env) [media_event env MediaItemStart (media_item_from msg)]
               | SrcPlaylist content index \<Rightarrow>
                   if index < length (V3_Messages.pl_items content) then
                     let item = V3_Messages.pl_items content ! index in
                     app_do
                       [(case mi_show_duration item of
                           Some d \<Rightarrow> app_effect (Later (MediaItemFinishAfter d (ap_current_media_item_id a)))
                         | None \<Rightarrow> app_do []),
                        app_when (should_broadcast env) [media_event env MediaItemChange item]]
                   else app_do []
               | _ \<Rightarrow> app_do []))]"

definition idle_update :: "app_env \<Rightarrow> playback_update" where
  "idle_update env =
     \<lparr> pu_generation_time = ae_millis env, pu_state = Legacy_Messages.Idle, pu_time = None, pu_duration = None,
       pu_speed = None, pu_item_index = None \<rparr>"

definition media_error :: "app_env \<Rightarrow> string \<Rightarrow> app_step" where
  "media_error env message =
     app_get (\<lambda>a. app_when (is_playing a)
       [cleanup_playback_data False False,
        app_update (\<lambda>a. a\<lparr>ap_current_media := None\<rparr>),
        app_when (should_broadcast env)
          [broadcast_update (LegacyTranslatable Op_PlaybackUpdate (PlaybackUpdate (idle_update env))),
           broadcast_update (RtsError \<lparr> pe_message = message \<rparr>)],
        gui (GuiToastError message)])"

definition media_warning :: "string \<Rightarrow> app_step" where
  "media_warning message = app_get (\<lambda>a. app_when (is_playing a) [gui (GuiToastWarning message)])"

definition media_ended :: "app_env \<Rightarrow> app_step" where
  "media_ended env =
     app_do
       [app_when (\<not> ae_listening env)
          [cleanup_playback_data False True, app_update (\<lambda>a. a\<lparr>ap_current_media := None\<rparr>)],
        app_effect (Inhibit False)]"

definition app_stop_playback :: app_step where
  "app_stop_playback =
     app_get (\<lambda>a. app_when (is_playing a)
       [on_player stop,
        gui (GuiAppState AsIdle),
        cleanup_playback_data False False,
        app_update (\<lambda>a. a\<lparr>ap_current_media := None\<rparr>),
        app_effect (Inhibit False)])"

definition app_pause :: app_step where
  "app_pause = app_get (\<lambda>a. app_when (is_playing a) [on_player_step pause (\<lambda>_. app_do [])])"

definition app_resume :: app_step where
  "app_resume = app_get (\<lambda>a. app_when (is_playing a) [on_player_step play (\<lambda>_. app_do [])])"

definition video_stream_available :: app_step where
  "video_stream_available = app_get (\<lambda>a. app_when (is_playing a) [gui (GuiPlayerType UiVideo)])"

definition video_stream_unavailable :: app_step where
  "video_stream_unavailable = app_get (\<lambda>a. app_when (is_playing a) [gui (GuiPlayerType UiAudio)])"

end
