(* ===== verification/App_Load.thy ===== *)
theory App_Load
  imports App_Playback
begin

text \<open>
  Loading an item, and the queue a sender loads and changes (application.rs, \<open>load_media\<close> to
  \<open>handle_play_message\<close>). The elements a load is built from come from the environment.
\<close>

section \<open>The item to load\<close>

text \<open>\<open>Inr (Inl e)\<close>: nothing to load here, with the error the sender gets.\<close>

definition current_item :: "media_source \<Rightarrow> load_media_error + (flat_error_kind option + media_item)" where
  "current_item src =
     (case src of
        SrcSingle (LegacyPlay msg) \<Rightarrow> Inr (Inr (media_item_from msg))
      | SrcSingle (FlatPlay (FSingle single)) \<Rightarrow>
          Inr (Inr (media_item_default
            \<lparr>mi_container := fmi_container single, mi_url := Some (fmi_source_url single),
             mi_time := map_option micros_as_secs_f64 (fmi_start_time single),
             mi_volume := map_option f64_of_f32 (fmi_volume single),
             mi_speed := map_option f64_of_f32 (fmi_speed single)\<rparr>))
      | SrcSingle (FlatPlay _) \<Rightarrow> Inr (Inl (Some MalformedBody))
      | SrcSingle (ChromecastPlay cast) \<Rightarrow>
          Inr (Inr (media_item_default
            \<lparr>mi_container := cl_container cast, mi_url := Some (cl_url cast), mi_time := cl_time cast,
             mi_speed := cl_speed cast\<rparr>))
      | SrcPlaylist content index \<Rightarrow>
          if index < length (V3_Messages.pl_items content) then Inr (Inr (V3_Messages.pl_items content ! index))
          else Inl IndexOutOfBounds
      | SrcQueue q \<Rightarrow>
          if unat (qs_current_idx q) < length (qs_items q)
          then Inr (Inr (to_media_item (qs_items q ! unat (qs_current_idx q))))
          else Inl IndexOutOfBounds
      | SrcRaop \<Rightarrow> Inr (Inl None)
      | SrcAirPlayMirror _ \<Rightarrow> Inr (Inl None))"

definition item_url :: "app_env \<Rightarrow> media_item \<Rightarrow> load_media_error + string" where
  "item_url env item =
     (case mi_url item of
        Some url \<Rightarrow> Inr url
      | None \<Rightarrow>
          (case mi_content item of
             None \<Rightarrow> Inl NoUrlOrContent
           | Some content \<Rightarrow>
               ebind (if mi_container item = ''application/dash+xml'' then Inr ''application/dash+xml''
                      else if mi_container item = ''application/vnd.apple.mpegurl'' \<or> mi_container item = ''audio/mpegurl''
                      then Inr ''application/x-hls''
                      else Inl (InvalidContentContainer (mi_container item)))
                 (\<lambda>content_type. Inr (''data:'' @ content_type @ '';base64,'' @ ae_base64 env content))))"

definition starts_with :: "string \<Rightarrow> string \<Rightarrow> bool" where
  "starts_with s p \<longleftrightarrow> take (length p) s = p"

definition player_variant_of :: "string \<Rightarrow> player_variant" where
  "player_variant_of container =
     (if starts_with container ''image/'' then UiImage
      else if starts_with container ''audio/'' \<or> starts_with container ''video/''
        \<or> container \<in> {''application/x-whep'', ''application/dash+xml'', ''application/vnd.apple.mpegurl'',
                        ''application/x-fwebrtc'', ''application/x-sabr-ump''}
      then UiAudio else UiUnknown)"

definition build_media_source ::
    "app_env \<Rightarrow> string \<Rightarrow> string \<Rightarrow> (string \<times> string) list option \<Rightarrow> application \<Rightarrow> media_input \<times> application" where
  "build_media_source env container url headers a =
     (let (built, a1) =
        (if container = ''application/x-whep'' then (ae_whep_source env url, a)
         else if container = ''application/x-fwebrtc'' then
           (if ap_pending_fwebrtc_channel a then (ae_fwebrtc_source env, a\<lparr>ap_pending_fwebrtc_channel := False\<rparr>)
            else (None, a))
         else (ae_uri_source env url headers, a))
      in (case built of Some element \<Rightarrow> InputElement element | None \<Rightarrow> InputUri url, a1))"

section \<open>Loading\<close>

definition F64_ONE_F :: f64 where "F64_ONE_F = 0x3FF0000000000000"

text \<open>The thumbnail of the item, when it names one: the title that comes with it, and the download.\<close>

definition item_thumbnail :: "app_env \<Rightarrow> media_item \<Rightarrow> (string option \<times> string) option" where
  "item_thumbnail env item =
     (if ae_headless env then None
      else case mi_metadata item of
        Some (Generic title (Some thumbnail_url) _) \<Rightarrow> Some (title, thumbnail_url)
      | _ \<Rightarrow> None)"

definition load_item :: "app_env \<Rightarrow> media_item \<Rightarrow> string \<Rightarrow> app_step" where
  "load_item env item url =
     (let container = mi_container item;
          variant = player_variant_of container;
          is_image = starts_with container ''image/'';
          live = (container = ''application/x-whep'' \<or> container = ''application/x-fwebrtc'');
          position = (case Option.bind (mi_time item) (lib_clock (ae_lib env)) of Some p \<Rightarrow> p | None \<Rightarrow> 0);
          rate = to_f32 env (case mi_speed item of Some s \<Rightarrow> s | None \<Rightarrow> F64_ONE_F);
          headers = mi_headers item;
          thumbnail = item_thumbnail env item;
          title = Option.bind thumbnail fst
      in app_do
          [app_update (\<lambda>a. a\<lparr>ap_have_audio_track_cover := False\<rparr>),
           cleanup_playback_data is_image True,
           gui (GuiWindowVisibility True),
           app_update (\<lambda>a. a\<lparr>ap_window_visible_before := Some (ae_window_visible env)\<rparr>),
           app_when (\<not> ae_no_fullscreen_player env)
             [gui (GuiFullscreen True), app_update (\<lambda>a. a\<lparr>ap_window_fullscreen_before := Some (ae_fullscreen env)\<rparr>)],
           (case thumbnail of
              None \<Rightarrow> app_do []
            | Some (_, thumbnail_url) \<Rightarrow>
                app_do
                  [app_update (\<lambda>a. a\<lparr>ap_have_audio_track_cover := True,
                     ap_current_image_download_id := ap_current_image_download_id a + 1\<rparr>),
                   app_update (\<lambda>a. a\<lparr>ap_current_media :=
                     map_option (\<lambda>m. m\<lparr>ms_pending_thumbnail_download := Some (ap_current_image_download_id a)\<rparr>)
                       (ap_current_media a)\<rparr>),
                   app_get (\<lambda>a. app_effect (DownloadImage (ap_current_image_download_id a) thumbnail_url headers))]),
           (if is_image then
              app_do
                [app_update (\<lambda>a. a\<lparr>ap_current_image_download_id := ap_current_image_download_id a + 1\<rparr>),
                 app_get (\<lambda>a. app_effect (DownloadImage (ap_current_image_download_id a) url headers))]
            else
              app_do
                [app_get (\<lambda>a. case build_media_source env container url headers a of
                   (src, a') \<Rightarrow>
                     app_do
                       [app_update (\<lambda>_. a'),
                        on_player (load src (if live then None else Some \<lparr> rp_position = position, rp_rate = rate \<rparr>))]),
                 (case mi_volume item of
                    None \<Rightarrow> app_do []
                  | Some volume \<Rightarrow>
                      app_do
                        [on_player (Player.set_volume (f32_clamp F32_ZERO F32_ONE (to_f32 env volume))),
                         app_update (\<lambda>a. a\<lparr>ap_last_volume_cmd := Some (ae_now env)\<rparr>)])]),
           app_update (\<lambda>a. a\<lparr>ap_have_media_title := (title \<noteq> None)\<rparr>),
           gui (GuiPlayerType variant),
           app_when (\<not> is_image) [gui (GuiAppState AsLoadingMedia)],
           (case title of Some t \<Rightarrow> gui (GuiMediaTitle t) | None \<Rightarrow> app_do []),
           app_update (\<lambda>a. a\<lparr>ap_current_media_item_id := ap_current_media_item_id a + 1\<rparr>),
           app_get (\<lambda>a. app_when is_image [app_effect (Later (ShouldSetLoadingStatusAfter (ap_current_media_item_id a)))]),
           app_update (\<lambda>a. a\<lparr>ap_is_loading_media := True\<rparr>),
           app_when (\<not> is_image)
             [app_update (\<lambda>a. a\<lparr>ap_load_watchdog_epoch := ap_load_watchdog_epoch a + 1\<rparr>),
              app_get (\<lambda>a. app_effect (Later (LoadStallCheckAfter (ap_current_media_item_id a) (ap_load_watchdog_epoch a))))],
           app_effect (Inhibit True)])"

text \<open>\<open>load_current_media_item\<close> and \<open>load_media\<close>: an error goes to whoever the item came from.\<close>

definition load_media :: "app_env \<Rightarrow> app_step" where
  "load_media env =
     app_get (\<lambda>a. case ap_current_media a of
         None \<Rightarrow> app_do []
       | Some m \<Rightarrow>
           (case current_item (ms_source m) of
              Inl err \<Rightarrow> send_error (ms_origin m) (load_media_error_kind err)
            | Inr (Inl None) \<Rightarrow> app_do []
            | Inr (Inl (Some kind)) \<Rightarrow> send_error (ms_origin m) kind
            | Inr (Inr item) \<Rightarrow>
                (case item_url env item of
                   Inl err \<Rightarrow> send_error (ms_origin m) (load_media_error_kind err)
                 | Inr url \<Rightarrow> load_item env item url)))"

section \<open>The queue\<close>

definition app_queue :: "application \<Rightarrow> queue_state option" where
  "app_queue a =
     Option.bind (ap_current_media a) (\<lambda>m. case ms_source m of SrcQueue q \<Rightarrow> Some q | _ \<Rightarrow> None)"

definition set_queue :: "queue_state \<Rightarrow> application \<Rightarrow> application" where
  "set_queue q a = a\<lparr>ap_current_media := map_option (\<lambda>m. m\<lparr>ms_source := SrcQueue q\<rparr>) (ap_current_media a)\<rparr>"

definition set_media :: "packet_origin \<Rightarrow> media_source \<Rightarrow> app_step" where
  "set_media origin src = app_update (\<lambda>a. a\<lparr>ap_current_media := Some (media_state_new origin src)\<rparr>)"

definition drop_external_subtitles :: app_step where
  "drop_external_subtitles =
     app_update (\<lambda>a. a\<lparr>ap_current_media := map_option clear_external_subtitles (ap_current_media a)\<rparr>)"

text \<open>\<open>as u8\<close> keeps the low byte.\<close>

definition select_index :: "queue_pos \<Rightarrow> queue_item list \<Rightarrow> u8" where
  "select_index position items =
     (case position of
        QIndex idx \<Rightarrow> idx
      | QFront \<Rightarrow> 0
      | QBack \<Rightarrow> word_of_nat (length items - 1))"

definition play_queue_item :: "app_env \<Rightarrow> packet_origin \<Rightarrow> queue_pos \<Rightarrow> bool \<Rightarrow> app_step" where
  "play_queue_item env origin position relay =
     app_get (\<lambda>a. case app_queue a of
         None \<Rightarrow> send_error origin InvalidState
       | Some q \<Rightarrow>
           let index = select_index position (qs_items q) in
           if qs_items q = [] \<or> length (qs_items q) \<le> unat index then send_error origin QueuePositionOutOfRange
           else
             app_do
               [app_update (set_queue (q\<lparr>qs_current_idx := index\<rparr>)),
                drop_external_subtitles,
                load_media env,
                app_when relay [relay_to_other_senders env origin (queue_select position)]])"

definition removal_index :: "queue_pos \<Rightarrow> queue_item list \<Rightarrow> nat" where
  "removal_index position items =
     (case position of QIndex idx \<Rightarrow> unat idx | QFront \<Rightarrow> 0 | QBack \<Rightarrow> length items - 1)"

definition remove_nth :: "nat \<Rightarrow> 'a list \<Rightarrow> 'a list" where
  "remove_nth i xs = take i xs @ drop (Suc i) xs"

definition insert_nth :: "nat \<Rightarrow> 'a \<Rightarrow> 'a list \<Rightarrow> 'a list" where
  "insert_nth i x xs = take i xs @ x # drop i xs"

text \<open>The change to the queue, or why it is refused.\<close>

definition queue_without :: "queue_pos \<Rightarrow> queue_state \<Rightarrow> flat_error_kind + queue_state" where
  "queue_without position q =
     (let idx = removal_index position (qs_items q) in
      if qs_items q = [] \<or> length (qs_items q) \<le> idx then Inl QueuePositionOutOfRange
      else if idx = unat (qs_current_idx q) then Inl QueueRemovePlayingItem
      else
        Inr (q\<lparr>qs_current_idx :=
                 (if idx \<le> unat (qs_current_idx q)
                  then (if qs_current_idx q = 0 then 0 else qs_current_idx q - 1) else qs_current_idx q),
               qs_items := remove_nth idx (qs_items q)\<rparr>))"

definition remove_queue_item :: "app_env \<Rightarrow> packet_origin \<Rightarrow> queue_pos \<Rightarrow> app_step" where
  "remove_queue_item env origin position =
     app_get (\<lambda>a. case app_queue a of
         None \<Rightarrow> send_error origin InvalidState
       | Some q \<Rightarrow>
           (case queue_without position q of
              Inl kind \<Rightarrow> send_error origin kind
            | Inr q' \<Rightarrow> app_do [app_update (set_queue q'), relay_to_other_senders env origin (queue_remove position)]))"

text \<open>The index is a byte: without overflow checks, \<open>+= 1\<close> wraps.\<close>

definition queue_with :: "flat_queue_item \<Rightarrow> flat_position \<Rightarrow> queue_state \<Rightarrow> flat_error_kind + queue_state" where
  "queue_with item position q =
     (if 256 \<le> length (qs_items q) then Inl QueueFull
      else
        ebind (case position of
                 FBack \<Rightarrow> Inr (length (qs_items q))
               | FFront \<Rightarrow> Inr 0
               | FIndex idx \<Rightarrow> Inr (unat idx)
               | FPositionOther \<Rightarrow> Inl MalformedBody)
          (\<lambda>idx.
             if qs_items q = [] \<or> length (qs_items q) < idx then Inl QueuePositionOutOfRange
             else
               Inr (q\<lparr>qs_current_idx :=
                        (if idx \<le> unat (qs_current_idx q) then qs_current_idx q + 1 else qs_current_idx q),
                      qs_items := insert_nth idx (queue_item_from_flat item) (qs_items q)\<rparr>)))"

definition insert_queue_item :: "app_env \<Rightarrow> packet_origin \<Rightarrow> flat_queue_item \<Rightarrow> flat_position \<Rightarrow> app_step" where
  "insert_queue_item env origin item position =
     app_get (\<lambda>a. case app_queue a of
         None \<Rightarrow> send_error origin InvalidState
       | Some q \<Rightarrow>
           (case queue_with item position q of
              Inl kind \<Rightarrow> send_error origin kind
            | Inr q' \<Rightarrow>
                app_do
                  [app_update (set_queue q'),
                   (case from_queue_insert_stripped item position of
                      Some msg \<Rightarrow> relay_to_other_senders env origin msg
                    | None \<Rightarrow> app_do [])]))"

section \<open>A play message\<close>

definition handle_playlist_play_request :: "play_message \<Rightarrow> app_step" where
  "handle_playlist_play_request msg =
     (if pm_url msg \<noteq> None then app_effect (DownloadPlaylist msg)
      else if pm_content msg \<noteq> None then app_effect (PlaylistData msg)
      else app_do [])"

definition relay_play :: "app_env \<Rightarrow> packet_origin \<Rightarrow> flat_source \<Rightarrow> app_step" where
  "relay_play env origin msg_source =
     (case origin of
        FromFCast sender_id _ \<Rightarrow>
          app_when (should_broadcast env)
            [case from_play_stripped msg_source of
               Some stripped \<Rightarrow> broadcast_update (RtsV4 (V4Play sender_id stripped))
             | None \<Rightarrow> app_do []]
      | _ \<Rightarrow> app_do [])"

definition handle_play_message :: "app_env \<Rightarrow> wrapped_play_message \<Rightarrow> packet_origin \<Rightarrow> app_step" where
  "handle_play_message env msg origin =
     (case msg of
        LegacyPlay legacy \<Rightarrow>
          app_do
            [(if pm_container legacy = ''application/json'' then handle_playlist_play_request legacy
              else app_do [set_media origin (SrcSingle msg), load_media env]),
             app_when (should_broadcast env)
               [broadcast_update (PlayUpdate
                  \<lparr> pud_generation_time = Some (ae_millis env), pud_play_data = Some legacy \<rparr>)]]
      | FlatPlay flat_play \<Rightarrow>
          app_do
            [(case flat_play of
                FSingle _ \<Rightarrow> app_do [set_media origin (SrcSingle msg), load_media env]
              | FQueue queue \<Rightarrow>
                  let idx = (case fq_start_index queue of Some i \<Rightarrow> i | None \<Rightarrow> 0) in
                  app_do
                    [set_media origin (SrcQueue
                       \<lparr> qs_items = map queue_item_from_flat (fq_items queue), qs_current_idx = idx \<rparr>),
                     play_queue_item env origin (QIndex idx) False]
              | FSourceOther \<Rightarrow> send_error origin MalformedBody),
             relay_play env origin flat_play]
      | ChromecastPlay _ \<Rightarrow> app_do [set_media origin (SrcSingle msg), load_media env])"

end
