(* ===== verification/App_Tracks.thy ===== *)
theory App_Tracks
  imports App_Load
begin

text \<open>
  Tracks and external subtitles, and the requests parked until the pipeline knows whether it can seek
  (application.rs, \<open>on_media_info_updated\<close> to \<open>update_tracks\<close>). An external subtitle is a second input of the
  pipeline: the sender sees it under an id of its own from the moment it is attached, and its stream
  appears in a later collection.
\<close>

definition the_externals :: "application \<Rightarrow> external_subtitle list" where
  "the_externals a = (case ap_current_media a of Some m \<Rightarrow> ms_external_subtitles m | None \<Rightarrow> [])"

definition update_media :: "(media_state \<Rightarrow> media_state) \<Rightarrow> app_step" where
  "update_media f = app_update (\<lambda>a. a\<lparr>ap_current_media := map_option f (ap_current_media a)\<rparr>)"

definition find_external :: "u32 \<Rightarrow> external_subtitle list \<Rightarrow> external_subtitle option" where
  "find_external i subs = List.find (\<lambda>s. es_id s = i) subs"

section \<open>Advertised tracks\<close>

definition external_stream_idxs :: "application \<Rightarrow> u32 list" where
  "external_stream_idxs a =
     List.map_filter (\<lambda>s. Option.bind (es_stream_sid s) (\<lambda>sid. stream_idx_by_id sid (ap_player a))) (the_externals a)"

definition track_metadata_of :: "stream_type set \<Rightarrow> media_track_metadata option" where
  "track_metadata_of types =
     (if TypeVideo \<in> types then Some TrackVideo
      else if TypeAudio \<in> types then Some TrackAudio
      else if TypeText \<in> types then Some TrackSubtitle
      else None)"

text \<open>The streams the pipeline has of its own, with their indices; \<open>as u32\<close> keeps the low bits.\<close>

definition own_streams :: "application \<Rightarrow> (u32 \<times> stream) list" where
  "own_streams a =
     filter (\<lambda>(idx, s). idx \<notin> set (external_stream_idxs a))
       (map (\<lambda>(idx, s). (word_of_nat idx, s)) (enumerate 0 (pl_streams (ap_player a))))"

definition own_tracks :: "app_env \<Rightarrow> application \<Rightarrow> media_track list" where
  "own_tracks env a =
     List.map_filter (\<lambda>(idx, s).
         map_option (\<lambda>metadata.
             (case ae_tags env (st_inner s) of
                Some tags \<Rightarrow>
                  \<lparr> mt_id = idx, mt_title = tg_title tags,
                    mt_iso_639 = (case tg_language_code tags of Some c \<Rightarrow> c | None \<Rightarrow> ''und''),
                    mt_metadata = Some metadata \<rparr>
              | None \<Rightarrow> \<lparr> mt_id = idx, mt_title = None, mt_iso_639 = ''und'', mt_metadata = Some metadata \<rparr>))
           (track_metadata_of (gs_types (st_inner s))))
       (own_streams a)"

definition external_tracks :: "application \<Rightarrow> media_track list" where
  "external_tracks a =
     map (\<lambda>s. \<lparr> mt_id = es_id s, mt_title = es_name s, mt_iso_639 = ''und'', mt_metadata = Some TrackSubtitle \<rparr>)
       (the_externals a)"

definition gui_tracks :: "media_track_metadata \<Rightarrow> application \<Rightarrow> (int \<times> string) list" where
  "gui_tracks kind a =
     map (\<lambda>(idx, s). (sint idx, st_title s))
       (filter (\<lambda>(idx, s). track_metadata_of (gs_types (st_inner s)) = Some kind) (own_streams a))"

definition update_tracks :: "app_env \<Rightarrow> bool \<Rightarrow> app_step" where
  "update_tracks env force_update a0 =
     (let (changed, p) = (if force_update then (True, ap_player a0)
                          else update_stream_properties (ae_language_name env) (ae_tags env) (ap_player a0));
          a = a0\<lparr>ap_player := p\<rparr>
      in app_when changed
          [app_when (should_broadcast env)
             [broadcast_update (RtsV4 (TracksAvailable (tracks_available (own_tracks env a @ external_tracks a))))],
           gui (GuiTracks (gui_tracks TrackVideo a) (gui_tracks TrackAudio a)
             (gui_tracks TrackSubtitle a @
              map (\<lambda>s. (sint (es_id s), case es_name s of Some n \<Rightarrow> n | None \<Rightarrow> ''External'')) (the_externals a)))] a)"

definition advertised_subtitle_id :: "stream_id option \<Rightarrow> application \<Rightarrow> u32 option" where
  "advertised_subtitle_id subtitle_sid a =
     Option.bind subtitle_sid (\<lambda>sid.
       case List.find (\<lambda>s. es_stream_sid s = Some sid) (the_externals a) of
         Some entry \<Rightarrow> Some (es_id entry)
       | None \<Rightarrow> stream_idx_by_id sid (ap_player a))"

section \<open>Changing tracks\<close>

definition apply_track_change :: "app_env \<Rightarrow> track_kind \<Rightarrow> stream_id option \<Rightarrow> app_step" where
  "apply_track_change env kind sid =
     app_get (\<lambda>a.
       on_player_step
         (\<lambda>p. Some (if the_externals a \<noteq> [] then request_track_change_no_refresh (ae_answers env) kind sid p
                    else request_track_change (ae_answers env) kind sid p))
         (\<lambda>stale. app_when stale [gui GuiClearVideoOverlays]))"

definition advertised_external_sid :: "external_subtitle \<Rightarrow> application \<Rightarrow> stream_id option" where
  "advertised_external_sid entry a =
     (case es_stream_sid entry of
        Some sid \<Rightarrow> if stream_idx_by_id sid (ap_player a) \<noteq> None then Some sid else None
      | None \<Rightarrow> None)"

definition resolve_subtitle_target :: "u32 option \<Rightarrow> application \<Rightarrow> flat_error_kind + subtitle_target" where
  "resolve_subtitle_target i a =
     (case i of
        None \<Rightarrow> Inr (TargetStream None)
      | Some i \<Rightarrow>
          if EXTERNAL_TRACK_ID_BASE \<le> i then
            (case find_external i (the_externals a) of
               None \<Rightarrow> Inl MalformedBody
             | Some entry \<Rightarrow>
                 (case advertised_external_sid entry a of
                    Some sid \<Rightarrow> Inr (TargetStream (Some sid))
                  | None \<Rightarrow> Inr (TargetExternal i)))
          else if \<not> is_stream_of_type i TypeText (ap_player a) then Inl MalformedBody
          else Inr (TargetStream (stream_id_of i (ap_player a))))"

definition change_subtitle_track :: "app_env \<Rightarrow> packet_origin \<Rightarrow> u32 option \<Rightarrow> app_step" where
  "change_subtitle_track env origin i =
     app_get (\<lambda>a. case resolve_subtitle_target i a of
         Inl kind \<Rightarrow> send_error origin kind
       | Inr tgt \<Rightarrow>
           if tgt \<noteq> TargetStream None \<and> i \<noteq> None \<and> ts_video (pl_selected (ap_player a)) = None
           then send_error origin InvalidState
           else
             (case tgt of
                TargetExternal ext_id \<Rightarrow>
                  update_media (\<lambda>m. m\<lparr>ms_sub_desire := Some \<lparr> sd_ext_id = ext_id, sd_target = TheExternal \<rparr>\<rparr>)
              | TargetStream sid \<Rightarrow>
                  app_do
                    [update_media (\<lambda>m. m\<lparr>ms_sub_desire := None\<rparr>),
                     apply_track_change env KindSubtitle sid]))"

section \<open>External subtitles\<close>

definition arm_external_sub_watchdog :: "u32 \<Rightarrow> app_step" where
  "arm_external_sub_watchdog ext_id =
     app_get (\<lambda>a. app_effect (Later (ExternalSubCheckAfter (ap_current_media_item_id a) ext_id)))"

definition detach_external :: "u64 option \<Rightarrow> app_step" where
  "detach_external handle =
     (case handle of
        Some h \<Rightarrow> on_player (\<lambda>p. (detach_external_subtitle h, p))
      | None \<Rightarrow> app_do [])"

text \<open>\<open>add_subtitle_source\<close> from where the input is attached.\<close>

definition attach_subtitle_source ::
    "app_env \<Rightarrow> packet_origin \<Rightarrow> string \<Rightarrow> bool \<Rightarrow> string option \<Rightarrow> app_step" where
  "attach_subtitle_source env origin url select name =
     on_player_step (\<lambda>p. Some (attach_external_subtitle url p)) (\<lambda>handle. app_get (\<lambda>a.
       case ap_current_media a of
         None \<Rightarrow> app_do [detach_external (Some handle), send_error origin InvalidState]
       | Some m \<Rightarrow>
           let i = EXTERNAL_TRACK_ID_BASE + ms_next_external_id m;
               entry = \<lparr> es_id = i, es_url = url, es_name = name, es_requested_by = origin,
                         es_handle = Some handle, es_stream_sid = None, es_attached_at = ae_now env \<rparr>;
               tgt = (if select then TheExternal else Restore (ts_subtitle (pl_selected (ap_player a))))
           in app_do
               [update_media (\<lambda>m. m\<lparr>ms_next_external_id := ms_next_external_id m + 1,
                  ms_external_subtitles := ms_external_subtitles m @ [entry],
                  ms_sub_desire := Some \<lparr> sd_ext_id = i, sd_target = tgt \<rparr>\<rparr>),
                arm_external_sub_watchdog i,
                update_tracks env True]))"

definition source_takes_subtitles :: "media_source \<Rightarrow> bool" where
  "source_takes_subtitles src =
     (case src of SrcSingle _ \<Rightarrow> True | SrcPlaylist _ _ \<Rightarrow> True | SrcQueue _ \<Rightarrow> True | _ \<Rightarrow> False)"

definition add_subtitle_source ::
    "app_env \<Rightarrow> packet_origin \<Rightarrow> string \<Rightarrow> bool \<Rightarrow> string option \<Rightarrow> app_step" where
  "add_subtitle_source env origin url select name =
     app_get (\<lambda>a.
       let supported = (case ap_current_media a of Some m \<Rightarrow> source_takes_subtitles (ms_source m) | None \<Rightarrow> False) in
       if \<not> supported \<or> ap_is_loading_media a then send_error origin InvalidState
       else if is_live (pl_machine (ap_player a)) then send_error origin InvalidState
       else if \<not> pl_seekable (ap_player a) then
         (if \<not> pl_seekable_known (ap_player a) then
            app_do
              [app_update (\<lambda>a. a\<lparr>ap_pending_subtitle_adds := ap_pending_subtitle_adds a @
                 [\<lparr> psa_url = url, psa_select = select, psa_name = name, psa_origin = origin \<rparr>]\<rparr>),
               app_effect (Later (PendingSubtitleAddCheckAfter (ap_current_media_item_id a)
                 (ap_pending_subtitle_add_epoch a)))]
          else send_error origin InvalidState)
       else attach_subtitle_source env origin url select name)"

definition maybe_apply_pending_subtitle_adds :: "app_env \<Rightarrow> app_step" where
  "maybe_apply_pending_subtitle_adds env =
     app_get (\<lambda>a.
       app_when (ap_pending_subtitle_adds a \<noteq> [] \<and> pl_seekable_known (ap_player a))
         (app_update (\<lambda>a. a\<lparr>ap_pending_subtitle_add_epoch := ap_pending_subtitle_add_epoch a + 1,
                            ap_pending_subtitle_adds := []\<rparr>) #
          map (\<lambda>add. add_subtitle_source env (psa_origin add) (psa_url add) (psa_select add) (psa_name add))
            (ap_pending_subtitle_adds a)))"

definition refresh_external_stream_sids :: "app_env \<Rightarrow> app_step" where
  "refresh_external_stream_sids env =
     app_get (\<lambda>a. update_media (\<lambda>m. m\<lparr>ms_external_subtitles :=
       map (\<lambda>entry.
           if es_stream_sid entry = None then
             (case Option.bind (es_handle entry)
                (\<lambda>handle. external_stream_sid_of (ae_subtitle_sids env handle) (ap_player a)) of
                Some sid \<Rightarrow> entry\<lparr>es_stream_sid := Some sid\<rparr>
              | None \<Rightarrow> entry)
           else entry)
         (ms_external_subtitles m)\<rparr>))"

definition pump_fcast_sub_desire :: "app_env \<Rightarrow> app_step" where
  "pump_fcast_sub_desire env =
     app_get (\<lambda>a. case Option.bind (ap_current_media a) ms_sub_desire of
         None \<Rightarrow> app_do []
       | Some desire \<Rightarrow>
           (case find_external (sd_ext_id desire) (the_externals a) of
              None \<Rightarrow> update_media (\<lambda>m. m\<lparr>ms_sub_desire := None\<rparr>)
            | Some entry \<Rightarrow>
                (case advertised_external_sid entry a of
                   None \<Rightarrow> app_do []
                 | Some ext_sid \<Rightarrow>
                     app_do
                       [update_media (\<lambda>m. m\<lparr>ms_sub_desire := None\<rparr>),
                        apply_track_change env KindSubtitle
                          (case sd_target desire of TheExternal \<Rightarrow> Some ext_sid | Restore sid \<Rightarrow> sid)])))"

definition fail_fcast_external_subtitle :: "app_env \<Rightarrow> u32 \<Rightarrow> app_step" where
  "fail_fcast_external_subtitle env ext_id =
     app_get (\<lambda>a. case find_external ext_id (the_externals a) of
         None \<Rightarrow> app_do []
       | Some failed \<Rightarrow>
           app_do
             [update_media (\<lambda>m. m\<lparr>
                ms_external_subtitles := remove1 failed (ms_external_subtitles m),
                ms_sub_desire := (case ms_sub_desire m of
                    Some d \<Rightarrow> if sd_ext_id d = ext_id then None else Some d
                  | None \<Rightarrow> None)\<rparr>),
              detach_external (es_handle failed),
              send_error (es_requested_by failed) ResourceNotFound,
              update_tracks env True])"

definition FCAST_REARM_DEBOUNCE :: nat where "FCAST_REARM_DEBOUNCE = 1000"

text \<open>\<open>iter_mut().find(..)\<close>: the first entry with the id is changed.\<close>

fun update_external :: "u32 \<Rightarrow> (external_subtitle \<Rightarrow> external_subtitle) \<Rightarrow> external_subtitle list \<Rightarrow> external_subtitle list" where
  "update_external i f [] = []"
| "update_external i f (s # subs) = (if es_id s = i then f s # subs else s # update_external i f subs)"

definition fail_or_rearm_fcast_external :: "app_env \<Rightarrow> u32 \<Rightarrow> app_step" where
  "fail_or_rearm_fcast_external env ext_id =
     app_get (\<lambda>a. case find_external ext_id (the_externals a) of
         None \<Rightarrow> app_do []
       | Some entry \<Rightarrow>
           let awaited = (case Option.bind (ap_current_media a) ms_sub_desire of
                 Some d \<Rightarrow> sd_ext_id d = ext_id | None \<Rightarrow> False);
               shown = (es_stream_sid entry \<noteq> None \<and> es_stream_sid entry = ts_subtitle (pl_selected (ap_player a)))
           in if awaited \<or> shown then fail_fcast_external_subtitle env ext_id
              else if ae_now env - es_attached_at entry < FCAST_REARM_DEBOUNCE then app_do []
              else
                app_do
                  [detach_external (es_handle entry),
                   on_player_step (\<lambda>p. Some (attach_external_subtitle (es_url entry) p)) (\<lambda>handle.
                     update_media (\<lambda>m. m\<lparr>ms_external_subtitles :=
                       update_external ext_id
                         (\<lambda>s. s\<lparr>es_handle := Some handle, es_stream_sid := None, es_attached_at := ae_now env\<rparr>)
                         (ms_external_subtitles m)\<rparr>)),
                   arm_external_sub_watchdog ext_id])"

section \<open>Seeks\<close>

text \<open>A seek beyond the known duration is an error, and goes to the end.\<close>

definition seek_now :: "app_env \<Rightarrow> packet_origin \<Rightarrow> clock_time \<Rightarrow> app_step" where
  "seek_now env origin time =
     app_get (\<lambda>a. case ap_current_duration a of
         Some duration \<Rightarrow>
           if 0 < duration \<and> duration < time then
             app_do [send_error origin SeekOutOfRange, on_player (seek_to (lib_f32 (ae_lib env)) duration)]
           else on_player (seek_to (lib_f32 (ae_lib env)) time)
       | None \<Rightarrow> on_player (seek_to (lib_f32 (ae_lib env)) time))"

definition operation_seek :: "app_env \<Rightarrow> packet_origin \<Rightarrow> clock_time \<Rightarrow> app_step" where
  "operation_seek env origin time =
     app_get (\<lambda>a. app_when (is_playing a)
       [if \<not> pl_seekable_known (ap_player a) then
          app_do
            [app_update (\<lambda>a. a\<lparr>ap_pending_seek_op := Some (origin, time),
               ap_pending_seek_epoch := ap_pending_seek_epoch a + 1\<rparr>),
             app_get (\<lambda>a. app_effect (Later (PendingSeekCheckAfter (ap_pending_seek_epoch a))))]
        else seek_now env origin time])"

definition maybe_apply_pending_seek :: "app_env \<Rightarrow> app_step" where
  "maybe_apply_pending_seek env =
     app_get (\<lambda>a. case ap_pending_seek_op a of
         Some (origin, time) \<Rightarrow>
           app_when (pl_seekable_known (ap_player a))
             [app_update (\<lambda>a. a\<lparr>ap_pending_seek_op := None, ap_pending_seek_epoch := ap_pending_seek_epoch a + 1\<rparr>),
              seek_now env origin time]
       | None \<Rightarrow> app_do [])"

definition on_media_info_updated :: "app_env \<Rightarrow> app_step" where
  "on_media_info_updated env = app_do [maybe_apply_pending_subtitle_adds env, maybe_apply_pending_seek env]"

end
