(* ===== verification/App_Events.thy ===== *)
theory App_Events
  imports App_Tracks
begin

text \<open>
  The application's event loop (application.rs): operations of senders, events of the player, images, the
  messages it sends itself, the tick and new sessions. RAOP, AirPlay, discovery, updates and the inspector
  are left out.
\<close>

section \<open>Operations of a sender\<close>

definition set_playlist_item_op :: "app_env \<Rightarrow> u64 \<Rightarrow> app_step" where
  "set_playlist_item_op env item_index =
     app_get (\<lambda>a. case map_option ms_source (ap_current_media a) of
         Some (SrcPlaylist content index) \<Rightarrow>
           if length (V3_Messages.pl_items content) \<le> unat item_index then app_do []
           else
             app_do
               [update_media (\<lambda>m. m\<lparr>ms_source := SrcPlaylist content (unat item_index)\<rparr>),
                drop_external_subtitles,
                load_media env,
                gui (GuiPlaylistIndex (sint (ucast item_index :: u32)))]
       | _ \<Rightarrow> app_do [])"

definition mirroring_play_message :: play_message where
  "mirroring_play_message =
     \<lparr> pm_container = ''application/x-fwebrtc'', pm_url = Some ''fwebrtc://placeholder'', pm_content = None,
       pm_time = None, pm_volume = None, pm_speed = None, pm_headers = None, pm_metadata = None \<rparr>"

definition change_track_op :: "app_env \<Rightarrow> packet_origin \<Rightarrow> u32 option \<Rightarrow> flat_track_type \<Rightarrow> app_step" where
  "change_track_op env origin i typ =
     app_get (\<lambda>a.
       let change = (\<lambda>ty kind.
         case i of
           None \<Rightarrow> apply_track_change env kind None
         | Some i \<Rightarrow>
             (case (if is_stream_of_type i ty (ap_player a) then stream_id_of i (ap_player a) else None) of
                None \<Rightarrow> send_error origin MalformedBody
              | Some sid \<Rightarrow> apply_track_change env kind (Some sid)))
       in case typ of
            FTypeSubtitle \<Rightarrow> change_subtitle_track env origin i
          | FTypeVideo \<Rightarrow> change TypeVideo KindVideo
          | FTypeAudio \<Rightarrow> change TypeAudio KindAudio
          | FTypeOther _ \<Rightarrow> send_error origin MalformedBody)"

definition set_progress_interval :: "app_env \<Rightarrow> packet_origin \<Rightarrow> u64 \<Rightarrow> app_step" where
  "set_progress_interval env origin interval =
     (case origin of
        FromFCast sender_id _ \<Rightarrow>
          app_update (\<lambda>a. a\<lparr>ap_fcast_senders :=
            map (\<lambda>(sid, h). (sid, if sid = sender_id
                then h\<lparr>fh_progress_interval := interval, fh_last_progress_update := ae_now env\<rparr> else h))
              (ap_fcast_senders a)\<rparr>)
      | _ \<Rightarrow> app_do [])"

definition handle_operation :: "app_env \<Rightarrow> operation \<Rightarrow> packet_origin \<Rightarrow> app_step" where
  "handle_operation env op origin =
     (case op of
        Pause \<Rightarrow> app_pause
      | Resume \<Rightarrow> app_resume
      | Stop \<Rightarrow> app_do [app_stop_playback, relay_to_other_senders env origin stop_playback]
      | SeekTo time \<Rightarrow> operation_seek env origin time
      | SetSpeed rate \<Rightarrow>
          app_get (\<lambda>a.
            if volumes_equal (sm_rate (pl_machine (ap_player a))) (f64_of_f32 rate) then broadcast_rate env rate
            else on_player (set_rate (lib_f32 (ae_lib env)) rate))
      | SetPlaylistItem msg \<Rightarrow> set_playlist_item_op env (spi_item_index msg)
      | SetVolume volume \<Rightarrow> set_volume_cmd env volume
      | OpStartMirroringSession \<Rightarrow>
          app_do
            [app_update (\<lambda>a. a\<lparr>ap_pending_fwebrtc_channel := True\<rparr>),
             set_media origin (SrcSingle (LegacyPlay mirroring_play_message)),
             load_media env]
      | SetPlaybackState state \<Rightarrow>
          (case state of
             FPaused \<Rightarrow> app_pause
           | FPlaying \<Rightarrow> app_resume
           | FIdle \<Rightarrow> app_stop_playback
           | FEnded \<Rightarrow> app_stop_playback
           | _ \<Rightarrow> app_do [])
      | PlayNew msg \<Rightarrow> handle_play_message env msg origin
      | ChangeTrack i typ \<Rightarrow> change_track_op env origin i typ
      | AddSubtitleSource url select name \<Rightarrow> add_subtitle_source env origin url select name
      | SelectQueueItem position \<Rightarrow> play_queue_item env origin position True
      | RemoveQueueItem position \<Rightarrow> remove_queue_item env origin position
      | InsertQueueItem item position \<Rightarrow> insert_queue_item env origin item position
      | SetProgressUpdateInterval interval \<Rightarrow> set_progress_interval env origin interval
      | ResumeOrPause \<Rightarrow>
          app_get (\<lambda>a. case player_state_of (ap_player a) of
              PlPaused \<Rightarrow> app_resume
            | PlPlaying \<Rightarrow> app_pause
            | _ \<Rightarrow> send_error origin InvalidState))"

section \<open>Events of the player\<close>

definition ended_event :: "app_env \<Rightarrow> application \<Rightarrow> app_step" where
  "ended_event env a =
     (case map_option ms_source (ap_current_media a) of
        Some (SrcSingle (LegacyPlay msg)) \<Rightarrow> media_event env MediaItemEnd (media_item_from msg)
      | Some (SrcSingle (FlatPlay _)) \<Rightarrow> broadcast_update (RtsV4 (PlaybackStateChanged FEnded))
      | Some (SrcQueue _) \<Rightarrow> broadcast_update (RtsV4 (PlaybackStateChanged FEnded))
      | _ \<Rightarrow> app_do [])"

definition on_end_of_stream :: "app_env \<Rightarrow> app_step" where
  "on_end_of_stream env =
     app_do
       [on_player end_of_stream_reached,
        media_ended env,
        app_get (\<lambda>a. app_when (should_broadcast env) [ended_event env a])]"

definition on_tags :: "app_env \<Rightarrow> stream_tags \<Rightarrow> app_step" where
  "on_tags env tags =
     app_get (\<lambda>a. case ap_current_media a of
         None \<Rightarrow> app_do []
       | Some m \<Rightarrow>
           app_do
             [app_when (\<not> ae_headless env \<and> \<not> ap_have_audio_track_cover a \<and> ae_cover env \<and> ms_pending_thumbnail m = None)
                [app_update (\<lambda>a. a\<lparr>ap_current_thumbnail_id := ap_current_thumbnail_id a + 1\<rparr>),
                 app_get (\<lambda>a. app_do
                   [app_effect (DecodeThumbnail (ap_current_thumbnail_id a)),
                    update_media (\<lambda>m. m\<lparr>ms_pending_thumbnail := Some (ap_current_thumbnail_id a)\<rparr>)])],
              (case tg_title tags of
                 Some title \<Rightarrow>
                   app_when (\<not> ap_have_media_title a)
                     [app_update (\<lambda>a. a\<lparr>ap_have_media_title := True\<rparr>), gui (GuiMediaTitle title)]
               | None \<Rightarrow> app_do []),
              (case ae_artist env of Some artist \<Rightarrow> gui (GuiArtistName artist) | None \<Rightarrow> app_do [])])"

definition on_volume_changed :: "app_env \<Rightarrow> f64 \<Rightarrow> app_step" where
  "on_volume_changed env volume =
     app_do
       [on_player Player.volume_changed,
        app_get (\<lambda>a.
          let echo_window = (case ap_last_volume_cmd a of Some at \<Rightarrow> ae_now env - at < 2000 | None \<Rightarrow> False)
          in app_when (\<not> echo_window) [broadcast_volume env (to_f32 env volume)])]"

definition on_stream_collection :: "app_env \<Rightarrow> stream_collection \<Rightarrow> app_step" where
  "on_stream_collection env collection =
     app_do
       [on_player (handle_stream_collection (ae_language_name env) (ae_tags env) collection),
        on_player (\<lambda>p. ([], update_media_info (ae_query env) (ae_duration env) p)),
        on_media_info_updated env,
        gui (GuiAppState AsPlaying),
        refresh_external_stream_sids env,
        update_tracks env True,
        pump_fcast_sub_desire env,
        app_get (\<lambda>a. app_when (\<not> ap_have_media_info a)
          [media_loaded_successfully env, app_update (\<lambda>a. a\<lparr>ap_have_media_info := True\<rparr>)])]"

definition on_async_done :: "app_env \<Rightarrow> app_step" where
  "on_async_done env =
     app_do
       [on_player (async_done (ae_answers env)),
        app_get (\<lambda>a. app_when (have_media_info (ap_player a) \<and> player_state_of (ap_player a) \<noteq> PlPlaying)
          [playback_progress_changed env])]"

definition on_buffering :: "app_env \<Rightarrow> int \<Rightarrow> app_step" where
  "on_buffering env percent =
     on_player_step (player_buffering (ae_answers env) percent)
       (\<lambda>finished. app_when finished [notify_updates env True, app_playback_state_changed env FBuffering])"

fun flat_state_of :: "player_state \<Rightarrow> flat_playback_state" where
  "flat_state_of PlPaused = FPaused"
| "flat_state_of PlPlaying = FPlaying"
| "flat_state_of PlBuffering = FBuffering"
| "flat_state_of PlStopped = FIdle"

definition on_state_changed :: "app_env \<Rightarrow> gst_state \<Rightarrow> gst_state \<Rightarrow> gst_state \<Rightarrow> app_step" where
  "on_state_changed env old current pend =
     (let first_paused = (old = Ready \<and> current = gst_state.Paused \<and> pend = VoidPending);
          started_playing = (current = gst_state.Playing \<and> pend = VoidPending);
          prerolled = (first_paused \<or> old = gst_state.Paused \<and> current = gst_state.Playing \<and> pend = VoidPending)
      in app_do
          [on_player_step (player_state_changed old current pend) (\<lambda>announced.
             app_when (announced \<noteq> None)
               [notify_updates env True,
                app_get (\<lambda>a. app_playback_state_changed env (flat_state_of (player_state_of (ap_player a))))]),
           app_when (first_paused \<or> started_playing)
             [app_update (\<lambda>a. a\<lparr>ap_current_duration := ae_duration env\<rparr>),
              app_when (ae_duration env \<noteq> None \<and> should_broadcast env) [playback_progress_changed env]],
           app_get (\<lambda>a. app_effect (ToCast (CastPlayerState (player_state_of (ap_player a))))),
           app_when prerolled
             [on_player (\<lambda>p. ([], update_media_info (ae_query env) (ae_duration env) p)),
              on_media_info_updated env],
           on_player (poll_track_ops (ae_answers env))])"

definition id_or_minus_one :: "u32 option \<Rightarrow> int" where
  "id_or_minus_one i = (case i of Some i \<Rightarrow> sint i | None \<Rightarrow> -1)"

definition on_streams_selected :: "app_env \<Rightarrow> track_selection \<Rightarrow> seqnum \<Rightarrow> app_step" where
  "on_streams_selected env reported seqnum =
     on_player_step (\<lambda>p. Some (streams_selected (ae_answers env) reported seqnum p)) (\<lambda>sel. app_get (\<lambda>a.
       let video_id = Option.bind (ts_video sel) (\<lambda>sid. stream_idx_by_id sid (ap_player a));
           audio_id = Option.bind (ts_audio sel) (\<lambda>sid. stream_idx_by_id sid (ap_player a));
           subtitle_id = advertised_subtitle_id (ts_subtitle sel) a
       in app_do
           [gui (GuiTrackIds (id_or_minus_one video_id) (id_or_minus_one audio_id) (id_or_minus_one subtitle_id)),
            (if ts_video reported \<noteq> None then video_stream_available else video_stream_unavailable),
            broadcast_update (RtsV4 (TracksSelected
              [change_track video_id FTypeVideo, change_track audio_id FTypeAudio,
               change_track subtitle_id FTypeSubtitle]))]))"

definition on_player_error :: "app_env \<Rightarrow> error_origin \<Rightarrow> media_error_kind \<Rightarrow> string \<Rightarrow> app_step" where
  "on_player_error env origin kind message =
     (case origin of
        ExternalSubtitle handle \<Rightarrow>
          app_get (\<lambda>a. case List.find (\<lambda>s. es_handle s = Some handle) (the_externals a) of
              Some s \<Rightarrow> fail_or_rearm_fcast_external env (es_id s)
            | None \<Rightarrow> app_do [])
      | StaleOrigin \<Rightarrow> app_do []
      | _ \<Rightarrow>
          app_do
            [on_player stop,
             app_get (\<lambda>a. case ap_current_media a of
                 Some m \<Rightarrow> send_error (ms_origin m) (media_error_kind_to_error kind)
               | None \<Rightarrow> app_do []),
             media_error env message])"

definition player_event_step :: "app_env \<Rightarrow> player_event \<Rightarrow> app_step" where
  "player_event_step env event =
     (case event of
        EvEndOfStream \<Rightarrow> on_end_of_stream env
      | EvTags tags \<Rightarrow> on_tags env tags
      | EvVolumeChanged volume \<Rightarrow> on_volume_changed env volume
      | EvStreamCollection collection \<Rightarrow> on_stream_collection env collection
      | EvAsyncDone \<Rightarrow> on_async_done env
      | EvBuffering percent \<Rightarrow> on_buffering env percent
      | EvIsLive \<Rightarrow> on_player (\<lambda>p. ([], set_is_live True p))
      | EvStateChanged old current pend \<Rightarrow> on_state_changed env old current pend
      | EvUriLoaded \<Rightarrow> app_get (\<lambda>a. app_when (is_playing a) [on_player_step uri_loaded (\<lambda>_. app_do [])])
      | EvRequestState state \<Rightarrow> on_player (\<lambda>p. (request_state state, p))
      | EvQueueSeek sk \<Rightarrow> on_player (\<lambda>p. ([], player_queue_seek sk p))
      | EvSubtitleRefreshFailed seqnum \<Rightarrow> on_player (subtitle_refresh_failed (ae_answers env) seqnum)
      | EvStreamsSelected reported seqnum \<Rightarrow> on_streams_selected env reported seqnum
      | EvSeekFailed \<Rightarrow> on_player player_seek_failed
      | EvClockLost \<Rightarrow> on_player (\<lambda>p. (recover_clock p, p))
      | EvRateChanged rate \<Rightarrow>
          app_do [on_player (\<lambda>p. ([], set_rate_changed rate p)), broadcast_rate env (to_f32 env rate)]
      | EvError origin kind message _ \<Rightarrow> on_player_error env origin kind message
      | EvWarning message \<Rightarrow> media_warning message
      | EvStreamTagsUpdated \<Rightarrow> update_tracks env False)"

definition handle_player_event :: "app_env \<Rightarrow> player_event \<Rightarrow> u64 option \<Rightarrow> app_step" where
  "handle_player_event env event generation =
     app_get (\<lambda>a. app_when (event_admitted event generation (ap_player a)) [player_event_step env event])"

section \<open>Images\<close>

text \<open>An error comes with its text for the senders.\<close>

datatype image_event =
    DownloadResult u32 "(download_image_error \<times> string) option"
  | AudioThumbnailAvailable u32
  | Decoded u32
  | DecodedAnimation u32

definition image_shown :: "app_env \<Rightarrow> gui_call \<Rightarrow> app_step" where
  "image_shown env call = app_do [gui call, gui (GuiAppState AsPlaying), media_loaded_successfully env]"

definition handle_image_event :: "app_env \<Rightarrow> image_event \<Rightarrow> app_step" where
  "handle_image_event env event =
     app_get (\<lambda>a. case event of
         DownloadResult i res \<Rightarrow>
           if Some i = Option.bind (ap_current_media a) ms_pending_thumbnail_download then
             (case res of
                None \<Rightarrow>
                  app_do
                    [app_update (\<lambda>a. a\<lparr>ap_current_thumbnail_id := ap_current_thumbnail_id a + 1\<rparr>),
                     app_get (\<lambda>a. app_do
                       [update_media (\<lambda>m. m\<lparr>ms_pending_thumbnail_download := None,
                          ms_pending_thumbnail := Some (ap_current_thumbnail_id a)\<rparr>),
                        app_effect (DecodeThumbnail (ap_current_thumbnail_id a))])]
              | Some _ \<Rightarrow> app_do [])
           else if i \<noteq> ap_current_image_download_id a then app_do []
           else
             (case res of
                None \<Rightarrow>
                  app_do
                    [app_update (\<lambda>a. a\<lparr>ap_current_image_id := ap_current_image_id a + 1\<rparr>),
                     app_get (\<lambda>a. app_effect (DecodeImage (ap_current_image_id a)))]
              | Some (err, shown_err) \<Rightarrow>
                  app_do
                    [(case ap_current_media a of
                        Some m \<Rightarrow> send_error (ms_origin m) (image_download_error_kind err)
                      | None \<Rightarrow> app_do []),
                     media_error env (''Image download failed: '' @ shown_err)])
       | AudioThumbnailAvailable i \<Rightarrow>
           app_when (Option.bind (ap_current_media a) ms_pending_thumbnail = Some i) [gui (GuiAudioTrackCover i)]
       | Decoded i \<Rightarrow> app_when (i = ap_current_image_id a) [image_shown env (GuiImagePreview i)]
       | DecodedAnimation i \<Rightarrow> app_when (i = ap_current_image_id a) [image_shown env (GuiAnimation i)])"

section \<open>The event loop\<close>

datatype app_message =
    MsgSessionFinished
  | MsgSeekPercent f32
  | MsgQuit
  | MsgOp packet_origin operation
  | MsgImage image_event
  | MsgPlaylistDataResult "play_message option"
  | MsgMediaItemFinish u64
  | MsgSelectTrack int track_kind
  | MsgPlayerEvent player_event "u64 option"
  | MsgShouldSetLoadingStatus u64
  | MsgPendingSubtitleAddCheck u64 u64
  | MsgPendingSeekCheck u64
  | MsgExternalSubCheck u64 u32
  | MsgLoadStallCheck u64 u64
  | MsgWindowClosed nat
  | MsgSenderDisconnect sender_id
  | MsgTick
  | MsgNewSession sender_id

definition seek_percent :: "app_env \<Rightarrow> f32 \<Rightarrow> app_step" where
  "seek_percent env percent =
     app_get (\<lambda>a. case Option.bind (ap_current_duration a)
         (\<lambda>duration. map_option (Pair duration)
            (lib_clock (ae_lib env) (f64_mul (f64_of_f32 percent) (ae_seconds env duration)))) of
         Some (duration, position) \<Rightarrow>
           app_do
             [app_update (\<lambda>a. a\<lparr>ap_gui_seek_hold :=
                Some \<lparr> sh_target = ae_seconds env (min position duration), sh_since = ae_now env \<rparr>\<rparr>),
              handle_operation env (SeekTo position) FromGui]
       | None \<Rightarrow> app_do [app_update (\<lambda>a. a\<lparr>ap_gui_seek_hold := None\<rparr>), gui (GuiSeekPending False)])"

text \<open>A text that is no playlist is an error that the loop logs.\<close>

definition playlist_data_result :: "app_env \<Rightarrow> play_message option \<Rightarrow> app_step" where
  "playlist_data_result env msg =
     (case Option.bind msg pm_content of
        None \<Rightarrow> app_do []
      | Some content \<Rightarrow>
          (case lib_json (ae_lib env) content of
             None \<Rightarrow> app_do []
           | Some v \<Rightarrow>
               (case playlist_content_de (lib_cast (ae_lib env)) v of
                  Inl _ \<Rightarrow> app_do []
                | Inr playlist \<Rightarrow>
                    let start_idx = (case pl_offset playlist of Some idx \<Rightarrow> unat idx | None \<Rightarrow> 0);
                        count = length (V3_Messages.pl_items playlist)
                    in app_when (start_idx < count)
                        [set_media FromGui (SrcPlaylist playlist start_idx),
                         load_media env,
                         gui (GuiPlaylist (sint (word_of_nat start_idx :: u32)) (sint (word_of_nat count :: u32)))])))"

definition media_item_finish :: "app_env \<Rightarrow> u64 \<Rightarrow> app_step" where
  "media_item_finish env i =
     app_get (\<lambda>a. case map_option ms_source (ap_current_media a) of
         Some (SrcPlaylist content index) \<Rightarrow>
           app_when (i = ap_current_media_item_id a \<and> index + 1 < length (V3_Messages.pl_items content))
             [handle_operation env (SetPlaylistItem \<lparr> spi_item_index = word_of_nat (index + 1) \<rparr>) FromAutoPlay]
       | _ \<Rightarrow> app_do [])"

definition select_track :: "app_env \<Rightarrow> int \<Rightarrow> track_kind \<Rightarrow> app_step" where
  "select_track env i kind =
     (let wire_id = (if 0 \<le> i then Some (word_of_int i) else None) in
      if kind = KindSubtitle then change_subtitle_track env FromGui wire_id
      else app_get (\<lambda>a. apply_track_change env kind (Option.bind wire_id (\<lambda>i. stream_id_of i (ap_player a)))))"

definition external_sub_check :: "app_env \<Rightarrow> u64 \<Rightarrow> u32 \<Rightarrow> app_step" where
  "external_sub_check env item ext_id =
     app_get (\<lambda>a. case find_external ext_id (the_externals a) of
         Some entry \<Rightarrow>
           app_when (item = ap_current_media_item_id a \<and> es_handle entry \<noteq> None \<and> es_stream_sid entry = None)
             [fail_fcast_external_subtitle env ext_id]
       | None \<Rightarrow> app_do [])"

definition DEFAULT_PROGRESS_INTERVAL :: u64 where "DEFAULT_PROGRESS_INTERVAL = 500000"

definition handle_new_fcast_session :: "app_env \<Rightarrow> sender_id \<Rightarrow> app_step" where
  "handle_new_fcast_session env sid =
     app_do
       [app_update (\<lambda>a. a\<lparr>ap_fcast_senders :=
          (sid, \<lparr> fh_progress_interval = DEFAULT_PROGRESS_INTERVAL, fh_last_progress_update = ae_now env \<rparr>) #
          filter (\<lambda>(s, _). s \<noteq> sid) (ap_fcast_senders a)\<rparr>),
        app_get (\<lambda>a. app_effect (StartSession sid
          (case map_option ms_source (ap_current_media a) of
             Some (SrcSingle (FlatPlay source)) \<Rightarrow>
               Some \<lparr> iv_play_data = FlatPlay source, iv_playback_state = flat_state_of (player_state_of (ap_player a)) \<rparr>
           | _ \<Rightarrow> None))),
        gui GuiDeviceConnected]"

definition app_tick :: "app_env \<Rightarrow> app_step" where
  "app_tick env =
     app_get (\<lambda>a. app_when (player_state_of (ap_player a) = PlPlaying)
       [notify_updates env False, send_v4_progress_updates env])"

definition handle_event :: "app_env \<Rightarrow> app_message \<Rightarrow> app_step" where
  "handle_event env msg =
     (case msg of
        MsgSessionFinished \<Rightarrow> gui GuiDeviceDisconnected
      | MsgSeekPercent percent \<Rightarrow> seek_percent env percent
      | MsgQuit \<Rightarrow> app_do []
      | MsgOp origin op \<Rightarrow> handle_operation env op origin
      | MsgImage event \<Rightarrow> handle_image_event env event
      | MsgPlaylistDataResult m \<Rightarrow> playlist_data_result env m
      | MsgMediaItemFinish i \<Rightarrow> media_item_finish env i
      | MsgSelectTrack i kind \<Rightarrow> select_track env i kind
      | MsgPlayerEvent event generation \<Rightarrow> handle_player_event env event generation
      | MsgShouldSetLoadingStatus i \<Rightarrow>
          app_get (\<lambda>a. app_when (i = ap_current_media_item_id a \<and> ap_is_loading_media a) [gui (GuiAppState AsLoadingMedia)])
      | MsgPendingSubtitleAddCheck _ epoch \<Rightarrow>
          app_get (\<lambda>a. app_when (epoch = ap_pending_subtitle_add_epoch a \<and> ap_pending_subtitle_adds a \<noteq> [])
            [reject_pending_subtitle_adds])
      | MsgPendingSeekCheck epoch \<Rightarrow>
          app_get (\<lambda>a. app_when (epoch = ap_pending_seek_epoch a \<and> ap_pending_seek_op a \<noteq> None) [drop_pending_seek])
      | MsgExternalSubCheck item ext_id \<Rightarrow> external_sub_check env item ext_id
      | MsgLoadStallCheck _ _ \<Rightarrow> app_do []
      | MsgWindowClosed feedback \<Rightarrow> on_player (shutdown feedback)
      | MsgSenderDisconnect sid \<Rightarrow>
          app_update (\<lambda>a. a\<lparr>ap_fcast_senders := filter (\<lambda>(s, _). s \<noteq> sid) (ap_fcast_senders a)\<rparr>)
      | MsgTick \<Rightarrow> app_tick env
      | MsgNewSession sid \<Rightarrow> handle_new_fcast_session env sid)"

text \<open>The loop: the events in the order they are taken; \<open>Quit\<close> stops the player and ends it.\<close>

fun run_event_loop :: "(app_env \<times> app_message) list \<Rightarrow> app_step" where
  "run_event_loop [] a = Some ([], a)"
| "run_event_loop ((env, msg) # todo) a =
     (if msg = MsgQuit then on_player stop a
      else
        (case handle_event env msg a of
           None \<Rightarrow> None
         | Some (es, a1) \<Rightarrow> map_option (\<lambda>(es', a2). (es @ es', a2)) (run_event_loop todo a1)))"

definition application_new :: "nat \<Rightarrow> player \<Rightarrow> application" where
  "application_new started p =
     \<lparr> ap_player = p, ap_last_sent_update = started - SENDER_UPDATE_INTERVAL, ap_current_duration = None, ap_pending_subtitle_adds = [],
       ap_pending_subtitle_add_epoch = 0, ap_last_progress_broadcast = None, ap_last_volume_cmd = None,
       ap_pending_seek_op = None, ap_pending_seek_epoch = 0, ap_gui_seek_hold = None, ap_load_watchdog_epoch = 0,
       ap_current_image_id = 0, ap_current_image_download_id = 0, ap_have_audio_track_cover = False,
       ap_current_media = None, ap_have_media_info = False, ap_current_thumbnail_id = 0,
       ap_have_media_title = False, ap_last_position_updated = F64_MINUS_ONE, ap_pending_fwebrtc_channel = False,
       ap_current_media_item_id = 0, ap_is_loading_media = False, ap_window_visible_before = None,
       ap_window_fullscreen_before = None, ap_fcast_senders = [] \<rparr>"

end
