(* ===== verification/App_Proofs.thy ===== *)
theory App_Proofs
  imports App_Events Player_Proofs
begin

text \<open>
  What a step of the application keeps: total correctness with an invariant of the state and a property of
  the effects, one rule for each way steps are put together, and the operations of the player as such steps.
\<close>

section \<open>What every step keeps\<close>

text \<open>
  The machine of the player is well-formed, and every sender's packet that is remembered (with the item,
  its subtitles, a parked request) is one of the packets \<open>S\<close>; every error answers one of them.
\<close>

definition answerable :: "packet_origin set \<Rightarrow> packet_origin \<Rightarrow> bool" where
  "answerable S origin \<longleftrightarrow> (\<forall>sid n. origin = FromFCast sid n \<longrightarrow> origin \<in> S)"

definition media_ok :: "packet_origin set \<Rightarrow> media_state \<Rightarrow> bool" where
  "media_ok S m \<longleftrightarrow> answerable S (ms_origin m) \<and> (\<forall>s \<in> set (ms_external_subtitles m). answerable S (es_requested_by s))"

definition app_ok :: "packet_origin set \<Rightarrow> application \<Rightarrow> bool" where
  "app_ok S a \<longleftrightarrow>
     sm_wf (pl_machine (ap_player a)) \<and>
     (\<forall>m. ap_current_media a = Some m \<longrightarrow> media_ok S m) \<and>
     (\<forall>add \<in> set (ap_pending_subtitle_adds a). answerable S (psa_origin add)) \<and>
     (\<forall>origin time. ap_pending_seek_op a = Some (origin, time) \<longrightarrow> answerable S origin)"

definition effect_ok :: "packet_origin set \<Rightarrow> app_effect \<Rightarrow> bool" where
  "effect_ok S e \<longleftrightarrow> (\<forall>sid kind n. e = ToOneSender sid (RtfError kind n) \<longrightarrow> FromFCast sid n \<in> S)"

text \<open>A step keeps \<open>I\<close> when it ends, in a state with \<open>I\<close>, and every effect satisfies \<open>E\<close>.\<close>

definition maintains :: "(application \<Rightarrow> bool) \<Rightarrow> (app_effect \<Rightarrow> bool) \<Rightarrow> app_step \<Rightarrow> bool" where
  "maintains I E step \<longleftrightarrow> (\<forall>a. I a \<longrightarrow> (\<exists>es a'. step a = Some (es, a') \<and> I a' \<and> (\<forall>e \<in> set es. E e)))"

abbreviation keeps :: "packet_origin set \<Rightarrow> app_step \<Rightarrow> bool" where
  "keeps S \<equiv> maintains (app_ok S) (effect_ok S)"

named_theorems keeps_intros

lemma effect_ok_simps [simp, keeps_intros]:
  "effect_ok S (Pipeline call)" "effect_ok S (ToAllSenders msg)" "effect_ok S (ToCast u)" "effect_ok S (Gui c)"
  "effect_ok S (Later t)" "effect_ok S (Inhibit b)" "effect_ok S (DownloadImage i url hs)"
  "effect_ok S (DownloadPlaylist p)" "effect_ok S (PlaylistData p)" "effect_ok S (DecodeThumbnail i)"
  "effect_ok S (DecodeImage i)" "effect_ok S (StartSession sid v)"
  "effect_ok S (ToOneSender sid (RtfProgressUpdate at dur))"
  by (simp_all add: effect_ok_def)

lemma answerable_simps [simp]:
  "answerable S FromGui" "answerable S FromAutoPlay" "answerable S FromRaop" "answerable S FromAirPlay"
  "answerable S (FromGCast sid)" "answerable S (FromFCast sid n) \<longleftrightarrow> FromFCast sid n \<in> S"
  by (simp_all add: answerable_def)

lemma keeps_nil [keeps_intros]: "maintains I E (app_do [])"
  by (simp add: maintains_def)

lemma keeps_cons [keeps_intros]:
  assumes "maintains I E f" and "maintains I E (app_do fs)"
  shows "maintains I E (app_do (f # fs))"
  unfolding maintains_def
proof (intro allI impI)
  fix a assume "I a"
  then obtain es a1 where f: "f a = Some (es, a1)" "I a1" "\<forall>e \<in> set es. E e"
    using assms(1) by (auto simp: maintains_def)
  with assms(2) obtain es' a2 where "app_do fs a1 = Some (es', a2)" "I a2" "\<forall>e \<in> set es'. E e"
    by (auto simp: maintains_def)
  with f show "\<exists>es a'. app_do (f # fs) a = Some (es, a') \<and> I a' \<and> (\<forall>e \<in> set es. E e)" by auto
qed

lemma keeps_map [keeps_intros]: "(\<And>x. x \<in> set xs \<Longrightarrow> maintains I E (f x)) \<Longrightarrow> maintains I E (app_do (map f xs))"
  by (induction xs) (auto intro: keeps_nil keeps_cons)

lemma keeps_when [keeps_intros]: "(b \<Longrightarrow> maintains I E (app_do fs)) \<Longrightarrow> maintains I E (app_when b fs)"
  by (simp add: app_when_def keeps_nil)

lemma keeps_get [keeps_intros]: "(\<And>a. I a \<Longrightarrow> maintains I E (f a)) \<Longrightarrow> maintains I E (app_get f)"
  by (simp add: maintains_def app_get_def)

lemma keeps_effect [keeps_intros]: "E e \<Longrightarrow> maintains I E (app_effect e)"
  by (simp add: maintains_def app_effect_def)

lemma keeps_gui [keeps_intros]:
  "E (Gui c) \<Longrightarrow> maintains I E (gui c)" "E (ToAllSenders msg) \<Longrightarrow> maintains I E (broadcast_update msg)"
  by (simp_all add: gui_def broadcast_update_def keeps_effect)

lemma keeps_update [keeps_intros]: "(\<And>a. I a \<Longrightarrow> I (f a)) \<Longrightarrow> maintains I E (app_update f)"
  by (simp add: maintains_def app_update_def)

text \<open>The case distinctions of the code.\<close>

lemma keeps_if [keeps_intros]:
  "(b \<Longrightarrow> maintains I E f) \<Longrightarrow> (\<not> b \<Longrightarrow> maintains I E g) \<Longrightarrow> maintains I E (if b then f else g)"
  by simp

lemma keeps_case [keeps_intros]:
  "(x = None \<Longrightarrow> maintains I E f) \<Longrightarrow> (\<And>y. x = Some y \<Longrightarrow> maintains I E (g y)) \<Longrightarrow>
     maintains I E (case x of None \<Rightarrow> f | Some y \<Rightarrow> g y)"
  "(\<And>e. z = Inl e \<Longrightarrow> maintains I E (h e)) \<Longrightarrow> (\<And>v. z = Inr v \<Longrightarrow> maintains I E (k v)) \<Longrightarrow>
     maintains I E (case z of Inl e \<Rightarrow> h e | Inr v \<Rightarrow> k v)"
  "(\<And>b c. w = (b, c) \<Longrightarrow> maintains I E (j b c)) \<Longrightarrow> maintains I E (case w of (b, c) \<Rightarrow> j b c)"
  by (simp_all split: option.split sum.split prod.split)

lemma keeps_origin [keeps_intros]:
  "(\<And>sid n. origin = FromFCast sid n \<Longrightarrow> maintains I E (f sid n)) \<Longrightarrow> maintains I E g \<Longrightarrow>
     maintains I E (case origin of FromFCast sid n \<Rightarrow> f sid n | _ \<Rightarrow> g)"
  by (simp split: packet_origin.split)

lemma keeps_source [keeps_intros]:
  "(\<And>x. src = FSingle x \<Longrightarrow> maintains I E (f x)) \<Longrightarrow> (\<And>x. src = FQueue x \<Longrightarrow> maintains I E (g x)) \<Longrightarrow>
     maintains I E h \<Longrightarrow> maintains I E (case src of FSingle x \<Rightarrow> f x | FQueue x \<Rightarrow> g x | FSourceOther \<Rightarrow> h)"
  "(\<And>x. maintains I E (j x)) \<Longrightarrow> (\<And>x. maintains I E (k x)) \<Longrightarrow> (\<And>x. maintains I E (l x)) \<Longrightarrow>
     maintains I E (case msg of LegacyPlay x \<Rightarrow> j x | FlatPlay x \<Rightarrow> k x | ChromecastPlay x \<Rightarrow> l x)"
  by (simp_all split: flat_source.split wrapped_play_message.split)

lemma keeps_on_player_pure:
  "(\<And>a calls p. I a \<Longrightarrow> f (ap_player a) = (calls, p) \<Longrightarrow> I (a\<lparr>ap_player := p\<rparr>)) \<Longrightarrow> (\<And>call. E (Pipeline call)) \<Longrightarrow>
     maintains I E (on_player f)"
  by (auto simp: maintains_def on_player_def split: prod.splits)

lemma app_ok_player: "app_ok S a \<Longrightarrow> sm_wf (pl_machine p) \<Longrightarrow> app_ok S (a\<lparr>ap_player := p\<rparr>)"
  by (simp add: app_ok_def)

lemma app_ok_media: "app_ok S a \<Longrightarrow> (\<And>m. media_ok S m \<Longrightarrow> media_ok S (f m)) \<Longrightarrow>
    app_ok S (a\<lparr>ap_current_media := map_option f (ap_current_media a)\<rparr>)"
  by (auto simp: app_ok_def)

lemma keeps_update_media [keeps_intros]: "(\<And>m. media_ok S m \<Longrightarrow> media_ok S (f m)) \<Longrightarrow> keeps S (update_media f)"
  by (simp add: update_media_def keeps_update app_ok_media)

lemma keeps_on_player_step:
  assumes "\<And>p. sm_wf (pl_machine p) \<Longrightarrow> \<exists>r calls p'. f p = Some (r, calls, p') \<and> sm_wf (pl_machine p')"
    and "\<And>r. keeps S (k r)"
  shows "keeps S (on_player_step f k)"
  unfolding maintains_def
proof (intro allI impI)
  fix a assume ok: "app_ok S a"
  then have "sm_wf (pl_machine (ap_player a))" by (simp add: app_ok_def)
  then obtain r calls p where f: "f (ap_player a) = Some (r, calls, p)" "sm_wf (pl_machine p)"
    using assms(1) by blast
  then have "app_ok S (a\<lparr>ap_player := p\<rparr>)" using app_ok_player [OF ok] by simp
  with assms(2) [of r] obtain es a' where "k r (a\<lparr>ap_player := p\<rparr>) = Some (es, a')" "app_ok S a'"
      "\<forall>e \<in> set es. effect_ok S e"
    unfolding maintains_def by blast
  with f show "\<exists>es a'. on_player_step f k a = Some (es, a') \<and> app_ok S a' \<and> (\<forall>e \<in> set es. effect_ok S e)"
    by (auto simp: on_player_step_def)
qed

lemma keeps_on_player:
  "(\<And>p. sm_wf (pl_machine p) \<Longrightarrow> sm_wf (pl_machine (snd (f p)))) \<Longrightarrow> keeps S (on_player f)"
  by (rule keeps_on_player_pure) (auto simp: app_ok_def, metis snd_conv)

text \<open>Every operation of the player, as one of its calls.\<close>

lemma player_do_wf:
  "sm_wf (pl_machine p) \<Longrightarrow> \<exists>calls p'. player_do cast_rate language_name call p = Some (calls, p') \<and> sm_wf (pl_machine p')"
  using player_do_total [of p cast_rate language_name call] moves_wf [OF player_do_moves] by fast

lemma keeps_call:
  assumes "\<And>p. player_do cast_rate language_name call p = Some (f p)"
  shows "keeps S (on_player f)"
  using player_do_wf [of _ cast_rate language_name call] assms by (intro keeps_on_player) fastforce

lemma keeps_call_step:
  assumes "\<And>p. player_do cast_rate language_name call p = map_option snd (f p)" and "\<And>r. keeps S (k r)"
  shows "keeps S (on_player_step f k)"
  using player_do_wf [of _ cast_rate language_name call] assms by (intro keeps_on_player_step) fastforce+

lemma keeps_calls [keeps_intros]:
  "keeps S (on_player stop)" "keeps S (on_player end_of_stream_reached)"
  "keeps S (on_player (load src start))" "keeps S (on_player (Player.set_volume v))"
  "keeps S (on_player Player.volume_changed)" "keeps S (on_player (seek_to cast time))"
  "keeps S (on_player (set_rate cast rate))" "keeps S (on_player (async_done answers))"
  "keeps S (on_player (poll_track_ops answers))" "keeps S (on_player (subtitle_refresh_failed answers sn))"
  "keeps S (on_player player_seek_failed)" "keeps S (on_player (shutdown feedback))"
  "keeps S (on_player (handle_stream_collection names tags collection))"
  "keeps S (on_player (\<lambda>p. ([], update_media_info query dur p)))"
  "keeps S (on_player (\<lambda>p. ([], set_is_live live p)))"
  "keeps S (on_player (\<lambda>p. ([], player_queue_seek sk p)))"
  "keeps S (on_player (\<lambda>p. ([], set_rate_changed x p)))"
  by (rule keeps_call [where call = DoStop] keeps_call [where call = DoEndOfStream] keeps_call [where call = "DoLoad src start"]
      keeps_call [where call = "DoSetVolume v"] keeps_call [where call = DoVolumeChanged]
      keeps_call [where call = "DoSeek time" and cast_rate = cast] keeps_call [where call = "DoSetRate rate" and cast_rate = cast]
      keeps_call [where call = "DoAsyncDone answers"] keeps_call [where call = "DoPollTrackOps answers"]
      keeps_call [where call = "DoRefreshFailed answers sn"] keeps_call [where call = DoSeekFailed]
      keeps_call [where call = "DoShutdown feedback"]
      keeps_call [where call = "DoStreamCollection tags collection" and language_name = names]
      keeps_call [where call = "DoUpdateMediaInfo query dur"] keeps_call [where call = "DoSetLive live"]
      keeps_call [where call = "DoQueueSeek sk"] keeps_call [where call = "DoRateChanged x"];
      simp add: player_do_def)+

lemma keeps_unchanged_player [keeps_intros]: "keeps S (on_player (\<lambda>p. (calls p, p)))"
  by (rule keeps_on_player) simp

lemma keeps_call_steps [keeps_intros]:
  assumes "\<And>r. keeps S (k r)"
  shows "keeps S (on_player_step pause k)" "keeps S (on_player_step play k)" "keeps S (on_player_step uri_loaded k)"
  by (rule keeps_call_step [where call = DoPause] keeps_call_step [where call = DoPlay]
      keeps_call_step [where call = DoUriLoaded]; simp add: player_do_def assms)+

lemma keeps_buffering_step [keeps_intros]:
  "(\<And>r. keeps S (k r)) \<Longrightarrow> keeps S (on_player_step (player_buffering answers percent) k)"
  by (rule keeps_call_step [where call = "DoBuffering answers percent"]) (simp_all add: player_do_def)

lemma keeps_edge_step [keeps_intros]:
  "(\<And>r. keeps S (k r)) \<Longrightarrow> keeps S (on_player_step (player_state_changed old new p) k)"
  by (rule keeps_call_step [where call = "DoStateChanged old new p"]) (simp_all add: player_do_def)

lemma keeps_selected_step [keeps_intros]:
  "(\<And>r. keeps S (k r)) \<Longrightarrow> keeps S (on_player_step (\<lambda>p. Some (streams_selected answers sel sn p)) k)"
  by (rule keeps_call_step [where call = "DoStreamsSelected answers sel sn"]) (simp_all add: player_do_def)

lemma keeps_attach_step [keeps_intros]:
  "(\<And>r. keeps S (k r)) \<Longrightarrow> keeps S (on_player_step (\<lambda>p. Some (attach_external_subtitle url p)) k)"
  by (rule keeps_call_step [where call = "DoAttachSubtitle url"]) (simp_all add: player_do_def)

end
