(* ===== verification/App_Tidy.thy ===== *)
theory App_Tidy
  imports App_Proofs
begin

text \<open>
  What holds of the application whenever it waits for the next event: nothing outlives the item it belongs
  to, and nothing waits for an answer that the pipeline has given already. Some steps break this in their
  middle (a collection makes the seekability known before the parked requests are run), so a step is judged
  here by what it needs and what it leaves, and the steps that restore the property are composed.
\<close>

section \<open>The invariant\<close>

definition desire_attached :: "media_state \<Rightarrow> bool" where
  "desire_attached m \<longleftrightarrow> (\<forall>d. ms_sub_desire m = Some d \<longrightarrow> sd_ext_id d \<in> es_id ` set (ms_external_subtitles m))"

text \<open>Without an item: no parked request, no load, and no load of the pipeline whose events would count.\<close>

definition owned :: "application \<Rightarrow> bool" where
  "owned a \<longleftrightarrow>
     (ap_current_media a = None \<longrightarrow>
        ap_pending_seek_op a = None \<and> ap_pending_subtitle_adds a = [] \<and> \<not> ap_is_loading_media a \<and>
        pl_expected_generation (ap_player a) = None) \<and>
     (ap_pending_subtitle_adds a \<noteq> [] \<longrightarrow> \<not> ap_is_loading_media a) \<and>
     (\<forall>m. ap_current_media a = Some m \<longrightarrow> desire_attached m)"

definition adds_wait :: "application \<Rightarrow> bool" where
  "adds_wait a \<longleftrightarrow> (pl_seekable_known (ap_player a) \<longrightarrow> ap_pending_subtitle_adds a = [])"

definition seek_waits :: "application \<Rightarrow> bool" where
  "seek_waits a \<longleftrightarrow> (pl_seekable_known (ap_player a) \<longrightarrow> ap_pending_seek_op a = None)"

definition tidy :: "application \<Rightarrow> bool" where
  "tidy a \<longleftrightarrow> owned a \<and> adds_wait a \<and> seek_waits a"

text \<open>The states between the steps; the machine of the player is well-formed in all of them.\<close>

definition machine_ok :: "application \<Rightarrow> bool" where
  "machine_ok a \<longleftrightarrow> sm_wf (pl_machine (ap_player a))"

definition steady :: "application \<Rightarrow> bool" where
  "steady a \<longleftrightarrow> machine_ok a \<and> tidy a"

definition learning :: "application \<Rightarrow> bool" where
  "learning a \<longleftrightarrow> machine_ok a \<and> owned a"

definition adding :: "application \<Rightarrow> bool" where
  "adding a \<longleftrightarrow> learning a \<and> pl_seekable_known (ap_player a) \<and> ap_pending_subtitle_adds a = []"

definition cleared :: "application \<Rightarrow> bool" where
  "cleared a \<longleftrightarrow> steady a \<and> ap_pending_seek_op a = None \<and> ap_pending_subtitle_adds a = [] \<and>
     \<not> ap_is_loading_media a \<and> pl_expected_generation (ap_player a) = None"

definition loading_item :: "application \<Rightarrow> bool" where
  "loading_item a \<longleftrightarrow> steady a \<and> ap_current_media a \<noteq> None \<and> ap_pending_subtitle_adds a = []"

lemmas tidy_defs = steady_def learning_def tidy_def owned_def adds_wait_def seek_waits_def machine_ok_def

section \<open>What a step needs and what it leaves\<close>

definition leads :: "(application \<Rightarrow> bool) \<Rightarrow> (application \<Rightarrow> bool) \<Rightarrow> app_step \<Rightarrow> bool" where
  "leads P Q step \<longleftrightarrow> (\<forall>a. P a \<longrightarrow> (\<exists>es a'. step a = Some (es, a') \<and> Q a'))"

abbreviation holds :: "(application \<Rightarrow> bool) \<Rightarrow> app_step \<Rightarrow> bool" where
  "holds I \<equiv> maintains I (\<lambda>_. True)"

named_theorems tidy_intros

lemma leads_holds: "holds I step \<longleftrightarrow> leads I I step"
  by (simp add: maintains_def leads_def)

lemma leads_weaken: "leads P Q step \<Longrightarrow> (\<And>a. P' a \<Longrightarrow> P a) \<Longrightarrow> (\<And>a. Q a \<Longrightarrow> Q' a) \<Longrightarrow> leads P' Q' step"
  unfolding leads_def by blast

lemma leads_stay: "holds I step \<Longrightarrow> (\<And>a. P a \<Longrightarrow> I a) \<Longrightarrow> (\<And>a. I a \<Longrightarrow> Q a) \<Longrightarrow> leads P Q step"
  unfolding leads_holds by (rule leads_weaken)

lemma leads_nil: "(\<And>a. P a \<Longrightarrow> Q a) \<Longrightarrow> leads P Q (app_do [])"
  by (simp add: leads_def)

lemma leads_cons:
  assumes "leads P R f" and "leads R Q (app_do fs)"
  shows "leads P Q (app_do (f # fs))"
  unfolding leads_def
proof (intro allI impI)
  fix a assume "P a"
  with assms(1) obtain es a1 where f: "f a = Some (es, a1)" "R a1" unfolding leads_def by blast
  with assms(2) obtain es' a2 where "app_do fs a1 = Some (es', a2)" "Q a2" unfolding leads_def by blast
  with f show "\<exists>es a'. app_do (f # fs) a = Some (es, a') \<and> Q a'" by auto
qed

lemma leads_same: "holds I f \<Longrightarrow> leads I Q (app_do fs) \<Longrightarrow> leads I Q (app_do (f # fs))"
  unfolding leads_holds by (rule leads_cons)

lemma leads_get: "(\<And>a. P a \<Longrightarrow> leads (\<lambda>x. x = a) Q (f a)) \<Longrightarrow> leads P Q (app_get f)"
  by (simp add: leads_def app_get_def)

lemma leads_update: "(\<And>a. P a \<Longrightarrow> Q (f a)) \<Longrightarrow> leads P Q (app_update f)"
  by (simp add: leads_def app_update_def)

lemma leads_on_player:
  "(\<And>a calls p. P a \<Longrightarrow> f (ap_player a) = (calls, p) \<Longrightarrow> Q (a\<lparr>ap_player := p\<rparr>)) \<Longrightarrow> leads P Q (on_player f)"
  by (auto simp: leads_def on_player_def split: prod.splits)

lemma leads_when: "(b \<Longrightarrow> leads P Q (app_do fs)) \<Longrightarrow> (\<And>a. P a \<Longrightarrow> \<not> b \<Longrightarrow> Q a) \<Longrightarrow> leads P Q (app_when b fs)"
  by (auto simp: app_when_def leads_def)

section \<open>Operations of the player\<close>

text \<open>All but a load and what the pipeline says of the media: nothing becomes known, and no load begins.\<close>

definition quieter :: "player \<Rightarrow> player \<Rightarrow> bool" where
  "quieter p p' \<longleftrightarrow>
     (pl_seekable_known p' \<longrightarrow> pl_seekable_known p) \<and>
     (pl_expected_generation p' = None \<or> pl_expected_generation p' = pl_expected_generation p)"

lemma quieter_refl: "quieter p p" by (simp add: quieter_def)

lemma set_volume_quieter: "set_volume v p = (calls, p') \<Longrightarrow> quieter p p'"
  by (auto simp: quieter_def dest!: set_volume_frame)

lemma tracks_only_quieter: "tracks_only p p' \<Longrightarrow> quieter p p'"
  by (simp add: quieter_def tracks_only_fields)

lemma clear_player_forgets:
  "clear_player_state p = (calls, p') \<Longrightarrow> \<not> pl_seekable_known p' \<and> pl_expected_generation p' = None"
  by (auto simp: clear_player_state_def Let_def split: option.splits prod.splits dest!: set_volume_frame)

lemma stopped_forgets:
  "go_to_stopped_state feedback p = (calls, p') \<Longrightarrow> \<not> pl_seekable_known p' \<and> pl_expected_generation p' = None"
  by (auto simp: go_to_stopped_state_def Let_def split: prod.splits dest!: clear_player_forgets)

lemma loaded_forgets: "load src start p = (calls, p') \<Longrightarrow> \<not> pl_seekable_known p'"
  by (auto simp: load_def set_source_def Let_def allocate_generation_def split: prod.splits dest!: clear_player_forgets)

lemma player_do_quieter:
  assumes "player_do cast_rate language_name call p = Some (calls, p')"
    and "\<And>src start. call \<noteq> DoLoad src start" "\<And>query dur. call \<noteq> DoUpdateMediaInfo query dur"
  shows "quieter p p'"
proof (cases call)
  case (DoTrackChange answers kind sid suppress)
  with assms(1) obtain ops where "pump_track_ops answers (p\<lparr>pl_track_ops := ops\<rparr>) = (calls, p')"
    by (auto simp: player_do_def request_track_change_impl_def Let_def)
  then show ?thesis using tracks_only_quieter pump_frame by (fastforce simp: quieter_def)
next
  case (DoStreamsSelected answers reported seqnum)
  with assms(1) obtain ops calls0 calls1 where "then_pump answers (calls0, p\<lparr>pl_selected := reported, pl_track_ops := ops\<rparr>) = (calls1, p')"
    by (auto simp: player_do_def streams_selected_def Let_def split: prod.splits)
  then show ?thesis using tracks_only_quieter then_pump_frame by (fastforce simp: quieter_def)
next
  case (DoAsyncDone answers)
  with assms(1) obtain ops calls0 calls1 where "then_pump answers (calls0, p\<lparr>pl_track_ops := ops\<rparr>) = (calls1, p')"
    by (auto simp: player_do_def async_done_def)
  then show ?thesis using tracks_only_quieter then_pump_frame by (fastforce simp: quieter_def)
next
  case (DoRefreshFailed answers seqnum)
  with assms(1) obtain ops where "pump_track_ops answers (p\<lparr>pl_track_ops := ops\<rparr>) = (calls, p')"
    by (auto simp: player_do_def subtitle_refresh_failed_def)
  then show ?thesis using tracks_only_quieter pump_frame by (fastforce simp: quieter_def)
next
  case (DoPollTrackOps answers)
  with assms(1) show ?thesis
    by (auto simp: player_do_def poll_track_ops_def intro: tracks_only_quieter pump_frame)
next
  case (DoBuffering answers percent)
  with assms(1) obtain sm calls0 where "then_pump answers (calls0, p\<lparr>pl_machine := sm\<rparr>) = (calls, p')"
    by (auto simp: player_do_def player_buffering_def case_prod_beta)
  then show ?thesis using tracks_only_quieter then_pump_frame by (fastforce simp: quieter_def)
next
  case DoStop
  with assms(1) show ?thesis by (auto simp: player_do_def stop_def quieter_def dest: stopped_forgets)
next
  case DoEndOfStream
  with assms(1) show ?thesis
    by (auto simp: player_do_def end_of_stream_reached_def stop_def quieter_def dest: stopped_forgets)
next
  case (DoShutdown feedback)
  with assms(1) show ?thesis by (auto simp: player_do_def shutdown_def quieter_def dest: stopped_forgets)
next
  case (DoSetVolume v)
  with assms(1) show ?thesis by (auto simp: player_do_def intro: set_volume_quieter)
next
  case DoVolumeChanged
  with assms(1) show ?thesis
    by (auto simp: player_do_def Player.volume_changed_def Let_def quieter_def split: option.splits dest!: set_volume_quieter)
next
  case (DoStreamCollection tags collection)
  with assms(1) show ?thesis
    by (auto simp: player_do_def handle_stream_collection_def cleanup_stream_collection_def Let_def quieter_def
        split: option.splits)
next
  case (DoSeek t)
  with assms(1) show ?thesis
    by (auto simp: player_do_def seek_to_def player_seek_def quieter_def split: if_splits prod.splits)
next
  case (DoSetRate t)
  with assms(1) show ?thesis
    by (auto simp: player_do_def set_rate_def player_seek_def quieter_def split: if_splits prod.splits)
next
  case (DoStateChanged old new pend)
  with assms(1) show ?thesis by (auto simp: player_do_def player_state_changed_def quieter_def case_prod_beta)
qed (use assms in \<open>auto simp: player_do_def quieter_def call_defs update_stream_properties_def
      attach_external_subtitle_def allocate_subtitle_id_def player_state_changed_def player_seek_failed_def
      player_queue_seek_def set_rate_changed_def set_is_live_def Let_def split: prod.splits\<close>)


lemma steady_quieter:
  "steady a \<Longrightarrow> quieter (ap_player a) p \<Longrightarrow> sm_wf (pl_machine p) \<Longrightarrow> steady (a\<lparr>ap_player := p\<rparr>)"
  by (auto simp: tidy_defs quieter_def)

lemma tidy_call:
  assumes "\<And>p. player_do cast_rate language_name call p = Some (f p)"
    and "\<And>src start. call \<noteq> DoLoad src start" "\<And>query dur. call \<noteq> DoUpdateMediaInfo query dur"
  shows "holds steady (on_player f)"
proof (rule keeps_on_player_pure)
  fix a calls p
  assume a: "steady a" and f: "f (ap_player a) = (calls, p)"
  with assms(1) have d: "player_do cast_rate language_name call (ap_player a) = Some (calls, p)" by simp
  from a have "sm_wf (pl_machine (ap_player a))" by (simp add: steady_def machine_ok_def)
  with d have "sm_wf (pl_machine p)" using player_do_moves moves_wf by blast
  with a player_do_quieter [OF d assms(2,3)] show "steady (a\<lparr>ap_player := p\<rparr>)" by (simp add: steady_quieter)
qed simp

lemma tidy_call_step:
  assumes "\<And>p. player_do cast_rate language_name call p = map_option snd (f p)"
    and "\<And>src start. call \<noteq> DoLoad src start" "\<And>query dur. call \<noteq> DoUpdateMediaInfo query dur"
    and "\<And>r. holds steady (k r)"
  shows "holds steady (on_player_step f k)"
  unfolding maintains_def
proof (intro allI impI)
  fix a assume a: "steady a"
  then have wf: "sm_wf (pl_machine (ap_player a))" by (simp add: steady_def machine_ok_def)
  with player_do_total [of "ap_player a" cast_rate language_name call] assms(1) [of "ap_player a"]
  obtain r calls p where f: "f (ap_player a) = Some (r, calls, p)" by (cases "f (ap_player a)") auto
  with assms(1) have d: "player_do cast_rate language_name call (ap_player a) = Some (calls, p)" by simp
  with wf have "sm_wf (pl_machine p)" using player_do_moves moves_wf by blast
  with a player_do_quieter [OF d assms(2,3)] have "steady (a\<lparr>ap_player := p\<rparr>)" by (simp add: steady_quieter)
  with assms(4) [of r] obtain es a' where "k r (a\<lparr>ap_player := p\<rparr>) = Some (es, a')" "steady a'"
    unfolding maintains_def by blast
  with f show "\<exists>es a'. on_player_step f k a = Some (es, a') \<and> steady a' \<and> (\<forall>e \<in> set es. True)"
    by (simp add: on_player_step_def)
qed

lemma tidy_calls [tidy_intros]:
  "holds steady (on_player stop)" "holds steady (on_player end_of_stream_reached)"
  "holds steady (on_player (Player.set_volume v))"
  "holds steady (on_player Player.volume_changed)" "holds steady (on_player (seek_to cast time))"
  "holds steady (on_player (set_rate cast rate))" "holds steady (on_player (async_done answers))"
  "holds steady (on_player (poll_track_ops answers))" "holds steady (on_player (subtitle_refresh_failed answers sn))"
  "holds steady (on_player player_seek_failed)" "holds steady (on_player (shutdown feedback))"
  "holds steady (on_player (handle_stream_collection names tags collection))"
  "holds steady (on_player (\<lambda>p. ([], set_is_live live p)))"
  "holds steady (on_player (\<lambda>p. ([], player_queue_seek sk p)))"
  "holds steady (on_player (\<lambda>p. ([], set_rate_changed x p)))"
  by (rule tidy_call [where call = DoStop] tidy_call [where call = DoEndOfStream]
      tidy_call [where call = "DoSetVolume v"] tidy_call [where call = DoVolumeChanged]
      tidy_call [where call = "DoSeek time" and cast_rate = cast] tidy_call [where call = "DoSetRate rate" and cast_rate = cast]
      tidy_call [where call = "DoAsyncDone answers"] tidy_call [where call = "DoPollTrackOps answers"]
      tidy_call [where call = "DoRefreshFailed answers sn"] tidy_call [where call = DoSeekFailed]
      tidy_call [where call = "DoShutdown feedback"]
      tidy_call [where call = "DoStreamCollection tags collection" and language_name = names]
      tidy_call [where call = "DoSetLive live"]
      tidy_call [where call = "DoQueueSeek sk"] tidy_call [where call = "DoRateChanged x"];
      simp add: player_do_def)+

lemma tidy_unchanged_player [tidy_intros]: "holds I (on_player (\<lambda>p. (calls p, p)))"
  by (rule keeps_on_player_pure) simp_all

lemma tidy_call_steps [tidy_intros]:
  assumes "\<And>r. holds steady (k r)"
  shows "holds steady (on_player_step pause k)" "holds steady (on_player_step play k)"
    "holds steady (on_player_step uri_loaded k)"
  by (rule tidy_call_step [where call = DoPause] tidy_call_step [where call = DoPlay]
      tidy_call_step [where call = DoUriLoaded]; simp add: player_do_def assms)+

lemma tidy_edge_step [tidy_intros]:
  "(\<And>r. holds steady (k r)) \<Longrightarrow> holds steady (on_player_step (player_state_changed old new pend) k)"
  by (rule tidy_call_step [where call = "DoStateChanged old new pend"]) (simp_all add: player_do_def)

lemma tidy_buffering_step [tidy_intros]:
  "(\<And>r. holds steady (k r)) \<Longrightarrow> holds steady (on_player_step (player_buffering answers percent) k)"
  by (rule tidy_call_step [where call = "DoBuffering answers percent"]) (simp_all add: player_do_def)

lemma tidy_selected_step [tidy_intros]:
  "(\<And>r. holds steady (k r)) \<Longrightarrow> holds steady (on_player_step (\<lambda>p. Some (streams_selected answers sel sn p)) k)"
  by (rule tidy_call_step [where call = "DoStreamsSelected answers sel sn"]) (simp_all add: player_do_def)

lemma tidy_change_step [tidy_intros]:
  "(\<And>r. holds steady (k r)) \<Longrightarrow>
     holds steady (on_player_step (\<lambda>p. Some (request_track_change_impl answers kind sid suppress p)) k)"
  by (rule tidy_call_step [where call = "DoTrackChange answers kind sid suppress"]) (simp_all add: player_do_def)

text \<open>A new input leaves everything that is tidied as it is.\<close>

lemma attach_frame:
  "attach_external_subtitle url p = (i, calls, p') \<Longrightarrow>
     pl_machine p' = pl_machine p \<and> pl_seekable_known p' = pl_seekable_known p \<and>
     pl_expected_generation p' = pl_expected_generation p"
  by (auto simp: attach_external_subtitle_def allocate_subtitle_id_def)

definition player_blind :: "(application \<Rightarrow> bool) \<Rightarrow> bool" where
  "player_blind I \<longleftrightarrow>
     (\<forall>a p. I a \<longrightarrow> pl_machine p = pl_machine (ap_player a) \<longrightarrow>
        pl_seekable_known p = pl_seekable_known (ap_player a) \<longrightarrow>
        pl_expected_generation p = pl_expected_generation (ap_player a) \<longrightarrow> I (a\<lparr>ap_player := p\<rparr>))"

lemma player_blind_tidy [tidy_intros]: "player_blind steady" "player_blind learning" "player_blind adding"
  by (simp_all add: player_blind_def adding_def tidy_defs)

lemma tidy_attach_step [tidy_intros]:
  assumes "player_blind I" and "\<And>r. holds I (k r)"
  shows "holds I (on_player_step (\<lambda>p. Some (attach_external_subtitle url p)) k)"
  unfolding maintains_def
proof (intro allI impI)
  fix a assume a: "I a"
  obtain r calls p where f: "attach_external_subtitle url (ap_player a) = (r, calls, p)" by (metis prod_cases3)
  with a assms(1) attach_frame [OF f] have "I (a\<lparr>ap_player := p\<rparr>)" unfolding player_blind_def by metis
  with assms(2) [of r] obtain es a' where "k r (a\<lparr>ap_player := p\<rparr>) = Some (es, a')" "I a'"
    unfolding maintains_def by blast
  with f show "\<exists>es a'. on_player_step (\<lambda>p. Some (attach_external_subtitle url p)) k a = Some (es, a') \<and> I a' \<and> (\<forall>e \<in> set es. True)"
    by (simp add: on_player_step_def)
qed


section \<open>Steps that only tell\<close>

text \<open>What these write is not read by the predicates between the steps.\<close>

definition blind :: "(application \<Rightarrow> bool) \<Rightarrow> bool" where
  "blind I \<longleftrightarrow>
     (\<forall>a a'. I a \<longrightarrow> ap_player a' = ap_player a \<longrightarrow> ap_current_media a' = ap_current_media a \<longrightarrow>
        ap_pending_subtitle_adds a' = ap_pending_subtitle_adds a \<longrightarrow> ap_pending_seek_op a' = ap_pending_seek_op a \<longrightarrow>
        ap_is_loading_media a' = ap_is_loading_media a \<longrightarrow> I a')"

lemma blind_tidy [tidy_intros]:
  "blind steady" "blind learning" "blind adding" "blind cleared" "blind loading_item"
  by (simp_all add: blind_def adding_def cleared_def loading_item_def tidy_defs)

lemma blind_update:
  assumes "blind I"
    and "\<And>a. ap_player (f a) = ap_player a \<and> ap_current_media (f a) = ap_current_media a \<and>
      ap_pending_subtitle_adds (f a) = ap_pending_subtitle_adds a \<and> ap_pending_seek_op (f a) = ap_pending_seek_op a \<and>
      ap_is_loading_media (f a) = ap_is_loading_media a"
  shows "holds I (app_update f)"
  using assms unfolding blind_def by (intro keeps_update) metis

lemma tidy_tells [tidy_intros]:
  assumes "blind I"
  shows "holds I (broadcast_volume env v)" "holds I (relay_to_other_senders env origin msg)"
    "holds I (app_playback_state_changed env st)" "holds I (send_error origin kind)"
    "holds I (release_seek_hold_if_landed env x)" "holds I (notify_updates env force)"
    "holds I (broadcast_rate env r)" "holds I (playback_progress_changed env)"
    "holds I (media_event env variant item)" "holds I (media_warning message)"
    "holds I (arm_external_sub_watchdog i)" "holds I (set_progress_interval env origin interval)"
    "holds I (relay_play env origin src)" "holds I (video_stream_available)" "holds I (video_stream_unavailable)"
    "holds I (detach_external handle)" "holds I (handle_playlist_play_request legacy)"
    "holds I (send_v4_progress_updates env)" "holds I (ended_event env a)"
proof -
  show relay: "holds I (release_seek_hold_if_landed env x)" for x
    unfolding release_seek_hold_if_landed_def Let_def by ((intro keeps_intros blind_update assms; simp)+)
  show notify: "holds I (notify_updates env force)" for force
    unfolding notify_updates_def Let_def by ((intro keeps_intros blind_update assms relay; simp)+)
  show "holds I (broadcast_rate env r)"
    unfolding broadcast_rate_def by ((intro keeps_intros notify; simp)+)
  show "holds I (playback_progress_changed env)"
    unfolding playback_progress_changed_def Let_def by ((intro keeps_intros blind_update assms relay; simp)+)
  show "holds I (send_v4_progress_updates env)"
    using assms unfolding maintains_def send_v4_progress_updates_def Let_def blind_def by (auto split: prod.split)
  show "holds I (ended_event env a)"
    unfolding ended_event_def media_event_def
    by (simp split: option.split media_source.split wrapped_play_message.split; intro conjI impI allI keeps_intros; simp)
qed (unfold broadcast_volume_def relay_to_other_senders_def app_playback_state_changed_def send_error_def
    media_event_def media_warning_def arm_external_sub_watchdog_def set_progress_interval_def relay_play_def
    video_stream_available_def video_stream_unavailable_def detach_external_def handle_playlist_play_request_def,
    (intro keeps_intros blind_update assms tidy_unchanged_player; simp)+)


section \<open>The end of an item\<close>

lemma cleared_steady: "cleared a \<Longrightarrow> steady a"
  by (simp add: cleared_def)

lemma tidy_reject_adds [tidy_intros]: "holds steady reject_pending_subtitle_adds"
  unfolding reject_pending_subtitle_adds_def by ((intro keeps_intros tidy_intros; simp add: tidy_defs)+)

lemma reject_adds_empties:
  "leads steady (\<lambda>a. steady a \<and> ap_pending_subtitle_adds a = []) reject_pending_subtitle_adds"
  unfolding leads_def reject_pending_subtitle_adds_def app_get_def
proof (intro allI impI)
  fix a assume a: "steady a"
  let ?J = "\<lambda>a. steady a \<and> ap_pending_subtitle_adds a = []"
  have "blind ?J" using blind_tidy(1) by (auto simp: blind_def)
  then have "holds ?J (app_do (map (\<lambda>add. send_error (psa_origin add) InvalidState) adds))" for adds
    by (intro keeps_intros tidy_tells)
  then have "leads steady ?J (app_do (app_update (\<lambda>a. a\<lparr>ap_pending_subtitle_add_epoch := ap_pending_subtitle_add_epoch a + 1,
      ap_pending_subtitle_adds := []\<rparr>) # map (\<lambda>add. send_error (psa_origin add) InvalidState) adds))" for adds
    by (intro leads_cons [OF leads_update [where Q = ?J]] leads_stay [where I = ?J]) (simp_all add: tidy_defs)
  with a show "\<exists>es a'. app_when (ap_pending_subtitle_adds a \<noteq> [])
      (app_update (\<lambda>a. a\<lparr>ap_pending_subtitle_add_epoch := ap_pending_subtitle_add_epoch a + 1, ap_pending_subtitle_adds := []\<rparr>) #
        map (\<lambda>add. send_error (psa_origin add) InvalidState) (ap_pending_subtitle_adds a)) a = Some (es, a') \<and> ?J a'"
    unfolding app_when_def leads_def by auto
qed

lemma tidy_drop_seek [tidy_intros]: "holds steady drop_pending_seek"
  unfolding drop_pending_seek_def by (intro keeps_intros) (simp add: tidy_defs)

text \<open>The part of the state that an item leaves behind when its playback ends.\<close>

definition unparked :: "application \<Rightarrow> bool" where
  "unparked a \<longleftrightarrow> steady a \<and> ap_pending_subtitle_adds a = [] \<and> ap_pending_seek_op a = None"

lemma blind_unparked: "blind unparked"
  by (simp add: blind_def unparked_def tidy_defs)

lemma drop_seek_unparks: "leads (\<lambda>a. steady a \<and> ap_pending_subtitle_adds a = []) unparked drop_pending_seek"
  unfolding drop_pending_seek_def by (rule leads_update) (auto simp: unparked_def tidy_defs simp del: not_None_eq)

lemma stop_forgets_load: "leads unparked (\<lambda>a. unparked a \<and> pl_expected_generation (ap_player a) = None) (on_player stop)"
  by (rule leads_on_player)
    (auto simp: unparked_def tidy_defs stop_def stopped_machine dest: stopped_forgets
      intro: moves_wf [OF moves_simple(2)])

lemma cleanup_clears: "leads steady cleared (cleanup_playback_data c p)"
proof -
  have shown: "leads cleared cleared (app_do [app_when (\<not> c) fs])" if "holds cleared (app_do fs)" for fs
    using that by (intro leads_same leads_nil keeps_when) simp_all
  show ?thesis
    unfolding cleanup_playback_data_def
    apply (rule leads_same)
     apply (intro blind_update blind_tidy; simp)
    apply (rule leads_cons [OF reject_adds_empties])
    apply (rule leads_cons [OF drop_seek_unparks])
    apply (rule leads_same)
     apply (intro keeps_intros; simp add: unparked_def tidy_defs)
    apply (rule leads_same)
     apply (intro keeps_intros; simp add: unparked_def tidy_defs)
    apply (rule leads_cons [OF stop_forgets_load])
    apply (rule leads_cons [where R = cleared])
     apply (rule leads_update)
     apply (auto simp: cleared_def unparked_def tidy_defs desire_attached_def)[1]
    apply (rule shown)
    apply (intro keeps_intros; simp add: cleared_def tidy_defs)
    done
qed


lemma tidy_cleanup [tidy_intros]: "holds steady (cleanup_playback_data c p)"
  unfolding leads_holds by (rule leads_weaken [OF cleanup_clears]) (simp_all add: cleared_steady)

text \<open>An item is let go of when it has been cleaned up.\<close>

lemma let_go: "leads cleared steady (app_update (\<lambda>a. a\<lparr>ap_current_media := None\<rparr>))"
  by (rule leads_update) (simp add: cleared_def tidy_defs)

lemma cleaned_and_let_go:
  assumes "holds steady (app_do fs)"
  shows "holds steady (app_do (cleanup_playback_data c p # app_update (\<lambda>a. a\<lparr>ap_current_media := None\<rparr>) # fs))"
  unfolding leads_holds
  by (rule leads_cons [OF cleanup_clears leads_cons [OF let_go]]) (use assms in \<open>simp add: leads_holds\<close>)

lemma tidy_media_error [tidy_intros]: "holds steady (media_error env message)"
  unfolding media_error_def by ((intro keeps_get keeps_when cleaned_and_let_go; (intro keeps_intros)?; simp)+)

lemma tidy_media_ended [tidy_intros]: "holds steady (media_ended env)"
  unfolding media_ended_def by ((intro keeps_cons keeps_nil keeps_when keeps_effect cleaned_and_let_go; simp)+)

lemma tidy_transport [tidy_intros]: "holds steady app_stop_playback" "holds steady app_pause" "holds steady app_resume"
proof -
  show "holds steady app_stop_playback"
    unfolding app_stop_playback_def
    by (intro keeps_get keeps_when keeps_cons [OF tidy_calls(1)] keeps_cons [OF keeps_gui(1)] cleaned_and_let_go
        keeps_cons [OF keeps_effect] keeps_nil; simp)
qed (unfold app_pause_def app_resume_def, (intro keeps_intros tidy_intros; simp)+)

lemma tidy_loaded [tidy_intros]: "holds steady (media_loaded_successfully env)"
  unfolding media_loaded_successfully_def Let_def
  by (intro keeps_intros; auto intro!: keeps_intros tidy_intros simp: tidy_defs split: media_source.split wrapped_play_message.split)

section \<open>Loading\<close>

lemma blind_build: "blind I \<Longrightarrow> build_media_source env container url headers a = (src, a') \<Longrightarrow> I a \<Longrightarrow> I a'"
  unfolding blind_def build_media_source_def by (auto split: if_splits)


definition has_media :: "application \<Rightarrow> bool" where
  "has_media a \<longleftrightarrow> ap_current_media a \<noteq> None"

lemma blind_media: "blind has_media"
  by (simp add: blind_def has_media_def)

lemma leads_both:
  assumes "leads P Q step" and "holds I step"
  shows "leads (\<lambda>a. P a \<and> I a) (\<lambda>a. Q a \<and> I a) step"
  using assms unfolding leads_def maintains_def by fastforce

lemma media_cleanup: "holds has_media (cleanup_playback_data c p)"
  unfolding cleanup_playback_data_def reject_pending_subtitle_adds_def drop_pending_seek_def
  by ((intro keeps_intros keeps_on_player_pure tidy_tells [OF blind_media]; simp add: has_media_def)+)

lemma cleanup_to_load:
  "leads (\<lambda>a. steady a \<and> has_media a) loading_item (cleanup_playback_data c p)"
  by (rule leads_weaken [OF leads_both [OF cleanup_clears media_cleanup]])
    (simp_all add: cleared_def loading_item_def has_media_def)

lemma loading_load: "holds loading_item (on_player (load src start))"
  by (rule keeps_on_player_pure)
    (auto simp: loading_item_def tidy_defs loaded_machine dest: loaded_forgets
      intro: moves_wf [OF moves_simple(2)] moves_wf [OF moves_simple(3)])

lemma loading_volume: "holds loading_item (on_player (Player.set_volume v))"
  by (rule keeps_on_player_pure)
    (auto simp: loading_item_def tidy_defs quieter_def set_volume_machine dest: set_volume_quieter)

lemma loading_build:
  "build_media_source env container url headers a = (src, a') \<Longrightarrow> loading_item a \<Longrightarrow> loading_item a'"
  by (rule blind_build [OF blind_tidy(5)])

lemma leads_load_item: "leads (\<lambda>a. steady a \<and> has_media a) steady (load_item env item url)"
proof -
  show ?thesis
    unfolding load_item_def Let_def
    apply (rule leads_same)
     apply (intro keeps_update; simp add: tidy_defs has_media_def)
    apply (rule leads_cons [OF cleanup_to_load])
    apply (rule leads_stay [where I = loading_item])
      apply (intro keeps_intros loading_load loading_volume;
        ((erule loading_build, assumption) | (auto simp: loading_item_def tidy_defs desire_attached_def)))
     apply (simp_all add: loading_item_def)
    done
qed


lemma leads_at: "leads P Q step \<Longrightarrow> P a \<Longrightarrow> leads (\<lambda>x. x = a) Q step"
  by (simp add: leads_def)

lemma leads_run: "holds I step \<Longrightarrow> I a \<Longrightarrow> leads (\<lambda>x. x = a) I step"
  by (simp add: leads_holds leads_at)

lemma tidy_load_media [tidy_intros]: "holds steady (load_media env)"
  unfolding leads_holds load_media_def
proof (rule leads_get)
  fix a assume a: "steady a"
  have told: "leads (\<lambda>x. x = a) steady (send_error origin kind)" for origin kind
    using a by (intro leads_run tidy_tells blind_tidy)
  have skip: "leads (\<lambda>x. x = a) steady (app_do [])" using a by (intro leads_nil) simp
  have "leads (\<lambda>x. x = a) steady (load_item env item url)" if "ap_current_media a = Some m" for m item url
    using a that by (intro leads_at [OF leads_load_item]) (simp add: has_media_def)
  with told skip show "leads (\<lambda>x. x = a) steady (case ap_current_media a of
         None \<Rightarrow> app_do []
       | Some m \<Rightarrow>
           (case current_item (ms_source m) of
              Inl err \<Rightarrow> send_error (ms_origin m) (load_media_error_kind err)
            | Inr (Inl None) \<Rightarrow> app_do []
            | Inr (Inl (Some kind)) \<Rightarrow> send_error (ms_origin m) kind
            | Inr (Inr item) \<Rightarrow>
                (case item_url env item of
                   Inl err \<Rightarrow> send_error (ms_origin m) (load_media_error_kind err)
                 | Inr url \<Rightarrow> load_item env item url)))"
    by (simp split: option.split sum.split)
qed

lemma tidy_update_media:
  "(\<And>m. desire_attached m \<Longrightarrow> desire_attached (f m)) \<Longrightarrow> holds steady (update_media f)"
  unfolding update_media_def by (rule keeps_update) (auto simp: tidy_defs)

lemma tidy_set_media [tidy_intros]: "holds steady (set_media origin src)"
  unfolding set_media_def by (rule keeps_update) (simp add: tidy_defs desire_attached_def media_state_new_def)

lemma tidy_drop_externals [tidy_intros]: "holds steady drop_external_subtitles"
  unfolding drop_external_subtitles_def
  by (rule keeps_update) (auto simp: tidy_defs desire_attached_def clear_external_subtitles_def)

lemma tidy_set_queue [tidy_intros]: "holds steady (app_update (set_queue q))"
  by (rule keeps_update) (auto simp: tidy_defs desire_attached_def set_queue_def)

lemma tidy_queue [tidy_intros]:
  "holds steady (play_queue_item env origin position relay)" "holds steady (remove_queue_item env origin position)"
  "holds steady (insert_queue_item env origin item at)"
  unfolding play_queue_item_def remove_queue_item_def insert_queue_item_def Let_def
  by ((intro keeps_cons keeps_nil keeps_get keeps_case keeps_if keeps_when tidy_intros)+)

lemma tidy_play_message [tidy_intros]: "holds steady (handle_play_message env msg origin)"
  unfolding handle_play_message_def Let_def
  by (intro keeps_cons keeps_nil keeps_if keeps_when keeps_source keeps_gui tidy_intros; simp)

section \<open>Tracks and subtitles\<close>

lemma tidy_track_change [tidy_intros]: "holds steady (apply_track_change env kind sid)"
  unfolding apply_track_change_def request_track_change_def request_track_change_no_refresh_def
proof (rule keeps_get)
  fix a
  have "holds steady (on_player_step (\<lambda>p. Some (request_track_change_impl (ae_answers env) kind sid suppress p))
      (\<lambda>stale. app_when stale [gui GuiClearVideoOverlays]))" for suppress
    by (intro tidy_change_step keeps_intros) simp
  then show "holds steady (on_player_step (\<lambda>p. Some (if the_externals a \<noteq> []
        then request_track_change_impl (ae_answers env) kind sid True p
        else request_track_change_impl (ae_answers env) kind sid False p))
      (\<lambda>stale. app_when stale [gui GuiClearVideoOverlays]))"
    by (cases "the_externals a = []") simp_all
qed

lemma tidy_update_tracks [tidy_intros]:
  assumes "player_blind I" and "blind I"
  shows "holds I (update_tracks env force)"
  unfolding maintains_def
proof (intro allI impI)
  fix a assume a: "I a"
  obtain c p where u: "(if force then (True, ap_player a)
      else update_stream_properties (ae_language_name env) (ae_tags env) (ap_player a)) = (c, p)" by fastforce
  then have "pl_machine p = pl_machine (ap_player a) \<and> pl_seekable_known p = pl_seekable_known (ap_player a) \<and>
      pl_expected_generation p = pl_expected_generation (ap_player a)"
    by (auto simp: update_stream_properties_def Let_def split: if_splits)
  with a assms(1) have p: "I (a\<lparr>ap_player := p\<rparr>)" unfolding player_blind_def by metis
  have k: "holds I (app_when c [app_when (should_broadcast env) [broadcast_update msg], gui y])" for msg y
    by (intro keeps_intros; simp)
  show "\<exists>es a'. update_tracks env force a = Some (es, a') \<and> I a' \<and> (\<forall>e \<in> set es. True)"
    unfolding update_tracks_def u Let_def prod.case by (rule k [unfolded maintains_def, rule_format, OF p])
qed

lemma found_external: "find_external i subs = Some s \<Longrightarrow> s \<in> set subs \<and> es_id s = i"
  by (auto simp: find_external_def List.find_Some_iff)

lemma tidy_subtitle_track [tidy_intros]: "holds steady (change_subtitle_track env origin i)"
  unfolding leads_holds change_subtitle_track_def
proof (rule leads_get)
  fix a assume a: "steady a"
  have told: "leads (\<lambda>x. x = a) steady (send_error origin kind)" for kind
    using a by (intro leads_run tidy_tells blind_tidy)
  have stream: "leads (\<lambda>x. x = a) steady
      (app_do [update_media (\<lambda>m. m\<lparr>ms_sub_desire := None\<rparr>), apply_track_change env KindSubtitle sid])" for sid
    using a by (intro leads_run keeps_cons keeps_nil tidy_update_media tidy_track_change) (simp_all add: desire_attached_def)
  have "leads (\<lambda>x. x = a) steady
      (update_media (\<lambda>m. m\<lparr>ms_sub_desire := Some \<lparr> sd_ext_id = e, sd_target = TheExternal \<rparr>\<rparr>))"
    if "resolve_subtitle_target i a = Inr (TargetExternal e)" for e
  proof -
    from that have "\<exists>s. find_external e (the_externals a) = Some s"
      by (auto simp: resolve_subtitle_target_def split: option.splits if_splits)
    with a show ?thesis unfolding update_media_def
      by (intro leads_update) (auto simp: tidy_defs desire_attached_def the_externals_def dest!: found_external)
  qed
  with told stream show "leads (\<lambda>x. x = a) steady (case resolve_subtitle_target i a of
         Inl kind \<Rightarrow> send_error origin kind
       | Inr tgt \<Rightarrow>
           if tgt \<noteq> TargetStream None \<and> i \<noteq> None \<and> ts_video (pl_selected (ap_player a)) = None
           then send_error origin InvalidState
           else
             (case tgt of
                TargetExternal ext_id \<Rightarrow>
                  update_media (\<lambda>m. m\<lparr>ms_sub_desire := Some \<lparr> sd_ext_id = ext_id, sd_target = TheExternal \<rparr>\<rparr>)
              | TargetStream sid \<Rightarrow>
                  app_do
                    [update_media (\<lambda>m. m\<lparr>ms_sub_desire := None\<rparr>),
                     apply_track_change env KindSubtitle sid]))"
    by (simp split: sum.split subtitle_target.split)
qed


lemma adding_update_media:
  "(\<And>m. desire_attached m \<Longrightarrow> desire_attached (f m)) \<Longrightarrow> holds adding (update_media f)"
  unfolding update_media_def by (rule keeps_update) (auto simp: adding_def tidy_defs)

lemma tidy_attach [tidy_intros]:
  "holds steady (attach_subtitle_source env origin url sel name)"
  "holds adding (attach_subtitle_source env origin url sel name)"
  unfolding attach_subtitle_source_def Let_def
  by ((intro tidy_attach_step keeps_get keeps_case keeps_cons keeps_nil tidy_update_tracks player_blind_tidy
      tidy_tells blind_tidy tidy_update_media adding_update_media; simp add: desire_attached_def)+)

lemma tidy_add_subtitle [tidy_intros]: "holds steady (add_subtitle_source env origin url sel name)"
  unfolding leads_holds add_subtitle_source_def Let_def
proof (rule leads_get)
  fix a assume a: "steady a"
  have told: "leads (\<lambda>x. x = a) steady (send_error origin kind)" for kind
    using a by (intro leads_run tidy_tells blind_tidy)
  have attach: "leads (\<lambda>x. x = a) steady (attach_subtitle_source env origin url sel name)"
    using a by (intro leads_run tidy_attach)
  have park: "leads (\<lambda>x. x = a) steady (app_do
      [app_update (\<lambda>a. a\<lparr>ap_pending_subtitle_adds := ap_pending_subtitle_adds a @ [add]\<rparr>), app_effect e])"
    if "ap_current_media a \<noteq> None" "\<not> ap_is_loading_media a" "\<not> pl_seekable_known (ap_player a)" for add e
    using a that by (intro leads_cons [OF leads_update [where Q = steady]] leads_same leads_nil keeps_effect)
      (auto simp: tidy_defs)
  show "leads (\<lambda>x. x = a) steady
      (if \<not> (case ap_current_media a of None \<Rightarrow> False | Some m \<Rightarrow> source_takes_subtitles (ms_source m)) \<or>
          ap_is_loading_media a then send_error origin InvalidState
       else if is_live (pl_machine (ap_player a)) then send_error origin InvalidState
       else if \<not> pl_seekable (ap_player a) then
         (if \<not> pl_seekable_known (ap_player a) then
            app_do
              [app_update (\<lambda>a. a\<lparr>ap_pending_subtitle_adds := ap_pending_subtitle_adds a @
                 [\<lparr> psa_url = url, psa_select = sel, psa_name = name, psa_origin = origin \<rparr>]\<rparr>),
               app_effect (Later (PendingSubtitleAddCheckAfter (ap_current_media_item_id a)
                 (ap_pending_subtitle_add_epoch a)))]
          else send_error origin InvalidState)
       else attach_subtitle_source env origin url sel name)"
    by (auto simp: told attach intro!: park split: option.splits)
qed

text \<open>While it is known whether the pipeline can seek, an addition is made or refused, never parked.\<close>

lemma adding_add_subtitle: "holds adding (add_subtitle_source env origin url sel name)"
  unfolding leads_holds add_subtitle_source_def Let_def
proof (rule leads_get)
  fix a assume a: "adding a"
  then have known: "pl_seekable_known (ap_player a)" by (simp add: adding_def)
  have "leads (\<lambda>x. x = a) adding (send_error origin kind)" for kind
    using a by (intro leads_run tidy_tells blind_tidy)
  moreover have "leads (\<lambda>x. x = a) adding (attach_subtitle_source env origin url sel name)"
    using a by (intro leads_run tidy_attach)
  ultimately show "leads (\<lambda>x. x = a) adding
      (if \<not> (case ap_current_media a of None \<Rightarrow> False | Some m \<Rightarrow> source_takes_subtitles (ms_source m)) \<or>
          ap_is_loading_media a then send_error origin InvalidState
       else if is_live (pl_machine (ap_player a)) then send_error origin InvalidState
       else if \<not> pl_seekable (ap_player a) then
         (if \<not> pl_seekable_known (ap_player a) then
            app_do
              [app_update (\<lambda>a. a\<lparr>ap_pending_subtitle_adds := ap_pending_subtitle_adds a @
                 [\<lparr> psa_url = url, psa_select = sel, psa_name = name, psa_origin = origin \<rparr>]\<rparr>),
               app_effect (Later (PendingSubtitleAddCheckAfter (ap_current_media_item_id a)
                 (ap_pending_subtitle_add_epoch a)))]
          else send_error origin InvalidState)
       else attach_subtitle_source env origin url sel name)"
    by (simp add: known)
qed

lemma tidy_refresh [tidy_intros]: "holds steady (refresh_external_stream_sids env)"
  unfolding refresh_external_stream_sids_def
proof (intro keeps_get tidy_update_media)
  fix a m assume d: "desire_attached m"
  have ids: "es_id ` set (map (\<lambda>entry. if es_stream_sid entry = None then
      (case g entry of Some sid \<Rightarrow> entry\<lparr>es_stream_sid := Some sid\<rparr> | None \<Rightarrow> entry) else entry) subs) = es_id ` set subs" for g subs
    by (induction subs) (auto split: option.splits)
  show "desire_attached (m\<lparr>ms_external_subtitles :=
       map (\<lambda>entry.
           if es_stream_sid entry = None then
             (case Option.bind (es_handle entry)
                (\<lambda>handle. external_stream_sid_of (ae_subtitle_sids env handle) (ap_player a)) of
                Some sid \<Rightarrow> entry\<lparr>es_stream_sid := Some sid\<rparr>
              | None \<Rightarrow> entry)
           else entry)
         (ms_external_subtitles m)\<rparr>)"
    using d unfolding desire_attached_def by (simp add: ids del: set_map)
qed

lemma tidy_pump_desire [tidy_intros]: "holds steady (pump_fcast_sub_desire env)"
  unfolding pump_fcast_sub_desire_def
  by (intro keeps_get keeps_case keeps_cons keeps_nil tidy_update_media tidy_track_change; simp add: desire_attached_def)

lemma tidy_fail_external [tidy_intros]: "holds steady (fail_fcast_external_subtitle env i)"
  unfolding fail_fcast_external_subtitle_def
proof (intro keeps_get keeps_case keeps_cons keeps_nil tidy_update_media tidy_update_tracks tidy_tells
    player_blind_tidy blind_tidy)
  fix a failed m
  assume d: "desire_attached m" and f: "find_external i (the_externals a) = Some failed"
  have "e \<in> es_id ` set (remove1 failed subs)" if "e \<in> es_id ` set subs" "e \<noteq> i" for e subs
    using that found_external [OF f] by (metis (no_types, lifting) image_iff in_set_remove1)
  with d show "desire_attached (m\<lparr>ms_external_subtitles := remove1 failed (ms_external_subtitles m),
      ms_sub_desire := (case ms_sub_desire m of Some d \<Rightarrow> if sd_ext_id d = i then None else Some d | None \<Rightarrow> None)\<rparr>)"
    by (auto simp: desire_attached_def split: option.splits if_splits)
qed

lemma tidy_rearm [tidy_intros]: "holds steady (fail_or_rearm_fcast_external env i)"
  unfolding fail_or_rearm_fcast_external_def Let_def
proof (intro keeps_get keeps_case keeps_if keeps_cons keeps_nil tidy_fail_external tidy_attach_step tidy_update_media
    tidy_tells player_blind_tidy blind_tidy)
  fix m handle
  assume d: "desire_attached m"
  have "es_id ` set (update_external i (\<lambda>s. s\<lparr>es_handle := Some handle, es_stream_sid := None, es_attached_at := ae_now env\<rparr>) subs) =
      es_id ` set subs" for subs
    by (induction subs) auto
  with d show "desire_attached (m\<lparr>ms_external_subtitles :=
      update_external i (\<lambda>s. s\<lparr>es_handle := Some handle, es_stream_sid := None, es_attached_at := ae_now env\<rparr>)
        (ms_external_subtitles m)\<rparr>)"
    unfolding desire_attached_def by simp
qed


section \<open>The parked requests\<close>

lemma tidy_seek_now [tidy_intros]: "holds steady (seek_now env origin time)"
  unfolding seek_now_def by (intro keeps_intros tidy_tells blind_tidy tidy_calls)

lemma tidy_operation_seek [tidy_intros]: "holds steady (operation_seek env origin time)"
  unfolding leads_holds operation_seek_def
proof (rule leads_get)
  fix a assume a: "steady a"
  have now: "leads (\<lambda>x. x = a) steady (app_do [seek_now env origin time])"
    using a by (intro leads_run keeps_cons keeps_nil tidy_seek_now)
  have park: "leads (\<lambda>x. x = a) steady (app_do [app_do
      [app_update (\<lambda>a. a\<lparr>ap_pending_seek_op := Some (origin, time), ap_pending_seek_epoch := ap_pending_seek_epoch a + 1\<rparr>),
       app_get (\<lambda>a. app_effect (Later (PendingSeekCheckAfter (ap_pending_seek_epoch a))))]])"
    if "is_playing a" "\<not> pl_seekable_known (ap_player a)"
    using a that by (intro leads_cons [OF leads_cons [OF leads_update [where Q = steady]]] leads_nil leads_same)
      (auto simp: tidy_defs is_playing_def intro!: keeps_intros)
  show "leads (\<lambda>x. x = a) steady (app_when (is_playing a)
       [if \<not> pl_seekable_known (ap_player a) then
          app_do
            [app_update (\<lambda>a. a\<lparr>ap_pending_seek_op := Some (origin, time),
               ap_pending_seek_epoch := ap_pending_seek_epoch a + 1\<rparr>),
             app_get (\<lambda>a. app_effect (Later (PendingSeekCheckAfter (ap_pending_seek_epoch a))))]
        else seek_now env origin time])"
    using a now park by (cases "is_playing a"; cases "pl_seekable_known (ap_player a)")
      (simp_all add: app_when_def leads_def del: app_do.simps(2))
qed

text \<open>What the pipeline says of the media may leave requests waiting for nothing; running them restores order.\<close>

lemma learn: "leads steady learning (on_player (\<lambda>p. ([], update_media_info query dur p)))"
  by (rule leads_on_player) (auto simp: tidy_defs update_media_info_def split: option.splits)

definition asking_seek :: "application \<Rightarrow> bool" where
  "asking_seek a \<longleftrightarrow> learning a \<and> adds_wait a"

lemma run_parked_adds: "leads learning asking_seek (maybe_apply_pending_subtitle_adds env)"
  unfolding maybe_apply_pending_subtitle_adds_def
proof (rule leads_get)
  fix a assume a: "learning a"
  have run: "leads (\<lambda>x. x = a) asking_seek (app_do
      (app_update (\<lambda>a. a\<lparr>ap_pending_subtitle_add_epoch := ap_pending_subtitle_add_epoch a + 1, ap_pending_subtitle_adds := []\<rparr>) #
       map (\<lambda>add. add_subtitle_source env (psa_origin add) (psa_url add) (psa_select add) (psa_name add)) adds))"
    if "pl_seekable_known (ap_player a)" for adds
    using a that
    by (intro leads_cons [OF leads_update [where Q = adding]] leads_stay [where I = adding] keeps_map adding_add_subtitle)
      (auto simp: adding_def asking_seek_def tidy_defs)
  show "leads (\<lambda>x. x = a) asking_seek
      (app_when (ap_pending_subtitle_adds a \<noteq> [] \<and> pl_seekable_known (ap_player a))
         (app_update (\<lambda>a. a\<lparr>ap_pending_subtitle_add_epoch := ap_pending_subtitle_add_epoch a + 1,
                            ap_pending_subtitle_adds := []\<rparr>) #
          map (\<lambda>add. add_subtitle_source env (psa_origin add) (psa_url add) (psa_select add) (psa_name add))
            (ap_pending_subtitle_adds a)))"
    using a by (intro leads_when run) (auto simp: asking_seek_def tidy_defs)
qed

lemma run_parked_seek: "leads asking_seek steady (maybe_apply_pending_seek env)"
  unfolding maybe_apply_pending_seek_def
proof (rule leads_get)
  fix a assume a: "asking_seek a"
  have run: "leads (\<lambda>x. x = a) steady (app_do
      [app_update (\<lambda>a. a\<lparr>ap_pending_seek_op := None, ap_pending_seek_epoch := ap_pending_seek_epoch a + 1\<rparr>),
       seek_now env origin time])" for origin time
    using a by (intro leads_cons [OF leads_update [where Q = steady]] leads_same leads_nil tidy_seek_now)
      (auto simp: asking_seek_def tidy_defs)
  have skip: "leads (\<lambda>x. x = a) steady (app_do [])" if "ap_pending_seek_op a = None \<or> \<not> pl_seekable_known (ap_player a)"
    using a that by (intro leads_nil) (auto simp: asking_seek_def tidy_defs)
  show "leads (\<lambda>x. x = a) steady (case ap_pending_seek_op a of
         Some (origin, time) \<Rightarrow>
           app_when (pl_seekable_known (ap_player a))
             [app_update (\<lambda>a. a\<lparr>ap_pending_seek_op := None, ap_pending_seek_epoch := ap_pending_seek_epoch a + 1\<rparr>),
              seek_now env origin time]
       | None \<Rightarrow> app_do [])"
    using run skip by (cases "ap_pending_seek_op a") (auto simp: app_when_def)
qed

lemma run_parked: "leads learning steady (on_media_info_updated env)"
  unfolding on_media_info_updated_def
  by (rule leads_cons [OF run_parked_adds leads_cons [OF run_parked_seek leads_nil]])

lemma learn_and_run:
  assumes "holds steady (app_do fs)"
  shows "holds steady (app_do (on_player (\<lambda>p. ([], update_media_info query dur p)) # on_media_info_updated env # fs))"
  unfolding leads_holds
  by (rule leads_cons [OF learn leads_cons [OF run_parked]]) (use assms in \<open>simp add: leads_holds\<close>)


section \<open>The event loop\<close>

lemma tidy_volume_cmd [tidy_intros]: "holds steady (set_volume_cmd env v)"
  unfolding set_volume_cmd_def Let_def
  by ((intro keeps_cons keeps_nil keeps_gui blind_update tidy_tells tidy_calls blind_tidy; simp)+)

lemma tidy_playlist_item [tidy_intros]: "holds steady (set_playlist_item_op env i)"
  unfolding set_playlist_item_op_def Let_def
  by (rule keeps_get; simp split: option.split media_source.split;
      intro conjI impI allI keeps_cons keeps_nil keeps_gui tidy_update_media tidy_drop_externals tidy_load_media;
      simp add: desire_attached_def)

lemma tidy_change_track [tidy_intros]: "holds steady (change_track_op env origin i typ)"
  unfolding change_track_op_def Let_def
  by (rule keeps_get; simp split: flat_track_type.split;
      intro conjI impI allI keeps_case keeps_if tidy_track_change tidy_subtitle_track tidy_tells blind_tidy)

lemma tidy_operation [tidy_intros]: "holds steady (handle_operation env op origin)"
proof (cases op)
  case (SetPlaybackState state)
  then show ?thesis by (cases state) (simp_all add: handle_operation_def tidy_transport keeps_nil)
next
  case ResumeOrPause
  have "holds steady (app_get (\<lambda>a. case player_state_of (ap_player a) of
      PlPaused \<Rightarrow> app_resume | PlPlaying \<Rightarrow> app_pause | _ \<Rightarrow> send_error origin InvalidState))"
    by (rule keeps_get) (simp add: tidy_transport tidy_tells blind_tidy split: player_state.split)
  with ResumeOrPause show ?thesis by (simp add: handle_operation_def)
qed (simp add: handle_operation_def;
    intro keeps_cons keeps_nil keeps_get keeps_if tidy_intros tidy_tells blind_tidy blind_update; simp)+

lemma tidy_end_of_stream [tidy_intros]: "holds steady (on_end_of_stream env)"
  unfolding on_end_of_stream_def
  by (intro keeps_cons keeps_nil keeps_get keeps_when tidy_calls tidy_media_ended tidy_tells blind_tidy)

lemma tidy_tags [tidy_intros]: "holds steady (on_tags env tags)"
  unfolding on_tags_def
  by ((intro keeps_cons keeps_nil keeps_get keeps_when keeps_case keeps_effect keeps_gui blind_update blind_tidy
      tidy_update_media; simp add: desire_attached_def)+)

lemma tidy_volume_changed [tidy_intros]: "holds steady (on_volume_changed env v)"
  unfolding on_volume_changed_def Let_def
  by (intro keeps_cons keeps_nil keeps_get keeps_when tidy_calls tidy_tells blind_tidy)

lemma tidy_stream_collection [tidy_intros]: "holds steady (on_stream_collection env collection)"
  unfolding on_stream_collection_def
  by ((intro keeps_cons [OF tidy_calls(12)] learn_and_run keeps_cons keeps_nil keeps_gui keeps_get keeps_when
      tidy_refresh tidy_update_tracks player_blind_tidy blind_tidy tidy_pump_desire tidy_loaded blind_update; simp)+)

lemma tidy_async_done [tidy_intros]: "holds steady (on_async_done env)"
  unfolding on_async_done_def
  by (intro keeps_cons keeps_nil keeps_get keeps_when tidy_calls tidy_tells blind_tidy)

lemma tidy_buffering [tidy_intros]: "holds steady (on_buffering env percent)"
  unfolding on_buffering_def
  by (intro tidy_buffering_step keeps_cons keeps_nil keeps_when tidy_tells blind_tidy)

lemma tidy_state_changed [tidy_intros]: "holds steady (on_state_changed env old new pend)"
proof -
  have learned: "holds steady (app_when b
      [on_player (\<lambda>p. ([], update_media_info (ae_query env) (ae_duration env) p)), on_media_info_updated env])" for b
    by (intro keeps_when learn_and_run keeps_nil)
  show ?thesis
    unfolding on_state_changed_def Let_def
    by ((intro keeps_cons [OF learned] keeps_cons [OF tidy_edge_step] keeps_cons keeps_nil keeps_get keeps_when
        keeps_effect tidy_calls tidy_tells blind_tidy blind_update; simp)+)
qed

lemma tidy_streams_selected [tidy_intros]: "holds steady (on_streams_selected env sel sn)"
  unfolding on_streams_selected_def Let_def
  by ((intro tidy_selected_step keeps_get keeps_cons keeps_nil keeps_gui keeps_if tidy_tells blind_tidy; simp)+)

lemma tidy_player_error [tidy_intros]: "holds steady (on_player_error env origin kind message)"
  unfolding on_player_error_def
  by (simp split: error_origin.split; intro conjI impI allI keeps_get keeps_case keeps_cons keeps_nil tidy_rearm
      tidy_calls tidy_tells blind_tidy tidy_media_error)

lemma tidy_player_event [tidy_intros]: "holds steady (handle_player_event env event generation)"
proof -
  have "holds steady (player_event_step env event)"
    unfolding player_event_step_def
    by (cases event; simp; intro tidy_intros keeps_get keeps_when keeps_cons keeps_nil tidy_tells blind_tidy player_blind_tidy)
  then show ?thesis unfolding handle_player_event_def by (intro keeps_get keeps_when keeps_cons keeps_nil)
qed

lemma tidy_image_event [tidy_intros]: "holds steady (handle_image_event env event)"
  unfolding handle_image_event_def image_shown_def
  by (cases event; simp; (intro keeps_get keeps_if keeps_case keeps_when keeps_cons keeps_nil keeps_effect keeps_gui
      tidy_update_media tidy_loaded tidy_media_error tidy_tells blind_tidy blind_update; simp add: desire_attached_def))

lemma tidy_playlist_result [tidy_intros]: "holds steady (playlist_data_result env m)"
  unfolding playlist_data_result_def Let_def
  by ((intro keeps_case keeps_when keeps_cons keeps_nil keeps_gui tidy_set_media tidy_load_media; simp)+)

lemma tidy_finish [tidy_intros]: "holds steady (media_item_finish env item)"
  unfolding media_item_finish_def
  by (rule keeps_get) (simp add: keeps_when keeps_cons keeps_nil tidy_operation split: option.split media_source.split)

lemma tidy_messages [tidy_intros]:
  "holds steady (seek_percent env percent)" "holds steady (select_track env i kind)"
  "holds steady (external_sub_check env item ext_id)" "holds steady (app_tick env)"
  "holds steady (handle_new_fcast_session env sid)"
  unfolding seek_percent_def select_track_def external_sub_check_def app_tick_def handle_new_fcast_session_def Let_def
  by ((intro keeps_get keeps_case keeps_if keeps_when keeps_cons keeps_nil keeps_effect keeps_gui tidy_operation
      tidy_subtitle_track tidy_track_change tidy_fail_external tidy_tells blind_tidy blind_update; simp)+)




end
