(* ===== verification/App_Safety.thy ===== *)
theory App_Safety
  imports App_Proofs
begin

text \<open>
  Every method of the application keeps the invariant of App_Proofs, from which it follows that an error
  answers a packet of the sender that gets it.
\<close>

section \<open>Every operation\<close>

lemma media_ok_simps [simp]:
  "media_ok S (media_state_new origin src) \<longleftrightarrow> answerable S origin"
  "media_ok S m \<Longrightarrow> media_ok S (clear_external_subtitles m)"
  by (simp_all add: media_ok_def media_state_new_def clear_external_subtitles_def)

lemma app_ok_D:
  "app_ok S a \<Longrightarrow> ap_current_media a = Some m \<Longrightarrow> answerable S (ms_origin m)"
  "app_ok S a \<Longrightarrow> add \<in> set (ap_pending_subtitle_adds a) \<Longrightarrow> answerable S (psa_origin add)"
  "app_ok S a \<Longrightarrow> ap_pending_seek_op a = Some (origin, time) \<Longrightarrow> answerable S origin"
  "app_ok S a \<Longrightarrow> find_external i (the_externals a) = Some s \<Longrightarrow> answerable S (es_requested_by s)"
  by (auto simp: app_ok_def media_ok_def the_externals_def find_external_def List.find_Some_iff split: option.splits)

text \<open>Fields that the invariant does not read, and those it does.\<close>

lemma app_ok_unread [simp]:
  "app_ok S (a\<lparr>ap_last_sent_update := x_last_sent_update\<rparr>) = app_ok S a"
  "app_ok S (a\<lparr>ap_current_duration := x_current_duration\<rparr>) = app_ok S a"
  "app_ok S (a\<lparr>ap_pending_subtitle_add_epoch := x_pending_subtitle_add_epoch\<rparr>) = app_ok S a"
  "app_ok S (a\<lparr>ap_last_progress_broadcast := x_last_progress_broadcast\<rparr>) = app_ok S a"
  "app_ok S (a\<lparr>ap_last_volume_cmd := x_last_volume_cmd\<rparr>) = app_ok S a"
  "app_ok S (a\<lparr>ap_pending_seek_epoch := x_pending_seek_epoch\<rparr>) = app_ok S a"
  "app_ok S (a\<lparr>ap_gui_seek_hold := x_gui_seek_hold\<rparr>) = app_ok S a"
  "app_ok S (a\<lparr>ap_load_watchdog_epoch := x_load_watchdog_epoch\<rparr>) = app_ok S a"
  "app_ok S (a\<lparr>ap_current_image_id := x_current_image_id\<rparr>) = app_ok S a"
  "app_ok S (a\<lparr>ap_current_image_download_id := x_current_image_download_id\<rparr>) = app_ok S a"
  "app_ok S (a\<lparr>ap_have_audio_track_cover := x_have_audio_track_cover\<rparr>) = app_ok S a"
  "app_ok S (a\<lparr>ap_have_media_info := x_have_media_info\<rparr>) = app_ok S a"
  "app_ok S (a\<lparr>ap_current_thumbnail_id := x_current_thumbnail_id\<rparr>) = app_ok S a"
  "app_ok S (a\<lparr>ap_have_media_title := x_have_media_title\<rparr>) = app_ok S a"
  "app_ok S (a\<lparr>ap_last_position_updated := x_last_position_updated\<rparr>) = app_ok S a"
  "app_ok S (a\<lparr>ap_pending_fwebrtc_channel := x_pending_fwebrtc_channel\<rparr>) = app_ok S a"
  "app_ok S (a\<lparr>ap_current_media_item_id := x_current_media_item_id\<rparr>) = app_ok S a"
  "app_ok S (a\<lparr>ap_is_loading_media := x_is_loading_media\<rparr>) = app_ok S a"
  "app_ok S (a\<lparr>ap_window_visible_before := x_window_visible_before\<rparr>) = app_ok S a"
  "app_ok S (a\<lparr>ap_window_fullscreen_before := x_window_fullscreen_before\<rparr>) = app_ok S a"
  "app_ok S (a\<lparr>ap_fcast_senders := x_fcast_senders\<rparr>) = app_ok S a"
  by (simp_all add: app_ok_def)

lemma app_ok_written [simp]:
  "app_ok S a \<Longrightarrow> app_ok S (a\<lparr>ap_current_media := None\<rparr>)"
  "app_ok S a \<Longrightarrow> media_ok S m \<Longrightarrow> app_ok S (a\<lparr>ap_current_media := Some m\<rparr>)"
  "app_ok S a \<Longrightarrow> app_ok S (a\<lparr>ap_pending_subtitle_adds := []\<rparr>)"
  "app_ok S a \<Longrightarrow> app_ok S (a\<lparr>ap_pending_seek_op := None\<rparr>)"
  "app_ok S a \<Longrightarrow> answerable S origin \<Longrightarrow> app_ok S (a\<lparr>ap_pending_seek_op := Some (origin, time)\<rparr>)"
  "app_ok S a \<Longrightarrow> answerable S (psa_origin add) \<Longrightarrow>
     app_ok S (a\<lparr>ap_pending_subtitle_adds := ap_pending_subtitle_adds a @ [add]\<rparr>)"
  by (auto simp: app_ok_def)

lemma app_ok_map_media:
  "app_ok S a \<Longrightarrow> ap_current_media a = x \<Longrightarrow> (\<And>m. media_ok S m \<Longrightarrow> media_ok S (f m)) \<Longrightarrow>
     app_ok S (a\<lparr>ap_current_media := map_option f x\<rparr>)"
  by (auto simp: app_ok_def)

lemma keeps_broadcast_volume [keeps_intros]: "keeps S (broadcast_volume env v)"
  unfolding broadcast_volume_def by (intro keeps_intros) auto

lemma keeps_relay [keeps_intros]: "keeps S (relay_to_other_senders env origin msg)"
  unfolding relay_to_other_senders_def by ((intro keeps_intros; auto intro: app_ok_D)+)

lemma keeps_state_changed [keeps_intros]: "keeps S (app_playback_state_changed env st)"
  unfolding app_playback_state_changed_def by ((intro keeps_intros; auto intro: app_ok_D)+)

lemma keeps_send_error [keeps_intros]: "answerable S origin \<Longrightarrow> keeps S (send_error origin kind)"
  unfolding send_error_def by (intro keeps_intros; auto simp: effect_ok_def)

lemma keeps_release [keeps_intros]: "keeps S (release_seek_hold_if_landed env x)"
  unfolding release_seek_hold_if_landed_def Let_def
  by ((intro keeps_intros; auto intro: app_ok_D)+)

lemma keeps_notify [keeps_intros]: "keeps S (notify_updates env force)"
  unfolding notify_updates_def Let_def
  by ((intro keeps_intros; auto intro: app_ok_D)+)

lemma keeps_rate [keeps_intros]: "keeps S (broadcast_rate env r)"
  unfolding broadcast_rate_def by (intro keeps_intros; simp)

lemma keeps_set_volume_cmd [keeps_intros]: "keeps S (set_volume_cmd env v)"
  unfolding set_volume_cmd_def Let_def by ((intro keeps_intros; auto intro: app_ok_D)+)

lemma keeps_progress [keeps_intros]: "keeps S (playback_progress_changed env)"
  unfolding playback_progress_changed_def Let_def by ((intro keeps_intros; auto intro: app_ok_D)+)

lemma progress_updates_ok: "e \<in> set (fst (progress_updates at x dur hs)) \<Longrightarrow> effect_ok S e"
  by (induction hs) (auto split: prod.splits if_splits)

lemma keeps_v4_progress [keeps_intros]: "keeps S (send_v4_progress_updates env)"
  unfolding maintains_def send_v4_progress_updates_def Let_def
  by (auto split: prod.split) (metis fst_conv progress_updates_ok)

lemma keeps_reject_adds [keeps_intros]: "keeps S reject_pending_subtitle_adds"
  unfolding reject_pending_subtitle_adds_def
  by ((intro keeps_intros; auto intro: app_ok_D)+)

lemma keeps_drop_seek [keeps_intros]: "keeps S drop_pending_seek"
  unfolding drop_pending_seek_def by ((intro keeps_intros; auto intro: app_ok_D)+)

lemma keeps_cleanup [keeps_intros]: "keeps S (cleanup_playback_data c p)"
  unfolding cleanup_playback_data_def
  by (intro keeps_intros; auto intro!: app_ok_map_media simp: media_ok_def)

lemma keeps_media_event [keeps_intros]: "keeps S (media_event env v item)"
  unfolding media_event_def by (intro keeps_intros; simp)

lemma keeps_loaded [keeps_intros]: "keeps S (media_loaded_successfully env)"
  unfolding media_loaded_successfully_def Let_def
  by (intro keeps_intros; auto intro!: keeps_intros split: media_source.split wrapped_play_message.split)

lemma keeps_media_error [keeps_intros]: "keeps S (media_error env msg)" "keeps S (media_warning msg)"
  unfolding media_error_def media_warning_def by ((intro keeps_intros; auto intro: app_ok_D)+)

lemma keeps_media_ended [keeps_intros]: "keeps S (media_ended env)"
  unfolding media_ended_def by ((intro keeps_intros; auto intro: app_ok_D)+)

lemma keeps_transport [keeps_intros]: "keeps S app_stop_playback" "keeps S app_pause" "keeps S app_resume"
    "keeps S video_stream_available" "keeps S video_stream_unavailable"
  unfolding app_stop_playback_def app_pause_def app_resume_def video_stream_available_def video_stream_unavailable_def
  by ((intro keeps_intros; auto intro: app_ok_D)+)

section \<open>Loading\<close>

lemma app_ok_build: "build_media_source env container url headers a = (src, a') \<Longrightarrow> app_ok S a \<Longrightarrow> app_ok S a'"
  by (auto simp: build_media_source_def split: if_splits)

lemma keeps_load_item [keeps_intros]: "keeps S (load_item env item url)"
  unfolding load_item_def Let_def
  by (intro keeps_intros; auto intro!: app_ok_map_media simp: media_ok_def dest: app_ok_build)

lemma keeps_load_media [keeps_intros]: "keeps S (load_media env)"
  unfolding load_media_def
  by (intro keeps_intros; auto intro: app_ok_D)

lemma keeps_set_media [keeps_intros]: "answerable S origin \<Longrightarrow> keeps S (set_media origin src)"
  unfolding set_media_def by (intro keeps_intros; auto)

lemma keeps_drop_externals [keeps_intros]: "keeps S drop_external_subtitles"
  unfolding drop_external_subtitles_def by (intro keeps_intros; auto intro!: app_ok_map_media)

lemma keeps_set_queue [keeps_intros]: "keeps S (app_update (set_queue q))"
  by (intro keeps_intros; auto intro!: app_ok_map_media simp: set_queue_def media_ok_def)

lemma keeps_queue [keeps_intros]:
  assumes "answerable S origin"
  shows "keeps S (play_queue_item env origin position relay)" "keeps S (remove_queue_item env origin position)"
    "keeps S (insert_queue_item env origin item at)"
  unfolding play_queue_item_def remove_queue_item_def insert_queue_item_def Let_def
  by (intro keeps_intros assms)+

lemma keeps_relay_play [keeps_intros]: "keeps S (relay_play env origin src)"
  unfolding relay_play_def by (intro keeps_intros; simp)

lemma keeps_play_message [keeps_intros]:
  assumes "answerable S origin"
  shows "keeps S (handle_play_message env msg origin)"
  unfolding handle_play_message_def handle_playlist_play_request_def Let_def
  by (intro keeps_intros assms; auto)

section \<open>Tracks and subtitles\<close>

lemma keeps_track_change [keeps_intros]: "keeps S (apply_track_change env kind sid)"
proof -
  have "keeps S (on_player_step (\<lambda>p. Some (request_track_change_impl answers kind sid suppress p)) k)"
    if "\<And>r. keeps S (k r)" for answers suppress k
    by (rule keeps_call_step [where call = "DoTrackChange answers kind sid suppress"]) (simp_all add: player_do_def that)
  then have step: "keeps S (on_player_step (\<lambda>p. Some (request_track_change_impl answers kind sid suppress p))
      (\<lambda>stale. app_when stale [gui GuiClearVideoOverlays]))" for answers suppress
    by (simp add: keeps_intros)
  show ?thesis unfolding apply_track_change_def request_track_change_def request_track_change_no_refresh_def
  proof (rule keeps_get)
    fix a
    show "keeps S (on_player_step (\<lambda>p. Some (if the_externals a \<noteq> []
        then request_track_change_impl (ae_answers env) kind sid True p
        else request_track_change_impl (ae_answers env) kind sid False p))
      (\<lambda>stale. app_when stale [gui GuiClearVideoOverlays]))"
      by (cases "the_externals a = []") (simp_all add: step)
  qed
qed

lemma keeps_update_tracks [keeps_intros]: "keeps S (update_tracks env force)"
  unfolding maintains_def
proof (intro allI impI)
  fix a assume ok: "app_ok S a"
  obtain c p where u: "(if force then (True, ap_player a)
      else update_stream_properties (ae_language_name env) (ae_tags env) (ap_player a)) = (c, p)" by fastforce
  then have "pl_machine p = pl_machine (ap_player a)" by (auto simp: update_stream_properties_def Let_def split: if_splits)
  with ok have p: "app_ok S (a\<lparr>ap_player := p\<rparr>)" by (simp add: app_ok_def)
  have k: "keeps S (app_when c [app_when (should_broadcast env) [broadcast_update msg], gui y])" for msg y
    by (intro keeps_intros; simp)
  show "\<exists>es a'. update_tracks env force a = Some (es, a') \<and> app_ok S a' \<and> (\<forall>e \<in> set es. effect_ok S e)"
    unfolding update_tracks_def u Let_def prod.case by (rule k [unfolded maintains_def, rule_format, OF p])
qed

lemma keeps_subtitle_track [keeps_intros]: "answerable S origin \<Longrightarrow> keeps S (change_subtitle_track env origin i)"
  unfolding change_subtitle_track_def
  by (intro keeps_intros; auto intro!: keeps_intros simp: media_ok_def split: subtitle_target.split)

lemma keeps_detach [keeps_intros]: "keeps S (detach_external handle)" "keeps S (arm_external_sub_watchdog i)"
  unfolding detach_external_def arm_external_sub_watchdog_def
  by ((intro keeps_intros; auto)+)

lemma keeps_attach [keeps_intros]: "answerable S origin \<Longrightarrow> keeps S (attach_subtitle_source env origin url sel name)"
  unfolding attach_subtitle_source_def Let_def
  by (intro keeps_intros; auto simp: media_ok_def)

lemma keeps_add_subtitle [keeps_intros]: "answerable S origin \<Longrightarrow> keeps S (add_subtitle_source env origin url sel name)"
  unfolding add_subtitle_source_def Let_def
  by (intro keeps_intros; auto)

lemma keeps_refresh [keeps_intros]: "keeps S (refresh_external_stream_sids env)"
  unfolding refresh_external_stream_sids_def
  by (intro keeps_intros; auto simp: media_ok_def split: option.split)

lemma keeps_pump_desire [keeps_intros]: "keeps S (pump_fcast_sub_desire env)"
  unfolding pump_fcast_sub_desire_def
  by (intro keeps_intros; auto simp: media_ok_def)

lemma keeps_fail_external [keeps_intros]: "keeps S (fail_fcast_external_subtitle env i)"
  unfolding fail_fcast_external_subtitle_def
  by (intro keeps_intros; auto intro: app_ok_D simp: media_ok_def dest: notin_set_remove1)

lemma media_ok_update_external:
  assumes "media_ok S m" and "\<And>s. es_requested_by (f s) = es_requested_by s"
  shows "media_ok S (m\<lparr>ms_external_subtitles := update_external i f (ms_external_subtitles m)\<rparr>)"
proof -
  have "es_requested_by ` set (update_external i f subs) = es_requested_by ` set subs" for subs
    by (induction subs) (simp_all add: assms(2))
  then show ?thesis using assms(1) unfolding media_ok_def by (simp, metis image_eqI image_iff)
qed

lemma keeps_rearm [keeps_intros]: "keeps S (fail_or_rearm_fcast_external env i)"
  unfolding fail_or_rearm_fcast_external_def Let_def
  by (intro keeps_intros; simp add: media_ok_update_external)

section \<open>The event loop\<close>

lemma keeps_seek [keeps_intros]: "answerable S origin \<Longrightarrow> keeps S (seek_now env origin time)"
  unfolding seek_now_def by (intro keeps_intros; simp)

lemma keeps_operation_seek [keeps_intros]: "answerable S origin \<Longrightarrow> keeps S (operation_seek env origin time)"
  unfolding operation_seek_def by (intro keeps_intros; auto)

lemma keeps_info_updated [keeps_intros]: "keeps S (on_media_info_updated env)"
  unfolding on_media_info_updated_def maybe_apply_pending_subtitle_adds_def maybe_apply_pending_seek_def
  by (intro keeps_intros; auto intro: app_ok_D)

lemma keeps_playlist_item [keeps_intros]: "keeps S (set_playlist_item_op env i)"
  unfolding set_playlist_item_op_def Let_def
  by (rule keeps_get; simp split: option.split media_source.split; intro conjI impI allI keeps_intros; simp add: media_ok_def)

lemma keeps_change_track [keeps_intros]: "answerable S origin \<Longrightarrow> keeps S (change_track_op env origin i typ)"
  unfolding change_track_op_def Let_def
  by (rule keeps_get; simp split: flat_track_type.split; intro conjI impI allI keeps_intros; simp)

lemma keeps_interval [keeps_intros]: "keeps S (set_progress_interval env origin interval)"
  unfolding set_progress_interval_def by (intro keeps_intros; simp)

lemma keeps_operation [keeps_intros]:
  assumes "answerable S origin"
  shows "keeps S (handle_operation env op origin)"
proof (cases op)
  case (SetPlaybackState state)
  then show ?thesis by (cases state) (simp_all add: handle_operation_def keeps_intros)
next
  case ResumeOrPause
  have "keeps S (app_get (\<lambda>a. case player_state_of (ap_player a) of
      PlPaused \<Rightarrow> app_resume | PlPlaying \<Rightarrow> app_pause | _ \<Rightarrow> send_error origin InvalidState))"
    by (rule keeps_get) (simp add: keeps_intros assms split: player_state.split)
  with ResumeOrPause show ?thesis by (simp add: handle_operation_def)
qed (simp add: handle_operation_def; intro keeps_intros assms; simp)+

lemma keeps_ended [keeps_intros]: "keeps S (ended_event env a)"
  unfolding ended_event_def
  by (simp split: option.split media_source.split wrapped_play_message.split; intro conjI impI allI keeps_intros)

lemma keeps_events [keeps_intros]:
  "keeps S (on_end_of_stream env)" "keeps S (on_tags env tags)" "keeps S (on_volume_changed env v)"
  "keeps S (on_stream_collection env collection)" "keeps S (on_async_done env)" "keeps S (on_buffering env percent)"
  "keeps S (on_state_changed env old new p)" "keeps S (on_streams_selected env sel sn)"
  unfolding on_end_of_stream_def on_tags_def on_volume_changed_def on_stream_collection_def on_async_done_def
    on_buffering_def on_state_changed_def on_streams_selected_def Let_def
  by ((intro keeps_intros; auto simp: media_ok_def)+)

lemma keeps_player_error [keeps_intros]: "keeps S (on_player_error env origin kind msg)"
  unfolding on_player_error_def
  by (simp split: error_origin.split; intro conjI impI allI keeps_intros; auto intro: app_ok_D)

lemma keeps_player_event [keeps_intros]: "keeps S (handle_player_event env event generation)"
proof -
  have "keeps S (player_event_step env event)"
    unfolding player_event_step_def by (cases event; simp; intro keeps_intros)
  then show ?thesis unfolding handle_player_event_def by (intro keeps_intros; simp)
qed

lemma keeps_image_event [keeps_intros]: "keeps S (handle_image_event env event)"
  unfolding handle_image_event_def image_shown_def
  by (cases event; simp; intro keeps_intros; auto intro: app_ok_D simp: media_ok_def)

lemma keeps_messages [keeps_intros]:
  "keeps S (seek_percent env percent)" "keeps S (media_item_finish env item)" "keeps S (select_track env i kind)"
  "keeps S (external_sub_check env item ext_id)" "keeps S (app_tick env)" "keeps S (handle_new_fcast_session env sid)"
  "keeps S (playlist_data_result env m)"
proof -
  show "keeps S (media_item_finish env item)" unfolding media_item_finish_def
    by (rule keeps_get) (simp add: keeps_intros split: option.split media_source.split)
qed (unfold seek_percent_def select_track_def external_sub_check_def app_tick_def handle_new_fcast_session_def
      playlist_data_result_def Let_def; intro keeps_intros; simp)+

text \<open>The packets of senders that an event brings.\<close>

fun event_origins :: "app_message \<Rightarrow> packet_origin set" where
  "event_origins (MsgOp origin op) = {origin}"
| "event_origins _ = {}"

lemma keeps_handle_event:
  assumes "event_origins msg \<subseteq> S"
  shows "keeps S (handle_event env msg)"
proof (cases msg)
  case (MsgOp origin op)
  with assms have "answerable S origin" by (auto simp: answerable_def)
  with MsgOp show ?thesis by (simp add: handle_event_def keeps_intros)
qed (simp add: handle_event_def; (intro keeps_intros; simp)?)+

lemma keeps_run_event_loop:
  assumes "(\<Union>(env, msg) \<in> set todo. event_origins msg) \<subseteq> S"
  shows "keeps S (run_event_loop todo)"
  using assms
proof (induction todo)
  case Nil
  then show ?case by (simp add: maintains_def)
next
  case (Cons step todo)
  obtain env msg where step: "step = (env, msg)" by fastforce
  show ?case
  proof (cases "msg = MsgQuit")
    case True
    then have "run_event_loop (step # todo) = on_player stop" by (auto simp: step fun_eq_iff)
    then show ?thesis by (simp add: keeps_calls)
  next
    case False
    then have "run_event_loop (step # todo) = app_do [handle_event env msg, run_event_loop todo]"
      by (auto simp: step fun_eq_iff split: option.splits prod.splits)
    moreover have "keeps S (handle_event env msg)" using Cons.prems by (intro keeps_handle_event) (auto simp: step)
    moreover have "keeps S (run_event_loop todo)" using Cons by auto
    ultimately show ?thesis by (simp add: keeps_cons keeps_nil del: app_do.simps)
  qed
qed

lemma app_ok_new: "app_ok S (application_new started (snd (player_new pb)))"
  by (simp add: app_ok_def application_new_def player_new_def sm_new_wf)

text \<open>
  C5: an error answers a packet: every error that a run of the application sends to a sender carries the
  number of a packet that came from that sender, also when it is sent late, for an item that does not load,
  a subtitle that does not appear or a request that was parked.
\<close>

theorem errors_answer_packets:
  assumes "run_event_loop todo (application_new started (snd (player_new pb))) = Some (es, a)"
    and "ToOneSender sid (RtfError kind n) \<in> set es"
  shows "\<exists>env op. (env, MsgOp (FromFCast sid n) op) \<in> set todo"
proof -
  let ?S = "\<Union>(env, msg) \<in> set todo. event_origins msg"
  have "keeps ?S (run_event_loop todo)" by (rule keeps_run_event_loop) simp
  with assms app_ok_new [of ?S started pb] have "effect_ok ?S (ToOneSender sid (RtfError kind n))"
    unfolding maintains_def by fastforce
  then obtain env msg where "(env, msg) \<in> set todo" "FromFCast sid n \<in> event_origins msg"
    by (auto simp: effect_ok_def)
  then show ?thesis by (cases msg) auto
qed

end
