(* ===== verification/App_Queue_Proofs.thy ===== *)
theory App_Queue_Proofs
  imports App_Safety
begin

text \<open>
  Properties of the queue: its changes leave the item that plays alone and reach the other senders; and what
  goes wrong when a queue is loaded with an index that is out of range.
\<close>

section \<open>The item that plays\<close>

definition queue_ok :: "queue_state \<Rightarrow> bool" where
  "queue_ok q \<longleftrightarrow> unat (qs_current_idx q) < length (qs_items q) \<and> length (qs_items q) \<le> 256"

definition playing_item :: "queue_state \<Rightarrow> queue_item" where
  "playing_item q = qs_items q ! unat (qs_current_idx q)"

lemma nth_remove_nth:
  "i < j \<Longrightarrow> j < length xs \<Longrightarrow> remove_nth i xs ! (j - Suc 0) = xs ! j"
  "j < i \<Longrightarrow> i < length xs \<Longrightarrow> remove_nth i xs ! j = xs ! j"
  "i < length xs \<Longrightarrow> length (remove_nth i xs) = length xs - 1"
  by (auto simp: remove_nth_def nth_append min_def)

lemma nth_insert_nth:
  "i \<le> j \<Longrightarrow> j < length xs \<Longrightarrow> insert_nth i x xs ! Suc j = xs ! j"
  "j < i \<Longrightarrow> i \<le> length xs \<Longrightarrow> insert_nth i x xs ! j = xs ! j"
  "i \<le> length xs \<Longrightarrow> length (insert_nth i x xs) = Suc (length xs)"
  by (auto simp: insert_nth_def nth_append min_def Suc_diff_le)

lemma queue_without_ok:
  assumes "queue_ok q" and "queue_without position q = Inr q'"
  shows "queue_ok q' \<and> playing_item q' = playing_item q"
proof -
  let ?i = "removal_index position (qs_items q)" and ?c = "unat (qs_current_idx q)"
  from assms(2) have i: "?i < length (qs_items q)" "?i \<noteq> ?c" and q': "qs_items q' = remove_nth ?i (qs_items q)"
      "qs_current_idx q' = (if ?i \<le> ?c then (if qs_current_idx q = 0 then 0 else qs_current_idx q - 1) else qs_current_idx q)"
    by (auto simp: queue_without_def Let_def split: if_splits)
  show ?thesis
  proof (cases "?i < ?c")
    case True
    then have "qs_current_idx q \<noteq> 0" by auto
    then have "unat (qs_current_idx q - 1) = ?c - 1" by (simp add: unat_minus_one)
    with True i assms(1) \<open>qs_current_idx q \<noteq> 0\<close> show ?thesis
      by (auto simp: queue_ok_def playing_item_def q' nth_remove_nth)
  next
    case False
    with i assms(1) show ?thesis by (auto simp: queue_ok_def playing_item_def q' nth_remove_nth)
  qed
qed

definition insertion_index :: "flat_position \<Rightarrow> 'a list \<Rightarrow> nat option" where
  "insertion_index position xs =
     (case position of FBack \<Rightarrow> Some (length xs) | FFront \<Rightarrow> Some 0 | FIndex i \<Rightarrow> Some (unat i) | FPositionOther \<Rightarrow> None)"

lemma queue_with_Inr:
  assumes "queue_with item position q = Inr q'"
  obtains i where "insertion_index position (qs_items q) = Some i" "i \<le> length (qs_items q)"
    "length (qs_items q) < 256" "qs_items q' = insert_nth i (queue_item_from_flat item) (qs_items q)"
    "qs_current_idx q' = (if i \<le> unat (qs_current_idx q) then qs_current_idx q + 1 else qs_current_idx q)"
proof (cases "insertion_index position (qs_items q)")
  case None
  with assms show ?thesis
    by (simp add: queue_with_def ebind_def insertion_index_def split: if_splits flat_position.splits)
next
  case (Some i)
  then have "queue_with item position q =
      (if 256 \<le> length (qs_items q) then Inl QueueFull
       else if qs_items q = [] \<or> length (qs_items q) < i then Inl QueuePositionOutOfRange
       else Inr (q\<lparr>qs_current_idx := (if i \<le> unat (qs_current_idx q) then qs_current_idx q + 1 else qs_current_idx q),
                  qs_items := insert_nth i (queue_item_from_flat item) (qs_items q)\<rparr>))"
    by (cases position) (auto simp: queue_with_def ebind_def insertion_index_def)
  with assms Some show ?thesis by (intro that [of i]) (auto split: if_splits)
qed

lemma queue_with_ok:
  assumes "queue_ok q" and "queue_with item position q = Inr q'"
  shows "queue_ok q' \<and> playing_item q' = playing_item q"
proof -
  let ?c = "unat (qs_current_idx q)"
  from assms(2) obtain i where i: "i \<le> length (qs_items q)" "length (qs_items q) < 256"
      and q': "qs_items q' = insert_nth i (queue_item_from_flat item) (qs_items q)"
      "qs_current_idx q' = (if i \<le> ?c then qs_current_idx q + 1 else qs_current_idx q)"
    by (rule queue_with_Inr) blast
  show ?thesis
  proof (cases "i \<le> ?c")
    case True
    have "Suc ?c < 256" using assms(1) i by (simp add: queue_ok_def)
    then have "unat (qs_current_idx q + 1) = Suc ?c" by (simp add: unat_word_ariths)
    with True i assms(1) show ?thesis by (auto simp: queue_ok_def playing_item_def q' nth_insert_nth)
  next
    case False
    with i assms(1) show ?thesis by (auto simp: queue_ok_def playing_item_def q' nth_insert_nth)
  qed
qed

section \<open>A run of operations\<close>

definition run_operations :: "(app_env \<times> packet_origin \<times> operation) list \<Rightarrow> app_step" where
  "run_operations ops = run_event_loop (map (\<lambda>(env, origin, op). (env, MsgOp origin op)) ops)"

lemma run_operations_simps [simp]:
  "run_operations [] a = Some ([], a)"
  "run_operations ((env, origin, op) # ops) = app_do [handle_operation env op origin, run_operations ops]"
  by (auto simp: run_operations_def fun_eq_iff handle_event_def split: option.splits prod.splits)

lemma keeps_run_operations:
  assumes "\<And>env origin op. (env, origin, op) \<in> set ops \<Longrightarrow> maintains I E (handle_operation env op origin)"
  shows "maintains I E (run_operations ops)"
  using assms
proof (induction ops)
  case Nil
  then show ?case by (simp add: maintains_def)
next
  case (Cons x ops)
  then show ?case by (cases x) (auto simp del: app_do.simps intro!: keeps_cons keeps_nil)
qed

fun queue_edit :: "operation \<Rightarrow> bool" where
  "queue_edit (InsertQueueItem item position) = True"
| "queue_edit (RemoveQueueItem position) = True"
| "queue_edit op = False"

definition plays_in :: "queue_item \<Rightarrow> player \<Rightarrow> application \<Rightarrow> bool" where
  "plays_in item p a \<longleftrightarrow> (\<exists>q. app_queue a = Some q \<and> queue_ok q \<and> playing_item q = item) \<and> ap_player a = p"

lemma app_queue_set [simp]: "app_queue a \<noteq> None \<Longrightarrow> app_queue (set_queue q a) = Some q"
  by (auto simp: app_queue_def set_queue_def split: bind_splits)

lemma set_queue_player [simp]: "ap_player (set_queue q a) = ap_player a"
  by (simp add: set_queue_def)

text \<open>A change of the queue that depends on the queue before.\<close>

lemma maintains_queue_change:
  assumes "\<And>a q q'. I a \<Longrightarrow> app_queue a = Some q \<Longrightarrow> f q = Inr q' \<Longrightarrow> I (set_queue q' a)"
    and "\<And>kind. maintains I E (g kind)" and "\<And>q'. maintains I E (k q')" and "maintains I E h"
  shows "maintains I E (app_get (\<lambda>a. case app_queue a of
      None \<Rightarrow> h
    | Some q \<Rightarrow> (case f q of Inl kind \<Rightarrow> g kind | Inr q' \<Rightarrow> app_do [app_update (set_queue q'), k q'])))"
  unfolding maintains_def
proof (intro allI impI)
  fix a assume I: "I a"
  show "\<exists>es a'. app_get (\<lambda>a. case app_queue a of
      None \<Rightarrow> h
    | Some q \<Rightarrow> (case f q of Inl kind \<Rightarrow> g kind | Inr q' \<Rightarrow> app_do [app_update (set_queue q'), k q'])) a = Some (es, a')
    \<and> I a' \<and> (\<forall>e \<in> set es. E e)"
  proof (cases "app_queue a")
    case None
    with assms(4) I show ?thesis by (simp add: app_get_def maintains_def)
  next
    case (Some q)
    show ?thesis
    proof (cases "f q")
      case (Inl kind)
      with Some assms(2) [of kind] I show ?thesis by (simp add: app_get_def maintains_def)
    next
      case (Inr q')
      with Some assms(1,3) I have "I (set_queue q' a)" "maintains I E (app_do [k q'])" by (auto intro: keeps_intros)
      with Some Inr show ?thesis by (auto simp: app_get_def maintains_def app_update_def simp del: app_do.simps(2))
        (auto simp: app_update_def)
    qed
  qed
qed

lemma edits_keep:
  assumes "queue_edit op"
  shows "maintains (plays_in item p) (\<lambda>e. \<nexists>call. e = Pipeline call) (handle_operation env op origin)"
proof -
  have send: "maintains (plays_in item p) (\<lambda>e. \<nexists>call. e = Pipeline call) (send_error origin kind)" for kind
    unfolding send_error_def by (intro keeps_intros; simp)
  have relay: "maintains (plays_in item p) (\<lambda>e. \<nexists>call. e = Pipeline call) (relay_to_other_senders env origin msg)" for msg
    unfolding relay_to_other_senders_def by (intro keeps_intros; simp)
  show ?thesis
  proof (cases op)
    case (InsertQueueItem i position)
    have "maintains (plays_in item p) (\<lambda>e. \<nexists>call. e = Pipeline call) (insert_queue_item env origin i position)"
      unfolding insert_queue_item_def
    proof (rule maintains_queue_change)
      show "plays_in item p (set_queue q' a)"
        if "plays_in item p a" "app_queue a = Some q" "queue_with i position q = Inr q'" for a q q'
        using that queue_with_ok [of q i position q'] by (auto simp: plays_in_def)
    qed (intro keeps_intros send relay)+
    with InsertQueueItem show ?thesis by (simp add: handle_operation_def)
  next
    case (RemoveQueueItem position)
    have "maintains (plays_in item p) (\<lambda>e. \<nexists>call. e = Pipeline call) (remove_queue_item env origin position)"
      unfolding remove_queue_item_def
    proof (rule maintains_queue_change)
      show "plays_in item p (set_queue q' a)"
        if "plays_in item p a" "app_queue a = Some q" "queue_without position q = Inr q'" for a q q'
        using that queue_without_ok [of q position q'] by (auto simp: plays_in_def)
    qed (intro keeps_intros send relay)+
    with RemoveQueueItem show ?thesis by (simp add: handle_operation_def)
  qed (use assms in auto)
qed

text \<open>
  C7: changes of the queue leave the item that plays alone: from a queue of at most 256 items, its index in
  range, whatever items senders insert and remove, at whatever positions, refused or not, the operations
  end, the player is the one before and gets no call, the index is in range and its item is the one that
  played. (An insertion is refused from 256 items on; a load may bring more.)
\<close>

theorem queue_edits_keep_playing_item:
  assumes "app_queue a = Some q" and "queue_ok q" and "list_all (\<lambda>(env, origin, op). queue_edit op) ops"
  shows "\<exists>es a' q'. run_operations ops a = Some (es, a') \<and> app_queue a' = Some q' \<and> queue_ok q'
    \<and> playing_item q' = playing_item q \<and> ap_player a' = ap_player a \<and> Pipeline call \<notin> set es"
proof -
  have "maintains (plays_in (playing_item q) (ap_player a)) (\<lambda>e. \<nexists>call. e = Pipeline call) (run_operations ops)"
    using assms(3) by (intro keeps_run_operations edits_keep) (auto simp: list_all_iff)
  moreover have "plays_in (playing_item q) (ap_player a) a" using assms(1,2) by (simp add: plays_in_def)
  ultimately show ?thesis unfolding maintains_def plays_in_def by blast
qed

section \<open>What the other senders see\<close>

text \<open>
  A sender that follows the queue: it starts from a load and does what each message says. It gets the
  messages of the other senders, without the headers of the items.
\<close>

fun flat_removal_index :: "flat_position \<Rightarrow> 'a list \<Rightarrow> nat" where
  "flat_removal_index (FIndex i) xs = unat i"
| "flat_removal_index FBack xs = length xs - 1"
| "flat_removal_index _ xs = 0"

fun mirror_step :: "flat_message \<Rightarrow> flat_queue_item list option \<Rightarrow> flat_queue_item list option" where
  "mirror_step (MLoad (FQueue q)) m = Some (fq_items q)"
| "mirror_step (MLoad _) m = None"
| "mirror_step (MQueueInsert item position) m =
     map_option (\<lambda>xs. case insertion_index position xs of Some i \<Rightarrow> insert_nth i item xs | None \<Rightarrow> xs) m"
| "mirror_step (MQueueRemove position) m = map_option (\<lambda>xs. remove_nth (flat_removal_index position xs) xs) m"
| "mirror_step _ m = m"

definition relayed_to :: "sender_id \<Rightarrow> app_effect \<Rightarrow> flat_message option" where
  "relayed_to me e =
     (case e of
        ToAllSenders (RtsV4 (V4Play sid msg)) \<Rightarrow> if sid \<noteq> me then Some (payload msg) else None
      | ToAllSenders (RtsV4 (RelayToOtherSenders sid msg)) \<Rightarrow> if sid \<noteq> me then Some (payload msg) else None
      | _ \<Rightarrow> None)"

definition mirror :: "sender_id \<Rightarrow> app_effect list \<Rightarrow> flat_queue_item list option \<Rightarrow> flat_queue_item list option" where
  "mirror me es m = fold (\<lambda>e m. case relayed_to me e of Some msg \<Rightarrow> mirror_step msg m | None \<Rightarrow> m) es m"

lemma mirror_simps [simp]:
  "mirror me [] m = m" "mirror me (es @ es') m = mirror me es' (mirror me es m)"
  "mirror me (e # es) m = mirror me es (case relayed_to me e of Some msg \<Rightarrow> mirror_step msg m | None \<Rightarrow> m)"
  by (simp_all add: mirror_def)

text \<open>An effect that changes no mirror.\<close>

definition idle :: "sender_id \<Rightarrow> app_effect \<Rightarrow> bool" where
  "idle me e \<longleftrightarrow> (\<forall>m. (case relayed_to me e of Some msg \<Rightarrow> mirror_step msg m | None \<Rightarrow> m) = m)"

lemma mirror_idle: "(\<forall>e \<in> set es. idle me e) \<Longrightarrow> mirror me es m = m"
  by (induction es) (auto simp: idle_def)

lemma idle_simps [simp, keeps_intros]:
  "idle me (Pipeline call)" "idle me (ToCast u)" "idle me (Gui c)" "idle me (Later t)" "idle me (Inhibit b)"
  "idle me (DownloadImage i url hs)" "idle me (ToOneSender sid msg')"
  "idle me (ToAllSenders (RtsV4 (RelayToOtherSenders sid (queue_select position))))"
  by (simp_all add: idle_def relayed_to_def queue_select_def create_and_finish_envelope_def)

definition app_items :: "application \<Rightarrow> queue_item list option" where
  "app_items a = map_option qs_items (app_queue a)"

abbreviation quiet :: "sender_id \<Rightarrow> queue_item list option \<Rightarrow> app_step \<Rightarrow> bool" where
  "quiet me items \<equiv> maintains (\<lambda>a. app_items a = items) (idle me)"

lemma app_items_media [simp]:
  "(\<And>m. ms_source (f m) = ms_source m) \<Longrightarrow>
     app_items (a\<lparr>ap_current_media := map_option f (ap_current_media b)\<rparr>) = app_items b"
  by (cases "ap_current_media b") (simp_all add: app_items_def app_queue_def)

lemma app_items_cong: "ap_current_media a = ap_current_media b \<Longrightarrow> app_items a = app_items b"
  by (simp add: app_items_def app_queue_def)

lemma quiet_update: "(\<And>a. ap_current_media (f a) = ap_current_media a) \<Longrightarrow> quiet me items (app_update f)"
  by (intro keeps_update) (metis app_items_cong)

lemma quiet_on_player [keeps_intros]: "quiet me items (on_player f)"
  by (rule keeps_on_player_pure) (auto simp: app_items_def app_queue_def)

lemma quiet_send_error [keeps_intros]: "quiet me items (send_error origin kind)"
  unfolding send_error_def by (intro keeps_intros)

lemma quiet_reject [keeps_intros]: "quiet me items reject_pending_subtitle_adds"
  unfolding reject_pending_subtitle_adds_def by (intro quiet_update keeps_intros; simp)

lemma quiet_drop_seek [keeps_intros]: "quiet me items drop_pending_seek"
  unfolding drop_pending_seek_def by (intro quiet_update) simp

lemma quiet_cleanup [keeps_intros]: "quiet me items (cleanup_playback_data c p)"
  unfolding cleanup_playback_data_def
  by (intro keeps_intros; simp add: app_items_def app_queue_def bind_map_option comp_def)

lemma app_items_build: "build_media_source env container url headers a = (src, a') \<Longrightarrow> app_items a' = app_items a"
  by (auto simp: build_media_source_def app_items_def app_queue_def split: if_splits)

lemma quiet_load_item [keeps_intros]: "quiet me items (load_item env item url)"
  unfolding load_item_def Let_def
  by (intro keeps_intros; auto simp: app_items_def app_queue_def bind_map_option comp_def
      dest: app_items_build [unfolded app_items_def app_queue_def])

lemma quiet_load_media [keeps_intros]: "quiet me items (load_media env)"
  unfolding load_media_def by (intro keeps_intros)

lemma quiet_drop_externals [keeps_intros]: "quiet me items drop_external_subtitles"
  unfolding drop_external_subtitles_def
  by (intro keeps_intros; simp add: app_items_def app_queue_def bind_map_option comp_def clear_external_subtitles_def)

definition no_headers :: "queue_item \<Rightarrow> queue_item" where
  "no_headers item = item\<lparr>qi_headers := None\<rparr>"

lemma queue_item_stripped: "queue_item_from_flat (strip_queue_item item) = no_headers (queue_item_from_flat item)"
  by (simp add: queue_item_from_flat_def strip_queue_item_def strip_flat_media_item_def no_headers_def Let_def)

text \<open>The sender's list and the application's queue.\<close>

definition mirrors :: "flat_queue_item list option \<Rightarrow> application \<Rightarrow> bool" where
  "mirrors m a \<longleftrightarrow> map_option (map queue_item_from_flat) m = map_option (map no_headers) (app_items a)"

fun queue_operation :: "operation \<Rightarrow> bool" where
  "queue_operation (PlayNew (FlatPlay src)) = True"
| "queue_operation (InsertQueueItem item position) = True"
| "queue_operation (RemoveQueueItem position) = True"
| "queue_operation (SelectQueueItem position) = True"
| "queue_operation op = False"

text \<open>A step after which a sender that followed the queue still does.\<close>

definition mirrored :: "sender_id \<Rightarrow> app_step \<Rightarrow> bool" where
  "mirrored me step \<longleftrightarrow>
     (\<forall>a m. mirrors m a \<longrightarrow> (\<exists>es a'. step a = Some (es, a') \<and> mirrors (mirror me es m) a'))"

lemma mirrored_quiet: "(\<And>items. quiet me items step) \<Longrightarrow> mirrored me step"
  unfolding mirrored_def maintains_def mirrors_def by (metis mirror_idle)

lemma mirrored_cons:
  assumes "mirrored me f" and "mirrored me (app_do fs)"
  shows "mirrored me (app_do (f # fs))"
  unfolding mirrored_def
proof (intro allI impI)
  fix a m assume "mirrors m a"
  then obtain es a1 where f: "f a = Some (es, a1)" "mirrors (mirror me es m) a1"
    using assms(1) unfolding mirrored_def by blast
  with assms(2) obtain es' a2 where "app_do fs a1 = Some (es', a2)" "mirrors (mirror me es' (mirror me es m)) a2"
    unfolding mirrored_def by blast
  with f show "\<exists>es a'. app_do (f # fs) a = Some (es, a') \<and> mirrors (mirror me es m) a'" by auto
qed

lemma mirrored_nil: "mirrored me (app_do [])"
  by (simp add: mirrored_def)

lemma relay_run:
  assumes "ae_listening env" and "sid \<noteq> me"
  shows "\<exists>e. relay_to_other_senders env (FromFCast sid n) msg a = Some ([e], a) \<and> relayed_to me e = Some (payload msg)"
  using assms by (simp add: relay_to_other_senders_def app_when_def should_broadcast_def broadcast_update_def
      app_effect_def relayed_to_def)

lemma map_insert_nth: "map f (insert_nth i x xs) = insert_nth i (f x) (map f xs)"
  by (simp add: insert_nth_def take_map drop_map)

lemma map_remove_nth: "map f (remove_nth i xs) = remove_nth i (map f xs)"
  by (simp add: remove_nth_def take_map drop_map)

lemma insertion_index_map [simp]: "insertion_index position (map f xs) = insertion_index position xs"
  by (simp add: insertion_index_def split: flat_position.split)

lemma flat_removal_index_queue_position:
  "length xs = length ys \<Longrightarrow> flat_removal_index (queue_position position) xs = removal_index position ys"
  by (cases position) (simp_all add: removal_index_def)

lemma quiet_play_queue_item [keeps_intros]: "quiet me items (play_queue_item env origin position relay)"
proof -
  have set: "quiet me (Some (qs_items q)) (app_update (set_queue (q\<lparr>qs_current_idx := i\<rparr>)))" for q i
    by (intro keeps_update) (auto simp: app_items_def)
  have rel: "quiet me items (relay_to_other_senders env origin (queue_select position))" for items
    unfolding relay_to_other_senders_def by (intro keeps_intros)
  have "quiet me (Some (qs_items q)) (app_do [app_update (set_queue (q\<lparr>qs_current_idx := i\<rparr>)),
      drop_external_subtitles, load_media env, app_when relay [relay_to_other_senders env origin (queue_select position)]])"
    for q i by (intro keeps_cons keeps_nil keeps_when quiet_drop_externals quiet_load_media set rel)
  then have "quiet me (map_option qs_items (app_queue a)) (case app_queue a of
         None \<Rightarrow> send_error origin InvalidState
       | Some q \<Rightarrow>
           let index = select_index position (qs_items q) in
           if qs_items q = [] \<or> length (qs_items q) \<le> unat index then send_error origin QueuePositionOutOfRange
           else
             app_do
               [app_update (set_queue (q\<lparr>qs_current_idx := index\<rparr>)),
                drop_external_subtitles,
                load_media env,
                app_when relay [relay_to_other_senders env origin (queue_select position)]])" for a
    by (simp add: Let_def quiet_send_error del: app_do.simps split: option.split)
  then show ?thesis unfolding play_queue_item_def by (intro keeps_get) (auto simp: app_items_def)
qed

lemma mirrored_remove:
  assumes "ae_listening env" and "sid \<noteq> me"
  shows "mirrored me (remove_queue_item env (FromFCast sid n) position)"
  unfolding mirrored_def
proof (intro allI impI)
  fix a m assume R: "mirrors m a"
  show "\<exists>es a'. remove_queue_item env (FromFCast sid n) position a = Some (es, a') \<and> mirrors (mirror me es m) a'"
  proof (cases "\<exists>q q'. app_queue a = Some q \<and> queue_without position q = Inr q'")
    case False
    then have "\<exists>kind. remove_queue_item env (FromFCast sid n) position a = send_error (FromFCast sid n) kind a"
      by (auto simp: remove_queue_item_def app_get_def split: option.split sum.split)
    then obtain kind where "remove_queue_item env (FromFCast sid n) position a = send_error (FromFCast sid n) kind a" by blast
    moreover have "mirrored me (send_error (FromFCast sid n) kind)" by (intro mirrored_quiet keeps_intros)
    ultimately show ?thesis using R unfolding mirrored_def by simp
  next
    case True
    then obtain q q' where q: "app_queue a = Some q" "queue_without position q = Inr q'" by blast
    then have q': "qs_items q' = remove_nth (removal_index position (qs_items q)) (qs_items q)"
      by (auto simp: queue_without_def Let_def split: if_splits)
    from R q obtain xs where xs: "m = Some xs" "map queue_item_from_flat xs = map no_headers (qs_items q)"
      by (auto simp: mirrors_def app_items_def)
    then have i: "flat_removal_index (queue_position position) xs = removal_index position (qs_items q)"
      by (intro flat_removal_index_queue_position) (metis length_map)
    obtain e where "relay_to_other_senders env (FromFCast sid n) (queue_remove position) (set_queue q' a) = Some ([e], set_queue q' a)"
        "relayed_to me e = Some (MQueueRemove (queue_position position))"
      using relay_run [OF assms] by (force simp: queue_remove_def create_and_finish_envelope_def)
    with q q' xs i show ?thesis
      by (simp add: remove_queue_item_def app_get_def app_update_def mirrors_def app_items_def map_remove_nth)
  qed
qed

lemma mirrored_insert:
  assumes "ae_listening env" and "sid \<noteq> me"
  shows "mirrored me (insert_queue_item env (FromFCast sid n) item position)"
  unfolding mirrored_def
proof (intro allI impI)
  fix a m assume R: "mirrors m a"
  show "\<exists>es a'. insert_queue_item env (FromFCast sid n) item position a = Some (es, a') \<and> mirrors (mirror me es m) a'"
  proof (cases "\<exists>q q'. app_queue a = Some q \<and> queue_with item position q = Inr q'")
    case False
    then have "\<exists>kind. insert_queue_item env (FromFCast sid n) item position a = send_error (FromFCast sid n) kind a"
      by (auto simp: insert_queue_item_def app_get_def split: option.split sum.split)
    then obtain kind where "insert_queue_item env (FromFCast sid n) item position a = send_error (FromFCast sid n) kind a" by blast
    moreover have "mirrored me (send_error (FromFCast sid n) kind)" by (intro mirrored_quiet keeps_intros)
    ultimately show ?thesis using R unfolding mirrored_def by simp
  next
    case True
    then obtain q q' where q: "app_queue a = Some q" "queue_with item position q = Inr q'" by blast
    from q(2) obtain i where i: "insertion_index position (qs_items q) = Some i"
        "qs_items q' = insert_nth i (queue_item_from_flat item) (qs_items q)" by (rule queue_with_Inr) blast
    from R q obtain xs where xs: "m = Some xs" "map queue_item_from_flat xs = map no_headers (qs_items q)"
      by (auto simp: mirrors_def app_items_def)
    then have ix: "insertion_index position xs = Some i" using i(1) by (metis insertion_index_map)
    have "\<exists>pos'. queue_position pos' = position"
      using i(1) by (cases position) (auto simp: insertion_index_def intro: queue_position.simps)
    then obtain pos' where pos': "queue_position pos' = position" by blast
    then have pos: "from_queue_insert_stripped item position =
        Some (create_and_finish_envelope (MQueueInsert (strip_queue_item item) (queue_position pos')))"
        "queue_position pos' = position"
      by (cases pos'; force simp: from_queue_insert_stripped_def)+
    obtain e where "relay_to_other_senders env (FromFCast sid n)
          (create_and_finish_envelope (MQueueInsert (strip_queue_item item) (queue_position pos'))) (set_queue q' a)
          = Some ([e], set_queue q' a)"
        "relayed_to me e = Some (MQueueInsert (strip_queue_item item) position)"
      using relay_run [OF assms] pos(2) by (force simp: create_and_finish_envelope_def)
    with q i xs ix pos show ?thesis
      by (simp add: insert_queue_item_def app_get_def app_update_def mirrors_def app_items_def map_insert_nth
          queue_item_stripped)
  qed
qed

lemma app_items_new [simp]:
  "app_items (a\<lparr>ap_current_media := Some (media_state_new origin (SrcQueue q))\<rparr>) = Some (qs_items q)"
  "app_items (a\<lparr>ap_current_media := Some (media_state_new origin (SrcSingle msg))\<rparr>) = None"
  by (simp_all add: app_items_def app_queue_def media_state_new_def)

lemma mirrored_play:
  assumes "ae_listening env" and "sid \<noteq> me"
  shows "mirrored me (handle_play_message env (FlatPlay src) (FromFCast sid n))"
  unfolding mirrored_def
proof (intro allI impI)
  fix a m assume R: "mirrors m a"
  let ?o = "FromFCast sid n"
  have replaced: "\<exists>es a'. handle_play_message env (FlatPlay src) ?o a = Some (es, a') \<and> mirrors (mirror me es m) a'"
    if src: "handle_play_message env (FlatPlay src) ?o = app_do [app_do [set_media ?o new, f], relay_play env ?o src]"
      and f: "\<And>items. quiet me items f"
      and relay: "from_play_stripped src = Some stripped"
      and m': "map_option (map queue_item_from_flat) (mirror_step (payload stripped) m)
        = map_option (map no_headers) (app_items (a\<lparr>ap_current_media := Some (media_state_new ?o new)\<rparr>))" for new f stripped
  proof -
    let ?a1 = "a\<lparr>ap_current_media := Some (media_state_new ?o new)\<rparr>"
    from f [of "app_items ?a1"] obtain es a2 where f: "f ?a1 = Some (es, a2)" "app_items a2 = app_items ?a1"
        "\<forall>e \<in> set es. idle me e"
      unfolding maintains_def by blast
    have "relay_play env ?o src a2 = Some ([ToAllSenders (RtsV4 (V4Play sid stripped))], a2)"
      using assms(1) relay by (simp add: relay_play_def app_when_def should_broadcast_def broadcast_update_def app_effect_def)
    with f m' assms(2) show ?thesis
      by (auto simp: src set_media_def app_update_def mirrors_def mirror_idle relayed_to_def)
  qed
  show "\<exists>es a'. handle_play_message env (FlatPlay src) ?o a = Some (es, a') \<and> mirrors (mirror me es m) a'"
  proof (cases src)
    case (FSingle item)
    show ?thesis
      by (rule replaced [where new = "SrcSingle (FlatPlay src)" and f = "load_media env"
          and stripped = "create_and_finish_envelope (MLoad (FSingle (strip_flat_media_item item)))"])
        (simp_all add: FSingle handle_play_message_def quiet_load_media from_play_stripped_def
          create_and_finish_envelope_def)
  next
    case (FQueue queue)
    let ?i = "case fq_start_index queue of Some i \<Rightarrow> i | None \<Rightarrow> 0"
    show ?thesis
      by (rule replaced [where new = "SrcQueue \<lparr> qs_items = map queue_item_from_flat (fq_items queue), qs_current_idx = ?i \<rparr>"
          and f = "play_queue_item env ?o (QIndex ?i) False"
          and stripped = "create_and_finish_envelope (MLoad (FQueue
            \<lparr> fq_items = map strip_queue_item (fq_items queue), fq_start_index = fq_start_index queue,
              fq_autoplay = fq_autoplay queue \<rparr>))"])
        (simp_all add: FQueue handle_play_message_def quiet_play_queue_item from_play_stripped_def
          create_and_finish_envelope_def queue_item_stripped Let_def)
  next
    case FSourceOther
    have "mirrored me (handle_play_message env (FlatPlay src) ?o)"
      unfolding handle_play_message_def relay_play_def FSourceOther
      by (rule mirrored_quiet) (simp add: from_play_stripped_def del: app_do.simps; intro keeps_intros)
    with R show ?thesis unfolding mirrored_def by blast
  qed
qed

text \<open>
  C6: another sender can follow the queue as long as the others speak version 4: from the start of the
  application, with sessions listening, whatever queues and items version 4 senders load, and whatever they
  insert, remove and select, one operation after the other in any order, refused or not, the application tells
  a version 4 sender that does none of it exactly what keeps its own list equal to the receiver's queue, item
  for item and up to the headers, and tells it when a version 4 load leaves no queue any more. Loads of older
  senders and of Chromecast are not among these operations: they clear the queue and this sender is not told
  (\<open>older_load_not_told\<close>).
\<close>

theorem other_senders_follow_queue:
  assumes "list_all (\<lambda>(env, sid, n, op). ae_listening env \<and> sid \<noteq> me \<and> queue_operation op) ops"
  shows "\<exists>es a. run_operations (map (\<lambda>(env, sid, n, op). (env, FromFCast sid n, op)) ops)
        (application_new started (snd (player_new pb))) = Some (es, a)
    \<and> map_option (map queue_item_from_flat) (mirror me es None) = map_option (map no_headers) (app_items a)"
proof -
  have op: "mirrored me (handle_operation env op (FromFCast sid n))"
    if "ae_listening env" "sid \<noteq> me" "queue_operation op" for env sid n op
    using that(3)
  proof (cases op rule: queue_operation.cases)
    case (4 position)
    then show ?thesis by (simp add: handle_operation_def mirrored_quiet quiet_play_queue_item)
  qed (simp_all add: handle_operation_def mirrored_play mirrored_insert mirrored_remove that)
  have "mirrored me (run_operations (map (\<lambda>(env, sid, n, op). (env, FromFCast sid n, op)) ops))"
    using assms
  proof (induction ops)
    case Nil
    then show ?case by (simp add: mirrored_def)
  next
    case (Cons x ops)
    then show ?case by (cases x) (auto simp del: app_do.simps intro!: mirrored_cons mirrored_nil op)
  qed
  moreover have "mirrors None (application_new started (snd (player_new pb)))"
    by (simp add: mirrors_def app_items_def app_queue_def application_new_def)
  ultimately show ?thesis unfolding mirrored_def mirrors_def by blast
qed

text \<open>
  A load of a sender of version 1 to 3, or of a Chromecast sender, replaces the queue by its item, and a
  version 4 sender keeps its list: the \<open>PlayUpdate\<close> of such a load goes to sessions of version 3 only, and
  that of Chromecast has none.
\<close>

lemma quiet_broadcast_play_update: "quiet me items (broadcast_update (PlayUpdate u))"
  unfolding broadcast_update_def by (intro keeps_intros) (simp add: idle_def relayed_to_def)

lemma older_load_not_told:
  assumes "(\<exists>cast. msg = ChromecastPlay cast) \<or> (\<exists>pm. msg = LegacyPlay pm \<and> pm_container pm \<noteq> ''application/json'')"
  shows "\<exists>es a'. handle_operation env (PlayNew msg) origin a = Some (es, a') \<and> app_items a' = None \<and>
    mirror me es m = m"
proof -
  let ?a = "a\<lparr>ap_current_media := Some (media_state_new origin (SrcSingle msg))\<rparr>"
  have "\<exists>f. handle_operation env (PlayNew msg) origin a = app_do [set_media origin (SrcSingle msg), f] a \<and> quiet me None f"
  proof (cases "\<exists>cast. msg = ChromecastPlay cast")
    case True
    then show ?thesis
      by (auto simp: handle_operation_def handle_play_message_def quiet_load_media simp del: app_do.simps
          intro!: exI [of _ "load_media env"])
  next
    case False
    with assms obtain pm where pm: "msg = LegacyPlay pm" "pm_container pm \<noteq> ''application/json''" by blast
    let ?f = "app_do [load_media env, app_when (should_broadcast env)
        [broadcast_update (PlayUpdate \<lparr> pud_generation_time = Some (ae_millis env), pud_play_data = Some pm \<rparr>)]]"
    have "quiet me None ?f"
      by (intro keeps_cons keeps_nil keeps_when quiet_load_media quiet_broadcast_play_update)
    moreover have "handle_operation env (PlayNew msg) origin a = app_do [set_media origin (SrcSingle msg), ?f] a"
      using pm by (simp add: handle_operation_def handle_play_message_def split: option.split prod.split)
    ultimately show ?thesis by blast
  qed
  then obtain f where f: "handle_operation env (PlayNew msg) origin a = app_do [set_media origin (SrcSingle msg), f] a"
      "quiet me None f" by blast
  have "app_items ?a = None" by simp
  then obtain es a' where "f ?a = Some (es, a')" "app_items a' = None" "\<forall>e \<in> set es. idle me e"
    using f(2) unfolding maintains_def by blast
  with f(1) show ?thesis by (auto simp: set_media_def app_update_def mirror_idle)
qed

section \<open>An index that is out of range\<close>

lemma insert_wraps_index:
  assumes "qs_current_idx q = 255" and "qs_items q \<noteq> []" and "length (qs_items q) < 256"
  shows "\<exists>q'. queue_with item FFront q = Inr q' \<and> qs_current_idx q' = 0"
  using assms by (simp add: queue_with_def ebind_def)

text \<open>
  C38: a queue whose start index is out of range replaces the item that plays, while that item plays on: the
  sender gets the error, but the player gets no call, the queue with the index out of range is what the
  application takes for the current media, and the other senders are told to load it.
\<close>

theorem refused_queue_replaces_item:
  assumes "ae_listening env" and "map_of (ap_fcast_senders a) sid \<noteq> None"
    and "fq_start_index queue = Some i" and "length (fq_items queue) \<le> unat i"
  shows "\<exists>stripped a' q'. handle_operation env (PlayNew (FlatPlay (FQueue queue))) (FromFCast sid n) a =
      Some ([ToOneSender sid (RtfError QueuePositionOutOfRange n), ToAllSenders (RtsV4 (V4Play sid stripped))], a')
    \<and> ap_player a' = ap_player a \<and> app_queue a' = Some q' \<and> qs_current_idx q' = i
    \<and> qs_items q' = map queue_item_from_flat (fq_items queue) \<and> \<not> queue_ok q'"
proof -
  let ?q = "\<lparr> qs_items = map queue_item_from_flat (fq_items queue), qs_current_idx = i \<rparr>"
  let ?a = "a\<lparr>ap_current_media := Some (media_state_new (FromFCast sid n) (SrcQueue ?q))\<rparr>"
  have q: "app_queue ?a = Some ?q" by (simp add: app_queue_def media_state_new_def)
  from assms have "\<exists>stripped. handle_operation env (PlayNew (FlatPlay (FQueue queue))) (FromFCast sid n) a =
      Some ([ToOneSender sid (RtfError QueuePositionOutOfRange n), ToAllSenders (RtsV4 (V4Play sid stripped))], ?a)"
    by (simp add: handle_operation_def handle_play_message_def set_media_def app_update_def play_queue_item_def
        app_get_def q select_index_def send_error_def app_when_def app_effect_def relay_play_def
        from_play_stripped_def should_broadcast_def broadcast_update_def)
  moreover have "\<not> queue_ok ?q" using assms(4) by (simp add: queue_ok_def)
  ultimately show ?thesis using q by auto
qed

section \<open>Examples\<close>

definition app_library :: library where
  "app_library =
     \<lparr> lib_json = (\<lambda>_. None), lib_cast = (\<lambda>_. 0), lib_f32 = (\<lambda>_. 0x3F800000), lib_clock = (\<lambda>_. None),
       lib_root_as_packet = (\<lambda>_. None), lib_print = (\<lambda>_. ''''), lib_flat = (\<lambda>_. []), lib_useconds = id \<rparr>"

definition app_env_at :: "nat \<Rightarrow> app_env" where
  "app_env_at at =
     \<lparr> ae_lib = app_library, ae_now = at, ae_millis = of_nat at, ae_listening = True, ae_position = Some 0,
       ae_duration = None, ae_seconds = (\<lambda>_. 0), ae_query = Some True, ae_answers = (\<lambda>_. demo_answer),
       ae_tags = (\<lambda>_. None), ae_artist = None, ae_cover = False, ae_language_name = (\<lambda>_. None),
       ae_subtitle_sids = (\<lambda>_. []), ae_headless = False, ae_no_fullscreen_player = False, ae_window_visible = True,
       ae_fullscreen = False, ae_whep_source = (\<lambda>_. None), ae_fwebrtc_source = None,
       ae_uri_source = (\<lambda>_ _. None), ae_base64 = id \<rparr>"

definition demo_flat_item :: "string \<Rightarrow> flat_queue_item" where
  "demo_flat_item url =
     \<lparr> fqi_media_item = \<lparr> fmi_container = ''video/mp4'', fmi_source_url = url, fmi_start_time = None,
         fmi_volume = None, fmi_speed = None, fmi_headers = Some [(''Cookie'', ''1'')], fmi_title = None,
         fmi_thumbnail_url = None, fmi_metadata = FMetadataNone, fmi_extra_metadata = None \<rparr>,
       fqi_playback_duration = None \<rparr>"

definition demo_queue :: flat_queue where
  "demo_queue = \<lparr> fq_items = [demo_flat_item ''a'', demo_flat_item ''b''], fq_start_index = None, fq_autoplay = True \<rparr>"

definition demo_queue_app :: application where
  "demo_queue_app = (application_new 0 (snd (player_new demo_playbin)))
     \<lparr>ap_current_media := Some (media_state_new FromGui (SrcQueue
        \<lparr> qs_items = map queue_item_from_flat (fq_items demo_queue), qs_current_idx = 1 \<rparr>)),
      ap_fcast_senders := [(3, \<lparr> fh_progress_interval = 0, fh_last_progress_update = 0 \<rparr>)]\<rparr>"

lemma demo_queue_app_queue:
  "app_queue demo_queue_app = Some \<lparr> qs_items = map queue_item_from_flat (fq_items demo_queue), qs_current_idx = 1 \<rparr>"
  by (simp add: demo_queue_app_def app_queue_def media_state_new_def)

theorem errors_answer_packets_witness:
  "\<exists>env op. (env, MsgOp (FromFCast 3 (Some 8)) op) \<in>
     set [(app_env_at 0, MsgNewSession 3), (app_env_at 0, MsgOp (FromFCast 3 (Some 8)) (SelectQueueItem QFront))]"
proof -
  let ?todo = "[(app_env_at 0, MsgNewSession 3), (app_env_at 0, MsgOp (FromFCast 3 (Some 8)) (SelectQueueItem QFront))]"
  obtain es a where "run_event_loop ?todo (application_new 0 (snd (player_new demo_playbin))) = Some (es, a)"
      "ToOneSender 3 (RtfError InvalidState (Some 8)) \<in> set es"
    by (simp add: handle_event_def handle_new_fcast_session_def app_update_def app_get_def app_effect_def gui_def
        application_new_def handle_operation_def play_queue_item_def app_queue_def send_error_def app_when_def)
  then show ?thesis by (rule errors_answer_packets)
qed

theorem queue_edits_keep_playing_item_witness:
  "\<exists>es a' q'. run_operations
      [(app_env_at 0, FromFCast 1 None, InsertQueueItem (demo_flat_item ''c'') FFront),
       (app_env_at 0, FromFCast 2 None, RemoveQueueItem (QIndex 0)),
       (app_env_at 0, FromFCast 2 None, RemoveQueueItem (QIndex 1))] demo_queue_app = Some (es, a')
    \<and> app_queue a' = Some q' \<and> queue_ok q' \<and> playing_item q' = queue_item_from_flat (demo_flat_item ''b'')
    \<and> ap_player a' = ap_player demo_queue_app \<and> Pipeline StopAsync \<notin> set es"
  using queue_edits_keep_playing_item [OF demo_queue_app_queue,
      of "[(app_env_at 0, FromFCast 1 None, InsertQueueItem (demo_flat_item ''c'') FFront),
       (app_env_at 0, FromFCast 2 None, RemoveQueueItem (QIndex 0)),
       (app_env_at 0, FromFCast 2 None, RemoveQueueItem (QIndex 1))]" StopAsync]
  by (simp add: queue_ok_def playing_item_def demo_queue_def del: run_operations_simps)

theorem other_senders_follow_queue_witness:
  "\<exists>es a. run_operations
      [(app_env_at 0, FromFCast 1 None, PlayNew (FlatPlay (FQueue demo_queue))),
       (app_env_at 0, FromFCast 2 None, InsertQueueItem (demo_flat_item ''c'') FBack)]
        (application_new 0 (snd (player_new demo_playbin))) = Some (es, a)
    \<and> map_option (map queue_item_from_flat) (mirror 3 es None) = map_option (map no_headers) (app_items a)"
  using other_senders_follow_queue [of 3 "[(app_env_at 0, 1, None, PlayNew (FlatPlay (FQueue demo_queue))),
       (app_env_at 0, 2, None, InsertQueueItem (demo_flat_item ''c'') FBack)]" 0 demo_playbin]
  by (simp add: app_env_at_def del: run_operations_simps)

theorem refused_queue_replaces_item_witness:
  "\<exists>stripped a' q'. handle_operation (app_env_at 0) (PlayNew (FlatPlay (FQueue (demo_queue\<lparr>fq_start_index := Some 7\<rparr>))))
        (FromFCast 3 (Some 8)) demo_queue_app =
      Some ([ToOneSender 3 (RtfError QueuePositionOutOfRange (Some 8)), ToAllSenders (RtsV4 (V4Play 3 stripped))], a')
    \<and> ap_player a' = ap_player demo_queue_app \<and> app_queue a' = Some q' \<and> qs_current_idx q' = 7
    \<and> qs_items q' = map queue_item_from_flat (fq_items demo_queue) \<and> \<not> queue_ok q'"
  using refused_queue_replaces_item [of "app_env_at 0" demo_queue_app 3
      "demo_queue\<lparr>fq_start_index := Some 7\<rparr>" 7 "Some 8"]
  by (simp add: app_env_at_def demo_queue_def demo_queue_app_def)

end
