(* ===== verification/App_Parked_Proofs.thy ===== *)
theory App_Parked_Proofs
  imports App_Queue_Proofs
begin

text \<open>
  Properties of what the application parks and what it checks later: a seek that waits until the pipeline
  knows whether it can seek, and the check of an external subtitle, which outlives the input it was armed for.
\<close>

section \<open>Parked seeks\<close>

definition seek_events :: "(app_env \<times> packet_origin \<times> clock_time) list \<Rightarrow> (app_env \<times> app_message) list" where
  "seek_events seeks = map (\<lambda>(env, origin, time). (env, MsgOp origin (SeekTo time))) seeks"

definition parked :: "packet_origin \<Rightarrow> clock_time \<Rightarrow> u64 \<Rightarrow> application \<Rightarrow> application" where
  "parked origin time epoch a = a\<lparr>ap_pending_seek_op := Some (origin, time), ap_pending_seek_epoch := epoch\<rparr>"

lemma parked_simps [simp]:
  "ap_player (parked origin time epoch a) = ap_player a" "is_playing (parked origin time epoch a) = is_playing a"
  "ap_pending_seek_op (parked origin time epoch a) = Some (origin, time)"
  "ap_pending_seek_epoch (parked origin time epoch a) = epoch"
  "parked origin time epoch (parked o1 t1 e1 a) = parked origin time epoch a"
  by (simp_all add: parked_def is_playing_def)

lemma operation_seek_parks:
  assumes "is_playing a" and "\<not> pl_seekable_known (ap_player a)"
  shows "handle_event env (MsgOp origin (SeekTo time)) a =
    Some ([Later (PendingSeekCheckAfter (ap_pending_seek_epoch a + 1))], parked origin time (ap_pending_seek_epoch a + 1) a)"
  using assms by (simp add: handle_event_def handle_operation_def operation_seek_def app_get_def app_when_def
      app_update_def app_effect_def parked_def)

lemma seek_events_park:
  assumes "is_playing a" and "\<not> pl_seekable_known (ap_player a)"
  shows "run_event_loop (seek_events (seeks @ [(env, origin, time)])) a =
    Some (map (\<lambda>k. Later (PendingSeekCheckAfter (ap_pending_seek_epoch a + of_nat k))) [1..<length seeks + 2],
      parked origin time (ap_pending_seek_epoch a + of_nat (length seeks + 1)) a)"
  using assms
proof (induction seeks arbitrary: a)
  case Nil
  then show ?case by (simp add: seek_events_def operation_seek_parks)
next
  case (Cons s seeks)
  obtain e1 o1 t1 where s: "s = (e1, o1, t1)" by (cases s)
  have sums: "ap_pending_seek_epoch a + 1 + of_nat k = ap_pending_seek_epoch a + of_nat (Suc k)" for k by simp
  have upt: "[1..<length (s # seeks) + 2] = 1 # map Suc [1..<length seeks + 2]"
    by (simp add: upt_conv_Cons map_Suc_upt del: upt_Suc)
  from Cons.IH [of "parked o1 t1 (ap_pending_seek_epoch a + 1) a"] Cons.prems
  show ?case unfolding upt
    by (simp add: seek_events_def s operation_seek_parks comp_def add_ac del: upt_Suc)
qed

lemma seek_now_total:
  "\<exists>es a'. seek_now env origin time a = Some (es, a') \<and> ap_pending_seek_op a' = ap_pending_seek_op a"
  by (cases origin) (auto simp: seek_now_def app_get_def on_player_def send_error_def app_when_def app_effect_def
      split: option.split prod.split)

text \<open>The parked seek is done as if it had been asked for once the pipeline knows that it can seek.\<close>

lemma parked_seek_resolves:
  assumes "is_playing a" and "pl_seekable_known (ap_player a)" and "ap_pending_subtitle_adds a = []"
  shows "\<exists>es a'. on_media_info_updated env (parked origin time epoch a) = Some (es, a')
    \<and> handle_operation env (SeekTo time) origin (a\<lparr>ap_pending_seek_op := None, ap_pending_seek_epoch := epoch + 1\<rparr>) = Some (es, a')
    \<and> ap_pending_seek_op a' = None"
proof -
  let ?a = "a\<lparr>ap_pending_seek_op := None, ap_pending_seek_epoch := epoch + 1\<rparr>"
  obtain es a' where s: "seek_now env origin time ?a = Some (es, a')" "ap_pending_seek_op a' = None"
    using seek_now_total [of env origin time ?a] by auto
  have "on_media_info_updated env (parked origin time epoch a) = Some (es, a')"
    using assms s by (simp add: on_media_info_updated_def maybe_apply_pending_subtitle_adds_def
        maybe_apply_pending_seek_def app_get_def app_when_def app_update_def parked_def)
  moreover have "handle_operation env (SeekTo time) origin ?a = Some (es, a')"
    using assms s by (simp add: handle_operation_def operation_seek_def app_get_def app_when_def is_playing_def)
  ultimately show ?thesis using s(2) by blast
qed

text \<open>
  C37: a seek made before the pipeline knows whether it can seek is not lost: of any number of them the last
  one waits, the timers of the others leave it alone, and when the answer comes it is done, once, exactly as
  a seek made then.
\<close>

theorem last_parked_seek_is_done:
  assumes "is_playing a" and "\<not> pl_seekable_known (ap_player a)" and "ap_pending_subtitle_adds a = []"
    and "length seeks < 2 ^ 64 - 1" and "pl_seekable_known p"
  shows "\<exists>a1 es a2.
      run_event_loop (seek_events (seeks @ [(env, origin, time)])) a =
        Some (map (\<lambda>k. Later (PendingSeekCheckAfter (ap_pending_seek_epoch a + of_nat k))) [1..<length seeks + 2], a1)
    \<and> list_all (\<lambda>k. handle_event env' (MsgPendingSeekCheck (ap_pending_seek_epoch a + of_nat k)) a1 = Some ([], a1))
        [1..<length seeks + 1]
    \<and> on_media_info_updated env' (a1\<lparr>ap_player := p\<rparr>) = Some (es, a2)
    \<and> handle_operation env' (SeekTo time) origin (a1\<lparr>ap_player := p, ap_pending_seek_op := None,
        ap_pending_seek_epoch := ap_pending_seek_epoch a1 + 1\<rparr>) = Some (es, a2)
    \<and> ap_pending_seek_op a2 = None"
proof -
  let ?e = "ap_pending_seek_epoch a + of_nat (length seeks + 1)"
  let ?a1 = "parked origin time ?e a" and ?p = "a\<lparr>ap_player := p\<rparr>"
  have "(of_nat k :: u64) \<noteq> of_nat (length seeks + 1)" if "k < length seeks + 1" for k
  proof
    assume "(of_nat k :: u64) = of_nat (length seeks + 1)"
    then have "unat (of_nat k :: u64) = unat (of_nat (length seeks + 1) :: u64)" by (rule arg_cong)
    then have "k mod 2 ^ 64 = (length seeks + 1) mod 2 ^ 64" unfolding unat_of_nat by simp
    with that assms(4) show False by simp
  qed
  then have "list_all (\<lambda>k. handle_event env' (MsgPendingSeekCheck (ap_pending_seek_epoch a + of_nat k)) ?a1 = Some ([], ?a1))
      [1..<length seeks + 1]"
    by (auto simp: list_all_iff handle_event_def app_get_def app_when_def)
  moreover have "?a1\<lparr>ap_player := p\<rparr> = parked origin time ?e ?p"
    "?a1\<lparr>ap_player := p, ap_pending_seek_op := None, ap_pending_seek_epoch := ap_pending_seek_epoch ?a1 + 1\<rparr>
      = ?p\<lparr>ap_pending_seek_op := None, ap_pending_seek_epoch := ?e + 1\<rparr>"
    by (simp_all add: parked_def)
  moreover have "is_playing ?p" "pl_seekable_known (ap_player ?p)" "ap_pending_subtitle_adds ?p = []"
    using assms(1,3,5) by (simp_all add: is_playing_def)
  ultimately show ?thesis
    using parked_seek_resolves [of ?p env' origin time ?e] seek_events_park [OF assms(1,2)] by metis
qed

section \<open>The check of an external subtitle\<close>

lemma update_tracks_forced: "\<exists>es. update_tracks env True a = Some (es, a)"
  by (auto simp: update_tracks_def Let_def app_when_def broadcast_update_def app_effect_def gui_def)

lemma find_external_update:
  "find_external i subs = Some s \<Longrightarrow> es_id (f s) = i \<Longrightarrow> find_external i (update_external i f subs) = Some (f s)"
  unfolding find_external_def by (induction subs) (auto split: if_splits)

lemma ids_update: "(\<And>s. es_id s = i \<Longrightarrow> es_id (f s) = i) \<Longrightarrow> map es_id (update_external i f subs) = map es_id subs"
  by (induction subs) auto

lemma find_external_removed:
  "distinct (map es_id subs) \<Longrightarrow> find_external i subs = Some s \<Longrightarrow> find_external i (remove1 s subs) = None"
proof -
  assume d: "distinct (map es_id subs)" and s: "find_external i subs = Some s"
  then have "es_id s = i" "s \<in> set subs" by (auto simp: find_external_def List.find_Some_iff)
  moreover have "set (remove1 s subs) = set subs - {s}" "inj_on es_id (set subs)"
    using d by (simp_all add: distinct_map)
  ultimately show ?thesis by (auto simp: find_external_def find_None_iff inj_on_def)
qed

text \<open>The entry after it has been armed again.\<close>

definition rearmed :: "app_env \<Rightarrow> u64 \<Rightarrow> external_subtitle \<Rightarrow> external_subtitle" where
  "rearmed env handle s = s\<lparr>es_handle := Some handle, es_stream_sid := None, es_attached_at := ae_now env\<rparr>"

lemma rearm_run:
  assumes "ap_current_media a = Some m" and "find_external i (ms_external_subtitles m) = Some s"
    and "case ms_sub_desire m of Some d \<Rightarrow> sd_ext_id d \<noteq> i | None \<Rightarrow> True"
    and "es_stream_sid s = None \<or> es_stream_sid s \<noteq> ts_subtitle (pl_selected (ap_player a))"
    and "FCAST_REARM_DEBOUNCE \<le> ae_now env - es_attached_at s"
  shows "\<exists>es handle p. fail_or_rearm_fcast_external env i a = Some (es, a\<lparr>ap_player := p,
      ap_current_media := Some (m\<lparr>ms_external_subtitles := update_external i (rearmed env handle) (ms_external_subtitles m)\<rparr>)\<rparr>)
    \<and> Later (ExternalSubCheckAfter (ap_current_media_item_id a) i) \<in> set es"
proof -
  obtain handle calls p where att: "attach_external_subtitle (es_url s) (ap_player a) = (handle, calls, p)"
    by (cases "attach_external_subtitle (es_url s) (ap_player a)")
  have r: "rearmed env handle = (\<lambda>s. s\<lparr>es_handle := Some handle, es_stream_sid := None, es_attached_at := ae_now env\<rparr>)"
    by (simp add: rearmed_def fun_eq_iff)
  have "\<exists>es. fail_or_rearm_fcast_external env i a = Some (es, a\<lparr>ap_player := p,
      ap_current_media := Some (m\<lparr>ms_external_subtitles := update_external i (rearmed env handle) (ms_external_subtitles m)\<rparr>)\<rparr>)
    \<and> Later (ExternalSubCheckAfter (ap_current_media_item_id a) i) \<in> set es"
    using assms att unfolding r
    by (cases "es_handle s")
      (auto simp: fail_or_rearm_fcast_external_def app_get_def the_externals_def detach_external_def on_player_def
        on_player_step_def update_media_def app_update_def arm_external_sub_watchdog_def app_effect_def
        Let_def split: option.splits)
  then show ?thesis by blast
qed

lemma fail_run:
  assumes "ap_current_media a = Some m" and "distinct (map es_id (ms_external_subtitles m))"
    and "find_external i (ms_external_subtitles m) = Some s" and "es_requested_by s = FromFCast sid n"
    and "map_of (ap_fcast_senders a) sid \<noteq> None"
  shows "\<exists>es a'. fail_fcast_external_subtitle env i a = Some (es, a')
    \<and> ToOneSender sid (RtfError ResourceNotFound n) \<in> set es \<and> find_external i (the_externals a') = None"
proof -
  let ?m = "m\<lparr>ms_external_subtitles := remove1 s (ms_external_subtitles m),
      ms_sub_desire := (case ms_sub_desire m of Some d \<Rightarrow> if sd_ext_id d = i then None else Some d | None \<Rightarrow> None)\<rparr>"
  obtain es where u: "update_tracks env True (a\<lparr>ap_current_media := Some ?m\<rparr>) = Some (es, a\<lparr>ap_current_media := Some ?m\<rparr>)"
    using update_tracks_forced by blast
  have "\<exists>es. fail_fcast_external_subtitle env i a = Some (es, a\<lparr>ap_current_media := Some ?m\<rparr>)
      \<and> ToOneSender sid (RtfError ResourceNotFound n) \<in> set es"
    using assms u by (cases "es_handle s")
      (auto simp: fail_fcast_external_subtitle_def app_get_def the_externals_def update_media_def app_update_def
        detach_external_def on_player_def send_error_def app_when_def app_effect_def)
  moreover have "find_external i (the_externals (a\<lparr>ap_current_media := Some ?m\<rparr>)) = None"
    using find_external_removed [OF assms(2,3)] by (simp add: the_externals_def)
  ultimately show ?thesis by blast
qed

text \<open>
  C39: the check of an external subtitle outlives the input it was armed for: when the input of a deselected
  subtitle fails it is opened again, with a check of its own; but the check of the first input, when it comes,
  finds the new one without a stream yet and removes the subtitle, with an error for who asked for it, however
  little time the new input has had.
\<close>

theorem stale_check_fails_rearmed_subtitle:
  assumes "ap_current_media a = Some m" and "distinct (map es_id (ms_external_subtitles m))"
    and "find_external i (ms_external_subtitles m) = Some s"
    and "case ms_sub_desire m of Some d \<Rightarrow> sd_ext_id d \<noteq> i | None \<Rightarrow> True"
    and "es_stream_sid s = None \<or> es_stream_sid s \<noteq> ts_subtitle (pl_selected (ap_player a))"
    and "FCAST_REARM_DEBOUNCE \<le> ae_now env - es_attached_at s"
    and "es_requested_by s = FromFCast sid n" and "map_of (ap_fcast_senders a) sid \<noteq> None"
  shows "\<exists>es a1 es' a2. fail_or_rearm_fcast_external env i a = Some (es, a1)
    \<and> Later (ExternalSubCheckAfter (ap_current_media_item_id a) i) \<in> set es
    \<and> find_external i (the_externals a1) \<noteq> None
    \<and> handle_event env' (MsgExternalSubCheck (ap_current_media_item_id a) i) a1 = Some (es', a2)
    \<and> ToOneSender sid (RtfError ResourceNotFound n) \<in> set es' \<and> find_external i (the_externals a2) = None"
proof -
  have i: "es_id s = i" using assms(3) by (auto simp: find_external_def List.find_Some_iff)
  obtain es handle p where r: "fail_or_rearm_fcast_external env i a = Some (es, a\<lparr>ap_player := p,
      ap_current_media := Some (m\<lparr>ms_external_subtitles := update_external i (rearmed env handle) (ms_external_subtitles m)\<rparr>)\<rparr>)"
      "Later (ExternalSubCheckAfter (ap_current_media_item_id a) i) \<in> set es"
    using rearm_run [OF assms(1,3-6)] by blast
  let ?m = "m\<lparr>ms_external_subtitles := update_external i (rearmed env handle) (ms_external_subtitles m)\<rparr>"
  let ?a = "a\<lparr>ap_player := p, ap_current_media := Some ?m\<rparr>"
  have f: "find_external i (ms_external_subtitles ?m) = Some (rearmed env handle s)"
    using find_external_update [OF assms(3)] i by (simp add: rearmed_def)
  have d: "distinct (map es_id (ms_external_subtitles ?m))"
    using assms(2) ids_update [of i "rearmed env handle"] by (simp add: rearmed_def)
  obtain es' a2 where e: "fail_fcast_external_subtitle env' i ?a = Some (es', a2)"
      "ToOneSender sid (RtfError ResourceNotFound n) \<in> set es'" "find_external i (the_externals a2) = None"
    using fail_run [of ?a ?m i "rearmed env handle s" sid n env'] f d assms(7,8) by (auto simp: rearmed_def)
  then have "handle_event env' (MsgExternalSubCheck (ap_current_media_item_id a) i) ?a = Some (es', a2)"
    using f by (simp add: handle_event_def external_sub_check_def app_get_def app_when_def the_externals_def rearmed_def)
  with r e f show ?thesis by (auto simp: the_externals_def)
qed

section \<open>Examples\<close>

definition demo_single_app :: application where
  "demo_single_app = (application_new 0 (snd (player_new demo_playbin)))
     \<lparr>ap_current_media := Some (media_state_new FromGui (SrcSingle (LegacyPlay mirroring_play_message))),
      ap_fcast_senders := [(3, \<lparr> fh_progress_interval = 0, fh_last_progress_update = 0 \<rparr>)]\<rparr>"

definition demo_subtitle :: external_subtitle where
  "demo_subtitle =
     \<lparr> es_id = EXTERNAL_TRACK_ID_BASE, es_url = ''http://s/'', es_name = None, es_requested_by = FromFCast 3 (Some 8),
       es_handle = Some 0, es_stream_sid = Some ''s'', es_attached_at = 0 \<rparr>"

definition demo_subtitle_app :: application where
  "demo_subtitle_app = demo_single_app\<lparr>ap_current_media := Some
     ((media_state_new FromGui (SrcSingle (LegacyPlay mirroring_play_message)))\<lparr>ms_external_subtitles := [demo_subtitle]\<rparr>)\<rparr>"

lemma demo_single_app_simps:
  "is_playing demo_single_app" "\<not> pl_seekable_known (ap_player demo_single_app)"
  "ap_pending_subtitle_adds demo_single_app = []"
  by (simp_all add: demo_single_app_def is_playing_def application_new_def player_new_def)

theorem last_parked_seek_is_done_witness:
  "\<exists>a1 es a2.
      run_event_loop (seek_events ([(app_env_at 0, FromGui, 5)] @ [(app_env_at 1, FromFCast 3 None, 9)])) demo_single_app =
        Some (map (\<lambda>k. Later (PendingSeekCheckAfter (ap_pending_seek_epoch demo_single_app + of_nat k))) [1..<3], a1)
    \<and> on_media_info_updated (app_env_at 2) (a1\<lparr>ap_player := (snd (player_new demo_playbin))\<lparr>pl_seekable_known := True\<rparr>\<rparr>) = Some (es, a2)
    \<and> ap_pending_seek_op a2 = None"
  using last_parked_seek_is_done [OF demo_single_app_simps, of "[(app_env_at 0, FromGui, 5)]"
      "(snd (player_new demo_playbin))\<lparr>pl_seekable_known := True\<rparr>" "app_env_at 1" "FromFCast 3 None" 9 "app_env_at 2"]
  by (auto simp: numeral_3_eq_3 simp del: upt_Suc)

theorem stale_check_fails_rearmed_subtitle_witness:
  "\<exists>es a1 es' a2. fail_or_rearm_fcast_external (app_env_at 5000) EXTERNAL_TRACK_ID_BASE demo_subtitle_app = Some (es, a1)
    \<and> Later (ExternalSubCheckAfter (ap_current_media_item_id demo_subtitle_app) EXTERNAL_TRACK_ID_BASE) \<in> set es
    \<and> find_external EXTERNAL_TRACK_ID_BASE (the_externals a1) \<noteq> None
    \<and> handle_event (app_env_at 5001) (MsgExternalSubCheck (ap_current_media_item_id demo_subtitle_app) EXTERNAL_TRACK_ID_BASE) a1
        = Some (es', a2)
    \<and> ToOneSender 3 (RtfError ResourceNotFound (Some 8)) \<in> set es'
    \<and> find_external EXTERNAL_TRACK_ID_BASE (the_externals a2) = None"
proof (rule stale_check_fails_rearmed_subtitle [where s = demo_subtitle
      and m = "(media_state_new FromGui (SrcSingle (LegacyPlay mirroring_play_message)))\<lparr>ms_external_subtitles := [demo_subtitle]\<rparr>"])
qed (simp_all add: demo_subtitle_app_def demo_single_app_def demo_subtitle_def media_state_new_def find_external_def
    application_new_def player_new_def FCAST_REARM_DEBOUNCE_def app_env_at_def selection_default_def)

end
