(* ===== verification/App_Buffering_Proofs.thy ===== *)
theory App_Buffering_Proofs
  imports App_Queue_Proofs
begin

text \<open>
  What senders are told of buffering, and what the two ways to load an item make of it.
\<close>

section \<open>Buffering\<close>

text \<open>The playback states that version 4 senders are told, in order.\<close>

definition told_states :: "app_effect list \<Rightarrow> flat_playback_state list" where
  "told_states es = List.map_filter (\<lambda>e. case e of ToAllSenders (RtsV4 (PlaybackStateChanged s)) \<Rightarrow> Some s | _ \<Rightarrow> None) es"

definition tells_no_state :: "app_effect \<Rightarrow> bool" where
  "tells_no_state e \<longleftrightarrow> (\<forall>s. e \<noteq> ToAllSenders (RtsV4 (PlaybackStateChanged s)))"

lemma told_states_append [simp]: "told_states (es @ es') = told_states es @ told_states es'"
  by (simp add: told_states_def map_filter_def)

lemma told_states_none: "(\<forall>e \<in> set es. tells_no_state e) \<Longrightarrow> told_states es = []"
  by (induction es) (auto simp: told_states_def map_filter_def tells_no_state_def split: app_effect.splits
      to_sender_message.splits v4_message.splits)

lemma told_states_calls [simp]: "told_states (map Pipeline calls) = []"
  by (rule told_states_none) (auto simp: tells_no_state_def)

lemma tells_no_state_simps [simp, keeps_intros]:
  "tells_no_state (ToCast u)" "tells_no_state (Gui c)" "tells_no_state (Pipeline call)"
  "tells_no_state (ToAllSenders (LegacyTranslatable op m))"
  by (simp_all add: tells_no_state_def)

lemma notify_tells_no_state:
  "\<exists>es a'. notify_updates env force a = Some (es, a') \<and> ap_player a' = ap_player a \<and> told_states es = []"
proof -
  have "maintains (\<lambda>a'. ap_player a' = ap_player a) tells_no_state (notify_updates env force)"
    unfolding notify_updates_def release_seek_hold_if_landed_def Let_def by (intro keeps_intros; simp)
  then show ?thesis unfolding maintains_def using told_states_none by blast
qed

text \<open>One report of the pipeline, with what the machine makes of it.\<close>

lemma buffering_event:
  assumes "buffering percent (pl_machine (ap_player a)) = Some (res, sm)"
  shows "\<exists>calls p. pl_machine p = sm \<and> handle_player_event env (EvBuffering percent) None a =
    map_option (\<lambda>(es, a'). (map Pipeline calls @ es, a'))
      (app_when (fst (buffering_calls res)) [notify_updates env True, app_playback_state_changed env FBuffering]
        (a\<lparr>ap_player := p\<rparr>))"
proof -
  obtain calls p where p: "then_pump (ae_answers env) (snd (buffering_calls res), (ap_player a)\<lparr>pl_machine := sm\<rparr>) = (calls, p)"
    by fastforce
  from pumped_machine(2) [OF p] have "pl_machine p = sm" by simp
  moreover have "player_buffering (ae_answers env) percent (ap_player a) = Some (fst (buffering_calls res), calls, p)"
    using assms p by (simp add: player_buffering_def case_prod_beta)
  ultimately show ?thesis
    by (intro exI [of _ calls] exI [of _ p])
      (simp add: handle_player_event_def app_get_def app_when_def event_admitted_def player_event_step_def
        on_buffering_def on_player_step_def option.map_comp comp_def case_prod_beta split: option.splits)
qed

text \<open>
  C40: version 4 senders are told that the receiver buffers when it has finished: when the buffer of a paused
  player runs low they are told nothing; when it is full again, and the player is paused as before, they are
  told that it buffers, and nothing after that.
\<close>

theorem buffering_told_when_over:
  assumes "sm_phase (pl_machine (ap_player a)) = Running Rs_Paused" and "slot (pl_machine (ap_player a)) = Slot_None"
    and "current_state (pl_machine (ap_player a)) = gst_state.Paused" and "percent < 100" and "ae_listening env'"
  shows "\<exists>es a1 es' a2. handle_player_event env (EvBuffering percent) None a = Some (es, a1)
    \<and> player_state_of (ap_player a1) = PlBuffering \<and> told_states es = []
    \<and> handle_player_event env' (EvBuffering 100) None a1 = Some (es', a2)
    \<and> player_state_of (ap_player a2) = PlPaused \<and> told_states es' = [FBuffering]"
proof -
  let ?sm = "(pl_machine (ap_player a))\<lparr>target := gst_state.Paused, slot := Slot_None, sm_phase := Buffering percent\<rparr>"
  have "buffering percent (pl_machine (ap_player a)) = Some (Started gst_state.Paused, ?sm)"
    using assms(1,2,4) by (simp add: buffering_def)
  from buffering_event [OF this, of env] obtain calls p where 1: "pl_machine p = ?sm"
      "handle_player_event env (EvBuffering percent) None a = Some (map Pipeline calls, a\<lparr>ap_player := p\<rparr>)"
    by (auto simp: app_when_def)
  let ?a1 = "a\<lparr>ap_player := p\<rparr>" and ?sm2 = "?sm\<lparr>sm_phase := Running Rs_Paused\<rparr>"
  have "buffering 100 (pl_machine (ap_player ?a1)) = Some (Finished None, ?sm2)"
    using assms(3) by (simp add: buffering_def 1 Let_def)
  from buffering_event [OF this, of env'] obtain calls' p' where 2: "pl_machine p' = ?sm2"
      "handle_player_event env' (EvBuffering 100) None ?a1 = map_option (\<lambda>(es, a'). (map Pipeline calls' @ es, a'))
        (app_do [notify_updates env' True, app_playback_state_changed env' FBuffering] (a\<lparr>ap_player := p'\<rparr>))"
    by (auto simp: app_when_def)
  obtain es a2 where 3: "notify_updates env' True (a\<lparr>ap_player := p'\<rparr>) = Some (es, a2)" "ap_player a2 = p'" "told_states es = []"
    using notify_tells_no_state [of env' True "a\<lparr>ap_player := p'\<rparr>"] by auto
  have "app_playback_state_changed env' FBuffering a2 = Some ([ToAllSenders (RtsV4 (PlaybackStateChanged FBuffering))], a2)"
    using assms(5) by (simp add: app_playback_state_changed_def app_when_def should_broadcast_def broadcast_update_def
        app_effect_def)
  moreover have "told_states [ToAllSenders (RtsV4 (PlaybackStateChanged FBuffering))] = [FBuffering]"
    by (simp add: told_states_def map_filter_def)
  moreover have "player_state_of p = PlBuffering" "player_state_of p' = PlPaused"
    by (simp_all add: player_state_of_def 1 2 running_def is_stopped_def)
  ultimately show ?thesis using 1 2 3 by auto
qed

theorem buffering_told_when_over_witness:
  "\<exists>es a1 es' a2. handle_player_event (app_env_at 0) (EvBuffering 50) None
      (demo_queue_app\<lparr>ap_player := (demo_player (Running Rs_Paused))\<lparr>pl_machine := sm_new\<lparr>sm_phase := Running Rs_Paused,
        current_state := gst_state.Paused\<rparr>\<rparr>\<rparr>) = Some (es, a1)
    \<and> player_state_of (ap_player a1) = PlBuffering \<and> told_states es = []
    \<and> handle_player_event (app_env_at 1) (EvBuffering 100) None a1 = Some (es', a2)
    \<and> player_state_of (ap_player a2) = PlPaused \<and> told_states es' = [FBuffering]"
  by (rule buffering_told_when_over) (simp_all add: sm_new_def app_env_at_def)

section \<open>The two ways to load an item\<close>

text \<open>
  The same item as a load of its own and as a queue: on its own it loses its request headers, its title and
  its thumbnail.
\<close>

lemma single_item_loses_headers:
  "current_item (SrcQueue \<lparr> qs_items = [queue_item_from_flat \<lparr> fqi_media_item = m, fqi_playback_duration = None \<rparr>],
      qs_current_idx = 0 \<rparr>) = Inr (Inr it) \<Longrightarrow>
    mi_headers it = map_option headers_map (fmi_headers m)
    \<and> current_item (SrcSingle (FlatPlay (FSingle m))) = Inr (Inr (it\<lparr>mi_headers := None, mi_metadata := None\<rparr>))"
  by (auto simp: current_item_def queue_item_from_flat_def to_media_item_def media_item_default_def Let_def)

end
