(* ===== verification/Spec2Isabelle.thy ===== *)
theory Spec2Isabelle
  imports Fast_Connection Net_Stream Driver_Proofs Playback_Proofs Legacy_Messages V3_Messages
    V4_Builder Ump Segment Track_Buffer Sabr_Progress Sdk_Flows Player_Flows Player_Transport
    App_Tidy App_Parked_Proofs App_Buffering_Proofs
begin

text \<open>
  A verification development for FCast: a wireless media casting protocol, its receivers and its
  sender SDK (Rust, a workspace under src/).

  The parts of the program and how they meet. A sender opens a TCP connection to a receiver and
  both exchange length-prefixed packets (src/crates/fcast-protocol). After the plaintext \<open>Version\<close>
  packets a version 4 session continues under TLS. The bodies are JSON in versions 1 to 3 and
  flatbuffers in version 4. Local media is served over the same connection as companion resources:
  the receiver requests ranges and the sender answers in parts. The receiver drives a GStreamer
  pipeline through a playback state machine (src/crates/fcastplaybin); SABR streams are requested, parsed
  and buffered by src/crates/sabrump. Between them, the receiver's session (src/crates/receiver-core)
  turns packets into operations of the application and its updates into packets. On the other side the
  sender SDK (src/sdk/sender/fcast-sender-sdk) gives the application a device: a handle whose methods send
  commands to a worker, which connects, negotiates the version, turns the commands into packets and the
  receiver's packets into events of the application.

  Theories and the code they model.
    \<^item> Prelude: machine types, panicking slices, wrap-around, byte strings, decimal numbers, sorted maps
      (\<open>BTreeMap\<close> as its entries in key order), result types.
    \<^item> Opcode, Packet_Reader, Framing: \<open>Opcode\<close> and \<open>PacketReader\<close> of fcast-protocol/src/lib.rs, and the
      writers of receiver, SDK and test client. The record \<open>packet_reader\<close> has the struct's fields; each
      method is a function of the same name, \<open>None\<close> a panic. Framing states the contract of a reader
      as the locale \<open>framed_reader\<close>, interpreted on both input interfaces (\<open>push_data\<close>, and
      \<open>spare_capacity_mut\<close> with \<open>commit\<close>); \<open>get_packet\<close> refines the parser \<open>parse_frame\<close> on \<open>pending\<close>.
    \<^item> Fast_Connection: \<open>Connection\<close> of tools/fast/src/engine.rs over the packet reader.
    \<^item> Net_Stream: \<open>PrefixedRead\<close>, \<open>NetworkStream\<close> and the certificate verifier of
      fcast-protocol/src/receiver.rs and sender.rs. The theorem of this file joins it to the reader.
    \<^item> Companion, Companion_Service: the response codec of fcast-protocol/src/companion.rs, the SDK's
      \<open>handle_resource_request\<close> loop, the receiver's request queue, and the test client's provider; the main
      theorem is the fetch end to end. \<open>read_session\<close> is the session's read loop while nothing but resource
      packets comes in (the whole loop is in Session_Driver), and the file whose metadata or seek fails is
      handled by the caller of the loop, \<open>sdk_resource_request\<close> of Sdk_Device.
    \<^item> Session_State, Session_Output, Session_Driver: \<open>State::advance\<close>, the packet and message codecs, and
      \<open>SessionDriver\<close> of receiver-core/src/fcast.rs. The record \<open>state\<close> is the struct; an event gives an
      action or an error and the next state; the driver turns actions into the list of its effects
      (bytes sent, operations of the application). One turn of \<open>select!\<close> is \<open>run_turn\<close>. Session_Proofs and
      Driver_Proofs hold the properties; the locale \<open>invariant_system\<close> of the prelude is interpreted for
      the session's invariants.
    \<^item> Session_Stream: the same session as a function of the packets alone (\<open>packet_step\<close>, \<open>packets_run\<close>), which
      the loop refines for every segmentation.
    \<^item> Sdk_State, Sdk_Device, Sdk_Worker: the FCast device of the sender SDK (fcast.rs, device.rs, utils.rs).
      \<open>state_machine\<close> is \<open>DeviceStateMachine\<close> with its packet handlers, \<open>inner_device\<close> is \<open>InnerDevice\<close>, \<open>connection\<close>
      the local variables of \<open>inner_work\<close>. A step gives its effects in order (packets, events of the
      application, handshakes, descriptions for the signaller), the connection and an outcome: go on,
      quit, fail or panic. One turn of \<open>select!\<close> is \<open>sdk_turn\<close>, one connection \<open>inner_work\<close>, and \<open>sdk_work\<close> the
      loop of connections of utils.rs.
    \<^item> Sdk_Addr, Sdk_Api: addresses and device descriptions (lib.rs, device.rs), connection URLs, and the handle
      \<open>FCastDevice\<close>: each method gives a result and the handle with the commands sent so far.
    \<^item> Sdk_Proofs, Sdk_Handshake, Sdk_Flows: properties of the device. The locale \<open>step_property\<close> carries a property
      of a step to a connection's whole run; its interpretations give the pinned device and the number of
      reports. Then the version negotiation, error paths, and properties that span several requests.
    \<^item> Sdk_Interop: sender and receiver together, from a command of the application on one side to an
      operation of the application on the other.
    \<^item> Json, Legacy_Messages, V3_Messages: serde's JSON bodies of versions 1 to 3 on JSON values. The
      locale \<open>json_codec\<close> (what is serialised is read back) is interpreted for every structure.
    \<^item> V4_Builder: \<open>MessageBuilder\<close> and \<open>read_extra_metadata\<close> of fcast-protocol/src/v4.rs.
    \<^item> Playback_Machine, Playback_Proofs: \<open>StateMachine\<close> of fcastplaybin/src/state_machine.rs, every
      operation; then its reachable states, invariant, convergence and the seek discipline.
    \<^item> Floats: the double and single precision values the code compares, clamps and converts, as IEEE bit
      patterns; used by the SDK and the player.
    \<^item> Track_Ops, Player, Player_Events: \<open>TrackOps\<close> and \<open>Player\<close> of receiver-core/src/player.rs over the playback
      machine: an operation gives the calls to the pipeline (\<open>playbin_call\<close>) in order and the new player. The
      events that come back (fcastplaybin/src/lib.rs, the filter of application.rs), the worker's seeks, and the
      whole interface as \<open>player_call\<close> with \<open>player_run\<close>. Player_Proofs, Player_Flows and Player_Transport hold the
      properties: no panic, the volume, track changes, loads, and the requests that are lost.
    \<^item> App_State, App_Playback, App_Load, App_Tracks, App_Events: \<open>Application\<close> of receiver-core/src/application.rs,
      which joins the sessions, the player and the window. The record \<open>application\<close> keeps the fields that the
      modelled part reads; a method is a step (\<open>app_step\<close>) that gives its effects in order and the new state,
      composed by \<open>app_do\<close>; what an event finds outside is the record \<open>app_env\<close>. One event is \<open>handle_event\<close>, the
      loop \<open>run_event_loop\<close>; the waits of spawned tasks are the effect \<open>Later\<close>, and their messages are events like
      the others. Float_Arith has the arithmetic of doubles that it needs. App_Proofs states what a step keeps
      (\<open>maintains\<close>, total correctness with an invariant and a property of the effects, one rule per construct), App_Safety
      carries it through every method, App_Tidy does so for what holds between events (steps that break it on
      the way are composed by what each needs and leaves, \<open>leads\<close>); App_Queue_Proofs, App_Parked_Proofs and App_Buffering_Proofs hold the
      queue, what is parked or checked later, and what senders are told of buffering.
    \<^item> Ump, Segment, Track_Buffer: \<open>UmpReader\<close>, \<open>SabrSegment\<close> and \<open>SabrTrackBuffer\<close> of sabrump.
      Segments are shared objects: a track buffer holds addresses into a heap of segments, and the
      steps of several tasks interleave (\<open>seg_step\<close>, \<open>buf_step\<close>).
    \<^item> Sabr_Session, Sabr_Media, Sabr_Pump: sabrump/src/session.rs over these: the state behind the mutex
      (\<open>state\<close> in \<open>shared\<close>) with the handle's operations, the consumer of a response, and requests with
      the pump. A run takes the environment of each turn: the server as a function of the request, the
      results of the clock, and the calls other tasks make at each wait. Sabr_Proofs and Sabr_Progress
      hold the properties: what is left in the buffers, what a request claims, seeks and restarts, and
      how long the pump tries.

  What the groups of lemmas show. Reassembly: for every cut of the byte stream the packets (and the UMP
  parts) come out whole and in order, with no panic. Codecs: round trips, and where a codec accepts or
  loses something, exactly what. State machines: invariants of the reachable states by rule induction,
  progress within a stated number of steps, requests neither lost nor undone. Devices: what a pinned
  device refuses, what a command becomes at the receiver, which requests end a connection. Application: whom an
  error answers, what the other senders can follow, and what outlives its purpose. Buffers: the loops over
  segments agree with one specification, the longest run of consecutive segments with a property.

  Bounds and fuel. \<open>read_loop\<close> calls the extraction at most as often as the buffer has bytes: every
  extracted packet consumes at least the four bytes of its length. \<open>LOOP_FUEL\<close> in Fast_Connection
  covers a full buffer in the same way, \<open>read_parts\<close> takes one more call than there are parts, and
  \<open>converge\<close> is given four steps, which the theorem proves enough. \<open>packet_loop\<close> has one turn per
  buffered byte and one more, \<open>consume_loop\<close> one more turn than the response has bytes; both are proved
  enough (\<open>session_turn_total\<close>, \<open>pump_once_None_iff\<close>), and so is that of \<open>sdk_packet_loop\<close> (\<open>sdk_turn_returns\<close>).
  \<open>pump_loop\<close> of the player ends because every track operation uses up waiting work (\<open>work_left\<close>).
  \<open>fresh_source\<close> looks at one id more than there are files. The loops that send a resource have a
  \<open>termination\<close> proof or consume a list.

  Reads. A loop lends the whole spare tail of its reader's buffer to a read, which is at least
  \<open>READ_HEADROOM\<close> (\<open>SDK_READ_HEADROOM\<close>) and grows with what has been consumed. The theorems on segmentation allow
  every read up to that tail at its moment: \<open>reads_fit\<close>, \<open>read_fits\<close>, \<open>session_reads\<close>.

  Parameters. TCP and TLS streams, x509 and SHA-256, base64, the text layer of serde_json, flatbuffer
  and protobuf coding, HTTP, files and file systems, clocks and the integer to float cast are arguments of the definitions that use them; what is
  assumed of them is written in the theorems. Of the sender's worker: a write to its stream succeeds, the
  request ids wrap as in a release build, a command that arrives while connecting is dropped as the
  code drops it, and a hash map is an association list. Of the player: whether the pipeline is busy, the
  sequence number drawn and whether a selection is accepted are the answers of each round of its pump
  (\<open>pump_answer\<close>); tags, language names, seekability, duration and the cast of a rate are arguments. Of the application: the clock in
  milliseconds, position and duration, the window, the settings, the elements that sources are built as and
  whether a session listens (\<open>app_env\<close>); the hash map of senders is an association list, an index of the queue
  that is added to wraps as in a release build, and a channel to a task of the application is never closed.

  Not modelled: the byte layout of flatbuffers and the generated code, GStreamer elements and graphs,
  GUIs, discovery, platform bindings, AirPlay, Google Cast and the SDK's Chromecast device, and the timing of asynchronous waits
  (a timeout is a decision of the environment). Of the application loop, RAOP, AirPlay, discovery, updates, the inspector
  and the drawing of buffered ranges are left out. Where threads share state under a lock, each locked section is one
  step; the SABR pump's sections between two waits are taken together, so calls of other tasks come at its
  waits only, and a fetch or a read of a response always comes back, with data or an error.
\<close>

section \<open>From plaintext to TLS\<close>

text \<open>
  C15: the switch to TLS loses no byte: when a session's reader holds the plaintext \<open>Version\<close> packet
  followed by the first bytes of the TLS handshake, the packet is read, the drained prefix is exactly
  those bytes, and the stream handed to the TLS acceptor delivers them first and then the socket.
\<close>

theorem tls_handover_lossless:
  fixes inner_poll :: "'s \<Rightarrow> nat \<Rightarrow> 'e poll \<times> 's"
  assumes "reader_wf r" and "pending r = frame p @ early" and "packet_ok (max_packet_size r) p"
    and "length early \<le> length caps" and "\<forall>c \<in> set caps. 0 < c"
  shows "\<exists>r1 r2 drained. get_packet r = Some (Read p, r1) \<and> drain_unparsed r1 = Some (drained, r2) \<and>
    pending r2 = [] \<and>
    collected (fst (poll_all (prefixed_poll_read inner_poll) (prefixed_read_new drained s) caps)) =
      early @ collected (fst (poll_all inner_poll s (polls_left (length early) caps)))"
proof -
  obtain r1 where r1: "get_packet r = Some (fst (parse_frame (max_packet_size r) (pending r)), r1)"
      "reader_wf r1" "pending r1 = snd (parse_frame (max_packet_size r) (pending r))"
    using get_packet_spec [OF assms(1)] by blast
  have pf: "parse_frame (max_packet_size r) (pending r) = (Read p, early)"
    unfolding assms(2) by (rule parse_frame_frame [OF assms(3)])
  obtain r2 where r2: "drain_unparsed r1 = Some (pending r1, r2)" "pending r2 = []"
    using drain_unparsed_spec [OF r1(2)] by blast
  from replay [OF assms(4,5), of inner_poll s] r1 r2 pf show ?thesis by simp
qed

lemma tls_handover_lossless_witness:
  "\<exists>r1 r2 drained. get_packet (appended (reader_new 8 8) (frame [11] @ [22, 3])) = Some (Read [11], r1) \<and>
     drain_unparsed r1 = Some (drained, r2) \<and>
     collected (fst (poll_all (prefixed_poll_read (\<lambda>s cap. (Ready_Ok (take cap s) :: unit poll, drop cap s)))
       (prefixed_read_new drained [1]) [4, 4])) = [22, 3, 1 :: u8]"
proof -
  let ?r = "appended (reader_new 8 8) (frame [11] @ [22, 3])"
  let ?p = "\<lambda>s cap. (Ready_Ok (take cap s) :: unit poll, drop cap s)"
  have f: "frame [11] = [1, 0, 0, 0, 11 :: u8]" by code_simp
  have r: "reader_wf ?r" "pending ?r = frame [11] @ [22, 3]" "max_packet_size ?r = 8"
    by (simp_all add: f reader_wf_def appended_def reader_new_def pending_def discard_consumed_def)
  have "packet_ok (max_packet_size ?r) [11]" by (simp add: r packet_ok_def)
  from tls_handover_lossless [OF r(1,2) this, of "[4, 4]" ?p "[1]"] show ?thesis by auto
qed

end
